(* ===== verification/Prelude.thy ===== *)
theory Prelude
  imports Main "HOL-Library.Word"
begin

text \<open>
  What every component of the Lissandra model shares: the type synonyms for the C types, the
  C idioms the sources lean on (NUL-terminated strings inside byte buffers, little-endian
  integers as \<open>memcpy\<close>, \<open>fwrite\<close> and \<open>fread\<close> see them, \<open>printf\<close>'s decimal conversion and
  \<open>strtol\<close>'s parsing), the errors a C run can end in, and the interface of the part of the
  third-party \<open>so-commons\<close> library the sources call.

  Bytes are HOL characters, so copying a string into a buffer is the identity. The platform is
  the one the build targets: LP64, little-endian, \<open>char\<close> signed. A \<open>t_list\<close> of the commons is a
  HOL list (\<open>list_add\<close> appends, \<open>list_get\<close> is \<open>!\<close>, \<open>list_size\<close> is \<open>length\<close>), a \<open>t_bitarray\<close> the
  list of its bits.
\<close>

named_theorems cstr_simps \<open>C strings and buffers\<close>
named_theorems le_simps \<open>little-endian integers\<close>
named_theorems dec_simps \<open>decimal printing and parsing\<close>

section \<open>Types\<close>

type_synonym byte = char
type_synonym bytes = "char list"
type_synonym u16 = "16 word"

text \<open>
  How a C run goes wrong where the source does not check: a null pointer is dereferenced (also
  a \<open>FILE*\<close> from a failed \<open>fopen\<close>), memory is used after it was freed, read past its end or before it is written, an
  integer is divided by zero, a number outside an enumeration is taken for one of its constants, a
  \<open>void*\<close> is cast to the wrong structure, a loop is entered that is never left.
  \<open>Blocked\<close> is no error but a call that waits on a semaphore another thread holds.
\<close>

datatype c_error =
  Null_Pointer | Freed | Out_Of_Bounds | Uninitialised | Div_By_Zero | Bad_Enum | Bad_Cast | Never_Returns | Blocked

type_synonym 'a result = "c_error + 'a"

definition rbind :: "'a result \<Rightarrow> ('a \<Rightarrow> 'b result) \<Rightarrow> 'b result" where
  "rbind r f = (case r of Inl e \<Rightarrow> Inl e | Inr x \<Rightarrow> f x)"

lemma rbind_simps [simp]:
  "rbind (Inl e) f = Inl e"
  "rbind (Inr x) f = f x"
  by (simp_all add: rbind_def)

lemma rbind_Inr_iff: "rbind r f = Inr y \<longleftrightarrow> (\<exists>x. r = Inr x \<and> f x = Inr y)"
  by (cases r) auto

lemma rbind_assoc: "rbind (rbind r f) g = rbind r (\<lambda>x. rbind (f x) g)"
  by (cases r) auto

text \<open>The ranges of the signed C types.\<close>

definition fits_int :: "int \<Rightarrow> bool" where
  "fits_int x \<longleftrightarrow> - (2 ^ 31) \<le> x \<and> x < 2 ^ 31"

definition fits_long :: "int \<Rightarrow> bool" where
  "fits_long x \<longleftrightarrow> - (2 ^ 63) \<le> x \<and> x < 2 ^ 63"

definition int_cast :: "int \<Rightarrow> int" where
  \<comment> \<open>the conversion to a 32-bit \<open>int\<close>\<close>
  "int_cast x = signed_take_bit 31 x"

definition trunc_mod :: "int \<Rightarrow> int \<Rightarrow> int" where
  \<comment> \<open>C's \<open>%\<close>, which truncates towards zero\<close>
  "trunc_mod a b = sgn a * (\<bar>a\<bar> mod \<bar>b\<bar>)"

lemma trunc_mod_nonneg: "0 \<le> a \<Longrightarrow> 0 < b \<Longrightarrow> trunc_mod a b = a mod b"
  by (cases "a = 0") (simp_all add: trunc_mod_def)

lemma int_cast_fits: "fits_int x \<Longrightarrow> int_cast x = x"
  unfolding fits_int_def int_cast_def
  by (rule signed_take_bit_int_eq_self) auto

section \<open>C strings\<close>

definition NUL :: char where
  "NUL = CHR 0x00"

definition cstr :: "bytes \<Rightarrow> string" where
  \<comment> \<open>the string a \<open>char*\<close> to the front of this buffer denotes\<close>
  "cstr buf = takeWhile (\<lambda>c. c \<noteq> NUL) buf"

definition cstr_bytes :: "string \<Rightarrow> bytes" where
  \<comment> \<open>the \<open>strlen(s) + 1\<close> bytes of a string\<close>
  "cstr_bytes s = s @ [NUL]"

definition no_nul :: "string \<Rightarrow> bool" where
  "no_nul s \<longleftrightarrow> NUL \<notin> set s"

definition store_at :: "nat \<Rightarrow> bytes \<Rightarrow> bytes \<Rightarrow> bytes" where
  \<comment> \<open>\<open>memcpy(buf + off, bs, |bs|)\<close>\<close>
  "store_at off bs buf = take off buf @ bs @ drop (off + length bs) buf"

lemma cstr_cstr_bytes [simp, cstr_simps]: "no_nul s \<Longrightarrow> cstr (cstr_bytes s @ rest) = s"
  by (subst cstr_def, unfold cstr_bytes_def no_nul_def, simp, subst takeWhile_append2, auto)

lemma cstr_cstr_bytes0 [simp, cstr_simps]: "no_nul s \<Longrightarrow> cstr (cstr_bytes s) = s"
  using cstr_cstr_bytes [of s "[]"] by simp

lemma length_cstr_bytes [simp, cstr_simps]: "length (cstr_bytes s) = Suc (length s)"
  by (simp add: cstr_bytes_def)

lemma no_nul_append [simp, cstr_simps]: "no_nul (s @ t) \<longleftrightarrow> no_nul s \<and> no_nul t"
  by (auto simp: no_nul_def)

lemma no_nul_Cons [simp, cstr_simps]: "no_nul (c # s) \<longleftrightarrow> c \<noteq> NUL \<and> no_nul s"
  by (auto simp: no_nul_def)

lemma no_nul_Nil [simp, cstr_simps]: "no_nul []"
  by (simp add: no_nul_def)

lemma no_nul_take: "no_nul s \<Longrightarrow> no_nul (take n s)"
  by (meson in_set_takeD no_nul_def)

lemma no_nul_drop: "no_nul s \<Longrightarrow> no_nul (drop n s)"
  by (meson in_set_dropD no_nul_def)

lemma length_store_at [simp, cstr_simps]:
  "off + length bs \<le> length buf \<Longrightarrow> length (store_at off bs buf) = length buf"
  by (simp add: store_at_def)

lemma drop_store_at_same:
  "off \<le> length buf \<Longrightarrow> drop off (store_at off bs buf) = bs @ drop (off + length bs) buf"
  by (simp add: store_at_def)

lemma drop_store_at_after:
  assumes "off \<le> length buf" "off + length bs \<le> o2"
  shows "drop o2 (store_at off bs buf) = drop o2 buf"
proof -
  from assms have *: "min (length buf) off = off" and "length bs + off \<le> o2" by simp_all
  then show ?thesis using assms by (simp add: store_at_def * add.commute)
qed

lemma take_drop_store_at_before:
  assumes "o2 + n \<le> off" "off \<le> length buf"
  shows "take n (drop o2 (store_at off bs buf)) = take n (drop o2 buf)"
proof -
  from assms have "drop o2 (store_at off bs buf) = drop o2 (take off buf) @ bs @ drop (off + length bs) buf"
    by (simp add: store_at_def)
  with assms show ?thesis by (simp add: take_drop min_def)
qed

text \<open>A string that ends inside a window of the buffer depends on that window only.\<close>

lemma cstr_take: "NUL \<in> set (take n buf) \<Longrightarrow> cstr buf = cstr (take n buf)"
  unfolding cstr_def
  by (metis (mono_tags, lifting) append_take_drop_id takeWhile_append1)

lemma NUL_in_take_cstr: "n = length (cstr buf) \<Longrightarrow> n < length buf \<Longrightarrow> NUL \<in> set (take (Suc n) buf)"
proof -
  assume n: "n = length (cstr buf)" and "n < length buf"
  then have "buf ! n = NUL"
    using nth_length_takeWhile [of "\<lambda>c. c \<noteq> NUL" buf] by (simp add: cstr_def)
  with \<open>n < length buf\<close> show ?thesis
    by (metis in_set_conv_nth length_take lessI min_less_iff_conj nth_take)
qed

section \<open>Little-endian integers\<close>

fun le_bytes :: "nat \<Rightarrow> nat \<Rightarrow> bytes" where
  "le_bytes 0 n = []"
| "le_bytes (Suc k) n = char_of (n mod 256) # le_bytes k (n div 256)"

fun le_nat :: "bytes \<Rightarrow> nat" where
  "le_nat [] = 0"
| "le_nat (c # cs) = of_char c + 256 * le_nat cs"

definition enc_int :: "nat \<Rightarrow> int \<Rightarrow> bytes" where
  \<comment> \<open>the \<open>k\<close> bytes of an integer of that size\<close>
  "enc_int k x = le_bytes k (nat (x mod 256 ^ k))"

definition dec_uint :: "bytes \<Rightarrow> int" where
  "dec_uint bs = int (le_nat bs)"

definition dec_sint :: "bytes \<Rightarrow> int" where
  "dec_sint bs = (let u = int (le_nat bs); m = 256 ^ length bs
                  in if 2 * u < m then u else u - m)"

lemma length_le_bytes [simp, le_simps]: "length (le_bytes k n) = k"
  by (induction k arbitrary: n) auto

lemma length_enc_int [simp, le_simps]: "length (enc_int k x) = k"
  by (simp add: enc_int_def)

lemma le_nat_le_bytes [le_simps]: "le_nat (le_bytes k n) = n mod 256 ^ k"
proof (induction k arbitrary: n)
  case 0
  then show ?case by simp
next
  case (Suc k)
  have "le_nat (le_bytes (Suc k) n) = n mod 256 + 256 * (n div 256 mod 256 ^ k)"
    by (simp add: Suc)
  also have "\<dots> = n mod (256 * 256 ^ k)"
    by (simp add: mod_mult2_eq)
  finally show ?case by simp
qed

lemma dec_uint_enc_int [simp, le_simps]: "dec_uint (enc_int k x) = x mod 256 ^ k"
  by (simp add: dec_uint_def enc_int_def le_nat_le_bytes zmod_int nat_mod_distrib)

lemma dec_sint_enc_int [le_simps]:
  assumes "- (256 ^ k) \<le> 2 * x" "2 * x < 256 ^ k"
  shows "dec_sint (enc_int k x) = x"
proof -
  have u: "int (le_nat (enc_int k x)) = x mod 256 ^ k"
    using dec_uint_enc_int [of k x] by (simp add: dec_uint_def)
  show ?thesis
  proof (cases "0 \<le> x")
    case True
    with assms have "x mod 256 ^ k = x" by simp
    with u assms show ?thesis by (simp add: dec_sint_def Let_def)
  next
    case False
    have "(x + 256 ^ k) mod 256 ^ k = x + 256 ^ k"
      by (rule mod_pos_pos_trivial) (use assms False in auto)
    then have "x mod 256 ^ k = x + 256 ^ k"
      by simp
    with u assms show ?thesis by (simp add: dec_sint_def Let_def)
  qed
qed

lemma dec_sint_int4 [simp, le_simps]: "fits_int x \<Longrightarrow> dec_sint (enc_int 4 x) = x"
  by (rule dec_sint_enc_int) (simp_all add: fits_int_def)

lemma dec_sint_int8 [simp, le_simps]: "fits_long x \<Longrightarrow> dec_sint (enc_int 8 x) = x"
  by (rule dec_sint_enc_int) (simp_all add: fits_long_def)

lemma u16_enc [simp, le_simps]: "word_of_int (dec_uint (enc_int 2 (uint k))) = (k :: u16)"
proof -
  have "uint k mod 65536 = uint k"
    using uint_lt2p [of k] by simp
  then show ?thesis by simp
qed

section \<open>Decimal numbers\<close>

text \<open>
  \<open>dec_nat\<close> and \<open>dec_int\<close> are \<open>printf\<close>'s \<open>%d\<close>, \<open>%i\<close>, \<open>%lld\<close>; \<open>strtol\<close> is the C function
  (white space, sign, digits, the rest of the string; the value saturates at the ends of the
  64-bit range, and nothing is consumed when there is no digit). \<open>strtoll\<close> is the same function
  on this platform.
\<close>

definition digit_char :: "nat \<Rightarrow> char" where
  "digit_char d = char_of (48 + d)"

definition digit_val :: "char \<Rightarrow> nat" where
  "digit_val c = of_char c - 48"

definition is_digit :: "char \<Rightarrow> bool" where
  "is_digit c \<longleftrightarrow> 48 \<le> (of_char c :: nat) \<and> (of_char c :: nat) \<le> 57"

definition is_space :: "char \<Rightarrow> bool" where
  "is_space c \<longleftrightarrow> of_char c \<in> {9, 10, 11, 12, 13, 32 :: nat}"

fun dec_nat :: "nat \<Rightarrow> string" where
  "dec_nat n = (if n \<le> 9 then [digit_char n] else dec_nat (n div 10) @ [digit_char (n mod 10)])"

declare dec_nat.simps [simp del]

definition dec_int :: "int \<Rightarrow> string" where
  "dec_int x = (if x < 0 then CHR ''-'' # dec_nat (nat (- x)) else dec_nat (nat x))"

definition digits_value :: "string \<Rightarrow> nat" where
  "digits_value ds = foldl (\<lambda>a c. 10 * a + digit_val c) 0 ds"

definition clamp64 :: "int \<Rightarrow> int" where
  "clamp64 x = max (- (2 ^ 63)) (min (2 ^ 63 - 1) x)"

definition strtol :: "string \<Rightarrow> int \<times> string" where
  "strtol s =
     (let t = dropWhile is_space s;
          neg = (t \<noteq> [] \<and> hd t = CHR ''-'');
          u = (if t \<noteq> [] \<and> (hd t = CHR ''-'' \<or> hd t = CHR ''+'') then tl t else t);
          ds = takeWhile is_digit u
      in if ds = [] then (0, s)
         else (clamp64 (if neg then - int (digits_value ds) else int (digits_value ds)),
               dropWhile is_digit u))"

definition digit_string :: "string \<Rightarrow> bool" where
  "digit_string s \<longleftrightarrow> s \<noteq> [] \<and> list_all is_digit s"

lemma of_char_digit_char [simp, dec_simps]: "d \<le> 9 \<Longrightarrow> of_char (digit_char d) = 48 + d"
  by (simp add: digit_char_def)

lemma is_digit_digit_char [simp, dec_simps]: "d \<le> 9 \<Longrightarrow> is_digit (digit_char d)"
  by (simp add: is_digit_def)

lemma digit_val_digit_char [simp, dec_simps]: "d \<le> 9 \<Longrightarrow> digit_val (digit_char d) = d"
  by (simp add: digit_val_def)

lemma dec_nat_digits [simp, dec_simps]: "list_all is_digit (dec_nat n)"
proof (induction n rule: dec_nat.induct)
  case (1 n)
  then show ?case by (subst dec_nat.simps) auto
qed

lemma dec_nat_not_Nil [simp, dec_simps]: "dec_nat n \<noteq> []"
  by (subst dec_nat.simps) simp

lemma digit_string_dec_nat [simp, dec_simps]: "digit_string (dec_nat n)"
  by (simp add: digit_string_def)

lemma digits_value_snoc: "digits_value (ds @ [c]) = 10 * digits_value ds + digit_val c"
  by (simp add: digits_value_def)

lemma digits_value_dec_nat [simp, dec_simps]: "digits_value (dec_nat n) = n"
proof (induction n rule: dec_nat.induct)
  case (1 n)
  show ?case
  proof (cases "n \<le> 9")
    case True
    then show ?thesis by (subst dec_nat.simps) (simp add: digits_value_def)
  next
    case False
    then have "digits_value (dec_nat (n div 10)) = n div 10" by (rule 1)
    with False show ?thesis by (subst dec_nat.simps) (simp add: digits_value_snoc)
  qed
qed

lemma dec_nat_inject [simp]: "dec_nat m = dec_nat n \<longleftrightarrow> m = n"
  by (metis digits_value_dec_nat)

lemma not_digit_facts [simp, dec_simps]:
  "\<not> is_digit (CHR '';'')" "\<not> is_digit NUL" "\<not> is_digit (CHR ''-'')" "\<not> is_digit (CHR ''+'')"
  "\<not> is_digit (CHR ''.'')" "\<not> is_digit (CHR ''A'')" "\<not> is_digit (CHR 0x0A)" "\<not> is_digit (CHR ''n'')"
  by (simp_all add: is_digit_def NUL_def)

lemma is_digit_not_space: "is_digit c \<Longrightarrow> \<not> is_space c"
  by (auto simp: is_digit_def is_space_def)

lemma digit_string_notin: "list_all is_digit s \<Longrightarrow> \<not> is_digit c \<Longrightarrow> c \<notin> set s"
  by (auto simp: list_all_iff)

lemma dec_nat_notin: "\<not> is_digit c \<Longrightarrow> c \<notin> set (dec_nat n)"
  using digit_string_notin [OF dec_nat_digits] .

lemma dec_int_notin: "\<not> is_digit c \<Longrightarrow> c \<noteq> CHR ''-'' \<Longrightarrow> c \<notin> set (dec_int x)"
  by (auto simp: dec_int_def dec_nat_notin)

lemma dec_int_not_Nil [simp, dec_simps]: "dec_int x \<noteq> []"
  by (simp add: dec_int_def)

lemma no_nul_dec_int [simp, dec_simps]: "no_nul (dec_int x)"
proof -
  have "NUL \<noteq> CHR ''-''" by (simp add: NUL_def)
  then show ?thesis unfolding no_nul_def by (intro dec_int_notin) auto
qed

lemma dec_int_inject [simp]: "dec_int x = dec_int y \<longleftrightarrow> x = y"
proof
  assume eq: "dec_int x = dec_int y"
  have hd: "hd (dec_nat n) \<noteq> CHR ''-''" for n
    by (metis dec_nat_notin dec_nat_not_Nil hd_in_set not_digit_facts(3))
  show "x = y"
    using eq hd by (auto simp: dec_int_def split: if_splits) (metis list.sel(1))+
qed simp

lemma clamp64_fits [simp]: "fits_long x \<Longrightarrow> clamp64 x = x"
  by (simp add: clamp64_def fits_long_def)

text \<open>Reading back what \<open>printf\<close> wrote, with any non-digit after it.\<close>

lemma takeWhile_digits:
  "list_all is_digit ds \<Longrightarrow> (rest = [] \<or> \<not> is_digit (hd rest)) \<Longrightarrow>
   takeWhile is_digit (ds @ rest) = ds \<and> dropWhile is_digit (ds @ rest) = rest"
  by (induction ds) (cases rest; auto)+

lemma strtol_dec_int_append:
  assumes "fits_long x" "rest = [] \<or> \<not> is_digit (hd rest)"
  shows "strtol (dec_int x @ rest) = (x, rest)"
proof (cases "x < 0")
  case True
  let ?ds = "dec_nat (nat (- x))"
  have eq: "dec_int x @ rest = CHR ''-'' # ?ds @ rest"
    using True by (simp add: dec_int_def)
  have "dropWhile is_space (CHR ''-'' # ?ds @ rest) = CHR ''-'' # ?ds @ rest"
    by (simp add: is_space_def)
  moreover note takeWhile_digits [OF dec_nat_digits [of "nat (- x)"] assms(2)]
  ultimately show ?thesis
    using True assms(1) unfolding strtol_def Let_def eq by simp
next
  case False
  let ?ds = "dec_nat (nat x)"
  obtain d ds where d: "?ds = d # ds" by (cases ?ds) auto
  then have "is_digit d" using dec_nat_digits [of "nat x"] by simp
  then have "\<not> is_space d" "d \<noteq> CHR ''-''" "d \<noteq> CHR ''+''"
    using is_digit_not_space by auto
  moreover have "takeWhile is_digit (d # ds @ rest) = d # ds" "dropWhile is_digit (d # ds @ rest) = rest"
    using takeWhile_digits [OF dec_nat_digits [of "nat x"] assms(2)] d by auto
  moreover have "dec_int x @ rest = d # ds @ rest"
    using False d by (simp add: dec_int_def)
  moreover have "digits_value (d # ds) = nat x"
    by (metis d digits_value_dec_nat)
  ultimately show ?thesis
    using False assms(1) unfolding strtol_def Let_def by simp
qed

lemma strtol_dec_int [simp, dec_simps]: "fits_long x \<Longrightarrow> strtol (dec_int x) = (x, [])"
  using strtol_dec_int_append [of x "[]"] by simp

section \<open>The commons library\<close>

text \<open>
  The functions of \<open>so-commons\<close> the sources call, which are not part of the repository: the
  definitions of the model take them as a parameter, and the locale states what their
  documentation promises and the sources rely on.
\<close>

definition upc :: "char \<Rightarrow> char" where
  "upc c = (if 97 \<le> (of_char c :: nat) \<and> (of_char c :: nat) \<le> 122 then char_of (of_char c - 32 :: nat) else c)"

fun join_with :: "char \<Rightarrow> string list \<Rightarrow> string" where
  "join_with sep [] = []"
| "join_with sep [f] = f"
| "join_with sep (f # g # fs) = f @ sep # join_with sep (g # fs)"

record commons =
  string_split :: "string \<Rightarrow> char \<Rightarrow> string list"
  string_equals_ignore_case :: "string \<Rightarrow> string \<Rightarrow> bool"
  string_to_upper :: "string \<Rightarrow> string"
  string_itoa :: "int \<Rightarrow> string"
  string_substring_until :: "string \<Rightarrow> nat \<Rightarrow> string"
  string_append :: "string \<Rightarrow> string \<Rightarrow> string"
  string_ends_with :: "string \<Rightarrow> string \<Rightarrow> bool"
  list_sorted :: "(int \<Rightarrow> int \<Rightarrow> bool) \<Rightarrow> int list \<Rightarrow> int list"

locale commons_api =
  fixes cm :: commons
  assumes split_join: "fs \<noteq> [] \<Longrightarrow> (\<forall>f \<in> set fs. f \<noteq> [] \<and> sep \<notin> set f) \<Longrightarrow>
      string_split cm (join_with sep fs) sep = fs"
    and equals_ignore_case: "string_equals_ignore_case cm s t \<longleftrightarrow> map upc s = map upc t"
    and to_upper: "string_to_upper cm s = map upc s"
    and itoa: "string_itoa cm x = dec_int x"
    and substring_until: "string_substring_until cm s n = take n s"
    and append: "string_append cm s t = s @ t"
    and ends_with: "string_ends_with cm s t \<longleftrightarrow> (\<exists>u. s = u @ t)"
    and sorted_mset: "set (list_sorted cm lt xs) = set xs" "length (list_sorted cm lt xs) = length xs"
    and sorted_hd: "(\<forall>x \<in> set xs. \<forall>y \<in> set xs. lt x y \<longrightarrow> \<not> lt y x) \<Longrightarrow>
      (\<forall>x \<in> set xs. \<forall>y \<in> set xs. \<forall>z \<in> set xs. \<not> lt x y \<longrightarrow> \<not> lt y z \<longrightarrow> \<not> lt x z) \<Longrightarrow>
      y \<in> set xs \<Longrightarrow> \<not> lt y (hd (list_sorted cm lt xs))"
begin

lemma split3:
  assumes "a \<noteq> []" "b \<noteq> []" "c \<noteq> []" "sep \<notin> set a" "sep \<notin> set b" "sep \<notin> set c"
  shows "string_split cm (a @ sep # b @ sep # c) sep = [a, b, c]"
  using split_join [of "[a, b, c]" sep] assms by simp

lemma split4:
  assumes "a \<noteq> []" "b \<noteq> []" "c \<noteq> []" "d \<noteq> []" "sep \<notin> set a" "sep \<notin> set b" "sep \<notin> set c" "sep \<notin> set d"
  shows "string_split cm (a @ sep # b @ sep # c @ sep # d) sep = [a, b, c, d]"
  using split_join [of "[a, b, c, d]" sep] assms by simp

end

text \<open>An implementation of that interface, on which closed instances are evaluated.\<close>

fun split_on :: "char \<Rightarrow> string \<Rightarrow> string \<Rightarrow> string list" where
  "split_on sep acc [] = (if acc = [] then [] else [rev acc])"
| "split_on sep acc (c # cs) =
     (if c = sep then (if acc = [] then split_on sep [] cs else rev acc # split_on sep [] cs)
      else split_on sep (c # acc) cs)"

fun insert_by :: "(int \<Rightarrow> int \<Rightarrow> bool) \<Rightarrow> int \<Rightarrow> int list \<Rightarrow> int list" where
  "insert_by lt x [] = [x]"
| "insert_by lt x (y # ys) = (if lt y x then y # insert_by lt x ys else x # y # ys)"

definition std_commons :: commons where
  "std_commons =
     \<lparr>string_split = (\<lambda>s sep. split_on sep [] s),
      string_equals_ignore_case = (\<lambda>s t. map upc s = map upc t),
      string_to_upper = map upc,
      string_itoa = dec_int,
      string_substring_until = (\<lambda>s n. take n s),
      string_append = (\<lambda>s t. s @ t),
      string_ends_with = (\<lambda>s t. length t \<le> length s \<and> drop (length s - length t) s = t),
      list_sorted = (\<lambda>lt xs. foldr (insert_by lt) xs [])\<rparr>"

lemma split_on_field:
  "sep \<notin> set f \<Longrightarrow> split_on sep acc (f @ rest) = split_on sep (rev f @ acc) rest"
  by (induction f arbitrary: acc) auto

lemma split_on_join:
  "(\<forall>f \<in> set fs. f \<noteq> [] \<and> sep \<notin> set f) \<Longrightarrow> split_on sep [] (join_with sep fs) = fs"
proof (induction fs rule: join_with.induct)
  case (2 sep f)
  then show ?case using split_on_field [of sep f "[]" "[]"] by simp
next
  case (3 sep f g fs)
  then show ?case using split_on_field [of sep f "[]"] by simp
qed simp

lemma set_insert_by [simp]: "set (insert_by lt x ys) = insert x (set ys)"
  by (induction ys) auto

lemma length_insert_by [simp]: "length (insert_by lt x ys) = Suc (length ys)"
  by (induction ys) auto

lemma hd_insert_by:
  "hd (insert_by lt x ys) = (if ys \<noteq> [] \<and> lt (hd ys) x then hd ys else x)"
  by (cases ys) auto

lemma set_foldr_insert_by [simp]: "set (foldr (insert_by lt) xs []) = set xs"
  by (induction xs) auto

lemma foldr_insert_by_hd:
  assumes "\<forall>x \<in> set xs. \<forall>y \<in> set xs. lt x y \<longrightarrow> \<not> lt y x"
    and "\<forall>x \<in> set xs. \<forall>y \<in> set xs. \<forall>z \<in> set xs. \<not> lt x y \<longrightarrow> \<not> lt y z \<longrightarrow> \<not> lt x z"
    and "y \<in> set xs"
  shows "\<not> lt y (hd (foldr (insert_by lt) xs []))"
  using assms
proof (induction xs)
  case Nil
  from Nil(3) show ?case by simp
next
  case (Cons x xs)
  let ?s = "foldr (insert_by lt) xs []"
  have IH: "\<not> lt y (hd ?s)" if "y \<in> set xs"
    by (rule Cons.IH) (use Cons.prems(1,2) that in \<open>meson list.set_intros(2)\<close>)+
  have mem: "hd ?s \<in> set xs" if "?s \<noteq> []"
    using that hd_in_set [OF that] by simp
  have hd: "hd (insert_by lt x ?s) = (if ?s \<noteq> [] \<and> lt (hd ?s) x then hd ?s else x)"
    by (rule hd_insert_by)
  show ?case
  proof (cases "?s \<noteq> [] \<and> lt (hd ?s) x")
    case True
    then have "\<not> lt x (hd ?s)"
      using mem Cons.prems(1) by (meson list.set_intros)
    moreover have "y = x \<or> y \<in> set xs" using Cons.prems(3) by simp
    moreover have "hd (foldr (insert_by lt) (x # xs) []) = hd ?s" using True hd by simp
    ultimately show ?thesis using IH by metis
  next
    case False
    have "\<not> lt y x" if "y \<in> set xs"
    proof -
      have "?s \<noteq> []" using that set_foldr_insert_by [of lt xs] by force
      with False IH [OF that] mem that Cons.prems(2) show ?thesis by (meson list.set_intros)
    qed
    moreover have "\<not> lt x x" using Cons.prems(1) by (meson list.set_intros)
    moreover have "y = x \<or> y \<in> set xs" using Cons.prems(3) by simp
    moreover have "hd (foldr (insert_by lt) (x # xs) []) = x" using False hd by auto
    ultimately show ?thesis by metis
  qed
qed

interpretation std: commons_api std_commons
proof
  fix fs :: "string list" and sep
  assume "\<forall>f \<in> set fs. f \<noteq> [] \<and> sep \<notin> set f"
  then show "string_split std_commons (join_with sep fs) sep = fs"
    by (simp add: std_commons_def split_on_join)
next
  fix lt and xs :: "int list"
  show "length (list_sorted std_commons lt xs) = length xs"
    by (simp add: std_commons_def) (induction xs; simp)
next
  fix lt :: "int \<Rightarrow> int \<Rightarrow> bool" and y :: int and xs
  assume "\<forall>x \<in> set xs. \<forall>y \<in> set xs. lt x y \<longrightarrow> \<not> lt y x"
    "\<forall>x \<in> set xs. \<forall>y \<in> set xs. \<forall>z \<in> set xs. \<not> lt x y \<longrightarrow> \<not> lt y z \<longrightarrow> \<not> lt x z"
    "y \<in> set xs"
  then show "\<not> lt y (hd (list_sorted std_commons lt xs))"
    unfolding std_commons_def commons.simps by (rule foldr_insert_by_hd)
next
  fix s t :: string
  show "string_ends_with std_commons s t \<longleftrightarrow> (\<exists>u. s = u @ t)"
    by (auto simp: std_commons_def) (metis append_take_drop_id)
qed (simp_all add: std_commons_def)

section \<open>Lists of the commons library\<close>

text \<open>
  The loops the sources write over a \<open>t_list\<close>: the position of the first match or \<open>-1\<close>, removal by
  position, and a loop that changes or removes the first match and breaks.
\<close>

definition index_or_minus_one :: "('a \<Rightarrow> bool) \<Rightarrow> 'a list \<Rightarrow> int" where
  "index_or_minus_one P xs = (case find (\<lambda>i. P (xs ! i)) [0..<length xs] of Some i \<Rightarrow> int i | None \<Rightarrow> -1)"

definition list_remove :: "'a list \<Rightarrow> int \<Rightarrow> ('a list) result" where
  "list_remove xs i =
     (if 0 \<le> i \<and> nat i < length xs then Inr (take (nat i) xs @ drop (Suc (nat i)) xs) else Inl Out_Of_Bounds)"

definition list_get :: "'a list \<Rightarrow> int \<Rightarrow> 'a result" where
  \<comment> \<open>\<open>list_get\<close> of an element that is dereferenced: out of range it is \<open>NULL\<close>\<close>
  "list_get xs i = (if 0 \<le> i \<and> nat i < length xs then Inr (xs ! nat i) else Inl Null_Pointer)"

fun update_first :: "('a \<Rightarrow> bool) \<Rightarrow> ('a \<Rightarrow> 'a) \<Rightarrow> 'a list \<Rightarrow> 'a list" where
  "update_first P f [] = []"
| "update_first P f (x # xs) = (if P x then f x # xs else x # update_first P f xs)"

fun remove_first :: "('a \<Rightarrow> bool) \<Rightarrow> 'a list \<Rightarrow> 'a list" where
  "remove_first P [] = []"
| "remove_first P (x # xs) = (if P x then xs else x # remove_first P xs)"

lemma update_first_split:
  "\<forall>y \<in> set A. \<not> P y \<Longrightarrow> P x \<Longrightarrow> update_first P f (A @ x # B) = A @ f x # B"
  by (induction A) auto

lemma length_update_first [simp]: "length (update_first P f xs) = length xs"
  by (induction xs) auto

lemma map_update_first: "(\<And>x. g (f x) = g x) \<Longrightarrow> map g (update_first P f xs) = map g xs"
  by (induction xs) auto

lemma set_update_first: "set (update_first P f xs) \<subseteq> set xs \<union> f ` {x \<in> set xs. P x}"
  by (induction xs) auto

lemma update_first_absent: "\<forall>x \<in> set xs. \<not> P x \<Longrightarrow> update_first P f xs = xs"
  by (induction xs) auto

lemma find_update_first:
  assumes "\<And>x. key (f x) = key x"
  shows "find (\<lambda>x. key x = k) (update_first (\<lambda>x. key x = j) f xs) =
    (if k = j then map_option f (find (\<lambda>x. key x = k) xs) else find (\<lambda>x. key x = k) xs)"
  by (induction xs) (auto simp: assms)

lemma find_append: "find P (xs @ ys) = (case find P xs of None \<Rightarrow> find P ys | Some x \<Rightarrow> Some x)"
  by (induction xs) auto

lemma find_key_in: "find (\<lambda>x. key x = k) xs = Some x \<Longrightarrow> x \<in> set xs \<and> key x = k"
  by (auto simp: find_Some_iff)

lemma find_key_None: "find (\<lambda>x. key x = k) xs = None \<longleftrightarrow> k \<notin> key ` set xs"
  by (auto simp: find_None_iff)

lemma find_key_distinct:
  "distinct (map key xs) \<Longrightarrow> x \<in> set xs \<Longrightarrow> find (\<lambda>y. key y = key x) xs = Some x"
  by (induction xs) (auto simp: rev_image_eqI)

lemma set_remove_first_subset: "set (remove_first P xs) \<subseteq> set xs"
  by (induction xs) auto

lemma remove_first_absent [simp]: "\<forall>x \<in> set xs. \<not> P x \<Longrightarrow> remove_first P xs = xs"
  by (induction xs) auto

lemma distinct_remove_first: "distinct (map key xs) \<Longrightarrow> distinct (map key (remove_first P xs))"
  by (induction xs) (auto dest: subsetD [OF set_remove_first_subset])

lemma set_remove_first_key:
  "distinct (map key xs) \<Longrightarrow> set (remove_first (\<lambda>x. key x = k) xs) = {x \<in> set xs. key x \<noteq> k}"
  by (induction xs) (auto simp: rev_image_eqI)

lemma find_remove_first_key:
  "distinct (map key xs) \<Longrightarrow>
   find (\<lambda>x. key x = k) (remove_first (\<lambda>x. key x = j) xs) = (if k = j then None else find (\<lambda>x. key x = k) xs)"
proof (induction xs)
  case (Cons x xs)
  have "find (\<lambda>y. key y = key x) xs = None" using Cons.prems by (simp add: find_key_None)
  with Cons show ?case by (cases "key x = j"; cases "k = j") auto
qed simp

lemma upc_upc [simp]: "upc (upc c) = upc c"
  by (cases "97 \<le> (of_char c :: nat) \<and> (of_char c :: nat) \<le> 122") (auto simp: upc_def)

lemma map_upc_idem [simp]: "map upc (map upc s) = map upc s"
  by simp

end
