(* ===== verification/Types.thy ===== *)
theory Types
  imports Prelude
begin

text \<open>
  The data the three processes share: the enumerations and input structures of
  \<open>lib/utils/operation_types.h\<close>, the records of \<open>lib/shared_types/shared_types.h\<close> and the packet
  of \<open>lib/utils/network_types.h\<close>. A \<open>char*\<close> field is a string (an option where the code tests it
  for \<open>NULL\<close>), a \<open>uint16_t\<close> a 16-bit word, an \<open>int\<close>, \<open>long\<close> or \<open>long long\<close> an integer whose range
  the lemmas that need it state.
\<close>

section \<open>Enumerations\<close>

datatype operation_t =
  INVALID | SELECT | INSERT | CREATE | DESCRIBE | DROP | JOURNAL | ADD | RUN | METRICS

fun operation_code :: "operation_t \<Rightarrow> nat" where
  "operation_code INVALID = 0"
| "operation_code SELECT = 1"
| "operation_code INSERT = 2"
| "operation_code CREATE = 3"
| "operation_code DESCRIBE = 4"
| "operation_code DROP = 5"
| "operation_code JOURNAL = 6"
| "operation_code ADD = 7"
| "operation_code RUN = 8"
| "operation_code METRICS = 9"

lemma operation_code_inject [simp]: "operation_code a = operation_code b \<longleftrightarrow> a = b"
  by (cases a; cases b) simp_all

text \<open>The order of the enumeration, which the sources compare operations by.\<close>

instantiation operation_t :: linorder
begin
definition less_eq_operation_t :: "operation_t \<Rightarrow> operation_t \<Rightarrow> bool" where
  "less_eq_operation_t a b \<longleftrightarrow> operation_code a \<le> operation_code b"
definition less_operation_t :: "operation_t \<Rightarrow> operation_t \<Rightarrow> bool" where
  "less_operation_t a b \<longleftrightarrow> operation_code a < operation_code b"
instance
  by standard (auto simp: less_eq_operation_t_def less_operation_t_def)
end

datatype process_t = UNKNOWN | KERNEL | FILESYSTEM | MEMORY

fun process_code :: "process_t \<Rightarrow> int" where
  "process_code UNKNOWN = 0"
| "process_code KERNEL = 1"
| "process_code FILESYSTEM = 2"
| "process_code MEMORY = 3"

datatype consistency_t = STRONG_CONSISTENCY | STRONG_HASH_CONSISTENCY | EVENTUAL_CONSISTENCY

fun consistency_code :: "consistency_t \<Rightarrow> int" where
  "consistency_code STRONG_CONSISTENCY = 0"
| "consistency_code STRONG_HASH_CONSISTENCY = 1"
| "consistency_code EVENTUAL_CONSISTENCY = 2"

fun get_consistency_name :: "consistency_t \<Rightarrow> string" where
  "get_consistency_name STRONG_CONSISTENCY = ''Strong Consistency''"
| "get_consistency_name STRONG_HASH_CONSISTENCY = ''Strong Hash Consistency''"
| "get_consistency_name EVENTUAL_CONSISTENCY = ''Eventual Consistency''"

fun get_process_name :: "process_t \<Rightarrow> string" where
  "get_process_name KERNEL = ''Kernel''"
| "get_process_name FILESYSTEM = ''Filesystem''"
| "get_process_name MEMORY = ''Memoria''"
| "get_process_name UNKNOWN = ''Desconocido''"

section \<open>Inputs of the operations\<close>

record select_input_t =
  sel_table_name :: string
  sel_key :: u16

record insert_input_t =
  ins_table_name :: string
  ins_key :: u16
  ins_value :: string
  ins_timestamp :: int

record create_input_t =
  cre_table_name :: string
  cre_consistency :: consistency_t
  cre_partitions :: int
  cre_compaction_time :: int

record describe_input_t =
  des_table_name :: "string option"

record drop_input_t =
  drp_table_name :: string

record add_input_t =
  add_memory_number :: int
  add_consistency :: consistency_t

record run_input_t =
  run_path :: string

section \<open>Shared records\<close>

record record_t =
  rec_table_name :: string
  rec_timestamp :: int
  rec_key :: int
  rec_value :: string

record table_metadata_t =
  md_table_name :: string
  md_consistency :: consistency_t
  md_partitions :: int
  md_compaction_time :: int

record memory_t =
  mem_id :: int
  mem_ip :: string
  mem_port :: int
  mem_alive :: bool
  mem_timestamp :: int

section \<open>Network operations\<close>

datatype socket_operation_t =
  HANDSHAKE_IN | HANDSHAKE_OUT | SELECT_IN | SELECT_OUT | INSERT_IN | INSERT_OUT | CREATE_IN |
  CREATE_OUT | DESCRIBE_IN | DESCRIBE_OUT | DROP_IN | DROP_OUT | JOURNAL_IN | JOURNAL_OUT |
  GOSSIP_IN | GOSSIP_OUT | VALUE_IN | VALUE_OUT | MULTIINSERT_IN | MULTIINSERT_OUT

definition socket_operations :: "socket_operation_t list" where
  "socket_operations =
     [HANDSHAKE_IN, HANDSHAKE_OUT, SELECT_IN, SELECT_OUT, INSERT_IN, INSERT_OUT, CREATE_IN,
      CREATE_OUT, DESCRIBE_IN, DESCRIBE_OUT, DROP_IN, DROP_OUT, JOURNAL_IN, JOURNAL_OUT,
      GOSSIP_IN, GOSSIP_OUT, VALUE_IN, VALUE_OUT, MULTIINSERT_IN, MULTIINSERT_OUT]"

fun socket_code :: "socket_operation_t \<Rightarrow> int" where
  "socket_code HANDSHAKE_IN = 0"
| "socket_code HANDSHAKE_OUT = 1"
| "socket_code SELECT_IN = 2"
| "socket_code SELECT_OUT = 3"
| "socket_code INSERT_IN = 4"
| "socket_code INSERT_OUT = 5"
| "socket_code CREATE_IN = 6"
| "socket_code CREATE_OUT = 7"
| "socket_code DESCRIBE_IN = 8"
| "socket_code DESCRIBE_OUT = 9"
| "socket_code DROP_IN = 10"
| "socket_code DROP_OUT = 11"
| "socket_code JOURNAL_IN = 12"
| "socket_code JOURNAL_OUT = 13"
| "socket_code GOSSIP_IN = 14"
| "socket_code GOSSIP_OUT = 15"
| "socket_code VALUE_IN = 16"
| "socket_code VALUE_OUT = 17"
| "socket_code MULTIINSERT_IN = 18"
| "socket_code MULTIINSERT_OUT = 19"

definition socket_of_code :: "int \<Rightarrow> socket_operation_t option" where
  "socket_of_code n = (if 0 \<le> n \<and> n < 20 then Some (socket_operations ! nat n) else None)"

definition process_of_code :: "int \<Rightarrow> process_t option" where
  "process_of_code n =
     (if n = 0 then Some UNKNOWN else if n = 1 then Some KERNEL
      else if n = 2 then Some FILESYSTEM else if n = 3 then Some MEMORY else None)"

definition consistency_of_code :: "int \<Rightarrow> consistency_t option" where
  "consistency_of_code n =
     (if n = 0 then Some STRONG_CONSISTENCY else if n = 1 then Some STRONG_HASH_CONSISTENCY
      else if n = 2 then Some EVENTUAL_CONSISTENCY else None)"

lemma socket_of_code_code [simp]: "socket_of_code (socket_code op) = Some op"
  by (cases op) (simp_all add: socket_of_code_def socket_operations_def)

lemma process_of_code_code [simp]: "process_of_code (process_code p) = Some p"
  by (cases p) (simp_all add: process_of_code_def)

lemma consistency_of_code_code [simp]: "consistency_of_code (consistency_code c) = Some c"
  by (cases c) (simp_all add: consistency_of_code_def)

lemma socket_code_range: "0 \<le> socket_code op \<and> socket_code op < 20"
  by (cases op) simp_all

lemma process_code_range: "0 \<le> process_code p \<and> process_code p < 4"
  by (cases p) simp_all

lemma consistency_code_range: "0 \<le> consistency_code c \<and> consistency_code c < 3"
  by (cases c) simp_all

record header_t =
  hdr_process :: process_t
  hdr_operation :: socket_operation_t
  hdr_keep_alive :: bool
  hdr_elements :: int
  hdr_elements_size :: "int list"
  hdr_success :: bool

record packet_t =
  pkt_header :: header_t
  pkt_content :: bytes

end
