(* ===== verification/Lib_Utils.thy ===== *)
theory Lib_Utils
  imports Types
begin

text \<open>
  The helpers of \<open>lib/utils\<close>: \<open>numbers.c\<close>, \<open>partitions.c\<close>, \<open>dates.c\<close>, \<open>string.c\<close>, \<open>int_arrays.c\<close> and
  the identifier generators of \<open>response.c\<close> and \<open>kernel/src/core/utils/pid_utils.c\<close>, which share
  one contract, the locale \<open>id_allocator\<close>.
\<close>

section \<open>numbers.c, partitions.c, dates.c\<close>

function digits_loop :: "int \<Rightarrow> int \<Rightarrow> int" where
  "digits_loop number totalDigits =
     (if number \<noteq> 0 then digits_loop (sgn number * (\<bar>number\<bar> div 10)) (totalDigits + 1)
      else totalDigits)"
  by pat_completeness auto
termination
proof (relation "measure (\<lambda>(number, _). nat \<bar>number\<bar>)", goal_cases)
  case (2 number total)
  have "\<bar>number\<bar> div 10 < \<bar>number\<bar>"
    using 2 by (intro int_div_less_self) auto
  then show ?case by (simp add: abs_mult abs_sgn_eq 2)
qed simp

declare digits_loop.simps [simp del]

definition digits_in_a_number :: "int \<Rightarrow> int" where
  "digits_in_a_number number = (if number = 0 then 1 else digits_loop number 0)"

definition division_rounded_up :: "32 word \<Rightarrow> 32 word \<Rightarrow> (32 word) result" where
  "division_rounded_up dividend divisor =
     (if divisor = 0 then Inl Div_By_Zero else Inr ((dividend + (divisor - 1)) div divisor))"

definition rnd :: "int \<Rightarrow> int \<Rightarrow> int \<Rightarrow> int" where
  \<comment> \<open>\<open>random\<close> is what the C library's generator returns\<close>
  "rnd random mn mx = (if mx - mn < 0 then -1 else trunc_mod random (mx - mn + 1) + mn)"

definition hash :: "int \<Rightarrow> int \<Rightarrow> int result" where
  "hash value modulus = (if modulus = 0 then Inl Div_By_Zero else Inr (trunc_mod value modulus))"

definition calculate_partition_number :: "int \<Rightarrow> int \<Rightarrow> int result" where
  "calculate_partition_number key partitions_amount =
     (if partitions_amount = 0 then Inl Div_By_Zero
      else Inr (trunc_mod key partitions_amount + 1))"

definition timestamp_difference :: "int \<Rightarrow> int \<Rightarrow> int" where
  "timestamp_difference initial final = (if final > initial then final - initial else initial - final)"

lemma digits_loop_shift: "digits_loop n (a + b) = a + digits_loop n b"
proof (induction n b arbitrary: a rule: digits_loop.induct)
  case (1 n b)
  then show ?case
    by (cases "n = 0") (simp_all add: digits_loop.simps [of n] digits_loop.simps [of 0] add.assoc)
qed

lemma digits_loop_dec_nat: "n \<noteq> 0 \<Longrightarrow> digits_loop (int n) 0 = int (length (dec_nat n))"
proof (induction n rule: dec_nat.induct)
  case (1 n)
  have step: "digits_loop (int n) 0 = 1 + digits_loop (int (n div 10)) 0"
    using 1 digits_loop_shift [of "int (n div 10)" 1 0]
    by (simp add: digits_loop.simps [of "int n"] zdiv_int)
  show ?case
  proof (cases "n \<le> 9")
    case True
    then have "n div 10 = 0" by simp
    with step True show ?thesis by (simp add: digits_loop.simps [of 0] dec_nat.simps [of n])
  next
    case False
    then have "digits_loop (int (n div 10)) 0 = int (length (dec_nat (n div 10)))"
      using 1 by auto
    with step False show ?thesis by (simp add: dec_nat.simps [of n])
  qed
qed

lemma digits_loop_uminus: "digits_loop (- n) a = digits_loop n a"
proof (induction n a rule: digits_loop.induct)
  case (1 n a)
  have "sgn (- n) * (\<bar>- n\<bar> div 10) = - (sgn n * (\<bar>n\<bar> div 10))"
    by (simp add: sgn_minus)
  with 1 show ?case
    by (cases "n = 0") (simp_all add: digits_loop.simps [of n a] digits_loop.simps [of "- n" a])
qed

text \<open>The digit count is the length of the decimal numeral, whatever the sign.\<close>

lemma digits_in_a_number_length:
  "digits_in_a_number x = int (length (dec_nat (nat \<bar>x\<bar>)))"
proof -
  have "digits_loop x 0 = digits_loop \<bar>x\<bar> 0"
    by (cases "0 \<le> x") (simp_all add: digits_loop_uminus abs_if)
  moreover have "digits_loop (int (nat \<bar>x\<bar>)) 0 = int (length (dec_nat (nat \<bar>x\<bar>)))" if "x \<noteq> 0"
    using that by (intro digits_loop_dec_nat) auto
  ultimately show ?thesis
    by (cases "x = 0") (simp_all add: digits_in_a_number_def dec_nat.simps [of 0])
qed

lemma length_dec_nat_mono: "m \<le> n \<Longrightarrow> length (dec_nat m) \<le> length (dec_nat n)"
proof (induction m arbitrary: n rule: dec_nat.induct)
  case (1 m)
  show ?case
  proof (cases "m \<le> 9")
    case True
    have "1 \<le> length (dec_nat n)" by (simp add: Suc_le_eq)
    with True show ?thesis by (simp add: dec_nat.simps [of m])
  next
    case False
    then have "length (dec_nat (m div 10)) \<le> length (dec_nat (n div 10))"
      using 1 by (intro 1) (auto intro: div_le_mono)
    with False 1(2) show ?thesis by (simp add: dec_nat.simps [of m] dec_nat.simps [of n])
  qed
qed

text \<open>
  \<open>division_rounded_up\<close> is the ceiling of the quotient as long as the sum that rounds up does not
  leave 32 bits.
\<close>

lemma division_rounded_up_ceiling:
  assumes "0 < unat d" "unat n + unat d \<le> 2 ^ 32"
  shows "\<exists>q. division_rounded_up n d = Inr q \<and>
     unat q * unat d \<ge> unat n \<and> unat n + unat d > unat q * unat d"
proof -
  have d: "d \<noteq> 0" using assms(1) by auto
  have d1: "unat (d - 1) = unat d - 1"
    using assms(1) by (simp add: unat_minus_one d)
  have s: "unat (n + (d - 1)) = unat n + (unat d - 1)"
    using assms by (subst unat_plus_if') (simp add: d1)
  let ?q = "(n + (d - 1)) div d"
  have q: "unat ?q = (unat n + (unat d - 1)) div unat d"
    by (simp add: unat_div s)
  define s where "s = unat n + (unat d - 1)"
  have "s div unat d * unat d + s mod unat d = s" "s mod unat d < unat d"
    using assms(1) by simp_all
  then have "unat n \<le> s div unat d * unat d" "s div unat d * unat d < unat n + unat d"
    using assms(1) unfolding s_def by linarith+
  then show ?thesis
    using d q unfolding s_def [symmetric] by (simp add: division_rounded_up_def)
qed

lemma rnd_range:
  assumes "mn \<le> mx" "0 \<le> r"
  shows "mn \<le> rnd r mn mx \<and> rnd r mn mx \<le> mx"
  using assms pos_mod_bound [of "mx - mn + 1" r] pos_mod_sign [of "mx - mn + 1" r]
  by (simp add: rnd_def trunc_mod_nonneg)

lemma partition_number_range:
  assumes "0 \<le> key" "0 < p"
  shows "\<exists>n. calculate_partition_number key p = Inr n \<and> 1 \<le> n \<and> n \<le> p"
proof -
  have "0 \<le> key mod p" "key mod p < p" using assms by simp_all
  then have "1 \<le> key mod p + 1" "key mod p + 1 \<le> p" by linarith+
  with assms show ?thesis by (simp add: calculate_partition_number_def trunc_mod_nonneg)
qed

section \<open>string.c\<close>

fun split_loop :: "commons \<Rightarrow> string \<Rightarrow> string \<Rightarrow> nat \<Rightarrow> bool \<Rightarrow> string list \<Rightarrow> string list" where
  "split_loop cm [] initial token_size inside_quotes return_tokens =
     (if \<not> inside_quotes
      then let token = string_substring_until cm initial token_size
           in if length token < 1 then return_tokens else return_tokens @ [token]
      else return_tokens)"
| "split_loop cm (c # cursor) initial token_size inside_quotes return_tokens =
     (if c = CHR '' '' \<and> \<not> inside_quotes
      then let token = string_substring_until cm initial token_size
           in split_loop cm cursor cursor 0 inside_quotes
                (if length token < 1 then return_tokens else return_tokens @ [token])
      else if c = CHR 0x22
      then if \<not> inside_quotes then split_loop cm cursor cursor 0 True return_tokens
           else split_loop cm cursor initial token_size False return_tokens
      else split_loop cm cursor initial (token_size + 1) inside_quotes return_tokens)"

definition string_split_ignore_quotes :: "commons \<Rightarrow> string \<Rightarrow> string list" where
  \<comment> \<open>the delimiter argument is not used by the C body\<close>
  "string_split_ignore_quotes cm input = split_loop cm input input 0 False []"

definition string_to_long :: "string \<Rightarrow> int" where
  "string_to_long str = fst (strtol str)"

definition string_to_long_long :: "string \<Rightarrow> int" where
  "string_to_long_long str = fst (strtol str)"

definition string_to_int :: "string \<Rightarrow> int" where
  "string_to_int str = int_cast (string_to_long str)"

definition string_to_uint16 :: "string \<Rightarrow> u16" where
  "string_to_uint16 str = word_of_int (string_to_long str)"

definition to_uppercase :: "string \<Rightarrow> string" where
  "to_uppercase lower_string = map upc lower_string"

text \<open>Quoted or plain words, and the command line that holds them.\<close>

datatype lexeme = Plain string | Quoted string

fun lexeme_text :: "lexeme \<Rightarrow> string" where
  "lexeme_text (Plain w) = w"
| "lexeme_text (Quoted w) = w"

fun lexeme_print :: "lexeme \<Rightarrow> string" where
  "lexeme_print (Plain w) = w"
| "lexeme_print (Quoted w) = CHR 0x22 # w @ [CHR 0x22]"

fun lexeme_ok :: "lexeme \<Rightarrow> bool" where
  "lexeme_ok (Plain w) \<longleftrightarrow> w \<noteq> [] \<and> CHR '' '' \<notin> set w \<and> CHR 0x22 \<notin> set w"
| "lexeme_ok (Quoted w) \<longleftrightarrow> w \<noteq> [] \<and> CHR 0x22 \<notin> set w"

context commons_api
begin

lemma split_loop_plain:
  "CHR '' '' \<notin> set w \<Longrightarrow> CHR 0x22 \<notin> set w \<Longrightarrow>
   split_loop cm (w @ rest) ini n False toks = split_loop cm rest ini (n + length w) False toks"
  by (induction w arbitrary: n) auto

lemma split_loop_quoted:
  "CHR 0x22 \<notin> set w \<Longrightarrow>
   split_loop cm (w @ rest) ini n True toks = split_loop cm rest ini (n + length w) True toks"
  by (induction w arbitrary: n) auto

lemma split_loop_lexeme:
  assumes "lexeme_ok l"
  shows "split_loop cm (lexeme_print l @ CHR '' '' # rest) (lexeme_print l @ CHR '' '' # rest) 0 False toks
      = split_loop cm rest rest 0 False (toks @ [lexeme_text l])"
    and "split_loop cm (lexeme_print l) (lexeme_print l) 0 False toks = toks @ [lexeme_text l]"
proof -
  note loops = split_loop_plain [of _ "CHR '' '' # _"] split_loop_plain [of _ "[]", simplified]
    split_loop_quoted [of _ "CHR 0x22 # _"]
  show "split_loop cm (lexeme_print l @ CHR '' '' # rest) (lexeme_print l @ CHR '' '' # rest) 0 False toks
      = split_loop cm rest rest 0 False (toks @ [lexeme_text l])"
    using assms by (cases l) (simp_all add: loops substring_until Suc_le_eq)
  show "split_loop cm (lexeme_print l) (lexeme_print l) 0 False toks = toks @ [lexeme_text l]"
    using assms by (cases l) (simp_all add: loops substring_until Suc_le_eq)
qed

lemma split_loop_line:
  assumes "ls \<noteq> []" "\<forall>l \<in> set ls. lexeme_ok l"
  shows "split_loop cm (join_with (CHR '' '') (map lexeme_print ls)) (join_with (CHR '' '') (map lexeme_print ls)) 0 False toks
    = toks @ map lexeme_text ls"
  using assms
proof (induction ls arbitrary: toks rule: list_nonempty_induct)
  case (single l)
  then show ?case by (simp add: split_loop_lexeme)
next
  case (cons l ls)
  then obtain m ms where ls: "ls = m # ms" by (cases ls) auto
  from cons show ?case unfolding ls by (simp add: split_loop_lexeme)
qed

lemma tokens_of_line:
  assumes "ls \<noteq> []" "\<forall>l \<in> set ls. lexeme_ok l"
  shows "string_split_ignore_quotes cm (join_with (CHR '' '') (map lexeme_print ls)) = map lexeme_text ls"
  using split_loop_line [OF assms, of "[]"] by (simp add: string_split_ignore_quotes_def)

end

lemma string_to_long_long_dec [simp, dec_simps]: "fits_long x \<Longrightarrow> string_to_long_long (dec_int x) = x"
  by (simp add: string_to_long_long_def)

lemma string_to_uint16_dec [simp, dec_simps]: "string_to_uint16 (dec_int (uint k)) = k"
proof -
  have "fits_long (uint k)"
    using uint_lt2p [of k] uint_ge_0 [of k] unfolding fits_long_def
    by (auto intro: order_trans [of _ 0])
  then show ?thesis by (simp add: string_to_uint16_def string_to_long_def)
qed

lemma to_uppercase_idem [simp]: "to_uppercase (to_uppercase s) = to_uppercase s"
  by (simp add: to_uppercase_def)

lemma length_to_uppercase [simp]: "length (to_uppercase s) = length s"
  by (simp add: to_uppercase_def)

section \<open>Identifier generators\<close>

text \<open>
  \<open>response.c\<close> numbers the pending responses and \<open>pid_utils.c\<close> the processes of the kernel, each
  with a list of the numbers in use that is kept in ascending order: the scan finds the first
  position whose number is not its own index.
\<close>

definition generate_id :: "int list \<Rightarrow> int \<times> int list" where
  "generate_id g_response_ids =
     (let size = length g_response_ids
      in case find (\<lambda>i. g_response_ids ! i \<noteq> int i) [0..<size] of
           Some i \<Rightarrow> (int i, take i g_response_ids @ int i # drop i g_response_ids)
         | None \<Rightarrow> (int size, g_response_ids @ [int size]))"

definition remove_id :: "int \<Rightarrow> int list \<Rightarrow> int list" where
  "remove_id ident g_response_ids =
     (case find (\<lambda>i. g_response_ids ! i = ident) [0..<length g_response_ids] of
        Some i \<Rightarrow> take i g_response_ids @ drop (Suc i) g_response_ids
      | None \<Rightarrow> g_response_ids)"

definition generate_pid :: "int list \<Rightarrow> int \<times> int list" where
  "generate_pid g_process_ids =
     (let size = length g_process_ids
      in case find (\<lambda>i. g_process_ids ! i \<noteq> int i) [0..<size] of
           Some i \<Rightarrow> (int i, take i g_process_ids @ int i # drop i g_process_ids)
         | None \<Rightarrow> (int size, g_process_ids @ [int size]))"

definition remove_pid :: "int \<Rightarrow> int list \<Rightarrow> int list" where
  "remove_pid ident g_process_ids =
     (case find (\<lambda>i. g_process_ids ! i = ident) [0..<length g_process_ids] of
        Some i \<Rightarrow> take i g_process_ids @ drop (Suc i) g_process_ids
      | None \<Rightarrow> g_process_ids)"

definition ids_ok :: "int list \<Rightarrow> bool" where
  "ids_ok ids \<longleftrightarrow> sorted_wrt (<) ids \<and> (\<forall>i \<in> set ids. 0 \<le> i)"

text \<open>
  The contract: a generated identifier was not in use, is the least such, and is in use
  afterwards; a removed one is free again and no other one is touched.
\<close>

locale id_allocator =
  fixes gen :: "'s \<Rightarrow> int \<times> 's"
    and rem :: "int \<Rightarrow> 's \<Rightarrow> 's"
    and used :: "'s \<Rightarrow> int set"
    and invar :: "'s \<Rightarrow> bool"
  assumes gen_fresh: "invar s \<Longrightarrow> gen s = (i, s') \<Longrightarrow> i \<notin> used s"
    and gen_least: "invar s \<Longrightarrow> gen s = (i, s') \<Longrightarrow> 0 \<le> i \<and> (\<forall>j. 0 \<le> j \<longrightarrow> j < i \<longrightarrow> j \<in> used s)"
    and gen_used: "invar s \<Longrightarrow> gen s = (i, s') \<Longrightarrow> used s' = insert i (used s)"
    and gen_invar: "invar s \<Longrightarrow> gen s = (i, s') \<Longrightarrow> invar s'"
    and rem_used: "invar s \<Longrightarrow> used (rem i s) = used s - {i}"
    and rem_invar: "invar s \<Longrightarrow> invar (rem i s)"
begin

lemma gen_rem: "invar s \<Longrightarrow> gen s = (i, s') \<Longrightarrow> used (rem i s') = used s"
  using gen_fresh gen_used gen_invar rem_used by (metis Diff_insert_absorb)

lemma gen_twice: "invar s \<Longrightarrow> gen s = (i, s') \<Longrightarrow> gen s' = (j, s'') \<Longrightarrow> i \<noteq> j"
  using gen_fresh gen_used gen_invar by (metis insertI1)

text \<open>\<open>n\<close> identifiers taken in a row are pairwise different and none of them was in use.\<close>

fun gen_many :: "nat \<Rightarrow> 's \<Rightarrow> int list \<times> 's" where
  "gen_many 0 s = ([], s)"
| "gen_many (Suc n) s = (let (i, s1) = gen s; (is, s2) = gen_many n s1 in (i # is, s2))"

lemma gen_many_distinct:
  "invar s \<Longrightarrow> gen_many n s = (is, s') \<Longrightarrow>
   distinct is \<and> set is \<inter> used s = {} \<and> used s' = set is \<union> used s \<and> invar s'"
proof (induction n arbitrary: s "is")
  case (Suc n)
  obtain i s1 where g: "gen s = (i, s1)" by fastforce
  obtain is2 s2 where g2: "gen_many n s1 = (is2, s2)" by fastforce
  with Suc.prems g have eq: "is = i # is2" "s' = s2" by auto
  have inv1: "invar s1" and u1: "used s1 = insert i (used s)" and fr: "i \<notin> used s"
    using gen_invar gen_used gen_fresh Suc.prems(1) g by blast+
  from Suc.IH [OF inv1] g2 eq
  have "distinct is2 \<and> set is2 \<inter> used s1 = {} \<and> used s' = set is2 \<union> used s1 \<and> invar s'"
    by simp
  with eq u1 fr show ?case by auto
qed simp

end

lemma find_upt_Some:
  "find P [0..<n] = Some i \<longleftrightarrow> i < n \<and> P i \<and> (\<forall>j < i. \<not> P j)"
  by (fastforce simp: find_Some_iff)

lemma find_upt_None: "find P [0..<n] = None \<longleftrightarrow> (\<forall>i < n. \<not> P i)"
  by (auto simp: find_None_iff)

lemma ids_ok_ge_index:
  assumes "ids_ok ids" "i < length ids"
  shows "int i \<le> ids ! i"
  using assms(2)
proof (induction i)
  case 0
  with assms show ?case by (simp add: ids_ok_def)
next
  case (Suc i)
  moreover have "ids ! i < ids ! Suc i"
    using assms Suc.prems by (auto simp: ids_ok_def sorted_wrt_iff_nth_less)
  ultimately show ?case by simp
qed

lemma generate_id_cases:
  assumes "ids_ok ids" "generate_id ids = (i, ids')"
  obtains k where "k \<le> length ids" "i = int k" "ids' = take k ids @ int k # drop k ids"
    "\<forall>j < k. ids ! j = int j" "\<forall>x \<in> set (drop k ids). int k < x"
proof (cases "find (\<lambda>i. ids ! i \<noteq> int i) [0..<length ids]")
  case None
  with assms have "i = int (length ids)" "ids' = ids @ [int (length ids)]" "\<forall>j < length ids. ids ! j = int j"
    by (auto simp: generate_id_def Let_def find_upt_None)
  then show ?thesis by (intro that [of "length ids"]) auto
next
  case (Some k)
  then have k: "k < length ids" "ids ! k \<noteq> int k" "\<forall>j < k. ids ! j = int j"
    by (auto simp: find_upt_Some)
  have "int k < ids ! j" if "k \<le> j" "j < length ids" for j
  proof -
    have "int k < ids ! k"
      using ids_ok_ge_index [OF assms(1) k(1)] k(2) by simp
    also have "ids ! k \<le> ids ! j"
      using that assms(1) by (cases "k = j") (auto simp: ids_ok_def sorted_wrt_iff_nth_less intro: less_imp_le)
    finally show ?thesis .
  qed
  then have "\<forall>x \<in> set (drop k ids). int k < x"
    by (auto simp: in_set_conv_nth)
  with k Some assms(2) show ?thesis
    by (intro that [of k]) (auto simp: generate_id_def)
qed

lemma remove_id_eq_remove1: "remove_id i ids = remove1 i ids"
proof (cases "find (\<lambda>k. ids ! k = i) [0..<length ids]")
  case None
  then have "i \<notin> set ids" by (auto simp: find_upt_None in_set_conv_nth)
  with None show ?thesis by (simp add: remove_id_def remove1_idem)
next
  case (Some k)
  then have k: "k < length ids" "ids ! k = i" "\<forall>j < k. ids ! j \<noteq> i" by (auto simp: find_upt_Some)
  then have "i \<notin> set (take k ids)" by (auto simp: in_set_conv_nth)
  then have "remove1 i (take k ids @ drop k ids) = take k ids @ remove1 i (drop k ids)"
    unfolding remove1_append by simp
  moreover have "remove1 i (drop k ids) = drop (Suc k) ids"
    using k by (simp add: Cons_nth_drop_Suc [symmetric])
  ultimately show ?thesis
    using Some by (simp add: remove_id_def)
qed

lemma generate_id_spec:
  assumes "ids_ok ids" "generate_id ids = (i, ids')"
  shows "i \<notin> set ids" "0 \<le> i" "\<forall>j. 0 \<le> j \<longrightarrow> j < i \<longrightarrow> j \<in> set ids"
    "set ids' = insert i (set ids)" "ids_ok ids'"
proof -
  obtain k where k: "k \<le> length ids" "i = int k" "ids' = take k ids @ int k # drop k ids"
    "\<forall>j < k. ids ! j = int j" "\<forall>x \<in> set (drop k ids). int k < x"
    using generate_id_cases [OF assms] .
  have t: "\<forall>x \<in> set (take k ids). x < int k"
    using k(1,4) by (auto simp: in_set_conv_nth)
  show set: "set ids' = insert i (set ids)"
    unfolding k(2,3) by (metis Un_insert_right append_take_drop_id list.simps(15) set_append)
  show "i \<notin> set ids"
    using t k(2,5) by (metis Un_iff append_take_drop_id less_irrefl set_append)
  show "0 \<le> i" using k(2) by simp
  show "\<forall>j. 0 \<le> j \<longrightarrow> j < i \<longrightarrow> j \<in> set ids"
  proof (intro allI impI)
    fix j :: int assume "0 \<le> j" "j < i"
    then have "nat j < k" "ids ! nat j = j" using k(2,4) by auto
    then show "j \<in> set ids" using k(1) by (metis nth_mem order_less_le_trans)
  qed
  have "sorted_wrt (<) (take k ids @ drop k ids)"
    using assms(1) by (simp add: ids_ok_def)
  then have "sorted_wrt (<) ids'"
    unfolding k(3) sorted_wrt_append using t k(5) by auto
  with set assms(1) k(2) show "ids_ok ids'" by (auto simp: ids_ok_def)
qed

lemma sorted_wrt_remove1: "sorted_wrt (<) (xs :: int list) \<Longrightarrow> sorted_wrt (<) (remove1 x xs)"
  by (induction xs) (auto dest: notin_set_remove1 [rotated])

lemma ids_ok_distinct: "ids_ok ids \<Longrightarrow> distinct ids"
  by (simp add: ids_ok_def strict_sorted_iff)

lemma ids_ok_remove1: "ids_ok ids \<Longrightarrow> ids_ok (remove1 i ids)"
  using sorted_wrt_remove1 set_remove1_subset by (fastforce simp: ids_ok_def)

interpretation response_ids: id_allocator generate_id remove_id set ids_ok
proof unfold_locales
  fix ids and i :: int
  assume "ids_ok ids"
  then show "set (remove_id i ids) = set ids - {i}"
    by (simp add: remove_id_eq_remove1 ids_ok_distinct set_remove1_eq)
  from \<open>ids_ok ids\<close> show "ids_ok (remove_id i ids)"
    by (simp add: remove_id_eq_remove1 ids_ok_remove1)
qed (use generate_id_spec in blast)+

lemma generate_pid_eq: "generate_pid = generate_id" "remove_pid = remove_id"
  by (simp_all add: fun_eq_iff generate_pid_def generate_id_def remove_pid_def remove_id_def)

interpretation pids: id_allocator generate_pid remove_pid set ids_ok
  unfolding generate_pid_eq by (rule response_ids.id_allocator_axioms)

end
