(* ===== verification/Console.thy ===== *)
theory Console
  imports Lib_Utils
begin

text \<open>
  \<open>lib/generic_console.c\<close>: from a line of text to the call of an operation. The call is a value of
  \<open>command\<close>, one constructor for each callback of \<open>callbacks_t\<close>; an access past the tokens of the
  line and the call of a callback that is \<open>NULL\<close> are errors. The kernel parses the statements of a
  script with the same functions.
\<close>

section \<open>Recognising an operation\<close>

definition get_operation :: "commons \<Rightarrow> string \<Rightarrow> operation_t" where
  "get_operation cm input =
     (let tokens = string_split_ignore_quotes cm input;
          is = (\<lambda>i word. string_equals_ignore_case cm (tokens ! i) word)
      in if length tokens = 0 then INVALID
         else if is 0 ''SELECT'' then SELECT
         else if is 0 ''INSERT'' then INSERT
         else if is 0 ''CREATE'' then CREATE
         else if is 0 ''DESCRIBE'' then DESCRIBE
         else if is 0 ''DROP'' then DROP
         else if is 0 ''JOURNAL'' then JOURNAL
         else if length tokens > 1 \<and> is 0 ''ADD'' \<and> is 1 ''MEMORY'' then ADD
         else if is 0 ''RUN'' then RUN
         else if is 0 ''METRICS'' then METRICS
         else INVALID)"

definition operation_allowed :: "operation_t \<Rightarrow> process_t \<Rightarrow> bool" where
  "operation_allowed operation process =
     (if process = FILESYSTEM then operation \<le> DROP
      else if process = MEMORY then operation \<le> JOURNAL
      else process = KERNEL)"

section \<open>Validation\<close>

definition is_number_in :: "string \<Rightarrow> int \<Rightarrow> int \<Rightarrow> bool" where
  \<comment> \<open>the whole token is a number between the bounds; \<open>strtol\<close> itself saturates at \<open>LONG_MAX\<close>\<close>
  "is_number_in token lo hi =
     (let (value, end_str) = strtol token in \<not> (end_str \<noteq> [] \<or> value < lo \<or> value > hi))"

definition LONG_MAX :: int where "LONG_MAX = 2 ^ 63 - 1"
definition UINT16_MAX :: int where "UINT16_MAX = 65535"

definition is_consistency :: "commons \<Rightarrow> string \<Rightarrow> bool" where
  "is_consistency cm token \<longleftrightarrow>
     string_equals_ignore_case cm token ''SC'' \<or> string_equals_ignore_case cm token ''SHC'' \<or>
     string_equals_ignore_case cm token ''EC''"

definition validate_select :: "string list \<Rightarrow> bool" where
  "validate_select tokens \<longleftrightarrow> length tokens = 3 \<and> is_number_in (tokens ! 2) 0 UINT16_MAX"

definition validate_insert :: "string list \<Rightarrow> bool" where
  "validate_insert tokens \<longleftrightarrow>
     (length tokens = 4 \<or> length tokens = 5) \<and> is_number_in (tokens ! 2) 0 UINT16_MAX \<and>
     (length tokens = 5 \<longrightarrow> is_number_in (tokens ! 4) 0 LONG_MAX)"

definition validate_create :: "commons \<Rightarrow> string list \<Rightarrow> bool" where
  "validate_create cm tokens \<longleftrightarrow>
     length tokens = 5 \<and> is_consistency cm (tokens ! 2) \<and>
     is_number_in (tokens ! 3) 0 LONG_MAX \<and> is_number_in (tokens ! 4) 0 LONG_MAX"

definition validate_describe :: "string list \<Rightarrow> bool" where
  "validate_describe tokens \<longleftrightarrow> length tokens = 1 \<or> length tokens = 2"

definition validate_drop :: "string list \<Rightarrow> bool" where
  "validate_drop tokens \<longleftrightarrow> length tokens = 2"

definition validate_journal :: "string list \<Rightarrow> bool" where
  "validate_journal tokens \<longleftrightarrow> length tokens = 1"

definition validate_add :: "commons \<Rightarrow> string list \<Rightarrow> bool" where
  "validate_add cm tokens \<longleftrightarrow>
     length tokens = 5 \<and> is_number_in (tokens ! 2) 0 LONG_MAX \<and>
     string_equals_ignore_case cm (tokens ! 3) ''TO'' \<and> is_consistency cm (tokens ! 4)"

definition validate_run :: "string list \<Rightarrow> bool" where
  "validate_run tokens \<longleftrightarrow> length tokens = 2"

definition validate_metrics :: "string list \<Rightarrow> bool" where
  "validate_metrics tokens \<longleftrightarrow> length tokens = 1"

definition validate_input :: "commons \<Rightarrow> operation_t \<Rightarrow> string \<Rightarrow> bool" where
  "validate_input cm operation input =
     (let tokens = string_split_ignore_quotes cm input
      in case operation of
        SELECT \<Rightarrow> validate_select tokens
      | INSERT \<Rightarrow> validate_insert tokens
      | CREATE \<Rightarrow> validate_create cm tokens
      | DESCRIBE \<Rightarrow> validate_describe tokens
      | DROP \<Rightarrow> validate_drop tokens
      | JOURNAL \<Rightarrow> validate_journal tokens
      | ADD \<Rightarrow> validate_add cm tokens
      | RUN \<Rightarrow> validate_run tokens
      | METRICS \<Rightarrow> validate_metrics tokens
      | INVALID \<Rightarrow> False)"

section \<open>Calling the operation\<close>

datatype command =
    CSelect select_input_t
  | CInsert insert_input_t
  | CCreate create_input_t
  | CDescribe describe_input_t
  | CDrop drop_input_t
  | CJournal
  | CAdd add_input_t
  | CRun run_input_t
  | CMetrics

fun command_operation :: "command \<Rightarrow> operation_t" where
  "command_operation (CSelect _) = SELECT"
| "command_operation (CInsert _) = INSERT"
| "command_operation (CCreate _) = CREATE"
| "command_operation (CDescribe _) = DESCRIBE"
| "command_operation (CDrop _) = DROP"
| "command_operation CJournal = JOURNAL"
| "command_operation (CAdd _) = ADD"
| "command_operation (CRun _) = RUN"
| "command_operation CMetrics = METRICS"

text \<open>Which members of \<open>callbacks_t\<close> the \<open>get_callbacks\<close> of each process sets; the others are \<open>NULL\<close>.\<close>

fun get_callbacks :: "process_t \<Rightarrow> operation_t list" where
  "get_callbacks KERNEL = [SELECT, INSERT, CREATE, DESCRIBE, DROP, JOURNAL, ADD, RUN, METRICS]"
| "get_callbacks FILESYSTEM = [SELECT, INSERT, CREATE, DESCRIBE, DROP]"
| "get_callbacks MEMORY = [SELECT, INSERT, CREATE, DESCRIBE, DROP, JOURNAL]"
| "get_callbacks UNKNOWN = []"

definition token :: "string list \<Rightarrow> nat \<Rightarrow> string result" where
  "token tokens i = (if i < length tokens then Inr (tokens ! i) else Inl Out_Of_Bounds)"

definition consistency_of_token :: "commons \<Rightarrow> string \<Rightarrow> consistency_t" where
  "consistency_of_token cm t =
     (if string_equals_ignore_case cm t ''SC'' then STRONG_CONSISTENCY
      else if string_equals_ignore_case cm t ''SHC'' then STRONG_HASH_CONSISTENCY
      else EVENTUAL_CONSISTENCY)"

definition input_of_tokens :: "commons \<Rightarrow> operation_t \<Rightarrow> string list \<Rightarrow> (command option) result" where
  "input_of_tokens cm operation tokens =
     (case operation of
        SELECT \<Rightarrow>
          rbind (token tokens 1) (\<lambda>t1. rbind (token tokens 2) (\<lambda>t2.
          Inr (Some (CSelect \<lparr>sel_table_name = t1, sel_key = string_to_uint16 t2\<rparr>))))
      | INSERT \<Rightarrow>
          rbind (token tokens 1) (\<lambda>t1. rbind (token tokens 2) (\<lambda>t2. rbind (token tokens 3) (\<lambda>t3.
          rbind (if length tokens = 5 then rbind (token tokens 4) (\<lambda>t4. Inr (string_to_long_long t4))
                 else Inr (-1)) (\<lambda>timestamp.
          Inr (Some (CInsert \<lparr>ins_table_name = t1, ins_key = string_to_uint16 t2,
                              ins_value = t3, ins_timestamp = timestamp\<rparr>))))))
      | CREATE \<Rightarrow>
          rbind (token tokens 1) (\<lambda>t1. rbind (token tokens 2) (\<lambda>t2. rbind (token tokens 3) (\<lambda>t3.
          rbind (token tokens 4) (\<lambda>t4.
          Inr (Some (CCreate \<lparr>cre_table_name = t1, cre_consistency = consistency_of_token cm t2,
                              cre_partitions = string_to_int t3,
                              cre_compaction_time = string_to_long t4\<rparr>))))))
      | DESCRIBE \<Rightarrow>
          rbind (if length tokens = 2 then rbind (token tokens 1) (\<lambda>t1. Inr (Some t1)) else Inr None)
          (\<lambda>name. Inr (Some (CDescribe \<lparr>des_table_name = name\<rparr>)))
      | DROP \<Rightarrow>
          rbind (token tokens 1) (\<lambda>t1. Inr (Some (CDrop \<lparr>drp_table_name = t1\<rparr>)))
      | JOURNAL \<Rightarrow> Inr (Some CJournal)
      | ADD \<Rightarrow>
          rbind (token tokens 2) (\<lambda>t2. rbind (token tokens 4) (\<lambda>t4.
          Inr (Some (CAdd \<lparr>add_memory_number = string_to_int t2,
                           add_consistency = consistency_of_token cm t4\<rparr>))))
      | RUN \<Rightarrow> rbind (token tokens 1) (\<lambda>t1. Inr (Some (CRun \<lparr>run_path = t1\<rparr>)))
      | METRICS \<Rightarrow> Inr (Some CMetrics)
      | INVALID \<Rightarrow> Inr None)"

definition process_input :: "commons \<Rightarrow> operation_t list \<Rightarrow> operation_t \<Rightarrow> string \<Rightarrow> (command option) result" where
  "process_input cm callbacks operation user_input =
     rbind (input_of_tokens cm operation (string_split_ignore_quotes cm user_input)) (\<lambda>c.
     case c of
       None \<Rightarrow> Inr None
     | Some cmd \<Rightarrow> if operation \<in> set callbacks then Inr (Some cmd) else Inl Null_Pointer)"

definition process_command ::
  "commons \<Rightarrow> process_t \<Rightarrow> operation_t list \<Rightarrow> string \<Rightarrow> (bool \<times> command option) result" where
  \<comment> \<open>the value of the C function, and the call it has made\<close>
  "process_command cm process callbacks command =
     (let operation = get_operation cm command
      in if operation = INVALID \<or> \<not> operation_allowed operation process \<or>
            \<not> validate_input cm operation command
         then Inr (False, None)
         else rbind (process_input cm callbacks operation command) (\<lambda>c. Inr (True, c)))"

section \<open>No line crashes the console\<close>

lemma operation_allowed_cases:
  "operation_allowed op p \<longleftrightarrow>
     (case p of KERNEL \<Rightarrow> True | FILESYSTEM \<Rightarrow> operation_code op \<le> 5
      | MEMORY \<Rightarrow> operation_code op \<le> 6 | UNKNOWN \<Rightarrow> False)"
  by (cases p) (simp_all add: operation_allowed_def less_eq_operation_t_def)

lemma allowed_has_callback:
  "op \<noteq> INVALID \<Longrightarrow> operation_allowed op p \<Longrightarrow> op \<in> set (get_callbacks p)"
  by (cases p; cases op) (simp_all add: operation_allowed_cases)

lemmas validators =
  validate_select_def validate_insert_def validate_create_def validate_describe_def
  validate_drop_def validate_journal_def validate_add_def validate_run_def validate_metrics_def

lemma validated_tokens:
  assumes "validate_input cm op line" "op \<noteq> INVALID"
  shows "\<exists>c. input_of_tokens cm op (string_split_ignore_quotes cm line) = Inr (Some c) \<and> command_operation c = op"
  using assms
  by (cases op) (auto simp: validate_input_def Let_def validators input_of_tokens_def token_def)

lemma process_command_cases:
  "process_command cm p (get_callbacks p) line = Inr (False, None) \<or>
   (\<exists>c. process_command cm p (get_callbacks p) line = Inr (True, Some c) \<and>
        command_operation c = get_operation cm line \<and> get_operation cm line \<noteq> INVALID \<and>
        operation_allowed (get_operation cm line) p)"
proof (cases "get_operation cm line = INVALID \<or> \<not> operation_allowed (get_operation cm line) p \<or>
            \<not> validate_input cm (get_operation cm line) line")
  case True
  then show ?thesis by (simp add: process_command_def)
next
  case False
  then obtain c where "input_of_tokens cm (get_operation cm line) (string_split_ignore_quotes cm line) = Inr (Some c)"
      "command_operation c = get_operation cm line"
    using validated_tokens by blast
  with False allowed_has_callback [of "get_operation cm line" p] show ?thesis
    by (auto simp: process_command_def process_input_def Let_def)
qed

section \<open>Printing a command and reading it back\<close>

fun consistency_token :: "consistency_t \<Rightarrow> string" where
  "consistency_token STRONG_CONSISTENCY = ''SC''"
| "consistency_token STRONG_HASH_CONSISTENCY = ''SHC''"
| "consistency_token EVENTUAL_CONSISTENCY = ''EC''"

fun command_line :: "command \<Rightarrow> lexeme list" where
  "command_line (CSelect i) =
     [Plain ''SELECT'', Plain (sel_table_name i), Plain (dec_int (uint (sel_key i)))]"
| "command_line (CInsert i) =
     [Plain ''INSERT'', Plain (ins_table_name i), Plain (dec_int (uint (ins_key i))), Quoted (ins_value i)] @
     (if ins_timestamp i = -1 then [] else [Plain (dec_int (ins_timestamp i))])"
| "command_line (CCreate i) =
     [Plain ''CREATE'', Plain (cre_table_name i), Plain (consistency_token (cre_consistency i)),
      Plain (dec_int (cre_partitions i)), Plain (dec_int (cre_compaction_time i))]"
| "command_line (CDescribe i) =
     Plain ''DESCRIBE'' # (case des_table_name i of None \<Rightarrow> [] | Some n \<Rightarrow> [Plain n])"
| "command_line (CDrop i) = [Plain ''DROP'', Plain (drp_table_name i)]"
| "command_line CJournal = [Plain ''JOURNAL'']"
| "command_line (CAdd i) =
     [Plain ''ADD'', Plain ''MEMORY'', Plain (dec_int (add_memory_number i)), Plain ''TO'',
      Plain (consistency_token (add_consistency i))]"
| "command_line (CRun i) = [Plain ''RUN'', Plain (run_path i)]"
| "command_line CMetrics = [Plain ''METRICS'']"

definition print_command :: "command \<Rightarrow> string" where
  "print_command c = join_with (CHR '' '') (map lexeme_print (command_line c))"

fun command_ok :: "command \<Rightarrow> bool" where
  "command_ok (CSelect i) \<longleftrightarrow> lexeme_ok (Plain (sel_table_name i))"
| "command_ok (CInsert i) \<longleftrightarrow> lexeme_ok (Plain (ins_table_name i)) \<and> lexeme_ok (Quoted (ins_value i)) \<and>
     -1 \<le> ins_timestamp i \<and> fits_long (ins_timestamp i)"
| "command_ok (CCreate i) \<longleftrightarrow> lexeme_ok (Plain (cre_table_name i)) \<and> 0 \<le> cre_partitions i \<and>
     fits_int (cre_partitions i) \<and> 0 \<le> cre_compaction_time i \<and> fits_long (cre_compaction_time i)"
| "command_ok (CDescribe i) \<longleftrightarrow> (case des_table_name i of None \<Rightarrow> True | Some n \<Rightarrow> lexeme_ok (Plain n))"
| "command_ok (CDrop i) \<longleftrightarrow> lexeme_ok (Plain (drp_table_name i))"
| "command_ok CJournal \<longleftrightarrow> True"
| "command_ok (CAdd i) \<longleftrightarrow> 0 \<le> add_memory_number i \<and> fits_int (add_memory_number i)"
| "command_ok (CRun i) \<longleftrightarrow> lexeme_ok (Plain (run_path i))"
| "command_ok CMetrics \<longleftrightarrow> True"

lemma lexeme_ok_dec_int [simp]: "lexeme_ok (Plain (dec_int x))"
  by (simp add: dec_int_notin is_digit_def)

lemma fits_long_int: "fits_int x \<Longrightarrow> fits_long x"
  by (simp add: fits_int_def fits_long_def)

lemma fits_long_u16 [simp]: "fits_long (uint (k :: u16))"
  using uint_lt2p [of k] uint_ge_0 [of k] unfolding fits_long_def by (auto intro: order_trans [of _ 0])

lemma is_number_in_dec_int [simp]:
  "fits_long x \<Longrightarrow> is_number_in (dec_int x) lo hi \<longleftrightarrow> lo \<le> x \<and> x \<le> hi"
  by (auto simp: is_number_in_def)

lemma is_number_in_key [simp]: "is_number_in (dec_int (uint (k :: u16))) 0 UINT16_MAX"
  using uint_lt2p [of k] by (simp add: UINT16_MAX_def)

lemma fits_long_LONG_MAX: "fits_long x \<Longrightarrow> x \<le> LONG_MAX"
  by (simp add: fits_long_def LONG_MAX_def)

lemma string_to_dec_int [simp]:
  "fits_int x \<Longrightarrow> string_to_int (dec_int x) = x"
  "fits_long x \<Longrightarrow> string_to_long (dec_int x) = x"
  by (simp_all add: string_to_int_def string_to_long_def int_cast_fits fits_long_int)

lemma command_line_lexemes:
  "command_ok c \<Longrightarrow> command_line c \<noteq> [] \<and> (\<forall>l \<in> set (command_line c). lexeme_ok l)"
  by (cases c; cases "case c of CCreate i \<Rightarrow> cre_consistency i | CAdd i \<Rightarrow> add_consistency i | _ \<Rightarrow> STRONG_CONSISTENCY")
    (auto simp del: lexeme_ok.simps split: option.splits, simp_all)

context commons_api
begin

lemma tokens_print_command:
  "command_ok c \<Longrightarrow>
   string_split_ignore_quotes cm (print_command c) = map lexeme_text (command_line c)"
  unfolding print_command_def using command_line_lexemes by (blast intro: tokens_of_line)

lemma consistency_token_facts [simp]:
  "is_consistency cm (consistency_token k)" "consistency_of_token cm (consistency_token k) = k"
  by (cases k; simp add: is_consistency_def consistency_of_token_def equals_ignore_case upc_def)+

lemma get_operation_print: "command_ok c \<Longrightarrow> get_operation cm (print_command c) = command_operation c"
  unfolding get_operation_def
  by (cases c) (simp_all add: tokens_print_command equals_ignore_case upc_def)

lemma validate_print:
  "command_ok c \<Longrightarrow> validate_input cm (command_operation c) (print_command c)"
  by (cases c)
    (auto simp: validate_input_def tokens_print_command validators equals_ignore_case upc_def
        fits_long_int fits_long_LONG_MAX split: option.splits)

lemma input_print:
  "command_ok c \<Longrightarrow>
   input_of_tokens cm (command_operation c) (map lexeme_text (command_line c)) = Inr (Some c)"
  by (cases c) (auto simp: input_of_tokens_def token_def numeral_eq_Suc split: option.splits)

lemma process_command_print:
  assumes "command_ok c"
  shows "process_command cm p (get_callbacks p) (print_command c) =
    (if operation_allowed (command_operation c) p then Inr (True, Some c) else Inr (False, None))"
proof -
  have ni: "command_operation c \<noteq> INVALID" by (cases c) simp_all
  show ?thesis
    using ni allowed_has_callback [OF ni, of p] validate_print [OF assms] input_print [OF assms]
    by (simp add: process_command_def get_operation_print [OF assms] process_input_def
        tokens_print_command [OF assms])
qed

end

end
