(* ===== verification/Serializer.thy ===== *)
theory Serializer
  imports Lib_Utils
begin

text \<open>
  \<open>lib/utils/serializer.c\<close>: the sizes of the fields of every message, the bytes of a message and
  the way back. A \<open>void*\<close> content is a value of \<open>content\<close>, one constructor per structure the casts
  expect. \<open>serialize_content\<close> returns the bytes it writes from the start of its buffer;
  \<open>deserialize_content\<close> reads through the pointer \<open>from + offset\<close>, which is the rest of the
  buffer, and a read past the end of the buffer is the error \<open>Out_Of_Bounds\<close>. The array
  \<open>elements_size\<close> has \<open>elements\<close> entries, so its length stands for both.
\<close>

named_theorems ser_simps \<open>serialized messages\<close>

datatype content =
    Select_Content select_input_t
  | Record_Content record_t
  | Insert_Content insert_input_t
  | Int_Content int
  | Inserts_Content "insert_input_t list"
  | Create_Content create_input_t
  | Describe_Content describe_input_t
  | Metadata_Content "table_metadata_t list"
  | Drop_Content drop_input_t
  | Memories_Content "memory_t list"
  | Null_Content

abbreviation "sizeof_u16 \<equiv> (2 :: int)"
abbreviation "sizeof_int \<equiv> (4 :: int)"
abbreviation "sizeof_long \<equiv> (8 :: int)"
abbreviation "sizeof_consistency \<equiv> (1 :: int)"
abbreviation "sizeof_bool \<equiv> (1 :: int)"

definition str_size :: "string \<Rightarrow> int" where
  \<comment> \<open>\<open>strlen(s) + 1\<close>\<close>
  "str_size s = int (length s) + 1"

section \<open>Element sizes\<close>

definition elements_select_in_info :: "select_input_t \<Rightarrow> int list" where
  "elements_select_in_info i = [str_size (sel_table_name i), sizeof_u16]"

definition elements_select_out_info :: "record_t \<Rightarrow> int list" where
  "elements_select_out_info r =
     [str_size (rec_table_name r), sizeof_long, sizeof_int, str_size (rec_value r)]"

definition elements_insert_in_info :: "insert_input_t \<Rightarrow> int list" where
  "elements_insert_in_info i =
     [str_size (ins_table_name i), sizeof_u16, str_size (ins_value i), sizeof_long]"

definition elements_insert_out_info :: "int list" where
  "elements_insert_out_info = [sizeof_int]"

definition elements_multiinsert_in_info :: "insert_input_t list \<Rightarrow> int list" where
  "elements_multiinsert_in_info inserts =
     concat (map (\<lambda>i. [str_size (ins_table_name i), sizeof_u16, str_size (ins_value i), sizeof_long])
       inserts)"

definition elements_multiinsert_out_info :: "int list" where
  "elements_multiinsert_out_info = [sizeof_int]"

definition elements_create_in_info :: "create_input_t \<Rightarrow> int list" where
  "elements_create_in_info i =
     [str_size (cre_table_name i), sizeof_consistency, sizeof_int, sizeof_long]"

definition elements_create_out_info :: "int list" where
  "elements_create_out_info = [sizeof_int]"

definition elements_describe_in_info :: "describe_input_t \<Rightarrow> int list" where
  "elements_describe_in_info i =
     (case des_table_name i of None \<Rightarrow> [] | Some t \<Rightarrow> [str_size t])"

definition elements_describe_out_info :: "table_metadata_t list \<Rightarrow> int list" where
  "elements_describe_out_info describe_list =
     concat (map (\<lambda>m. [str_size (md_table_name m), sizeof_consistency, sizeof_int, sizeof_long])
       describe_list)"

definition elements_drop_in_info :: "drop_input_t \<Rightarrow> int list" where
  "elements_drop_in_info i = [str_size (drp_table_name i)]"

definition elements_drop_out_info :: "int list" where
  "elements_drop_out_info = [sizeof_int]"

definition elements_journal_in_info :: "int list" where
  "elements_journal_in_info = []"

definition elements_journal_out_info :: "int list" where
  "elements_journal_out_info = [sizeof_int]"

definition elements_value_in_info :: "int list" where
  "elements_value_in_info = []"

definition elements_value_out_info :: "int list" where
  "elements_value_out_info = [sizeof_int]"

definition elements_gossip_info :: "memory_t list \<Rightarrow> int list" where
  "elements_gossip_info memories =
     concat (map (\<lambda>m. [sizeof_int, str_size (mem_ip m), sizeof_int, sizeof_bool, sizeof_long]) memories)"

text \<open>The casts of a \<open>void*\<close> to the structure an operation expects.\<close>

definition bad_cast :: "content \<Rightarrow> 'a result" where
  "bad_cast c = (if c = Null_Content then Inl Null_Pointer else Inl Bad_Cast)"

definition as_select :: "content \<Rightarrow> (select_input_t) result" where
  "as_select c = (case c of Select_Content x \<Rightarrow> Inr x | _ \<Rightarrow> bad_cast c)"

definition as_record :: "content \<Rightarrow> (record_t) result" where
  "as_record c = (case c of Record_Content x \<Rightarrow> Inr x | _ \<Rightarrow> bad_cast c)"

definition as_insert :: "content \<Rightarrow> (insert_input_t) result" where
  "as_insert c = (case c of Insert_Content x \<Rightarrow> Inr x | _ \<Rightarrow> bad_cast c)"

definition as_int :: "content \<Rightarrow> (int) result" where
  "as_int c = (case c of Int_Content x \<Rightarrow> Inr x | _ \<Rightarrow> bad_cast c)"

definition as_inserts :: "content \<Rightarrow> (insert_input_t list) result" where
  "as_inserts c = (case c of Inserts_Content x \<Rightarrow> Inr x | _ \<Rightarrow> bad_cast c)"

definition as_create :: "content \<Rightarrow> (create_input_t) result" where
  "as_create c = (case c of Create_Content x \<Rightarrow> Inr x | _ \<Rightarrow> bad_cast c)"

definition as_describe :: "content \<Rightarrow> (describe_input_t) result" where
  "as_describe c = (case c of Describe_Content x \<Rightarrow> Inr x | _ \<Rightarrow> bad_cast c)"

definition as_metadata :: "content \<Rightarrow> (table_metadata_t list) result" where
  "as_metadata c = (case c of Metadata_Content x \<Rightarrow> Inr x | _ \<Rightarrow> bad_cast c)"

definition as_drop :: "content \<Rightarrow> (drop_input_t) result" where
  "as_drop c = (case c of Drop_Content x \<Rightarrow> Inr x | _ \<Rightarrow> bad_cast c)"

definition as_memories :: "content \<Rightarrow> (memory_t list) result" where
  "as_memories c = (case c of Memories_Content x \<Rightarrow> Inr x | _ \<Rightarrow> bad_cast c)"

definition get_out_element_info :: "socket_operation_t \<Rightarrow> content \<Rightarrow> int list result" where
  "get_out_element_info operation input =
     (case operation of
        SELECT_OUT \<Rightarrow> rbind (as_record input) (\<lambda>r. Inr (elements_select_out_info r))
      | INSERT_OUT \<Rightarrow> Inr elements_insert_out_info
      | CREATE_OUT \<Rightarrow> Inr elements_create_out_info
      | DESCRIBE_OUT \<Rightarrow> rbind (as_metadata input) (\<lambda>l. Inr (elements_describe_out_info l))
      | DROP_OUT \<Rightarrow> Inr elements_drop_out_info
      | JOURNAL_OUT \<Rightarrow> Inr elements_journal_out_info
      | VALUE_OUT \<Rightarrow> Inr elements_value_out_info
      | GOSSIP_OUT \<Rightarrow> rbind (as_memories input) (\<lambda>l. Inr (elements_gossip_info l))
      | MULTIINSERT_OUT \<Rightarrow> Inr elements_multiinsert_out_info
      | _ \<Rightarrow> Inr [])"

section \<open>Serialization\<close>

definition serialize_insert :: "insert_input_t \<Rightarrow> bytes" where
  "serialize_insert i =
     cstr_bytes (ins_table_name i) @ enc_int 2 (uint (ins_key i)) @ cstr_bytes (ins_value i) @
     enc_int 8 (ins_timestamp i)"

definition serialize_metadata :: "table_metadata_t \<Rightarrow> bytes" where
  "serialize_metadata m =
     cstr_bytes (md_table_name m) @ enc_int 1 (consistency_code (md_consistency m)) @
     enc_int 4 (md_partitions m) @ enc_int 8 (md_compaction_time m)"

definition serialize_memory :: "memory_t \<Rightarrow> bytes" where
  "serialize_memory m =
     enc_int 4 (mem_id m) @ cstr_bytes (mem_ip m) @ enc_int 4 (mem_port m) @
     enc_int 1 (of_bool (mem_alive m)) @ enc_int 8 (mem_timestamp m)"

definition serialize_content :: "socket_operation_t \<Rightarrow> content \<Rightarrow> bytes result" where
  "serialize_content operation from =
     (case operation of
        SELECT_IN \<Rightarrow> rbind (as_select from) (\<lambda>i.
          Inr (cstr_bytes (sel_table_name i) @ enc_int 2 (uint (sel_key i))))
      | SELECT_OUT \<Rightarrow> rbind (as_record from) (\<lambda>r.
          Inr (cstr_bytes (rec_table_name r) @ enc_int 8 (rec_timestamp r) @ enc_int 4 (rec_key r) @
               cstr_bytes (rec_value r)))
      | INSERT_IN \<Rightarrow> rbind (as_insert from) (\<lambda>i. Inr (serialize_insert i))
      | INSERT_OUT \<Rightarrow> rbind (as_int from) (\<lambda>n. Inr (enc_int 4 n))
      | MULTIINSERT_IN \<Rightarrow> rbind (as_inserts from) (\<lambda>is. Inr (concat (map serialize_insert is)))
      | MULTIINSERT_OUT \<Rightarrow> rbind (as_int from) (\<lambda>n. Inr (enc_int 4 n))
      | CREATE_IN \<Rightarrow> rbind (as_create from) (\<lambda>i.
          Inr (cstr_bytes (cre_table_name i) @ enc_int 1 (consistency_code (cre_consistency i)) @
               enc_int 4 (cre_partitions i) @ enc_int 8 (cre_compaction_time i)))
      | CREATE_OUT \<Rightarrow> rbind (as_int from) (\<lambda>n. Inr (enc_int 4 n))
      | DESCRIBE_IN \<Rightarrow> rbind (as_describe from) (\<lambda>i.
          Inr (case des_table_name i of None \<Rightarrow> [] | Some t \<Rightarrow> cstr_bytes t))
      | DESCRIBE_OUT \<Rightarrow> rbind (as_metadata from) (\<lambda>l. Inr (concat (map serialize_metadata l)))
      | DROP_IN \<Rightarrow> rbind (as_drop from) (\<lambda>i. Inr (cstr_bytes (drp_table_name i)))
      | DROP_OUT \<Rightarrow> rbind (as_int from) (\<lambda>n. Inr (enc_int 4 n))
      | JOURNAL_OUT \<Rightarrow> rbind (as_int from) (\<lambda>n. Inr (enc_int 4 n))
      | VALUE_OUT \<Rightarrow> rbind (as_int from) (\<lambda>n. Inr (enc_int 4 n))
      | GOSSIP_IN \<Rightarrow> rbind (as_memories from) (\<lambda>l. Inr (concat (map serialize_memory l)))
      | GOSSIP_OUT \<Rightarrow> rbind (as_memories from) (\<lambda>l. Inr (concat (map serialize_memory l)))
      | _ \<Rightarrow> Inr [])"

section \<open>Deserialization\<close>

definition read_bytes :: "nat \<Rightarrow> bytes \<Rightarrow> bytes result" where
  "read_bytes n from = (if n \<le> length from then Inr (take n from) else Inl Out_Of_Bounds)"

definition read_str :: "int \<Rightarrow> bytes \<Rightarrow> string result" where
  \<comment> \<open>\<open>p = malloc(length); memcpy(p, from, length)\<close>, read as a C string\<close>
  "read_str len from =
     (if len < 0 then Inl Out_Of_Bounds else rbind (read_bytes (nat len) from) (\<lambda>b. Inr (cstr b)))"

definition read_sint :: "nat \<Rightarrow> bytes \<Rightarrow> int result" where
  "read_sint n from = rbind (read_bytes n from) (\<lambda>b. Inr (dec_sint b))"

definition read_u16 :: "bytes \<Rightarrow> u16 result" where
  "read_u16 from = rbind (read_bytes 2 from) (\<lambda>b. Inr (word_of_int (dec_uint b)))"

definition read_consistency :: "bytes \<Rightarrow> consistency_t result" where
  "read_consistency from =
     rbind (read_bytes 1 from) (\<lambda>b.
       case consistency_of_code (dec_uint b) of None \<Rightarrow> Inl Bad_Enum | Some c \<Rightarrow> Inr c)"

definition skip :: "int \<Rightarrow> bytes \<Rightarrow> bytes" where
  \<comment> \<open>\<open>offset += length\<close>\<close>
  "skip len from = drop (nat len) from"

definition deserialize_insert :: "bytes \<Rightarrow> int \<Rightarrow> int \<Rightarrow> int \<Rightarrow> int \<Rightarrow> (insert_input_t \<times> bytes) result" where
  "deserialize_insert b0 l0 l1 l2 l3 =
     rbind (read_str l0 b0) (\<lambda>name.
     let b1 = skip l0 b0 in
     rbind (read_u16 b1) (\<lambda>key.
     let b2 = skip l1 b1 in
     rbind (read_str l2 b2) (\<lambda>val.
     let b3 = skip l2 b2 in
     rbind (read_sint 8 b3) (\<lambda>ts.
     Inr (\<lparr>ins_table_name = name, ins_key = key, ins_value = val, ins_timestamp = ts\<rparr>,
          skip l3 b3)))))"

fun deserialize_inserts :: "bytes \<Rightarrow> int list \<Rightarrow> insert_input_t list result" where
  "deserialize_inserts from [] = Inr []"
| "deserialize_inserts from (l0 # l1 # l2 # l3 # ls) =
     rbind (deserialize_insert from l0 l1 l2 l3) (\<lambda>(i, rest).
     rbind (deserialize_inserts rest ls) (\<lambda>is. Inr (i # is)))"
| "deserialize_inserts from _ = Inl Out_Of_Bounds"

definition deserialize_metadata :: "bytes \<Rightarrow> int \<Rightarrow> int \<Rightarrow> int \<Rightarrow> int \<Rightarrow> (table_metadata_t \<times> bytes) result" where
  "deserialize_metadata b0 l0 l1 l2 l3 =
     rbind (read_str l0 b0) (\<lambda>name.
     let b1 = skip l0 b0 in
     rbind (read_consistency b1) (\<lambda>cons.
     let b2 = skip l1 b1 in
     rbind (read_sint 4 b2) (\<lambda>parts.
     let b3 = skip l2 b2 in
     rbind (read_sint 8 b3) (\<lambda>ct.
     Inr (\<lparr>md_table_name = name, md_consistency = cons, md_partitions = parts,
           md_compaction_time = ct\<rparr>, skip l3 b3)))))"

fun deserialize_metadatas :: "bytes \<Rightarrow> int list \<Rightarrow> table_metadata_t list result" where
  "deserialize_metadatas from [] = Inr []"
| "deserialize_metadatas from (l0 # l1 # l2 # l3 # ls) =
     rbind (deserialize_metadata from l0 l1 l2 l3) (\<lambda>(m, rest).
     rbind (deserialize_metadatas rest ls) (\<lambda>ms. Inr (m # ms)))"
| "deserialize_metadatas from _ = Inl Out_Of_Bounds"

definition deserialize_memory :: "bytes \<Rightarrow> int \<Rightarrow> int \<Rightarrow> int \<Rightarrow> int \<Rightarrow> int \<Rightarrow> (memory_t \<times> bytes) result" where
  "deserialize_memory b0 l0 l1 l2 l3 l4 =
     rbind (read_sint 4 b0) (\<lambda>ident.
     let b1 = skip l0 b0 in
     rbind (read_str l1 b1) (\<lambda>ip.
     let b2 = skip l1 b1 in
     rbind (read_sint 4 b2) (\<lambda>port.
     let b3 = skip l2 b2 in
     rbind (read_bytes 1 b3) (\<lambda>alive.
     let b4 = skip l3 b3 in
     rbind (read_sint 8 b4) (\<lambda>ts.
     Inr (\<lparr>mem_id = ident, mem_ip = ip, mem_port = port, mem_alive = (dec_uint alive \<noteq> 0),
           mem_timestamp = ts\<rparr>, skip l4 b4))))))"

fun deserialize_memories :: "bytes \<Rightarrow> int list \<Rightarrow> memory_t list result" where
  "deserialize_memories from [] = Inr []"
| "deserialize_memories from (l0 # l1 # l2 # l3 # l4 # ls) =
     rbind (deserialize_memory from l0 l1 l2 l3 l4) (\<lambda>(m, rest).
     rbind (deserialize_memories rest ls) (\<lambda>ms. Inr (m # ms)))"
| "deserialize_memories from _ = Inl Out_Of_Bounds"

definition deserialize_select_in :: "bytes \<Rightarrow> int list \<Rightarrow> content result" where
  "deserialize_select_in from ls =
     (case ls of l0 # l1 # _ \<Rightarrow>
        rbind (read_str l0 from) (\<lambda>name.
        rbind (read_u16 (skip l0 from)) (\<lambda>key.
        Inr (Select_Content \<lparr>sel_table_name = name, sel_key = key\<rparr>)))
      | _ \<Rightarrow> Inl Out_Of_Bounds)"

definition deserialize_select_out :: "bytes \<Rightarrow> int list \<Rightarrow> content result" where
  "deserialize_select_out b0 ls =
     (case ls of l0 # l1 # l2 # l3 # _ \<Rightarrow>
        rbind (read_str l0 b0) (\<lambda>name.
        let b1 = skip l0 b0 in
        rbind (read_sint 8 b1) (\<lambda>ts.
        let b2 = skip l1 b1 in
        rbind (read_sint 4 b2) (\<lambda>key.
        let b3 = skip l2 b2 in
        rbind (read_str l3 b3) (\<lambda>val.
        Inr (Record_Content \<lparr>rec_table_name = name, rec_timestamp = ts, rec_key = key, rec_value = val\<rparr>)))))
      | _ \<Rightarrow> Inl Out_Of_Bounds)"

definition deserialize_create_in :: "bytes \<Rightarrow> int list \<Rightarrow> content result" where
  "deserialize_create_in b0 ls =
     (case ls of l0 # l1 # l2 # l3 # _ \<Rightarrow>
        rbind (read_str l0 b0) (\<lambda>name.
        let b1 = skip l0 b0 in
        rbind (read_consistency b1) (\<lambda>cons.
        let b2 = skip l1 b1 in
        rbind (read_sint 4 b2) (\<lambda>parts.
        let b3 = skip l2 b2 in
        rbind (read_sint 8 b3) (\<lambda>ct.
        Inr (Create_Content \<lparr>cre_table_name = name, cre_consistency = cons, cre_partitions = parts,
              cre_compaction_time = ct\<rparr>)))))
      | _ \<Rightarrow> Inl Out_Of_Bounds)"

definition deserialize_int :: "bytes \<Rightarrow> int list \<Rightarrow> content result" where
  \<comment> \<open>\<open>p = malloc(sizeof(int)); memcpy(p, from, elements_size[0])\<close>\<close>
  "deserialize_int from ls =
     (case ls of l0 # _ \<Rightarrow>
        if l0 < 0 \<or> sizeof_int < l0 then Inl Out_Of_Bounds
        else if l0 < sizeof_int then Inl Uninitialised
        else rbind (read_sint 4 from) (\<lambda>n. Inr (Int_Content n))
      | _ \<Rightarrow> Inl Out_Of_Bounds)"

definition deserialize_describe_in :: "bytes \<Rightarrow> int list \<Rightarrow> content result" where
  "deserialize_describe_in from ls =
     (case ls of [] \<Rightarrow> Inr (Describe_Content \<lparr>des_table_name = None\<rparr>)
      | l0 # _ \<Rightarrow> rbind (read_str l0 from) (\<lambda>t. Inr (Describe_Content \<lparr>des_table_name = Some t\<rparr>)))"

definition deserialize_drop_in :: "bytes \<Rightarrow> int list \<Rightarrow> content result" where
  "deserialize_drop_in from ls =
     (case ls of l0 # _ \<Rightarrow> rbind (read_str l0 from) (\<lambda>t. Inr (Drop_Content \<lparr>drp_table_name = t\<rparr>))
      | [] \<Rightarrow> Inl Out_Of_Bounds)"

definition deserialize_insert_in :: "bytes \<Rightarrow> int list \<Rightarrow> content result" where
  "deserialize_insert_in from ls =
     (case ls of l0 # l1 # l2 # l3 # _ \<Rightarrow>
        rbind (deserialize_insert from l0 l1 l2 l3) (\<lambda>(i, _). Inr (Insert_Content i))
      | _ \<Rightarrow> Inl Out_Of_Bounds)"

definition deserialize_content :: "bytes \<Rightarrow> socket_operation_t \<Rightarrow> int list \<Rightarrow> content result" where
  "deserialize_content from operation ls =
     (case operation of
        SELECT_IN \<Rightarrow> deserialize_select_in from ls
      | SELECT_OUT \<Rightarrow> deserialize_select_out from ls
      | INSERT_IN \<Rightarrow> deserialize_insert_in from ls
      | INSERT_OUT \<Rightarrow> deserialize_int from ls
      | MULTIINSERT_IN \<Rightarrow> rbind (deserialize_inserts from ls) (\<lambda>is. Inr (Inserts_Content is))
      | MULTIINSERT_OUT \<Rightarrow> deserialize_int from ls
      | CREATE_IN \<Rightarrow> deserialize_create_in from ls
      | CREATE_OUT \<Rightarrow> deserialize_int from ls
      | DESCRIBE_IN \<Rightarrow> deserialize_describe_in from ls
      | DESCRIBE_OUT \<Rightarrow> rbind (deserialize_metadatas from ls) (\<lambda>ms. Inr (Metadata_Content ms))
      | DROP_IN \<Rightarrow> deserialize_drop_in from ls
      | DROP_OUT \<Rightarrow> deserialize_int from ls
      | JOURNAL_OUT \<Rightarrow> deserialize_int from ls
      | VALUE_OUT \<Rightarrow> deserialize_int from ls
      | GOSSIP_IN \<Rightarrow> rbind (deserialize_memories from ls) (\<lambda>ms. Inr (Memories_Content ms))
      | GOSSIP_OUT \<Rightarrow> rbind (deserialize_memories from ls) (\<lambda>ms. Inr (Memories_Content ms))
      | _ \<Rightarrow> Inr Null_Content)"

section \<open>Well-formed messages\<close>

text \<open>
  What the C types of the fields guarantee: strings hold no NUL before their end, integers are in
  the range of their type (a \<open>uint16_t\<close> is a 16-bit word already).
\<close>

definition wf_select :: "select_input_t \<Rightarrow> bool" where
  "wf_select i \<longleftrightarrow> no_nul (sel_table_name i)"

definition wf_record :: "record_t \<Rightarrow> bool" where
  "wf_record r \<longleftrightarrow> no_nul (rec_table_name r) \<and> no_nul (rec_value r) \<and> fits_long (rec_timestamp r) \<and>
     fits_int (rec_key r)"

definition wf_insert :: "insert_input_t \<Rightarrow> bool" where
  "wf_insert i \<longleftrightarrow> no_nul (ins_table_name i) \<and> no_nul (ins_value i) \<and> fits_long (ins_timestamp i)"

definition wf_create :: "create_input_t \<Rightarrow> bool" where
  "wf_create i \<longleftrightarrow> no_nul (cre_table_name i) \<and> fits_int (cre_partitions i) \<and>
     fits_long (cre_compaction_time i)"

definition wf_describe :: "describe_input_t \<Rightarrow> bool" where
  "wf_describe i \<longleftrightarrow> (case des_table_name i of None \<Rightarrow> True | Some t \<Rightarrow> no_nul t)"

definition wf_drop :: "drop_input_t \<Rightarrow> bool" where
  "wf_drop i \<longleftrightarrow> no_nul (drp_table_name i)"

definition wf_metadata :: "table_metadata_t \<Rightarrow> bool" where
  "wf_metadata m \<longleftrightarrow> no_nul (md_table_name m) \<and> fits_int (md_partitions m) \<and>
     fits_long (md_compaction_time m)"

definition wf_memory :: "memory_t \<Rightarrow> bool" where
  "wf_memory m \<longleftrightarrow> fits_int (mem_id m) \<and> no_nul (mem_ip m) \<and> fits_int (mem_port m) \<and>
     fits_long (mem_timestamp m)"

lemmas wf_message_defs = wf_select_def wf_record_def wf_insert_def wf_create_def wf_describe_def
  wf_drop_def wf_metadata_def wf_memory_def

lemmas as_defs = as_select_def as_record_def as_insert_def as_int_def as_inserts_def as_create_def
  as_describe_def as_metadata_def as_drop_def as_memories_def

lemmas element_info_defs = elements_select_in_info_def elements_select_out_info_def
  elements_insert_in_info_def elements_insert_out_info_def elements_multiinsert_in_info_def
  elements_multiinsert_out_info_def elements_create_in_info_def elements_create_out_info_def
  elements_describe_in_info_def elements_describe_out_info_def elements_drop_in_info_def
  elements_drop_out_info_def elements_journal_in_info_def elements_journal_out_info_def
  elements_value_in_info_def elements_value_out_info_def elements_gossip_info_def

section \<open>Reading back one field\<close>

lemma read_str_field [ser_simps]:
  "no_nul s \<Longrightarrow> read_str (str_size s) (cstr_bytes s @ rest) = Inr s"
  "no_nul s \<Longrightarrow> read_str (str_size s) (cstr_bytes s) = Inr s"
  by (simp_all add: read_str_def str_size_def read_bytes_def nat_add_distrib)

lemma skip_str_field [ser_simps]:
  "skip (str_size s) (cstr_bytes s @ rest) = rest"
  by (simp add: skip_def str_size_def nat_add_distrib)

lemma skip_int_field [ser_simps]:
  "skip 8 (enc_int 8 x @ rest) = rest" "skip 4 (enc_int 4 x @ rest) = rest"
  "skip 2 (enc_int 2 x @ rest) = rest" "skip 1 (enc_int (Suc 0) x @ rest) = rest"
  by (simp_all add: skip_def)

lemma skip_int_field_end [ser_simps]: "skip 8 (enc_int 8 x) = []"
  by (simp add: skip_def)

lemma read_u16_field [ser_simps]:
  "read_u16 (enc_int 2 (uint k) @ rest) = Inr k" "read_u16 (enc_int 2 (uint k)) = Inr k"
  by (simp_all add: read_u16_def read_bytes_def del: dec_uint_enc_int)

lemma read_sint_field [ser_simps]:
  "fits_long x \<Longrightarrow> read_sint 8 (enc_int 8 x @ rest) = Inr x"
  "fits_long x \<Longrightarrow> read_sint 8 (enc_int 8 x) = Inr x"
  "fits_int x \<Longrightarrow> read_sint 4 (enc_int 4 x @ rest) = Inr x"
  "fits_int x \<Longrightarrow> read_sint 4 (enc_int 4 x) = Inr x"
  by (simp_all add: read_sint_def read_bytes_def)

lemma read_consistency_field [ser_simps]:
  "read_consistency (enc_int (Suc 0) (consistency_code c) @ rest) = Inr c"
proof -
  have "consistency_code c mod 256 = consistency_code c"
    using consistency_code_range [of c] by simp
  then show ?thesis by (simp add: read_consistency_def read_bytes_def)
qed

lemma read_bool_field [ser_simps]:
  "read_bytes (Suc 0) (enc_int (Suc 0) x @ rest) = Inr (enc_int (Suc 0) x)"
  by (simp add: read_bytes_def)

section \<open>Reading back one element of a list\<close>

lemma deserialize_serialize_insert:
  "wf_insert i \<Longrightarrow> deserialize_insert (serialize_insert i @ rest)
     (str_size (ins_table_name i)) 2 (str_size (ins_value i)) 8 = Inr (i, rest)"
  by (simp add: deserialize_insert_def serialize_insert_def wf_insert_def ser_simps)

lemma deserialize_serialize_metadata:
  "wf_metadata m \<Longrightarrow> deserialize_metadata (serialize_metadata m @ rest)
     (str_size (md_table_name m)) 1 4 8 = Inr (m, rest)"
  by (simp add: deserialize_metadata_def serialize_metadata_def wf_metadata_def ser_simps)

lemma deserialize_serialize_memory:
  "wf_memory m \<Longrightarrow> deserialize_memory (serialize_memory m @ rest)
     4 (str_size (mem_ip m)) 4 1 8 = Inr (m, rest)"
  by (simp add: deserialize_memory_def serialize_memory_def wf_memory_def ser_simps)

lemma deserialize_inserts_concat:
  "list_all wf_insert is \<Longrightarrow>
   deserialize_inserts (concat (map serialize_insert is)) (elements_multiinsert_in_info is) = Inr is"
  by (induction "is") (simp_all add: elements_multiinsert_in_info_def deserialize_serialize_insert)

lemma deserialize_metadatas_concat:
  "list_all wf_metadata ms \<Longrightarrow>
   deserialize_metadatas (concat (map serialize_metadata ms)) (elements_describe_out_info ms) = Inr ms"
  by (induction ms) (simp_all add: elements_describe_out_info_def deserialize_serialize_metadata)

lemma deserialize_memories_concat:
  "list_all wf_memory ms \<Longrightarrow>
   deserialize_memories (concat (map serialize_memory ms)) (elements_gossip_info ms) = Inr ms"
  by (induction ms) (simp_all add: elements_gossip_info_def deserialize_serialize_memory)

lemma length_serialize [ser_simps]:
  "int (length (serialize_insert i)) = str_size (ins_table_name i) + 2 + str_size (ins_value i) + 8"
  "int (length (serialize_metadata m)) = str_size (md_table_name m) + 1 + 4 + 8"
  "int (length (serialize_memory mm)) = 4 + str_size (mem_ip mm) + 4 + 1 + 8"
  by (simp_all add: serialize_insert_def serialize_metadata_def serialize_memory_def str_size_def)

lemma length_concat_inserts:
  "int (length (concat (map serialize_insert is))) = sum_list (elements_multiinsert_in_info is)"
  by (induction "is") (simp_all add: elements_multiinsert_in_info_def ser_simps)

lemma length_concat_metadatas:
  "int (length (concat (map serialize_metadata ms))) = sum_list (elements_describe_out_info ms)"
  by (induction ms) (simp_all add: elements_describe_out_info_def ser_simps)

lemma length_concat_memories:
  "int (length (concat (map serialize_memory ms))) = sum_list (elements_gossip_info ms)"
  by (induction ms) (simp_all add: elements_gossip_info_def ser_simps)

section \<open>The contract of a message type\<close>

text \<open>
  What the network layer relies on for an operation: the sizes announced in the header are
  non-negative and add up to the bytes written, so the buffer \<open>build_packet\<close> allocates is filled
  exactly and never overrun, and reading back gives the structure that was sent.
\<close>

locale codec =
  fixes operation :: socket_operation_t
    and content_of :: "'a \<Rightarrow> content"
    and sizes :: "'a \<Rightarrow> int list"
    and wf :: "'a \<Rightarrow> bool"
  assumes serializes: "wf x \<Longrightarrow> \<exists>b. serialize_content operation (content_of x) = Inr b"
    and fills: "wf x \<Longrightarrow> serialize_content operation (content_of x) = Inr b \<Longrightarrow>
      int (length b) = sum_list (sizes x)"
    and sizes_nonneg: "wf x \<Longrightarrow> n \<in> set (sizes x) \<Longrightarrow> 0 \<le> n \<and> fits_int n"
    and total_fits: "wf x \<Longrightarrow> fits_int (sum_list (sizes x))"
    and reads_back: "wf x \<Longrightarrow> serialize_content operation (content_of x) = Inr b \<Longrightarrow>
      deserialize_content b operation (sizes x) = Inr (content_of x)"
begin

lemma reads_back_iff:
  "wf x \<Longrightarrow> wf y \<Longrightarrow> inj content_of \<Longrightarrow>
   serialize_content operation (content_of x) = serialize_content operation (content_of y) \<Longrightarrow>
   sizes x = sizes y \<Longrightarrow> x = y"
  using serializes reads_back by (metis Inr_inject inj_eq)

end

text \<open>
  The length of a content is the sum of its sizes in an \<open>int\<close>. With texts of at most 8 MB, far above any configured size, it
  cannot overflow for a single record, nor for the 31 inserts a journal may have.
\<close>

definition short_name :: "string \<Rightarrow> bool" where
  "short_name s \<longleftrightarrow> str_size s \<le> 2 ^ 23"

lemma fits_int_small [simp]: "fits_int 0" "fits_int 1" "fits_int 2" "fits_int 4" "fits_int 8"
  by (simp_all add: fits_int_def)

lemma short_name_fits [dest]: "short_name s \<Longrightarrow> fits_int (str_size s)"
  by (simp add: short_name_def fits_int_def str_size_def)

lemma fits_int_total [simp]:
  "short_name s \<Longrightarrow> 0 \<le> n \<Longrightarrow> n \<le> 64 \<Longrightarrow> fits_int (str_size s + n)"
  "short_name s \<Longrightarrow> short_name t \<Longrightarrow> 0 \<le> n \<Longrightarrow> n \<le> 64 \<Longrightarrow> fits_int (str_size s + (n + str_size t))"
  by (simp_all add: short_name_def fits_int_def str_size_def)

lemma str_size_pos [simp]: "0 \<le> str_size s"
  by (simp add: str_size_def)

lemma int_length_cstr_bytes [ser_simps]: "int (length (cstr_bytes s)) = str_size s"
  by (simp add: str_size_def)

declare length_cstr_bytes [simp del]

lemmas codec_defs = serialize_content_def deserialize_content_def as_defs wf_message_defs deserialize_int_def

interpretation select_in: codec SELECT_IN Select_Content elements_select_in_info
  "\<lambda>i. wf_select i \<and> short_name (sel_table_name i)"
  by unfold_locales
    (auto simp: codec_defs elements_select_in_info_def deserialize_select_in_def ser_simps)

interpretation select_out: codec SELECT_OUT Record_Content elements_select_out_info
  "\<lambda>r. wf_record r \<and> short_name (rec_table_name r) \<and> short_name (rec_value r)"
  by unfold_locales
    (auto simp: codec_defs elements_select_out_info_def deserialize_select_out_def ser_simps)

interpretation insert_in: codec INSERT_IN Insert_Content elements_insert_in_info
  "\<lambda>i. wf_insert i \<and> short_name (ins_table_name i) \<and> short_name (ins_value i)"
  by unfold_locales
    (auto simp: codec_defs elements_insert_in_info_def deserialize_insert_in_def ser_simps
      deserialize_serialize_insert [of _ "[]", simplified])

lemma multiinsert_sizes:
  "list_all (\<lambda>i. short_name (ins_table_name i) \<and> short_name (ins_value i)) is \<Longrightarrow>
   n \<in> set (elements_multiinsert_in_info is) \<Longrightarrow> 0 \<le> n \<and> fits_int n"
  by (induction "is") (auto simp: elements_multiinsert_in_info_def)

lemma describe_sizes:
  "list_all (\<lambda>m. short_name (md_table_name m)) ms \<Longrightarrow>
   n \<in> set (elements_describe_out_info ms) \<Longrightarrow> 0 \<le> n \<and> fits_int n"
  by (induction ms) (auto simp: elements_describe_out_info_def)

lemma gossip_sizes:
  "list_all (\<lambda>m. short_name (mem_ip m)) ms \<Longrightarrow>
   n \<in> set (elements_gossip_info ms) \<Longrightarrow> 0 \<le> n \<and> fits_int n"
  by (induction ms) (auto simp: elements_gossip_info_def)

definition wf_inserts :: "insert_input_t list \<Rightarrow> bool" where
  "wf_inserts is \<longleftrightarrow>
     list_all wf_insert is \<and> list_all (\<lambda>i. short_name (ins_table_name i) \<and> short_name (ins_value i)) is \<and>
     fits_int (sum_list (elements_multiinsert_in_info is))"

definition wf_metadatas :: "table_metadata_t list \<Rightarrow> bool" where
  "wf_metadatas ms \<longleftrightarrow> list_all wf_metadata ms \<and> list_all (\<lambda>m. short_name (md_table_name m)) ms \<and> fits_int (sum_list (elements_describe_out_info ms))"

definition wf_memories :: "memory_t list \<Rightarrow> bool" where
  "wf_memories ms \<longleftrightarrow> list_all wf_memory ms \<and> list_all (\<lambda>m. short_name (mem_ip m)) ms \<and> fits_int (sum_list (elements_gossip_info ms))"

text \<open>A journal of at most 64 inserts cannot overflow the length of the content.\<close>

lemma inserts_total:
  "list_all (\<lambda>i. short_name (ins_table_name i) \<and> short_name (ins_value i)) is \<Longrightarrow>
   0 \<le> sum_list (elements_multiinsert_in_info is) \<and> sum_list (elements_multiinsert_in_info is) \<le> int (length is) * (2 ^ 24 + 10)"
  by (induction "is") (auto simp: elements_multiinsert_in_info_def short_name_def str_size_def algebra_simps)

lemma wf_inserts_short:
  assumes "list_all wf_insert is" "list_all (\<lambda>i. short_name (ins_table_name i) \<and> short_name (ins_value i)) is" "length is \<le> 64"
  shows "wf_inserts is"
proof -
  have "int (length is) * (2 ^ 24 + 10) \<le> 64 * (2 ^ 24 + 10)" using assms(3) by simp
  then show ?thesis using inserts_total [OF assms(2)] assms(1,2) by (simp add: wf_inserts_def fits_int_def)
qed

interpretation multiinsert_in: codec MULTIINSERT_IN Inserts_Content elements_multiinsert_in_info wf_inserts
  by unfold_locales
    (auto simp: serialize_content_def deserialize_content_def as_inserts_def wf_inserts_def
      deserialize_inserts_concat length_concat_inserts dest: multiinsert_sizes)

interpretation describe_out: codec DESCRIBE_OUT Metadata_Content elements_describe_out_info wf_metadatas
  by unfold_locales
    (auto simp: serialize_content_def deserialize_content_def as_metadata_def wf_metadatas_def
      deserialize_metadatas_concat length_concat_metadatas dest: describe_sizes)

interpretation gossip_in: codec GOSSIP_IN Memories_Content elements_gossip_info wf_memories
  by unfold_locales
    (auto simp: serialize_content_def deserialize_content_def as_memories_def wf_memories_def
      deserialize_memories_concat length_concat_memories dest: gossip_sizes)

interpretation gossip_out: codec GOSSIP_OUT Memories_Content elements_gossip_info wf_memories
  by unfold_locales
    (auto simp: serialize_content_def deserialize_content_def as_memories_def wf_memories_def
      deserialize_memories_concat length_concat_memories dest: gossip_sizes)

interpretation create_in: codec CREATE_IN Create_Content elements_create_in_info
  "\<lambda>i. wf_create i \<and> short_name (cre_table_name i)"
  by unfold_locales
    (auto simp: codec_defs elements_create_in_info_def deserialize_create_in_def ser_simps)

interpretation describe_in: codec DESCRIBE_IN Describe_Content elements_describe_in_info
  "\<lambda>i. wf_describe i \<and> (case des_table_name i of None \<Rightarrow> True | Some t \<Rightarrow> short_name t)"
  by unfold_locales
    (auto simp: codec_defs elements_describe_in_info_def deserialize_describe_in_def ser_simps
      split: option.splits)

interpretation drop_in: codec DROP_IN Drop_Content elements_drop_in_info
  "\<lambda>i. wf_drop i \<and> short_name (drp_table_name i)"
  by unfold_locales
    (auto simp: codec_defs elements_drop_in_info_def deserialize_drop_in_def ser_simps)

text \<open>The status replies are all one \<open>int\<close>.\<close>

interpretation insert_out: codec INSERT_OUT Int_Content "\<lambda>_. elements_insert_out_info" fits_int
  by unfold_locales (auto simp: codec_defs elements_insert_out_info_def ser_simps)

interpretation multiinsert_out: codec MULTIINSERT_OUT Int_Content "\<lambda>_. elements_multiinsert_out_info" fits_int
  by unfold_locales (auto simp: codec_defs elements_multiinsert_out_info_def ser_simps)

interpretation create_out: codec CREATE_OUT Int_Content "\<lambda>_. elements_create_out_info" fits_int
  by unfold_locales (auto simp: codec_defs elements_create_out_info_def ser_simps)

interpretation drop_out: codec DROP_OUT Int_Content "\<lambda>_. elements_drop_out_info" fits_int
  by unfold_locales (auto simp: codec_defs elements_drop_out_info_def ser_simps)

interpretation journal_out: codec JOURNAL_OUT Int_Content "\<lambda>_. elements_journal_out_info" fits_int
  by unfold_locales (auto simp: codec_defs elements_journal_out_info_def ser_simps)

interpretation value_out: codec VALUE_OUT Int_Content "\<lambda>_. elements_value_out_info" fits_int
  by unfold_locales (auto simp: codec_defs elements_value_out_info_def ser_simps)

end
