(* ===== verification/Network.thy ===== *)
theory Network
  imports Serializer
begin

text \<open>
  \<open>lib/utils/network.c\<close> and the request loop of \<open>lib/generic_server.c\<close>: packets on a stream socket.
  A socket is the list of the bytes that arrive before the peer closes it. The operating system
  decides how many of them one \<open>recv\<close> returns: this choice is the parameter \<open>ch\<close> (from the
  bytes left and the number requested), about which \<open>recv_ok\<close> assumes what POSIX says.
\<close>

section \<open>Receiving\<close>

definition recv_ok :: "(bytes \<Rightarrow> nat \<Rightarrow> nat) \<Rightarrow> bool" where
  "recv_ok ch \<longleftrightarrow> (\<forall>s n. s \<noteq> [] \<longrightarrow> 0 < n \<longrightarrow> 1 \<le> ch s n \<and> ch s n \<le> min n (length s))"

definition recv :: "(bytes \<Rightarrow> nat \<Rightarrow> nat) \<Rightarrow> bytes \<Rightarrow> nat \<Rightarrow> nat" where
  \<comment> \<open>0 once the peer has closed the connection\<close>
  "recv ch s n = (if s = [] then 0 else ch s n)"

text \<open>
  \<open>__recv\<close>: the result is what the C function returns, the bytes it put into the buffer and what is
  left on the socket. A failed \<open>recv\<close> makes it return that failure, not the bytes read so far.
\<close>

function recv_loop :: "(bytes \<Rightarrow> nat \<Rightarrow> nat) \<Rightarrow> bytes \<Rightarrow> nat \<Rightarrow> bytes \<Rightarrow> int \<times> bytes \<times> bytes" where
  "recv_loop ch s bytes_to_read buffer =
     (if bytes_to_read > 0 then
        let current_bytes_read = recv ch s bytes_to_read
        in if current_bytes_read \<le> 0 then (int current_bytes_read, buffer, s)
           else recv_loop ch (drop current_bytes_read s) (bytes_to_read - current_bytes_read)
                  (buffer @ take current_bytes_read s)
      else (int (length buffer), buffer, s))"
  by pat_completeness auto
termination
  by (relation "measure (\<lambda>(_, _, n, _). n)") auto

declare recv_loop.simps [simp del]

definition recv_all :: "(bytes \<Rightarrow> nat \<Rightarrow> nat) \<Rightarrow> bytes \<Rightarrow> nat \<Rightarrow> int \<times> bytes \<times> bytes" where
  "recv_all ch s n = recv_loop ch s n []"

fun dec_ints :: "nat \<Rightarrow> bytes \<Rightarrow> int list" where
  "dec_ints 0 b = []"
| "dec_ints (Suc n) b = dec_sint (take 4 b) # dec_ints n (drop 4 b)"

text \<open>
  What \<open>recv2\<close> reads. Process, operation and number of elements are read through a \<open>char*\<close>, so each is the
  value of one signed byte. A negative number of elements turns the sizes of the next
  allocations into huge ones: both \<open>malloc\<close> calls fail and the \<open>memcpy\<close> between them dereferences
  null pointers. The later \<open>__recv\<close> calls are not checked: what is missing is left uninitialised.
  The length of the content is added up in an \<open>int\<close>; when that wraps to a negative number the allocation fails, nothing
  is read and the content is \<open>NULL\<close>, here empty. \<open>None\<close> is a packet that was not touched.
\<close>

definition recv_packet :: "(bytes \<Rightarrow> nat \<Rightarrow> nat) \<Rightarrow> bytes \<Rightarrow> (int \<times> packet_t option \<times> bytes) result" where
  "recv_packet ch s0 =
     (let (n1, buf, s1) = recv_all ch s0 13
      in if n1 \<le> 0 then Inr (n1, None, s1)
      else
        let process = dec_sint [buf ! 0];
            operation = dec_sint [buf ! 4];
            keep_alive = (dec_uint [buf ! 8] \<noteq> 0);
            elements = dec_sint [buf ! 9]
        in if elements < 0 then Inl Null_Pointer
        else
          let (n2, buf2, s2) = recv_all ch s1 (nat elements * 4 + 1)
          in if length buf2 < nat elements * 4 + 1 then Inl Uninitialised
          else
            let elements_size = dec_ints (nat elements) buf2;
                success = (dec_uint [buf2 ! (nat elements * 4)] \<noteq> 0);
                total_content_length = int_cast (sum_list elements_size)
            in
              let (n3, content, s3) =
                    (if elements > 0 then recv_all ch s2 (nat total_content_length) else (0, [], s2))
              in if elements > 0 \<and> length content < nat total_content_length then Inl Uninitialised
              else case (process_of_code process, socket_of_code operation) of
                (Some p, Some op) \<Rightarrow>
                  Inr (n1 + n2 + n3,
                       Some \<lparr>pkt_header = \<lparr>hdr_process = p, hdr_operation = op,
                               hdr_keep_alive = keep_alive, hdr_elements = elements,
                               hdr_elements_size = elements_size, hdr_success = success\<rparr>,
                             pkt_content = content\<rparr>, s3)
              | _ \<Rightarrow> Inl Bad_Enum)"

section \<open>Sending\<close>

definition content_length :: "packet_t \<Rightarrow> int" where
  \<comment> \<open>the sum of the sizes, in an \<open>int\<close>\<close>
  "content_length packet = int_cast (sum_list (take (nat (hdr_elements (pkt_header packet))) (hdr_elements_size (pkt_header packet))))"

definition packet_bytes :: "packet_t \<Rightarrow> bytes" where
  \<comment> \<open>\<open>send_wrapper\<close>: \<open>[process|operation|keep_alive|elements|elements_size|success][content]\<close>\<close>
  "packet_bytes packet =
     (let h = pkt_header packet
      in enc_int 4 (process_code (hdr_process h)) @
         enc_int 4 (socket_code (hdr_operation h)) @
         enc_int 1 (of_bool (hdr_keep_alive h)) @
         enc_int 4 (hdr_elements h) @
         concat (map (enc_int 4) (take (nat (hdr_elements h)) (hdr_elements_size h))) @
         enc_int 1 (of_bool (hdr_success h)) @
         take (nat (content_length packet)) (pkt_content packet))"

definition build_packet ::
  "process_t \<Rightarrow> socket_operation_t \<Rightarrow> bool \<Rightarrow> int list \<Rightarrow> content \<Rightarrow> bool \<Rightarrow> packet_t result" where
  \<comment> \<open>without a positive length there is no buffer to serialize into\<close>
  "build_packet process operation keep_alive elements_size content success =
     rbind (serialize_content operation content) (\<lambda>bytes.
     let length_of_content = int_cast (sum_list elements_size)
     in if bytes \<noteq> [] \<and> length_of_content \<le> 0 then Inl Null_Pointer
     else if bytes \<noteq> [] \<and> int (length bytes) > length_of_content then Inl Out_Of_Bounds
     else Inr \<lparr>pkt_header = \<lparr>hdr_process = process, hdr_operation = operation,
                 hdr_keep_alive = keep_alive, hdr_elements = int (length elements_size),
                 hdr_elements_size = elements_size, hdr_success = success\<rparr>,
               pkt_content = bytes\<rparr>)"

text \<open>
  A packet structure in the memory of a process. \<open>free_packet_content\<close> gives the array of sizes and the content to \<open>free\<close> and sets
  only the pointer to the content to \<open>NULL\<close>: the pointer to the array stays, and \<open>pm_released\<close> says that it dangles. Releasing it again, or
  reading it, is an error. \<open>send2\<close> releases the packet it has sent; \<open>recv2\<close> stores a new array, unless nothing arrives.
\<close>

record packet_mem =
  pm_packet :: packet_t
  pm_released :: bool

definition new_packet :: "packet_t \<Rightarrow> packet_mem" where
  "new_packet packet = \<lparr>pm_packet = packet, pm_released = False\<rparr>"

definition free_packet_content :: "packet_mem \<Rightarrow> packet_mem result" where
  "free_packet_content m =
     (if hdr_elements (pkt_header (pm_packet m)) > 0 then
        if pm_released m then Inl Freed
        else Inr \<lparr>pm_packet = (pm_packet m)\<lparr>pkt_content := []\<rparr>, pm_released = True\<rparr>
      else Inr m)"

definition send2 :: "packet_mem \<Rightarrow> (bytes \<times> packet_mem) result" where
  \<comment> \<open>a content shorter than its length would be sent with bytes that were never set\<close>
  "send2 m =
     (if hdr_elements (pkt_header (pm_packet m)) > 0 \<and> pm_released m then Inl Freed
      else if content_length (pm_packet m) < 0 then Inl Out_Of_Bounds
      else if int (length (pkt_content (pm_packet m))) < content_length (pm_packet m) then Inl Uninitialised
      else rbind (free_packet_content m) (\<lambda>m1. Inr (packet_bytes (pm_packet m), m1)))"

definition recv2 :: "(bytes \<Rightarrow> nat \<Rightarrow> nat) \<Rightarrow> packet_mem \<Rightarrow> bytes \<Rightarrow> (int \<times> packet_mem \<times> bytes) result" where
  \<comment> \<open>without elements the content of the structure stays\<close>
  "recv2 ch m s =
     rbind (recv_packet ch s) (\<lambda>(bytes_read, received, rest).
     Inr (bytes_read,
          case received of
            None \<Rightarrow> m
          | Some q \<Rightarrow> new_packet (if hdr_elements (pkt_header q) > 0 then q else q\<lparr>pkt_content := pkt_content (pm_packet m)\<rparr>),
          rest))"

section \<open>The receive loop reads exactly what was asked for\<close>

lemma recv_loop_enough:
  assumes "recv_ok ch"
  shows "n \<le> length s \<Longrightarrow>
    recv_loop ch s n b = (int (length b + n), b @ take n s, drop n s)"
proof (induction n arbitrary: s b rule: less_induct)
  case (less n)
  show ?case
  proof (cases "n = 0")
    case True
    then show ?thesis by (simp add: recv_loop.simps)
  next
    case False
    with less.prems have "s \<noteq> []" by auto
    define k where "k = ch s n"
    have k: "0 < k" "k \<le> n" "k \<le> length s" "recv ch s n = k"
      using assms \<open>s \<noteq> []\<close> False by (auto simp: recv_ok_def recv_def k_def Suc_le_eq)
    have "recv_loop ch (drop k s) (n - k) (b @ take k s)
        = (int (length b + n), b @ take n s, drop n s)"
      using less.IH [of "n - k" "drop k s" "b @ take k s"] k less.prems
      by (simp add: add_diff_inverse_nat take_add [of k "n - k" s, symmetric])
    with k False show ?thesis
      by (simp add: recv_loop.simps [of ch s n b])
  qed
qed

lemma recv_all_enough:
  "recv_ok ch \<Longrightarrow> n \<le> length s \<Longrightarrow> recv_all ch s n = (int n, take n s, drop n s)"
  by (simp add: recv_all_def recv_loop_enough)

text \<open>When the peer closes first, the loop still ends, with what had arrived and a return of 0.\<close>

lemma recv_loop_closed:
  assumes "recv_ok ch"
  shows "length s < n \<Longrightarrow> recv_loop ch s n b = (0, b @ s, [])"
proof (induction n arbitrary: s b rule: less_induct)
  case (less n)
  show ?case
  proof (cases "s = []")
    case True
    with less.prems show ?thesis by (simp add: recv_loop.simps recv_def)
  next
    case False
    define k where "k = ch s n"
    have k: "0 < k" "k \<le> n" "k \<le> length s" "recv ch s n = k"
      using assms False less.prems by (auto simp: recv_ok_def recv_def k_def Suc_le_eq)
    have "recv_loop ch (drop k s) (n - k) (b @ take k s) = (0, b @ s, [])"
      using less.IH [of "n - k" "drop k s" "b @ take k s"] k less.prems by simp
    with k less.prems show ?thesis
      by (simp add: recv_loop.simps [of ch s n b])
  qed
qed

lemma recv_all_closed: "recv_ok ch \<Longrightarrow> length s < n \<Longrightarrow> recv_all ch s n = (0, s, [])"
  by (simp add: recv_all_def recv_loop_closed)

section \<open>Packets\<close>

lemma dec_ints_concat:
  "list_all fits_int ns \<Longrightarrow> dec_ints (length ns) (concat (map (enc_int 4) ns) @ rest) = ns"
  by (induction ns) simp_all

lemma length_concat_enc [simp]: "length (concat (map (enc_int 4) ns)) = 4 * length ns"
  by (induction ns) simp_all

definition wf_packet :: "packet_t \<Rightarrow> bool" where
  \<comment> \<open>what \<open>build_packet\<close> makes\<close>
  "wf_packet p \<longleftrightarrow>
     hdr_elements (pkt_header p) = int (length (hdr_elements_size (pkt_header p))) \<and>
     list_all (\<lambda>n. 0 \<le> n \<and> fits_int n) (hdr_elements_size (pkt_header p)) \<and>
     fits_int (sum_list (hdr_elements_size (pkt_header p))) \<and>
     int (length (pkt_content p)) = sum_list (hdr_elements_size (pkt_header p))"

definition packet_header_bytes :: "packet_t \<Rightarrow> bytes" where
  "packet_header_bytes p =
     enc_int 4 (process_code (hdr_process (pkt_header p))) @
     enc_int 4 (socket_code (hdr_operation (pkt_header p))) @
     enc_int 1 (of_bool (hdr_keep_alive (pkt_header p))) @
     enc_int 4 (hdr_elements (pkt_header p))"

definition packet_sizes_bytes :: "packet_t \<Rightarrow> bytes" where
  "packet_sizes_bytes p =
     concat (map (enc_int 4) (hdr_elements_size (pkt_header p))) @
     enc_int 1 (of_bool (hdr_success (pkt_header p)))"

lemma content_length_wf: "wf_packet p \<Longrightarrow> content_length p = int (length (pkt_content p))"
  by (simp add: content_length_def wf_packet_def int_cast_fits)

lemma packet_bytes_parts:
  "wf_packet p \<Longrightarrow> packet_bytes p = packet_header_bytes p @ packet_sizes_bytes p @ pkt_content p"
  using content_length_wf [of p]
  by (simp add: packet_bytes_def wf_packet_def packet_header_bytes_def packet_sizes_bytes_def Let_def) arith

text \<open>A packet that was built is sent once; after that its array of sizes is released, if it has elements.\<close>

lemma send2_new:
  "wf_packet p \<Longrightarrow> send2 (new_packet p) = Inr (packet_bytes p,
     if hdr_elements (pkt_header p) > 0 then \<lparr>pm_packet = p\<lparr>pkt_content := []\<rparr>, pm_released = True\<rparr> else new_packet p)"
  by (simp add: send2_def new_packet_def content_length_wf free_packet_content_def)

lemma free_new [simp]: "\<exists>m. free_packet_content (new_packet p) = Inr m"
  by (simp add: free_packet_content_def new_packet_def)

lemma length_packet_parts [simp]:
  "length (packet_header_bytes p) = 13"
  "length (packet_sizes_bytes p) = length (hdr_elements_size (pkt_header p)) * 4 + 1"
  by (simp_all add: packet_header_bytes_def packet_sizes_bytes_def)

text \<open>The first byte of a 4-byte integer, read as a signed \<open>char\<close>.\<close>

definition char_cast :: "int \<Rightarrow> int" where
  "char_cast x = signed_take_bit 7 x"

lemma dec_sint_first_byte: "dec_sint [enc_int 4 x ! 0] = char_cast x"
proof -
  define u where "u = x mod 256"
  have "nat (x mod 256 ^ 4) mod 256 = nat u"
  proof -
    have "nat (x mod 256 ^ 4) mod 256 = nat ((x mod 256 ^ 4) mod 256)"
      by (simp add: nat_mod_distrib)
    also have "(x mod 256 ^ 4) mod 256 = u"
      unfolding u_def by (rule mod_mod_cancel) simp
    finally show ?thesis .
  qed
  moreover have "enc_int 4 x ! 0 = char_of (nat (x mod 256 ^ 4) mod 256)"
  proof -
    have "(4 :: nat) = Suc 3" by simp
    then show ?thesis by (simp only: enc_int_def le_bytes.simps nth_Cons_0)
  qed
  ultimately have "enc_int 4 x ! 0 = char_of (nat u)" by simp
  moreover have "nat u < 256" "0 \<le> u" by (simp_all add: u_def)
  ultimately have l: "dec_sint [enc_int 4 x ! 0] = (if u < 128 then u else u - 256)"
    by (simp add: dec_sint_def Let_def)
  have "char_cast x = (x + 128) mod 256 - 128"
    by (simp add: char_cast_def signed_take_bit_eq_take_bit_shift take_bit_eq_mod)
  also have "(x + 128) mod 256 = (u + 128) mod 256"
    by (simp add: u_def mod_add_left_eq)
  also have "\<dots> = (if u < 128 then u + 128 else u - 128)"
  proof (cases "u < 128")
    case False
    have "(u + 128) mod 256 = (u - 128) mod 256"
      using mod_add_self2 [of "u - 128" 256] by (simp add: add.commute)
    with False \<open>nat u < 256\<close> show ?thesis by simp
  qed (use \<open>0 \<le> u\<close> in simp)
  finally show ?thesis using l by simp
qed

lemma char_cast_small: "- 128 \<le> x \<Longrightarrow> x < 128 \<Longrightarrow> char_cast x = x"
  by (simp add: char_cast_def signed_take_bit_int_eq_self)

lemma header_fields:
  "packet_header_bytes p ! 0 = enc_int 4 (process_code (hdr_process (pkt_header p))) ! 0"
  "packet_header_bytes p ! 4 = enc_int 4 (socket_code (hdr_operation (pkt_header p))) ! 0"
  "packet_header_bytes p ! 8 = enc_int 1 (of_bool (hdr_keep_alive (pkt_header p))) ! 0"
  "packet_header_bytes p ! 9 = enc_int 4 (hdr_elements (pkt_header p)) ! 0"
  by (simp_all add: packet_header_bytes_def nth_append)

lemma dec_bool_byte: "dec_uint [enc_int (Suc 0) (of_bool b) ! 0] \<noteq> 0 \<longleftrightarrow> b"
  by (cases b) (simp_all add: enc_int_def dec_uint_def)

lemma header_enums:
  "process_of_code (dec_sint [packet_header_bytes p ! 0]) = Some (hdr_process (pkt_header p))"
  "socket_of_code (dec_sint [packet_header_bytes p ! 4]) = Some (hdr_operation (pkt_header p))"
  using process_code_range [of "hdr_process (pkt_header p)"] socket_code_range [of "hdr_operation (pkt_header p)"]
  by (simp_all add: header_fields dec_sint_first_byte char_cast_small)

text \<open>
  What the receiver makes of the first 13 bytes of a packet: everything is right but the number of
  elements, which is cut to one signed byte.
\<close>

lemma recv_packet_header:
  assumes "recv_ok ch"
  shows "recv_packet ch (packet_header_bytes p @ t) =
    (let e = char_cast (hdr_elements (pkt_header p))
     in if e < 0 then Inl Null_Pointer
     else
       let (n2, buf2, s2) = recv_all ch t (nat e * 4 + 1)
       in if length buf2 < nat e * 4 + 1 then Inl Uninitialised
       else
         let ns = dec_ints (nat e) buf2
         in
           let (n3, content, s3) = (if e > 0 then recv_all ch s2 (nat (int_cast (sum_list ns))) else (0, [], s2))
           in if e > 0 \<and> length content < nat (int_cast (sum_list ns)) then Inl Uninitialised
           else Inr (13 + n2 + n3,
             Some \<lparr>pkt_header = \<lparr>hdr_process = hdr_process (pkt_header p),
                     hdr_operation = hdr_operation (pkt_header p),
                     hdr_keep_alive = hdr_keep_alive (pkt_header p), hdr_elements = e,
                     hdr_elements_size = ns, hdr_success = (dec_uint [buf2 ! (nat e * 4)] \<noteq> 0)\<rparr>,
                   pkt_content = content\<rparr>, s3))"
proof -
  have r: "recv_all ch (packet_header_bytes p @ t) 13 = (13, packet_header_bytes p, t)"
    using recv_all_enough [OF assms, of 13 "packet_header_bytes p @ t"] by simp
  have k: "(dec_uint [packet_header_bytes p ! 8] \<noteq> 0) = hdr_keep_alive (pkt_header p)"
    unfolding header_fields One_nat_def by (rule dec_bool_byte)
  have e: "dec_sint [packet_header_bytes p ! 9] = char_cast (hdr_elements (pkt_header p))"
    by (simp add: header_fields dec_sint_first_byte)
  show ?thesis
    unfolding recv_packet_def r Let_def split_conv header_enums k e
    by (simp add: split_def)
qed

lemma sizes_fields:
  assumes "list_all (\<lambda>n. 0 \<le> n \<and> fits_int n) (hdr_elements_size (pkt_header p))"
  shows "dec_ints (length (hdr_elements_size (pkt_header p))) (packet_sizes_bytes p)
      = hdr_elements_size (pkt_header p)"
    and "(dec_uint [packet_sizes_bytes p ! (length (hdr_elements_size (pkt_header p)) * 4)] \<noteq> 0)
      = hdr_success (pkt_header p)"
proof -
  have "list_all fits_int (hdr_elements_size (pkt_header p))"
    using assms by (auto simp: list_all_iff)
  then show "dec_ints (length (hdr_elements_size (pkt_header p))) (packet_sizes_bytes p)
      = hdr_elements_size (pkt_header p)"
    by (simp add: packet_sizes_bytes_def dec_ints_concat)
  show "(dec_uint [packet_sizes_bytes p ! (length (hdr_elements_size (pkt_header p)) * 4)] \<noteq> 0)
      = hdr_success (pkt_header p)"
    using dec_bool_byte [of "hdr_success (pkt_header p)"]
    by (simp add: packet_sizes_bytes_def nth_append mult.commute)
qed

lemma recv_packet_bytes:
  assumes "recv_ok ch" "wf_packet p" "hdr_elements (pkt_header p) \<le> 127"
  shows "recv_packet ch (packet_bytes p @ rest) = Inr (int (length (packet_bytes p)), Some p, rest)"
proof -
  let ?ns = "hdr_elements_size (pkt_header p)"
  have wf: "hdr_elements (pkt_header p) = int (length ?ns)"
    "list_all (\<lambda>n. 0 \<le> n \<and> fits_int n) ?ns" "int (length (pkt_content p)) = sum_list ?ns" "int_cast (sum_list ?ns) = sum_list ?ns"
    using assms(2) by (auto simp: wf_packet_def int_cast_fits)
  have e: "char_cast (hdr_elements (pkt_header p)) = int (length ?ns)"
    using assms(3) wf(1) by (simp add: char_cast_small)
  have s: "packet_bytes p @ rest = packet_header_bytes p @ packet_sizes_bytes p @ pkt_content p @ rest"
    using packet_bytes_parts [OF assms(2)] by simp
  have r2: "recv_all ch (packet_sizes_bytes p @ pkt_content p @ rest) (length ?ns * 4 + 1)
     = (int (length ?ns * 4 + 1), packet_sizes_bytes p, pkt_content p @ rest)"
    using recv_all_enough [OF assms(1), of "length ?ns * 4 + 1" "packet_sizes_bytes p @ pkt_content p @ rest"]
    by simp
  have r3: "recv_all ch (pkt_content p @ rest) (length (pkt_content p))
     = (int (length (pkt_content p)), pkt_content p, rest)"
    using recv_all_enough [OF assms(1), of "length (pkt_content p)" "pkt_content p @ rest"] by simp
  have n: "nat (sum_list ?ns) = length (pkt_content p)" using wf(3) by simp
  have empty: "?ns = [] \<Longrightarrow> pkt_content p = []" using wf(3) by simp
  have "int (length (packet_bytes p)) = 13 + int (length ?ns * 4 + 1) + int (length (pkt_content p))"
    using packet_bytes_parts [OF assms(2)] by simp
  moreover have "p = \<lparr>pkt_header = \<lparr>hdr_process = hdr_process (pkt_header p),
                     hdr_operation = hdr_operation (pkt_header p),
                     hdr_keep_alive = hdr_keep_alive (pkt_header p), hdr_elements = int (length ?ns),
                     hdr_elements_size = ?ns, hdr_success = hdr_success (pkt_header p)\<rparr>,
                   pkt_content = pkt_content p\<rparr>"
    using wf(1) by simp
  ultimately show ?thesis
    unfolding s recv_packet_header [OF assms(1)] e nat_int r2 Let_def split_conv
    using empty sizes_fields [OF wf(2)] by (cases "?ns = []") (simp_all add: n r3 wf(4))
qed

section \<open>A message through the network\<close>

text \<open>
  Sender and receiver of one message: the packet is built and sent, received, and its content is
  deserialized with the operation and sizes of the header that arrived.
\<close>

definition transmit ::
  "(bytes \<Rightarrow> nat \<Rightarrow> nat) \<Rightarrow> process_t \<Rightarrow> socket_operation_t \<Rightarrow> int list \<Rightarrow> content \<Rightarrow> content result" where
  "transmit ch process operation elements_size content =
     rbind (build_packet process operation False elements_size content True) (\<lambda>packet.
     rbind (send2 (new_packet packet)) (\<lambda>(sent, _).
     rbind (recv_packet ch sent) (\<lambda>(n, received, _).
     case received of
       None \<Rightarrow> Inr Null_Content
     | Some q \<Rightarrow> deserialize_content (pkt_content q) (hdr_operation (pkt_header q))
                  (hdr_elements_size (pkt_header q)))))"

context codec
begin

lemma build_packet_wf:
  assumes "wf x"
  obtains p where "build_packet proc operation keep (sizes x) (content_of x) succ = Inr p"
    "wf_packet p" "hdr_elements_size (pkt_header p) = sizes x" "hdr_operation (pkt_header p) = operation"
    "hdr_elements (pkt_header p) = int (length (sizes x))"
    "hdr_process (pkt_header p) = proc" "hdr_keep_alive (pkt_header p) = keep"
    "serialize_content operation (content_of x) = Inr (pkt_content p)"
proof -
  obtain b where b: "serialize_content operation (content_of x) = Inr b"
    using serializes [OF assms] by blast
  have len: "int (length b) = sum_list (sizes x)" by (rule fills [OF assms b])
  have ns: "list_all (\<lambda>n. 0 \<le> n \<and> fits_int n) (sizes x)"
    using sizes_nonneg [OF assms] by (simp add: list_all_iff)
  have "build_packet proc operation keep (sizes x) (content_of x) succ =
      Inr \<lparr>pkt_header = \<lparr>hdr_process = proc, hdr_operation = operation, hdr_keep_alive = keep,
             hdr_elements = int (length (sizes x)), hdr_elements_size = sizes x, hdr_success = succ\<rparr>,
           pkt_content = b\<rparr>"
    using b len int_cast_fits [OF total_fits [OF assms]] by (cases b) (simp_all add: build_packet_def)
  then show thesis
    by (rule that) (simp_all add: wf_packet_def ns len b total_fits [OF assms])
qed

text \<open>Up to 127 elements, what is received is what was sent, however \<open>recv\<close> cuts the stream.\<close>

lemma transmit_ok:
  assumes "recv_ok ch" "wf x" "length (sizes x) \<le> 127"
  shows "transmit ch proc operation (sizes x) (content_of x) = Inr (content_of x)"
proof -
  obtain p where p: "build_packet proc operation False (sizes x) (content_of x) True = Inr p"
    "wf_packet p" "hdr_elements_size (pkt_header p) = sizes x" "hdr_operation (pkt_header p) = operation"
    "hdr_elements (pkt_header p) = int (length (sizes x))"
    "serialize_content operation (content_of x) = Inr (pkt_content p)"
    using build_packet_wf [OF assms(2)] by metis
  have "recv_packet ch (packet_bytes p) = Inr (int (length (packet_bytes p)), Some p, [])"
    using recv_packet_bytes [OF assms(1) p(2), of "[]"] p(5) assms(3) by simp
  with p reads_back [OF assms(2) p(6)] show ?thesis
    by (simp add: transmit_def send2_new)
qed

text \<open>From 128 to 255 elements the receiving process dereferences a null pointer.\<close>

lemma transmit_crash:
  assumes "recv_ok ch" "wf x" "128 \<le> length (sizes x)" "length (sizes x) < 256"
  shows "transmit ch proc operation (sizes x) (content_of x) = Inl Null_Pointer"
proof -
  obtain p where p: "build_packet proc operation False (sizes x) (content_of x) True = Inr p"
    "wf_packet p" "hdr_elements (pkt_header p) = int (length (sizes x))"
    using build_packet_wf [OF assms(2)] by metis
  define e where "e = int (length (sizes x))"
  have e: "128 \<le> e" "e < 256" using assms(3,4) by (simp_all add: e_def)
  have "char_cast e = (e + 128) mod 256 - 128"
    by (simp add: char_cast_def signed_take_bit_eq_take_bit_shift take_bit_eq_mod)
  also have "(e + 128) mod 256 = (e - 128) mod 256"
    using mod_add_self2 [of "e - 128" 256] by (simp add: add.commute)
  also have "\<dots> = e - 128" using e by simp
  finally have "char_cast (hdr_elements (pkt_header p)) < 0"
    using e p(3) by (simp add: e_def)
  then have "recv_packet ch (packet_bytes p) = Inl Null_Pointer"
    using recv_packet_header [OF assms(1), of p] packet_bytes_parts [OF p(2)] by (simp add: Let_def)
  with p(1,2) show ?thesis by (simp add: transmit_def send2_new)
qed

text \<open>With exactly 256 elements the receiver sees a message without elements.\<close>

lemma transmit_256:
  assumes "recv_ok ch" "wf x" "length (sizes x) = 256"
  shows "transmit ch proc operation (sizes x) (content_of x) = deserialize_content [] operation []"
proof -
  obtain p where p: "build_packet proc operation False (sizes x) (content_of x) True = Inr p"
    "wf_packet p" "hdr_operation (pkt_header p) = operation" "hdr_elements (pkt_header p) = 256"
    "hdr_elements_size (pkt_header p) = sizes x"
    using build_packet_wf [OF assms(2)] assms(3) by (metis of_nat_numeral)
  have z: "char_cast 256 = 0"
    by (simp add: char_cast_def signed_take_bit_eq_take_bit_shift take_bit_eq_mod)
  have "recv_all ch (packet_sizes_bytes p @ pkt_content p) (Suc 0)
      = (1, take 1 (packet_sizes_bytes p), drop 1 (packet_sizes_bytes p) @ pkt_content p)"
    using recv_all_enough [OF assms(1), of 1 "packet_sizes_bytes p @ pkt_content p"] by simp
  moreover have "packet_sizes_bytes p \<noteq> []"
    by (simp add: packet_sizes_bytes_def enc_int_def)
  ultimately show ?thesis
    using recv_packet_header [OF assms(1), of p] packet_bytes_parts [OF p(2)] p
    by (simp add: transmit_def send2_new Let_def z)
qed

end

section \<open>The request loop of a server\<close>

definition valid_source :: "process_t \<Rightarrow> process_t \<Rightarrow> bool" where
  "valid_source me client =
     (if me = KERNEL then False
      else if me = MEMORY then client = KERNEL \<or> client = MEMORY
      else if me = FILESYSTEM then client = MEMORY
      else False)"

definition reply_operation :: "socket_operation_t \<Rightarrow> socket_operation_t option" where
  \<comment> \<open>\<open>packet->header.operation + 1\<close>\<close>
  "reply_operation op = socket_of_code (socket_code op + 1)"

text \<open>
  \<open>g_server_callbacks\<close>: a slot no process fills is a null pointer. A callback gets the payload and
  the state of its process and leaves the result in the response.
\<close>

type_synonym 's callbacks = "socket_operation_t \<Rightarrow> (content \<Rightarrow> 's \<Rightarrow> (content \<times> 's) result) option"

definition handshake_reply :: "process_t \<Rightarrow> packet_t" where
  "handshake_reply me =
     \<lparr>pkt_header = \<lparr>hdr_process = me, hdr_operation = HANDSHAKE_OUT, hdr_keep_alive = True,
        hdr_elements = 0, hdr_elements_size = [], hdr_success = True\<rparr>, pkt_content = []\<rparr>"

definition serve :: "process_t \<Rightarrow> 's callbacks \<Rightarrow> packet_t \<Rightarrow> 's \<Rightarrow> (packet_t \<times> 's) result" where
  \<comment> \<open>the branch of \<open>handle_request\<close> for anything that is not a handshake\<close>
  "serve me g_server_callbacks packet s =
     rbind (deserialize_content (pkt_content packet) (hdr_operation (pkt_header packet))
              (hdr_elements_size (pkt_header packet))) (\<lambda>payload.
     case g_server_callbacks (hdr_operation (pkt_header packet)) of
       None \<Rightarrow> Inl Null_Pointer
     | Some callback \<Rightarrow>
         rbind (callback payload s) (\<lambda>(result, s').
         case reply_operation (hdr_operation (pkt_header packet)) of
           None \<Rightarrow> Inl Bad_Enum
         | Some out \<Rightarrow>
             rbind (get_out_element_info out result) (\<lambda>elements_size.
             rbind (build_packet me out False elements_size result True) (\<lambda>reply.
             rbind (send2 (new_packet reply)) (\<lambda>_.
             Inr (reply, s'))))))"

text \<open>
  The loop, over the packets that arrive before the peer closes the connection. \<open>recv2\<close> does not
  touch the packet when nothing arrives, and the loop looks at its return value only at its head:
  on a closed connection the body runs once more, on the packet of the round before (\<open>None\<close> when
  there was none and the structure is uninitialised).
\<close>

definition handle_packet ::
  "process_t \<Rightarrow> 's callbacks \<Rightarrow> packet_t \<Rightarrow> 's \<Rightarrow> (packet_t option \<times> 's) result" where
  \<comment> \<open>\<open>None\<close>: the source is not valid and the loop is left\<close>
  "handle_packet me cb packet s =
     (if \<not> valid_source me (hdr_process (pkt_header packet)) then Inr (None, s)
      else if hdr_operation (pkt_header packet) = HANDSHAKE_IN then Inr (Some (handshake_reply me), s)
      else rbind (serve me cb packet s) (\<lambda>(reply, s'). Inr (Some reply, s')))"

fun handle_request ::
  "process_t \<Rightarrow> 's callbacks \<Rightarrow> packet_t option \<Rightarrow> packet_t list \<Rightarrow> 's \<Rightarrow> (packet_t list \<times> 's) result" where
  "handle_request me cb stale [] s =
     (case stale of
        None \<Rightarrow> Inl Uninitialised
      | Some packet \<Rightarrow>
          rbind (handle_packet me cb packet s) (\<lambda>(reply, s').
          Inr (case reply of None \<Rightarrow> [] | Some r \<Rightarrow> [r], s')))"
| "handle_request me cb stale (packet # packets) s =
     rbind (handle_packet me cb packet s) (\<lambda>(reply, s').
     case reply of
       None \<Rightarrow> Inr ([], s')
     | Some r \<Rightarrow>
         if hdr_keep_alive (pkt_header r)
         then rbind (handle_request me cb (Some r) packets s') (\<lambda>(rs, s''). Inr (r # rs, s''))
         else Inr ([r], s'))"

lemma handle_request_rejects:
  assumes "\<not> valid_source me (hdr_process (pkt_header p))"
  shows "handle_request me cb stale (p # ps) s = Inr ([], s)"
  using assms by (simp add: handle_packet_def)

text \<open>
  A handshake and one request: two replies, and the state is the one the callback leaves; what the
  client sends after that is not read.
\<close>

lemma build_packet_keep_alive:
  "build_packet p op k ls c t = Inr q \<Longrightarrow> hdr_keep_alive (pkt_header q) = k"
  by (auto simp: build_packet_def rbind_Inr_iff Let_def split: if_splits)

lemma serve_keep_alive: "serve me cb p s = Inr (r, s') \<Longrightarrow> \<not> hdr_keep_alive (pkt_header r)"
  by (auto simp: serve_def rbind_Inr_iff split: option.splits dest: build_packet_keep_alive)

lemma handle_request_handshake:
  assumes "valid_source me client" "hdr_process (pkt_header h) = client"
    "hdr_operation (pkt_header h) = HANDSHAKE_IN"
    "hdr_process (pkt_header q) = client" "hdr_operation (pkt_header q) \<noteq> HANDSHAKE_IN"
    "serve me cb q s = Inr (r, s')"
  shows "handle_request me cb stale (h # q # later) s = Inr ([handshake_reply me, r], s')"
  using assms serve_keep_alive [OF assms(6)]
  by (simp add: handle_packet_def handshake_reply_def)

text \<open>
  A peer that closes after the handshake: a memory takes its own reply for a request from a memory
  and calls the empty slot of \<open>HANDSHAKE_OUT\<close>; a file system rejects it.
\<close>

lemma handshake_then_close:
  assumes "cb HANDSHAKE_OUT = None" "hdr_operation (pkt_header h) = HANDSHAKE_IN"
  shows "valid_source MEMORY (hdr_process (pkt_header h)) \<Longrightarrow>
      handle_request MEMORY cb stale [h] s = Inl Null_Pointer"
    and "valid_source FILESYSTEM (hdr_process (pkt_header h)) \<Longrightarrow>
      handle_request FILESYSTEM cb stale [h] s = Inr ([handshake_reply FILESYSTEM], s)"
  using assms
  by (simp_all add: handle_packet_def handshake_reply_def serve_def deserialize_content_def
      valid_source_def)

end
