(* ===== verification/Client.thy ===== *)
theory Client
  imports Network
begin

text \<open>
  \<open>lib/generic_client.c\<close>: a request is a connection of its own, with a handshake, one packet and one answer. What the
  client sees of the operating system is whether there is a socket, whether the address is one and whether the peer takes
  the connection (\<open>os_api\<close>); what arrives on the connection before the peer closes it is the list of bytes \<open>arriving\<close>. Every function
  returns the bytes it has sent with its result. The client is then put together with the server of \<open>Network\<close>.
\<close>

section \<open>The client\<close>

record os_api =
  os_socket :: int
  os_inet_pton :: "string \<Rightarrow> int"
  os_connect :: "string \<Rightarrow> int \<Rightarrow> int"

definition setup_connection ::
  "(bytes \<Rightarrow> nat \<Rightarrow> nat) \<Rightarrow> os_api \<Rightarrow> process_t \<Rightarrow> string \<Rightarrow> int \<Rightarrow> bytes \<Rightarrow> (int \<times> bytes \<times> bytes) result" where
  \<comment> \<open>the socket or the error, what was sent and what is left to be read\<close>
  "setup_connection ch os process ip port arriving =
     (if os_socket os < 0 then Inr (-1, [], arriving)
      else if os_inet_pton os ip \<le> 0 then Inr (-2, [], arriving)
      else if os_connect os ip port < 0 then Inr (-3, [], arriving)
      else rbind (build_packet process HANDSHAKE_IN True [] Null_Content True) (\<lambda>packet.
        rbind (send2 (new_packet packet)) (\<lambda>(sent, packet1).
        rbind (recv2 ch packet1 arriving) (\<lambda>(_, packet2, rest).
        rbind (free_packet_content packet2) (\<lambda>_.
        Inr (if hdr_operation (pkt_header (pm_packet packet2)) \<noteq> HANDSHAKE_OUT then -4 else os_socket os, sent, rest))))))"

record request_t =
  rq_process :: process_t
  rq_ip :: string
  rq_port :: int
  rq_operation :: socket_operation_t
  rq_content :: content
  rq_elements_length :: "int list"
  rq_success :: bool

text \<open>
  \<open>do_request\<close>: what it sends, what it calls the callback with (\<open>None\<close> is \<open>NULL\<close>), and how it ends after that, which is how
  the release of the packet ends: the packet that was sent, or the one that arrived in its place.
\<close>

definition do_request ::
  "(bytes \<Rightarrow> nat \<Rightarrow> nat) \<Rightarrow> os_api \<Rightarrow> request_t \<Rightarrow> bytes \<Rightarrow> (bytes \<times> content option \<times> unit result) result" where
  "do_request ch os args arriving =
     rbind (setup_connection ch os (rq_process args) (rq_ip args) (rq_port args) arriving) (\<lambda>(socket, sent, rest).
     if socket < 0 then Inr (sent, None, Inr ())
     else rbind (build_packet (rq_process args) (rq_operation args) False (rq_elements_length args) (rq_content args) (rq_success args)) (\<lambda>packet.
       rbind (send2 (new_packet packet)) (\<lambda>(sent1, packet1).
       rbind (recv2 ch packet1 rest) (\<lambda>(bytes_read, packet2, _).
       let p = pm_packet packet2
       in rbind (if bytes_read \<le> 0 then Inr None
            else rbind (deserialize_content (pkt_content p) (hdr_operation (pkt_header p)) (hdr_elements_size (pkt_header p)))
                   (\<lambda>deserialized_content. Inr (Some deserialized_content))) (\<lambda>answer.
          Inr (sent @ sent1, answer, rbind (free_packet_content packet2) (\<lambda>_. Inr ())))))))"

section \<open>The handshake\<close>

definition handshake_request :: "process_t \<Rightarrow> packet_t" where
  "handshake_request p =
     \<lparr>pkt_header = \<lparr>hdr_process = p, hdr_operation = HANDSHAKE_IN, hdr_keep_alive = True,
        hdr_elements = 0, hdr_elements_size = [], hdr_success = True\<rparr>, pkt_content = []\<rparr>"

definition connects :: "os_api \<Rightarrow> string \<Rightarrow> int \<Rightarrow> bool" where
  "connects os ip port \<longleftrightarrow> 0 \<le> os_socket os \<and> 0 < os_inet_pton os ip \<and> 0 \<le> os_connect os ip port"

lemma build_handshake: "build_packet p HANDSHAKE_IN True [] Null_Content True = Inr (handshake_request p)"
  by (simp add: build_packet_def serialize_content_def handshake_request_def)

lemma wf_handshake [simp]: "wf_packet (handshake_request p)" "wf_packet (handshake_reply p)"
  by (simp_all add: wf_packet_def handshake_request_def handshake_reply_def)

lemma handshake_fields [simp]:
  "hdr_process (pkt_header (handshake_request p)) = p" "hdr_operation (pkt_header (handshake_request p)) = HANDSHAKE_IN"
  "hdr_elements (pkt_header (handshake_request p)) = 0" "hdr_operation (pkt_header (handshake_reply p)) = HANDSHAKE_OUT"
  "hdr_elements (pkt_header (handshake_reply p)) = 0"
  by (simp_all add: handshake_request_def handshake_reply_def)

text \<open>What is received on a connection that is closed, or cut within the first 13 bytes.\<close>

lemma recv_packet_closed:
  assumes "recv_ok ch" "length s < 13"
  shows "recv_packet ch s = Inr (0, None, [])"
  using recv_all_closed [OF assms] by (simp add: recv_packet_def)

lemma recv_packet_None: "recv_packet ch s = Inr (n, None, rest) \<Longrightarrow> n \<le> 0"
  by (auto simp: recv_packet_def Let_def split: prod.splits if_splits option.splits)

lemma recv_packet_content:
  "recv_packet ch s = Inr (n, Some q, rest) \<Longrightarrow> \<not> hdr_elements (pkt_header q) > 0 \<Longrightarrow> q\<lparr>pkt_content := []\<rparr> = q"
  by (auto simp: recv_packet_def Let_def split: prod.splits if_splits option.splits)

lemma setup_connection_refused:
  assumes "\<not> connects os ip port"
  shows "\<exists>code \<in> {-1, -2, -3}. setup_connection ch os p ip port s = Inr (code, [], s)"
  using assms by (auto simp: connects_def setup_connection_def)

lemma send2_handshake: "send2 (new_packet (handshake_request p)) = Inr (packet_bytes (handshake_request p), new_packet (handshake_request p))"
  by (simp add: send2_new)

lemma free_no_elements [simp]: "hdr_elements (pkt_header (pm_packet m)) = 0 \<Longrightarrow> free_packet_content m = Inr m"
  by (simp add: free_packet_content_def)

lemma pm_new [simp]: "pm_packet (new_packet p) = p" "pm_released (new_packet p) = False"
  by (simp_all add: new_packet_def)

lemma setup_connection_reply:
  assumes "recv_ok ch" "connects os ip port"
  shows "setup_connection ch os p ip port (packet_bytes (handshake_reply me) @ rest) = Inr (os_socket os, packet_bytes (handshake_request p), rest)"
  using assms recv_packet_bytes [OF assms(1), of "handshake_reply me" rest]
  by (simp add: setup_connection_def connects_def build_handshake send2_handshake recv2_def not_le not_less)

lemma setup_connection_closed:
  assumes "recv_ok ch" "connects os ip port" "length s < 13"
  shows "setup_connection ch os p ip port s = Inr (-4, packet_bytes (handshake_request p), [])"
  using assms recv_packet_closed [OF assms(1,3)]
  by (simp add: setup_connection_def connects_def build_handshake send2_handshake recv2_def not_le not_less)

section \<open>A request\<close>

text \<open>
  What the client has sent once a run of it ends: nothing, the handshake, or the handshake and its packet; the last only
  after the handshake was answered.
\<close>

abbreviation request_packet :: "request_t \<Rightarrow> packet_t result" where
  "request_packet r \<equiv> build_packet (rq_process r) (rq_operation r) False (rq_elements_length r) (rq_content r) (rq_success r)"

lemma send2_sent: "send2 m = Inr (sent, m1) \<Longrightarrow> sent = packet_bytes (pm_packet m)"
  by (auto simp: send2_def rbind_Inr_iff split: if_splits)

lemma do_request_sent:
  assumes "do_request ch os r s = Inr (sent, answer, finish)" "connects os (rq_ip r) (rq_port r)"
  shows "sent = packet_bytes (handshake_request (rq_process r)) \<and> answer = None \<or>
    (\<exists>packet. request_packet r = Inr packet \<and> sent = packet_bytes (handshake_request (rq_process r)) @ packet_bytes packet)"
  using assms
  by (auto simp: do_request_def setup_connection_def connects_def build_handshake send2_handshake rbind_Inr_iff Let_def not_le not_less
      dest!: send2_sent split: if_splits)

lemma do_request_refused:
  assumes "\<not> connects os (rq_ip r) (rq_port r)"
  shows "do_request ch os r s = Inr ([], None, Inr ())"
  using setup_connection_refused [OF assms, of ch "rq_process r" s] by (auto simp: do_request_def)

lemma do_request_no_handshake:
  assumes "recv_ok ch" "connects os (rq_ip r) (rq_port r)" "length s < 13"
  shows "do_request ch os r s = Inr (packet_bytes (handshake_request (rq_process r)), None, Inr ())"
  using setup_connection_closed [OF assms] by (simp add: do_request_def)

lemma do_request_after_handshake:
  assumes "recv_ok ch" "connects os (rq_ip r) (rq_port r)" "request_packet r = Inr packet" "wf_packet packet"
  shows "do_request ch os r (packet_bytes (handshake_reply me) @ s) =
    rbind (recv_packet ch s) (\<lambda>(bytes_read, received, _).
      let sent = packet_bytes (handshake_request (rq_process r)) @ packet_bytes packet
      in case received of
           None \<Rightarrow> Inr (sent, None, if hdr_elements (pkt_header packet) > 0 then Inl Freed else Inr ())
         | Some q \<Rightarrow> if bytes_read \<le> 0 then Inr (sent, None, Inr ())
             else rbind (deserialize_content (pkt_content q) (hdr_operation (pkt_header q)) (hdr_elements_size (pkt_header q)))
                (\<lambda>c. Inr (sent, Some c, Inr ())))"
proof -
  have conn: "setup_connection ch os (rq_process r) (rq_ip r) (rq_port r) (packet_bytes (handshake_reply me) @ s) =
      Inr (os_socket os, packet_bytes (handshake_request (rq_process r)), s)" by (rule setup_connection_reply [OF assms(1,2)])
  define m where "m = (if hdr_elements (pkt_header packet) > 0 then \<lparr>pm_packet = packet\<lparr>pkt_content := []\<rparr>, pm_released = True\<rparr> else new_packet packet)"
  have sent: "send2 (new_packet packet) = Inr (packet_bytes packet, m)" using send2_new [OF assms(4)] by (simp add: m_def)
  have m: "pkt_content (pm_packet m) = []" "free_packet_content m = (if hdr_elements (pkt_header packet) > 0 then Inl Freed else Inr m)"
    using assms(4) by (auto simp: m_def wf_packet_def free_packet_content_def)
  show ?thesis
  proof (cases "recv_packet ch s")
    case (Inr b)
    obtain bytes_read received rest where b: "recv_packet ch s = Inr (bytes_read, received, rest)" using Inr by (cases b) auto
    show ?thesis
    proof (cases received)
      case None
      then show ?thesis using b recv_packet_None [of ch s bytes_read rest] assms(2,3) conn sent m by (simp add: do_request_def connects_def recv2_def)
    next
      case (Some q)
      then have "(if hdr_elements (pkt_header q) > 0 then q else q\<lparr>pkt_content := []\<rparr>) = q" using recv_packet_content [of ch s bytes_read q rest] b by simp
      then have r: "recv2 ch m s = Inr (bytes_read, new_packet q, rest)" using b Some m(1) by (simp add: recv2_def split: if_splits)
      obtain m' where "free_packet_content (new_packet q) = Inr m'" using free_new by blast
      then show ?thesis using b Some assms(2,3) conn sent r by (simp add: do_request_def connects_def rbind_def split: sum.split)
    qed
  qed (use assms(2,3) conn sent in \<open>simp add: do_request_def connects_def recv2_def\<close>)
qed

text \<open>
  The packets a server reads from the bytes of the client, and a connection between the two: what the client
  sends is what the server reads, and the replies of the server are what arrives at the client.
\<close>

fun arrives :: "(bytes \<Rightarrow> nat \<Rightarrow> nat) \<Rightarrow> packet_t list \<Rightarrow> bytes \<Rightarrow> bool" where
  "arrives ch [] s \<longleftrightarrow> s = []"
| "arrives ch (p # ps) s \<longleftrightarrow> (case recv_packet ch s of Inr (_, Some q, rest) \<Rightarrow> q = p \<and> arrives ch ps rest | _ \<Rightarrow> False)"

definition exchange ::
  "(bytes \<Rightarrow> nat \<Rightarrow> nat) \<Rightarrow> (bytes \<Rightarrow> nat \<Rightarrow> nat) \<Rightarrow> os_api \<Rightarrow> request_t \<Rightarrow> process_t \<Rightarrow> 's callbacks \<Rightarrow> 's \<Rightarrow>
   content option \<Rightarrow> unit result \<Rightarrow> 's \<Rightarrow> bool" where
  "exchange ch ch' os r me cb s answer finish s' \<longleftrightarrow>
     (\<exists>sent ps replies. do_request ch os r (concat (map packet_bytes replies)) = Inr (sent, answer, finish) \<and>
        arrives ch' ps sent \<and> handle_request me cb None ps s = Inr (replies, s'))"

lemma arrives_packet_bytes:
  assumes "recv_ok ch" "wf_packet p" "hdr_elements (pkt_header p) \<le> 127"
  shows "arrives ch ps (packet_bytes p @ s) \<longleftrightarrow> (\<exists>qs. ps = p # qs \<and> arrives ch qs s)"
proof (cases ps)
  case Nil
  have "13 \<le> length (packet_bytes p)" using packet_bytes_parts [OF assms(2)] by simp
  then show ?thesis using Nil by auto
next
  case (Cons q qs)
  then show ?thesis using recv_packet_bytes [OF assms, of s] by auto
qed

lemma arrives_nil: "recv_ok ch \<Longrightarrow> arrives ch ps [] \<longleftrightarrow> ps = []"
  using recv_packet_closed [of ch "[]"] by (cases ps) auto

text \<open>
  What a connection can end with, when the server has an answer for the packet: the client gets the content of that
  answer and the server is left in the state of its callback. Nothing else is possible.
\<close>

lemma exchange_served:
  assumes "recv_ok ch" "recv_ok ch'" "connects os (rq_ip r) (rq_port r)" "valid_source me (rq_process r)" "rq_operation r \<noteq> HANDSHAKE_IN"
    and q: "request_packet r = Inr q" "wf_packet q" "hdr_elements (pkt_header q) \<le> 127" "hdr_process (pkt_header q) = rq_process r" "hdr_operation (pkt_header q) = rq_operation r"
    and p: "serve me cb q s = Inr (p, s1)" "wf_packet p" "hdr_elements (pkt_header p) \<le> 127"
      "deserialize_content (pkt_content p) (hdr_operation (pkt_header p)) (hdr_elements_size (pkt_header p)) = Inr c"
  shows "exchange ch ch' os r me cb s answer finish s' \<longleftrightarrow> answer = Some c \<and> finish = Inr () \<and> s' = s1"
proof -
  let ?h = "handshake_request (rq_process r)"
  have hq: "handle_request me cb None [?h, q] s = Inr ([handshake_reply me, p], s1)"
    using handle_request_handshake [OF assms(4), of ?h q] q(4,5) assms(5) p(1) by simp
  have got: "recv_packet ch (packet_bytes p) = Inr (int (length (packet_bytes p)), Some p, [])" using recv_packet_bytes [OF assms(1) p(2,3), of "[]"] by simp
  have "0 < length (packet_bytes p)" using packet_bytes_parts [OF p(2)] by simp
  then have run: "do_request ch os r (packet_bytes (handshake_reply me) @ packet_bytes p) = Inr (packet_bytes ?h @ packet_bytes q, Some c, Inr ())"
    using do_request_after_handshake [OF assms(1,3) q(1,2), of me "packet_bytes p"] got p(4) by simp
  have ps: "arrives ch' ps (packet_bytes ?h @ packet_bytes q) \<longleftrightarrow> ps = [?h, q]" for ps
    using arrives_packet_bytes [OF assms(2), of ?h ps "packet_bytes q"] arrives_packet_bytes [OF assms(2) q(2,3), of _ "[]"] arrives_nil [OF assms(2)] by auto
  show ?thesis
  proof
    assume "exchange ch ch' os r me cb s answer finish s'"
    then obtain sent ps replies where x: "do_request ch os r (concat (map packet_bytes replies)) = Inr (sent, answer, finish)" "arrives ch' ps sent"
      "handle_request me cb None ps s = Inr (replies, s')" by (auto simp: exchange_def)
    show "answer = Some c \<and> finish = Inr () \<and> s' = s1"
    proof (cases "sent = packet_bytes ?h")
      case True
      then have "ps = [?h]" using x(2) arrives_packet_bytes [OF assms(2), of ?h ps "[]"] arrives_nil [OF assms(2)] by auto
      then have "hd replies = handshake_reply me \<and> replies \<noteq> []"
        using x(3) assms(4) by (auto simp: handle_packet_def rbind_Inr_iff handshake_reply_def split: option.splits if_splits)
      then obtain rs where "replies = handshake_reply me # rs" by (cases replies) auto
      then have "sent = packet_bytes ?h @ packet_bytes q"
        using x(1) do_request_after_handshake [OF assms(1,3) q(1,2), of me "concat (map packet_bytes rs)"]
        by (auto simp: rbind_Inr_iff Let_def split: if_splits option.splits)
      then show ?thesis using True packet_bytes_parts [OF q(2)] by (metis append_self_conv append_is_Nil_conv length_0_conv length_packet_parts(1) zero_neq_numeral)
    next
      case False
      then have "sent = packet_bytes ?h @ packet_bytes q" using do_request_sent [OF x(1) assms(3)] q(1) by auto
      then have "ps = [?h, q]" using x(2) ps by simp
      then show ?thesis using x(1,3) hq run by simp
    qed
  next
    assume "answer = Some c \<and> finish = Inr () \<and> s' = s1"
    moreover have "do_request ch os r (concat (map packet_bytes [handshake_reply me, p])) = Inr (packet_bytes ?h @ packet_bytes q, Some c, Inr ())" using run by simp
    ultimately show "exchange ch ch' os r me cb s answer finish s'" unfolding exchange_def using ps hq by blast
  qed
qed

section \<open>Services\<close>

text \<open>
  A service is an operation with the codecs of its request and of its answer. With a callback for it, a request of at most
  127 elements ends in exactly one way.
\<close>

locale service = req: codec operation content_of sizes wf + ans: codec reply content_of' sizes' wf'
  for operation :: socket_operation_t and content_of :: "'a \<Rightarrow> content" and sizes wf
    and reply :: socket_operation_t and content_of' :: "'b \<Rightarrow> content" and sizes' wf' +
  assumes reply: "reply_operation operation = Some reply"
    and request: "operation \<noteq> HANDSHAKE_IN"
    and out_info: "wf' y \<Longrightarrow> get_out_element_info reply (content_of' y) = Inr (sizes' y)"
    and out_length: "wf' y \<Longrightarrow> length (sizes' y) \<le> 127"
begin

lemma exchange_service:
  assumes "recv_ok ch" "recv_ok ch'" "connects os ip port" "valid_source me client"
    and x: "wf x" "length (sizes x) \<le> 127"
    and cb: "cb operation = Some f" "f (content_of x) s = Inr (content_of' y, s1)" and y: "wf' y"
    and r: "r = \<lparr>rq_process = client, rq_ip = ip, rq_port = port, rq_operation = operation, rq_content = content_of x, rq_elements_length = sizes x, rq_success = success\<rparr>"
  shows "exchange ch ch' os r me cb s answer finish s' \<longleftrightarrow> answer = Some (content_of' y) \<and> finish = Inr () \<and> s' = s1"
proof -
  obtain q where q: "build_packet client operation False (sizes x) (content_of x) success = Inr q" "wf_packet q" "hdr_elements_size (pkt_header q) = sizes x"
    "hdr_operation (pkt_header q) = operation" "hdr_elements (pkt_header q) = int (length (sizes x))" "hdr_process (pkt_header q) = client"
    "serialize_content operation (content_of x) = Inr (pkt_content q)"
    using req.build_packet_wf [OF x(1)] by metis
  obtain p where p: "build_packet me reply False (sizes' y) (content_of' y) True = Inr p" "wf_packet p" "hdr_elements_size (pkt_header p) = sizes' y"
    "hdr_operation (pkt_header p) = reply" "hdr_elements (pkt_header p) = int (length (sizes' y))"
    "serialize_content reply (content_of' y) = Inr (pkt_content p)"
    using ans.build_packet_wf [OF y] by metis
  have "serve me cb q s = Inr (p, s1)"
    using req.reads_back [OF x(1) q(7)] cb reply out_info [OF y] p(1,2) by (simp add: serve_def q(3,4) send2_new)
  then show ?thesis
    using exchange_served [OF assms(1,2), of os r me q cb s p s1 "content_of' y"] assms(3,4) x(2) q p request ans.reads_back [OF y p(6)] out_length [OF y] by (simp add: r)
qed

end

lemmas service_defs = reply_operation_def socket_of_code_def socket_operations_def get_out_element_info_def as_defs

interpretation select_service: service SELECT_IN Select_Content elements_select_in_info "\<lambda>i. wf_select i \<and> short_name (sel_table_name i)"
  SELECT_OUT Record_Content elements_select_out_info "\<lambda>r. wf_record r \<and> short_name (rec_table_name r) \<and> short_name (rec_value r)"
  by unfold_locales (auto simp: service_defs elements_select_out_info_def)

interpretation insert_service: service INSERT_IN Insert_Content elements_insert_in_info
  "\<lambda>i. wf_insert i \<and> short_name (ins_table_name i) \<and> short_name (ins_value i)" INSERT_OUT Int_Content "\<lambda>_. elements_insert_out_info" fits_int
  by unfold_locales (auto simp: service_defs elements_insert_out_info_def)

interpretation create_service: service CREATE_IN Create_Content elements_create_in_info "\<lambda>i. wf_create i \<and> short_name (cre_table_name i)"
  CREATE_OUT Int_Content "\<lambda>_. elements_create_out_info" fits_int
  by unfold_locales (auto simp: service_defs elements_create_out_info_def)

interpretation drop_service: service DROP_IN Drop_Content elements_drop_in_info "\<lambda>i. wf_drop i \<and> short_name (drp_table_name i)"
  DROP_OUT Int_Content "\<lambda>_. elements_drop_out_info" fits_int
  by unfold_locales (auto simp: service_defs elements_drop_out_info_def)

interpretation multiinsert_service: service MULTIINSERT_IN Inserts_Content elements_multiinsert_in_info wf_inserts
  MULTIINSERT_OUT Int_Content "\<lambda>_. elements_multiinsert_out_info" fits_int
  by unfold_locales (auto simp: service_defs elements_multiinsert_out_info_def)

end
