(* ===== verification/Config.thy ===== *)
theory Config
  imports Lib_Utils
begin

text \<open>
  \<open>lib/generic_config.c\<close> and the \<open>config.c\<close> of the three processes: the configuration is read once at the start and again
  whenever inotify reports that its file was written. The configuration files of the commons library are the parameter
  \<open>config_api\<close>; a \<open>t_config\<close> is an open file of it (type \<open>'c\<close>), \<open>None\<close> when the file could not be opened. Log messages and the release
  of memory are left out.
\<close>

record 'c config_api =
  config_has_property :: "'c \<Rightarrow> string \<Rightarrow> bool"
  config_get_int_value :: "'c \<Rightarrow> string \<Rightarrow> int"
  config_get_string_value :: "'c \<Rightarrow> string \<Rightarrow> string"
  config_get_array_value :: "'c \<Rightarrow> string \<Rightarrow> string list"

section \<open>Reading and validating\<close>

fun validate_config_properties :: "'c config_api \<Rightarrow> 'c \<Rightarrow> string list \<Rightarrow> bool" where
  "validate_config_properties api config [] \<longleftrightarrow> True"
| "validate_config_properties api config (key # keys) \<longleftrightarrow>
     (if \<not> config_has_property api config key then False else validate_config_properties api config keys)"

definition validate_config :: "'c config_api \<Rightarrow> 'c option \<Rightarrow> string list \<Rightarrow> bool" where
  "validate_config api config config_keys =
     (case config of None \<Rightarrow> False | Some c \<Rightarrow> validate_config_properties api c config_keys)"

definition init_config :: "'c config_api \<Rightarrow> 'c option \<Rightarrow> ('c \<Rightarrow> 'g \<Rightarrow> 'g) \<Rightarrow> string list \<Rightarrow> bool \<Rightarrow> 'g \<Rightarrow> bool \<times> 'g" where
  \<comment> \<open>\<open>created\<close>: whether the thread that watches the file could be created; \<open>'g\<close> is the global \<open>g_config\<close>\<close>
  "init_config api config callback_created config_keys created g_config =
     (case config of
        None \<Rightarrow> (False, g_config)
      | Some c \<Rightarrow> if \<not> validate_config api config config_keys then (False, g_config)
                  else (created, callback_created c g_config))"

definition update_config :: "'c config_api \<Rightarrow> 'c option \<Rightarrow> ('c \<Rightarrow> 'g \<Rightarrow> 'g) \<Rightarrow> string list \<Rightarrow> 'g \<Rightarrow> 'g" where
  "update_config api config callback config_keys g_config =
     (case config of
        None \<Rightarrow> g_config
      | Some c \<Rightarrow> if \<not> validate_config api config config_keys then g_config else callback c g_config)"

text \<open>
  The loop of \<open>check_config\<close> over the events that \<open>read\<close> returns: an event has the name of the file that was written (\<open>None\<close> when
  \<open>len\<close> is 0), and comes here with what \<open>config_create\<close> finds in the configuration file when it is handled.
\<close>

fun check_config :: "'c config_api \<Rightarrow> string \<Rightarrow> ('c \<Rightarrow> 'g \<Rightarrow> 'g) \<Rightarrow> string list \<Rightarrow> (string option \<times> 'c option) list \<Rightarrow> 'g \<Rightarrow> 'g" where
  "check_config api config_file callback config_keys [] g_config = g_config"
| "check_config api config_file callback config_keys ((name, config) # events) g_config =
     check_config api config_file callback config_keys events
       (if name = Some config_file then update_config api config callback config_keys g_config else g_config)"

definition init_int_config_value :: "'c config_api \<Rightarrow> string \<Rightarrow> 'c \<Rightarrow> int" where
  "init_int_config_value api key config = config_get_int_value api config key"

definition update_int_config_value :: "'c config_api \<Rightarrow> int \<Rightarrow> string \<Rightarrow> 'c \<Rightarrow> int" where
  "update_int_config_value api current_value key config = config_get_int_value api config key"

definition init_str_config_value :: "'c config_api \<Rightarrow> string \<Rightarrow> 'c \<Rightarrow> string" where
  "init_str_config_value api key config = config_get_string_value api config key"

definition update_str_config_value :: "'c config_api \<Rightarrow> string \<Rightarrow> string \<Rightarrow> 'c \<Rightarrow> string" where
  "update_str_config_value api old_value key config =
     (let new_value = config_get_string_value api config key in if old_value \<noteq> new_value then new_value else old_value)"

definition init_str_array_config_value :: "'c config_api \<Rightarrow> string \<Rightarrow> 'c \<Rightarrow> string list" where
  "init_str_array_config_value api key config = config_get_array_value api config key"

definition init_int_array_config_value :: "'c config_api \<Rightarrow> string \<Rightarrow> 'c \<Rightarrow> int list" where
  \<comment> \<open>\<open>string_to_int_ptr\<close> calls \<open>atoi\<close>\<close>
  "init_int_array_config_value api key config = map string_to_int (init_str_array_config_value api key config)"

lemmas config_value_defs = init_int_config_value_def update_int_config_value_def init_str_config_value_def
  init_str_array_config_value_def init_int_array_config_value_def

lemma validate_config_properties_iff:
  "validate_config_properties api c keys \<longleftrightarrow> (\<forall>key \<in> set keys. config_has_property api c key)"
  by (induction keys) auto

section \<open>The configurations of the processes\<close>

definition FSCFG :: string where
  "FSCFG = ''filesystem.cfg''"

definition MEMCFG :: string where
  "MEMCFG = ''memoria.cfg''"

definition KNCFG :: string where
  "KNCFG = ''kernel.cfg''"

record fsconfig_t =
  fc_mount_point :: string
  fc_port :: int
  fc_delay :: int
  fc_max_value_size :: int
  fc_dump_time :: int

definition value_size_key :: string where
  \<comment> \<open>in UTF-8, as the source has it\<close>
  "value_size_key = ''TAMA'' @ [CHR 0xC3, CHR 0x91] @ ''O_VALUE''"

definition fs_config_keys :: "string list" where
  "fs_config_keys = [''PUERTO_ESCUCHA'', ''PUNTO_MONTAJE'', ''RETARDO'', value_size_key, ''TIEMPO_DUMP'']"

definition initialize_fs_config :: "'c config_api \<Rightarrow> 'c \<Rightarrow> fsconfig_t \<Rightarrow> fsconfig_t" where
  "initialize_fs_config api config g = g
     \<lparr>fc_mount_point := init_str_config_value api ''PUNTO_MONTAJE'' config,
      fc_port := init_int_config_value api ''PUERTO_ESCUCHA'' config,
      fc_delay := init_int_config_value api ''RETARDO'' config,
      fc_max_value_size := init_int_config_value api value_size_key config,
      fc_dump_time := init_int_config_value api ''TIEMPO_DUMP'' config\<rparr>"

definition update_fs_config :: "'c config_api \<Rightarrow> 'c \<Rightarrow> fsconfig_t \<Rightarrow> fsconfig_t" where
  "update_fs_config api config g = g
     \<lparr>fc_delay := update_int_config_value api (fc_delay g) ''RETARDO'' config,
      fc_dump_time := update_int_config_value api (fc_dump_time g) ''TIEMPO_DUMP'' config\<rparr>"

record memconfig_t =
  mc_ip :: string
  mc_port :: int
  mc_filesystem_ip :: string
  mc_filesystem_port :: int
  mc_seed_ips :: "string list"
  mc_seed_ports :: "int list"
  mc_memory_delay :: int
  mc_filesystem_delay :: int
  mc_memory_size :: int
  mc_journal_delay :: int
  mc_gossip_delay :: int
  mc_memory_number :: int
  mc_value_delay :: int

definition memory_config_keys :: "string list" where
  "memory_config_keys = [''IP'', ''PUERTO'', ''IP_FS'', ''PUERTO_FS'', ''IP_SEEDS'', ''PUERTO_SEEDS'', ''RETARDO_MEM'', ''RETARDO_FS'', ''TAM_MEM'',
     ''RETARDO_JOURNAL'', ''RETARDO_GOSSIPING'', ''MEMORY_NUMBER'', ''VALUE_DELAY'']"

definition initialize_memory_config :: "'c config_api \<Rightarrow> 'c \<Rightarrow> memconfig_t \<Rightarrow> memconfig_t" where
  "initialize_memory_config api config g = g
     \<lparr>mc_ip := init_str_config_value api ''IP'' config,
      mc_port := init_int_config_value api ''PUERTO'' config,
      mc_filesystem_ip := init_str_config_value api ''IP_FS'' config,
      mc_filesystem_port := init_int_config_value api ''PUERTO_FS'' config,
      mc_seed_ips := init_str_array_config_value api ''IP_SEEDS'' config,
      mc_seed_ports := init_int_array_config_value api ''PUERTO_SEEDS'' config,
      mc_memory_delay := init_int_config_value api ''RETARDO_MEM'' config,
      mc_filesystem_delay := init_int_config_value api ''RETARDO_FS'' config,
      mc_memory_size := init_int_config_value api ''TAM_MEM'' config,
      mc_journal_delay := init_int_config_value api ''RETARDO_JOURNAL'' config,
      mc_gossip_delay := init_int_config_value api ''RETARDO_GOSSIPING'' config,
      mc_memory_number := init_int_config_value api ''MEMORY_NUMBER'' config,
      mc_value_delay := init_int_config_value api ''VALUE_DELAY'' config\<rparr>"

definition update_memory_config :: "'c config_api \<Rightarrow> 'c \<Rightarrow> memconfig_t \<Rightarrow> memconfig_t" where
  "update_memory_config api config g = g
     \<lparr>mc_memory_delay := update_int_config_value api (mc_memory_delay g) ''RETARDO_MEM'' config,
      mc_filesystem_delay := update_int_config_value api (mc_filesystem_delay g) ''RETARDO_FS'' config,
      mc_journal_delay := update_int_config_value api (mc_journal_delay g) ''RETARDO_JOURNAL'' config,
      mc_gossip_delay := update_int_config_value api (mc_gossip_delay g) ''RETARDO_GOSSIPING'' config,
      mc_value_delay := update_int_config_value api (mc_value_delay g) ''VALUE_DELAY'' config\<rparr>"

record knconfig_t =
  kc_memory_ip :: string
  kc_memory_port :: int
  kc_quantum :: int
  kc_multiprocessing :: int
  kc_metadata_refresh :: int
  kc_execution_delay :: int
  kc_lts_delay :: int
  kc_metrics_display :: int
  kc_gossip_refresh :: int

definition kernel_config_keys :: "string list" where
  "kernel_config_keys = [''IP_MEMORIA'', ''PUERTO_MEMORIA'', ''QUANTUM'', ''MULTIPROCESAMIENTO'', ''METADATA_REFRESH'', ''SLEEP_EJECUCION'', ''LTS_DELAY'',
     ''METRICS_DISPLAY'', ''GOSSIP_REFRESH'']"

definition initialize_kernel_config :: "'c config_api \<Rightarrow> 'c \<Rightarrow> knconfig_t \<Rightarrow> knconfig_t" where
  "initialize_kernel_config api config g = g
     \<lparr>kc_memory_ip := init_str_config_value api ''IP_MEMORIA'' config,
      kc_memory_port := init_int_config_value api ''PUERTO_MEMORIA'' config,
      kc_quantum := init_int_config_value api ''QUANTUM'' config,
      kc_multiprocessing := init_int_config_value api ''MULTIPROCESAMIENTO'' config,
      kc_metadata_refresh := init_int_config_value api ''METADATA_REFRESH'' config,
      kc_execution_delay := init_int_config_value api ''SLEEP_EJECUCION'' config,
      kc_lts_delay := init_int_config_value api ''LTS_DELAY'' config,
      kc_metrics_display := init_int_config_value api ''METRICS_DISPLAY'' config,
      kc_gossip_refresh := init_int_config_value api ''GOSSIP_REFRESH'' config\<rparr>"

definition update_kernel_config :: "'c config_api \<Rightarrow> 'c \<Rightarrow> knconfig_t \<Rightarrow> knconfig_t" where
  "update_kernel_config api config g = g
     \<lparr>kc_quantum := update_int_config_value api (kc_quantum g) ''QUANTUM'' config,
      kc_metadata_refresh := update_int_config_value api (kc_metadata_refresh g) ''METADATA_REFRESH'' config,
      kc_execution_delay := update_int_config_value api (kc_execution_delay g) ''SLEEP_EJECUCION'' config,
      kc_lts_delay := update_int_config_value api (kc_lts_delay g) ''LTS_DELAY'' config,
      kc_metrics_display := update_int_config_value api (kc_metrics_display g) ''METRICS_DISPLAY'' config,
      kc_gossip_refresh := update_int_config_value api (kc_gossip_refresh g) ''GOSSIP_REFRESH'' config\<rparr>"

section \<open>Reloading\<close>

text \<open>The contents of the file that the loop hands to the callback.\<close>

fun config_reloads :: "'c config_api \<Rightarrow> string \<Rightarrow> string list \<Rightarrow> (string option \<times> 'c option) list \<Rightarrow> 'c list" where
  "config_reloads api config_file config_keys [] = []"
| "config_reloads api config_file config_keys ((name, config) # events) =
     (if name = Some config_file \<and> validate_config api config config_keys then the config # config_reloads api config_file config_keys events
      else config_reloads api config_file config_keys events)"

definition same_properties :: "'c config_api \<Rightarrow> string list \<Rightarrow> 'c \<Rightarrow> 'c \<Rightarrow> bool" where
  "same_properties api keys c c' \<longleftrightarrow> (\<forall>key \<in> set keys. config_get_int_value api c key = config_get_int_value api c' key \<and>
     config_get_string_value api c key = config_get_string_value api c' key \<and> config_get_array_value api c key = config_get_array_value api c' key)"

text \<open>
  What the two callbacks of a process promise: both read only properties that were validated, the first one sets every
  field, and the second one sets the same fields each time, to what the first one would.
\<close>

locale configured =
  fixes api :: "'c config_api" and keys :: "string list" and initialize update :: "'c \<Rightarrow> 'g \<Rightarrow> 'g"
  assumes initialize_all: "initialize c g = initialize c g'"
    and update_initialize: "update c (initialize c g) = initialize c g"
    and update_update: "update c' (update c g) = update c' g"
    and initialize_keys: "same_properties api keys c c' \<Longrightarrow> initialize c g = initialize c' g"
    and update_keys: "same_properties api keys c c' \<Longrightarrow> update c g = update c' g"
begin

lemma check_config_reloads:
  "check_config api config_file update keys events g = fold update (config_reloads api config_file keys events) g"
proof (induction events arbitrary: g)
  case (Cons x events)
  then show ?case by (cases x) (auto simp: update_config_def validate_config_def split: option.splits)
qed simp

lemma fold_update: "cs \<noteq> [] \<Longrightarrow> fold update cs g = update (last cs) g"
proof (induction cs arbitrary: g)
  case (Cons c cs)
  then show ?case by (cases "cs = []") (simp_all add: update_update)
qed simp

lemma after_events:
  "check_config api config_file update keys events (initialize c g) = update (last (c # config_reloads api config_file keys events)) (initialize c g')"
  using fold_update [of "config_reloads api config_file keys events" "initialize c g"] update_initialize [of c g] initialize_all [of c g g']
  by (simp add: check_config_reloads)

lemma init_config_valid:
  "init_config api config initialize keys created g =
     (if validate_config api config keys then (created, initialize (the config) g) else (False, g))"
  by (auto simp: init_config_def validate_config_def split: option.splits)

end

lemmas config_defs = initialize_fs_config_def update_fs_config_def initialize_memory_config_def update_memory_config_def
  initialize_kernel_config_def update_kernel_config_def fs_config_keys_def memory_config_keys_def kernel_config_keys_def config_value_defs same_properties_def

interpretation fs_cfg: configured api fs_config_keys "initialize_fs_config api" "update_fs_config api" for api
  by unfold_locales (simp_all add: config_defs)

interpretation memory_cfg: configured api memory_config_keys "initialize_memory_config api" "update_memory_config api" for api
  by unfold_locales (simp_all add: config_defs)

interpretation kernel_cfg: configured api kernel_config_keys "initialize_kernel_config api" "update_kernel_config api" for api
  by unfold_locales (simp_all add: config_defs)

end
