(* ===== verification/Lib_Theorems.thy ===== *)
theory Lib_Theorems
  imports Console Client Config
begin

text \<open>
  The properties of the shared library: the console, the wire format, the packets and the request
  loop, the identifier generators and the arithmetic helpers. Each follows from the library lemmas
  of the theory that holds the definitions; a witness applies it to concrete data.
\<close>

section \<open>Console\<close>

text \<open>
  C24. Whatever line is typed (or stands in a script), the console of each process either rejects it
  without calling anything, or calls exactly one operation, the one its first word names, which the
  process has a callback for and is allowed to run; no token is read past the end and no null callback is called.
\<close>

theorem console_never_crashes:
  "process_command cm p (get_callbacks p) line = Inr (False, None) \<or>
   (\<exists>c. process_command cm p (get_callbacks p) line = Inr (True, Some c) \<and>
        command_operation c = get_operation cm line \<and> get_operation cm line \<noteq> INVALID \<and>
        operation_allowed (get_operation cm line) p \<and> command_operation c \<in> set (get_callbacks p))"
  using process_command_cases [of cm p line] allowed_has_callback by metis

text \<open>
  Printing a command and processing the line calls the operation with the same arguments when
  the process may run it, and rejects it otherwise: the tokenizer, the validators and the conversions
  lose nothing, for keys, timestamps, quoted values and all the operations.
\<close>

theorem console_reads_back:
  assumes "commons_api cm" "command_ok c"
  shows "process_command cm p (get_callbacks p) (print_command c) =
    (if operation_allowed (command_operation c) p then Inr (True, Some c) else Inr (False, None))"
  using commons_api.process_command_print [OF assms] .

theorem console_reads_back_witness:
  "process_command std_commons MEMORY (get_callbacks MEMORY)
     (print_command (CInsert \<lparr>ins_table_name = ''T'', ins_key = 7, ins_value = ''a b'', ins_timestamp = 12\<rparr>))
   = Inr (True, Some (CInsert \<lparr>ins_table_name = ''T'', ins_key = 7, ins_value = ''a b'', ins_timestamp = 12\<rparr>))"
  by (subst console_reads_back [OF std.commons_api_axioms])
    (simp_all add: fits_long_def operation_allowed_def less_eq_operation_t_def)

section \<open>Wire format\<close>

text \<open>
  Serializing the inserts of a journal and deserializing the bytes gives the same list back:
  names, keys, values and timestamps, in order, for a list of any length.
\<close>

theorem multiinsert_roundtrip:
  assumes "wf_inserts l" "serialize_content MULTIINSERT_IN (Inserts_Content l) = Inr b"
  shows "deserialize_content b MULTIINSERT_IN (elements_multiinsert_in_info l) = Inr (Inserts_Content l) \<and>
    int (length b) = sum_list (elements_multiinsert_in_info l)"
  using multiinsert_in.reads_back [OF assms] multiinsert_in.fills [OF assms] by blast

theorem multiinsert_roundtrip_witness:
  "deserialize_content (serialize_insert \<lparr>ins_table_name = ''T'', ins_key = 7, ins_value = ''v'', ins_timestamp = 12\<rparr>)
     MULTIINSERT_IN (elements_multiinsert_in_info [\<lparr>ins_table_name = ''T'', ins_key = 7, ins_value = ''v'', ins_timestamp = 12\<rparr>])
   = Inr (Inserts_Content [\<lparr>ins_table_name = ''T'', ins_key = 7, ins_value = ''v'', ins_timestamp = 12\<rparr>])"
  by (rule multiinsert_roundtrip [THEN conjunct1])
    (simp_all add: wf_inserts_def elements_multiinsert_in_info_def short_name_def wf_insert_def fits_long_def fits_int_def str_size_def NUL_def serialize_content_def as_inserts_def)

text \<open>
  The same for the tables of a DESCRIBE answer: name, consistency, partitions and compaction time
  of every table survive the wire.
\<close>

theorem describe_roundtrip:
  assumes "wf_metadatas l" "serialize_content DESCRIBE_OUT (Metadata_Content l) = Inr b"
  shows "deserialize_content b DESCRIBE_OUT (elements_describe_out_info l) = Inr (Metadata_Content l)"
  using describe_out.reads_back [OF assms] .

theorem describe_roundtrip_witness:
  "deserialize_content (serialize_metadata \<lparr>md_table_name = ''T'', md_consistency = STRONG_HASH_CONSISTENCY,
       md_partitions = 3, md_compaction_time = 60000\<rparr>) DESCRIBE_OUT
     (elements_describe_out_info [\<lparr>md_table_name = ''T'', md_consistency = STRONG_HASH_CONSISTENCY,
       md_partitions = 3, md_compaction_time = 60000\<rparr>])
   = Inr (Metadata_Content [\<lparr>md_table_name = ''T'', md_consistency = STRONG_HASH_CONSISTENCY,
       md_partitions = 3, md_compaction_time = 60000\<rparr>])"
  by (rule describe_roundtrip)
    (simp_all add: wf_metadatas_def elements_describe_out_info_def short_name_def wf_metadata_def fits_long_def fits_int_def str_size_def NUL_def serialize_content_def as_metadata_def)

section \<open>Packets\<close>

text \<open>
  A packet of at most 127 elements arrives as it was sent, and what follows it on the socket is
  left there, however the operating system cuts the stream into pieces.
\<close>

theorem packet_arrives:
  assumes "recv_ok ch" "wf_packet p" "hdr_elements (pkt_header p) \<le> 127"
  shows "recv_packet ch (packet_bytes p @ rest) = Inr (int (length (packet_bytes p)), Some p, rest)"
  using recv_packet_bytes [OF assms] .

definition one_byte :: "bytes \<Rightarrow> nat \<Rightarrow> nat" where
  \<comment> \<open>an operating system that delivers one byte at a time\<close>
  "one_byte s n = 1"

lemma recv_ok_one_byte: "recv_ok one_byte"
  by (auto simp: recv_ok_def one_byte_def Suc_le_eq)

theorem packet_arrives_witness:
  "recv_packet one_byte (packet_bytes (handshake_reply MEMORY) @ ''x'') =
   Inr (int (length (packet_bytes (handshake_reply MEMORY))), Some (handshake_reply MEMORY), ''x'')"
  by (rule packet_arrives [OF recv_ok_one_byte]) (simp_all add: wf_packet_def handshake_reply_def)

lemma length_multiinsert_info [simp]: "length (elements_multiinsert_in_info l) = 4 * length l"
  by (induction l) (simp_all add: elements_multiinsert_in_info_def)

text \<open>
  A journal of up to 31 inserts reaches the file system unchanged.
\<close>

theorem journal_arrives:
  assumes "recv_ok ch" "wf_inserts l" "length l \<le> 31"
  shows "transmit ch MEMORY MULTIINSERT_IN (elements_multiinsert_in_info l) (Inserts_Content l) = Inr (Inserts_Content l)"
  using multiinsert_in.transmit_ok [OF assms(1,2)] assms(3) by simp

theorem journal_arrives_witness:
  "transmit one_byte MEMORY MULTIINSERT_IN
     (elements_multiinsert_in_info [\<lparr>ins_table_name = ''T'', ins_key = 7, ins_value = ''v'', ins_timestamp = 12\<rparr>])
     (Inserts_Content [\<lparr>ins_table_name = ''T'', ins_key = 7, ins_value = ''v'', ins_timestamp = 12\<rparr>])
   = Inr (Inserts_Content [\<lparr>ins_table_name = ''T'', ins_key = 7, ins_value = ''v'', ins_timestamp = 12\<rparr>])"
  by (rule journal_arrives [OF recv_ok_one_byte])
    (simp_all add: wf_inserts_def elements_multiinsert_in_info_def short_name_def wf_insert_def fits_long_def fits_int_def str_size_def NUL_def)

text \<open>
  C25. A longer journal does not: the receiver reads the number of elements through a \<open>char\<close>, so
  from 32 to 63 inserts it dereferences a null pointer, and 64 inserts arrive as a journal without
  any insert at all.
\<close>

theorem long_journal_is_lost:
  assumes "recv_ok ch" "wf_inserts l"
  shows "(32 \<le> length l \<and> length l < 64 \<longrightarrow>
      transmit ch MEMORY MULTIINSERT_IN (elements_multiinsert_in_info l) (Inserts_Content l) = Inl Null_Pointer) \<and>
    (length l = 64 \<longrightarrow>
      transmit ch MEMORY MULTIINSERT_IN (elements_multiinsert_in_info l) (Inserts_Content l) = Inr (Inserts_Content []))"
  using multiinsert_in.transmit_crash [OF assms] multiinsert_in.transmit_256 [OF assms]
  by (simp add: deserialize_content_def)

theorem long_journal_is_lost_witness:
  "transmit one_byte MEMORY MULTIINSERT_IN
     (elements_multiinsert_in_info (replicate 64 \<lparr>ins_table_name = ''T'', ins_key = 7, ins_value = ''v'', ins_timestamp = 12\<rparr>))
     (Inserts_Content (replicate 64 \<lparr>ins_table_name = ''T'', ins_key = 7, ins_value = ''v'', ins_timestamp = 12\<rparr>))
   = Inr (Inserts_Content [])"
  using long_journal_is_lost [OF recv_ok_one_byte wf_inserts_short, of "replicate 64 \<lparr>ins_table_name = ''T'', ins_key = 7, ins_value = ''v'', ins_timestamp = 12\<rparr>"]
  by (simp add: wf_insert_def short_name_def fits_long_def str_size_def NUL_def list_all_length)

section \<open>The request loop\<close>

text \<open>
  A connection with a handshake and one request from a process the server accepts gets exactly two
  replies, the handshake and the answer the callback left, and leaves the server in the state the
  callback left; whatever the client sends after that is not read.
\<close>

theorem one_request_per_connection:
  assumes "valid_source me client" "hdr_process (pkt_header h) = client"
    "hdr_operation (pkt_header h) = HANDSHAKE_IN"
    "hdr_process (pkt_header q) = client" "hdr_operation (pkt_header q) \<noteq> HANDSHAKE_IN"
    "serve me cb q s = Inr (r, s')"
  shows "handle_request me cb stale (h # q # later) s = Inr ([handshake_reply me, r], s')"
  using handle_request_handshake [OF assms] .

definition handshake_in :: "process_t \<Rightarrow> packet_t" where
  "handshake_in p =
     \<lparr>pkt_header = \<lparr>hdr_process = p, hdr_operation = HANDSHAKE_IN, hdr_keep_alive = True,
        hdr_elements = 0, hdr_elements_size = [], hdr_success = True\<rparr>, pkt_content = []\<rparr>"

definition value_in :: "process_t \<Rightarrow> packet_t" where
  "value_in p =
     \<lparr>pkt_header = \<lparr>hdr_process = p, hdr_operation = VALUE_IN, hdr_keep_alive = False,
        hdr_elements = 0, hdr_elements_size = [], hdr_success = True\<rparr>, pkt_content = []\<rparr>"

definition value_callbacks :: "int callbacks" where
  "value_callbacks op = (if op = VALUE_IN then Some (\<lambda>_ s. Inr (Int_Content s, s)) else None)"

theorem one_request_per_connection_witness:
  "handle_request FILESYSTEM value_callbacks None [handshake_in MEMORY, value_in MEMORY] 4 =
   Inr ([handshake_reply FILESYSTEM,
         \<lparr>pkt_header = \<lparr>hdr_process = FILESYSTEM, hdr_operation = VALUE_OUT, hdr_keep_alive = False,
            hdr_elements = 1, hdr_elements_size = [4], hdr_success = True\<rparr>, pkt_content = enc_int 4 4\<rparr>], 4)"
  by (rule one_request_per_connection [where client = MEMORY])
    (simp_all add: valid_source_def handshake_in_def value_in_def serve_def value_callbacks_def
      deserialize_content_def reply_operation_def socket_of_code_def socket_operations_def
      get_out_element_info_def elements_value_out_info_def build_packet_def serialize_content_def as_int_def
      Let_def int_cast_fits send2_new wf_packet_def)

text \<open>
  A peer that closes the connection right after the handshake kills a memory, which takes its own
  reply for a request and calls an empty slot of its callback table; a file system goes on.
\<close>

theorem close_after_handshake:
  assumes "cb HANDSHAKE_OUT = None" "hdr_operation (pkt_header h) = HANDSHAKE_IN"
  shows "(valid_source MEMORY (hdr_process (pkt_header h)) \<longrightarrow>
      handle_request MEMORY cb stale [h] s = Inl Null_Pointer) \<and>
    (valid_source FILESYSTEM (hdr_process (pkt_header h)) \<longrightarrow>
      handle_request FILESYSTEM cb stale [h] s = Inr ([handshake_reply FILESYSTEM], s))"
  using handshake_then_close [of cb h] assms by blast

theorem close_after_handshake_witness:
  "handle_request MEMORY value_callbacks None [handshake_in KERNEL] 4 = Inl Null_Pointer \<and>
   handle_request FILESYSTEM value_callbacks None [handshake_in MEMORY] 4 = Inr ([handshake_reply FILESYSTEM], 4)"
  using close_after_handshake [of value_callbacks "handshake_in KERNEL" None 4]
    close_after_handshake [of value_callbacks "handshake_in MEMORY" None 4]
  by (simp add: value_callbacks_def handshake_in_def valid_source_def)

section \<open>Requests\<close>

text \<open>
  C26. A request that is not answered. Without a connection nothing is sent, and when the peer closes before it answers the handshake
  only the handshake is; in both cases the callback gets \<open>NULL\<close> and the request ends. When the peer closes after it answered the
  handshake the callback gets \<open>NULL\<close> too, but a request with elements then releases the array of their sizes
  a second time; only one without elements ends.
\<close>

theorem request_without_answer:
  assumes "recv_ok ch" "request_packet r = Inr p" "wf_packet p" "length s < 13"
  shows "(\<not> connects os (rq_ip r) (rq_port r) \<longrightarrow> do_request ch os r t = Inr ([], None, Inr ())) \<and>
    (connects os (rq_ip r) (rq_port r) \<longrightarrow>
      do_request ch os r s = Inr (packet_bytes (handshake_request (rq_process r)), None, Inr ()) \<and>
      do_request ch os r (packet_bytes (handshake_reply me) @ s) =
        Inr (packet_bytes (handshake_request (rq_process r)) @ packet_bytes p, None, if rq_elements_length r = [] then Inr () else Inl Freed))"
proof -
  have "hdr_elements (pkt_header p) = int (length (rq_elements_length r))"
    using assms(2) by (auto simp: build_packet_def rbind_Inr_iff Let_def split: if_splits)
  then show ?thesis
    using do_request_refused [of os r ch t] do_request_no_handshake [OF assms(1) _ assms(4), of os r]
      do_request_after_handshake [OF assms(1) _ assms(2,3), of os me s] recv_packet_closed [OF assms(1,4)] by (simp add: Let_def)
qed

definition drop_request :: request_t where
  "drop_request = \<lparr>rq_process = MEMORY, rq_ip = ''10.0.0.1'', rq_port = 5003, rq_operation = DROP_IN, rq_content = Drop_Content \<lparr>drp_table_name = ''T''\<rparr>,
     rq_elements_length = [2], rq_success = True\<rparr>"

definition open_port :: os_api where
  "open_port = \<lparr>os_socket = 3, os_inet_pton = (\<lambda>_. 1), os_connect = (\<lambda>_ _. 0)\<rparr>"

theorem request_without_answer_witness:
  "\<exists>p. do_request (\<lambda>s n. min n (length s)) open_port drop_request (packet_bytes (handshake_reply FILESYSTEM)) =
     Inr (packet_bytes (handshake_request MEMORY) @ packet_bytes p, None, Inl Freed)"
proof -
  have ok: "recv_ok (\<lambda>s n. min n (length s))" by (auto simp: recv_ok_def Suc_le_eq)
  obtain p where "request_packet drop_request = Inr p" "wf_packet p"
    by (simp add: drop_request_def build_packet_def serialize_content_def as_drop_def cstr_bytes_def wf_packet_def int_cast_fits)
  from request_without_answer [OF ok this, of "[]" open_port "[]" FILESYSTEM] show ?thesis
    by (auto simp: drop_request_def connects_def open_port_def)
qed

section \<open>Configuration\<close>

text \<open>
  C27. The configuration of a process. A file that is missing or lacks a property is refused and sets nothing. After a valid start
  and any events of inotify, each process has the values of its first file, but the delays, and in the kernel the quantum, are those of the last valid
  contents of the file: invalid contents, and writes to other files, change nothing, and ports, addresses and sizes never change.
\<close>

theorem configuration_reload:
  fixes api :: "'c config_api"
  defines "latest \<equiv> \<lambda>config_file keys c events. last (c # config_reloads api config_file keys events)"
  shows "(\<not> validate_config api config keys \<longrightarrow> init_config api config callback keys created g = (False, g)) \<and>
    (validate_config api (Some c) fs_config_keys \<longrightarrow>
      check_config api FSCFG (update_fs_config api) fs_config_keys events (snd (init_config api (Some c) (initialize_fs_config api) fs_config_keys created gf)) =
        (let c' = latest FSCFG fs_config_keys c events in (initialize_fs_config api c gf)
          \<lparr>fc_delay := config_get_int_value api c' ''RETARDO'', fc_dump_time := config_get_int_value api c' ''TIEMPO_DUMP''\<rparr>)) \<and>
    (validate_config api (Some c) memory_config_keys \<longrightarrow>
      check_config api MEMCFG (update_memory_config api) memory_config_keys events (snd (init_config api (Some c) (initialize_memory_config api) memory_config_keys created gm)) =
        (let c' = latest MEMCFG memory_config_keys c events in (initialize_memory_config api c gm)
          \<lparr>mc_memory_delay := config_get_int_value api c' ''RETARDO_MEM'', mc_filesystem_delay := config_get_int_value api c' ''RETARDO_FS'',
           mc_journal_delay := config_get_int_value api c' ''RETARDO_JOURNAL'', mc_gossip_delay := config_get_int_value api c' ''RETARDO_GOSSIPING'',
           mc_value_delay := config_get_int_value api c' ''VALUE_DELAY''\<rparr>)) \<and>
    (validate_config api (Some c) kernel_config_keys \<longrightarrow>
      check_config api KNCFG (update_kernel_config api) kernel_config_keys events (snd (init_config api (Some c) (initialize_kernel_config api) kernel_config_keys created gk)) =
        (let c' = latest KNCFG kernel_config_keys c events in (initialize_kernel_config api c gk)
          \<lparr>kc_quantum := config_get_int_value api c' ''QUANTUM'', kc_metadata_refresh := config_get_int_value api c' ''METADATA_REFRESH'',
           kc_execution_delay := config_get_int_value api c' ''SLEEP_EJECUCION'', kc_lts_delay := config_get_int_value api c' ''LTS_DELAY'',
           kc_metrics_display := config_get_int_value api c' ''METRICS_DISPLAY'', kc_gossip_refresh := config_get_int_value api c' ''GOSSIP_REFRESH''\<rparr>))"
proof (intro conjI impI)
  show "init_config api config callback keys created g = (False, g)" if "\<not> validate_config api config keys"
    using that by (auto simp: init_config_def split: option.splits)
qed (simp_all add: fs_cfg.init_config_valid fs_cfg.after_events [where g' = gf] memory_cfg.init_config_valid memory_cfg.after_events [where g' = gm]
    kernel_cfg.init_config_valid kernel_cfg.after_events [where g' = gk] latest_def Let_def
    update_fs_config_def update_memory_config_def update_kernel_config_def update_int_config_value_def)

text \<open>A file is a list of properties here; the second contents have a new dump time, the third lack a property.\<close>

definition demo_config_api :: "(string \<times> string) list config_api" where
  "demo_config_api = \<lparr>config_has_property = (\<lambda>c key. key \<in> fst ` set c), config_get_int_value = (\<lambda>c key. case map_of c key of None \<Rightarrow> 0 | Some v \<Rightarrow> string_to_int v),
     config_get_string_value = (\<lambda>c key. case map_of c key of None \<Rightarrow> [] | Some v \<Rightarrow> v), config_get_array_value = (\<lambda>c key. case map_of c key of None \<Rightarrow> [] | Some v \<Rightarrow> [v])\<rparr>"

definition demo_config :: "string \<Rightarrow> (string \<times> string) list" where
  "demo_config dump_time = [(''PUERTO_ESCUCHA'', ''5003''), (''PUNTO_MONTAJE'', ''/home''), (''RETARDO'', ''20''), (value_size_key, ''64''), (''TIEMPO_DUMP'', dump_time)]"

definition unset_config :: fsconfig_t where
  "unset_config = \<lparr>fc_mount_point = [], fc_port = 0, fc_delay = 0, fc_max_value_size = 0, fc_dump_time = 0\<rparr>"

theorem configuration_reload_witness:
  "fc_dump_time (check_config demo_config_api FSCFG (update_fs_config demo_config_api) fs_config_keys
     [(Some FSCFG, Some (demo_config ''900'')), (Some FSCFG, Some [(''TIEMPO_DUMP'', ''1'')])]
     (snd (init_config demo_config_api (Some (demo_config ''500'')) (initialize_fs_config demo_config_api) fs_config_keys True unset_config))) = 900"
proof -
  have v: "validate_config demo_config_api (Some (demo_config t)) fs_config_keys" "\<not> validate_config demo_config_api (Some [(''TIEMPO_DUMP'', ''1'')]) fs_config_keys" for t
    by (simp_all add: validate_config_def demo_config_api_def demo_config_def fs_config_keys_def)
  have "config_get_int_value demo_config_api (demo_config ''900'') ''TIEMPO_DUMP'' = string_to_int ''900''"
    by (simp add: demo_config_api_def demo_config_def value_size_key_def)
  moreover have "string_to_int ''900'' = 900" by code_simp
  ultimately show ?thesis
    unfolding configuration_reload [where api = demo_config_api, THEN conjunct2, THEN conjunct1, rule_format, OF v(1)] using v by (simp add: Let_def)
qed

section \<open>Helpers\<close>

text \<open>
  A generated response identifier was not in use, is the least free one, is in use afterwards
  together with those that were, and the list of identifiers stays sorted and without duplicates;
  removing it again frees exactly that one.
\<close>

theorem generate_id_fresh:
  assumes "ids_ok ids" "generate_id ids = (i, ids')"
  shows "i \<notin> set ids \<and> 0 \<le> i \<and> (\<forall>j. 0 \<le> j \<and> j < i \<longrightarrow> j \<in> set ids) \<and>
    set ids' = insert i (set ids) \<and> ids_ok ids' \<and> set (remove_id i ids') = set ids"
  using response_ids.gen_fresh [OF assms] response_ids.gen_least [OF assms] response_ids.gen_used [OF assms]
    response_ids.gen_invar [OF assms] response_ids.gen_rem [OF assms] by blast

theorem generate_id_fresh_witness:
  "generate_id [0, 1, 3] = (2, [0, 1, 2, 3]) \<and> set (remove_id 2 [0, 1, 2, 3]) = set [0, 1, 3 :: int]"
proof -
  have g: "generate_id [0, 1, 3] = (2, [0, 1, 2, 3])" by code_simp
  have "ids_ok [0, 1, 3]" by (simp add: ids_ok_def)
  from generate_id_fresh [OF this g] g show ?thesis by simp
qed

text \<open>
  \<open>digits_in_a_number\<close>, which the size of a memory page is computed from, is the length of the
  decimal numeral \<open>printf\<close> writes, without its sign.
\<close>

theorem digits_are_numeral_length:
  "digits_in_a_number x = int (length (dec_int x)) - (if x < 0 then 1 else 0)"
  by (simp add: digits_in_a_number_length dec_int_def)

end
