(* ===== verification/Mem_Tables.thy ===== *)
theory Mem_Tables
  imports Serializer
begin

text \<open>
  The store of a memory process: \<open>memoria/src/memory_tables.c\<close> and the part of
  \<open>memoria/src/memory_utils.c\<close> below the operations. Main memory is one flat buffer cut into pages
  of equal size; a page holds the C string \<open>timestamp;key;value\<close>, or \<open>null\<close> when it is free. A
  segment is a table name with its pages, each the offset of a page in the buffer and a dirty
  flag.

  A \<open>segment_t*\<close> taken from \<open>g_segment_list\<close> is denoted by the position or, where the list can
  shrink in between, by the name the pointer was looked up with; \<open>eliminate_page_instance_by_index\<close>
  never removes a segment of that name, so the first one of that name is the same one before and
  after.
\<close>

named_theorems mem_simps \<open>main memory\<close>

record page_t =
  pg_index :: int
  pg_modified :: bool

record segment_t =
  seg_name :: string
  seg_page :: "page_t list"

record mem_state =
  g_main_memory :: bytes
  g_total_page_size :: int
  g_total_page_count :: int
  g_value_size :: int
  g_memory_size :: int
  g_segment_list :: "segment_t list"
  g_mem_op_semaphore :: int

datatype memory_var_t = TIMESTAMP | KEY | VALUE | NULLEABLE

fun memory_var_code :: "memory_var_t \<Rightarrow> nat" where
  "memory_var_code TIMESTAMP = 0"
| "memory_var_code KEY = 1"
| "memory_var_code VALUE = 2"
| "memory_var_code NULLEABLE = 3"

section \<open>The buffer\<close>

definition mem_string :: "mem_state \<Rightarrow> int \<Rightarrow> string result" where
  \<comment> \<open>the string at \<open>g_main_memory + index\<close>\<close>
  "mem_string st index =
     (let rest = drop (nat index) (g_main_memory st)
      in if index < 0 \<or> NUL \<notin> set rest then Inl Out_Of_Bounds else Inr (cstr rest))"

definition mem_strcpy :: "mem_state \<Rightarrow> int \<Rightarrow> string \<Rightarrow> mem_state result" where
  \<comment> \<open>\<open>strcpy(g_main_memory + index, s)\<close>\<close>
  "mem_strcpy st index s =
     (if index < 0 \<or> index + int (length s) + 1 > int (length (g_main_memory st)) then Inl Out_Of_Bounds
      else Inr (st\<lparr>g_main_memory := store_at (nat index) (cstr_bytes s) (g_main_memory st)\<rparr>))"

definition page_text :: "commons \<Rightarrow> int \<Rightarrow> int \<Rightarrow> string \<Rightarrow> string" where
  "page_text cm timestamp key value =
     dec_int timestamp @ CHR '';'' # string_itoa cm key @ CHR '';'' # value"

fun free_page :: "mem_state \<Rightarrow> nat list \<Rightarrow> (nat option) result" where
  \<comment> \<open>the scan for the first page that holds \<open>null\<close>\<close>
  "free_page st [] = Inr None"
| "free_page st (i # is) =
     rbind (mem_string st (int i * g_total_page_size st)) (\<lambda>s.
     if s = ''null'' then Inr (Some i) else free_page st is)"

definition memory_insert :: "commons \<Rightarrow> mem_state \<Rightarrow> int \<Rightarrow> int \<Rightarrow> string \<Rightarrow> (int \<times> mem_state) result" where
  "memory_insert cm st timestamp key value =
     rbind (free_page st [0..<nat (g_total_page_count st)]) (\<lambda>r.
     case r of
       None \<Rightarrow> Inr (-1, st)
     | Some i \<Rightarrow>
         rbind (mem_strcpy st (int i * g_total_page_size st) (page_text cm timestamp key value)) (\<lambda>st'.
         Inr (int i * g_total_page_size st, st')))"

definition memory_full :: "mem_state \<Rightarrow> bool result" where
  "memory_full st =
     rbind (free_page st [0..<nat (g_total_page_count st)]) (\<lambda>r. Inr (r = None))"

text \<open>
  \<open>string_split\<close> returns an array that ends with a null pointer: the entry after the last field is
  \<open>NULL\<close> (\<open>None\<close>), an entry after that is out of bounds. Whatever the field asked for, entries 1
  and 2 are looked at.
\<close>

definition main_memory_values :: "commons \<Rightarrow> mem_state \<Rightarrow> int \<Rightarrow> memory_var_t \<Rightarrow> (string option) result" where
  "main_memory_values cm st index type =
     rbind (mem_string st index) (\<lambda>s.
     let our_array = string_split cm s (CHR '';'');
         k = memory_var_code type
     in if length our_array < max 2 k then Inl Out_Of_Bounds
        else Inr (if k < length our_array then Some (our_array ! k) else None))"

definition deref :: "'a option \<Rightarrow> 'a result" where
  "deref p = (case p of None \<Rightarrow> Inl Null_Pointer | Some x \<Rightarrow> Inr x)"

definition modify_memory_by_index :: "commons \<Rightarrow> mem_state \<Rightarrow> int \<Rightarrow> int \<Rightarrow> int \<Rightarrow> string \<Rightarrow> mem_state result" where
  \<comment> \<open>\<open>now\<close> is what \<open>get_timestamp\<close> returns\<close>
  "modify_memory_by_index cm st now index key value = mem_strcpy st index (page_text cm now key value)"

definition timestamp_at :: "commons \<Rightarrow> mem_state \<Rightarrow> int \<Rightarrow> int result" where
  "timestamp_at cm st index =
     rbind (main_memory_values cm st index TIMESTAMP) (\<lambda>t. rbind (deref t) (\<lambda>s. Inr (string_to_long_long s)))"

definition order_by_timestamp :: "commons \<Rightarrow> mem_state \<Rightarrow> int \<Rightarrow> int \<Rightarrow> bool result" where
  "order_by_timestamp cm st first_i second_i =
     rbind (timestamp_at cm st first_i) (\<lambda>t1. rbind (timestamp_at cm st second_i) (\<lambda>t2. Inr (t1 < t2)))"

section \<open>Segments and pages\<close>

definition get_segment_by_name :: "segment_t list \<Rightarrow> string \<Rightarrow> segment_t option" where
  "get_segment_by_name segs table_name = find (\<lambda>s. seg_name s = table_name) segs"

definition get_position_by_index :: "page_t list \<Rightarrow> int \<Rightarrow> int" where
  "get_position_by_index page_list index = index_or_minus_one (\<lambda>p. pg_index p = index) page_list"

definition get_page_by_index :: "segment_t \<Rightarrow> int \<Rightarrow> page_t option" where
  "get_page_by_index segment index = find (\<lambda>p. pg_index p = index) (seg_page segment)"

fun index_of_key :: "commons \<Rightarrow> mem_state \<Rightarrow> int list \<Rightarrow> string \<Rightarrow> (int option) result" where
  "index_of_key cm st [] str_key = Inr None"
| "index_of_key cm st (index # index_list) str_key =
     rbind (main_memory_values cm st index KEY) (\<lambda>v. rbind (deref v) (\<lambda>comparator.
     if comparator = str_key then Inr (Some index) else index_of_key cm st index_list str_key))"

definition get_page_by_key :: "commons \<Rightarrow> mem_state \<Rightarrow> segment_t \<Rightarrow> int list \<Rightarrow> int \<Rightarrow> (page_t option) result" where
  "get_page_by_key cm st segment index_list key =
     rbind (index_of_key cm st index_list (string_itoa cm key)) (\<lambda>r.
     Inr (case r of None \<Rightarrow> None | Some index \<Rightarrow> get_page_by_index segment index))"

definition page_get_index :: "page_t \<Rightarrow> int" where
  "page_get_index page = pg_index page"

definition create_page :: "int \<Rightarrow> bool \<Rightarrow> page_t" where
  "create_page index modified = \<lparr>pg_index = index, pg_modified = modified\<rparr>"

definition create_segment :: "commons \<Rightarrow> string \<Rightarrow> segment_t" where
  "create_segment cm table_name = \<lparr>seg_name = string_to_upper cm table_name, seg_page = []\<rparr>"

definition get_pages_by_modified :: "mem_state \<Rightarrow> bool \<Rightarrow> page_t list" where
  "get_pages_by_modified st modified =
     concat (map (\<lambda>s. filter (\<lambda>p. pg_modified p = modified) (seg_page s)) (g_segment_list st))"

definition get_segment_position_by_name :: "mem_state \<Rightarrow> string \<Rightarrow> int" where
  "get_segment_position_by_name st segment_name =
     index_or_minus_one (\<lambda>s. segment_name = seg_name s) (g_segment_list st)"

fun null_pages :: "mem_state \<Rightarrow> int list \<Rightarrow> mem_state result" where
  "null_pages st [] = Inr st"
| "null_pages st (index # indexes) = rbind (mem_strcpy st index ''null'') (\<lambda>st'. null_pages st' indexes)"

definition remove_segment :: "mem_state \<Rightarrow> segment_t \<Rightarrow> mem_state result" where
  "remove_segment st segment =
     rbind (null_pages st (map page_get_index (seg_page segment))) (\<lambda>st1.
     rbind (list_remove (g_segment_list st1) (get_segment_position_by_name st1 (seg_name segment))) (\<lambda>segs.
     Inr (st1\<lparr>g_segment_list := segs\<rparr>)))"

definition segment_has_page_by_index :: "segment_t \<Rightarrow> int \<Rightarrow> bool" where
  "segment_has_page_by_index segment index = list_ex (\<lambda>p. pg_index p = index) (seg_page segment)"

definition get_table_name_by_index :: "mem_state \<Rightarrow> int \<Rightarrow> string option" where
  "get_table_name_by_index st index_in_memory =
     map_option seg_name (find (\<lambda>s. segment_has_page_by_index s index_in_memory) (g_segment_list st))"

definition get_segment_by_index_global :: "mem_state \<Rightarrow> int \<Rightarrow> nat option" where
  \<comment> \<open>the position of the segment\<close>
  "get_segment_by_index_global st index =
     find (\<lambda>i. segment_has_page_by_index (g_segment_list st ! i) index) [0..<length (g_segment_list st)]"

fun remove_segments_from :: "nat \<Rightarrow> mem_state \<Rightarrow> mem_state result" where
  \<comment> \<open>the loop over \<open>i = n - 1, \<dots>, 0\<close>\<close>
  "remove_segments_from 0 st = Inr st"
| "remove_segments_from (Suc i) st =
     (if i < length (g_segment_list st)
      then rbind (remove_segment st (g_segment_list st ! i)) (remove_segments_from i)
      else Inl Null_Pointer)"

definition delete_all_segments :: "mem_state \<Rightarrow> mem_state result" where
  "delete_all_segments st = remove_segments_from (length (g_segment_list st)) st"

definition add_page :: "mem_state \<Rightarrow> string \<Rightarrow> page_t \<Rightarrow> mem_state" where
  \<comment> \<open>\<open>list_add(found_segment->page, page)\<close> for the segment \<open>get_segment_by_name\<close> found\<close>
  "add_page st table_name page =
     st\<lparr>g_segment_list := update_first (\<lambda>s. seg_name s = table_name)
          (\<lambda>s. s\<lparr>seg_page := seg_page s @ [page]\<rparr>) (g_segment_list st)\<rparr>"

definition set_modified :: "mem_state \<Rightarrow> string \<Rightarrow> int \<Rightarrow> mem_state" where
  \<comment> \<open>\<open>found_page->modified = true\<close> for the page of that index in the segment of that name\<close>
  "set_modified st table_name index =
     st\<lparr>g_segment_list := update_first (\<lambda>s. seg_name s = table_name)
          (\<lambda>s. s\<lparr>seg_page := update_first (\<lambda>p. pg_index p = index) (\<lambda>p. p\<lparr>pg_modified := True\<rparr>) (seg_page s)\<rparr>)
          (g_segment_list st)\<rparr>"

definition add_segment :: "mem_state \<Rightarrow> segment_t \<Rightarrow> mem_state" where
  "add_segment st segment = st\<lparr>g_segment_list := g_segment_list st @ [segment]\<rparr>"

definition eliminate_page_instance_by_index :: "commons \<Rightarrow> mem_state \<Rightarrow> int \<Rightarrow> string \<Rightarrow> mem_state result" where
  "eliminate_page_instance_by_index cm st index table_name =
     rbind (mem_strcpy st index ''null'') (\<lambda>st1.
     case get_segment_by_index_global st index of
       None \<Rightarrow> Inl Null_Pointer
     | Some k \<Rightarrow>
         let segment = g_segment_list st1 ! k;
             position = get_position_by_index (seg_page segment) index
         in if position \<noteq> -1 then
              rbind (list_remove (seg_page segment) position) (\<lambda>pages.
              let segment' = segment\<lparr>seg_page := pages\<rparr>;
                  st2 = st1\<lparr>g_segment_list := (g_segment_list st1)[k := segment']\<rparr>
              in if length pages = 0 \<and> \<not> string_equals_ignore_case cm table_name (seg_name segment')
                 then remove_segment st2 segment' else Inr st2)
            else Inr st1)"

fun list_add_multi_lists :: "commons \<Rightarrow> mem_state \<Rightarrow> int list \<Rightarrow> insert_input_t list result" where
  "list_add_multi_lists cm st [] = Inr []"
| "list_add_multi_lists cm st (index # pages_indexes) =
     rbind (main_memory_values cm st index TIMESTAMP) (\<lambda>timestamp.
     rbind (main_memory_values cm st index KEY) (\<lambda>key.
     rbind (deref timestamp) (\<lambda>timestamp.
     rbind (deref key) (\<lambda>key.
     rbind (main_memory_values cm st index VALUE) (\<lambda>value.
     rbind (deref value) (\<lambda>value.
     rbind (deref (get_table_name_by_index st index)) (\<lambda>name.
     rbind (list_add_multi_lists cm st pages_indexes) (\<lambda>rest.
     Inr (\<lparr>ins_table_name = name, ins_key = string_to_uint16 key, ins_value = value,
           ins_timestamp = string_to_long_long timestamp\<rparr> # rest)))))))))"

definition indexes_sorted :: "commons \<Rightarrow> mem_state \<Rightarrow> int list \<Rightarrow> int list result" where
  \<comment> \<open>\<open>list_sorted(indexes, order_by_timestamp)\<close>: sorting two elements or more compares every one of them\<close>
  "indexes_sorted cm st indexes =
     (if length indexes > 1 \<and> list_ex (\<lambda>i. isl (timestamp_at cm st i)) indexes then Inl Out_Of_Bounds
      else Inr (list_sorted cm (\<lambda>a b. order_by_timestamp cm st a b = Inr True) indexes))"

definition init_main_memory :: "mem_state \<Rightarrow> bytes \<Rightarrow> mem_state result" where
  \<comment> \<open>\<open>fresh\<close> is what \<open>malloc(g_config.memory_size)\<close> returns\<close>
  "init_main_memory st fresh =
     null_pages (st\<lparr>g_main_memory := fresh\<rparr>)
       (map (\<lambda>i. int i * g_total_page_size st) [0..<nat (g_total_page_count st)])"

definition sem_wait :: "mem_state \<Rightarrow> mem_state result" where
  "sem_wait st =
     (if g_mem_op_semaphore st > 0 then Inr (st\<lparr>g_mem_op_semaphore := g_mem_op_semaphore st - 1\<rparr>)
      else Inl Blocked)"

definition sem_post_neg :: "mem_state \<Rightarrow> mem_state" where
  "sem_post_neg st =
     (if g_mem_op_semaphore st \<le> 0 then st\<lparr>g_mem_op_semaphore := g_mem_op_semaphore st + 1\<rparr> else st)"

end
