(* ===== verification/Mem_Inv.thy ===== *)
theory Mem_Inv
  imports Mem_Tables
begin

text \<open>
  What main memory holds, abstractly: the function \<open>g\<close> gives the entry of every page (\<open>None\<close> for a
  free one). \<open>mem_inv st g\<close> relates it to the buffer and to the segment table; the lemmas say what
  each operation of \<open>Mem_Tables\<close> does to both and that, under the invariant, no string operation
  leaves the buffer.
\<close>

type_synonym entry = "int \<times> int \<times> string"

abbreviation psz :: "mem_state \<Rightarrow> nat" where
  "psz st \<equiv> nat (g_total_page_size st)"

abbreviation pcount :: "mem_state \<Rightarrow> nat" where
  "pcount st \<equiv> nat (g_total_page_count st)"

fun entry_text :: "entry option \<Rightarrow> string" where
  "entry_text None = ''null''"
| "entry_text (Some (ts, k, v)) = dec_int ts @ CHR '';'' # dec_int k @ CHR '';'' # v"

definition page_ok :: "nat \<Rightarrow> bytes \<Rightarrow> nat \<Rightarrow> entry option \<Rightarrow> bool" where
  "page_ok sz buf i e \<longleftrightarrow>
     NUL \<in> set (take sz (drop (i * sz) buf)) \<and> cstr (take sz (drop (i * sz) buf)) = entry_text e"

definition pages_ok :: "mem_state \<Rightarrow> (nat \<Rightarrow> entry option) \<Rightarrow> bool" where
  "pages_ok st g \<longleftrightarrow> pcount st * psz st \<le> length (g_main_memory st) \<and>
     (\<forall>i < pcount st. page_ok (psz st) (g_main_memory st) i (g i))"

definition geometry_ok :: "mem_state \<Rightarrow> bool" where
  "geometry_ok st \<longleftrightarrow> 0 \<le> g_value_size st \<and> g_value_size st + 9 \<le> g_total_page_size st"

definition value_ok :: "mem_state \<Rightarrow> string \<Rightarrow> bool" where
  "value_ok st v \<longleftrightarrow> v \<noteq> [] \<and> CHR '';'' \<notin> set v \<and> no_nul v \<and> int (length v) \<le> g_value_size st"

definition time_ok :: "mem_state \<Rightarrow> int \<Rightarrow> bool" where
  \<comment> \<open>the numeral fits the space \<open>get_value_callback\<close> leaves for it\<close>
  "time_ok st ts \<longleftrightarrow> fits_long ts \<and>
     int (length (dec_int ts)) \<le> g_total_page_size st - g_value_size st - 8"

definition key_ok :: "int \<Rightarrow> bool" where
  "key_ok k \<longleftrightarrow> 0 \<le> k \<and> k \<le> 65535"

fun entry_ok :: "mem_state \<Rightarrow> entry \<Rightarrow> bool" where
  "entry_ok st (ts, k, v) \<longleftrightarrow> time_ok st ts \<and> key_ok k \<and> value_ok st v"

section \<open>The pages of the buffer\<close>

lemma length_dec_nat_key: "n \<le> 65535 \<Longrightarrow> length (dec_nat n) \<le> 5"
  using length_dec_nat_mono [of n 65535] by (simp add: dec_nat.simps)

lemma key_digits: "key_ok k \<Longrightarrow> length (dec_int k) \<le> 5"
  using length_dec_nat_key [of "nat k"] by (auto simp: key_ok_def dec_int_def)

lemma entry_text_fits:
  assumes "geometry_ok st" "\<And>x. e = Some x \<Longrightarrow> entry_ok st x"
  shows "length (entry_text e) < psz st"
proof (cases e)
  case None
  moreover have "9 \<le> psz st" using assms(1) by (simp add: geometry_ok_def le_nat_iff)
  ultimately show ?thesis by simp
next
  case (Some x)
  then obtain ts k v where e: "e = Some (ts, k, v)" "entry_ok st (ts, k, v)"
    using assms(2) by (metis prod_cases3)
  then show ?thesis
    using key_digits [of k] assms(1)
    by (simp add: time_ok_def value_ok_def geometry_ok_def zless_nat_eq_int_zless)
qed

lemma no_nul_entry_text:
  assumes "\<And>x. e = Some x \<Longrightarrow> entry_ok st x"
  shows "no_nul (entry_text e)"
proof (cases e)
  case (Some x)
  then obtain ts k v where "e = Some (ts, k, v)" "no_nul v"
    using assms by (metis entry_ok.simps prod_cases3 value_ok_def)
  then show ?thesis by (simp add: NUL_def)
qed (simp add: NUL_def)

lemma page_end_le: "i < n \<Longrightarrow> n * sz \<le> len \<Longrightarrow> i * sz + sz \<le> (len :: nat)"
  using mult_le_mono1 [of "Suc i" n sz] by simp

lemma page_ok_store_same:
  assumes "i * sz + sz \<le> length buf" "length s < sz" "no_nul s" "s = entry_text e"
  shows "page_ok sz (store_at (i * sz) (cstr_bytes s) buf) i e"
proof -
  have "drop (i * sz) (store_at (i * sz) (cstr_bytes s) buf) = cstr_bytes s @ drop (i * sz + Suc (length s)) buf"
    using assms by (simp add: drop_store_at_same length_cstr_bytes)
  moreover have "take sz (cstr_bytes s @ r) = cstr_bytes s @ take (sz - Suc (length s)) r" for r
    using assms(2) by (simp add: length_cstr_bytes)
  ultimately show ?thesis
    using assms by (simp add: page_ok_def) (simp add: cstr_bytes_def)
qed

lemma page_ok_store_other:
  assumes "i * sz + sz \<le> length buf" "length s < sz" "j \<noteq> i"
  shows "page_ok sz (store_at (i * sz) (cstr_bytes s) buf) j e \<longleftrightarrow> page_ok sz buf j e"
proof -
  have "take sz (drop (j * sz) (store_at (i * sz) (cstr_bytes s) buf)) = take sz (drop (j * sz) buf)"
  proof (cases "j < i")
    case True
    then have "j * sz + sz \<le> i * sz" using mult_le_mono1 [of "Suc j" i sz] by simp
    then show ?thesis using assms(1) by (intro take_drop_store_at_before) auto
  next
    case False
    with assms(3) have "Suc i \<le> j" by simp
    then have "i * sz + sz \<le> j * sz" using mult_le_mono1 [of "Suc i" j sz] by simp
    then have "drop (j * sz) (store_at (i * sz) (cstr_bytes s) buf) = drop (j * sz) buf"
      using assms by (intro drop_store_at_after) (auto simp: length_cstr_bytes)
    then show ?thesis by simp
  qed
  then show ?thesis by (simp add: page_ok_def)
qed

text \<open>Reading a page, and writing an entry (or \<open>null\<close>) over it: the other pages do not change.\<close>

lemma mem_string_page [mem_simps]:
  assumes "pages_ok st g" "geometry_ok st" "i < pcount st"
  shows "mem_string st (int i * g_total_page_size st) = Inr (entry_text (g i))"
proof -
  let ?rest = "drop (i * psz st) (g_main_memory st)"
  have p: "NUL \<in> set (take (psz st) ?rest)" "cstr (take (psz st) ?rest) = entry_text (g i)"
    using assms by (auto simp: pages_ok_def page_ok_def)
  then have "NUL \<in> set ?rest" by (meson in_set_takeD)
  moreover have "nat (int i * g_total_page_size st) = i * psz st"
    by (simp add: nat_mult_distrib)
  moreover have "0 \<le> int i * g_total_page_size st" using assms(2) by (simp add: geometry_ok_def)
  ultimately show ?thesis
    using p cstr_take [OF p(1)] by (simp add: mem_string_def not_less)
qed

lemma mem_strcpy_page:
  assumes "pages_ok st g" "geometry_ok st" "i < pcount st" "\<And>x. e = Some x \<Longrightarrow> entry_ok st x"
  obtains buf where
    "mem_strcpy st (int i * g_total_page_size st) (entry_text e) = Inr (st\<lparr>g_main_memory := buf\<rparr>)"
    "pages_ok (st\<lparr>g_main_memory := buf\<rparr>) (g(i := e))" "length buf = length (g_main_memory st)"
proof -
  let ?s = "entry_text e" and ?buf = "store_at (i * psz st) (cstr_bytes (entry_text e)) (g_main_memory st)"
  have sz: "length ?s < psz st" "no_nul ?s"
    using entry_text_fits no_nul_entry_text assms(2,4) by blast+
  have e: "i * psz st + psz st \<le> length (g_main_memory st)"
    using assms(1,3) by (simp add: pages_ok_def page_end_le)
  have n: "nat (int i * g_total_page_size st) = i * psz st" "0 \<le> int i * g_total_page_size st"
    "int (i * psz st) = int i * g_total_page_size st"
    using assms(2) by (simp_all add: nat_mult_distrib geometry_ok_def)
  have "int i * g_total_page_size st + int (length ?s) + 1 \<le> int (length (g_main_memory st))"
    using e sz n(3) by linarith
  then have w: "mem_strcpy st (int i * g_total_page_size st) ?s = Inr (st\<lparr>g_main_memory := ?buf\<rparr>)"
    using n(1,2) by (auto simp: mem_strcpy_def)
  have l: "length ?buf = length (g_main_memory st)"
    using e sz by (simp add: length_cstr_bytes)
  have "pages_ok (st\<lparr>g_main_memory := ?buf\<rparr>) (g(i := e))"
    unfolding pages_ok_def
  proof (intro conjI allI impI)
    show "pcount (st\<lparr>g_main_memory := ?buf\<rparr>) * psz (st\<lparr>g_main_memory := ?buf\<rparr>)
        \<le> length (g_main_memory (st\<lparr>g_main_memory := ?buf\<rparr>))"
      using assms(1) l by (simp add: pages_ok_def)
  next
    fix j assume j: "j < pcount (st\<lparr>g_main_memory := ?buf\<rparr>)"
    show "page_ok (psz (st\<lparr>g_main_memory := ?buf\<rparr>)) (g_main_memory (st\<lparr>g_main_memory := ?buf\<rparr>)) j
        ((g(i := e)) j)"
    proof (cases "j = i")
      case True
      with page_ok_store_same [OF e sz refl] show ?thesis by simp
    next
      case False
      with page_ok_store_other [OF e sz(1) False] j assms(1) show ?thesis by (simp add: pages_ok_def)
    qed
  qed
  with w l that show ?thesis by blast
qed

lemma free_page_spec:
  assumes "pages_ok st g" "geometry_ok st" "set is \<subseteq> {..<pcount st}"
    "\<And>i x. i < pcount st \<Longrightarrow> g i = Some x \<Longrightarrow> entry_ok st x"
  shows "free_page st is = Inr (find (\<lambda>i. g i = None) is)"
  using assms(3)
proof (induction "is")
  case (Cons i "is")
  then have i: "i < pcount st" by simp
  have "entry_text (g i) = ''null'' \<longleftrightarrow> g i = None"
  proof (cases "g i")
    case (Some x)
    obtain ts k v where x: "x = (ts, k, v)" by (cases x)
    have "CHR '';'' \<in> set (entry_text (g i))" using Some x by simp
    then have "entry_text (g i) \<noteq> ''null''" by (intro notI) simp
    with Some show ?thesis by simp
  qed simp
  with Cons mem_string_page [OF assms(1,2) i] show ?case by simp
qed simp

type_synonym contents = "nat \<Rightarrow> entry option"

definition table_pages :: "segment_t list \<Rightarrow> page_t list" where
  "table_pages segs = concat (map seg_page segs)"

definition page_no :: "int \<Rightarrow> page_t \<Rightarrow> nat" where
  "page_no sz p = nat (pg_index p div sz)"

definition page_key :: "int \<Rightarrow> contents \<Rightarrow> page_t \<Rightarrow> int" where
  "page_key sz g p = fst (snd (the (g (page_no sz p))))"

definition used_pages :: "int \<Rightarrow> nat \<Rightarrow> contents \<Rightarrow> int set" where
  "used_pages sz n g = (\<lambda>i. int i * sz) ` {i. i < n \<and> g i \<noteq> None}"

text \<open>
  The invariant. The buffer holds what \<open>g\<close> says and every entry can be read back; the pages of the
  segments are exactly the pages in use, each in one segment once; table names are different and
  in upper case, and so are the keys of a segment different.
\<close>

definition entries_ok :: "mem_state \<Rightarrow> contents \<Rightarrow> bool" where
  "entries_ok st g \<longleftrightarrow> (\<forall>i < pcount st. \<forall>x. g i = Some x \<longrightarrow> entry_ok st x)"

definition buffer_ok :: "mem_state \<Rightarrow> contents \<Rightarrow> bool" where
  "buffer_ok st g \<longleftrightarrow> geometry_ok st \<and> pages_ok st g \<and> entries_ok st g"

definition names_ok :: "segment_t list \<Rightarrow> bool" where
  "names_ok segs \<longleftrightarrow> distinct (map seg_name segs) \<and> (\<forall>s \<in> set segs. map upc (seg_name s) = seg_name s)"

definition segs_ok :: "int \<Rightarrow> nat \<Rightarrow> contents \<Rightarrow> segment_t list \<Rightarrow> bool" where
  "segs_ok sz n g segs \<longleftrightarrow> names_ok segs \<and>
     (\<forall>s \<in> set segs. distinct (map (page_key sz g) (seg_page s))) \<and>
     distinct (map pg_index (table_pages segs)) \<and>
     pg_index ` set (table_pages segs) = used_pages sz n g"

definition mem_inv :: "mem_state \<Rightarrow> contents \<Rightarrow> bool" where
  "mem_inv st g \<longleftrightarrow> buffer_ok st g \<and> segs_ok (g_total_page_size st) (pcount st) g (g_segment_list st)"

lemma mem_invD:
  assumes "mem_inv st g"
  shows "geometry_ok st" "pages_ok st g" "entries_ok st g"
    "segs_ok (g_total_page_size st) (pcount st) g (g_segment_list st)" "buffer_ok st g"
  using assms by (simp_all add: mem_inv_def buffer_ok_def)

lemma free_page_inv [mem_simps]:
  assumes "buffer_ok st g"
  shows "free_page st [0..<pcount st] = Inr (find (\<lambda>i. g i = None) [0..<pcount st])"
  using assms by (intro free_page_spec) (auto simp: buffer_ok_def entries_ok_def)

lemma geometry_pos: "geometry_ok st \<Longrightarrow> 0 < g_total_page_size st"
  by (simp add: geometry_ok_def)

lemma page_no_index [mem_simps]: "0 < sz \<Longrightarrow> pg_index p = int i * sz \<Longrightarrow> page_no sz p = i"
  by (simp add: page_no_def)

lemma used_page_no:
  assumes "0 < sz" "pg_index p \<in> used_pages sz n g"
  shows "page_no sz p < n" "pg_index p = int (page_no sz p) * sz" "g (page_no sz p) \<noteq> None"
proof -
  obtain i where i: "i < n" "g i \<noteq> None" "pg_index p = int i * sz"
    using assms(2) unfolding used_pages_def by blast
  with assms(1) page_no_index [of sz p i]
  show "page_no sz p < n" "pg_index p = int (page_no sz p) * sz" "g (page_no sz p) \<noteq> None" by simp_all
qed

lemma segs_page_used:
  "segs_ok sz n g segs \<Longrightarrow> p \<in> set (table_pages segs) \<Longrightarrow> pg_index p \<in> used_pages sz n g"
  unfolding segs_ok_def by blast

lemma table_page_entry:
  assumes "mem_inv st g" "p \<in> set (table_pages (g_segment_list st))"
  obtains ts k v where "page_no (g_total_page_size st) p < pcount st"
    "pg_index p = int (page_no (g_total_page_size st) p) * g_total_page_size st"
    "g (page_no (g_total_page_size st) p) = Some (ts, k, v)" "entry_ok st (ts, k, v)"
    "page_key (g_total_page_size st) g p = k"
proof -
  let ?i = "page_no (g_total_page_size st) p"
  note i = used_page_no [OF geometry_pos [OF mem_invD(1) [OF assms(1)]]
      segs_page_used [OF mem_invD(4) [OF assms(1)] assms(2)]]
  obtain ts k v where "g ?i = Some (ts, k, v)" using i(3) by (metis not_None_eq prod_cases3)
  moreover from this have "entry_ok st (ts, k, v)"
    using mem_invD(3) [OF assms(1)] i(1) by (auto simp: entries_ok_def)
  ultimately show ?thesis using i that [of ts k v] by (simp add: page_key_def)
qed

lemma segment_pages_table: "s \<in> set segs \<Longrightarrow> p \<in> set (seg_page s) \<Longrightarrow> p \<in> set (table_pages segs)"
  by (auto simp: table_pages_def)

section \<open>Reading entries\<close>

context commons_api
begin

lemma page_text_entry [mem_simps]: "page_text cm ts k v = entry_text (Some (ts, k, v))"
  by (simp add: page_text_def itoa)

lemma entry_split:
  assumes "value_ok st v"
  shows "string_split cm (entry_text (Some (ts, k, v))) (CHR '';'') = [dec_int ts, dec_int k, v]"
proof -
  have "CHR '';'' \<notin> set (dec_int x)" for x by (rule dec_int_notin) auto
  then show ?thesis
    using split3 [of "dec_int ts" "dec_int k" v "CHR '';''"] assms by (simp add: value_ok_def)
qed

lemma main_memory_values_entry:
  assumes "buffer_ok st g" "i < pcount st" "g i = Some (ts, k, v)"
  shows "main_memory_values cm st (int i * g_total_page_size st) TIMESTAMP = Inr (Some (dec_int ts))"
    "main_memory_values cm st (int i * g_total_page_size st) KEY = Inr (Some (dec_int k))"
    "main_memory_values cm st (int i * g_total_page_size st) VALUE = Inr (Some v)"
proof -
  have ok: "geometry_ok st" "pages_ok st g" "value_ok st v"
    using assms by (auto simp: buffer_ok_def entries_ok_def)
  note r = mem_string_page [OF ok(2,1) assms(2)] entry_split [OF ok(3)]
  show "main_memory_values cm st (int i * g_total_page_size st) TIMESTAMP = Inr (Some (dec_int ts))"
    "main_memory_values cm st (int i * g_total_page_size st) KEY = Inr (Some (dec_int k))"
    "main_memory_values cm st (int i * g_total_page_size st) VALUE = Inr (Some v)"
    using r by (simp_all add: main_memory_values_def assms(3) del: entry_text.simps)
qed

lemma timestamp_at_entry:
  assumes "buffer_ok st g" "i < pcount st" "g i = Some (ts, k, v)"
  shows "timestamp_at cm st (int i * g_total_page_size st) = Inr ts"
proof -
  have "fits_long ts" using assms by (auto simp: buffer_ok_def entries_ok_def time_ok_def)
  then show ?thesis
    using main_memory_values_entry(1) [OF assms] by (simp add: timestamp_at_def deref_def)
qed

text \<open>Looking a key up in a segment.\<close>

lemma index_of_key_spec:
  assumes "mem_inv st g" "set ps \<subseteq> set (table_pages (g_segment_list st))"
  shows "index_of_key cm st (map page_get_index ps) (string_itoa cm key) =
    Inr (map_option pg_index (find (\<lambda>p. page_key (g_total_page_size st) g p = key) ps))"
  using assms(2)
proof (induction ps)
  case (Cons p ps)
  then have "p \<in> set (table_pages (g_segment_list st))" by simp
  then obtain ts k v where p: "page_no (g_total_page_size st) p < pcount st"
    "pg_index p = int (page_no (g_total_page_size st) p) * g_total_page_size st" "g (page_no (g_total_page_size st) p) = Some (ts, k, v)"
    "page_key (g_total_page_size st) g p = k"
    using table_page_entry [OF assms(1)] by metis
  with Cons main_memory_values_entry(2) [OF mem_invD(5) [OF assms(1)] p(1,3)] show ?case
    by (auto simp: page_get_index_def deref_def itoa)
qed simp

end

lemma find_index_distinct:
  "distinct (map pg_index ps) \<Longrightarrow> find P ps = Some p \<Longrightarrow> find (\<lambda>q. pg_index q = pg_index p) ps = Some p"
proof (induction ps)
  case (Cons q ps)
  show ?case
  proof (cases "P q")
    case False
    with Cons.prems have f: "find P ps = Some p" by simp
    then have "p \<in> set ps" by (auto simp: find_Some_iff)
    with Cons.prems(1) have "pg_index q \<noteq> pg_index p" by (auto simp: image_iff)
    with f Cons show ?thesis by simp
  qed (use Cons.prems in simp)
qed simp

lemma distinct_concat_member: "distinct (concat xss) \<Longrightarrow> xs \<in> set xss \<Longrightarrow> distinct xs"
  by (induction xss) auto

lemma segment_indexes_distinct:
  assumes "mem_inv st g" "s \<in> set (g_segment_list st)"
  shows "distinct (map pg_index (seg_page s))"
proof -
  have "distinct (concat (map (\<lambda>s. map pg_index (seg_page s)) (g_segment_list st)))"
    using assms(1) by (simp add: mem_inv_def segs_ok_def table_pages_def map_concat comp_def)
  then show ?thesis using assms(2) by (auto dest!: distinct_concat_member)
qed

context commons_api
begin

lemma get_page_by_key_spec:
  assumes "mem_inv st g" "s \<in> set (g_segment_list st)"
  shows "get_page_by_key cm st s (map page_get_index (seg_page s)) key =
    Inr (find (\<lambda>p. page_key (g_total_page_size st) g p = key) (seg_page s))"
proof -
  have "set (seg_page s) \<subseteq> set (table_pages (g_segment_list st))"
    using assms(2) segment_pages_table by blast
  from index_of_key_spec [OF assms(1) this] segment_indexes_distinct [OF assms] show ?thesis
    by (auto simp: get_page_by_key_def get_page_by_index_def split: option.splits
        intro: find_index_distinct)
qed

end

end
