(* ===== verification/Mem_Cache.thy ===== *)
theory Mem_Cache
  imports Mem_Inv
begin

text \<open>
  The abstract state of a memory: a map from table and key to timestamp, value and dirty flag.
  \<open>cache\<close> computes it from the segment table and the contents of the pages; the lemmas of this
  theory say how it changes when a page or a segment is added, rewritten or removed, and that the
  invariant of the segment table survives.
\<close>

type_synonym cache_map = "string \<times> int \<Rightarrow> (int \<times> string \<times> bool) option"

definition entry_of :: "int \<Rightarrow> contents \<Rightarrow> string \<Rightarrow> page_t \<Rightarrow> (string \<times> int) \<times> (int \<times> string \<times> bool)" where
  "entry_of sz g name p = (case the (g (page_no sz p)) of (ts, k, v) \<Rightarrow> ((name, k), (ts, v, pg_modified p)))"

definition seg_entries :: "int \<Rightarrow> contents \<Rightarrow> segment_t \<Rightarrow> ((string \<times> int) \<times> (int \<times> string \<times> bool)) list" where
  "seg_entries sz g s = map (entry_of sz g (seg_name s)) (seg_page s)"

definition cache_entries :: "int \<Rightarrow> contents \<Rightarrow> segment_t list \<Rightarrow> ((string \<times> int) \<times> (int \<times> string \<times> bool)) list" where
  "cache_entries sz g segs = concat (map (seg_entries sz g) segs)"

definition cache :: "int \<Rightarrow> contents \<Rightarrow> segment_t list \<Rightarrow> cache_map" where
  "cache sz g segs = map_of (cache_entries sz g segs)"

lemma fst_entry_of: "fst (entry_of sz g name p) = (name, page_key sz g p)"
  by (simp add: entry_of_def page_key_def split: prod.splits)

lemma find_split:
  "find P xs = Some x \<Longrightarrow> \<exists>A B. xs = A @ x # B \<and> P x \<and> (\<forall>y \<in> set A. \<not> P y)"
proof (induction xs)
  case (Cons y ys)
  show ?case
  proof (cases "P y")
    case True
    with Cons.prems show ?thesis by (intro exI [of _ "[]"] exI [of _ ys]) simp
  next
    case False
    with Cons obtain A B where "ys = A @ x # B" "P x" "\<forall>y \<in> set A. \<not> P y" by auto
    with False show ?thesis by (intro exI [of _ "y # A"] exI [of _ B]) auto
  qed
qed simp

lemma map_of_insert_mid:
  assumes "distinct (map fst (xs @ (k, v) # ys))"
  shows "map_of (xs @ (k, v) # ys) = (map_of (xs @ ys))(k \<mapsto> v)"
    and "map_of (xs @ ys) = (map_of (xs @ (k, v) # ys))(k := None)"
proof -
  have k: "k \<notin> fst ` set xs" "k \<notin> fst ` set ys" using assms by auto
  then have "map_of xs k = None" "map_of ys k = None" by (simp_all add: map_of_eq_None_iff)
  then show "map_of (xs @ (k, v) # ys) = (map_of (xs @ ys))(k \<mapsto> v)"
    "map_of (xs @ ys) = (map_of (xs @ (k, v) # ys))(k := None)"
    by (auto simp: fun_eq_iff map_add_def split: option.splits)
qed

lemma distinct_insert_mid: "distinct (xs @ ys @ zs) \<Longrightarrow> x \<notin> set (xs @ ys @ zs) \<Longrightarrow> distinct (xs @ (ys @ [x]) @ zs)"
  by auto

lemma table_pages_split [simp]:
  "table_pages (A @ s # B) = table_pages A @ seg_page s @ table_pages B"
  by (simp add: table_pages_def)

lemma table_pages_Nil [simp]: "table_pages [] = []"
  by (simp add: table_pages_def)

lemma cache_entries_split [simp]:
  "cache_entries sz g (A @ s # B) = cache_entries sz g A @ seg_entries sz g s @ cache_entries sz g B"
  by (simp add: cache_entries_def)

lemma cache_entries_append:
  "cache_entries sz g (A @ B) = cache_entries sz g A @ cache_entries sz g B"
  by (simp add: cache_entries_def)

text \<open>Under the invariant no table and key occurs twice.\<close>

lemma fst_seg_entries: "map fst (seg_entries sz g s) = map (\<lambda>p. (seg_name s, page_key sz g p)) (seg_page s)"
  by (simp add: seg_entries_def comp_def fst_entry_of)

lemma cache_entries_name: "x \<in> set (cache_entries sz g segs) \<Longrightarrow> fst (fst x) \<in> seg_name ` set segs"
  by (auto simp: cache_entries_def seg_entries_def fst_entry_of)

lemma cache_entries_distinct:
  assumes "distinct (map seg_name segs)" "\<forall>s \<in> set segs. distinct (map (page_key sz g) (seg_page s))"
  shows "distinct (map fst (cache_entries sz g segs))"
  using assms
proof (induction segs)
  case (Cons s segs)
  have "distinct (map fst (seg_entries sz g s))"
    using Cons.prems(2) by (simp add: fst_seg_entries distinct_map inj_on_def)
  moreover have "fst ` set (seg_entries sz g s) \<inter> fst ` set (cache_entries sz g segs) = {}"
  proof -
    have "fst (fst x) = seg_name s" if "x \<in> set (seg_entries sz g s)" for x
      using that by (auto simp: seg_entries_def fst_entry_of)
    moreover have "fst (fst x) \<noteq> seg_name s" if "x \<in> set (cache_entries sz g segs)" for x
      using cache_entries_name [OF that] Cons.prems(1) by auto
    ultimately have "fst x \<noteq> fst y" if "x \<in> set (seg_entries sz g s)" "y \<in> set (cache_entries sz g segs)" for x y
      using that by metis
    then show ?thesis by blast
  qed
  ultimately show ?case using Cons by (simp add: cache_entries_def)
qed (simp add: cache_entries_def)

lemma segs_ok_distinct: "segs_ok sz n g segs \<Longrightarrow> distinct (map fst (cache_entries sz g segs))"
  by (rule cache_entries_distinct) (simp_all add: segs_ok_def names_ok_def)

text \<open>Changing the contents of a page that none of these segments has.\<close>

lemma page_key_frame: "page_no sz p \<noteq> i \<Longrightarrow> page_key sz (g(i := e)) p = page_key sz g p"
  by (simp add: page_key_def)

lemma seg_entries_frame:
  "\<forall>p \<in> set (seg_page s). page_no sz p \<noteq> i \<Longrightarrow> seg_entries sz (g(i := e)) s = seg_entries sz g s"
  by (simp add: seg_entries_def entry_of_def)

lemma cache_entries_frame:
  "\<forall>p \<in> set (table_pages segs). page_no sz p \<noteq> i \<Longrightarrow> cache_entries sz (g(i := e)) segs = cache_entries sz g segs"
  by (induction segs) (simp_all add: cache_entries_def table_pages_def seg_entries_frame)

lemma keys_frame:
  "\<forall>p \<in> set (table_pages segs). page_no sz p \<noteq> i \<Longrightarrow>
   (\<forall>s \<in> set segs. distinct (map (page_key sz g) (seg_page s))) \<Longrightarrow>
   (\<forall>s \<in> set segs. distinct (map (page_key sz (g(i := e))) (seg_page s)))"
proof (intro ballI)
  fix s assume *: "\<forall>p \<in> set (table_pages segs). page_no sz p \<noteq> i"
    "\<forall>s \<in> set segs. distinct (map (page_key sz g) (seg_page s))" "s \<in> set segs"
  then have eq: "map (page_key sz (g(i := e))) (seg_page s) = map (page_key sz g) (seg_page s)"
    using segment_pages_table by (auto intro!: page_key_frame)
  from * show "distinct (map (page_key sz (g(i := e))) (seg_page s))" unfolding eq by blast
qed

lemma used_pages_add: "i < n \<Longrightarrow> used_pages sz n (g(i := Some e)) = insert (int i * sz) (used_pages sz n g)"
proof -
  assume "i < n"
  then have "{j. j < n \<and> (g(i := Some e)) j \<noteq> None} = insert i {j. j < n \<and> g j \<noteq> None}"
    by (cases e) auto
  then show ?thesis by (simp only: used_pages_def image_insert)
qed

lemma used_pages_remove: "0 < sz \<Longrightarrow> used_pages sz n (g(i := None)) = used_pages sz n g - {int i * sz}"
proof -
  assume "0 < sz"
  then have inj: "inj (\<lambda>i. int i * sz)" by (simp add: inj_on_def)
  have "{j. j < n \<and> (g(i := None)) j \<noteq> None} = {j. j < n \<and> g j \<noteq> None} - {i}" by auto
  then show ?thesis
    by (simp only: used_pages_def image_set_diff [OF inj] image_insert image_empty)
qed

lemma segs_pages_no:
  assumes "segs_ok sz n g segs" "0 < sz" "g i = None"
  shows "\<forall>p \<in> set (table_pages segs). page_no sz p \<noteq> i"
proof
  fix p assume "p \<in> set (table_pages segs)"
  then have "g (page_no sz p) \<noteq> None"
    using segs_page_used [OF assms(1)] used_page_no(3) [OF assms(2)] by blast
  with assms(3) show "page_no sz p \<noteq> i" by metis
qed

section \<open>Adding a page\<close>

lemma add_page_segs:
  assumes ok: "segs_ok sz n g (A @ s # B)" and sz: "0 < sz" and i: "i < n" "g i = None"
    and p: "pg_index p = int i * sz" and k: "k \<notin> page_key sz g ` set (seg_page s)"
    and g'_def: "g' = g(i := Some (ts, k, v))" and s'_def: "s' = s\<lparr>seg_page := seg_page s @ [p]\<rparr>"
  shows "segs_ok sz n g' (A @ s' # B)"
    and "cache sz g' (A @ s' # B) = (cache sz g (A @ s # B))((seg_name s, k) \<mapsto> (ts, v, pg_modified p))"
proof -
  have no: "\<forall>p \<in> set (table_pages (A @ s # B)). page_no sz p \<noteq> i"
    by (rule segs_pages_no [OF ok sz i(2)])
  have pn: "page_no sz p = i" by (rule page_no_index [OF sz p])
  then have pk: "page_key sz g' p = k" by (simp add: page_key_def g'_def)
  have new: "int i * sz \<notin> pg_index ` set (table_pages (A @ s # B))"
    using no page_no_index [OF sz, of _ i] by (metis imageE)
  have keys: "\<forall>t \<in> set (A @ s # B). distinct (map (page_key sz g') (seg_page t))"
    unfolding g'_def by (rule keys_frame [OF no]) (use ok in \<open>simp add: segs_ok_def\<close>)
  have ks: "page_key sz g' q = page_key sz g q" if "q \<in> set (seg_page s)" for q
    unfolding g'_def using no that by (auto intro!: page_key_frame)
  have "distinct (map (page_key sz g') (seg_page s'))"
  proof -
    have "distinct (map (page_key sz g) (seg_page s))"
      using ok by (simp add: segs_ok_def)
    then have "distinct (map (page_key sz g) (seg_page s) @ [k])" using k by simp
    moreover have "map (page_key sz g') (seg_page s') = map (page_key sz g) (seg_page s) @ [k]"
      by (simp add: s'_def pk ks)
    ultimately show ?thesis by (simp only:)
  qed
  moreover have "distinct (map pg_index (table_pages (A @ s' # B)))"
  proof -
    have "distinct (map pg_index (table_pages A) @ map pg_index (seg_page s) @ map pg_index (table_pages B))"
      using ok by (simp add: segs_ok_def)
    moreover have "pg_index p \<notin> set (map pg_index (table_pages A) @ map pg_index (seg_page s) @ map pg_index (table_pages B))"
      using new by (simp add: p image_Un)
    ultimately show ?thesis
      using distinct_insert_mid by (simp add: s'_def)
  qed
  moreover have "pg_index ` set (table_pages (A @ s' # B)) = used_pages sz n g'"
  proof -
    have "pg_index ` set (table_pages (A @ s' # B)) = insert (pg_index p) (pg_index ` set (table_pages (A @ s # B)))"
      by (auto simp: s'_def)
    then show ?thesis using ok p by (simp add: segs_ok_def g'_def used_pages_add [OF i(1)])
  qed
  moreover have "names_ok (A @ s' # B)"
    using ok by (simp add: segs_ok_def names_ok_def s'_def)
  ultimately show ok': "segs_ok sz n g' (A @ s' # B)"
    using keys by (simp add: segs_ok_def)
  have fr: "cache_entries sz g' A = cache_entries sz g A" "cache_entries sz g' B = cache_entries sz g B"
    "seg_entries sz g' s = seg_entries sz g s"
    unfolding g'_def using no by (auto intro!: cache_entries_frame seg_entries_frame)
  have s': "seg_entries sz g' s' = seg_entries sz g s @ [((seg_name s, k), (ts, v, pg_modified p))]"
    using fr(3) pn by (simp add: seg_entries_def s'_def entry_of_def g'_def)
  let ?xs = "cache_entries sz g A @ seg_entries sz g s" and ?ys = "cache_entries sz g B"
  have "distinct (map fst (?xs @ ((seg_name s, k), (ts, v, pg_modified p)) # ?ys))"
    using segs_ok_distinct [OF ok'] by (simp add: fr s')
  from map_of_insert_mid(1) [OF this] show "cache sz g' (A @ s' # B) = (cache sz g (A @ s # B))((seg_name s, k) \<mapsto> (ts, v, pg_modified p))"
    by (simp add: cache_def fr s')
qed

section \<open>Adding and removing an empty segment\<close>

lemma empty_segment:
  assumes "seg_page s = []"
  shows "segs_ok sz n g (A @ s # B) \<longleftrightarrow>
      segs_ok sz n g (A @ B) \<and> seg_name s \<notin> seg_name ` set (A @ B) \<and> map upc (seg_name s) = seg_name s"
    and "cache sz g (A @ s # B) = cache sz g (A @ B)"
proof -
  have t: "table_pages (A @ s # B) = table_pages (A @ B)"
    using assms by (simp add: table_pages_def)
  show "segs_ok sz n g (A @ s # B) \<longleftrightarrow>
      segs_ok sz n g (A @ B) \<and> seg_name s \<notin> seg_name ` set (A @ B) \<and> map upc (seg_name s) = seg_name s"
    unfolding segs_ok_def t names_ok_def using assms by auto
  show "cache sz g (A @ s # B) = cache sz g (A @ B)"
    using assms by (simp add: cache_def cache_entries_def seg_entries_def)
qed

section \<open>Rewriting a page\<close>

lemma modify_page_segs:
  assumes ok: "segs_ok sz n g (A @ s # B)" and sz: "0 < sz" and s: "seg_page s = X @ p # Y"
    and i: "i = page_no sz p" and k: "k = page_key sz g p"
    and g'_def: "g' = g(i := Some (ts, k, v))" and s'_def: "s' = s\<lparr>seg_page := X @ p\<lparr>pg_modified := m\<rparr> # Y\<rparr>"
  shows "segs_ok sz n g' (A @ s' # B)"
    and "cache sz g' (A @ s' # B) = (cache sz g (A @ s # B))((seg_name s, k) \<mapsto> (ts, v, m))"
proof -
  have pu: "pg_index p \<in> used_pages sz n g"
    using segs_page_used [OF ok] s by simp
  note pn = used_page_no [OF sz pu]
  have no: "page_no sz q \<noteq> i" if "q \<in> set (table_pages A) \<union> set X \<union> set Y \<union> set (table_pages B)" for q
  proof -
    have "distinct (map pg_index (table_pages A @ X @ p # Y @ table_pages B))"
      using ok s by (simp add: segs_ok_def)
    then have "pg_index p \<notin> pg_index ` (set (table_pages A) \<union> set X \<union> set Y \<union> set (table_pages B))"
      by (simp add: image_Un)
    then have "pg_index q \<noteq> pg_index p" using that by (metis imageI)
    moreover have "pg_index q \<in> used_pages sz n g" using segs_page_used [OF ok] that s by auto
    ultimately show ?thesis using used_page_no(2) [OF sz] pn(2) i by metis
  qed
  have pk: "page_key sz g' = page_key sz g"
    by (simp add: fun_eq_iff page_key_def g'_def) (simp add: k i page_key_def)
  have pk': "page_key sz g' (p\<lparr>pg_modified := m\<rparr>) = page_key sz g p"
    unfolding pk by (simp add: page_key_def page_no_def)
  have "distinct (map (page_key sz g') (seg_page t))" if "t \<in> set (A @ s' # B)" for t
    using ok that pk' by (auto simp: segs_ok_def s'_def s pk)
  moreover have "used_pages sz n g' = used_pages sz n g"
    using pn i by (auto simp: used_pages_def g'_def)
  moreover have "map pg_index (table_pages (A @ s' # B)) = map pg_index (table_pages (A @ s # B))"
    by (simp add: s s'_def)
  moreover from this have "pg_index ` set (table_pages (A @ s' # B)) = pg_index ` set (table_pages (A @ s # B))"
    by (metis image_set)
  moreover have "names_ok (A @ s' # B)"
    using ok by (simp add: segs_ok_def names_ok_def s'_def)
  ultimately show "segs_ok sz n g' (A @ s' # B)"
    using ok by (simp add: segs_ok_def)
  have fr: "cache_entries sz g' A = cache_entries sz g A" "cache_entries sz g' B = cache_entries sz g B"
    unfolding g'_def using no by (auto intro!: cache_entries_frame)
  have frx: "map (entry_of sz g' name) X = map (entry_of sz g name) X"
    "map (entry_of sz g' name) Y = map (entry_of sz g name) Y" for name
    using no by (auto simp: entry_of_def g'_def)
  let ?x = "cache_entries sz g A @ map (entry_of sz g (seg_name s)) X"
  let ?y = "map (entry_of sz g (seg_name s)) Y @ cache_entries sz g B"
  have e': "cache_entries sz g' (A @ s' # B) = ?x @ ((seg_name s, k), (ts, v, m)) # ?y"
  proof -
    have "page_no sz (p\<lparr>pg_modified := m\<rparr>) = i" by (simp add: i page_no_def)
    then have "entry_of sz g' (seg_name s) (p\<lparr>pg_modified := m\<rparr>) = ((seg_name s, k), (ts, v, m))"
      by (simp add: entry_of_def g'_def)
    then show ?thesis by (simp add: fr seg_entries_def s'_def frx)
  qed
  obtain tv where e: "cache_entries sz g (A @ s # B) = ?x @ ((seg_name s, k), tv) # ?y"
  proof -
    have "entry_of sz g (seg_name s) p = ((seg_name s, k), snd (entry_of sz g (seg_name s) p))"
      using fst_entry_of [of sz g "seg_name s" p] k by (metis prod.collapse)
    then show ?thesis using that by (simp add: seg_entries_def s)
  qed
  have d: "distinct (map fst (?x @ ((seg_name s, k), tv) # ?y))"
    using segs_ok_distinct [OF ok] unfolding e .
  then have d': "distinct (map fst (?x @ ((seg_name s, k), (ts, v, m)) # ?y))" by simp
  show "cache sz g' (A @ s' # B) = (cache sz g (A @ s # B))((seg_name s, k) \<mapsto> (ts, v, m))"
    unfolding cache_def e e' map_of_insert_mid(1) [OF d] map_of_insert_mid(1) [OF d'] by simp
qed

section \<open>Removing a page\<close>

lemma remove_page_segs:
  assumes ok: "segs_ok sz n g (A @ s # B)" and sz: "0 < sz" and s: "seg_page s = X @ p # Y"
    and i: "i = page_no sz p" and k: "k = page_key sz g p"
    and g'_def: "g' = g(i := None)" and s'_def: "s' = s\<lparr>seg_page := X @ Y\<rparr>"
  shows "segs_ok sz n g' (A @ s' # B)"
    and "cache sz g' (A @ s' # B) = (cache sz g (A @ s # B))((seg_name s, k) := None)"
proof -
  have d: "distinct (map pg_index (table_pages A @ X @ p # Y @ table_pages B))"
    using ok s by (simp add: segs_ok_def)
  then have np: "pg_index p \<notin> pg_index ` (set (table_pages A) \<union> set X \<union> set Y \<union> set (table_pages B))"
    by (simp add: image_Un)
  have pi: "pg_index p = int i * sz"
    using used_page_no(2) [OF sz segs_page_used [OF ok]] s i by simp
  have u: "pg_index ` (set (table_pages A) \<union> set X \<union> {p} \<union> set Y \<union> set (table_pages B)) = used_pages sz n g"
    using ok s by (simp add: segs_ok_def Un_commute Un_left_commute insert_commute)
  have no: "page_no sz q \<noteq> i" if "q \<in> set (table_pages A) \<union> set X \<union> set Y \<union> set (table_pages B)" for q
  proof -
    have "pg_index q \<noteq> pg_index p" using np that by (metis imageI)
    moreover have "pg_index q \<in> used_pages sz n g" using u that by blast
    ultimately show ?thesis using used_page_no(2) [OF sz] pi by metis
  qed
  have no': "\<forall>q \<in> set (table_pages (A @ s' # B)). page_no sz q \<noteq> i"
    using no by (auto simp: s'_def)
  have "\<forall>t \<in> set (A @ s' # B). distinct (map (page_key sz g) (seg_page t))"
    using ok s by (auto simp: segs_ok_def s'_def)
  then have keys: "\<forall>t \<in> set (A @ s' # B). distinct (map (page_key sz g') (seg_page t))"
    unfolding g'_def by (rule keys_frame [OF no'])
  have "pg_index ` set (table_pages (A @ s' # B)) = used_pages sz n g'"
  proof -
    have "pg_index ` set (table_pages (A @ s' # B)) = used_pages sz n g - {pg_index p}"
      using np by (simp add: s'_def image_Un u [symmetric]) blast
    then show ?thesis by (simp add: g'_def used_pages_remove [OF sz] pi)
  qed
  moreover have "distinct (map pg_index (table_pages (A @ s' # B)))"
    using d by (simp add: s'_def)
  moreover have "names_ok (A @ s' # B)"
    using ok by (simp add: segs_ok_def names_ok_def s'_def)
  ultimately show "segs_ok sz n g' (A @ s' # B)"
    using keys by (simp add: segs_ok_def)
  have fr: "cache_entries sz g' (A @ s' # B) = cache_entries sz g (A @ s' # B)"
    unfolding g'_def by (rule cache_entries_frame [OF no'])
  let ?x = "cache_entries sz g A @ map (entry_of sz g (seg_name s)) X"
  let ?y = "map (entry_of sz g (seg_name s)) Y @ cache_entries sz g B"
  obtain tv where e: "cache_entries sz g (A @ s # B) = ?x @ ((seg_name s, k), tv) # ?y"
  proof -
    have "entry_of sz g (seg_name s) p = ((seg_name s, k), snd (entry_of sz g (seg_name s) p))"
      using fst_entry_of [of sz g "seg_name s" p] k by (metis prod.collapse)
    then show ?thesis using that by (simp add: seg_entries_def s)
  qed
  have e': "cache_entries sz g (A @ s' # B) = ?x @ ?y"
    by (simp add: seg_entries_def s'_def)
  have "distinct (map fst (?x @ ((seg_name s, k), tv) # ?y))"
    using segs_ok_distinct [OF ok] unfolding e .
  from map_of_insert_mid(2) [OF this]
  show "cache sz g' (A @ s' # B) = (cache sz g (A @ s # B))((seg_name s, k) := None)"
    unfolding cache_def fr e e' .
qed

text \<open>Removing a segment with all its pages.\<close>

definition drop_table :: "string \<Rightarrow> cache_map \<Rightarrow> cache_map" where
  "drop_table name c = (\<lambda>(t, k). if t = name then None else c (t, k))"

lemma cache_None:
  assumes "name \<notin> seg_name ` set segs"
  shows "cache sz g segs (name, k) = None"
proof -
  have "(name, k) \<notin> fst ` set (cache_entries sz g segs)"
  proof
    assume "(name, k) \<in> fst ` set (cache_entries sz g segs)"
    then obtain x where "x \<in> set (cache_entries sz g segs)" "fst x = (name, k)" by force
    with cache_entries_name assms show False by (metis fst_conv)
  qed
  then show ?thesis by (simp add: cache_def map_of_eq_None_iff)
qed

fun forget_pages :: "int \<Rightarrow> contents \<Rightarrow> page_t list \<Rightarrow> contents" where
  "forget_pages sz g [] = g"
| "forget_pages sz g (p # ps) = forget_pages sz (g(page_no sz p := None)) ps"

lemma remove_pages_segs:
  assumes "segs_ok sz n g (A @ s # B)" "0 < sz"
  shows "segs_ok sz n (forget_pages sz g (seg_page s)) (A @ s\<lparr>seg_page := []\<rparr> # B) \<and>
    (\<forall>t k. t \<noteq> seg_name s \<longrightarrow>
       cache sz (forget_pages sz g (seg_page s)) (A @ s\<lparr>seg_page := []\<rparr> # B) (t, k) = cache sz g (A @ s # B) (t, k))"
  using assms(1)
proof (induction "seg_page s" arbitrary: s g)
  case Nil
  then have "s\<lparr>seg_page := []\<rparr> = s" "forget_pages sz g (seg_page s) = g" by (simp_all flip: Nil.hyps)
  with Nil.prems show ?case by (simp only:) simp
next
  case (Cons p ps)
  let ?g = "g(page_no sz p := None)" and ?s = "s\<lparr>seg_page := ps\<rparr>"
  have s: "seg_page s = [] @ p # ps" using Cons.hyps(2) by simp
  note r = remove_page_segs [OF Cons.prems assms(2) s refl refl refl refl, simplified]
  have eq: "forget_pages sz g (seg_page s) = forget_pages sz ?g ps"
    by (subst Cons.hyps(2) [symmetric]) simp
  have IH: "segs_ok sz n (forget_pages sz ?g ps) (A @ s\<lparr>seg_page := []\<rparr> # B) \<and>
    (\<forall>t k. t \<noteq> seg_name s \<longrightarrow>
       cache sz (forget_pages sz ?g ps) (A @ s\<lparr>seg_page := []\<rparr> # B) (t, k) = cache sz ?g (A @ ?s # B) (t, k))"
    using Cons.hyps(1) [of ?s ?g] r(1) by simp
  then show ?case unfolding eq using r(2) by simp
qed

lemma remove_segment_segs:
  assumes "segs_ok sz n g (A @ s # B)" "0 < sz"
  shows "segs_ok sz n (forget_pages sz g (seg_page s)) (A @ B)"
    and "cache sz (forget_pages sz g (seg_page s)) (A @ B) = drop_table (seg_name s) (cache sz g (A @ s # B))"
proof -
  let ?g = "forget_pages sz g (seg_page s)" and ?s = "s\<lparr>seg_page := []\<rparr>"
  have ok: "segs_ok sz n ?g (A @ ?s # B)"
    and fr: "\<And>t k. t \<noteq> seg_name s \<Longrightarrow> cache sz ?g (A @ ?s # B) (t, k) = cache sz g (A @ s # B) (t, k)"
    using remove_pages_segs [OF assms] by blast+
  then show "segs_ok sz n ?g (A @ B)" using empty_segment(1) [of ?s] by simp
  have e: "cache sz ?g (A @ ?s # B) = cache sz ?g (A @ B)" using empty_segment(2) [of ?s] by simp
  have "seg_name s \<notin> seg_name ` set (A @ B)"
    using assms(1) by (auto simp: segs_ok_def names_ok_def)
  then show "cache sz ?g (A @ B) = drop_table (seg_name s) (cache sz g (A @ s # B))"
    using fr cache_None unfolding e drop_table_def by (auto simp: fun_eq_iff)
qed

end
