(* ===== verification/Mem_Rel.thy ===== *)
theory Mem_Rel
  imports Mem_Cache
begin

text \<open>
  The refinement relation between the state of a memory and its abstract map, and what the helper
  functions of \<open>memory_tables.c\<close> and \<open>memory_utils.c\<close> do on both sides of it.
\<close>

definition mem_rel :: "mem_state \<Rightarrow> cache_map \<Rightarrow> bool" where
  "mem_rel st c \<longleftrightarrow> (\<exists>g. mem_inv st g \<and> c = cache (g_total_page_size st) g (g_segment_list st))"

definition same_config :: "mem_state \<Rightarrow> mem_state \<Rightarrow> bool" where
  "same_config st st' \<longleftrightarrow>
     g_total_page_size st' = g_total_page_size st \<and> g_total_page_count st' = g_total_page_count st \<and>
     g_value_size st' = g_value_size st \<and> g_memory_size st' = g_memory_size st \<and>
     length (g_main_memory st') = length (g_main_memory st)"

lemma same_config_refl [simp]: "same_config st st"
  by (simp add: same_config_def)

lemma same_config_trans: "same_config a b \<Longrightarrow> same_config b c \<Longrightarrow> same_config a c"
  by (simp add: same_config_def)

lemma same_config_ok:
  assumes "same_config st st'"
  shows "geometry_ok st' = geometry_ok st" "entry_ok st' = entry_ok st"
    "value_ok st' = value_ok st" "time_ok st' = time_ok st" "pcount st' = pcount st"
proof -
  show "geometry_ok st' = geometry_ok st" "value_ok st' = value_ok st" "time_ok st' = time_ok st" "pcount st' = pcount st"
    using assms by (auto simp: same_config_def geometry_ok_def value_ok_def time_ok_def fun_eq_iff)
  then show "entry_ok st' = entry_ok st" by (auto simp: fun_eq_iff)
qed

lemma same_config_update:
  "length buf = length (g_main_memory st) \<Longrightarrow> same_config st (st\<lparr>g_main_memory := buf\<rparr>)"
  "same_config st (st\<lparr>g_segment_list := segs\<rparr>)"
  "same_config st (st\<lparr>g_mem_op_semaphore := x\<rparr>)"
  by (simp_all add: same_config_def)

lemma mem_inv_cong:
  assumes "g_main_memory st' = g_main_memory st" "same_config st st'" "g_segment_list st' = g_segment_list st"
  shows "mem_inv st' g = mem_inv st g"
  using assms same_config_ok [OF assms(2)]
  by (simp add: mem_inv_def buffer_ok_def pages_ok_def entries_ok_def same_config_def)

lemma mem_rel_semaphore [simp]: "mem_rel (st\<lparr>g_mem_op_semaphore := x\<rparr>) c = mem_rel st c"
  using mem_inv_cong [of "st\<lparr>g_mem_op_semaphore := x\<rparr>" st]
  by (simp add: mem_rel_def same_config_def)

lemma buffer_ok_update:
  assumes "buffer_ok st g" "pages_ok (st\<lparr>g_main_memory := buf\<rparr>) (g(i := e))" "\<And>x. e = Some x \<Longrightarrow> entry_ok st x"
    "length buf = length (g_main_memory st)"
  shows "buffer_ok (st\<lparr>g_main_memory := buf\<rparr>) (g(i := e))"
  using assms same_config_ok [OF same_config_update(1) [OF assms(4)]]
  by (auto simp: buffer_ok_def entries_ok_def)

section \<open>Capacity\<close>

lemma length_cache_entries: "length (cache_entries sz g segs) = length (table_pages segs)"
  by (induction segs) (simp_all add: cache_entries_def seg_entries_def table_pages_def)

lemma card_dom_cache:
  assumes "segs_ok sz n g segs" "0 < sz"
  shows "finite (dom (cache sz g segs))" "card (dom (cache sz g segs)) = card {i. i < n \<and> g i \<noteq> None}"
proof -
  have d: "dom (cache sz g segs) = set (map fst (cache_entries sz g segs))"
    by (simp add: cache_def dom_map_of_conv_image_fst)
  then show "finite (dom (cache sz g segs))" by simp
  have "card (dom (cache sz g segs)) = length (table_pages segs)"
    using d distinct_card [OF segs_ok_distinct [OF assms(1)]] by (simp add: length_cache_entries)
  also have "\<dots> = card (pg_index ` set (table_pages segs))"
    using assms(1) distinct_card [of "map pg_index (table_pages segs)"] by (simp add: segs_ok_def)
  also have "\<dots> = card (used_pages sz n g)"
    using assms(1) by (simp add: segs_ok_def)
  also have "\<dots> = card {i. i < n \<and> g i \<noteq> None}"
    unfolding used_pages_def using assms(2) by (intro card_image) (simp add: inj_on_def)
  finally show "card (dom (cache sz g segs)) = card {i. i < n \<and> g i \<noteq> None}" .
qed

lemma find_free_None: "find (\<lambda>i. g i = None) [0..<n] = None \<longleftrightarrow> card {i. i < n \<and> g i \<noteq> None} = n"
proof -
  have "card {i. i < n \<and> g i \<noteq> None} = n \<longleftrightarrow> {i. i < n \<and> g i \<noteq> None} = {..<n}"
    using card_subset_eq [of "{..<n}" "{i. i < n \<and> g i \<noteq> None}"] card_lessThan [of n] by (metis (no_types, lifting) finite_lessThan lessThan_iff mem_Collect_eq subsetI)
  also have "\<dots> \<longleftrightarrow> (\<forall>i < n. g i \<noteq> None)" unfolding set_eq_iff mem_Collect_eq lessThan_iff by blast
  finally show ?thesis by (simp add: find_upt_None)
qed

lemma mem_rel_capacity:
  assumes "mem_rel st c"
  shows "finite (dom c)" "card (dom c) \<le> pcount st" "memory_full st = Inr (card (dom c) = pcount st)"
proof -
  obtain g where g: "mem_inv st g" "c = cache (g_total_page_size st) g (g_segment_list st)"
    using assms by (auto simp: mem_rel_def)
  note d = card_dom_cache [OF mem_invD(4) [OF g(1)] geometry_pos [OF mem_invD(1) [OF g(1)]]]
  show "finite (dom c)" using d(1) g(2) by simp
  have "card {i. i < pcount st \<and> g i \<noteq> None} \<le> card {..<pcount st}" by (rule card_mono) auto
  then show "card (dom c) \<le> pcount st" using d(2) g(2) by simp
  show "memory_full st = Inr (card (dom c) = pcount st)"
    using free_page_inv [OF mem_invD(5) [OF g(1)]] find_free_None [of g "pcount st"] d(2) g(2)
    by (simp add: memory_full_def)
qed

section \<open>Segments by name\<close>

lemma get_segment_None: "get_segment_by_name segs name = None \<longleftrightarrow> name \<notin> seg_name ` set segs"
  by (auto simp: get_segment_by_name_def find_None_iff)

lemma get_segment_split:
  assumes "get_segment_by_name segs name = Some s"
  obtains A B where "segs = A @ s # B" "seg_name s = name" "name \<notin> seg_name ` set A"
  using assms find_split [of "\<lambda>s. seg_name s = name" segs s] unfolding get_segment_by_name_def
  by (metis (mono_tags, lifting) imageE)

lemma update_segment_split:
  "name \<notin> seg_name ` set A \<Longrightarrow> seg_name s = name \<Longrightarrow>
   update_first (\<lambda>s. seg_name s = name) f (A @ s # B) = A @ f s # B"
  by (induction A) auto

text \<open>The pages of a segment and the map.\<close>

lemma cache_segment:
  assumes "segs_ok sz n g (A @ s # B)"
  shows "cache sz g (A @ s # B) (seg_name s, k) =
    (case find (\<lambda>p. page_key sz g p = k) (seg_page s) of
       None \<Rightarrow> None | Some p \<Rightarrow> Some (snd (entry_of sz g (seg_name s) p)))"
proof (cases "find (\<lambda>p. page_key sz g p = k) (seg_page s)")
  case None
  have "seg_name s \<notin> seg_name ` set A" "seg_name s \<notin> seg_name ` set B"
    using assms by (auto simp: segs_ok_def names_ok_def)
  then have "cache sz g A (seg_name s, k) = None" "cache sz g B (seg_name s, k) = None"
    by (simp_all add: cache_None)
  moreover have "map_of (seg_entries sz g s) (seg_name s, k) = None"
    using None by (auto simp: seg_entries_def map_of_eq_None_iff find_None_iff entry_of_def page_key_def split: prod.splits)
  ultimately show ?thesis
    using None by (simp add: cache_def map_add_def)
next
  case (Some p)
  then have p: "p \<in> set (seg_page s)" "page_key sz g p = k" by (auto simp: find_Some_iff)
  then have "entry_of sz g (seg_name s) p \<in> set (cache_entries sz g (A @ s # B))"
    by (simp add: seg_entries_def)
  moreover have "entry_of sz g (seg_name s) p = ((seg_name s, k), snd (entry_of sz g (seg_name s) p))"
    using p(2) fst_entry_of [of sz g "seg_name s" p] by (metis prod.collapse)
  ultimately have "cache sz g (A @ s # B) (seg_name s, k) = Some (snd (entry_of sz g (seg_name s) p))"
    unfolding cache_def using segs_ok_distinct [OF assms] by (intro map_of_is_SomeI) auto
  then show ?thesis using Some by simp
qed

lemma table_page_index:
  assumes "mem_inv st g" "p \<in> set (table_pages (g_segment_list st))"
  shows "page_no (g_total_page_size st) p < pcount st"
    "pg_index p = int (page_no (g_total_page_size st) p) * g_total_page_size st"
  by (rule table_page_entry [OF assms], assumption)+

section \<open>Adding an entry\<close>

lemma find_free_Some:
  assumes "card {i. i < n \<and> g i \<noteq> None} < n"
  obtains i where "find (\<lambda>i. g i = None) [0..<n] = Some i" "i < n" "g i = None"
proof -
  have "find (\<lambda>i. g i = None) [0..<n] \<noteq> None" using assms find_free_None [of g n] by simp
  then show ?thesis using that by (auto simp: find_upt_Some)
qed

context commons_api
begin

lemma memory_insert_spec:
  assumes "buffer_ok st g" "find (\<lambda>i. g i = None) [0..<pcount st] = Some i" "entry_ok st (ts, k, v)"
  obtains buf where
    "memory_insert cm st ts k v = Inr (int i * g_total_page_size st, st\<lparr>g_main_memory := buf\<rparr>)"
    "buffer_ok (st\<lparr>g_main_memory := buf\<rparr>) (g(i := Some (ts, k, v)))" "length buf = length (g_main_memory st)"
proof -
  have b: "geometry_ok st" "pages_ok st g" using assms(1) by (simp_all add: buffer_ok_def)
  have i: "i < pcount st" using assms(2) by (simp add: find_upt_Some)
  have e: "\<And>x. Some (ts, k, v) = Some x \<Longrightarrow> entry_ok st x" using assms(3) by simp
  obtain buf where w: "mem_strcpy st (int i * g_total_page_size st) (entry_text (Some (ts, k, v))) = Inr (st\<lparr>g_main_memory := buf\<rparr>)"
    "pages_ok (st\<lparr>g_main_memory := buf\<rparr>) (g(i := Some (ts, k, v)))" "length buf = length (g_main_memory st)"
    using mem_strcpy_page [OF b(2,1) i e] .
  show ?thesis
  proof (rule that [of buf])
    show "memory_insert cm st ts k v = Inr (int i * g_total_page_size st, st\<lparr>g_main_memory := buf\<rparr>)"
      unfolding memory_insert_def free_page_inv [OF assms(1)] assms(2) page_text_entry by (simp add: w(1) del: entry_text.simps)
    show "buffer_ok (st\<lparr>g_main_memory := buf\<rparr>) (g(i := Some (ts, k, v)))"
      by (rule buffer_ok_update [OF assms(1) w(2) e w(3)])
  qed (rule w(3))
qed

lemma mem_inv_parts:
  "mem_inv st g \<longleftrightarrow> buffer_ok st g \<and> segs_ok (g_total_page_size st) (pcount st) g (g_segment_list st)"
  by (simp add: mem_inv_def)

lemma buffer_ok_segs [simp]: "buffer_ok (st\<lparr>g_segment_list := segs\<rparr>) g = buffer_ok st g"
  using same_config_ok [OF same_config_update(2) [of st segs]]
  by (simp add: buffer_ok_def pages_ok_def entries_ok_def)

lemma insert_in_segment:
  assumes "mem_rel st c" "card (dom c) < pcount st" "entry_ok st (ts, k, v)" "c (name, k) = None"
    "get_segment_by_name (g_segment_list st) name \<noteq> None"
  obtains index buf where
    "memory_insert cm st ts k v = Inr (index, st\<lparr>g_main_memory := buf\<rparr>)" "length buf = length (g_main_memory st)"
    "mem_rel (add_page (st\<lparr>g_main_memory := buf\<rparr>) name (create_page index m)) (c((name, k) \<mapsto> (ts, v, m)))"
proof -
  obtain g where g: "mem_inv st g" "c = cache (g_total_page_size st) g (g_segment_list st)"
    using assms(1) by (auto simp: mem_rel_def)
  obtain s where "get_segment_by_name (g_segment_list st) name = Some s" using assms(5) by blast
  then obtain A B where s: "g_segment_list st = A @ s # B" "seg_name s = name" "name \<notin> seg_name ` set A"
    by (rule get_segment_split)
  note sz = geometry_pos [OF mem_invD(1) [OF g(1)]]
  note ok = mem_invD(4) [OF g(1), unfolded s(1)]
  obtain i where i: "find (\<lambda>i. g i = None) [0..<pcount st] = Some i" "i < pcount st" "g i = None"
    using find_free_Some card_dom_cache(2) [OF ok sz] assms(2) g(2) s(1) by metis
  obtain buf where w: "memory_insert cm st ts k v = Inr (int i * g_total_page_size st, st\<lparr>g_main_memory := buf\<rparr>)"
    "buffer_ok (st\<lparr>g_main_memory := buf\<rparr>) (g(i := Some (ts, k, v)))" "length buf = length (g_main_memory st)"
    using memory_insert_spec [OF mem_invD(5) [OF g(1)] i(1) assms(3)] .
  let ?p = "create_page (int i * g_total_page_size st) m"
  have "find (\<lambda>p. page_key (g_total_page_size st) g p = k) (seg_page s) = None"
    using cache_segment [OF ok, of k] assms(4) g(2) s by (auto split: option.splits)
  then have nk: "k \<notin> page_key (g_total_page_size st) g ` set (seg_page s)"
    by (auto simp: find_None_iff)
  have pi: "pg_index ?p = int i * g_total_page_size st" by (simp add: create_page_def)
  note a = add_page_segs [OF ok sz i(2,3) pi nk refl refl, of ts v]
  have segs: "g_segment_list (add_page (st\<lparr>g_main_memory := buf\<rparr>) name ?p) = A @ s\<lparr>seg_page := seg_page s @ [?p]\<rparr> # B"
    using s by (simp add: add_page_def update_segment_split)
  have "mem_inv (add_page (st\<lparr>g_main_memory := buf\<rparr>) name ?p) (g(i := Some (ts, k, v)))"
    unfolding mem_inv_parts segs using a(1) w(2) by (simp add: add_page_def)
  moreover have "c((name, k) \<mapsto> (ts, v, m)) = cache (g_total_page_size st) (g(i := Some (ts, k, v)))
      (g_segment_list (add_page (st\<lparr>g_main_memory := buf\<rparr>) name ?p))"
    unfolding segs a(2) using g(2) s by (simp add: create_page_def)
  ultimately have "mem_rel (add_page (st\<lparr>g_main_memory := buf\<rparr>) name ?p) (c((name, k) \<mapsto> (ts, v, m)))"
    unfolding mem_rel_def by (intro exI [of _ "g(i := Some (ts, k, v))"]) (simp add: add_page_def)
  with w(1,3) that show ?thesis by blast
qed

lemma insert_new_segment:
  assumes "mem_rel st c" "card (dom c) < pcount st" "entry_ok st (ts, k, v)"
    "get_segment_by_name (g_segment_list st) name = None" "map upc name = name"
  obtains index buf where
    "memory_insert cm st ts k v = Inr (index, st\<lparr>g_main_memory := buf\<rparr>)" "length buf = length (g_main_memory st)"
    "mem_rel (add_segment (st\<lparr>g_main_memory := buf\<rparr>) \<lparr>seg_name = name, seg_page = [create_page index m]\<rparr>)
       (c((name, k) \<mapsto> (ts, v, m)))"
proof -
  let ?s = "\<lparr>seg_name = name, seg_page = []\<rparr>"
  have fresh: "name \<notin> seg_name ` set (g_segment_list st)" using assms(4) by (simp add: get_segment_None)
  obtain g where g: "mem_inv st g" "c = cache (g_total_page_size st) g (g_segment_list st)"
    using assms(1) by (auto simp: mem_rel_def)
  note sz = geometry_pos [OF mem_invD(1) [OF g(1)]]
  obtain i where i: "find (\<lambda>i. g i = None) [0..<pcount st] = Some i" "i < pcount st" "g i = None"
    using find_free_Some card_dom_cache(2) [OF mem_invD(4) [OF g(1)] sz] assms(2) g(2) by metis
  obtain buf where w: "memory_insert cm st ts k v = Inr (int i * g_total_page_size st, st\<lparr>g_main_memory := buf\<rparr>)"
    "buffer_ok (st\<lparr>g_main_memory := buf\<rparr>) (g(i := Some (ts, k, v)))" "length buf = length (g_main_memory st)"
    using memory_insert_spec [OF mem_invD(5) [OF g(1)] i(1) assms(3)] .
  let ?p = "create_page (int i * g_total_page_size st) m"
  have ok: "segs_ok (g_total_page_size st) (pcount st) g (g_segment_list st @ ?s # [])"
    using mem_invD(4) [OF g(1)] fresh assms(5) by (simp add: empty_segment(1))
  have pi: "pg_index ?p = int i * g_total_page_size st" by (simp add: create_page_def)
  note a = add_page_segs [OF ok sz i(2,3) pi _ refl refl, of k ts v, simplified]
  let ?st = "add_segment (st\<lparr>g_main_memory := buf\<rparr>) \<lparr>seg_name = name, seg_page = [?p]\<rparr>"
  have "mem_inv ?st (g(i := Some (ts, k, v)))"
    unfolding mem_inv_parts using a(1) w(2) by (simp add: add_segment_def)
  moreover have "c((name, k) \<mapsto> (ts, v, m)) = cache (g_total_page_size st) (g(i := Some (ts, k, v))) (g_segment_list ?st)"
    using a(2) g(2) empty_segment(2) [of ?s "g_total_page_size st" g "g_segment_list st" "[]"]
    by (simp add: add_segment_def create_page_def)
  ultimately have "mem_rel ?st (c((name, k) \<mapsto> (ts, v, m)))"
    unfolding mem_rel_def by (intro exI [of _ "g(i := Some (ts, k, v))"]) (simp add: add_segment_def)
  with w(1,3) that show ?thesis by blast
qed

text \<open>Rewriting the page of a key that is there.\<close>

lemma modify_in_segment:
  assumes "mem_rel st c" "get_segment_by_name (g_segment_list st) name = Some s"
    "get_page_by_key cm st s (map page_get_index (seg_page s)) k = Inr (Some p)" "entry_ok st (now, k, v)"
  obtains buf where
    "modify_memory_by_index cm st now (pg_index p) k v = Inr (st\<lparr>g_main_memory := buf\<rparr>)"
    "length buf = length (g_main_memory st)"
    "mem_rel (set_modified (st\<lparr>g_main_memory := buf\<rparr>) name (pg_index p)) (c((name, k) \<mapsto> (now, v, True)))"
proof -
  obtain g where g: "mem_inv st g" "c = cache (g_total_page_size st) g (g_segment_list st)"
    using assms(1) by (auto simp: mem_rel_def)
  let ?sz = "g_total_page_size st"
  obtain A B where s: "g_segment_list st = A @ s # B" "seg_name s = name" "name \<notin> seg_name ` set A"
    using assms(2) by (rule get_segment_split)
  note sz = geometry_pos [OF mem_invD(1) [OF g(1)]]
  note ok = mem_invD(4) [OF g(1), unfolded s(1)]
  have "find (\<lambda>p. page_key ?sz g p = k) (seg_page s) = Some p"
    using get_page_by_key_spec [OF g(1), of s k] assms(3) s(1) by simp
  then obtain X Y where p: "seg_page s = X @ p # Y" "page_key ?sz g p = k"
    by (blast dest: find_split)
  have pt: "p \<in> set (table_pages (g_segment_list st))" using p(1) s(1) by simp
  let ?i = "page_no ?sz p" and ?e = "Some (now, k, v)"
  note i = table_page_index [OF g(1) pt]
  have e: "\<And>x. ?e = Some x \<Longrightarrow> entry_ok st x" using assms(4) by simp
  obtain buf where w: "mem_strcpy st (int ?i * ?sz) (entry_text ?e) = Inr (st\<lparr>g_main_memory := buf\<rparr>)"
    "pages_ok (st\<lparr>g_main_memory := buf\<rparr>) (g(?i := ?e))" "length buf = length (g_main_memory st)"
    using mem_strcpy_page [OF mem_invD(2,1) [OF g(1)] i(1) e] .
  have b: "buffer_ok (st\<lparr>g_main_memory := buf\<rparr>) (g(?i := ?e))"
    by (rule buffer_ok_update [OF mem_invD(5) [OF g(1)] w(2) e w(3)])
  let ?s = "s\<lparr>seg_page := X @ p\<lparr>pg_modified := True\<rparr> # Y\<rparr>"
  note m = modify_page_segs [OF ok sz p(1) refl p(2) [symmetric] refl refl, of now v True]
  have "pg_index p \<notin> pg_index ` set X"
    using segment_indexes_distinct [OF g(1), of s] s(1) p(1) by simp
  then have "\<forall>q \<in> set X. pg_index q \<noteq> pg_index p" by (metis imageI)
  then have "update_first (\<lambda>q. pg_index q = pg_index p) (\<lambda>p. p\<lparr>pg_modified := True\<rparr>) (seg_page s) = X @ p\<lparr>pg_modified := True\<rparr> # Y"
    unfolding p(1) by (intro update_first_split) auto
  then have segs: "g_segment_list (set_modified (st\<lparr>g_main_memory := buf\<rparr>) name (pg_index p)) = A @ ?s # B"
    using s by (simp add: set_modified_def update_segment_split)
  have "mem_inv (set_modified (st\<lparr>g_main_memory := buf\<rparr>) name (pg_index p)) (g(?i := ?e))"
    unfolding mem_inv_parts segs using m(1) b by (simp add: set_modified_def)
  moreover have "c((name, k) \<mapsto> (now, v, True)) = cache ?sz (g(?i := ?e)) (A @ ?s # B)"
    unfolding m(2) using g(2) s by simp
  ultimately have "mem_rel (set_modified (st\<lparr>g_main_memory := buf\<rparr>) name (pg_index p)) (c((name, k) \<mapsto> (now, v, True)))"
    unfolding mem_rel_def using segs by (intro exI [of _ "g(?i := ?e)"]) (simp add: set_modified_def)
  moreover have "modify_memory_by_index cm st now (pg_index p) k v = Inr (st\<lparr>g_main_memory := buf\<rparr>)"
    unfolding modify_memory_by_index_def page_text_entry using w(1) i(2) by simp
  ultimately show ?thesis using w(3) that by blast
qed

section \<open>Removing segments\<close>

lemma null_pages_spec:
  assumes "buffer_ok st g" "\<forall>p \<in> set ps. page_no (g_total_page_size st) p < pcount st \<and>
      pg_index p = int (page_no (g_total_page_size st) p) * g_total_page_size st"
  shows "\<exists>buf. null_pages st (map page_get_index ps) = Inr (st\<lparr>g_main_memory := buf\<rparr>) \<and>
    buffer_ok (st\<lparr>g_main_memory := buf\<rparr>) (forget_pages (g_total_page_size st) g ps) \<and>
    length buf = length (g_main_memory st)"
  using assms
proof (induction ps arbitrary: st g)
  case Nil
  then show ?case by (intro exI [of _ "g_main_memory st"]) simp
next
  case (Cons p ps)
  let ?i = "page_no (g_total_page_size st) p"
  have i: "?i < pcount st" "pg_index p = int ?i * g_total_page_size st" using Cons.prems by auto
  have b: "pages_ok st g" "geometry_ok st" using Cons.prems(1) by (simp_all add: buffer_ok_def)
  obtain buf where w: "mem_strcpy st (int ?i * g_total_page_size st) (entry_text None) = Inr (st\<lparr>g_main_memory := buf\<rparr>)"
    "pages_ok (st\<lparr>g_main_memory := buf\<rparr>) (g(?i := None))" "length buf = length (g_main_memory st)"
    by (rule mem_strcpy_page [OF b i(1), of None]) auto
  have bo: "buffer_ok (st\<lparr>g_main_memory := buf\<rparr>) (g(?i := None))"
    by (rule buffer_ok_update [OF Cons.prems(1) w(2) _ w(3)]) simp
  have "\<forall>p \<in> set ps. page_no (g_total_page_size (st\<lparr>g_main_memory := buf\<rparr>)) p < pcount (st\<lparr>g_main_memory := buf\<rparr>) \<and>
      pg_index p = int (page_no (g_total_page_size (st\<lparr>g_main_memory := buf\<rparr>)) p) * g_total_page_size (st\<lparr>g_main_memory := buf\<rparr>)"
    using Cons.prems(2) by simp
  from Cons.IH [OF bo this] obtain buf' where r:
    "null_pages (st\<lparr>g_main_memory := buf\<rparr>) (map page_get_index ps) = Inr (st\<lparr>g_main_memory := buf, g_main_memory := buf'\<rparr>)"
    "buffer_ok (st\<lparr>g_main_memory := buf, g_main_memory := buf'\<rparr>) (forget_pages (g_total_page_size (st\<lparr>g_main_memory := buf\<rparr>)) (g(?i := None)) ps)"
    "length buf' = length (g_main_memory (st\<lparr>g_main_memory := buf\<rparr>))"
    by blast
  have eq: "st\<lparr>g_main_memory := buf, g_main_memory := buf'\<rparr> = st\<lparr>g_main_memory := buf'\<rparr>"
    "g_total_page_size (st\<lparr>g_main_memory := buf\<rparr>) = g_total_page_size st" by simp_all
  show ?case
  proof (intro exI conjI)
    show "null_pages st (map page_get_index (p # ps)) = Inr (st\<lparr>g_main_memory := buf'\<rparr>)"
      using w(1) r(1) i(2) by (simp add: page_get_index_def)
    show "buffer_ok (st\<lparr>g_main_memory := buf'\<rparr>) (forget_pages (g_total_page_size st) g (p # ps))"
      using r(2) unfolding forget_pages.simps eq .
    show "length buf' = length (g_main_memory st)" using r(3) w(3) by simp
  qed
qed

end

lemma index_or_minus_one_split:
  "P x \<Longrightarrow> \<forall>y \<in> set A. \<not> P y \<Longrightarrow> index_or_minus_one P (A @ x # B) = int (length A)"
proof -
  assume "P x" "\<forall>y \<in> set A. \<not> P y"
  then have "find (\<lambda>i. P ((A @ x # B) ! i)) [0..<length (A @ x # B)] = Some (length A)"
    unfolding find_upt_Some by (auto simp: nth_append)
  then show ?thesis by (simp only: index_or_minus_one_def option.case)
qed

lemma list_remove_split: "list_remove (A @ x # B) (int (length A)) = Inr (A @ B)"
  by (simp add: list_remove_def)

context commons_api
begin

lemma remove_segment_spec:
  assumes "mem_inv st g" "g_segment_list st = A @ s # B"
  obtains buf g' where "remove_segment st s = Inr (st\<lparr>g_main_memory := buf, g_segment_list := A @ B\<rparr>)"
    "length buf = length (g_main_memory st)"
    "mem_inv (st\<lparr>g_main_memory := buf, g_segment_list := A @ B\<rparr>) g'"
    "cache (g_total_page_size st) g' (A @ B) = drop_table (seg_name s) (cache (g_total_page_size st) g (g_segment_list st))"
proof -
  note sz = geometry_pos [OF mem_invD(1) [OF assms(1)]]
  note ok = mem_invD(4) [OF assms(1), unfolded assms(2)]
  let ?g = "forget_pages (g_total_page_size st) g (seg_page s)"
  have "p \<in> set (seg_page s) \<Longrightarrow> p \<in> set (table_pages (g_segment_list st))" for p
    using assms(2) by simp
  then have "\<forall>p \<in> set (seg_page s). page_no (g_total_page_size st) p < pcount st \<and>
      pg_index p = int (page_no (g_total_page_size st) p) * g_total_page_size st"
    using table_page_index [OF assms(1)] by blast
  then obtain buf where w: "null_pages st (map page_get_index (seg_page s)) = Inr (st\<lparr>g_main_memory := buf\<rparr>)"
    "buffer_ok (st\<lparr>g_main_memory := buf\<rparr>) ?g" "length buf = length (g_main_memory st)"
    using null_pages_spec [OF mem_invD(5) [OF assms(1)]] by metis
  have "distinct (map seg_name (A @ s # B))" using ok by (simp add: segs_ok_def names_ok_def)
  then have "get_segment_position_by_name (st\<lparr>g_main_memory := buf\<rparr>) (seg_name s) = int (length A)"
    using assms(2) index_or_minus_one_split [of "\<lambda>t. seg_name s = seg_name t" s A B]
    by (auto simp: get_segment_position_by_name_def)
  then have "remove_segment st s = Inr (st\<lparr>g_main_memory := buf, g_segment_list := A @ B\<rparr>)"
    using w(1) assms(2) by (simp add: remove_segment_def list_remove_split)
  moreover have "mem_inv (st\<lparr>g_main_memory := buf, g_segment_list := A @ B\<rparr>) ?g"
    using w(2) remove_segment_segs(1) [OF ok sz] by (simp add: mem_inv_parts)
  ultimately show ?thesis
    using that w(3) remove_segment_segs(2) [OF ok sz] assms(2) by metis
qed

end

end
