(* ===== verification/Mem_Evict.thy ===== *)
theory Mem_Evict
  imports Mem_Rel
begin

text \<open>
  Evicting a page, emptying main memory and collecting the dirty entries, on both sides of the
  refinement relation.
\<close>

section \<open>Evicting one page\<close>

lemma find_nth_split:
  assumes "P x" "\<forall>y \<in> set A. \<not> P y"
  shows "find (\<lambda>i. P ((A @ x # B) ! i)) [0..<length (A @ x # B)] = Some (length A)"
  unfolding find_upt_Some using assms by (auto simp: nth_append)

lemma table_page_split:
  assumes "p \<in> set (table_pages segs)"
  obtains A s B X Y where "segs = A @ s # B" "seg_page s = X @ p # Y"
proof -
  obtain s where "s \<in> set segs" "p \<in> set (seg_page s)"
    using assms by (auto simp: table_pages_def)
  then show ?thesis using that split_list by metis
qed

lemma page_index_unique:
  assumes "segs_ok sz n g (A @ s # B)" "seg_page s = X @ p # Y"
  shows "\<forall>t \<in> set A. \<not> segment_has_page_by_index t (pg_index p)" "pg_index p \<notin> pg_index ` set X"
proof -
  have d: "distinct (map pg_index (table_pages A @ X @ p # Y @ table_pages B))"
    using assms by (simp add: segs_ok_def)
  then have "pg_index p \<notin> pg_index ` set (table_pages A)" by simp
  then show "\<forall>t \<in> set A. \<not> segment_has_page_by_index t (pg_index p)"
    by (auto simp: segment_has_page_by_index_def list_ex_iff table_pages_def image_iff) metis
  from d show "pg_index p \<notin> pg_index ` set X" by simp
qed

context commons_api
begin

lemma eliminate_spec:
  assumes "mem_inv st g" "g_segment_list st = A @ s # B" "seg_page s = X @ p # Y" "map upc T = T"
  obtains st' where "eliminate_page_instance_by_index cm st (pg_index p) T = Inr st'" "same_config st st'"
    "g_mem_op_semaphore st' = g_mem_op_semaphore st"
    "mem_rel st' ((cache (g_total_page_size st) g (g_segment_list st))((seg_name s, page_key (g_total_page_size st) g p) := None))"
    "get_segment_by_name (g_segment_list st') T = None \<longleftrightarrow> get_segment_by_name (g_segment_list st) T = None"
proof -
  let ?sz = "g_total_page_size st" and ?i = "page_no (g_total_page_size st) p"
  let ?c = "(cache ?sz g (g_segment_list st))((seg_name s, page_key ?sz g p) := None)"
  note sz = geometry_pos [OF mem_invD(1) [OF assms(1)]]
  note ok = mem_invD(4) [OF assms(1), unfolded assms(2)]
  have pt: "p \<in> set (table_pages (g_segment_list st))" using assms(2,3) by simp
  note i = table_page_index [OF assms(1) pt]
  obtain buf where w: "mem_strcpy st (int ?i * ?sz) (entry_text None) = Inr (st\<lparr>g_main_memory := buf\<rparr>)"
    "pages_ok (st\<lparr>g_main_memory := buf\<rparr>) (g(?i := None))" "length buf = length (g_main_memory st)"
    by (rule mem_strcpy_page [OF mem_invD(2,1) [OF assms(1)] i(1), of None]) auto
  have b: "buffer_ok (st\<lparr>g_main_memory := buf\<rparr>) (g(?i := None))"
    by (rule buffer_ok_update [OF mem_invD(5) [OF assms(1)] w(2) _ w(3)]) simp
  note u = page_index_unique [OF ok assms(3)]
  have "get_segment_by_index_global st (pg_index p) = Some (length A)"
    unfolding get_segment_by_index_global_def assms(2)
    by (rule find_nth_split [OF _ u(1)]) (simp add: segment_has_page_by_index_def assms(3))
  moreover have "get_position_by_index (seg_page s) (pg_index p) = int (length X)"
    unfolding get_position_by_index_def assms(3)
    by (rule index_or_minus_one_split) (use u(2) in \<open>auto simp: image_iff\<close>)
  moreover define s' where "s' = s\<lparr>seg_page := X @ Y\<rparr>"
  moreover define st2 where "st2 = st\<lparr>g_main_memory := buf, g_segment_list := A @ s' # B\<rparr>"
  moreover have "list_remove (seg_page s) (int (length X)) = Inr (X @ Y)"
    unfolding assms(3) by (rule list_remove_split)
  ultimately have run: "eliminate_page_instance_by_index cm st (pg_index p) T =
      (if length (X @ Y) = 0 \<and> \<not> string_equals_ignore_case cm T (seg_name s') then remove_segment st2 s' else Inr st2)"
    using w(1) i(2) assms(2) by (simp add: eliminate_page_instance_by_index_def s'_def Let_def)
  note r = remove_page_segs [OF ok sz assms(3) refl refl refl s'_def]
  have c2: "cache ?sz (g(?i := None)) (A @ s' # B) = ?c" using r(2) assms(2) by simp
  have inv2: "mem_inv st2 (g(?i := None))"
    unfolding mem_inv_parts st2_def using r(1) b by simp
  have sn: "seg_name s' = seg_name s" by (simp add: s'_def)
  have st2: "g_total_page_size st2 = ?sz" "g_segment_list st2 = A @ s' # B" "same_config st st2"
    "g_mem_op_semaphore st2 = g_mem_op_semaphore st"
    using w(3) by (simp_all add: st2_def same_config_def)
  have keep: "get_segment_by_name (A @ s' # B) T = None \<longleftrightarrow> get_segment_by_name (g_segment_list st) T = None"
    by (auto simp: get_segment_None assms(2) sn)
  show ?thesis
  proof (cases "length (X @ Y) = 0 \<and> \<not> string_equals_ignore_case cm T (seg_name s')")
    case False
    have "mem_rel st2 ?c" unfolding mem_rel_def using inv2 c2 st2(1,2) by auto
    moreover have "eliminate_page_instance_by_index cm st (pg_index p) T = Inr st2"
      unfolding run if_not_P [OF False] ..
    ultimately show ?thesis using st2 keep by (intro that [of st2]) simp_all
  next
    case True
    obtain buf' g' where rs: "remove_segment st2 s' = Inr (st2\<lparr>g_main_memory := buf', g_segment_list := A @ B\<rparr>)"
      "length buf' = length (g_main_memory st2)" "mem_inv (st2\<lparr>g_main_memory := buf', g_segment_list := A @ B\<rparr>) g'"
      "cache (g_total_page_size st2) g' (A @ B) = drop_table (seg_name s') (cache (g_total_page_size st2) (g(?i := None)) (g_segment_list st2))"
      using remove_segment_spec [OF inv2 st2(2)] .
    let ?st = "st2\<lparr>g_main_memory := buf', g_segment_list := A @ B\<rparr>"
    have e: "cache ?sz (g(?i := None)) (A @ s' # B) = cache ?sz (g(?i := None)) (A @ B)"
      using True by (intro empty_segment(2)) (simp add: s'_def)
    have nm: "seg_name s' \<notin> seg_name ` set (A @ B)"
      using ok by (auto simp: segs_ok_def names_ok_def sn)
    have "drop_table (seg_name s') (cache ?sz (g(?i := None)) (A @ s' # B)) = ?c"
      unfolding c2 [symmetric] using cache_None [OF nm, of ?sz "g(?i := None)"]
      by (auto simp: drop_table_def fun_eq_iff e)
    then have "mem_rel ?st ?c" unfolding mem_rel_def using rs(3,4) st2 by auto
    moreover have "T \<noteq> seg_name s" using True by (auto simp: equals_ignore_case sn)
    then have "get_segment_by_name (A @ B) T = None \<longleftrightarrow> get_segment_by_name (g_segment_list st) T = None"
      by (auto simp: get_segment_None assms(2))
    moreover have "same_config st ?st" using st2(3) rs(2) by (simp add: same_config_def)
    moreover have "eliminate_page_instance_by_index cm st (pg_index p) T = Inr ?st"
      unfolding run if_P [OF True] by (rule rs(1))
    ultimately show ?thesis using st2(4) by (intro that [of ?st]) simp_all
  qed
qed

end

section \<open>Emptying main memory\<close>

definition empty_mem :: "mem_state \<Rightarrow> mem_state \<Rightarrow> bool" where
  "empty_mem st st' \<longleftrightarrow> same_config st st' \<and> g_segment_list st' = [] \<and>
     g_mem_op_semaphore st' = g_mem_op_semaphore st \<and> mem_rel st' Map.empty"

lemma cache_Nil: "cache sz g [] = Map.empty"
  by (simp add: cache_def cache_entries_def)

context commons_api
begin

lemma remove_segments_spec:
  "mem_inv st g \<Longrightarrow> length (g_segment_list st) = n \<Longrightarrow>
   \<exists>st'. remove_segments_from n st = Inr st' \<and> empty_mem st st'"
proof (induction n arbitrary: st g)
  case 0
  then have "mem_rel st Map.empty" unfolding mem_rel_def using cache_Nil by fastforce
  with 0 show ?case by (simp add: empty_mem_def)
next
  case (Suc n)
  then obtain A s where s: "g_segment_list st = A @ s # []"
    by (metis append_butlast_last_id length_0_conv nat.simps(3))
  obtain buf g' where r: "remove_segment st s = Inr (st\<lparr>g_main_memory := buf, g_segment_list := A @ []\<rparr>)"
    "length buf = length (g_main_memory st)" "mem_inv (st\<lparr>g_main_memory := buf, g_segment_list := A @ []\<rparr>) g'"
    using remove_segment_spec [OF Suc.prems(1) s] by metis
  let ?st = "st\<lparr>g_main_memory := buf, g_segment_list := A @ []\<rparr>"
  have n: "length A = n" using s Suc.prems(2) by simp
  then have "length (g_segment_list ?st) = n" by simp
  from Suc.IH [OF r(3) this] obtain st' where st': "remove_segments_from n ?st = Inr st'" "empty_mem ?st st'" by blast
  have "empty_mem st st'" using st'(2) r(2) by (auto simp: empty_mem_def same_config_def)
  moreover have "remove_segments_from (Suc n) st = Inr st'"
    using r(1) st'(1) s n by (simp add: nth_append)
  ultimately show ?case by blast
qed

lemma delete_all_segments_spec:
  assumes "mem_rel st c"
  obtains st' where "delete_all_segments st = Inr st'" "empty_mem st st'"
  using assms remove_segments_spec [OF _ refl] unfolding mem_rel_def delete_all_segments_def by metis

end

end
