(* ===== verification/Mem_Ops.thy ===== *)
theory Mem_Ops
  imports Mem_Evict
begin

text \<open>
  The operations of a memory: \<open>memoria/src/core/operations.c\<close>, and \<open>journaling\<close>,
  \<open>replace_algorithm\<close> and \<open>get_value_callback\<close> of \<open>memoria/src/memory_utils.c\<close>. An operation returns
  the new state and what it hands to others, a list of events: the response it sets
  (\<open>set_response\<close>) and the requests it starts (\<open>do_simple_request\<close>, which answers later by calling
  the callback it was given). The clock is a parameter, one for each \<open>get_timestamp\<close> call.
\<close>

record journal_register_t =
  reg_key :: int
  reg_table_name :: string
  reg_value :: string
  reg_timestamp :: int
  reg_modified :: bool

record response_t =
  rsp_id :: int
  rsp_result :: "journal_register_t option"

datatype callback =
  Select_Callback | Create_Callback | Describe_Callback | Drop_Callback | Journal_Callback | Get_Value_Callback

datatype event =
    Set_Response int content
  | Do_Simple_Request socket_operation_t content "int list" callback "response_t option"

datatype journal_invocation_t = J_SELECT | J_INSERT

type_synonym 'a step = "('a \<times> event list) result"

definition respond :: "response_t option \<Rightarrow> content \<Rightarrow> event list" where
  \<comment> \<open>\<open>if (response != NULL) set_response(response, result)\<close>\<close>
  "respond response c = (case response of None \<Rightarrow> [] | Some r \<Rightarrow> [Set_Response (rsp_id r) c])"

section \<open>Journaling and replacement\<close>

definition take_semaphore :: "mem_state \<Rightarrow> mem_state" where
  \<comment> \<open>\<open>sem_getvalue(sem, &sem_val); if (sem_val > 0) sem_wait(sem)\<close>\<close>
  "take_semaphore st =
     (if g_mem_op_semaphore st > 0 then st\<lparr>g_mem_op_semaphore := g_mem_op_semaphore st - 1\<rparr> else st)"

definition journaling :: "commons \<Rightarrow> mem_state \<Rightarrow> response_t option \<Rightarrow> mem_state step" where
  "journaling cm st response =
     (let st1 = take_semaphore st;
          indexes = map page_get_index (get_pages_by_modified st1 True)
      in rbind (list_add_multi_lists cm st1 indexes) (\<lambda>journal_list.
         Inr (st1, [Do_Simple_Request MULTIINSERT_IN (Inserts_Content journal_list)
                      (elements_multiinsert_in_info journal_list) Journal_Callback response])))"

definition pending :: "response_t option \<Rightarrow> journal_register_t \<Rightarrow> response_t" where
  \<comment> \<open>the response that carries an insert or a select over a journaling; the one made up for a call
    from the console has the identifier -1337\<close>
  "pending response reg =
     (case response of
        None \<Rightarrow> \<lparr>rsp_id = -1337, rsp_result = Some reg\<rparr>
      | Some r \<Rightarrow> r\<lparr>rsp_result := Some reg\<rparr>)"

definition replace_algorithm ::
  "commons \<Rightarrow> mem_state \<Rightarrow> response_t option \<Rightarrow> int \<Rightarrow> int \<Rightarrow> string \<Rightarrow> journal_invocation_t \<Rightarrow> string \<Rightarrow>
   (page_t option \<times> mem_state) step" where
  "replace_algorithm cm st response timestamp key value invocation table_name =
     (let not_modified_pages = get_pages_by_modified st False
      in if not_modified_pages \<noteq> [] then
           rbind (indexes_sorted cm st (map page_get_index not_modified_pages)) (\<lambda>sorted.
           rbind (eliminate_page_instance_by_index cm st (sorted ! 0) table_name) (\<lambda>st1.
           rbind (memory_insert cm st1 timestamp key value) (\<lambda>(index, st2).
           Inr ((Some (create_page index (invocation = J_INSERT)), sem_post_neg st2), []))))
         else
           let reg = \<lparr>reg_key = key, reg_table_name = table_name, reg_value = value,
                      reg_timestamp = timestamp, reg_modified = (invocation = J_INSERT)\<rparr>
           in rbind (journaling cm st (Some (pending response reg))) (\<lambda>(st1, events). Inr ((None, st1), events)))"

section \<open>The operations\<close>

definition select_request :: "commons \<Rightarrow> select_input_t \<Rightarrow> response_t option \<Rightarrow> event" where
  "select_request cm input response =
     Do_Simple_Request SELECT_IN
       (Select_Content \<lparr>sel_table_name = string_to_upper cm (sel_table_name input), sel_key = sel_key input\<rparr>)
       (elements_select_in_info input) Select_Callback response"

definition process_select :: "commons \<Rightarrow> mem_state \<Rightarrow> select_input_t \<Rightarrow> response_t option \<Rightarrow> mem_state step" where
  "process_select cm st input response =
     rbind (sem_wait st) (\<lambda>st1.
     let upper_table_name = string_to_upper cm (sel_table_name input)
     in case get_segment_by_name (g_segment_list st1) upper_table_name of
          Some found_segment \<Rightarrow>
            let index_list = map page_get_index (seg_page found_segment)
            in rbind (get_page_by_key cm st1 found_segment index_list (uint (sel_key input))) (\<lambda>found_page.
               case found_page of
                 Some page \<Rightarrow>
                   let position = pg_index page
                   in rbind (main_memory_values cm st1 position TIMESTAMP) (\<lambda>t. rbind (deref t) (\<lambda>return_timestamp.
                      rbind (main_memory_values cm st1 position KEY) (\<lambda>k. rbind (deref k) (\<lambda>return_key.
                      rbind (main_memory_values cm st1 position VALUE) (\<lambda>v. rbind (deref v) (\<lambda>return_value.
                      Inr (sem_post_neg st1, respond response (Record_Content
                             \<lparr>rec_table_name = seg_name found_segment,
                              rec_timestamp = string_to_long_long return_timestamp,
                              rec_key = uint (string_to_uint16 return_key),
                              rec_value = return_value\<rparr>))))))))
               | None \<Rightarrow> Inr (sem_post_neg st1, [select_request cm input response]))
        | None \<Rightarrow> Inr (sem_post_neg st1, [select_request cm input response]))"

text \<open>
  \<open>process_insert\<close>. When the value is too long \<open>found_page\<close> is never assigned, and the test after
  the branches reads it if there is a response.
\<close>

definition insert_page :: "commons \<Rightarrow> mem_state \<Rightarrow> int \<Rightarrow> insert_input_t \<Rightarrow> string \<Rightarrow> response_t option \<Rightarrow>
    (page_t option \<times> mem_state) step" where
  \<comment> \<open>the branch for an existing segment without the key; \<open>now\<close> has been stored in \<open>input->timestamp\<close>\<close>
  "insert_page cm st now input upper_table_name response =
     rbind (memory_full st) (\<lambda>full.
     if \<not> full then
       rbind (memory_insert cm st now (uint (ins_key input)) (ins_value input)) (\<lambda>(index, st1).
       let found_page = create_page index True
       in Inr ((Some found_page, sem_post_neg (add_page st1 upper_table_name found_page)), []))
     else
       rbind (replace_algorithm cm st response now (uint (ins_key input)) (ins_value input) J_INSERT upper_table_name)
         (\<lambda>((found_page, st1), events).
         case found_page of
           Some page \<Rightarrow> Inr ((found_page, add_page st1 upper_table_name page), events)
         | None \<Rightarrow> Inr ((None, st1), events)))"

definition insert_segment :: "commons \<Rightarrow> mem_state \<Rightarrow> int \<Rightarrow> insert_input_t \<Rightarrow> string \<Rightarrow> response_t option \<Rightarrow>
    (page_t option \<times> mem_state) step" where
  \<comment> \<open>the branch for a table that has no segment\<close>
  "insert_segment cm st now input upper_table_name response =
     (let found_segment = create_segment cm upper_table_name
      in rbind (memory_full st) (\<lambda>full.
         if \<not> full then
           rbind (memory_insert cm st now (uint (ins_key input)) (ins_value input)) (\<lambda>(index, st1).
           let found_page = create_page index True
           in Inr ((Some found_page,
                    add_segment (sem_post_neg st1) (found_segment\<lparr>seg_page := [found_page]\<rparr>)), []))
         else
           rbind (replace_algorithm cm st response now (uint (ins_key input)) (ins_value input) J_INSERT upper_table_name)
             (\<lambda>((found_page, st1), events).
             case found_page of
               Some page \<Rightarrow> Inr ((found_page, add_segment st1 (found_segment\<lparr>seg_page := [page]\<rparr>)), events)
             | None \<Rightarrow> Inr ((None, st1), events))))"

definition process_insert ::
  "commons \<Rightarrow> int \<Rightarrow> int \<Rightarrow> mem_state \<Rightarrow> insert_input_t \<Rightarrow> response_t option \<Rightarrow> mem_state step" where
  \<comment> \<open>\<open>strlen(value) <= g_value_size\<close> compares unsigned numbers, so that every value passes a negative size\<close>
  "process_insert cm now now2 st input response =
     rbind (sem_wait st) (\<lambda>st1.
     let upper_table_name = string_to_upper cm (ins_table_name input)
     in if g_value_size st1 < 0 \<or> int (length (ins_value input)) \<le> g_value_size st1 then
          rbind
            (case get_segment_by_name (g_segment_list st1) upper_table_name of
               Some found_segment \<Rightarrow>
                 rbind (get_page_by_key cm st1 found_segment (map page_get_index (seg_page found_segment))
                          (uint (ins_key input))) (\<lambda>found_page.
                 case found_page of
                   Some page \<Rightarrow>
                     rbind (modify_memory_by_index cm st1 now2 (pg_index page) (uint (ins_key input)) (ins_value input))
                       (\<lambda>st2. Inr ((Some page, sem_post_neg (set_modified st2 upper_table_name (pg_index page))), []))
                 | None \<Rightarrow> insert_page cm st1 now input upper_table_name response)
             | None \<Rightarrow> insert_segment cm st1 now input upper_table_name response)
            (\<lambda>((found_page, st2), events).
              Inr (st2, events @ (if found_page = None then [] else respond response (Int_Content 0))))
        else if response = None then Inr (sem_post_neg st1, []) else Inl Uninitialised)"

definition process_create :: "mem_state \<Rightarrow> create_input_t \<Rightarrow> response_t option \<Rightarrow> mem_state step" where
  "process_create st input response =
     Inr (st, [Do_Simple_Request CREATE_IN (Create_Content input) (elements_create_in_info input) Create_Callback response])"

definition process_describe :: "mem_state \<Rightarrow> describe_input_t \<Rightarrow> response_t option \<Rightarrow> mem_state step" where
  "process_describe st input response =
     Inr (st, [Do_Simple_Request DESCRIBE_IN (Describe_Content input) (elements_describe_in_info input) Describe_Callback response])"

definition process_drop :: "commons \<Rightarrow> mem_state \<Rightarrow> drop_input_t \<Rightarrow> response_t option \<Rightarrow> mem_state step" where
  "process_drop cm st input response =
     (let upper_table_name = string_to_upper cm (drp_table_name input)
      in rbind (case get_segment_by_name (g_segment_list st) upper_table_name of
                  Some found_segment \<Rightarrow> remove_segment st found_segment
                | None \<Rightarrow> Inr st) (\<lambda>st1.
         Inr (st1, [Do_Simple_Request DROP_IN (Drop_Content \<lparr>drp_table_name = upper_table_name\<rparr>)
                      (elements_drop_in_info input) Drop_Callback response])))"

definition process_journal :: "commons \<Rightarrow> mem_state \<Rightarrow> response_t option \<Rightarrow> mem_state step" where
  "process_journal cm st response = journaling cm st response"

section \<open>The callbacks\<close>

definition cache_record :: "commons \<Rightarrow> mem_state \<Rightarrow> record_t \<Rightarrow> response_t option \<Rightarrow>
    (page_t option \<times> mem_state) step" where
  \<comment> \<open>the \<open>default\<close> branch of \<open>select_callback\<close>\<close>
  "cache_record cm st alpha_record response =
     (let upper_table_name = string_to_upper cm (rec_table_name alpha_record);
          ins = (\<lambda>s. memory_insert cm s (rec_timestamp alpha_record) (rec_key alpha_record) (rec_value alpha_record));
          rep = (\<lambda>s. replace_algorithm cm s response (rec_timestamp alpha_record) (rec_key alpha_record)
                       (rec_value alpha_record) J_SELECT upper_table_name)
      in case get_segment_by_name (g_segment_list st) upper_table_name of
        Some found_segment \<Rightarrow>
          rbind (get_page_by_key cm st found_segment (map page_get_index (seg_page found_segment)) (rec_key alpha_record)) (\<lambda>_.
          rbind (memory_full st) (\<lambda>full.
          if \<not> full then
            rbind (ins st) (\<lambda>(index, st1).
            Inr ((Some (create_page index False), add_page st1 upper_table_name (create_page index False)), []))
          else
            rbind (rep st) (\<lambda>((found_page, st1), events).
            case found_page of
              Some page \<Rightarrow> Inr ((found_page, add_page st1 upper_table_name page), events)
            | None \<Rightarrow> Inr ((None, st1), events))))
      | None \<Rightarrow>
          let found_segment = create_segment cm upper_table_name
          in rbind (memory_full st) (\<lambda>full.
             if \<not> full then
               rbind (ins st) (\<lambda>(index, st1).
               Inr ((Some (create_page index False),
                     add_segment st1 (found_segment\<lparr>seg_page := [create_page index False]\<rparr>)), []))
             else
               rbind (rep st) (\<lambda>((found_page, st1), events).
               case found_page of
                 Some page \<Rightarrow> Inr ((found_page, add_segment st1 (found_segment\<lparr>seg_page := [page]\<rparr>)), events)
               | None \<Rightarrow> Inr ((None, st1), events))))"

definition select_callback :: "commons \<Rightarrow> mem_state \<Rightarrow> record_t option \<Rightarrow> response_t option \<Rightarrow> mem_state step" where
  \<comment> \<open>\<open>found_page\<close> is uninitialised when there is no record or it reports an error\<close>
  "select_callback cm st result response =
     rbind (sem_wait st) (\<lambda>st1.
     case result of
       None \<Rightarrow> if response = None then Inr (sem_post_neg st1, []) else Inl Uninitialised
     | Some rec \<Rightarrow>
         if rec_timestamp rec = -1 \<or> rec_timestamp rec = -2
         then (if response = None then Inr (sem_post_neg st1, []) else Inl Uninitialised)
         else rbind (cache_record cm st1 rec response) (\<lambda>((found_page, st2), events).
              Inr (sem_post_neg st2,
                   events @ (if found_page = None then [] else respond response (Record_Content rec)))))"

definition create_callback :: "int option \<Rightarrow> response_t option \<Rightarrow> event list" where
  "create_callback result response =
     respond response (Int_Content (case result of None \<Rightarrow> -3 | Some output \<Rightarrow> output))"

definition insert_callback :: "int option \<Rightarrow> response_t option \<Rightarrow> event list" where
  "insert_callback result response =
     respond response (Int_Content (case result of None \<Rightarrow> -3 | Some output \<Rightarrow> output))"

definition describe_callback :: "table_metadata_t list option \<Rightarrow> response_t option \<Rightarrow> event list" where
  "describe_callback result response =
     respond response (Metadata_Content (case result of None \<Rightarrow> [] | Some results \<Rightarrow> results))"

definition drop_callback :: "int option \<Rightarrow> response_t option \<Rightarrow> event list" where
  "drop_callback result response =
     respond response (Int_Content (case result of None \<Rightarrow> -2 | Some drop_status \<Rightarrow> drop_status))"

definition respond_unless_console :: "response_t \<Rightarrow> content \<Rightarrow> event list" where
  "respond_unless_console response c = (if rsp_id response \<noteq> -1337 then [Set_Response (rsp_id response) c] else [])"

definition insert_register :: "commons \<Rightarrow> mem_state \<Rightarrow> journal_register_t \<Rightarrow> mem_state result" where
  "insert_register cm st reg =
     rbind (memory_insert cm st (reg_timestamp reg) (reg_key reg) (reg_value reg)) (\<lambda>(index, st1).
     Inr (add_segment st1 ((create_segment cm (reg_table_name reg))
            \<lparr>seg_page := [create_page index (reg_modified reg)]\<rparr>)))"

definition journal_callback :: "commons \<Rightarrow> mem_state \<Rightarrow> int option \<Rightarrow> response_t option \<Rightarrow> mem_state step" where
  "journal_callback cm st multiinsert_result response =
     rbind (if multiinsert_result = Some 0 then delete_all_segments st else Inr st) (\<lambda>st1.
     rbind
       (case response of
          None \<Rightarrow> Inr (st1, [])
        | Some r \<Rightarrow>
            (case rsp_result r of
               None \<Rightarrow> Inr (st1, [Set_Response (rsp_id r)
                          (Int_Content (case multiinsert_result of None \<Rightarrow> -1 | Some x \<Rightarrow> x))])
             | Some reg \<Rightarrow>
                 if multiinsert_result = None \<or> multiinsert_result = Some (-1)
                 then Inr (st1, respond_unless_console r (Int_Content (-4)))
                 else
                   rbind (insert_register cm st1 reg) (\<lambda>st2.
                   Inr (st2, respond_unless_console r
                     (if reg_modified reg then Int_Content 0
                      else Record_Content \<lparr>rec_table_name = reg_table_name reg, rec_timestamp = reg_timestamp reg,
                             rec_key = reg_key reg, rec_value = reg_value reg\<rparr>)))))
       (\<lambda>(st2, events). Inr (sem_post_neg st2, events)))"

definition trunc_div :: "int \<Rightarrow> int \<Rightarrow> int" where
  \<comment> \<open>C's \<open>/\<close>\<close>
  "trunc_div a b = sgn a * sgn b * (\<bar>a\<bar> div \<bar>b\<bar>)"

definition get_value_callback ::
  "commons \<Rightarrow> int \<Rightarrow> bytes \<Rightarrow> mem_state \<Rightarrow> int option \<Rightarrow> response_t option \<Rightarrow> mem_state option step" where
  \<comment> \<open>\<open>None\<close> is \<open>exit(1)\<close>; \<open>fresh\<close> is the block \<open>malloc\<close> returns\<close>
  "get_value_callback cm now fresh st result response =
     (case result of
        None \<Rightarrow> Inr (if g_value_size st = -1 then None else Some st, [])
      | Some value \<Rightarrow>
          if value \<noteq> g_value_size st then
            let memory_initialized = (g_value_size st \<noteq> -1)
            in if value + 21 > g_memory_size st then Inr (None, [])
               else
                 let page_size = digits_in_a_number 65535 + digits_in_a_number now + value + 3
                 in if page_size = 0 then Inl Div_By_Zero
                 else
                   let st1 = st\<lparr>g_value_size := value, g_total_page_size := page_size,
                                g_total_page_count := trunc_div (g_memory_size st) page_size\<rparr>
                   in if memory_initialized
                      then rbind (journaling cm st1 response) (\<lambda>(st2, events). Inr (Some st2, events))
                      else rbind (init_main_memory st1 fresh) (\<lambda>st2. Inr (Some st2, []))
          else Inr (Some st, []))"

end
