(* ===== verification/Mem_Spec.thy ===== *)
theory Mem_Spec
  imports Mem_Ops
begin

text \<open>
  What the operations of a memory do to its abstract map. The map answers reads; an insert
  updates it, and when main memory is full takes the place of the oldest clean entry or, if every
  entry is dirty, starts a journal of exactly the dirty entries.
\<close>

section \<open>Pages and entries\<close>

lemma entry_of_page:
  assumes "segs_ok sz n g segs" "s \<in> set segs" "p \<in> set (seg_page s)"
  shows "cache sz g segs (seg_name s, page_key sz g p) = Some (snd (entry_of sz g (seg_name s) p))"
proof -
  have "entry_of sz g (seg_name s) p \<in> set (cache_entries sz g segs)"
    using assms(2,3) by (auto simp: cache_entries_def seg_entries_def)
  moreover have "entry_of sz g (seg_name s) p = ((seg_name s, page_key sz g p), snd (entry_of sz g (seg_name s) p))"
    using fst_entry_of [of sz g "seg_name s" p] by (metis prod.collapse)
  ultimately show ?thesis
    unfolding cache_def using segs_ok_distinct [OF assms(1)] by (intro map_of_is_SomeI) auto
qed

lemma page_of_entry:
  assumes "cache sz g segs (T, k) = Some x"
  obtains s p where "s \<in> set segs" "p \<in> set (seg_page s)" "seg_name s = T" "page_key sz g p = k"
    "snd (entry_of sz g T p) = x"
proof -
  have "((T, k), x) \<in> set (cache_entries sz g segs)"
    using assms unfolding cache_def by (rule map_of_SomeD)
  then obtain s p where s: "s \<in> set segs" "p \<in> set (seg_page s)" "((T, k), x) = entry_of sz g (seg_name s) p"
    by (auto simp: cache_entries_def seg_entries_def)
  then have "(T, k) = (seg_name s, page_key sz g p)" using fst_entry_of by (metis fst_conv)
  with s that show ?thesis by (metis prod.inject snd_conv)
qed

lemma snd_entry_of: "g (page_no sz p) = Some (ts, k, v) \<Longrightarrow> snd (entry_of sz g T p) = (ts, v, pg_modified p)"
  by (simp add: entry_of_def)

lemma set_pages_by_modified:
  "set (get_pages_by_modified st m) = {p \<in> set (table_pages (g_segment_list st)). pg_modified p = m}"
  by (auto simp: get_pages_by_modified_def table_pages_def)

lemma find_SomeD: "find P xs = Some x \<Longrightarrow> x \<in> set xs \<and> P x"
  by (induction xs) (auto split: if_splits)

definition entry_time :: "int \<Rightarrow> contents \<Rightarrow> page_t \<Rightarrow> int" where
  "entry_time sz g p = fst (the (g (page_no sz p)))"

text \<open>The insert that journals an entry, and the journal of a map: its dirty entries, each once.\<close>

fun to_insert :: "(string \<times> int) \<times> (int \<times> string \<times> bool) \<Rightarrow> insert_input_t" where
  "to_insert ((T, k), (ts, v, m)) =
     \<lparr>ins_table_name = T, ins_key = word_of_int k, ins_value = v, ins_timestamp = ts\<rparr>"

definition journal_of :: "cache_map \<Rightarrow> insert_input_t list \<Rightarrow> bool" where
  "journal_of c l \<longleftrightarrow>
     set l = {to_insert ((T, k), (ts, v, True)) |T k ts v. c (T, k) = Some (ts, v, True)} \<and>
     length l = card {x. \<exists>ts v. c x = Some (ts, v, True)}"

lemma dirty_entries:
  assumes "\<And>s p. s \<in> set segs \<Longrightarrow> p \<in> set (seg_page s) \<Longrightarrow> nm p = seg_name s"
  shows "map (\<lambda>p. entry_of sz g (nm p) p) (concat (map (\<lambda>s. filter (\<lambda>p. pg_modified p = m) (seg_page s)) segs))
    = filter (\<lambda>e. snd (snd (snd e)) = m) (cache_entries sz g segs)"
  using assms
proof (induction segs)
  case (Cons s segs)
  have "map (\<lambda>p. entry_of sz g (nm p) p) (filter (\<lambda>p. pg_modified p = m) ps) =
      filter (\<lambda>e. snd (snd (snd e)) = m) (map (entry_of sz g (seg_name s)) ps)"
    if "set ps \<subseteq> set (seg_page s)" for ps
    using that Cons.prems [of s] by (induction ps) (auto simp: entry_of_def split: prod.splits)
  with Cons show ?case by (simp add: cache_entries_def seg_entries_def)
qed (simp add: cache_entries_def)

lemma journal_of_entries:
  assumes "segs_ok sz n g segs"
  shows "journal_of (cache sz g segs) (map to_insert (filter (\<lambda>e. snd (snd (snd e)) = True) (cache_entries sz g segs)))"
proof -
  let ?es = "filter (\<lambda>e. snd (snd (snd e)) = True) (cache_entries sz g segs)"
  note d = segs_ok_distinct [OF assms]
  have c: "cache sz g segs x = Some y \<longleftrightarrow> (x, y) \<in> set (cache_entries sz g segs)" for x y
    unfolding cache_def using d by (simp add: map_of_eq_Some_iff)
  have es: "e \<in> set ?es \<longleftrightarrow> (\<exists>T k ts v. e = ((T, k), (ts, v, True)) \<and> cache sz g segs (T, k) = Some (ts, v, True))" for e
    unfolding c by (cases e) auto
  have "set (map to_insert ?es) = {to_insert ((T, k), (ts, v, True)) |T k ts v. cache sz g segs (T, k) = Some (ts, v, True)}"
    unfolding set_map set_eq_iff image_iff Bex_def es mem_Collect_eq by blast
  moreover have "length ?es = card {x. \<exists>ts v. cache sz g segs x = Some (ts, v, True)}"
  proof -
    have "distinct (map fst ?es)" using d by (rule distinct_map_filter)
    then have "length ?es = card (set (map fst ?es))" by (metis distinct_card length_map)
    also have "set (map fst ?es) = {x. \<exists>ts v. cache sz g segs x = Some (ts, v, True)}"
      unfolding set_map set_eq_iff image_iff Bex_def es mem_Collect_eq by auto
    finally show ?thesis .
  qed
  ultimately show ?thesis by (simp add: journal_of_def)
qed

lemma take_semaphore_simps [simp]:
  "g_segment_list (take_semaphore st) = g_segment_list st" "mem_rel (take_semaphore st) c = mem_rel st c"
  "get_pages_by_modified (take_semaphore st) m = get_pages_by_modified st m"
  "same_config st (take_semaphore st)"
  by (simp_all add: take_semaphore_def get_pages_by_modified_def same_config_def)

lemma sem_post_neg_simps [simp]:
  "mem_rel (sem_post_neg st) c = mem_rel st c" "g_segment_list (sem_post_neg st) = g_segment_list st"
  "add_page (sem_post_neg st) T p = sem_post_neg (add_page st T p)"
  "add_segment (sem_post_neg st) s = sem_post_neg (add_segment st s)"
  by (simp_all add: sem_post_neg_def add_page_def add_segment_def)

definition oldest_clean :: "cache_map \<Rightarrow> string \<times> int \<Rightarrow> bool" where
  "oldest_clean c x \<longleftrightarrow>
     (\<exists>ts v. c x = Some (ts, v, False) \<and> (\<forall>y ts' v'. c y = Some (ts', v', False) \<longrightarrow> ts \<le> ts'))"

definition all_dirty :: "cache_map \<Rightarrow> bool" where
  "all_dirty c \<longleftrightarrow> (\<forall>x ts v. c x \<noteq> Some (ts, v, False))"

definition put_page :: "mem_state \<Rightarrow> string \<Rightarrow> page_t \<Rightarrow> bool \<Rightarrow> mem_state" where
  \<comment> \<open>where the operations put a new page: in the segment of the table, or in a new segment\<close>
  "put_page st T page present =
     (if present then add_page st T page else add_segment st \<lparr>seg_name = T, seg_page = [page]\<rparr>)"

lemma put_page_sem [simp]: "put_page (sem_post_neg st) T p b = sem_post_neg (put_page st T p b)"
  by (simp add: put_page_def)

section \<open>Looking up\<close>

context commons_api
begin

lemma lookup_spec:
  assumes "mem_inv st g" "c = cache (g_total_page_size st) g (g_segment_list st)"
  shows "get_segment_by_name (g_segment_list st) T = None \<Longrightarrow> c (T, k) = None"
    and "get_segment_by_name (g_segment_list st) T = Some s \<Longrightarrow>
      \<exists>po. get_page_by_key cm st s (map page_get_index (seg_page s)) k = Inr po \<and>
        c (T, k) = map_option (\<lambda>p. snd (entry_of (g_total_page_size st) g T p)) po \<and>
        (\<forall>p. po = Some p \<longrightarrow> p \<in> set (seg_page s) \<and> page_key (g_total_page_size st) g p = k) \<and>
        s \<in> set (g_segment_list st) \<and> seg_name s = T"
proof -
  show "get_segment_by_name (g_segment_list st) T = None \<Longrightarrow> c (T, k) = None"
    using assms(2) by (simp add: get_segment_None cache_None)
  assume "get_segment_by_name (g_segment_list st) T = Some s"
  then obtain A B where s: "g_segment_list st = A @ s # B" "seg_name s = T"
    by (rule get_segment_split)
  then have "s \<in> set (g_segment_list st)" by simp
  note pk = get_page_by_key_spec [OF assms(1) this, of k]
  note ce = cache_segment [OF mem_invD(4) [OF assms(1), unfolded s(1)], of k]
  let ?po = "find (\<lambda>p. page_key (g_total_page_size st) g p = k) (seg_page s)"
  have "c (T, k) = map_option (\<lambda>p. snd (entry_of (g_total_page_size st) g T p)) ?po"
    using ce s assms(2) by (cases ?po) simp_all
  moreover have "\<forall>p. ?po = Some p \<longrightarrow> p \<in> set (seg_page s) \<and> page_key (g_total_page_size st) g p = k"
    by (blast dest: find_SomeD)
  ultimately show "\<exists>po. get_page_by_key cm st s (map page_get_index (seg_page s)) k = Inr po \<and>
        c (T, k) = map_option (\<lambda>p. snd (entry_of (g_total_page_size st) g T p)) po \<and>
        (\<forall>p. po = Some p \<longrightarrow> p \<in> set (seg_page s) \<and> page_key (g_total_page_size st) g p = k) \<and>
        s \<in> set (g_segment_list st) \<and> seg_name s = T"
    using pk s(2) \<open>s \<in> set (g_segment_list st)\<close> by blast
qed

lemma post_wait:
  assumes "g_mem_op_semaphore st = 1"
  shows "sem_wait st = Inr (st\<lparr>g_mem_op_semaphore := 0\<rparr>)"
    and "sem_post_neg (st\<lparr>g_mem_op_semaphore := 0\<rparr>) = st"
  using assms by (simp_all add: sem_wait_def sem_post_neg_def)

lemma u16_key [simp]: "uint (string_to_uint16 (dec_int (uint (k :: u16)))) = uint k"
  by simp

lemma process_select_spec:
  assumes "mem_rel st c" "g_mem_op_semaphore st = 1" "T = map upc (sel_table_name input)" "k = uint (sel_key input)"
  shows "process_select cm st input response =
    (case c (T, k) of
       Some (ts, v, m) \<Rightarrow> Inr (st, respond response (Record_Content
          \<lparr>rec_table_name = T, rec_timestamp = ts, rec_key = k, rec_value = v\<rparr>))
     | None \<Rightarrow> Inr (st, [select_request cm input response]))"
proof -
  let ?st = "st\<lparr>g_mem_op_semaphore := 0\<rparr>"
  have r: "mem_rel ?st c" using assms(1) by simp
  then obtain g where g: "mem_inv ?st g" "c = cache (g_total_page_size ?st) g (g_segment_list ?st)"
    by (auto simp: mem_rel_def)
  note l = lookup_spec [OF g, of T]
  note sem = post_wait [OF assms(2)]
  show ?thesis
  proof (cases "get_segment_by_name (g_segment_list ?st) T")
    case None
    with l(1) [of k] sem show ?thesis
      by (simp add: process_select_def to_upper assms(3) [symmetric])
  next
    case (Some s)
    then obtain po where po: "get_page_by_key cm ?st s (map page_get_index (seg_page s)) k = Inr po"
      "c (T, k) = map_option (\<lambda>p. snd (entry_of (g_total_page_size ?st) g T p)) po"
      "\<forall>p. po = Some p \<longrightarrow> p \<in> set (seg_page s) \<and> page_key (g_total_page_size ?st) g p = k"
      "s \<in> set (g_segment_list ?st)" "seg_name s = T"
      using l(2) [of s k] by blast
    show ?thesis
    proof (cases po)
      case None
      with po Some sem show ?thesis
        by (simp add: process_select_def to_upper assms(3,4) [symmetric])
    next
      fix p assume p: "po = Some p"
      then have "p \<in> set (table_pages (g_segment_list ?st))" using po segment_pages_table by blast
      then obtain ts k' v where e: "page_no (g_total_page_size ?st) p < pcount ?st"
        "pg_index p = int (page_no (g_total_page_size ?st) p) * g_total_page_size ?st"
        "g (page_no (g_total_page_size ?st) p) = Some (ts, k', v)" "entry_ok ?st (ts, k', v)"
        "page_key (g_total_page_size ?st) g p = k'"
        by (rule table_page_entry [OF g(1)])
      then have k': "k' = k" using po(3) p by simp
      have f: "fits_long ts" using e(4) by (simp add: time_ok_def)
      note vals = main_memory_values_entry [OF mem_invD(5) [OF g(1)] e(1,3), folded e(2)]
      have "c (T, k) = Some (ts, v, pg_modified p)"
        using po(2) p e(3) by (simp add: snd_entry_of)
      then show ?thesis
        using po(1,5) p Some sem vals f
        by (simp add: process_select_def to_upper assms(3,4) [symmetric] k' deref_def)
          (simp add: assms(4))
    qed
  qed
qed

section \<open>The victim of an eviction\<close>

lemma timestamp_at_page:
  assumes "mem_inv st g" "p \<in> set (table_pages (g_segment_list st))"
  shows "timestamp_at cm st (pg_index p) = Inr (entry_time (g_total_page_size st) g p)"
proof -
  obtain ts k v where e: "page_no (g_total_page_size st) p < pcount st"
    "pg_index p = int (page_no (g_total_page_size st) p) * g_total_page_size st"
    "g (page_no (g_total_page_size st) p) = Some (ts, k, v)"
    by (rule table_page_entry [OF assms])
  show ?thesis
    using timestamp_at_entry [OF mem_invD(5) [OF assms(1)] e(1,3), folded e(2)] e(3)
    by (simp add: entry_time_def)
qed

lemma indexes_sorted_spec:
  assumes "mem_inv st g" "ps \<noteq> []" "set ps \<subseteq> set (table_pages (g_segment_list st))"
  obtains p ids where "p \<in> set ps" "indexes_sorted cm st (map page_get_index ps) = Inr ids" "ids ! 0 = pg_index p"
    "\<forall>q \<in> set ps. entry_time (g_total_page_size st) g p \<le> entry_time (g_total_page_size st) g q"
proof -
  let ?lt = "\<lambda>a b. order_by_timestamp cm st a b = Inr True" and ?t = "entry_time (g_total_page_size st) g"
  let ?xs = "map page_get_index ps"
  have t: "timestamp_at cm st (pg_index q) = Inr (?t q)" if "q \<in> set ps" for q
    using timestamp_at_page [OF assms(1)] assms(3) that by blast
  have lt: "?lt (pg_index a) (pg_index b) \<longleftrightarrow> ?t a < ?t b" if "a \<in> set ps" "b \<in> set ps" for a b
    using t that by (simp add: order_by_timestamp_def)
  have xs: "x \<in> set ?xs \<longleftrightarrow> (\<exists>q \<in> set ps. x = pg_index q)" for x
    by (auto simp: page_get_index_def)
  let ?is = "list_sorted cm ?lt ?xs"
  have "\<not> list_ex (\<lambda>i. isl (timestamp_at cm st i)) ?xs"
    using t by (auto simp: list_ex_iff page_get_index_def)
  then have s: "indexes_sorted cm st ?xs = Inr ?is"
    by (simp add: indexes_sorted_def)
  have ne: "?is \<noteq> []" using assms(2) sorted_mset(2) [of ?lt ?xs] by (metis length_0_conv map_is_Nil_conv)
  then have "hd ?is \<in> set ?xs" using sorted_mset(1) [of ?lt ?xs] hd_in_set by blast
  then obtain p where p: "p \<in> set ps" "hd ?is = pg_index p" by (auto simp: page_get_index_def)
  have "?t p \<le> ?t q" if q: "q \<in> set ps" for q
  proof -
    have "\<not> ?lt (pg_index q) (hd ?is)"
    proof (rule sorted_hd)
      show "\<forall>x \<in> set ?xs. \<forall>y \<in> set ?xs. ?lt x y \<longrightarrow> \<not> ?lt y x"
        using lt by (fastforce simp: page_get_index_def)
      show "\<forall>x \<in> set ?xs. \<forall>y \<in> set ?xs. \<forall>z \<in> set ?xs. \<not> ?lt x y \<longrightarrow> \<not> ?lt y z \<longrightarrow> \<not> ?lt x z"
        using lt by (fastforce simp: page_get_index_def)
    qed (use q xs in blast)
    then show ?thesis using lt q p by (simp add: not_less)
  qed
  with p s ne that show ?thesis by (simp add: hd_conv_nth)
qed

section \<open>The journal\<close>

lemma string_to_uint16_key: "key_ok k \<Longrightarrow> string_to_uint16 (dec_int k) = word_of_int k"
proof -
  assume "key_ok k"
  then have "fits_long k" by (simp add: key_ok_def fits_long_def)
  then show ?thesis by (simp add: string_to_uint16_def string_to_long_def)
qed

lemma table_name_of_page:
  assumes "mem_inv st g" "s \<in> set (g_segment_list st)" "p \<in> set (seg_page s)"
  shows "get_table_name_by_index st (pg_index p) = Some (seg_name s)"
proof -
  obtain A B where A: "g_segment_list st = A @ s # B" using assms(2) by (meson split_list)
  obtain X Y where X: "seg_page s = X @ p # Y" using assms(3) by (meson split_list)
  have n: "\<forall>t \<in> set A. \<not> segment_has_page_by_index t (pg_index p)"
    using page_index_unique(1) [OF _ X] mem_invD(4) [OF assms(1)] unfolding A by blast
  have h: "segment_has_page_by_index s (pg_index p)" by (simp add: segment_has_page_by_index_def X)
  have "find (\<lambda>s. segment_has_page_by_index s (pg_index p)) (A @ s # B) = Some s"
    using n h by (induction A) simp_all
  then show ?thesis by (simp add: get_table_name_by_index_def A)
qed

lemma list_add_multi_lists_pages:
  assumes "mem_inv st g" "\<forall>p \<in> set ps. p \<in> set (table_pages (g_segment_list st)) \<and> get_table_name_by_index st (pg_index p) = Some (nm p)"
  shows "list_add_multi_lists cm st (map page_get_index ps) =
    Inr (map (\<lambda>p. to_insert (entry_of (g_total_page_size st) g (nm p) p)) ps)"
  using assms(2)
proof (induction ps)
  case (Cons p ps)
  then have "p \<in> set (table_pages (g_segment_list st))" by simp
  then obtain ts k v where e: "page_no (g_total_page_size st) p < pcount st"
    "pg_index p = int (page_no (g_total_page_size st) p) * g_total_page_size st"
    "g (page_no (g_total_page_size st) p) = Some (ts, k, v)" "entry_ok st (ts, k, v)"
    by (rule table_page_entry [OF assms(1)])
  note vals = main_memory_values_entry [OF mem_invD(5) [OF assms(1)] e(1,3), folded e(2)]
  have k: "string_to_uint16 (dec_int k) = word_of_int k" "fits_long ts"
    using e(4) string_to_uint16_key by (simp_all add: time_ok_def)
  have "list_add_multi_lists cm st (map page_get_index ps) =
      Inr (map (\<lambda>p. to_insert (entry_of (g_total_page_size st) g (nm p) p)) ps)"
    using Cons by simp
  moreover have "to_insert (entry_of (g_total_page_size st) g (nm p) p) =
      \<lparr>ins_table_name = nm p, ins_key = word_of_int k, ins_value = v, ins_timestamp = ts\<rparr>"
    using e(3) by (simp add: entry_of_def)
  ultimately show ?case
    using Cons.prems vals k by (simp add: page_get_index_def [of p] deref_def)
qed simp

lemma journaling_spec:
  assumes "mem_rel st c"
  obtains l where "journal_of c l"
    "journaling cm st response = Inr (take_semaphore st,
       [Do_Simple_Request MULTIINSERT_IN (Inserts_Content l) (elements_multiinsert_in_info l) Journal_Callback response])"
proof -
  let ?st = "take_semaphore st"
  have "mem_rel ?st c" using assms by simp
  then obtain g where g: "mem_inv ?st g" "c = cache (g_total_page_size ?st) g (g_segment_list ?st)"
    by (auto simp: mem_rel_def)
  let ?ps = "get_pages_by_modified ?st True" and ?nm = "\<lambda>p. the (get_table_name_by_index ?st (pg_index p))"
  have nm: "get_table_name_by_index ?st (pg_index p) = Some (seg_name s)" if "s \<in> set (g_segment_list ?st)" "p \<in> set (seg_page s)" for s p
    using table_name_of_page [OF g(1) that] .
  have ps: "\<forall>p \<in> set ?ps. p \<in> set (table_pages (g_segment_list ?st)) \<and> get_table_name_by_index ?st (pg_index p) = Some (?nm p)"
  proof
    fix p assume "p \<in> set ?ps"
    then have "p \<in> set (table_pages (g_segment_list ?st))" by (simp add: set_pages_by_modified)
    moreover then obtain s where "s \<in> set (g_segment_list ?st)" "p \<in> set (seg_page s)" by (auto simp: table_pages_def)
    ultimately show "p \<in> set (table_pages (g_segment_list ?st)) \<and> get_table_name_by_index ?st (pg_index p) = Some (?nm p)"
      using nm by simp
  qed
  let ?l = "map to_insert (filter (\<lambda>e. snd (snd (snd e)) = True) (cache_entries (g_total_page_size ?st) g (g_segment_list ?st)))"
  have de: "map (\<lambda>p. entry_of (g_total_page_size ?st) g (?nm p) p) ?ps =
      filter (\<lambda>e. snd (snd (snd e)) = True) (cache_entries (g_total_page_size ?st) g (g_segment_list ?st))"
    unfolding get_pages_by_modified_def by (rule dirty_entries) (simp only: nm option.sel)
  have "list_add_multi_lists cm ?st (map page_get_index ?ps) = Inr ?l"
    unfolding list_add_multi_lists_pages [OF g(1) ps] de [symmetric] map_map comp_def ..
  moreover have "journal_of c ?l"
    unfolding g(2) by (rule journal_of_entries [OF mem_invD(4) [OF g(1)]])
  ultimately show ?thesis
    using that [of ?l] by (simp add: journaling_def Let_def)
qed

section \<open>Room for an entry\<close>

lemma insert_page_spec:
  assumes "mem_rel st c" "card (dom c) < pcount st" "entry_ok st (ts, k, v)" "c (T, k) = None" "map upc T = T"
    "present \<longleftrightarrow> get_segment_by_name (g_segment_list st) T \<noteq> None"
  obtains index st1 where "memory_insert cm st ts k v = Inr (index, st1)" "same_config st st1"
    "g_mem_op_semaphore st1 = g_mem_op_semaphore st"
    "mem_rel (put_page st1 T (create_page index m) present) (c((T, k) \<mapsto> (ts, v, m)))"
proof (cases present)
  case True
  then have "get_segment_by_name (g_segment_list st) T \<noteq> None" using assms(6) by simp
  then obtain index buf where "memory_insert cm st ts k v = Inr (index, st\<lparr>g_main_memory := buf\<rparr>)" "length buf = length (g_main_memory st)"
    "mem_rel (add_page (st\<lparr>g_main_memory := buf\<rparr>) T (create_page index m)) (c((T, k) \<mapsto> (ts, v, m)))"
    using insert_in_segment [OF assms(1-4)] by metis
  then show ?thesis
    using True by (intro that [of index "st\<lparr>g_main_memory := buf\<rparr>"]) (simp_all add: put_page_def same_config_def)
next
  case False
  then have "get_segment_by_name (g_segment_list st) T = None" using assms(6) by simp
  then obtain index buf where "memory_insert cm st ts k v = Inr (index, st\<lparr>g_main_memory := buf\<rparr>)" "length buf = length (g_main_memory st)"
    "mem_rel (add_segment (st\<lparr>g_main_memory := buf\<rparr>) \<lparr>seg_name = T, seg_page = [create_page index m]\<rparr>) (c((T, k) \<mapsto> (ts, v, m)))"
    using insert_new_segment [OF assms(1-3) _ assms(5)] by metis
  then show ?thesis
    using False by (intro that [of index "st\<lparr>g_main_memory := buf\<rparr>"]) (simp_all add: put_page_def same_config_def)
qed

lemma clean_page:
  assumes "mem_inv st g" "c = cache (g_total_page_size st) g (g_segment_list st)"
    "s \<in> set (g_segment_list st)" "p \<in> set (seg_page s)"
  shows "c (seg_name s, page_key (g_total_page_size st) g p) =
    Some (entry_time (g_total_page_size st) g p, snd (snd (the (g (page_no (g_total_page_size st) p)))), pg_modified p)"
  using entry_of_page [OF mem_invD(4) [OF assms(1)] assms(3,4)] assms(2)
  by (simp add: entry_of_def entry_time_def split: prod.splits)

lemma page_of_time:
  assumes "c x = Some (ts, v, m)" "c = cache (g_total_page_size st) g (g_segment_list st)"
  obtains p where "p \<in> set (get_pages_by_modified st m)" "entry_time (g_total_page_size st) g p = ts"
proof -
  obtain T k where x: "x = (T, k)" by (cases x)
  have "cache (g_total_page_size st) g (g_segment_list st) (T, k) = Some (ts, v, m)"
    using assms x by simp
  then obtain s p where s: "s \<in> set (g_segment_list st)" "p \<in> set (seg_page s)"
    "snd (entry_of (g_total_page_size st) g T p) = (ts, v, m)"
    by (rule page_of_entry)
  have "pg_modified p = m" "entry_time (g_total_page_size st) g p = ts"
    using s(3) by (auto simp: entry_of_def entry_time_def split: prod.splits)
  with s segment_pages_table that show ?thesis by (auto simp: set_pages_by_modified)
qed

lemma no_clean_page:
  assumes "mem_inv st g" "c = cache (g_total_page_size st) g (g_segment_list st)"
  shows "get_pages_by_modified st False = [] \<longleftrightarrow> all_dirty c"
proof
  assume n: "get_pages_by_modified st False = []"
  show "all_dirty c"
    unfolding all_dirty_def
  proof (intro allI notI)
    fix x ts v assume "c x = Some (ts, v, False)"
    then obtain p where "p \<in> set (get_pages_by_modified st False)"
      by (rule page_of_time [OF _ assms(2)])
    with n show False by simp
  qed
next
  assume d: "all_dirty c"
  show "get_pages_by_modified st False = []"
  proof (rule ccontr)
    assume "get_pages_by_modified st False \<noteq> []"
    then obtain p where "p \<in> set (get_pages_by_modified st False)" by (meson list.set_sel(1))
    then obtain s where "s \<in> set (g_segment_list st)" "p \<in> set (seg_page s)" "\<not> pg_modified p"
      by (auto simp: set_pages_by_modified table_pages_def)
    with clean_page [OF assms, of s p] d show False unfolding all_dirty_def by simp
  qed
qed

lemma evict_spec:
  assumes "mem_rel st c" "\<not> all_dirty c" "map upc T = T"
  obtains x ids st1 where "oldest_clean c x" "get_pages_by_modified st False \<noteq> []"
    "indexes_sorted cm st (map page_get_index (get_pages_by_modified st False)) = Inr ids"
    "eliminate_page_instance_by_index cm st (ids ! 0) T = Inr st1" "same_config st st1"
    "g_mem_op_semaphore st1 = g_mem_op_semaphore st" "mem_rel st1 (c(x := None))"
    "get_segment_by_name (g_segment_list st1) T = None \<longleftrightarrow> get_segment_by_name (g_segment_list st) T = None"
proof -
  obtain g where g: "mem_inv st g" "c = cache (g_total_page_size st) g (g_segment_list st)"
    using assms(1) by (auto simp: mem_rel_def)
  let ?ps = "get_pages_by_modified st False" and ?sz = "g_total_page_size st"
  have ne: "?ps \<noteq> []" using no_clean_page [OF g] assms(2) by simp
  have sub: "set ?ps \<subseteq> set (table_pages (g_segment_list st))" by (auto simp: set_pages_by_modified)
  obtain p ids where p: "p \<in> set ?ps" "indexes_sorted cm st (map page_get_index ?ps) = Inr ids" "ids ! 0 = pg_index p"
    "\<forall>q \<in> set ?ps. entry_time ?sz g p \<le> entry_time ?sz g q"
    by (rule indexes_sorted_spec [OF g(1) ne sub])
  have "p \<in> set (table_pages (g_segment_list st))" using p(1) sub by blast
  then obtain A s B X Y where s: "g_segment_list st = A @ s # B" "seg_page s = X @ p # Y"
    by (rule table_page_split)
  let ?x = "(seg_name s, page_key ?sz g p)"
  obtain st1 where e: "eliminate_page_instance_by_index cm st (pg_index p) T = Inr st1" "same_config st st1"
    "g_mem_op_semaphore st1 = g_mem_op_semaphore st"
    "mem_rel st1 ((cache ?sz g (g_segment_list st))(?x := None))"
    "get_segment_by_name (g_segment_list st1) T = None \<longleftrightarrow> get_segment_by_name (g_segment_list st) T = None"
    by (rule eliminate_spec [OF g(1) s assms(3)])
  have "\<not> pg_modified p" using p(1) by (simp add: set_pages_by_modified)
  then have cx: "c ?x = Some (entry_time ?sz g p, snd (snd (the (g (page_no ?sz p)))), False)"
    using clean_page [OF g, of s p] s by simp
  have "entry_time ?sz g p \<le> ts'" if y: "c y = Some (ts', v', False)" for y ts' v'
  proof -
    obtain q where "q \<in> set ?ps" "entry_time ?sz g q = ts'"
      by (rule page_of_time [OF y g(2)])
    then show ?thesis using p(4) by blast
  qed
  with cx have "oldest_clean c ?x" unfolding oldest_clean_def by blast
  with e p(2,3) ne g(2) show ?thesis by (intro that [of ?x ids st1]) simp_all
qed

end

end
