(* ===== verification/Mem_Props.thy ===== *)
theory Mem_Props
  imports Mem_Spec
begin

text \<open>
  The operations of a memory against its abstract map, one specification per operation.
\<close>

lemma put_page_fields:
  "same_config st (put_page st1 T p b) = same_config st st1"
  "g_mem_op_semaphore (put_page st1 T p b) = g_mem_op_semaphore st1"
  by (simp_all add: same_config_def put_page_def add_page_def add_segment_def)

text \<open>
  The part \<open>process_insert\<close> and \<open>select_callback\<close> have in common, for a key that is not cached:
  a free page if there is one, else the replacement algorithm. \<open>post\<close> is what is done to the
  semaphore right after a free page was filled.
\<close>

definition place_entry ::
  "commons \<Rightarrow> (mem_state \<Rightarrow> mem_state) \<Rightarrow> mem_state \<Rightarrow> response_t option \<Rightarrow> int \<Rightarrow> int \<Rightarrow> string \<Rightarrow>
   journal_invocation_t \<Rightarrow> string \<Rightarrow> bool \<Rightarrow> (page_t option \<times> mem_state) step" where
  "place_entry cm post st response ts k v ivk T present =
     rbind (memory_full st) (\<lambda>full.
     if \<not> full then
       rbind (memory_insert cm st ts k v) (\<lambda>(index, st1).
       let page = create_page index (ivk = J_INSERT)
       in Inr ((Some page, post (put_page st1 T page present)), []))
     else
       rbind (replace_algorithm cm st response ts k v ivk T) (\<lambda>((found_page, st1), events).
       case found_page of
         Some page \<Rightarrow> Inr ((found_page, put_page st1 T page present), events)
       | None \<Rightarrow> Inr ((None, st1), events)))"

lemma insert_page_place:
  "insert_page cm st now input T response =
   place_entry cm sem_post_neg st response now (uint (ins_key input)) (ins_value input) J_INSERT T True"
  unfolding insert_page_def place_entry_def put_page_def Let_def if_True simp_thms(6) ..

context commons_api
begin

lemma insert_segment_place:
  assumes "map upc T = T"
  shows "insert_segment cm st now input T response =
   place_entry cm sem_post_neg st response now (uint (ins_key input)) (ins_value input) J_INSERT T False"
  unfolding insert_segment_def place_entry_def put_page_def Let_def create_segment_def to_upper assms
    if_False simp_thms(6) segment_t.simps sem_post_neg_simps ..

lemma replace_evicts:
  assumes "mem_rel st c" "card (dom c) = pcount st" "entry_ok st (ts, k, v)" "c (T, k) = None" "map upc T = T"
    "present \<longleftrightarrow> get_segment_by_name (g_segment_list st) T \<noteq> None" "\<not> all_dirty c"
  obtains x page st1 where "oldest_clean c x"
    "replace_algorithm cm st response ts k v ivk T = Inr ((Some page, sem_post_neg st1), [])"
    "same_config st st1" "g_mem_op_semaphore st1 = g_mem_op_semaphore st"
    "mem_rel (put_page st1 T page present) ((c(x := None))((T, k) \<mapsto> (ts, v, ivk = J_INSERT)))"
proof -
  obtain x ids st1 where e: "oldest_clean c x" "get_pages_by_modified st False \<noteq> []"
    "indexes_sorted cm st (map page_get_index (get_pages_by_modified st False)) = Inr ids"
    "eliminate_page_instance_by_index cm st (ids ! 0) T = Inr st1" "same_config st st1"
    "g_mem_op_semaphore st1 = g_mem_op_semaphore st" "mem_rel st1 (c(x := None))"
    "get_segment_by_name (g_segment_list st1) T = None \<longleftrightarrow> get_segment_by_name (g_segment_list st) T = None"
    by (rule evict_spec [OF assms(1,7,5)])
  have x: "x \<in> dom c" using e(1) by (auto simp: oldest_clean_def)
  note ok = same_config_ok [OF e(5)]
  have "card (dom (c(x := None))) < card (dom c)"
    using card_Diff1_less [OF mem_rel_capacity(1) [OF assms(1)] x] by (simp del: card_Diff_singleton card_Diff_insert)
  then have room: "card (dom (c(x := None))) < pcount st1" using assms(2) ok(5) by simp
  have en: "entry_ok st1 (ts, k, v)" using assms(3) ok(2) by simp
  have c: "(c(x := None)) (T, k) = None" using assms(4) by simp
  have pr: "present \<longleftrightarrow> get_segment_by_name (g_segment_list st1) T \<noteq> None" using assms(6) e(8) by simp
  obtain index st2 where i: "memory_insert cm st1 ts k v = Inr (index, st2)" "same_config st1 st2"
    "g_mem_op_semaphore st2 = g_mem_op_semaphore st1"
    "mem_rel (put_page st2 T (create_page index (ivk = J_INSERT)) present) ((c(x := None))((T, k) \<mapsto> (ts, v, ivk = J_INSERT)))"
    by (rule insert_page_spec [OF e(7) room en c assms(5) pr])
  show ?thesis
  proof (rule that [OF e(1)])
    show "replace_algorithm cm st response ts k v ivk T =
        Inr ((Some (create_page index (ivk = J_INSERT)), sem_post_neg st2), [])"
      using e(2,3,4) i(1) by (simp add: replace_algorithm_def)
    show "same_config st st2" using e(5) i(2) by (rule same_config_trans)
    show "g_mem_op_semaphore st2 = g_mem_op_semaphore st" using e(6) i(3) by simp
  qed (rule i(4))
qed

lemma replace_journals:
  assumes "mem_rel st c" "all_dirty c"
  obtains l where "journal_of c l"
    "replace_algorithm cm st response ts k v ivk T = Inr ((None, take_semaphore st),
       [Do_Simple_Request MULTIINSERT_IN (Inserts_Content l) (elements_multiinsert_in_info l) Journal_Callback
          (Some (pending response \<lparr>reg_key = k, reg_table_name = T, reg_value = v, reg_timestamp = ts,
                                  reg_modified = (ivk = J_INSERT)\<rparr>))])"
proof -
  obtain g where "mem_inv st g" "c = cache (g_total_page_size st) g (g_segment_list st)"
    using assms(1) by (auto simp: mem_rel_def)
  then have n: "get_pages_by_modified st False = []" using no_clean_page assms(2) by simp
  obtain l where l: "journal_of c l"
    "journaling cm st (Some (pending response \<lparr>reg_key = k, reg_table_name = T, reg_value = v, reg_timestamp = ts,
                                  reg_modified = (ivk = J_INSERT)\<rparr>)) = Inr (take_semaphore st,
       [Do_Simple_Request MULTIINSERT_IN (Inserts_Content l) (elements_multiinsert_in_info l) Journal_Callback
          (Some (pending response \<lparr>reg_key = k, reg_table_name = T, reg_value = v, reg_timestamp = ts,
                                  reg_modified = (ivk = J_INSERT)\<rparr>))])"
    by (rule journaling_spec [OF assms(1)])
  show ?thesis by (rule that [OF l(1)]) (simp add: replace_algorithm_def n l(2))
qed

text \<open>The four outcomes of an insert.\<close>

lemma process_insert_update:
  assumes "mem_rel st c" "g_mem_op_semaphore st = 1" "T = map upc (ins_table_name input)" "k = uint (ins_key input)"
    "value_ok st (ins_value input)" "time_ok st now2" "c (T, k) \<noteq> None"
  obtains st' where "process_insert cm now now2 st input response = Inr (st', respond response (Int_Content 0))"
    "mem_rel st' (c((T, k) \<mapsto> (now2, ins_value input, True)))" "same_config st st'" "g_mem_op_semaphore st' = 1"
proof -
  let ?st = "st\<lparr>g_mem_op_semaphore := 0\<rparr>"
  have r: "mem_rel ?st c" using assms(1) by simp
  then obtain g where g: "mem_inv ?st g" "c = cache (g_total_page_size ?st) g (g_segment_list ?st)"
    by (auto simp: mem_rel_def)
  obtain s where s: "get_segment_by_name (g_segment_list ?st) T = Some s"
    using lookup_spec(1) [OF g, of T k] assms(7) by fastforce
  obtain po where po: "get_page_by_key cm ?st s (map page_get_index (seg_page s)) k = Inr po"
      "c (T, k) = map_option (\<lambda>p. snd (entry_of (g_total_page_size ?st) g T p)) po"
    using lookup_spec(2) [OF g s, of k] by blast
  then obtain p where p: "get_page_by_key cm ?st s (map page_get_index (seg_page s)) k = Inr (Some p)"
    using assms(7) by (cases po) auto
  have sc: "same_config st ?st" by (rule same_config_update(3))
  have "key_ok k" using assms(4) uint_lt2p [of "ins_key input"] by (simp add: key_ok_def)
  then have e: "entry_ok ?st (now2, k, ins_value input)"
    using assms(5,6) by (simp add: same_config_ok [OF sc])
  obtain buf where b: "modify_memory_by_index cm ?st now2 (pg_index p) k (ins_value input) = Inr (?st\<lparr>g_main_memory := buf\<rparr>)"
    "length buf = length (g_main_memory ?st)"
    "mem_rel (set_modified (?st\<lparr>g_main_memory := buf\<rparr>) T (pg_index p)) (c((T, k) \<mapsto> (now2, ins_value input, True)))"
    by (rule modify_in_segment [OF r s p e])
  let ?st' = "sem_post_neg (set_modified (?st\<lparr>g_main_memory := buf\<rparr>) T (pg_index p))"
  have len: "int (length (ins_value input)) \<le> g_value_size ?st" using assms(5) by (simp add: value_ok_def)
  show ?thesis
  proof (rule that)
    show "process_insert cm now now2 st input response = Inr (?st', respond response (Int_Content 0))"
      using len s p b(1) unfolding process_insert_def post_wait(1) [OF assms(2)]
      by (simp add: to_upper assms(3,4) [symmetric])
    show "mem_rel ?st' (c((T, k) \<mapsto> (now2, ins_value input, True)))" using b(3) by simp
    show "same_config st ?st'" "g_mem_op_semaphore ?st' = 1"
      using b(2) by (simp_all add: same_config_def sem_post_neg_def set_modified_def)
  qed
qed

text \<open>The three outcomes of placing an entry.\<close>

lemma place_entry_spec:
  assumes r: "mem_rel st c" and sem: "g_mem_op_semaphore st = 0" and e: "entry_ok st (ts, k, v)"
    and c: "c (T, k) = None" and T: "map upc T = T"
    and p: "present \<longleftrightarrow> get_segment_by_name (g_segment_list st) T \<noteq> None"
  shows "card (dom c) < pcount st \<Longrightarrow>
     \<exists>page st1. place_entry cm post st response ts k v ivk T present = Inr ((Some page, post st1), []) \<and>
       mem_rel st1 (c((T, k) \<mapsto> (ts, v, ivk = J_INSERT))) \<and> same_config st st1 \<and> g_mem_op_semaphore st1 = 0"
    and "card (dom c) = pcount st \<Longrightarrow> \<not> all_dirty c \<Longrightarrow>
     \<exists>page st1 x. oldest_clean c x \<and>
       place_entry cm post st response ts k v ivk T present = Inr ((Some page, sem_post_neg st1), []) \<and>
       mem_rel st1 ((c(x := None))((T, k) \<mapsto> (ts, v, ivk = J_INSERT))) \<and> same_config st st1 \<and> g_mem_op_semaphore st1 = 0"
    and "card (dom c) = pcount st \<Longrightarrow> all_dirty c \<Longrightarrow>
     \<exists>l. journal_of c l \<and> place_entry cm post st response ts k v ivk T present = Inr ((None, st),
       [Do_Simple_Request MULTIINSERT_IN (Inserts_Content l) (elements_multiinsert_in_info l) Journal_Callback
          (Some (pending response \<lparr>reg_key = k, reg_table_name = T, reg_value = v, reg_timestamp = ts,
                                  reg_modified = (ivk = J_INSERT)\<rparr>))])"
proof -
  note full = mem_rel_capacity(3) [OF r]
  show "\<exists>page st1. place_entry cm post st response ts k v ivk T present = Inr ((Some page, post st1), []) \<and>
       mem_rel st1 (c((T, k) \<mapsto> (ts, v, ivk = J_INSERT))) \<and> same_config st st1 \<and> g_mem_op_semaphore st1 = 0"
    if room: "card (dom c) < pcount st"
  proof -
    obtain index st1 where i: "memory_insert cm st ts k v = Inr (index, st1)" "same_config st st1"
      "g_mem_op_semaphore st1 = g_mem_op_semaphore st"
      "mem_rel (put_page st1 T (create_page index (ivk = J_INSERT)) present) (c((T, k) \<mapsto> (ts, v, ivk = J_INSERT)))"
      by (rule insert_page_spec [OF r room e c T p])
    then show ?thesis
      using room sem full
      by (intro exI [of _ "create_page index (ivk = J_INSERT)"]
            exI [of _ "put_page st1 T (create_page index (ivk = J_INSERT)) present"])
        (simp add: place_entry_def put_page_fields Let_def)
  qed
  show "\<exists>page st1 x. oldest_clean c x \<and>
       place_entry cm post st response ts k v ivk T present = Inr ((Some page, sem_post_neg st1), []) \<and>
       mem_rel st1 ((c(x := None))((T, k) \<mapsto> (ts, v, ivk = J_INSERT))) \<and> same_config st st1 \<and> g_mem_op_semaphore st1 = 0"
    if fl: "card (dom c) = pcount st" and d: "\<not> all_dirty c"
  proof -
    obtain x page st1 where x: "oldest_clean c x"
      "replace_algorithm cm st response ts k v ivk T = Inr ((Some page, sem_post_neg st1), [])"
      "same_config st st1" "g_mem_op_semaphore st1 = g_mem_op_semaphore st"
      "mem_rel (put_page st1 T page present) ((c(x := None))((T, k) \<mapsto> (ts, v, ivk = J_INSERT)))"
      by (rule replace_evicts [OF r fl e c T p d])
    then show ?thesis
      using fl sem full
      by (intro exI [of _ page] exI [of _ "put_page st1 T page present"] exI [of _ x])
        (simp add: place_entry_def put_page_fields Let_def)
  qed
  show "\<exists>l. journal_of c l \<and> place_entry cm post st response ts k v ivk T present = Inr ((None, st),
       [Do_Simple_Request MULTIINSERT_IN (Inserts_Content l) (elements_multiinsert_in_info l) Journal_Callback
          (Some (pending response \<lparr>reg_key = k, reg_table_name = T, reg_value = v, reg_timestamp = ts,
                                  reg_modified = (ivk = J_INSERT)\<rparr>))])"
    if fl: "card (dom c) = pcount st" and d: "all_dirty c"
  proof -
    obtain l where l: "journal_of c l"
      "replace_algorithm cm st response ts k v ivk T = Inr ((None, take_semaphore st),
       [Do_Simple_Request MULTIINSERT_IN (Inserts_Content l) (elements_multiinsert_in_info l) Journal_Callback
          (Some (pending response \<lparr>reg_key = k, reg_table_name = T, reg_value = v, reg_timestamp = ts,
                                  reg_modified = (ivk = J_INSERT)\<rparr>))])"
      by (rule replace_journals [OF r d])
    have "take_semaphore st = st" by (simp add: take_semaphore_def sem)
    with l fl full show ?thesis by (intro exI [of _ l]) (simp add: place_entry_def)
  qed
qed

lemma process_insert_place:
  assumes "mem_rel st c" "g_mem_op_semaphore st = 1" "T = map upc (ins_table_name input)" "k = uint (ins_key input)"
    "int (length (ins_value input)) \<le> g_value_size st" "c (T, k) = None"
  shows "process_insert cm now now2 st input response =
    rbind (place_entry cm sem_post_neg (st\<lparr>g_mem_op_semaphore := 0\<rparr>) response now k (ins_value input) J_INSERT T
             (get_segment_by_name (g_segment_list st) T \<noteq> None))
      (\<lambda>((found_page, st2), events).
         Inr (st2, events @ (if found_page = None then [] else respond response (Int_Content 0))))"
proof -
  let ?st = "st\<lparr>g_mem_op_semaphore := 0\<rparr>"
  have r: "mem_rel ?st c" using assms(1) by simp
  then obtain g where g: "mem_inv ?st g" "c = cache (g_total_page_size ?st) g (g_segment_list ?st)"
    by (auto simp: mem_rel_def)
  have T: "map upc T = T" using assms(3) by simp
  note wait = post_wait(1) [OF assms(2)]
  show ?thesis
  proof (cases "get_segment_by_name (g_segment_list ?st) T")
    case None
    with wait assms(5) show ?thesis
      by (simp add: process_insert_def to_upper assms(3,4) [symmetric] insert_segment_place [OF T])
  next
    case (Some s)
    obtain po where po: "get_page_by_key cm ?st s (map page_get_index (seg_page s)) k = Inr po"
        "c (T, k) = map_option (\<lambda>p. snd (entry_of (g_total_page_size ?st) g T p)) po"
      using lookup_spec(2) [OF g Some, of k] by blast
    then have p: "get_page_by_key cm ?st s (map page_get_index (seg_page s)) k = Inr None"
      using assms(6) by (cases po) auto
    with Some wait assms(5) show ?thesis
      by (simp add: process_insert_def to_upper assms(3,4) [symmetric] insert_page_place)
  qed
qed

lemma sem_post_neg_0:
  "g_mem_op_semaphore st1 = 0 \<Longrightarrow> g_mem_op_semaphore (sem_post_neg st1) = 1"
  "same_config st (sem_post_neg st1) = same_config st st1"
  "g_mem_op_semaphore st1 = 0 \<Longrightarrow> sem_post_neg (sem_post_neg st1) = sem_post_neg st1"
  by (simp_all add: sem_post_neg_def same_config_def)

lemma u16_key_ok: "key_ok (uint (k :: u16))"
  using uint_lt2p [of k] by (simp add: key_ok_def)

lemma process_insert_new:
  assumes "mem_rel st c" "g_mem_op_semaphore st = 1" "T = map upc (ins_table_name input)" "k = uint (ins_key input)"
    "value_ok st (ins_value input)" "time_ok st now" "c (T, k) = None"
  shows "card (dom c) < pcount st \<Longrightarrow>
     \<exists>st'. process_insert cm now now2 st input response = Inr (st', respond response (Int_Content 0)) \<and>
       mem_rel st' (c((T, k) \<mapsto> (now, ins_value input, True))) \<and> same_config st st' \<and> g_mem_op_semaphore st' = 1"
    and "card (dom c) = pcount st \<Longrightarrow> \<not> all_dirty c \<Longrightarrow>
     \<exists>st' x. oldest_clean c x \<and> process_insert cm now now2 st input response = Inr (st', respond response (Int_Content 0)) \<and>
       mem_rel st' ((c(x := None))((T, k) \<mapsto> (now, ins_value input, True))) \<and> same_config st st' \<and> g_mem_op_semaphore st' = 1"
    and "card (dom c) = pcount st \<Longrightarrow> all_dirty c \<Longrightarrow>
     \<exists>l. journal_of c l \<and> process_insert cm now now2 st input response = Inr (st\<lparr>g_mem_op_semaphore := 0\<rparr>,
       [Do_Simple_Request MULTIINSERT_IN (Inserts_Content l) (elements_multiinsert_in_info l) Journal_Callback
          (Some (pending response \<lparr>reg_key = k, reg_table_name = T, reg_value = ins_value input, reg_timestamp = now,
                                  reg_modified = True\<rparr>))])"
proof -
  let ?st = "st\<lparr>g_mem_op_semaphore := 0\<rparr>" and ?v = "ins_value input"
  have r: "mem_rel ?st c" and sem: "g_mem_op_semaphore ?st = 0" and pc: "pcount ?st = pcount st"
    using assms(1) by simp_all
  have sc: "same_config st ?st" by (rule same_config_update(3))
  have e: "entry_ok ?st (now, k, ?v)"
    using assms(4,5,6) u16_key_ok by (simp add: same_config_ok [OF sc])
  have T: "map upc T = T" using assms(3) by simp
  have len: "int (length ?v) \<le> g_value_size st" using assms(5) by (simp add: value_ok_def)
  note run = process_insert_place [OF assms(1-4) len assms(7)]
  note sp = place_entry_spec [OF r sem e assms(7) T refl, unfolded pc, of sem_post_neg response J_INSERT]
  show "\<exists>st'. process_insert cm now now2 st input response = Inr (st', respond response (Int_Content 0)) \<and>
       mem_rel st' (c((T, k) \<mapsto> (now, ?v, True))) \<and> same_config st st' \<and> g_mem_op_semaphore st' = 1"
    if "card (dom c) < pcount st"
    using sp(1) [OF that] by (auto simp: run sem_post_neg_0 intro: same_config_trans [OF sc])
  show "\<exists>st' x. oldest_clean c x \<and> process_insert cm now now2 st input response = Inr (st', respond response (Int_Content 0)) \<and>
       mem_rel st' ((c(x := None))((T, k) \<mapsto> (now, ?v, True))) \<and> same_config st st' \<and> g_mem_op_semaphore st' = 1"
    if fl: "card (dom c) = pcount st" "\<not> all_dirty c"
  proof -
    obtain page st1 x where x: "oldest_clean c x"
      "place_entry cm sem_post_neg ?st response now k ?v J_INSERT T (get_segment_by_name (g_segment_list st) T \<noteq> None)
        = Inr ((Some page, sem_post_neg st1), [])"
      "mem_rel st1 ((c(x := None))((T, k) \<mapsto> (now, ?v, True)))" "same_config ?st st1" "g_mem_op_semaphore st1 = 0"
      using sp(2) [OF fl] by auto
    show ?thesis
      by (rule exI [of _ "sem_post_neg st1"], rule exI [of _ x])
        (use x same_config_trans [OF sc] in \<open>simp add: run sem_post_neg_0\<close>)
  qed
  show "\<exists>l. journal_of c l \<and> process_insert cm now now2 st input response = Inr (?st,
       [Do_Simple_Request MULTIINSERT_IN (Inserts_Content l) (elements_multiinsert_in_info l) Journal_Callback
          (Some (pending response \<lparr>reg_key = k, reg_table_name = T, reg_value = ?v, reg_timestamp = now,
                                  reg_modified = True\<rparr>))])"
    if "card (dom c) = pcount st" "all_dirty c"
    using sp(3) [OF that] by (auto simp: run)
qed

text \<open>A value that does not fit: nothing is stored, and with a response the variable \<open>found_page\<close> is read uninitialised.\<close>

lemma process_insert_too_long:
  assumes "g_mem_op_semaphore st = 1" "0 \<le> g_value_size st" "int (length (ins_value input)) > g_value_size st"
  shows "process_insert cm now now2 st input response = (if response = None then Inr (st, []) else Inl Uninitialised)"
  using assms post_wait [OF assms(1)] by (simp add: process_insert_def)

section \<open>The answer of the file system to a select\<close>

lemma cache_record_place:
  assumes "mem_inv st g" "T = map upc (rec_table_name r)"
  shows "cache_record cm st r response =
    place_entry cm (\<lambda>s. s) st response (rec_timestamp r) (rec_key r) (rec_value r) J_SELECT T
      (get_segment_by_name (g_segment_list st) T \<noteq> None)"
proof (cases "get_segment_by_name (g_segment_list st) T")
  case None
  have j: "(J_SELECT = J_INSERT) = False" by simp
  have m: "map upc T = T" using assms(2) by simp
  have "cache_record cm st r response =
      place_entry cm (\<lambda>s. s) st response (rec_timestamp r) (rec_key r) (rec_value r) J_SELECT T False"
    unfolding cache_record_def place_entry_def put_page_def Let_def create_segment_def to_upper assms(2) [symmetric] m
      None option.case if_False j segment_t.simps ..
  with None show ?thesis by simp
next
  case (Some s)
  have j: "(J_SELECT = J_INSERT) = False" by simp
  obtain po where po: "get_page_by_key cm st s (map page_get_index (seg_page s)) (rec_key r) = Inr po"
    using lookup_spec(2) [OF assms(1) refl Some, of "rec_key r"] by blast
  have "cache_record cm st r response =
      place_entry cm (\<lambda>s. s) st response (rec_timestamp r) (rec_key r) (rec_value r) J_SELECT T True"
    unfolding cache_record_def place_entry_def put_page_def Let_def to_upper assms(2) [symmetric]
      Some option.case if_True j po rbind_simps ..
  with Some show ?thesis by simp
qed

lemma select_callback_spec:
  assumes "mem_rel st c" "g_mem_op_semaphore st = 1" "T = map upc (rec_table_name r)"
    "entry_ok st (rec_timestamp r, rec_key r, rec_value r)" "0 \<le> rec_timestamp r" "c (T, rec_key r) = None"
  shows "card (dom c) < pcount st \<Longrightarrow>
     \<exists>st'. select_callback cm st (Some r) response = Inr (st', respond response (Record_Content r)) \<and>
       mem_rel st' (c((T, rec_key r) \<mapsto> (rec_timestamp r, rec_value r, False))) \<and> same_config st st' \<and> g_mem_op_semaphore st' = 1"
    and "card (dom c) = pcount st \<Longrightarrow> \<not> all_dirty c \<Longrightarrow>
     \<exists>st' x. oldest_clean c x \<and> select_callback cm st (Some r) response = Inr (st', respond response (Record_Content r)) \<and>
       mem_rel st' ((c(x := None))((T, rec_key r) \<mapsto> (rec_timestamp r, rec_value r, False))) \<and> same_config st st' \<and>
       g_mem_op_semaphore st' = 1"
    and "card (dom c) = pcount st \<Longrightarrow> all_dirty c \<Longrightarrow>
     \<exists>l. journal_of c l \<and> select_callback cm st (Some r) response = Inr (st,
       [Do_Simple_Request MULTIINSERT_IN (Inserts_Content l) (elements_multiinsert_in_info l) Journal_Callback
          (Some (pending response \<lparr>reg_key = rec_key r, reg_table_name = T, reg_value = rec_value r,
                                  reg_timestamp = rec_timestamp r, reg_modified = False\<rparr>))])"
proof -
  let ?st = "st\<lparr>g_mem_op_semaphore := 0\<rparr>"
  have rl: "mem_rel ?st c" and sem: "g_mem_op_semaphore ?st = 0" and pc: "pcount ?st = pcount st"
    using assms(1) by simp_all
  then obtain g where g: "mem_inv ?st g" by (auto simp: mem_rel_def)
  have sc: "same_config st ?st" by (rule same_config_update(3))
  have e: "entry_ok ?st (rec_timestamp r, rec_key r, rec_value r)"
    using assms(4) by (simp only: same_config_ok(2) [OF sc])
  have T: "map upc T = T" using assms(3) by simp
  note wait = post_wait [OF assms(2)]
  have nt: "\<not> (rec_timestamp r = -1 \<or> rec_timestamp r = -2)" using assms(5) by simp
  have run: "select_callback cm st (Some r) response =
      rbind (place_entry cm (\<lambda>s. s) ?st response (rec_timestamp r) (rec_key r) (rec_value r) J_SELECT T
               (get_segment_by_name (g_segment_list ?st) T \<noteq> None))
        (\<lambda>((found_page, st2), events).
          Inr (sem_post_neg st2, events @ (if found_page = None then [] else respond response (Record_Content r))))"
    unfolding select_callback_def wait(1) rbind_simps option.case if_not_P [OF nt] cache_record_place [OF g assms(3)] ..
  note sp = place_entry_spec [OF rl sem e assms(6) T refl, unfolded pc, of "\<lambda>s. s" response J_SELECT]
  show "\<exists>st'. select_callback cm st (Some r) response = Inr (st', respond response (Record_Content r)) \<and>
       mem_rel st' (c((T, rec_key r) \<mapsto> (rec_timestamp r, rec_value r, False))) \<and> same_config st st' \<and> g_mem_op_semaphore st' = 1"
    if "card (dom c) < pcount st"
    unfolding run using sp(1) [OF that] by (auto simp: sem_post_neg_0 intro: same_config_trans [OF sc])
  show "\<exists>st' x. oldest_clean c x \<and> select_callback cm st (Some r) response = Inr (st', respond response (Record_Content r)) \<and>
       mem_rel st' ((c(x := None))((T, rec_key r) \<mapsto> (rec_timestamp r, rec_value r, False))) \<and> same_config st st' \<and>
       g_mem_op_semaphore st' = 1"
    if fl: "card (dom c) = pcount st" "\<not> all_dirty c"
  proof -
    obtain page st1 x where x: "oldest_clean c x"
      "place_entry cm (\<lambda>s. s) ?st response (rec_timestamp r) (rec_key r) (rec_value r) J_SELECT T
         (get_segment_by_name (g_segment_list ?st) T \<noteq> None) = Inr ((Some page, sem_post_neg st1), [])"
      "mem_rel st1 ((c(x := None))((T, rec_key r) \<mapsto> (rec_timestamp r, rec_value r, False)))" "same_config ?st st1"
      "g_mem_op_semaphore st1 = 0"
      using sp(2) [OF fl] by auto
    show ?thesis
      unfolding run x(2)
      by (rule exI [of _ "sem_post_neg st1"], rule exI [of _ x])
        (use x same_config_trans [OF sc] in \<open>simp add: sem_post_neg_0\<close>)
  qed
  show "\<exists>l. journal_of c l \<and> select_callback cm st (Some r) response = Inr (st,
       [Do_Simple_Request MULTIINSERT_IN (Inserts_Content l) (elements_multiinsert_in_info l) Journal_Callback
          (Some (pending response \<lparr>reg_key = rec_key r, reg_table_name = T, reg_value = rec_value r,
                                  reg_timestamp = rec_timestamp r, reg_modified = False\<rparr>))])"
    if "card (dom c) = pcount st" "all_dirty c"
    unfolding run using sp(3) [OF that] wait(2) by auto
qed

end

end
