(* ===== verification/Mem_Journal.thy ===== *)
theory Mem_Journal
  imports Mem_Props
begin

text \<open>
  Dropping a table, the answer of the file system to a journal, and the first initialisation of
  main memory, against the abstract map.
\<close>

context commons_api
begin

lemma process_drop_spec:
  assumes "mem_rel st c" "T = map upc (drp_table_name input)"
  obtains st' where "process_drop cm st input response = Inr (st',
      [Do_Simple_Request DROP_IN (Drop_Content \<lparr>drp_table_name = T\<rparr>) (elements_drop_in_info input) Drop_Callback response])"
    "mem_rel st' (drop_table T c)" "same_config st st'" "g_mem_op_semaphore st' = g_mem_op_semaphore st"
proof -
  obtain g where g: "mem_inv st g" "c = cache (g_total_page_size st) g (g_segment_list st)"
    using assms(1) by (auto simp: mem_rel_def)
  show ?thesis
  proof (cases "get_segment_by_name (g_segment_list st) T")
    case None
    then have "c (T, k) = None" for k using lookup_spec(1) [OF g] by blast
    then have "drop_table T c = c" by (auto simp: drop_table_def fun_eq_iff)
    with None assms show ?thesis by (intro that [of st]) (simp_all add: process_drop_def to_upper)
  next
    case (Some s)
    then obtain A B where s: "g_segment_list st = A @ s # B" "seg_name s = T" by (rule get_segment_split)
    obtain buf g' where r: "remove_segment st s = Inr (st\<lparr>g_main_memory := buf, g_segment_list := A @ B\<rparr>)"
      "length buf = length (g_main_memory st)"
      "mem_inv (st\<lparr>g_main_memory := buf, g_segment_list := A @ B\<rparr>) g'"
      "cache (g_total_page_size st) g' (A @ B) = drop_table (seg_name s) (cache (g_total_page_size st) g (g_segment_list st))"
      by (rule remove_segment_spec [OF g(1) s(1)])
    let ?st = "st\<lparr>g_main_memory := buf, g_segment_list := A @ B\<rparr>"
    have "mem_rel ?st (drop_table T c)"
      unfolding mem_rel_def using r(3,4) g(2) s(2) by (intro exI [of _ g']) simp
    with Some r(1,2) assms(2) show ?thesis
      by (intro that [of ?st]) (simp_all add: process_drop_def to_upper same_config_def)
  qed
qed

section \<open>The answer to a journal\<close>

lemma empty_memD:
  assumes "empty_mem st st1"
  shows "mem_rel st1 Map.empty" "same_config st st1" "g_segment_list st1 = []" "g_mem_op_semaphore st1 = g_mem_op_semaphore st"
  using assms by (simp_all add: empty_mem_def)

lemma journal_callback_ok:
  assumes "mem_rel st c" "response = None \<or> (\<exists>r. response = Some r \<and> rsp_result r = None)"
  obtains st' where "journal_callback cm st (Some 0) response = Inr (sem_post_neg st', respond response (Int_Content 0))"
    "mem_rel st' Map.empty" "same_config st st'"
proof -
  obtain st1 where d: "delete_all_segments st = Inr st1" "empty_mem st st1"
    by (rule delete_all_segments_spec [OF assms(1)])
  then show ?thesis
    using assms(2) empty_memD [OF d(2)] by (intro that [of st1]) (auto simp: journal_callback_def respond_def)
qed

lemma insert_register_spec:
  assumes "mem_rel st Map.empty" "g_segment_list st = []" "0 < pcount st" "T = map upc (reg_table_name reg)"
    "entry_ok st (reg_timestamp reg, reg_key reg, reg_value reg)"
  obtains st1 where "insert_register cm st reg = Inr st1" "same_config st st1"
    "g_mem_op_semaphore st1 = g_mem_op_semaphore st"
    "mem_rel st1 [(T, reg_key reg) \<mapsto> (reg_timestamp reg, reg_value reg, reg_modified reg)]"
proof -
  have c: "card (dom (Map.empty :: cache_map)) < pcount st" using assms(3) by simp
  have T: "map upc T = T" using assms(4) by simp
  have n: "False \<longleftrightarrow> get_segment_by_name (g_segment_list st) T \<noteq> None"
    using assms(2) by (simp add: get_segment_by_name_def)
  obtain index st1 where i: "memory_insert cm st (reg_timestamp reg) (reg_key reg) (reg_value reg) = Inr (index, st1)"
    "same_config st st1" "g_mem_op_semaphore st1 = g_mem_op_semaphore st"
    "mem_rel (put_page st1 T (create_page index (reg_modified reg)) False)
       [(T, reg_key reg) \<mapsto> (reg_timestamp reg, reg_value reg, reg_modified reg)]"
    by (rule insert_page_spec [OF assms(1) c assms(5) _ T n]) auto
  show ?thesis
    by (rule that [of "put_page st1 T (create_page index (reg_modified reg)) False"])
      (use i assms(4) in \<open>simp_all add: insert_register_def put_page_fields\<close>,
        simp add: put_page_def create_segment_def to_upper)
qed

lemma journal_callback_pending:
  assumes "mem_rel st c" "rsp_result r = Some reg" "0 < pcount st" "T = map upc (reg_table_name reg)"
    "entry_ok st (reg_timestamp reg, reg_key reg, reg_value reg)"
  obtains st' where "journal_callback cm st (Some 0) (Some r) = Inr (sem_post_neg st',
      respond_unless_console r (if reg_modified reg then Int_Content 0
        else Record_Content \<lparr>rec_table_name = reg_table_name reg, rec_timestamp = reg_timestamp reg,
               rec_key = reg_key reg, rec_value = reg_value reg\<rparr>))"
    "mem_rel st' [(T, reg_key reg) \<mapsto> (reg_timestamp reg, reg_value reg, reg_modified reg)]" "same_config st st'"
proof -
  obtain st1 where d: "delete_all_segments st = Inr st1" "empty_mem st st1"
    by (rule delete_all_segments_spec [OF assms(1)])
  note m = empty_memD [OF d(2)]
  note ok = same_config_ok [OF m(2)]
  have p: "0 < pcount st1" "entry_ok st1 (reg_timestamp reg, reg_key reg, reg_value reg)"
    using assms(3,5) by (simp_all only: ok)
  obtain st2 where i: "insert_register cm st1 reg = Inr st2" "same_config st1 st2"
    "mem_rel st2 [(T, reg_key reg) \<mapsto> (reg_timestamp reg, reg_value reg, reg_modified reg)]"
    by (rule insert_register_spec [OF m(1,3) p(1) assms(4) p(2)])
  show ?thesis
    by (rule that [of st2]) (use d i assms(2) same_config_trans [OF m(2)] in \<open>simp_all add: journal_callback_def\<close>)
qed

text \<open>A journal that failed: nothing is lost, and whoever waited is told.\<close>

lemma journal_callback_failed:
  assumes "result = None \<or> result = Some (-1)"
  shows "journal_callback cm st result response = Inr (sem_post_neg st,
    (case response of
       None \<Rightarrow> []
     | Some r \<Rightarrow> (case rsp_result r of
                   None \<Rightarrow> [Set_Response (rsp_id r) (Int_Content (-1))]
                 | Some reg \<Rightarrow> respond_unless_console r (Int_Content (-4)))))"
  using assms by (auto simp: journal_callback_def split: option.splits)

end

section \<open>Initialisation\<close>

lemma page_ok_null_store:
  assumes "i * sz + sz \<le> length buf" "5 \<le> sz"
  shows "page_ok sz (store_at (i * sz) (cstr_bytes ''null'') buf) i None"
  by (rule page_ok_store_same) (use assms in \<open>simp_all add: NUL_def\<close>)

lemma null_pages_fresh:
  assumes "0 \<le> g_total_page_size st" "5 \<le> psz st" "n * psz st \<le> length (g_main_memory st)" "set ids \<subseteq> {..<n}"
  shows "\<exists>buf. null_pages st (map (\<lambda>i. int i * g_total_page_size st) ids) = Inr (st\<lparr>g_main_memory := buf\<rparr>) \<and>
    length buf = length (g_main_memory st) \<and>
    (\<forall>j < n. j \<in> set ids \<or> page_ok (psz st) (g_main_memory st) j None \<longrightarrow> page_ok (psz st) buf j None)"
  using assms
proof (induction ids arbitrary: st)
  case Nil
  then show ?case by (intro exI [of _ "g_main_memory st"]) simp
next
  case (Cons i ids)
  let ?buf = "store_at (i * psz st) (cstr_bytes ''null'') (g_main_memory st)"
  let ?st = "st\<lparr>g_main_memory := ?buf\<rparr>"
  have i: "i * psz st + psz st \<le> length (g_main_memory st)"
    using Cons.prems by (intro page_end_le [of i n]) auto
  have l: "length ?buf = length (g_main_memory st)"
    using i Cons.prems(2) by (simp add: length_cstr_bytes)
  have eq: "int i * g_total_page_size st = int (i * psz st)" using Cons.prems(1) by simp
  have w: "mem_strcpy st (int i * g_total_page_size st) ''null'' = Inr ?st"
  proof -
    define a where "a = i * psz st"
    have "a + 5 \<le> length (g_main_memory st)" using i Cons.prems(2) unfolding a_def by linarith
    then show ?thesis unfolding mem_strcpy_def eq a_def [symmetric] by simp
  qed
  have "\<exists>buf. null_pages ?st (map (\<lambda>i. int i * g_total_page_size ?st) ids) = Inr (?st\<lparr>g_main_memory := buf\<rparr>) \<and>
    length buf = length (g_main_memory ?st) \<and>
    (\<forall>j < n. j \<in> set ids \<or> page_ok (psz ?st) (g_main_memory ?st) j None \<longrightarrow> page_ok (psz ?st) buf j None)"
    by (rule Cons.IH) (use Cons.prems l in simp_all)
  then obtain buf where b: "null_pages ?st (map (\<lambda>i. int i * g_total_page_size st) ids) = Inr (st\<lparr>g_main_memory := buf\<rparr>)"
    "length buf = length (g_main_memory st)"
    "\<forall>j < n. j \<in> set ids \<or> page_ok (psz st) ?buf j None \<longrightarrow> page_ok (psz st) buf j None"
    using l by auto
  have "page_ok (psz st) ?buf j None" if "j = i \<or> page_ok (psz st) (g_main_memory st) j None" for j
  proof (cases "j = i")
    case True
    with page_ok_null_store [OF i Cons.prems(2)] show ?thesis by simp
  next
    case False
    with that page_ok_store_other [OF i, of "''null''" j] Cons.prems(2) show ?thesis by simp
  qed
  with b w show ?case by (intro exI [of _ buf]) auto
qed

lemma segs_ok_Nil: "(\<forall>i < n. g i = None) \<Longrightarrow> segs_ok sz n g []"
  by (auto simp: segs_ok_def names_ok_def used_pages_def)

lemma init_main_memory_spec:
  assumes "geometry_ok st" "g_total_page_count st * g_total_page_size st \<le> int (length fresh)" "0 \<le> g_total_page_count st"
    "g_segment_list st = []"
  obtains buf where "init_main_memory st fresh = Inr (st\<lparr>g_main_memory := buf\<rparr>)" "length buf = length fresh"
    "mem_rel (st\<lparr>g_main_memory := buf\<rparr>) Map.empty"
proof -
  let ?st = "st\<lparr>g_main_memory := fresh\<rparr>"
  have p: "0 \<le> g_total_page_size st" "5 \<le> psz st" using assms(1) by (simp_all add: geometry_ok_def le_nat_iff)
  have "int (pcount st * psz st) \<le> int (length fresh)"
    using assms(2,3) p(1) by simp
  then have fits: "pcount st * psz st \<le> length fresh" by (rule zle_int [THEN iffD1])
  have "\<exists>buf. null_pages ?st (map (\<lambda>i. int i * g_total_page_size ?st) [0..<pcount st]) = Inr (?st\<lparr>g_main_memory := buf\<rparr>) \<and>
    length buf = length (g_main_memory ?st) \<and>
    (\<forall>j < pcount st. j \<in> set [0..<pcount st] \<or> page_ok (psz ?st) (g_main_memory ?st) j None \<longrightarrow> page_ok (psz ?st) buf j None)"
    by (rule null_pages_fresh) (use p fits in auto)
  then obtain buf where b: "null_pages ?st (map (\<lambda>i. int i * g_total_page_size st) [0..<pcount st]) = Inr (st\<lparr>g_main_memory := buf\<rparr>)"
    "length buf = length fresh" "\<forall>j < pcount st. page_ok (psz st) buf j None"
    by auto
  let ?r = "st\<lparr>g_main_memory := buf\<rparr>"
  have "pages_ok ?r (\<lambda>_. None)" using b(2,3) fits by (simp add: pages_ok_def)
  moreover have "geometry_ok ?r" using assms(1) by (simp add: geometry_ok_def)
  ultimately have "mem_inv ?r (\<lambda>_. None)"
    using assms(4) by (simp add: mem_inv_def buffer_ok_def entries_ok_def segs_ok_Nil)
  then have "mem_rel ?r Map.empty"
    unfolding mem_rel_def using assms(4) cache_Nil by (intro exI [of _ "\<lambda>_. None"]) simp
  with b(1,2) that show ?thesis by (simp add: init_main_memory_def)
qed

text \<open>
  The first \<open>VALUE\<close> answer of the file system, with a clock of 13 digits: main memory is empty, has
  room for at least one entry, and entries with a clock of up to 13 digits fit their pages.
\<close>

lemma get_value_callback_init:
  assumes "g_value_size st = -1" "g_segment_list st = []" "0 \<le> value" "value + 21 \<le> g_memory_size st"
    "int (length fresh) = g_memory_size st" "10 ^ 12 \<le> now" "now < 10 ^ 13"
  obtains st' where "get_value_callback cm now fresh st (Some value) response = Inr (Some st', [])"
    "mem_rel st' Map.empty" "g_value_size st' = value" "pcount st' = nat (g_memory_size st div (value + 21))" "0 < pcount st'"
    "\<And>ts. fits_long ts \<Longrightarrow> length (dec_int ts) \<le> 13 \<Longrightarrow> time_ok st' ts" "g_mem_op_semaphore st' = g_mem_op_semaphore st"
proof -
  have d: "digits_in_a_number 65535 = 5"
    unfolding digits_in_a_number_length by (simp add: dec_nat.simps)
  have len12: "length (dec_nat (10 ^ 12)) = 13" "length (dec_nat (10 ^ 13 - 1)) = 13" by (simp_all add: dec_nat.simps)
  have "10 ^ 12 \<le> nat now" "nat now \<le> 10 ^ 13 - 1" using assms(6,7) by (simp_all add: le_nat_iff)
  then have "length (dec_nat (nat now)) = 13"
    using length_dec_nat_mono [of "10 ^ 12" "nat now"] length_dec_nat_mono [of "nat now" "10 ^ 13 - 1"] len12 by linarith
  then have dn: "digits_in_a_number now = 13" using assms(6) by (simp add: digits_in_a_number_length)
  let ?sz = "value + 21"
  let ?st = "st\<lparr>g_value_size := value, g_total_page_size := ?sz, g_total_page_count := g_memory_size st div ?sz\<rparr>"
  have td: "trunc_div (g_memory_size st) ?sz = g_memory_size st div ?sz"
    using assms(3,4) by (simp add: trunc_div_def sgn_if)
  have pos: "0 < g_memory_size st div ?sz"
    using assms(3,4) by (simp add: pos_imp_zdiv_pos_iff)
  have "g_memory_size st div ?sz * ?sz \<le> g_memory_size st"
    using assms(3) div_mult_mod_eq [of "g_memory_size st" ?sz] pos_mod_sign [of ?sz "g_memory_size st"] by linarith
  then obtain buf where b: "init_main_memory ?st fresh = Inr (?st\<lparr>g_main_memory := buf\<rparr>)" "length buf = length fresh"
    "mem_rel (?st\<lparr>g_main_memory := buf\<rparr>) Map.empty"
    using init_main_memory_spec [of ?st fresh] assms(2,3,5) pos by (auto simp: geometry_ok_def)
  show ?thesis
  proof (rule that [of "?st\<lparr>g_main_memory := buf\<rparr>"])
    show "get_value_callback cm now fresh st (Some value) response = Inr (Some (?st\<lparr>g_main_memory := buf\<rparr>), [])"
      using assms(1,3,4) b(1) td by (simp add: get_value_callback_def Let_def d dn algebra_simps)
  qed (use b pos in \<open>simp_all add: time_ok_def\<close>)
qed

end
