(* ===== verification/Mem_Demo.thy ===== *)
theory Mem_Demo
  imports Mem_Journal
begin

text \<open>
  A small concrete memory, on which the witnesses of the memory's properties are evaluated: two
  pages of ten bytes, for values of one byte and timestamps of one digit.
\<close>

definition demo_page :: "string \<Rightarrow> bytes" where
  "demo_page s = s @ NUL # replicate (9 - length s) (CHR ''.'')"

definition demo_mem :: "bool \<Rightarrow> bool \<Rightarrow> mem_state" where
  "demo_mem m1 m2 =
     \<lparr>g_main_memory = demo_page ''3;7;a'' @ demo_page ''5;8;b'',
      g_total_page_size = 10, g_total_page_count = 2, g_value_size = 1, g_memory_size = 22,
      g_segment_list = [\<lparr>seg_name = ''T'', seg_page = [\<lparr>pg_index = 0, pg_modified = m1\<rparr>, \<lparr>pg_index = 10, pg_modified = m2\<rparr>]\<rparr>],
      g_mem_op_semaphore = 1\<rparr>"

definition demo_free :: "bool \<Rightarrow> mem_state" where
  "demo_free m1 = (demo_mem m1 True)
     \<lparr>g_main_memory := demo_page ''3;7;a'' @ demo_page ''null'',
      g_segment_list := [\<lparr>seg_name = ''T'', seg_page = [\<lparr>pg_index = 0, pg_modified = m1\<rparr>]\<rparr>]\<rparr>"

definition demo_map :: "bool \<Rightarrow> bool \<Rightarrow> cache_map" where
  "demo_map m1 m2 = [(''T'', 7) \<mapsto> (3, ''a'', m1), (''T'', 8) \<mapsto> (5, ''b'', m2)]"

lemma dec_int_digit: "dec_int 3 = ''3''" "dec_int 5 = ''5''" "dec_int 7 = ''7''" "dec_int 8 = ''8''" "dec_int 9 = ''9''"
  by code_simp+

lemma ex_less_2: "(\<forall>i < (2 :: nat). P i) \<longleftrightarrow> P 0 \<and> P 1"
  by (auto simp: less_2_cases_iff)

lemma demo_cstr: "no_nul s \<Longrightarrow> cstr (demo_page s) = s"
  using cstr_cstr_bytes [of s "replicate (9 - length s) (CHR ''.'')"] by (simp add: demo_page_def cstr_bytes_def)

lemma demo_length: "length s \<le> 9 \<Longrightarrow> length (demo_page s) = 10"
  by (simp add: demo_page_def)

lemma NUL_demo_page: "NUL \<in> set (demo_page s)"
  by (simp add: demo_page_def)

lemma demo_pages:
  "page_ok 10 (demo_page s @ r) 0 e \<longleftrightarrow> cstr (demo_page s) = entry_text e" if "length s \<le> 9"
  using demo_length [OF that] NUL_demo_page by (simp add: page_ok_def)

lemma demo_pages2:
  "page_ok 10 (demo_page s @ demo_page t) (Suc 0) e \<longleftrightarrow> cstr (demo_page t) = entry_text e"
  if "length s \<le> 9" "length t \<le> 9"
  using demo_length [OF that(1)] demo_length [OF that(2)] NUL_demo_page by (simp add: page_ok_def)

definition demo_contents :: "contents" where
  "demo_contents i = (if i = 0 then Some (3, 7, ''a'') else if i = 1 then Some (5, 8, ''b'') else None)"

lemma demo_used: "used_pages 10 2 demo_contents = {0, 10}" "used_pages 10 2 (demo_contents(1 := None)) = {0}"
proof -
  have "{i. i < (2 :: nat) \<and> demo_contents i \<noteq> None} = {0, 1}" "{i. i < (2 :: nat) \<and> (demo_contents(1 := None)) i \<noteq> None} = {0}"
    by (auto simp: demo_contents_def split: if_splits)
  then show "used_pages 10 2 demo_contents = {0, 10}" "used_pages 10 2 (demo_contents(1 := None)) = {0}"
    unfolding used_pages_def by simp_all
qed

lemma upc_T: "map upc ''T'' = ''T''" "upc CHR ''T'' = CHR ''T''"
  by (simp_all add: upc_def)

lemma demo_entries:
  "entry_ok (demo_mem m1 m2) (ts, k, v) \<longleftrightarrow> fits_long ts \<and> length (dec_int ts) \<le> 1 \<and> key_ok k \<and>
     v \<noteq> [] \<and> CHR '';'' \<notin> set v \<and> no_nul v \<and> length v \<le> 1"
  by (auto simp: time_ok_def value_ok_def demo_mem_def)

lemma demo_rel: "mem_rel (demo_mem m1 m2) (demo_map m1 m2)"
proof -
  have "mem_inv (demo_mem m1 m2) demo_contents"
    unfolding mem_inv_def buffer_ok_def pages_ok_def entries_ok_def
    by (simp add: demo_mem_def [of m1 m2] ex_less_2 demo_pages demo_pages2 demo_cstr demo_length NUL_def
          demo_contents_def dec_int_digit geometry_ok_def time_ok_def value_ok_def key_ok_def fits_long_def)
      (simp add: segs_ok_def names_ok_def table_pages_def page_key_def page_no_def upc_T demo_used demo_contents_def)
  moreover have "demo_map m1 m2 = cache 10 demo_contents (g_segment_list (demo_mem m1 m2))"
    by (simp add: cache_def cache_entries_def seg_entries_def entry_of_def page_no_def demo_mem_def demo_contents_def demo_map_def)
      (simp add: fun_upd_twist)
  ultimately show ?thesis
    unfolding mem_rel_def by (intro exI [of _ demo_contents]) (simp add: demo_mem_def)
qed

lemma demo_free_rel: "mem_rel (demo_free m1) [(''T'', 7) \<mapsto> (3, ''a'', m1)]"
proof -
  let ?g = "demo_contents(1 := None)"
  have "mem_inv (demo_free m1) ?g"
    unfolding mem_inv_def buffer_ok_def pages_ok_def entries_ok_def
    by (simp add: demo_free_def demo_mem_def ex_less_2 demo_pages demo_pages2 demo_cstr demo_length NUL_def
          demo_contents_def dec_int_digit geometry_ok_def time_ok_def value_ok_def key_ok_def fits_long_def)
      (simp add: segs_ok_def names_ok_def table_pages_def page_key_def page_no_def upc_T demo_used [simplified] demo_contents_def)
  moreover have "[(''T'', 7) \<mapsto> (3, ''a'', m1)] = cache 10 ?g (g_segment_list (demo_free m1))"
    by (simp add: cache_def cache_entries_def seg_entries_def entry_of_def page_no_def demo_free_def demo_contents_def)
  ultimately show ?thesis
    unfolding mem_rel_def by (intro exI [of _ ?g]) (simp add: demo_free_def demo_mem_def)
qed

end
