(* ===== verification/Mem_Theorems.thy ===== *)
theory Mem_Theorems
  imports Mem_Demo
begin

text \<open>
  The properties of a memory. \<open>mem_rel st c\<close> says that the state \<open>st\<close> (buffer, page geometry, segment
  table) is well formed and represents the map \<open>c\<close> from table and key to timestamp, value and dirty
  flag; each theorem states an operation on the state and its effect on the map.
\<close>

section \<open>Witness data\<close>

abbreviation "demo_select k \<equiv> \<lparr>sel_table_name = ''t'', sel_key = k\<rparr>"
abbreviation "demo_insert k \<equiv> \<lparr>ins_table_name = ''t'', ins_key = k, ins_value = ''z'', ins_timestamp = -1\<rparr>"
abbreviation "demo_response \<equiv> \<lparr>rsp_id = 4, rsp_result = None\<rparr>"

lemma demo_T: "map upc ''t'' = ''T''" "upc (CHR ''t'') = CHR ''T''"
  by code_simp+

lemma demo_fields [simp]:
  "g_mem_op_semaphore (demo_mem m1 m2) = 1" "pcount (demo_mem m1 m2) = 2" "g_value_size (demo_mem m1 m2) = 1"
  "g_mem_op_semaphore (demo_free m1) = 1" "pcount (demo_free m1) = 2" "g_value_size (demo_free m1) = 1"
  by (simp_all add: demo_mem_def demo_free_def)

lemma demo_ok:
  "value_ok (demo_mem m1 m2) ''z''" "time_ok (demo_mem m1 m2) 9" "value_ok (demo_free m1) ''z''" "time_ok (demo_free m1) 9"
  by (simp_all add: value_ok_def time_ok_def demo_mem_def demo_free_def dec_int_digit fits_long_def NUL_def)

lemma demo_card: "card (dom (demo_map m1 m2)) = 2" "card (dom [(''T'', 7 :: int) \<mapsto> (3 :: int, ''a'', m1)]) = 1"
  by (simp_all add: demo_map_def)

lemma demo_dirty: "all_dirty (demo_map True True)" "\<not> all_dirty (demo_map False True)"
  by (auto simp: all_dirty_def demo_map_def split: if_splits)

section \<open>Reading\<close>

text \<open>
  C16. SELECT on a memory: a cached key is answered from the page with its timestamp and value, a key
  that is not cached becomes one SELECT request to the file system for the upper-case table; in both
  cases the state, semaphore included, is the one before.
\<close>

theorem memory_select:
  assumes "commons_api cm" "mem_rel st c" "g_mem_op_semaphore st = 1"
  shows "process_select cm st input response =
    (case c (map upc (sel_table_name input), uint (sel_key input)) of
       Some (ts, v, m) \<Rightarrow> Inr (st, respond response (Record_Content
          \<lparr>rec_table_name = map upc (sel_table_name input), rec_timestamp = ts, rec_key = uint (sel_key input), rec_value = v\<rparr>))
     | None \<Rightarrow> Inr (st, [select_request cm input response]))"
  using commons_api.process_select_spec [OF assms(1,2,3) refl refl] .

theorem memory_select_witness:
  "process_select std_commons (demo_mem True False) (demo_select 7) (Some demo_response) =
     Inr (demo_mem True False, [Set_Response 4 (Record_Content
       \<lparr>rec_table_name = ''T'', rec_timestamp = 3, rec_key = 7, rec_value = ''a''\<rparr>)]) \<and>
   process_select std_commons (demo_mem True False) (demo_select 9) None =
     Inr (demo_mem True False, [select_request std_commons (demo_select 9) None])"
  using memory_select [OF std.commons_api_axioms demo_rel, of True False "demo_select 7" "Some demo_response"]
    memory_select [OF std.commons_api_axioms demo_rel, of True False "demo_select 9" None]
  by (simp add: demo_T demo_map_def respond_def)

section \<open>Inserting\<close>

text \<open>
  C17. INSERT of a key that is cached rewrites its page in place with the current time, marks it dirty
  and answers 0; every other entry keeps its value and its flag.
\<close>

theorem memory_insert_update:
  assumes "commons_api cm" "mem_rel st c" "g_mem_op_semaphore st = 1"
    "value_ok st (ins_value input)" "time_ok st now2" "c (map upc (ins_table_name input), uint (ins_key input)) \<noteq> None"
  shows "\<exists>st'. process_insert cm now now2 st input response = Inr (st', respond response (Int_Content 0)) \<and>
    mem_rel st' (c((map upc (ins_table_name input), uint (ins_key input)) \<mapsto> (now2, ins_value input, True))) \<and>
    same_config st st' \<and> g_mem_op_semaphore st' = 1"
  using commons_api.process_insert_update [OF assms(1,2,3) refl refl assms(4,5,6)] by metis

theorem memory_insert_update_witness:
  "\<exists>st'. process_insert std_commons 9 9 (demo_mem False True) (demo_insert 7) None = Inr (st', []) \<and>
    mem_rel st' ((demo_map False True)((''T'', 7) \<mapsto> (9, ''z'', True)))"
proof -
  have "demo_map False True (map upc (ins_table_name (demo_insert 7)), uint (ins_key (demo_insert 7))) \<noteq> None"
    by (simp add: demo_T demo_map_def)
  from memory_insert_update [OF std.commons_api_axioms demo_rel _ _ _ this, of 9 9 None] demo_ok
  show ?thesis by (auto simp: demo_T respond_def)
qed

text \<open>
  C18. INSERT of a key that is not cached, while a page is free: the entry is added, dirty, with the
  time of the call, the answer is 0 and nothing else changes.
\<close>

theorem memory_insert_free_page:
  assumes "commons_api cm" "mem_rel st c" "g_mem_op_semaphore st = 1"
    "value_ok st (ins_value input)" "time_ok st now" "c (map upc (ins_table_name input), uint (ins_key input)) = None"
    "card (dom c) < pcount st"
  shows "\<exists>st'. process_insert cm now now2 st input response = Inr (st', respond response (Int_Content 0)) \<and>
    mem_rel st' (c((map upc (ins_table_name input), uint (ins_key input)) \<mapsto> (now, ins_value input, True))) \<and>
    same_config st st' \<and> g_mem_op_semaphore st' = 1"
  using commons_api.process_insert_new(1) [OF assms(1,2,3) refl refl assms(4,5,6,7)] .

theorem memory_insert_free_page_witness:
  "\<exists>st'. process_insert std_commons 9 9 (demo_free True) (demo_insert 8) None = Inr (st', []) \<and>
    mem_rel st' [(''T'', 7) \<mapsto> (3, ''a'', True), (''T'', 8) \<mapsto> (9, ''z'', True)]"
  using memory_insert_free_page [OF std.commons_api_axioms demo_free_rel, of True "demo_insert 8" 9 9 None]
  by (auto simp: demo_T demo_ok respond_def demo_card)

text \<open>
  C19. INSERT of a new key into a full memory that has a clean page: the clean entry with the least
  timestamp, and no other, gives its page up; no dirty entry is lost.
\<close>

theorem memory_insert_evicts_oldest_clean:
  assumes "commons_api cm" "mem_rel st c" "g_mem_op_semaphore st = 1"
    "value_ok st (ins_value input)" "time_ok st now" "c (map upc (ins_table_name input), uint (ins_key input)) = None"
    "card (dom c) = pcount st" "\<not> all_dirty c"
  shows "\<exists>st' x. oldest_clean c x \<and>
    process_insert cm now now2 st input response = Inr (st', respond response (Int_Content 0)) \<and>
    mem_rel st' ((c(x := None))((map upc (ins_table_name input), uint (ins_key input)) \<mapsto> (now, ins_value input, True))) \<and>
    same_config st st' \<and> g_mem_op_semaphore st' = 1"
  using commons_api.process_insert_new(2) [OF assms(1,2,3) refl refl assms(4,5,6,7,8)] .

theorem memory_insert_evicts_oldest_clean_witness:
  "\<exists>st' x. oldest_clean (demo_map False True) x \<and>
    process_insert std_commons 9 9 (demo_mem False True) (demo_insert 9) None = Inr (st', []) \<and>
    mem_rel st' (((demo_map False True)(x := None))((''T'', 9) \<mapsto> (9, ''z'', True)))"
  using memory_insert_evicts_oldest_clean [OF std.commons_api_axioms demo_rel, of False True "demo_insert 9" 9 9 None]
    demo_dirty(2) demo_ok demo_card
  by (simp add: demo_T respond_def) (auto simp: demo_map_def)

text \<open>
  C20. INSERT of a new key into a full memory without a clean page: nothing is stored and nobody is
  answered yet; one MULTIINSERT request with exactly the dirty entries goes to the file system, and it
  carries the insert to be done when the answer comes. The semaphore stays taken.
\<close>

theorem memory_insert_journals:
  assumes "commons_api cm" "mem_rel st c" "g_mem_op_semaphore st = 1"
    "value_ok st (ins_value input)" "time_ok st now" "c (map upc (ins_table_name input), uint (ins_key input)) = None"
    "card (dom c) = pcount st" "all_dirty c"
  shows "\<exists>l. journal_of c l \<and> process_insert cm now now2 st input response = Inr (st\<lparr>g_mem_op_semaphore := 0\<rparr>,
     [Do_Simple_Request MULTIINSERT_IN (Inserts_Content l) (elements_multiinsert_in_info l) Journal_Callback
        (Some (pending response \<lparr>reg_key = uint (ins_key input), reg_table_name = map upc (ins_table_name input),
           reg_value = ins_value input, reg_timestamp = now, reg_modified = True\<rparr>))])"
  using commons_api.process_insert_new(3) [OF assms(1,2,3) refl refl assms(4,5,6,7,8)] .

theorem memory_insert_journals_witness:
  "\<exists>l. journal_of (demo_map True True) l \<and>
    process_insert std_commons 9 9 (demo_mem True True) (demo_insert 9) None = Inr ((demo_mem True True)\<lparr>g_mem_op_semaphore := 0\<rparr>,
     [Do_Simple_Request MULTIINSERT_IN (Inserts_Content l) (elements_multiinsert_in_info l) Journal_Callback
        (Some (pending None \<lparr>reg_key = 9, reg_table_name = ''T'', reg_value = ''z'', reg_timestamp = 9, reg_modified = True\<rparr>))])"
  using memory_insert_journals [OF std.commons_api_axioms demo_rel, of True True "demo_insert 9" 9 9 None]
    demo_dirty(1) demo_ok demo_card
  by (simp add: demo_T) (auto simp: demo_map_def)

text \<open>
  A value longer than the file system's limit is never stored; but when the call comes over the
  network the code then reads the variable \<open>found_page\<close> before anything was assigned to it.
\<close>

theorem memory_insert_too_long:
  assumes "g_mem_op_semaphore st = 1" "0 \<le> g_value_size st" "int (length (ins_value input)) > g_value_size st"
  shows "process_insert cm now now2 st input response = (if response = None then Inr (st, []) else Inl Uninitialised)"
  using assms by (simp add: process_insert_def sem_wait_def sem_post_neg_def)

theorem memory_insert_too_long_witness:
  "process_insert std_commons 9 9 (demo_mem True True) (demo_insert 7\<lparr>ins_value := ''zz''\<rparr>) (Some demo_response) = Inl Uninitialised"
  using memory_insert_too_long [of "demo_mem True True" "demo_insert 7\<lparr>ins_value := ''zz''\<rparr>" std_commons 9 9 "Some demo_response"]
  by simp

section \<open>Journaling and dropping\<close>

text \<open>
  C21. When the file system has taken a journal, main memory is emptied, and the insert or select that
  was waiting for room is its only entry; the one who waited is answered.
\<close>

theorem memory_journal_done:
  assumes "commons_api cm" "mem_rel st c" "rsp_result r = Some reg" "0 < pcount st"
    "entry_ok st (reg_timestamp reg, reg_key reg, reg_value reg)"
  shows "\<exists>st'. journal_callback cm st (Some 0) (Some r) = Inr (sem_post_neg st',
      respond_unless_console r (if reg_modified reg then Int_Content 0
        else Record_Content \<lparr>rec_table_name = reg_table_name reg, rec_timestamp = reg_timestamp reg,
               rec_key = reg_key reg, rec_value = reg_value reg\<rparr>)) \<and>
    mem_rel st' [(map upc (reg_table_name reg), reg_key reg) \<mapsto> (reg_timestamp reg, reg_value reg, reg_modified reg)] \<and>
    same_config st st'"
  using commons_api.journal_callback_pending [OF assms(1,2,3,4) refl assms(5)] by metis

abbreviation "demo_reg m \<equiv> \<lparr>reg_key = 9, reg_table_name = ''T'', reg_value = ''z'', reg_timestamp = 9, reg_modified = m\<rparr>"

lemma demo_reg_ok: "entry_ok (demo_mem m1 m2) (9, 9, ''z'')"
  using demo_ok by (simp add: key_ok_def)

theorem memory_journal_done_witness:
  "\<exists>st'. journal_callback std_commons (demo_mem True True) (Some 0) (Some \<lparr>rsp_id = 4, rsp_result = Some (demo_reg True)\<rparr>) =
     Inr (sem_post_neg st', [Set_Response 4 (Int_Content 0)]) \<and> mem_rel st' [(''T'', 9) \<mapsto> (9, ''z'', True)]"
  using memory_journal_done [OF std.commons_api_axioms demo_rel, of "\<lparr>rsp_id = 4, rsp_result = Some (demo_reg True)\<rparr>" "demo_reg True" True True]
    demo_reg_ok [of True True]
  by (auto simp: upc_T respond_unless_console_def)

text \<open>
  A journal the file system did not take changes nothing in main memory; a SELECT that was waiting
  for it is answered with an integer where the server expects a record, so building the SELECT answer
  casts the wrong structure.
\<close>

theorem memory_journal_failed:
  assumes "result = None \<or> result = Some (-1)" "rsp_result r = Some reg" "rsp_id r \<noteq> -1337"
  shows "journal_callback cm st result (Some r) = Inr (sem_post_neg st, [Set_Response (rsp_id r) (Int_Content (-4))]) \<and>
    get_out_element_info SELECT_OUT (Int_Content (-4)) = Inl Bad_Cast"
  using assms by (auto simp: journal_callback_def respond_unless_console_def get_out_element_info_def as_record_def bad_cast_def)

theorem memory_journal_failed_witness:
  "journal_callback std_commons (demo_mem True True) None (Some \<lparr>rsp_id = 4, rsp_result = Some (demo_reg False)\<rparr>) =
     Inr (sem_post_neg (demo_mem True True), [Set_Response 4 (Int_Content (-4))])"
  using memory_journal_failed [of None "\<lparr>rsp_id = 4, rsp_result = Some (demo_reg False)\<rparr>" "demo_reg False" std_commons "demo_mem True True"]
  by simp

text \<open>
  C23. An insert that was acknowledged can be lost: a SELECT answer that finds main memory full of dirty
  pages starts a journal but gives the semaphore back, so an INSERT of a cached key gets in before the
  answer to the journal; that answer then empties main memory, and the journal the file system got
  does not have the new value.
\<close>

theorem acknowledged_insert_lost:
  assumes "commons_api cm" "mem_rel st c" "g_mem_op_semaphore st = 1"
    "entry_ok st (rec_timestamp r, rec_key r, rec_value r)" "0 \<le> rec_timestamp r"
    "c (map upc (rec_table_name r), rec_key r) = None"
    "card (dom c) = pcount st" "all_dirty c" "0 < pcount st"
    "value_ok st (ins_value input)" "time_ok st now"
    "c (map upc (ins_table_name input), uint (ins_key input)) = Some (ts, old, True)" "old \<noteq> ins_value input"
  shows "\<exists>l p st1 st2 st3 ev.
    select_callback cm st (Some r) None = Inr (st1, [Do_Simple_Request MULTIINSERT_IN (Inserts_Content l)
        (elements_multiinsert_in_info l) Journal_Callback (Some p)]) \<and> journal_of c l \<and>
    process_insert cm now now st1 input (Some q) = Inr (st2, [Set_Response (rsp_id q) (Int_Content 0)]) \<and>
    journal_callback cm st2 (Some 0) (Some p) = Inr (sem_post_neg st3, ev) \<and>
    mem_rel st3 [(map upc (rec_table_name r), rec_key r) \<mapsto> (rec_timestamp r, rec_value r, False)]"
proof -
  let ?T = "map upc (rec_table_name r)" and ?x = "(map upc (ins_table_name input), uint (ins_key input))"
  let ?reg = "\<lparr>reg_key = rec_key r, reg_table_name = ?T, reg_value = rec_value r, reg_timestamp = rec_timestamp r, reg_modified = False\<rparr>"
  obtain l where l: "journal_of c l" "select_callback cm st (Some r) None = Inr (st,
      [Do_Simple_Request MULTIINSERT_IN (Inserts_Content l) (elements_multiinsert_in_info l) Journal_Callback (Some (pending None ?reg))])"
    using commons_api.select_callback_spec(3) [OF assms(1,2,3) refl assms(4,5,6,7,8), of None] by blast
  obtain st2 where st2: "process_insert cm now now st input (Some q) = Inr (st2, respond (Some q) (Int_Content 0))"
    "mem_rel st2 (c(?x \<mapsto> (now, ins_value input, True)))" "same_config st st2"
    using commons_api.process_insert_update [OF assms(1,2,3) refl refl assms(10,11)] assms(12) by (metis option.distinct(1))
  note ok = same_config_ok [OF st2(3)]
  have e: "rsp_result (pending None ?reg) = Some ?reg" "0 < pcount st2"
    "entry_ok st2 (reg_timestamp ?reg, reg_key ?reg, reg_value ?reg)"
    using assms(4,9) by (simp_all add: pending_def ok)
  obtain st3 ev where st3: "journal_callback cm st2 (Some 0) (Some (pending None ?reg)) = Inr (sem_post_neg st3, ev)"
    "mem_rel st3 [(?T, rec_key r) \<mapsto> (rec_timestamp r, rec_value r, False)]"
    by (rule commons_api.journal_callback_pending [OF assms(1) st2(2) e(1,2) _ e(3), of ?T]) simp_all
  show ?thesis
    using l st2(1) st3 unfolding respond_def option.case by blast
qed

theorem acknowledged_insert_lost_witness:
  "\<exists>l p st1 st2 st3 ev.
    select_callback std_commons (demo_mem True True) (Some \<lparr>rec_table_name = ''T'', rec_timestamp = 9, rec_key = 9, rec_value = ''z''\<rparr>) None
      = Inr (st1, [Do_Simple_Request MULTIINSERT_IN (Inserts_Content l) (elements_multiinsert_in_info l) Journal_Callback (Some p)]) \<and>
    journal_of (demo_map True True) l \<and>
    process_insert std_commons 9 9 st1 (demo_insert 7) (Some demo_response) = Inr (st2, [Set_Response 4 (Int_Content 0)]) \<and>
    journal_callback std_commons st2 (Some 0) (Some p) = Inr (sem_post_neg st3, ev) \<and>
    mem_rel st3 [(''T'', 9) \<mapsto> (9, ''z'', False)]"
  using acknowledged_insert_lost [OF std.commons_api_axioms demo_rel [of True True], of
      "\<lparr>rec_table_name = ''T'', rec_timestamp = 9, rec_key = 9, rec_value = ''z''\<rparr>" "demo_insert 7" 9 3 "''a''" demo_response]
    demo_reg_ok [of True True] demo_dirty(1) demo_ok demo_card demo_fields
  by (simp add: demo_T upc_T) (simp add: demo_map_def)

text \<open>
  C22. DROP on a memory: every cached entry of the table is gone and its pages are free again, the
  entries of the other tables are untouched, and a DROP request for the table goes to the file system.
\<close>

theorem memory_drop:
  assumes "commons_api cm" "mem_rel st c"
  shows "\<exists>st'. process_drop cm st input response = Inr (st',
      [Do_Simple_Request DROP_IN (Drop_Content \<lparr>drp_table_name = map upc (drp_table_name input)\<rparr>)
         (elements_drop_in_info input) Drop_Callback response]) \<and>
    mem_rel st' (drop_table (map upc (drp_table_name input)) c) \<and> same_config st st'"
  using commons_api.process_drop_spec [OF assms refl] by metis

theorem memory_drop_witness:
  "\<exists>st'. process_drop std_commons (demo_mem True True) \<lparr>drp_table_name = ''t''\<rparr> None = Inr (st',
      [Do_Simple_Request DROP_IN (Drop_Content \<lparr>drp_table_name = ''T''\<rparr>) [2] Drop_Callback None]) \<and>
    mem_rel st' (drop_table ''T'' (demo_map True True))"
  using memory_drop [OF std.commons_api_axioms demo_rel [of True True], of "\<lparr>drp_table_name = ''t''\<rparr>" None]
  by (auto simp: demo_T elements_drop_in_info_def str_size_def)

section \<open>Starting up\<close>

text \<open>
  The first answer to VALUE, at a time of 13 digits, leaves an empty and well formed main memory
  with as many pages as fit, at least one, and room in each for a 13-digit timestamp, a key and a value of the agreed size.
\<close>

theorem memory_init:
  assumes "g_value_size st = -1" "g_segment_list st = []" "0 \<le> value" "value + 21 \<le> g_memory_size st"
    "int (length fresh) = g_memory_size st" "10 ^ 12 \<le> now" "now < 10 ^ 13"
  shows "\<exists>st'. get_value_callback cm now fresh st (Some value) response = Inr (Some st', []) \<and>
    mem_rel st' Map.empty \<and> g_value_size st' = value \<and> pcount st' = nat (g_memory_size st div (value + 21)) \<and> 0 < pcount st' \<and>
    (\<forall>ts. fits_long ts \<and> length (dec_int ts) \<le> 13 \<longrightarrow> time_ok st' ts)"
  using get_value_callback_init [OF assms, of cm response] by (metis (no_types))

theorem memory_init_witness:
  "\<exists>st'. get_value_callback std_commons 1560000000000 (replicate 64 (CHR ''?''))
      ((demo_mem True True)\<lparr>g_value_size := -1, g_segment_list := [], g_memory_size := 64\<rparr>) (Some 4) None = Inr (Some st', []) \<and>
    mem_rel st' Map.empty \<and> pcount st' = 2"
proof -
  let ?st = "(demo_mem True True)\<lparr>g_value_size := -1, g_segment_list := [], g_memory_size := 64\<rparr>"
  have "\<exists>st'. get_value_callback std_commons 1560000000000 (replicate 64 (CHR ''?'')) ?st (Some 4) None = Inr (Some st', []) \<and>
    mem_rel st' Map.empty \<and> g_value_size st' = 4 \<and> pcount st' = nat (g_memory_size ?st div (4 + 21)) \<and> 0 < pcount st' \<and>
    (\<forall>ts. fits_long ts \<and> length (dec_int ts) \<le> 13 \<longrightarrow> time_ok st' ts)"
    by (rule memory_init) simp_all
  then show ?thesis by auto
qed

section \<open>Values with a semicolon\<close>

lemma mem_string_strcpy:
  assumes "mem_strcpy st index s = Inr st'" "no_nul s"
  shows "mem_string st' index = Inr s"
proof -
  have i: "0 \<le> index" "nat index + length s + 1 \<le> length (g_main_memory st)"
    and st': "st' = st\<lparr>g_main_memory := store_at (nat index) (cstr_bytes s) (g_main_memory st)\<rparr>"
    using assms(1) by (auto simp: mem_strcpy_def split: if_splits)
  have d: "drop (nat index) (g_main_memory st') = cstr_bytes s @ drop (nat index + length (cstr_bytes s)) (g_main_memory st)"
    using i(2) by (simp add: st' drop_store_at_same)
  moreover have "NUL \<in> set (cstr_bytes s)" by (simp add: cstr_bytes_def)
  ultimately show ?thesis using i(1) assms(2) by (simp add: mem_string_def)
qed

text \<open>
  A value that contains the separator of the page format is cut at its first semicolon when it is
  read back: what follows is lost, for a SELECT as for a journal.
\<close>

theorem semicolon_truncates:
  assumes "commons_api cm" "modify_memory_by_index cm st now index key (a @ CHR '';'' # b) = Inr st'"
    "a \<noteq> []" "b \<noteq> []" "CHR '';'' \<notin> set a" "CHR '';'' \<notin> set b" "no_nul a" "no_nul b"
  shows "main_memory_values cm st' index VALUE = Inr (Some a)"
proof -
  let ?s = "dec_int now @ CHR '';'' # dec_int key @ CHR '';'' # a @ CHR '';'' # b"
  have n: "CHR '';'' \<notin> set (dec_int x)" for x by (rule dec_int_notin) auto
  have "mem_string st' index = Inr ?s"
    using assms(2,7,8) by (intro mem_string_strcpy)
      (simp_all add: modify_memory_by_index_def page_text_def commons_api.itoa [OF assms(1)] NUL_def)
  moreover have "string_split cm ?s (CHR '';'') = [dec_int now, dec_int key, a, b]"
    using commons_api.split4 [OF assms(1), of "dec_int now" "dec_int key" a b] n assms(3-6) by simp
  ultimately show ?thesis by (simp add: main_memory_values_def)
qed

theorem semicolon_truncates_witness:
  "\<exists>st'. modify_memory_by_index std_commons (demo_mem True True) 9 0 7 ''x;y'' = Inr st' \<and>
    main_memory_values std_commons st' 0 VALUE = Inr (Some ''x'')"
proof -
  obtain st' where m: "modify_memory_by_index std_commons (demo_mem True True) 9 0 7 (''x'' @ CHR '';'' # ''y'') = Inr st'"
    by (simp add: modify_memory_by_index_def page_text_def mem_strcpy_def demo_mem_def demo_length dec_int_digit std.itoa)
  have "main_memory_values std_commons st' 0 VALUE = Inr (Some ''x'')"
    by (rule semicolon_truncates [OF std.commons_api_axioms m]) (simp_all add: NUL_def)
  with m show ?thesis by auto
qed

end
