(* ===== verification/Gossip.thy ===== *)
theory Gossip
  imports Serializer
begin

text \<open>
  Gossiping between memories: \<open>memoria/src/gossiping/gossiping.c\<close>. A memory keeps the list
  \<open>g_memories\<close> of what it knows of every memory, itself included; a gossip request carries the list
  of the sender, the answer the list of the receiver, and both merge what they get, record by
  record, the newer timestamp winning. Copies made by \<open>strdup\<close> and field by field are values here.
  The contract of a merge is the locale \<open>gossip_table\<close>, which the kernel's table satisfies too.
\<close>

section \<open>The code\<close>

record gossip_config =
  cfg_memory_number :: int
  cfg_ip :: string
  cfg_port :: int
  cfg_seed_ips :: "string list"
  cfg_seed_ports :: "int list"

record gossip_request =
  req_ip :: string
  req_port :: int
  req_content :: "memory_t list"
  req_sizes :: "int list"

definition find_myself_as_memory :: "gossip_config \<Rightarrow> memory_t \<Rightarrow> bool" where
  "find_myself_as_memory cfg mem \<longleftrightarrow> mem_id mem = cfg_memory_number cfg"

definition init_gossiping :: "gossip_config \<Rightarrow> int \<Rightarrow> memory_t list" where
  "init_gossiping cfg now =
     [\<lparr>mem_id = cfg_memory_number cfg, mem_ip = cfg_ip cfg, mem_port = cfg_port cfg, mem_alive = True, mem_timestamp = now\<rparr>]"

fun seed_requests :: "string list \<Rightarrow> int list \<Rightarrow> memory_t list \<Rightarrow> gossip_request list result" where
  \<comment> \<open>the loop over the seeds; a seed without a port is a \<open>NULL\<close> that is dereferenced\<close>
  "seed_requests [] ports g_memories = Inr []"
| "seed_requests (ip # ips) [] g_memories = Inl Null_Pointer"
| "seed_requests (ip # ips) (port # ports) g_memories =
     rbind (seed_requests ips ports g_memories) (\<lambda>reqs.
     Inr (\<lparr>req_ip = ip, req_port = port, req_content = g_memories, req_sizes = elements_gossip_info g_memories\<rparr> # reqs))"

definition gossip :: "gossip_config \<Rightarrow> int \<Rightarrow> memory_t list \<Rightarrow> (memory_t list \<times> gossip_request list) result" where
  "gossip cfg now g_memories =
     (case find (find_myself_as_memory cfg) g_memories of
        None \<Rightarrow> Inl Null_Pointer
      | Some me \<Rightarrow>
          let g_memories' = update_first (find_myself_as_memory cfg) (\<lambda>m. m\<lparr>mem_timestamp := now\<rparr>) g_memories
          in rbind (seed_requests (cfg_seed_ips cfg) (cfg_seed_ports cfg) g_memories') (\<lambda>reqs. Inr (g_memories', reqs)))"

definition update_memory :: "memory_t list \<Rightarrow> memory_t \<Rightarrow> memory_t list" where
  "update_memory g_memories memory =
     (case find (\<lambda>m. mem_id m = mem_id memory) g_memories of
        Some existing \<Rightarrow>
          if mem_timestamp existing < mem_timestamp memory then
            update_first (\<lambda>m. mem_id m = mem_id memory)
              (\<lambda>m. m\<lparr>mem_ip := mem_ip memory, mem_port := mem_port memory, mem_alive := mem_alive memory,
                     mem_timestamp := mem_timestamp memory\<rparr>) g_memories
          else g_memories
      | None \<Rightarrow> if mem_id memory \<noteq> -1 then g_memories @ [memory] else g_memories)"

definition post_gossip ::
  "commons \<Rightarrow> int \<Rightarrow> memory_t list \<Rightarrow> memory_t list option \<Rightarrow> string \<Rightarrow> int \<Rightarrow> memory_t list" where
  \<comment> \<open>\<open>ip\<close> and \<open>port\<close> are those of \<open>requested_memory\<close>\<close>
  "post_gossip cm now g_memories result ip port =
     (case result of
        None \<Rightarrow> update_first (\<lambda>m. string_equals_ignore_case cm (mem_ip m) ip \<and> mem_port m = port)
                  (\<lambda>m. m\<lparr>mem_alive := False, mem_timestamp := now\<rparr>) g_memories
      | Some child_memories \<Rightarrow> foldl update_memory g_memories child_memories)"

definition on_gossip :: "memory_t list \<Rightarrow> memory_t list \<Rightarrow> memory_t list \<times> memory_t list" where
  \<comment> \<open>the new table and the copy of it that is answered\<close>
  "on_gossip g_memories result = (let g_memories' = foldl update_memory g_memories result in (g_memories', g_memories'))"

section \<open>Merging: the newer record wins\<close>

type_synonym mem_view = "int \<Rightarrow> memory_t option"

definition newest :: "memory_t option \<Rightarrow> memory_t \<Rightarrow> memory_t" where
  "newest known m = (case known of None \<Rightarrow> m | Some e \<Rightarrow> if mem_timestamp e < mem_timestamp m then m else e)"

definition merge_one :: "(int \<Rightarrow> bool) \<Rightarrow> mem_view \<Rightarrow> memory_t \<Rightarrow> mem_view" where
  "merge_one accepts v m =
     (if v (mem_id m) = None \<and> \<not> accepts (mem_id m) then v else v(mem_id m \<mapsto> newest (v (mem_id m)) m))"

definition view_ok :: "mem_view \<Rightarrow> bool" where
  "view_ok v \<longleftrightarrow> (\<forall>i e. v i = Some e \<longrightarrow> mem_id e = i)"

definition tie_free :: "memory_t set \<Rightarrow> bool" where
  \<comment> \<open>a timestamp identifies one version of a memory\<close>
  "tie_free M \<longleftrightarrow> (\<forall>a \<in> M. \<forall>b \<in> M. mem_id a = mem_id b \<longrightarrow> mem_timestamp a = mem_timestamp b \<longrightarrow> a = b)"

definition known :: "mem_view \<Rightarrow> memory_t set" where
  "known v = {e. \<exists>i. v i = Some e}"

lemma view_ok_merge_one: "view_ok v \<Longrightarrow> view_ok (merge_one acc v m)"
  by (auto simp: view_ok_def merge_one_def newest_def split: option.splits if_splits)

lemma view_ok_merge: "view_ok v \<Longrightarrow> view_ok (foldl (merge_one acc) v ms)"
  by (induction ms arbitrary: v) (auto simp: view_ok_merge_one)

text \<open>The record a merge ends with for an identifier: one of those it saw, and none of them is newer.\<close>

lemma merge_from:
  "foldl (merge_one acc) v ms i = Some e \<Longrightarrow> v i = Some e \<or> (e \<in> set ms \<and> mem_id e = i)"
proof (induction ms arbitrary: v)
  case (Cons m ms)
  then have "merge_one acc v m i = Some e \<or> (e \<in> set ms \<and> mem_id e = i)" by simp
  then show ?case by (auto simp: merge_one_def newest_def split: option.splits if_splits)
qed simp

lemma merge_one_keeps: "v i = Some e \<Longrightarrow> \<exists>e'. merge_one acc v m i = Some e' \<and> mem_timestamp e \<le> mem_timestamp e'"
  by (cases "mem_id m = i") (auto simp: merge_one_def newest_def)

lemma merge_keeps:
  "v i = Some e \<Longrightarrow> \<exists>e'. foldl (merge_one acc) v ms i = Some e' \<and> mem_timestamp e \<le> mem_timestamp e'"
proof (induction ms arbitrary: v e)
  case (Cons m ms)
  obtain e1 where "merge_one acc v m i = Some e1" "mem_timestamp e \<le> mem_timestamp e1"
    using merge_one_keeps [of v i e acc m] Cons.prems by blast
  then show ?case using Cons.IH [of "merge_one acc v m" e1] by fastforce
qed simp

lemma merge_takes:
  assumes "m \<in> set ms" "acc (mem_id m) \<or> v (mem_id m) \<noteq> None"
  shows "\<exists>e. foldl (merge_one acc) v ms (mem_id m) = Some e \<and> mem_timestamp m \<le> mem_timestamp e"
  using assms
proof (induction ms arbitrary: v)
  case (Cons x ms)
  show ?case
  proof (cases "x = m")
    case True
    then obtain e where "merge_one acc v x (mem_id m) = Some e" "mem_timestamp m \<le> mem_timestamp e"
      using Cons.prems by (auto simp: merge_one_def newest_def split: option.splits)
    then show ?thesis using merge_keeps [of "merge_one acc v x" "mem_id m" e acc ms] by fastforce
  next
    case False
    then have "acc (mem_id m) \<or> merge_one acc v x (mem_id m) \<noteq> None" using Cons.prems
      by (auto simp: merge_one_def)
    then show ?thesis using Cons.IH [of "merge_one acc v x"] Cons.prems False by auto
  qed
qed simp

lemma merge_absent:
  "v i = None \<Longrightarrow> \<not> acc i \<or> i \<notin> mem_id ` set ms \<Longrightarrow> foldl (merge_one acc) v ms i = None"
proof (induction ms arbitrary: v)
  case (Cons m ms)
  have "merge_one acc v m i = None" using Cons.prems by (cases "mem_id m = i") (auto simp: merge_one_def)
  with Cons show ?case by simp
qed simp

text \<open>Merging what has been merged already changes nothing.\<close>

lemma merge_idem:
  "(\<And>m. m \<in> set ms \<Longrightarrow> (\<exists>e. v (mem_id m) = Some e \<and> mem_timestamp m \<le> mem_timestamp e) \<or>
      (v (mem_id m) = None \<and> \<not> acc (mem_id m))) \<Longrightarrow>
   foldl (merge_one acc) v ms = v"
proof (induction ms)
  case (Cons m ms)
  have "merge_one acc v m = v"
    using Cons.prems [of m] by (auto simp: merge_one_def newest_def fun_upd_idem)
  then show ?case using Cons.IH Cons.prems by auto
qed simp

fun learns :: "('s \<Rightarrow> memory_t \<Rightarrow> 's \<Rightarrow> bool) \<Rightarrow> 's \<Rightarrow> memory_t list \<Rightarrow> 's \<Rightarrow> bool" where
  "learns learn s [] s' \<longleftrightarrow> s' = s"
| "learns learn s (m # ms) s' \<longleftrightarrow> (\<exists>t. learn s m t \<and> learns learn t ms s')"

locale gossip_table =
  fixes view :: "'s \<Rightarrow> mem_view"
    and good :: "'s \<Rightarrow> bool"
    and accepts :: "int \<Rightarrow> bool"
    and learn :: "'s \<Rightarrow> memory_t \<Rightarrow> 's \<Rightarrow> bool"
  assumes good_view: "good s \<Longrightarrow> view_ok (view s)"
    and learn_good: "good s \<Longrightarrow> learn s m s' \<Longrightarrow> good s'"
    and learn_view: "good s \<Longrightarrow> learn s m s' \<Longrightarrow> view s' = merge_one accepts (view s) m"
begin

lemma learns_view:
  "good s \<Longrightarrow> learns learn s ms s' \<Longrightarrow> good s' \<and> view s' = foldl (merge_one accepts) (view s) ms"
proof (induction ms arbitrary: s)
  case (Cons m ms)
  from Cons.prems(2) obtain t where t: "learn s m t" "learns learn t ms s'" by auto
  show ?case
    using Cons.IH [OF learn_good [OF Cons.prems(1) t(1)] t(2)] learn_view [OF Cons.prems(1) t(1)] by simp
qed simp

text \<open>What is known never gets older, and nothing is made up.\<close>

lemma learns_monotone:
  assumes "good s" "learns learn s ms s'" "view s i = Some e"
  shows "\<exists>e'. view s' i = Some e' \<and> mem_timestamp e \<le> mem_timestamp e'"
  using merge_keeps [of "view s" i e accepts ms] assms(3) learns_view [OF assms(1,2)] by auto

lemma learns_sound:
  assumes "good s" "learns learn s ms s'" "view s' i = Some e"
  shows "view s i = Some e \<or> (e \<in> set ms \<and> mem_id e = i)"
  using merge_from [of accepts "view s" ms i e] learns_view [OF assms(1,2)] assms(3) by simp

lemma learns_newest:
  assumes "good s" "learns learn s ms s'" "m \<in> set ms" "accepts (mem_id m)"
  shows "\<exists>e. view s' (mem_id m) = Some e \<and> mem_timestamp m \<le> mem_timestamp e"
  using merge_takes [OF assms(3), of accepts "view s"] assms(4) learns_view [OF assms(1,2)] by auto

text \<open>Learning the same news again, in any order, changes nothing.\<close>

lemma learns_again:
  assumes "good s" "learns learn s ms s'" "set ms' \<subseteq> set ms" "learns learn s' ms' s''"
  shows "view s'' = view s'"
proof -
  have v: "good s'" "view s' = foldl (merge_one accepts) (view s) ms" using learns_view [OF assms(1,2)] by auto
  have "foldl (merge_one accepts) (view s') ms' = view s'"
  proof (rule merge_idem)
    fix m assume "m \<in> set ms'"
    then have m: "m \<in> set ms" using assms(3) by auto
    show "(\<exists>e. view s' (mem_id m) = Some e \<and> mem_timestamp m \<le> mem_timestamp e) \<or> (view s' (mem_id m) = None \<and> \<not> accepts (mem_id m))"
      using merge_takes [OF m, of accepts "view s"] merge_absent [of "view s" "mem_id m" accepts ms] v(2) by auto
  qed
  then show ?thesis using learns_view [OF v(1) assms(4)] by simp
qed

text \<open>
  Two tables that exchange their contents agree: the receiver learns the sender's records, the
  sender learns the receiver's new records. \<open>ms\<close> and \<open>ms'\<close> are the lists that travel.
\<close>

lemma exchange_agrees:
  assumes "good s" "good t" "set ms = known (view s)" "\<forall>m \<in> known (view s). accepts (mem_id m)" "\<forall>m \<in> known (view t). accepts (mem_id m)"
    "learns learn t ms t'" "set ms' = known (view t')" "learns learn s ms' s'" "tie_free (known (view s) \<union> known (view t))"
  shows "view s' = view t'"
proof
  fix i
  have t': "good t'" "view t' = foldl (merge_one accepts) (view t) ms" using learns_view [OF assms(2,6)] by auto
  have s': "good s'" "view s' = foldl (merge_one accepts) (view s) ms'" using learns_view [OF assms(1,8)] by auto
  have sub: "known (view t') \<subseteq> known (view s) \<union> known (view t)"
    using learns_sound [OF assms(2,6)] assms(3) unfolding known_def by blast
  have acc: "\<forall>m \<in> set ms'. accepts (mem_id m)" using sub assms(4,5,7) by auto
  show "view s' i = view t' i"
  proof (cases "view t' i")
    case None
    have "view s i = None"
    proof (rule ccontr)
      assume "view s i \<noteq> None"
      then obtain e where e: "view s i = Some e" by auto
      then have "e \<in> set ms" "mem_id e = i" using assms(3) good_view [OF assms(1)] by (auto simp: known_def view_ok_def)
      then show False using learns_newest [OF assms(2,6), of e] assms(4) assms(3) None by auto
    qed
    moreover have "\<forall>m \<in> set ms'. mem_id m \<noteq> i"
      using None assms(7) good_view [OF t'(1)] by (auto simp: known_def view_ok_def)
    ultimately show ?thesis using None s'(2) merge_absent [of "view s" i accepts ms'] by auto
  next
    case (Some e)
    then have e: "e \<in> set ms'" "mem_id e = i" using assms(7) good_view [OF t'(1)] by (auto simp: known_def view_ok_def)
    obtain e' where e': "view s' i = Some e'" "mem_timestamp e \<le> mem_timestamp e'"
      using learns_newest [OF assms(1,8) e(1)] acc e by auto
    have "mem_timestamp e' \<le> mem_timestamp e \<and> e' \<in> known (view s) \<union> known (view t) \<and> mem_id e' = i"
      using learns_sound [OF assms(1,8) e'(1)]
    proof
      assume *: "view s i = Some e'"
      then have "e' \<in> set ms" "mem_id e' = i" using assms(3) good_view [OF assms(1)] by (auto simp: known_def view_ok_def)
      then show ?thesis using learns_newest [OF assms(2,6), of e'] assms(3,4) Some * by (auto simp: known_def)
    next
      assume *: "e' \<in> set ms' \<and> mem_id e' = i"
      then obtain j where "view t' j = Some e'" using assms(7) by (auto simp: known_def)
      then have "view t' i = Some e'" using * good_view [OF t'(1)] by (auto simp: view_ok_def)
      then show ?thesis using Some * sub by (auto simp: known_def)
    qed
    moreover have "e \<in> known (view s) \<union> known (view t)" using Some sub by (auto simp: known_def)
    ultimately have "e' = e" using assms(9) e'(2) e(2) by (auto simp: tie_free_def)
    then show ?thesis using e'(1) Some by simp
  qed
qed

end

section \<open>The table of a memory\<close>

definition mem_view_of :: "memory_t list \<Rightarrow> mem_view" where
  "mem_view_of ms i = find (\<lambda>m. mem_id m = i) ms"

definition gossip_ok :: "memory_t list \<Rightarrow> bool" where
  "gossip_ok ms \<longleftrightarrow> distinct (map mem_id ms) \<and> -1 \<notin> mem_id ` set ms"

lemma mem_view_of_update_memory: "mem_view_of (update_memory ms m) = merge_one (\<lambda>i. i \<noteq> -1) (mem_view_of ms) m"
proof
  fix i
  let ?f = "\<lambda>x. x\<lparr>mem_ip := mem_ip m, mem_port := mem_port m, mem_alive := mem_alive m, mem_timestamp := mem_timestamp m\<rparr>"
  have f: "mem_id (?f x) = mem_id x" for x by simp
  have same: "?f x = m" if "mem_id x = mem_id m" for x using that by simp
  show "mem_view_of (update_memory ms m) i = merge_one (\<lambda>i. i \<noteq> -1) (mem_view_of ms) m i"
  proof (cases "find (\<lambda>x. mem_id x = mem_id m) ms")
    case None
    then show ?thesis
      by (auto simp: mem_view_of_def update_memory_def merge_one_def newest_def find_append split: option.splits)
  next
    case (Some e)
    then have e: "mem_id e = mem_id m" using find_key_in [of mem_id "mem_id m" ms e] by simp
    then show ?thesis
      using Some same [OF e] find_update_first [of mem_id ?f i "mem_id m" ms, OF f]
      by (auto simp: mem_view_of_def update_memory_def merge_one_def newest_def)
  qed
qed

lemma gossip_ok_update_first: "(\<And>x. mem_id (f x) = mem_id x) \<Longrightarrow> gossip_ok (update_first P f ms) \<longleftrightarrow> gossip_ok ms"
  using map_update_first [of mem_id f P ms] by (simp add: gossip_ok_def flip: set_map)

lemma gossip_ok_update_memory:
  assumes "gossip_ok ms" shows "gossip_ok (update_memory ms m)"
proof (cases "find (\<lambda>x. mem_id x = mem_id m) ms")
  case None
  with assms show ?thesis
    using find_key_None [of mem_id "mem_id m" ms] by (auto simp: update_memory_def gossip_ok_def)
next
  case (Some e)
  with assms show ?thesis by (simp add: update_memory_def gossip_ok_update_first)
qed

interpretation mem_gossip: gossip_table mem_view_of gossip_ok "\<lambda>i. i \<noteq> -1" "\<lambda>ms m ms'. ms' = update_memory ms m"
proof
  show "view_ok (mem_view_of s)" if "gossip_ok s" for s
    unfolding view_ok_def mem_view_of_def by (blast dest: find_key_in)
qed (simp_all add: gossip_ok_update_memory mem_view_of_update_memory)

lemma learns_foldl: "learns (\<lambda>ms m ms'. ms' = update_memory ms m) ms news ms' \<longleftrightarrow> ms' = foldl update_memory ms news"
  by (induction news arbitrary: ms) auto

lemma known_mem_view_of:
  assumes "gossip_ok ms" shows "known (mem_view_of ms) = set ms"
proof
  show "known (mem_view_of ms) \<subseteq> set ms"
    unfolding known_def mem_view_of_def by (blast dest: find_key_in)
  show "set ms \<subseteq> known (mem_view_of ms)"
  proof
    fix m assume "m \<in> set ms"
    then have "find (\<lambda>x. mem_id x = mem_id m) ms = Some m"
      using assms find_key_distinct [of mem_id ms m] by (simp add: gossip_ok_def)
    then show "m \<in> known (mem_view_of ms)" unfolding known_def mem_view_of_def by blast
  qed
qed

lemma gossip_ok_init: "cfg_memory_number cfg \<noteq> -1 \<Longrightarrow> gossip_ok (init_gossiping cfg now)"
  by (simp add: gossip_ok_def init_gossiping_def)

lemma gossip_ok_merge: "gossip_ok ms \<Longrightarrow> gossip_ok (foldl update_memory ms news)"
  by (induction news arbitrary: ms) (auto simp: gossip_ok_update_memory)

lemma gossip_ok_post_gossip: "gossip_ok ms \<Longrightarrow> gossip_ok (post_gossip cm now ms result ip port)"
  by (cases result) (simp_all add: post_gossip_def gossip_ok_merge gossip_ok_update_first)

lemma gossip_InrD:
  assumes "gossip cfg now ms = Inr (ms', reqs)"
  shows "ms' = update_first (find_myself_as_memory cfg) (\<lambda>m. m\<lparr>mem_timestamp := now\<rparr>) ms"
    "seed_requests (cfg_seed_ips cfg) (cfg_seed_ports cfg) ms' = Inr reqs"
  using assms by (auto simp: gossip_def Let_def rbind_Inr_iff split: option.splits)

lemma gossip_ok_gossip: "gossip_ok ms \<Longrightarrow> gossip cfg now ms = Inr (ms', reqs) \<Longrightarrow> gossip_ok ms'"
  using gossip_InrD(1) [of cfg now ms ms' reqs] by (simp add: gossip_ok_update_first)

text \<open>The seeds of one round: every seed gets the table as it is after the refresh of the own record.\<close>

lemma seed_requests_Inr:
  "length ips \<le> length ports \<Longrightarrow>
   seed_requests ips ports ms = Inr (map (\<lambda>(ip, port). \<lparr>req_ip = ip, req_port = port, req_content = ms, req_sizes = elements_gossip_info ms\<rparr>) (zip ips ports))"
  by (induction ips ports ms rule: seed_requests.induct) auto

lemma seed_requests_content: "seed_requests ips ports ms = Inr reqs \<Longrightarrow> r \<in> set reqs \<Longrightarrow> req_content r = ms"
  by (induction ips ports ms arbitrary: reqs rule: seed_requests.induct) (auto simp: rbind_Inr_iff)

end
