(* ===== verification/Gossip_Net.thy ===== *)
theory Gossip_Net
  imports Gossip
begin

text \<open>
  Memories that gossip with each other: an interleaving model of any number of memories that start,
  send their tables to their seeds, receive, answer and time out, each step one call of
  \<open>memoria/src/gossiping/gossiping.c\<close>. A message stays in the network once it is sent, so it may
  arrive late, twice, or never; a request may also reach any running memory, so no relation between
  addresses and identifiers is assumed. The clock of \<open>get_timestamp\<close> never goes back.
\<close>

record gossip_net =
  net_cfg :: "int \<Rightarrow> gossip_config"
  net_tables :: "int \<Rightarrow> memory_t list option"
  net_clock :: int
  net_requests :: "(int \<times> gossip_request) set"
  net_replies :: "(int \<times> gossip_request \<times> memory_t list) set"

abbreviation set_table :: "int \<Rightarrow> memory_t list \<Rightarrow> gossip_net \<Rightarrow> gossip_net" where
  "set_table n ms net \<equiv> net\<lparr>net_tables := (net_tables net)(n \<mapsto> ms)\<rparr>"

inductive gossip_step :: "commons \<Rightarrow> gossip_net \<Rightarrow> gossip_net \<Rightarrow> bool" for cm where
  start: "net_tables net n = None \<Longrightarrow> cfg_memory_number (net_cfg net n) = n \<Longrightarrow> n \<noteq> -1 \<Longrightarrow> net_clock net \<le> now \<Longrightarrow>
    gossip_step cm net (set_table n (init_gossiping (net_cfg net n) now) net\<lparr>net_clock := now\<rparr>)"
| round: "net_tables net n = Some ms \<Longrightarrow> net_clock net \<le> now \<Longrightarrow> gossip (net_cfg net n) now ms = Inr (ms', reqs) \<Longrightarrow>
    gossip_step cm net (set_table n ms' net\<lparr>net_clock := now, net_requests := net_requests net \<union> Pair n ` set reqs\<rparr>)"
| receive: "(n, req) \<in> net_requests net \<Longrightarrow> net_tables net k = Some ms \<Longrightarrow> on_gossip ms (req_content req) = (ms', reply) \<Longrightarrow>
    gossip_step cm net (set_table k ms' net\<lparr>net_replies := insert (n, req, reply) (net_replies net)\<rparr>)"
| answer: "(n, req, reply) \<in> net_replies net \<Longrightarrow> net_tables net n = Some ms \<Longrightarrow>
    gossip_step cm net (set_table n (post_gossip cm now ms (Some reply) (req_ip req) (req_port req)) net)"
| no_answer: "(n, req) \<in> net_requests net \<Longrightarrow> net_tables net n = Some ms \<Longrightarrow> net_clock net \<le> now \<Longrightarrow>
    gossip_step cm net (set_table n (post_gossip cm now ms None (req_ip req) (req_port req)) net\<lparr>net_clock := now\<rparr>)"

inductive gossip_reaches :: "commons \<Rightarrow> gossip_net \<Rightarrow> gossip_net \<Rightarrow> bool" for cm where
  here: "gossip_reaches cm net net"
| further: "gossip_reaches cm net net' \<Longrightarrow> gossip_step cm net' net'' \<Longrightarrow> gossip_reaches cm net net''"

definition net_init :: "(int \<Rightarrow> gossip_config) \<Rightarrow> gossip_net" where
  "net_init cfg = \<lparr>net_cfg = cfg, net_tables = (\<lambda>_. None), net_clock = 0, net_requests = {}, net_replies = {}\<rparr>"

section \<open>Records in the system\<close>

definition net_records :: "gossip_net \<Rightarrow> memory_t set" where
  \<comment> \<open>every record some memory knows or some message carries\<close>
  "net_records net = (\<Union>n ms. if net_tables net n = Some ms then set ms else {}) \<union>
     (\<Union>(n, req) \<in> net_requests net. set (req_content req)) \<union> (\<Union>(n, req, reply) \<in> net_replies net. set reply)"

lemma net_records_table: "net_tables net n = Some ms \<Longrightarrow> set ms \<subseteq> net_records net"
  unfolding net_records_def by fastforce

lemma net_records_request: "(n, req) \<in> net_requests net \<Longrightarrow> set (req_content req) \<subseteq> net_records net"
  unfolding net_records_def by fastforce

lemma net_records_reply: "(n, req, reply) \<in> net_replies net \<Longrightarrow> set reply \<subseteq> net_records net"
  unfolding net_records_def by fastforce

lemma net_records_sub:
  assumes "\<And>n ms. net_tables net n = Some ms \<Longrightarrow> set ms \<subseteq> R"
    "\<And>n req. (n, req) \<in> net_requests net \<Longrightarrow> set (req_content req) \<subseteq> R"
    "\<And>n req reply. (n, req, reply) \<in> net_replies net \<Longrightarrow> set reply \<subseteq> R"
  shows "net_records net \<subseteq> R"
  unfolding net_records_def using assms by (fastforce split: if_splits)

lemma set_update_memory: "set (update_memory ms m) \<subseteq> insert m (set ms)"
proof -
  have *: "\<And>x. mem_id x = mem_id m \<Longrightarrow>
      x\<lparr>mem_ip := mem_ip m, mem_port := mem_port m, mem_alive := mem_alive m, mem_timestamp := mem_timestamp m\<rparr> = m"
    by simp
  show ?thesis
    unfolding update_memory_def by (auto split: option.splits dest!: subsetD [OF set_update_first] simp: *)
qed

lemma set_merge: "set (foldl update_memory ms news) \<subseteq> set ms \<union> set news"
  using set_update_memory by (induction news arbitrary: ms) fastforce+

text \<open>What a step may add: records about the stepping memory's own refresh, and records marked dead.\<close>

definition new_record :: "gossip_net \<Rightarrow> int \<Rightarrow> memory_t \<Rightarrow> bool" where
  "new_record net now r \<longleftrightarrow> net_clock net \<le> now \<and> mem_timestamp r = now \<and>
     (\<not> mem_alive r \<or>
      (\<exists>n ms old. net_tables net n = Some ms \<and> old \<in> set ms \<and> mem_id old = cfg_memory_number (net_cfg net n) \<and>
         r = old\<lparr>mem_timestamp := now\<rparr>) \<or>
      (net_tables net (mem_id r) = None))"

lemma step_records:
  assumes "gossip_step cm net net'"
  shows "net_records net' \<subseteq> net_records net \<union> Collect (new_record net (net_clock net'))" (is "_ \<subseteq> ?R")
    and "net_clock net \<le> net_clock net'" and "net_cfg net' = net_cfg net"
proof -
  have old: "set ms \<subseteq> ?R" if "net_tables net n = Some ms" for n ms using net_records_table [OF that] by blast
  have reqs: "set (req_content req) \<subseteq> ?R" if "(n, req) \<in> net_requests net" for n req using net_records_request [OF that] by blast
  have replies: "set reply \<subseteq> ?R" if "(n, req, reply) \<in> net_replies net" for n req reply using net_records_reply [OF that] by blast
  from assms show "net_records net' \<subseteq> ?R"
  proof cases
    case (start n now)
    then have "set (init_gossiping (net_cfg net n) now) \<subseteq> ?R" by (auto simp: init_gossiping_def new_record_def)
    then show ?thesis
      by (intro net_records_sub) (use start old reqs replies in \<open>auto split: if_splits\<close>)
  next
    case (round n ms now ms' sent)
    have "set ms' \<subseteq> set ms \<union> (\<lambda>m. m\<lparr>mem_timestamp := now\<rparr>) ` {m \<in> set ms. find_myself_as_memory (net_cfg net n) m}"
      unfolding gossip_InrD(1) [OF round(4)] by (rule set_update_first)
    also have "\<dots> \<subseteq> ?R"
    proof -
      have "new_record net now (m\<lparr>mem_timestamp := now\<rparr>)" if "m \<in> set ms" "find_myself_as_memory (net_cfg net n) m" for m
        using that round(2,3) unfolding new_record_def find_myself_as_memory_def by fastforce
      then show ?thesis using old [OF round(2)] round(1) by auto
    qed
    finally have ms': "set ms' \<subseteq> ?R" .
    have sent: "set (req_content r) \<subseteq> ?R" if "r \<in> set sent" for r
      using seed_requests_content [OF gossip_InrD(2) [OF round(4)] that] ms' by simp
    show ?thesis
      by (intro net_records_sub) (use round(1) ms' sent old reqs replies in \<open>fastforce split: if_splits\<close>)+
  next
    case (receive n req k ms ms' reply)
    have "set ms' \<subseteq> ?R" "reply = ms'"
      using receive(4) set_merge [of ms "req_content req"] old [OF receive(3)] reqs [OF receive(2)]
      by (auto simp: on_gossip_def Let_def)
    then show ?thesis
      by (intro net_records_sub) (use receive(1) old reqs replies in \<open>fastforce split: if_splits\<close>)+
  next
    case (answer n req reply ms now)
    have "set (post_gossip cm now ms (Some reply) (req_ip req) (req_port req)) \<subseteq> ?R"
      using set_merge [of ms reply] old [OF answer(3)] replies [OF answer(2)] by (auto simp: post_gossip_def)
    then show ?thesis
      by (intro net_records_sub) (use answer(1) old reqs replies in \<open>auto split: if_splits\<close>)
  next
    case (no_answer n req ms now)
    have "set (post_gossip cm now ms None (req_ip req) (req_port req)) \<subseteq>
      set ms \<union> (\<lambda>m. m\<lparr>mem_alive := False, mem_timestamp := now\<rparr>) ` set ms"
      unfolding post_gossip_def using set_update_first by fastforce
    also have "\<dots> \<subseteq> ?R" using old [OF no_answer(3)] no_answer(1,4) by (auto simp: new_record_def)
    finally show ?thesis
      by (intro net_records_sub) (use no_answer(1) old reqs replies in \<open>auto split: if_splits\<close>)
  qed
  from assms show "net_clock net \<le> net_clock net'" "net_cfg net' = net_cfg net" by (cases; simp)+
qed

section \<open>Every table stays well formed\<close>

definition net_ok :: "gossip_net \<Rightarrow> bool" where
  "net_ok net \<longleftrightarrow>
     (\<forall>n ms. net_tables net n = Some ms \<longrightarrow> gossip_ok ms \<and> n \<in> mem_id ` set ms \<and> cfg_memory_number (net_cfg net n) = n) \<and>
     (\<forall>r \<in> net_records net. mem_timestamp r \<le> net_clock net)"

lemma ids_update_first:
  assumes "\<And>x. mem_id (f x) = mem_id x" shows "mem_id ` set (update_first P f ms) = mem_id ` set ms"
  using map_update_first [of mem_id f P ms, OF assms] by (metis list.set_map)

lemma ids_update_memory: "mem_id ` set ms \<subseteq> mem_id ` set (update_memory ms m)"
  by (auto simp: update_memory_def ids_update_first split: option.splits)

lemma ids_merge: "mem_id ` set ms \<subseteq> mem_id ` set (foldl update_memory ms news)"
  using ids_update_memory by (induction news arbitrary: ms) fastforce+

lemma ids_post_gossip: "mem_id ` set ms \<subseteq> mem_id ` set (post_gossip cm now ms result ip port)"
  using ids_merge by (cases result) (auto simp: post_gossip_def ids_update_first)

lemma net_ok_tables:
  assumes "gossip_step cm net net'" "net_ok net" "net_tables net' n = Some ms"
  shows "gossip_ok ms \<and> n \<in> mem_id ` set ms \<and> cfg_memory_number (net_cfg net' n) = n"
proof -
  have old: "gossip_ok ms \<and> n \<in> mem_id ` set ms \<and> cfg_memory_number (net_cfg net n) = n"
    if "net_tables net n = Some ms" for n ms using assms(2) that by (simp add: net_ok_def)
  from assms(1) show ?thesis
  proof cases
    case (start k now)
    then show ?thesis using assms(3) old gossip_ok_init [of "net_cfg net k" now]
      by (auto simp: init_gossiping_def split: if_splits)
  next
    case (round k ms0 now ms' sent)
    have "gossip_ok ms'" "mem_id ` set ms' = mem_id ` set ms0"
      using old [OF round(2)] gossip_ok_gossip [OF _ round(4)] gossip_InrD(1) [OF round(4)] by (auto simp: ids_update_first)
    then show ?thesis using assms(3) old [OF round(2)] old round(1) by (auto split: if_splits)
  next
    case (receive k req j ms0 ms' reply)
    have "gossip_ok ms'" "mem_id ` set ms0 \<subseteq> mem_id ` set ms'"
      using old [OF receive(3)] receive(4) gossip_ok_merge [of ms0 "req_content req"] ids_merge [of ms0 "req_content req"]
      by (simp_all add: on_gossip_def Let_def)
    then show ?thesis using assms(3) old [OF receive(3)] old receive(1) by (auto split: if_splits)
  next
    case (answer k req reply ms0 now)
    then show ?thesis
      using assms(3) old old [OF answer(3)] gossip_ok_post_gossip [of ms0 cm now "Some reply"]
        subsetD [OF ids_post_gossip [of ms0 cm now "Some reply" "req_ip req" "req_port req"], of k]
      by (auto split: if_splits)
  next
    case (no_answer k req ms0 now)
    then show ?thesis
      using assms(3) old old [OF no_answer(3)] gossip_ok_post_gossip [of ms0 cm now None]
        subsetD [OF ids_post_gossip [of ms0 cm now None "req_ip req" "req_port req"], of k]
      by (auto split: if_splits)
  qed
qed

lemma net_ok_step:
  assumes "gossip_step cm net net'" "net_ok net"
  shows "net_ok net'"
proof -
  have "mem_timestamp r \<le> net_clock net'" if "r \<in> net_records net'" for r
  proof -
    have "r \<in> net_records net \<or> new_record net (net_clock net') r" using step_records(1) [OF assms(1)] that by blast
    then show ?thesis using assms(2) step_records(2) [OF assms(1)] by (fastforce simp: net_ok_def new_record_def)
  qed
  then show ?thesis using net_ok_tables [OF assms] by (simp add: net_ok_def)
qed

lemma net_ok_reaches: "gossip_reaches cm net net' \<Longrightarrow> net_ok net \<Longrightarrow> net_ok net'"
  by (induction rule: gossip_reaches.induct) (auto intro: net_ok_step)

lemma net_ok_init: "net_ok (net_init cfg)"
  by (simp add: net_ok_def net_init_def net_records_def)

section \<open>Death is permanent\<close>

definition believes_dead :: "int \<Rightarrow> gossip_net \<Rightarrow> bool" where
  \<comment> \<open>memory \<open>b\<close> runs, its own table says that it is dead, and every record that says it is alive is older\<close>
  "believes_dead b net \<longleftrightarrow>
     (\<exists>ms own. net_tables net b = Some ms \<and> mem_view_of ms b = Some own \<and> \<not> mem_alive own \<and>
        (\<forall>r \<in> net_records net. mem_id r = b \<longrightarrow> mem_alive r \<longrightarrow> mem_timestamp r < mem_timestamp own))"

lemma mem_view_of_in: "mem_view_of ms i = Some e \<Longrightarrow> e \<in> set ms \<and> mem_id e = i"
  unfolding mem_view_of_def by (rule find_key_in)

text \<open>A call that only merges, marks dead or refreshes keeps the own record dead and never makes it older.\<close>

lemma merge_stays_dead:
  assumes "gossip_ok ms" "mem_view_of ms b = Some own" "\<not> mem_alive own"
    "\<forall>r \<in> set news. mem_id r = b \<longrightarrow> mem_alive r \<longrightarrow> mem_timestamp r < mem_timestamp own"
  shows "\<exists>own'. mem_view_of (foldl update_memory ms news) b = Some own' \<and> \<not> mem_alive own' \<and> mem_timestamp own \<le> mem_timestamp own'"
proof -
  have l: "learns (\<lambda>ms m ms'. ms' = update_memory ms m) ms news (foldl update_memory ms news)" by (simp add: learns_foldl)
  obtain own' where own': "mem_view_of (foldl update_memory ms news) b = Some own'" "mem_timestamp own \<le> mem_timestamp own'"
    using mem_gossip.learns_monotone [OF assms(1) l assms(2)] by blast
  have "\<not> mem_alive own'"
    using mem_gossip.learns_sound [OF assms(1) l own'(1)] assms(2,3,4) own'(2) by auto
  with own' show ?thesis by blast
qed

lemma update_first_stays_dead:
  assumes "mem_view_of ms b = Some own" "\<not> mem_alive own" "mem_timestamp own \<le> now"
    "\<And>x. mem_id (f x) = mem_id x" "\<And>x. mem_alive (f x) \<longrightarrow> mem_alive x" "\<And>x. mem_timestamp (f x) = now"
  shows "\<exists>own'. mem_view_of (update_first P f ms) b = Some own' \<and> \<not> mem_alive own' \<and> mem_timestamp own \<le> mem_timestamp own'"
  using assms(1,2,3)
proof (induction ms)
  case (Cons m ms)
  then show ?case using assms(4,5,6) by (cases "mem_id m = b") (auto simp: mem_view_of_def)
qed (simp add: mem_view_of_def)

lemma believes_dead_step:
  assumes "gossip_step cm net net'" "net_ok net" "believes_dead b net"
  shows "believes_dead b net'"
proof -
  obtain ms own where ms: "net_tables net b = Some ms" and own: "mem_view_of ms b = Some own" "\<not> mem_alive own"
    and older: "\<forall>r \<in> net_records net. mem_id r = b \<longrightarrow> mem_alive r \<longrightarrow> mem_timestamp r < mem_timestamp own"
    using assms(3) by (auto simp: believes_dead_def)
  have own_now: "mem_timestamp own \<le> net_clock net"
    using assms(2) net_records_table [OF ms] mem_view_of_in [OF own(1)] by (auto simp: net_ok_def)
  have ok: "gossip_ok ms" using assms(2) ms by (simp add: net_ok_def)
  have "\<exists>ms' own'. net_tables net' b = Some ms' \<and> mem_view_of ms' b = Some own' \<and> \<not> mem_alive own' \<and> mem_timestamp own \<le> mem_timestamp own'"
    using assms(1)
  proof cases
    case (start n now)
    then show ?thesis using ms own by auto
  next
    case (round n ms0 now ms' sent)
    show ?thesis
    proof (cases "n = b")
      case True
      then have "ms0 = ms" using ms round(2) by simp
      then show ?thesis
        using update_first_stays_dead [of ms b own now "\<lambda>m. m\<lparr>mem_timestamp := now\<rparr>" "find_myself_as_memory (net_cfg net n)"]
          gossip_InrD(1) [OF round(4)] own own_now round(1,3) True by auto
    qed (use round(1) ms own in auto)
  next
    case (receive n req k ms0 ms' reply)
    show ?thesis
    proof (cases "k = b")
      case True
      then have "ms' = foldl update_memory ms (req_content req)" using ms receive(3,4) by (simp add: on_gossip_def Let_def)
      then show ?thesis
        using merge_stays_dead [OF ok own, of "req_content req"] net_records_request [OF receive(2)] older receive(1) True by auto
    qed (use receive(1) ms own in auto)
  next
    case (answer n req reply ms0 now)
    show ?thesis
    proof (cases "n = b")
      case True
      then show ?thesis
        using merge_stays_dead [OF ok own, of reply] net_records_reply [OF answer(2)] older answer(1,3) ms by (auto simp: post_gossip_def)
    qed (use answer(1) ms own in auto)
  next
    case (no_answer n req ms0 now)
    show ?thesis
    proof (cases "n = b")
      case True
      then have "ms0 = ms" using ms no_answer(3) by simp
      then show ?thesis
        using update_first_stays_dead [of ms b own now "\<lambda>m. m\<lparr>mem_alive := False, mem_timestamp := now\<rparr>"
            "\<lambda>m. string_equals_ignore_case cm (mem_ip m) (req_ip req) \<and> mem_port m = req_port req"]
          own own_now no_answer(1,4) True by (auto simp: post_gossip_def)
    qed (use no_answer(1) ms own in auto)
  qed
  then obtain ms' own' where new: "net_tables net' b = Some ms'" "mem_view_of ms' b = Some own'" "\<not> mem_alive own'"
    "mem_timestamp own \<le> mem_timestamp own'" by blast
  have "mem_timestamp r < mem_timestamp own'" if r: "r \<in> net_records net'" "mem_id r = b" "mem_alive r" for r
  proof -
    have "r \<in> net_records net"
    proof (rule ccontr)
      assume "r \<notin> net_records net"
      then have "new_record net (net_clock net') r" using step_records(1) [OF assms(1)] r(1) by blast
      then obtain n ms1 old where o: "net_tables net n = Some ms1" "old \<in> set ms1" "mem_id old = cfg_memory_number (net_cfg net n)"
        "r = old\<lparr>mem_timestamp := net_clock net'\<rparr>" using r(2,3) ms by (auto simp: new_record_def)
      then have "n = b" using r(2) assms(2) by (auto simp: net_ok_def)
      then have "old = own"
        using o ms own(1) r(2) find_key_distinct [of mem_id ms old] ok by (auto simp: gossip_ok_def mem_view_of_def)
      then show False using own(2) r(3) o(4) by simp
    qed
    then show ?thesis using older r new(4) by fastforce
  qed
  then show ?thesis using new by (auto simp: believes_dead_def)
qed

lemma believes_dead_reaches:
  "gossip_reaches cm net net' \<Longrightarrow> net_ok net \<Longrightarrow> believes_dead b net \<Longrightarrow> believes_dead b net'"
  by (induction rule: gossip_reaches.induct) (auto intro: believes_dead_step net_ok_reaches)

end
