(* ===== verification/Gossip_Theorems.thy ===== *)
theory Gossip_Theorems
  imports Gossip_Net
begin

text \<open>
  The properties of gossiping between memories: two tables agree after one exchange, every
  reachable table is well formed, and a memory that has been told it is dead stays dead.
\<close>

section \<open>Witness data\<close>

definition demo_cfg :: "int \<Rightarrow> gossip_config" where
  "demo_cfg n = \<lparr>cfg_memory_number = n, cfg_ip = ''a'', cfg_port = n,
     cfg_seed_ips = (if n = 1 then [''a''] else []), cfg_seed_ports = (if n = 1 then [2] else [])\<rparr>"

definition demo_record :: "int \<Rightarrow> bool \<Rightarrow> int \<Rightarrow> memory_t" where
  "demo_record n alive t = \<lparr>mem_id = n, mem_ip = ''a'', mem_port = n, mem_alive = alive, mem_timestamp = t\<rparr>"

definition demo_request :: "memory_t list \<Rightarrow> gossip_request" where
  "demo_request ms = \<lparr>req_ip = ''a'', req_port = 2, req_content = ms, req_sizes = elements_gossip_info ms\<rparr>"

definition demo_net :: "memory_t list option \<Rightarrow> memory_t list option \<Rightarrow> int \<Rightarrow> memory_t list set \<Rightarrow> (memory_t list \<times> memory_t list) set \<Rightarrow> gossip_net" where
  "demo_net t1 t2 now sent answered =
     \<lparr>net_cfg = demo_cfg, net_tables = (\<lambda>n. if n = 1 then t1 else if n = 2 then t2 else None), net_clock = now,
      net_requests = (\<lambda>ms. (1, demo_request ms)) ` sent, net_replies = (\<lambda>(ms, reply). (1, demo_request ms, reply)) ` answered\<rparr>"

lemma demo_net_select [simp]:
  "net_cfg (demo_net t1 t2 now S A) = demo_cfg" "net_clock (demo_net t1 t2 now S A) = now"
  "net_tables (demo_net t1 t2 now S A) n = (if n = 1 then t1 else if n = 2 then t2 else None)"
  "net_requests (demo_net t1 t2 now S A) = (\<lambda>ms. (1, demo_request ms)) ` S"
  "net_replies (demo_net t1 t2 now S A) = (\<lambda>(ms, reply). (1, demo_request ms, reply)) ` A"
  by (simp_all add: demo_net_def)

lemma demo_net_update:
  "set_table 1 ms (demo_net t1 t2 now S A) = demo_net (Some ms) t2 now S A"
  "set_table 2 ms (demo_net t1 t2 now S A) = demo_net t1 (Some ms) now S A"
  "(demo_net t1 t2 now S A)\<lparr>net_clock := now'\<rparr> = demo_net t1 t2 now' S A"
  "(demo_net t1 t2 now S A)\<lparr>net_requests := (\<lambda>ms. (1, demo_request ms)) ` S'\<rparr> = demo_net t1 t2 now S' A"
  "(demo_net t1 t2 now S A)\<lparr>net_replies := (\<lambda>(ms, reply). (1, demo_request ms, reply)) ` A'\<rparr> = demo_net t1 t2 now S A'"
  by (auto simp: demo_net_def)

lemma demo_start1: "gossip_step cm (demo_net None t2 now S A) (demo_net (Some (init_gossiping (demo_cfg 1) now)) t2 now S A)"
  using gossip_step.start [of "demo_net None t2 now S A" 1 now cm] by (simp add: demo_net_update demo_cfg_def)

lemma demo_start2: "gossip_step cm (demo_net t1 None now S A) (demo_net t1 (Some (init_gossiping (demo_cfg 2) now)) now S A)"
  using gossip_step.start [of "demo_net t1 None now S A" 2 now cm] by (simp add: demo_net_update demo_cfg_def)

lemma demo_round:
  assumes "gossip (demo_cfg 1) now' ms = Inr (ms', [demo_request ms'])" "now \<le> now'"
  shows "gossip_step cm (demo_net (Some ms) t2 now S A) (demo_net (Some ms') t2 now' (insert ms' S) A)"
  using gossip_step.round [of "demo_net (Some ms) t2 now S A" 1 ms now' ms' "[demo_request ms']" cm] assms
    demo_net_update(4) [where S' = "insert ms' S"]
  by (simp add: demo_net_update(1,3))

lemma demo_receive:
  assumes "sent \<in> S" "on_gossip ms sent = (ms', reply)"
  shows "gossip_step cm (demo_net t1 (Some ms) now S A) (demo_net t1 (Some ms') now S (insert (sent, reply) A))"
  using gossip_step.receive [of 1 "demo_request sent" "demo_net t1 (Some ms) now S A" 2 ms ms' reply cm] assms
    demo_net_update(5) [where A' = "insert (sent, reply) A"]
  by (simp add: demo_net_update(2) demo_request_def)

lemma demo_answer:
  assumes "(sent, reply) \<in> A" "post_gossip cm now ms (Some reply) ''a'' 2 = ms'"
  shows "gossip_step cm (demo_net (Some ms) t2 now S A) (demo_net (Some ms') t2 now S A)"
proof -
  have "(1, demo_request sent, reply) \<in> net_replies (demo_net (Some ms) t2 now S A)"
    using image_eqI [OF _ assms(1), of _ "\<lambda>(ms, reply). (1, demo_request ms, reply)"] by simp
  from gossip_step.answer [OF this, of ms cm now] show ?thesis
    using assms(2) by (simp add: demo_net_update(1)) (simp add: demo_request_def)
qed

lemma demo_no_answer:
  assumes "sent \<in> S" "now \<le> now'" "post_gossip cm now' ms None ''a'' 2 = ms'"
  shows "gossip_step cm (demo_net (Some ms) t2 now S A) (demo_net (Some ms') t2 now' S A)"
  using gossip_step.no_answer [of 1 "demo_request sent" "demo_net (Some ms) t2 now S A" ms now' cm] assms
  by (auto simp: demo_net_update(1,3) demo_request_def image_iff)

abbreviation "demo_alive \<equiv> [demo_record 1 True 0]"
abbreviation "demo_sent1 \<equiv> [demo_record 1 True 1]"
abbreviation "demo_both \<equiv> [demo_record 2 True 0, demo_record 1 True 1]"
abbreviation "demo_sent2 \<equiv> [demo_record 1 True 2, demo_record 2 True 0]"
abbreviation "demo_sent3 \<equiv> [demo_record 1 True 4, demo_record 2 False 3]"
abbreviation "demo_told \<equiv> [demo_record 2 False 3, demo_record 1 True 4]"

lemmas demo_eval = demo_record_def demo_cfg_def demo_request_def init_gossiping_def gossip_def find_myself_as_memory_def
  on_gossip_def update_memory_def post_gossip_def std_commons_def Let_def

text \<open>Memory 1 knows memory 2, one request to it gets no answer, and the next round tells memory 2.\<close>

lemma demo_run:
  "gossip_reaches std_commons (net_init demo_cfg)
     (demo_net (Some demo_sent3) (Some demo_told) 4 {demo_sent3, demo_sent2, demo_sent1} {(demo_sent3, demo_told), (demo_sent1, demo_both)})"
proof -
  let ?reach = "gossip_reaches std_commons (net_init demo_cfg)"
  have init: "net_init demo_cfg = demo_net None None 0 {} {}" "init_gossiping (demo_cfg 1) 0 = demo_alive"
    "init_gossiping (demo_cfg 2) 0 = [demo_record 2 True 0]"
    by (simp_all add: demo_eval net_init_def demo_net_def fun_eq_iff)
  have r0: "?reach (demo_net None None 0 {} {})" unfolding init(1) by (rule gossip_reaches.here)
  note r1 = gossip_reaches.further [OF gossip_reaches.further [OF r0 demo_start1] demo_start2, unfolded init(2,3)]
  have "gossip (demo_cfg 1) 1 demo_alive = Inr (demo_sent1, [demo_request demo_sent1])" by (simp add: demo_eval)
  from gossip_reaches.further [OF r1 demo_round [OF this]]
  have r2: "?reach (demo_net (Some demo_sent1) (Some [demo_record 2 True 0]) 1 {demo_sent1} {})" by simp
  have "on_gossip [demo_record 2 True 0] demo_sent1 = (demo_both, demo_both)" by (simp add: demo_eval)
  note r3 = gossip_reaches.further [OF r2 demo_receive [OF singletonI this]]
  have "post_gossip std_commons 1 demo_sent1 (Some demo_both) ''a'' 2 = [demo_record 1 True 1, demo_record 2 True 0]"
    by (simp add: demo_eval)
  note r4 = gossip_reaches.further [OF r3 demo_answer [OF singletonI this]]
  have "gossip (demo_cfg 1) 2 [demo_record 1 True 1, demo_record 2 True 0] = Inr (demo_sent2, [demo_request demo_sent2])"
    by (simp add: demo_eval)
  from gossip_reaches.further [OF r4 demo_round [OF this]]
  have r5: "?reach (demo_net (Some demo_sent2) (Some demo_both) 2 {demo_sent2, demo_sent1} {(demo_sent1, demo_both)})" by simp
  have "post_gossip std_commons 3 demo_sent2 None ''a'' 2 = [demo_record 1 True 2, demo_record 2 False 3]"
    by (simp add: demo_eval)
  from gossip_reaches.further [OF r5 demo_no_answer [OF insertI1 _ this]]
  have r6: "?reach (demo_net (Some [demo_record 1 True 2, demo_record 2 False 3]) (Some demo_both) 3 {demo_sent2, demo_sent1} {(demo_sent1, demo_both)})"
    by simp
  have "gossip (demo_cfg 1) 4 [demo_record 1 True 2, demo_record 2 False 3] = Inr (demo_sent3, [demo_request demo_sent3])"
    by (simp add: demo_eval)
  from gossip_reaches.further [OF r6 demo_round [OF this]]
  have r7: "?reach (demo_net (Some demo_sent3) (Some demo_both) 4 {demo_sent3, demo_sent2, demo_sent1} {(demo_sent1, demo_both)})" by simp
  have "on_gossip demo_both demo_sent3 = (demo_told, demo_told)" by (simp add: demo_eval)
  then show ?thesis by (rule gossip_reaches.further [OF r7 demo_receive [OF insertI1]])
qed

lemma demo_run_dead:
  "believes_dead 2 (demo_net (Some demo_sent3) (Some demo_told) 4 {demo_sent3, demo_sent2, demo_sent1} {(demo_sent3, demo_told), (demo_sent1, demo_both)})"
  (is "believes_dead 2 ?net")
proof -
  have "net_records ?net \<subseteq> set demo_sent1 \<union> set demo_sent2 \<union> set demo_sent3 \<union> set demo_told \<union> set demo_both"
    by (rule net_records_sub) (auto simp: demo_request_def split: if_splits)
  then have "\<forall>r \<in> net_records ?net. mem_id r = 2 \<longrightarrow> mem_alive r \<longrightarrow> mem_timestamp r < 3"
    by (auto simp: demo_record_def)
  then show ?thesis by (auto simp: believes_dead_def mem_view_of_def demo_record_def)
qed

section \<open>Properties\<close>

text \<open>
  C28. After one exchange (the receiver merges the sender's table and answers its own, the sender
  merges the answer) both memories hold the same record of every memory: one of the records the two
  had before, and none of these is newer, provided a timestamp identifies one version of a record.
\<close>

theorem gossip_exchange_agrees:
  assumes "gossip_ok a" "gossip_ok b" "tie_free (set a \<union> set b)" "on_gossip b a = (b', reply)"
    "a' = post_gossip cm now a (Some reply) ip port"
  shows "mem_view_of a' = mem_view_of b' \<and>
    (\<forall>m \<in> set a \<union> set b. \<exists>e \<in> set a \<union> set b. mem_view_of a' (mem_id m) = Some e \<and> mem_timestamp m \<le> mem_timestamp e)"
proof -
  let ?learn = "\<lambda>ms m ms'. ms' = update_memory ms m"
  have b': "b' = foldl update_memory b a" "reply = b'" "gossip_ok b'" and a': "a' = foldl update_memory a b'"
    using assms(4,5) gossip_ok_merge [OF assms(2), of a] by (auto simp: on_gossip_def Let_def post_gossip_def)
  have l: "learns ?learn b a b'" "learns ?learn a b' a'" using b' a' by (simp_all add: learns_foldl)
  have acc: "\<forall>m \<in> set a. mem_id m \<noteq> -1" "\<forall>m \<in> set b. mem_id m \<noteq> -1"
    using assms(1,2) by (auto simp: gossip_ok_def rev_image_eqI)
  have eq: "mem_view_of a' = mem_view_of b'"
    using mem_gossip.exchange_agrees [OF assms(1,2) _ _ _ l(1) _ l(2)] acc assms(3)
    by (simp add: known_mem_view_of assms(1,2) b'(3))
  have "\<exists>e \<in> set a \<union> set b. mem_view_of a' (mem_id m) = Some e \<and> mem_timestamp m \<le> mem_timestamp e"
    if m: "m \<in> set a \<union> set b" for m
  proof -
  have "\<exists>e. mem_view_of b' (mem_id m) = Some e \<and> mem_timestamp m \<le> mem_timestamp e"
  proof (cases "m \<in> set a")
    case True
    then show ?thesis using mem_gossip.learns_newest [OF assms(2) l(1)] acc(1) by auto
  next
    case False
    then have "mem_view_of b (mem_id m) = Some m"
      using m assms(2) find_key_distinct [of mem_id b m] by (simp add: mem_view_of_def gossip_ok_def)
    then show ?thesis using mem_gossip.learns_monotone [OF assms(2) l(1)] by blast
  qed
  then obtain e where e: "mem_view_of b' (mem_id m) = Some e" "mem_timestamp m \<le> mem_timestamp e" by blast
  then have "e \<in> set a \<union> set b" using mem_view_of_in [OF e(1)] set_merge [of b a] b'(1) by blast
  with e eq show ?thesis by auto
  qed
  with eq show ?thesis by blast
qed

theorem gossip_exchange_agrees_witness:
  "mem_view_of (post_gossip std_commons 9 demo_sent2 (Some [demo_record 2 False 3, demo_record 1 True 2]) ''a'' 2) =
     mem_view_of [demo_record 2 False 3, demo_record 1 True 2]"
proof -
  have ok: "gossip_ok demo_sent2" "gossip_ok [demo_record 2 False 3]" "tie_free (set demo_sent2 \<union> set [demo_record 2 False 3])"
    "on_gossip [demo_record 2 False 3] demo_sent2 = ([demo_record 2 False 3, demo_record 1 True 2], [demo_record 2 False 3, demo_record 1 True 2])"
    by (simp_all add: gossip_ok_def tie_free_def demo_eval)
  show ?thesis
    using gossip_exchange_agrees [OF ok refl, of std_commons 9 "''a''" 2] by blast
qed

text \<open>
  C29. Whatever the memories exchange, in every reachable state the table of a running memory has one
  record for each memory, none with the identifier -1, its own record is in it and no record is from
  the future; so the next round finds the own record and sends the table to every seed.
\<close>

theorem gossip_tables_ok:
  assumes "gossip_reaches cm (net_init cfg) net" "net_tables net n = Some ms" "net_clock net \<le> now"
    "length (cfg_seed_ips (net_cfg net n)) \<le> length (cfg_seed_ports (net_cfg net n))"
  shows "distinct (map mem_id ms) \<and> -1 \<notin> mem_id ` set ms \<and> n \<in> mem_id ` set ms \<and> (\<forall>m \<in> set ms. mem_timestamp m \<le> now) \<and>
    (\<exists>ms' reqs. gossip (net_cfg net n) now ms = Inr (ms', reqs) \<and> map mem_id ms' = map mem_id ms \<and>
       map req_ip reqs = cfg_seed_ips (net_cfg net n) \<and> (\<forall>r \<in> set reqs. req_content r = ms'))"
proof -
  have ok: "net_ok net" using net_ok_reaches [OF assms(1) net_ok_init] .
  then have t: "gossip_ok ms" "n \<in> mem_id ` set ms" "cfg_memory_number (net_cfg net n) = n"
    using assms(2) by (auto simp: net_ok_def)
  have times: "\<forall>m \<in> set ms. mem_timestamp m \<le> now"
    using ok net_records_table [OF assms(2)] assms(3) by (fastforce simp: net_ok_def)
  let ?ms' = "update_first (find_myself_as_memory (net_cfg net n)) (\<lambda>m. m\<lparr>mem_timestamp := now\<rparr>) ms"
  have me: "find_myself_as_memory (net_cfg net n) = (\<lambda>m. mem_id m = n)" using t(3) by (simp add: find_myself_as_memory_def fun_eq_iff)
  obtain me where "find (find_myself_as_memory (net_cfg net n)) ms = Some me"
    unfolding me using t(2) find_key_None [of mem_id n ms] by fastforce
  then have "gossip (net_cfg net n) now ms = Inr (?ms', map (\<lambda>(ip, port). \<lparr>req_ip = ip, req_port = port, req_content = ?ms', req_sizes = elements_gossip_info ?ms'\<rparr>)
      (zip (cfg_seed_ips (net_cfg net n)) (cfg_seed_ports (net_cfg net n))))"
    by (simp add: gossip_def Let_def seed_requests_Inr [OF assms(4)])
  moreover have "map req_ip (map (\<lambda>(ip, port). \<lparr>req_ip = ip, req_port = port, req_content = ?ms', req_sizes = elements_gossip_info ?ms'\<rparr>)
      (zip (cfg_seed_ips (net_cfg net n)) (cfg_seed_ports (net_cfg net n)))) = cfg_seed_ips (net_cfg net n)"
    using assms(4) by (simp add: comp_def case_prod_beta map_fst_zip_take)
  moreover have "map mem_id ?ms' = map mem_id ms" by (simp add: map_update_first)
  ultimately show ?thesis using t times by (fastforce simp: gossip_ok_def)
qed

theorem gossip_tables_ok_witness:
  "\<exists>ms' reqs. gossip (demo_cfg 1) 7 demo_sent3 = Inr (ms', reqs) \<and> map req_ip reqs = [''a'']"
  using gossip_tables_ok [OF demo_run, of 1 demo_sent3 7] by (auto simp: demo_cfg_def)

text \<open>
  C30. A memory whose own record has become dead (one request to it was not answered, and the memory
  that sent it gossiped before the record of the memory itself was refreshed) never becomes alive
  again: \<open>gossip\<close> refreshes the timestamp of the own record but not its \<open>alive\<close> flag, so in every state
  the memories can reach by gossiping its own table says that it is dead, and every record that says
  otherwise is older and loses.
\<close>

theorem dead_memory_stays_dead:
  assumes "gossip_reaches cm (net_init cfg) net" "believes_dead b net" "gossip_reaches cm net net'"
  shows "\<exists>ms own. net_tables net' b = Some ms \<and> find (\<lambda>m. mem_id m = b) ms = Some own \<and> \<not> mem_alive own \<and>
    (\<forall>r \<in> net_records net'. mem_id r = b \<longrightarrow> mem_alive r \<longrightarrow> mem_timestamp r < mem_timestamp own)"
  using believes_dead_reaches [OF assms(3) net_ok_reaches [OF assms(1) net_ok_init] assms(2)]
  by (simp add: believes_dead_def mem_view_of_def)

theorem dead_memory_stays_dead_witness:
  "\<exists>net net'. gossip_reaches std_commons (net_init demo_cfg) net \<and> gossip_step std_commons net net' \<and>
     net_tables net 2 = Some demo_told \<and> net_clock net' = 5 \<and>
     (\<exists>ms own. net_tables net' 2 = Some ms \<and> find (\<lambda>m. mem_id m = 2) ms = Some own \<and> \<not> mem_alive own)"
proof -
  let ?net = "demo_net (Some demo_sent3) (Some demo_told) 4 {demo_sent3, demo_sent2, demo_sent1} {(demo_sent3, demo_told), (demo_sent1, demo_both)}"
  have "gossip (demo_cfg 2) 5 demo_told = Inr ([demo_record 2 False 5, demo_record 1 True 4], [])" by (simp add: demo_eval)
  then obtain net' where net': "gossip_step std_commons ?net net'" "net_clock net' = 5"
    using gossip_step.round [of ?net 2 demo_told 5 _ _ std_commons] by force
  have "\<exists>ms own. net_tables net' 2 = Some ms \<and> find (\<lambda>m. mem_id m = 2) ms = Some own \<and> \<not> mem_alive own"
    using dead_memory_stays_dead [OF demo_run demo_run_dead gossip_reaches.further [OF gossip_reaches.here net'(1)]] by blast
  moreover have "net_tables ?net 2 = Some demo_told" by simp
  ultimately show ?thesis using demo_run net' by blast
qed

end
