(* ===== verification/Kernel_Memories.thy ===== *)
theory Kernel_Memories
  imports Gossip Lib_Utils
begin

text \<open>
  The kernel's view of the memories: \<open>kernel/src/core/memories/memories.c\<close>. The list \<open>g_memories\<close>
  and the three lists of the consistency criteria hold pointers to the same \<open>memory_t\<close> structures, so
  the structures live in a heap and the lists hold addresses: what gossiping writes through one list
  is seen through the others, and what it frees dangles in them. \<open>journaling\<close> sends one request to
  each memory and its answers arrive later, each by a call of \<open>_local_journal_callback\<close>; a call that
  has to wait for \<open>g_journal_semaphore\<close> is \<open>Blocked\<close> and has no effect until it is repeated.
\<close>

type_synonym addr = nat

datatype kernel_callback =
    Post_Gossip | Local_Journal_Callback | Update_Descriptions_Callback
  | On_Select | On_Insert | On_Create | On_Describe | On_Drop | On_Journal

datatype kernel_event =
    Request string int socket_operation_t content "int list" kernel_callback "addr option"
  | Call_Journal_Callback kernel_callback int "addr option"

type_synonym 's kstep = "('s \<times> kernel_event list) result"

record kernel_memories =
  k_heap :: "addr \<Rightarrow> memory_t option"
  k_fresh :: addr
  g_memories :: "addr list"
  g_memories_added_sc :: "addr list"
  g_memories_added_shc :: "addr list"
  g_memories_added_ec :: "addr list"
  ec_next :: int
  g_journal_semaphore :: int
  g_journal_result :: int
  g_journal_callback :: "kernel_callback option"
  g_journal_expected :: int
  g_journal_actual :: int

definition init_memory_list :: "kernel_memories \<Rightarrow> kernel_memories" where
  "init_memory_list st = st\<lparr>g_memories_added_sc := [], g_memories_added_shc := [], g_memories_added_ec := [],
     ec_next := -1, g_journal_semaphore := 1\<rparr>"

section \<open>The heap\<close>

definition load :: "kernel_memories \<Rightarrow> addr \<Rightarrow> memory_t result" where
  "load st p = (case k_heap st p of None \<Rightarrow> Inl Freed | Some m \<Rightarrow> Inr m)"

definition store :: "addr \<Rightarrow> memory_t \<Rightarrow> kernel_memories \<Rightarrow> kernel_memories" where
  "store p m st = st\<lparr>k_heap := (k_heap st)(p \<mapsto> m)\<rparr>"

definition malloc_memory :: "memory_t \<Rightarrow> kernel_memories \<Rightarrow> addr \<times> kernel_memories" where
  "malloc_memory m st = (k_fresh st, st\<lparr>k_heap := (k_heap st)(k_fresh st \<mapsto> m), k_fresh := Suc (k_fresh st)\<rparr>)"

definition free_memory :: "addr \<Rightarrow> kernel_memories \<Rightarrow> kernel_memories" where
  "free_memory p st = st\<lparr>k_heap := (k_heap st)(p := None)\<rparr>"

fun load_list :: "kernel_memories \<Rightarrow> addr list \<Rightarrow> memory_t list result" where
  "load_list st [] = Inr []"
| "load_list st (p # ps) = rbind (load st p) (\<lambda>m. rbind (load_list st ps) (\<lambda>ms. Inr (m # ms)))"

section \<open>Looking memories up\<close>

fun get_memory_by_id :: "kernel_memories \<Rightarrow> addr list \<Rightarrow> int \<Rightarrow> addr option result" where
  "get_memory_by_id st [] ident = Inr None"
| "get_memory_by_id st (p # ps) ident =
     rbind (load st p) (\<lambda>m. if mem_id m = ident then Inr (Some p) else get_memory_by_id st ps ident)"

fun remove_memory_from_consistency :: "kernel_memories \<Rightarrow> addr list \<Rightarrow> int \<Rightarrow> addr list result" where
  "remove_memory_from_consistency st [] ident = Inr []"
| "remove_memory_from_consistency st (p # ps) ident =
     rbind (load st p) (\<lambda>m. if mem_id m = ident then Inr ps
       else rbind (remove_memory_from_consistency st ps ident) (\<lambda>ps'. Inr (p # ps')))"

definition is_memory_alive :: "memory_t \<Rightarrow> bool" where
  "is_memory_alive m = mem_alive m"

fun alive_memories :: "kernel_memories \<Rightarrow> addr list \<Rightarrow> addr list result" where
  \<comment> \<open>\<open>list_filter(g_memories, is_memory_alive)\<close>\<close>
  "alive_memories st [] = Inr []"
| "alive_memories st (p # ps) =
     rbind (load st p) (\<lambda>m. rbind (alive_memories st ps) (\<lambda>qs. Inr (if is_memory_alive m then p # qs else qs)))"

text \<open>The functions that choose a memory; \<open>None\<close> is \<open>NULL\<close>, \<open>random\<close> what \<open>random()\<close> returns.\<close>

definition get_any_memory :: "int \<Rightarrow> kernel_memories \<Rightarrow> addr option result" where
  "get_any_memory random st =
     (if g_memories st = [] then Inr None
      else rbind (alive_memories st (g_memories st)) (\<lambda>alive.
        if alive = [] then Inr None
        else rbind (list_get alive (rnd random 0 (int (length alive) - 1))) (\<lambda>p. rbind (load st p) (\<lambda>_. Inr (Some p)))))"

definition get_any_sc_memory :: "kernel_memories \<Rightarrow> addr option result" where
  "get_any_sc_memory st =
     (if g_memories_added_sc st = [] then Inr None
      else rbind (list_get (g_memories_added_sc st) 0) (\<lambda>p. rbind (load st p) (\<lambda>_. Inr (Some p))))"

definition get_any_shc_memory :: "u16 \<Rightarrow> kernel_memories \<Rightarrow> addr option result" where
  "get_any_shc_memory key st =
     (if g_memories_added_shc st = [] then Inr None
      else rbind (hash (uint key) (int (length (g_memories_added_shc st)))) (\<lambda>assigned_memory.
           rbind (list_get (g_memories_added_shc st) assigned_memory) (\<lambda>p. rbind (load st p) (\<lambda>_. Inr (Some p)))))"

definition get_any_ec_memory :: "kernel_memories \<Rightarrow> (addr option \<times> kernel_memories) result" where
  "get_any_ec_memory st =
     (if g_memories_added_ec st = [] then Inr (None, st)
      else let nxt = (if ec_next st \<ge> int (length (g_memories_added_ec st)) - 1 then 0 else ec_next st + 1)
        in rbind (list_get (g_memories_added_ec st) nxt) (\<lambda>p. rbind (load st p) (\<lambda>_. Inr (Some p, st\<lparr>ec_next := nxt\<rparr>))))"

definition get_random_memory :: "int \<Rightarrow> bool \<Rightarrow> kernel_memories \<Rightarrow> addr option result" where
  "get_random_memory random alive st =
     rbind (if alive then alive_memories st (g_memories st) else Inr (g_memories st)) (\<lambda>gossipable.
     if alive \<and> gossipable = [] then Inr None
     else let i = rnd random 0 (int (length gossipable) - 1)
       in Inr (if 0 \<le> i \<and> nat i < length gossipable then Some (gossipable ! nat i) else None))"

section \<open>Journaling\<close>

fun add_to_mems_if_not_found :: "addr list \<Rightarrow> addr list \<Rightarrow> addr list" where
  \<comment> \<open>pointers are compared, not identifiers\<close>
  "add_to_mems_if_not_found mems [] = mems"
| "add_to_mems_if_not_found mems (p # ps) = add_to_mems_if_not_found (if p \<in> set mems then mems else mems @ [p]) ps"

definition get_list_with_a_consistency :: "kernel_memories \<Rightarrow> addr list" where
  "get_list_with_a_consistency st =
     add_to_mems_if_not_found (add_to_mems_if_not_found (add_to_mems_if_not_found []
       (g_memories_added_sc st)) (g_memories_added_shc st)) (g_memories_added_ec st)"

definition journal_request :: "addr option \<Rightarrow> memory_t \<Rightarrow> kernel_event" where
  "journal_request pcb m = Request (mem_ip m) (mem_port m) JOURNAL_IN Null_Content [] Local_Journal_Callback pcb"

definition journaling :: "bool \<Rightarrow> kernel_callback option \<Rightarrow> addr option \<Rightarrow> kernel_memories \<Rightarrow> kernel_memories kstep" where
  "journaling only_shc callback pcb st =
     (if g_journal_semaphore st \<le> 0 then Inl Blocked
      else let mems = (if only_shc then g_memories_added_shc st else get_list_with_a_consistency st);
               st1 = st\<lparr>g_journal_semaphore := g_journal_semaphore st - 1, g_journal_callback := callback,
                        g_journal_result := 0, g_journal_actual := 0, g_journal_expected := int (length mems)\<rparr>
        in if mems = [] then
             Inr (st1\<lparr>g_journal_result := -3, g_journal_semaphore := g_journal_semaphore st1 + 1\<rparr>,
                  case callback of None \<Rightarrow> [] | Some cb \<Rightarrow> [Call_Journal_Callback cb (-3) pcb])
           else rbind (load_list st1 mems) (\<lambda>ms. Inr (st1, map (journal_request pcb) ms)))"

text \<open>
  The callback of those requests, in two parts: the counter is incremented under \<open>g_journal_sum\<close>,
  what follows is not protected, so another answer may be counted in between.
\<close>

definition count_journal_answer :: "kernel_memories \<Rightarrow> kernel_memories" where
  "count_journal_answer st = st\<lparr>g_journal_actual := g_journal_actual st + 1\<rparr>"

definition check_journal_answer :: "int option \<Rightarrow> addr option \<Rightarrow> kernel_memories \<Rightarrow> kernel_memories \<times> kernel_event list" where
  "check_journal_answer result response st =
     (let st1 = (if result = None \<or> result = Some (-1) then st\<lparr>g_journal_result := -1\<rparr> else st)
      in if g_journal_actual st1 = g_journal_expected st1 then
           (st1\<lparr>g_journal_semaphore := g_journal_semaphore st1 + 1\<rparr>,
            case g_journal_callback st1 of None \<Rightarrow> [] | Some cb \<Rightarrow> [Call_Journal_Callback cb (g_journal_result st1) response])
         else (st1, []))"

definition local_journal_callback :: "int option \<Rightarrow> addr option \<Rightarrow> kernel_memories \<Rightarrow> kernel_memories \<times> kernel_event list" where
  "local_journal_callback result response st = check_journal_answer result response (count_journal_answer st)"

section \<open>The criteria\<close>

definition add_sc_memory :: "int \<Rightarrow> kernel_memories \<Rightarrow> kernel_memories kstep" where
  "add_sc_memory ident st =
     rbind (get_memory_by_id st (g_memories st) ident) (\<lambda>memory.
     case memory of
       None \<Rightarrow> Inr (st, [])
     | Some p \<Rightarrow> rbind (load st p) (\<lambda>m.
         if \<not> mem_alive m then Inr (st, [])
         else rbind (get_memory_by_id st (g_memories_added_sc st) ident) (\<lambda>added.
           if added \<noteq> None then Inr (st, [])
           else if length (g_memories_added_sc st) > 0 then Inr (st, [])
           else Inr (st\<lparr>g_memories_added_sc := g_memories_added_sc st @ [p]\<rparr>, []))))"

definition add_shc_memory :: "int \<Rightarrow> kernel_memories \<Rightarrow> kernel_memories kstep" where
  "add_shc_memory ident st =
     rbind (get_memory_by_id st (g_memories st) ident) (\<lambda>memory.
     case memory of
       None \<Rightarrow> Inr (st, [])
     | Some p \<Rightarrow> rbind (load st p) (\<lambda>m.
         if \<not> mem_alive m then Inr (st, [])
         else rbind (get_memory_by_id st (g_memories_added_shc st) ident) (\<lambda>added.
           if added \<noteq> None then Inr (st, [])
           else let st1 = st\<lparr>g_memories_added_shc := g_memories_added_shc st @ [p]\<rparr>
             in if length (g_memories_added_shc st1) > 1 then journaling True None None st1 else Inr (st1, []))))"

definition add_ec_memory :: "int \<Rightarrow> kernel_memories \<Rightarrow> kernel_memories kstep" where
  "add_ec_memory ident st =
     rbind (get_memory_by_id st (g_memories st) ident) (\<lambda>memory.
     case memory of
       None \<Rightarrow> Inr (st, [])
     | Some p \<Rightarrow> rbind (load st p) (\<lambda>m.
         if \<not> mem_alive m then Inr (st, [])
         else rbind (get_memory_by_id st (g_memories_added_ec st) ident) (\<lambda>added.
           if added \<noteq> None then Inr (st, [])
           else Inr (st\<lparr>g_memories_added_ec := g_memories_added_ec st @ [p]\<rparr>, []))))"

definition process_add :: "add_input_t \<Rightarrow> kernel_memories \<Rightarrow> kernel_memories kstep" where
  "process_add input st =
     (case add_consistency input of
        STRONG_CONSISTENCY \<Rightarrow> add_sc_memory (add_memory_number input) st
      | STRONG_HASH_CONSISTENCY \<Rightarrow> add_shc_memory (add_memory_number input) st
      | EVENTUAL_CONSISTENCY \<Rightarrow> add_ec_memory (add_memory_number input) st)"

definition remove_memory :: "int \<Rightarrow> kernel_memories \<Rightarrow> kernel_memories kstep" where
  "remove_memory ident st =
     rbind (remove_memory_from_consistency st (g_memories_added_sc st) ident) (\<lambda>sc.
     rbind (remove_memory_from_consistency st (g_memories_added_shc st) ident) (\<lambda>shc.
     rbind (remove_memory_from_consistency st (g_memories_added_ec st) ident) (\<lambda>ec.
     let st1 = st\<lparr>g_memories_added_sc := sc, g_memories_added_shc := shc, g_memories_added_ec := ec\<rparr>
     in if length (g_memories_added_shc st) \<noteq> length shc then journaling True None None st1 else Inr (st1, []))))"

section \<open>Gossiping with the kernel\<close>

text \<open>\<open>kernel/src/core/gossiping/gossiping.c\<close>: the same protocol, with one request at a time to a random memory.\<close>

definition init_gossiping :: "string \<Rightarrow> int \<Rightarrow> int \<Rightarrow> kernel_memories \<Rightarrow> kernel_memories" where
  "init_gossiping memory_ip memory_port now st =
     (let (p, st1) = malloc_memory \<lparr>mem_id = -1, mem_ip = memory_ip, mem_port = memory_port, mem_alive = True, mem_timestamp = now\<rparr> st
      in st1\<lparr>g_memories := [p]\<rparr>)"

definition gossip :: "int \<Rightarrow> int \<Rightarrow> kernel_memories \<Rightarrow> kernel_event result" where
  "gossip random random2 st =
     rbind (get_random_memory random True st) (\<lambda>alive.
     rbind (case alive of Some p \<Rightarrow> Inr (Some p) | None \<Rightarrow> get_random_memory random2 False st) (\<lambda>memory.
     rbind (load_list st (g_memories st)) (\<lambda>ms.
     case memory of
       None \<Rightarrow> Inl Null_Pointer
     | Some p \<Rightarrow> rbind (load st p) (\<lambda>m.
         Inr (Request (mem_ip m) (mem_port m) GOSSIP_IN (Memories_Content ms) (elements_gossip_info ms) Post_Gossip (Some p))))))"

definition update_memory :: "kernel_memories \<Rightarrow> memory_t \<Rightarrow> kernel_memories kstep" where
  "update_memory st memory =
     rbind (get_memory_by_id st (g_memories st) (mem_id memory)) (\<lambda>found.
     case found of
       Some p \<Rightarrow> rbind (load st p) (\<lambda>existing.
         if mem_timestamp existing < mem_timestamp memory then
           let st1 = store p (existing\<lparr>mem_ip := mem_ip memory, mem_port := mem_port memory,
                       mem_alive := mem_alive memory, mem_timestamp := mem_timestamp memory\<rparr>) st
           in if \<not> mem_alive memory then remove_memory (mem_id existing) st1 else Inr (st1, [])
         else Inr (st, []))
     | None \<Rightarrow> let (p, st1) = malloc_memory memory st in Inr (st1\<lparr>g_memories := g_memories st1 @ [p]\<rparr>, []))"

fun update_memories :: "kernel_memories \<Rightarrow> memory_t list \<Rightarrow> kernel_memories kstep" where
  "update_memories st [] = Inr (st, [])"
| "update_memories st (m # ms) =
     rbind (update_memory st m) (\<lambda>(st1, ev1). rbind (update_memories st1 ms) (\<lambda>(st2, ev2). Inr (st2, ev1 @ ev2)))"

definition post_gossip :: "int \<Rightarrow> memory_t list option \<Rightarrow> addr \<Rightarrow> kernel_memories \<Rightarrow> kernel_memories kstep" where
  "post_gossip now result selected st =
     rbind (load st selected) (\<lambda>m.
     case result of
       None \<Rightarrow> remove_memory (mem_id m) (store selected (m\<lparr>mem_alive := False, mem_timestamp := now\<rparr>) st)
     | Some received \<Rightarrow>
         rbind (if mem_id m = -1
                then rbind (list_remove (g_memories st) 0) (\<lambda>ms. Inr (free_memory selected (st\<lparr>g_memories := ms\<rparr>)))
                else Inr (store selected (m\<lparr>mem_alive := True, mem_timestamp := now\<rparr>) st)) (\<lambda>st1.
         update_memories st1 received))"

end
