(* ===== verification/Kernel_Inv.thy ===== *)
theory Kernel_Inv
  imports Kernel_Memories
begin

text \<open>
  The invariant of the kernel's memory lists and its preservation by the operations of
  \<open>memories.c\<close> and \<open>gossiping.c\<close>, the interpretation of the gossip contract on the kernel's table, and
  the functional behaviour of the selection functions and of a journaling.
\<close>

section \<open>Reading the lists\<close>

definition m_at :: "kernel_memories \<Rightarrow> addr \<Rightarrow> memory_t" where
  "m_at st p = the (k_heap st p)"

abbreviation id_at :: "kernel_memories \<Rightarrow> addr \<Rightarrow> int" where
  "id_at st p \<equiv> mem_id (m_at st p)"

definition live :: "kernel_memories \<Rightarrow> addr list \<Rightarrow> bool" where
  "live st ps \<longleftrightarrow> (\<forall>p \<in> set ps. k_heap st p \<noteq> None)"

named_theorems km_simps \<open>reads of live lists\<close>

lemma live_simps [simp]: "live st []" "live st (p # ps) \<longleftrightarrow> k_heap st p \<noteq> None \<and> live st ps"
  by (auto simp: live_def)

lemma live_sub: "live st ps \<Longrightarrow> set qs \<subseteq> set ps \<Longrightarrow> live st qs"
  by (auto simp: live_def)

lemma load_live [km_simps]: "k_heap st p \<noteq> None \<Longrightarrow> load st p = Inr (m_at st p)"
  by (auto simp: load_def m_at_def)

lemma load_Inr: "load st p = Inr m \<longleftrightarrow> k_heap st p = Some m"
  by (simp add: load_def split: option.splits)

lemma load_list_live [km_simps]: "live st ps \<Longrightarrow> load_list st ps = Inr (map (m_at st) ps)"
  by (induction ps) (simp_all add: load_live)

lemma get_memory_by_id_live [km_simps]: "live st ps \<Longrightarrow> get_memory_by_id st ps i = Inr (find (\<lambda>p. id_at st p = i) ps)"
  by (induction ps) (simp_all add: load_live)

lemma remove_from_live [km_simps]:
  "live st ps \<Longrightarrow> remove_memory_from_consistency st ps i = Inr (remove_first (\<lambda>p. id_at st p = i) ps)"
  by (induction ps) (simp_all add: load_live)

lemma alive_memories_live [km_simps]: "live st ps \<Longrightarrow> alive_memories st ps = Inr (filter (\<lambda>p. mem_alive (m_at st p)) ps)"
  by (induction ps) (simp_all add: load_live is_memory_alive_def)

section \<open>The invariant\<close>

definition criterion_ok :: "int set \<Rightarrow> kernel_memories \<Rightarrow> addr list \<Rightarrow> bool" where
  \<comment> \<open>the memories of a criterion are known, are alive or among those being removed, and are not the placeholder\<close>
  "criterion_ok D st ps \<longleftrightarrow> distinct ps \<and> set ps \<subseteq> set (g_memories st) \<and>
     (\<forall>p \<in> set ps. (mem_alive (m_at st p) \<or> id_at st p \<in> D) \<and> id_at st p \<noteq> -1)"

definition km_inv :: "int set \<Rightarrow> kernel_memories \<Rightarrow> bool" where
  "km_inv D st \<longleftrightarrow>
     live st (g_memories st) \<and> (\<forall>p \<in> set (g_memories st). p < k_fresh st) \<and>
     distinct (map (id_at st) (g_memories st)) \<and> (\<forall>p \<in> set (tl (g_memories st)). id_at st p \<noteq> -1) \<and>
     criterion_ok D st (g_memories_added_sc st) \<and> criterion_ok D st (g_memories_added_shc st) \<and>
     criterion_ok D st (g_memories_added_ec st) \<and> length (g_memories_added_sc st) \<le> 1 \<and> -1 \<le> ec_next st"

abbreviation km_ok :: "kernel_memories \<Rightarrow> bool" where
  "km_ok \<equiv> km_inv {}"

definition same_lists :: "kernel_memories \<Rightarrow> kernel_memories \<Rightarrow> bool" where
  \<comment> \<open>only the fields of the journaling may differ\<close>
  "same_lists st st' \<longleftrightarrow> k_heap st' = k_heap st \<and> k_fresh st' = k_fresh st \<and> g_memories st' = g_memories st \<and>
     g_memories_added_sc st' = g_memories_added_sc st \<and> g_memories_added_shc st' = g_memories_added_shc st \<and>
     g_memories_added_ec st' = g_memories_added_ec st \<and> ec_next st' = ec_next st"

lemma m_at_same: "same_lists st st' \<Longrightarrow> m_at st' = m_at st"
  by (auto simp: same_lists_def m_at_def)

lemma live_same: "same_lists st st' \<Longrightarrow> live st' = live st"
  by (auto simp: same_lists_def live_def)

lemma km_inv_same: "same_lists st st' \<Longrightarrow> km_inv D st' \<longleftrightarrow> km_inv D st"
  using m_at_same [of st st'] live_same [of st st'] by (auto simp: same_lists_def km_inv_def criterion_ok_def)

lemma km_inv_live:
  assumes "km_inv D st"
  shows "live st (g_memories st)" "live st (g_memories_added_sc st)" "live st (g_memories_added_shc st)"
    "live st (g_memories_added_ec st)" "live st (get_list_with_a_consistency st)"
proof -
  have sub: "set (add_to_mems_if_not_found ms ps) = set ms \<union> set ps" for ms ps
    by (induction ms ps rule: add_to_mems_if_not_found.induct) auto
  show "live st (g_memories st)" "live st (g_memories_added_sc st)" "live st (g_memories_added_shc st)"
    "live st (g_memories_added_ec st)" "live st (get_list_with_a_consistency st)"
    using assms live_sub [of st "g_memories st"] by (auto simp: km_inv_def criterion_ok_def get_list_with_a_consistency_def sub)
qed

section \<open>Journaling\<close>

lemma journaling_cases:
  assumes "live st (if only_shc then g_memories_added_shc st else get_list_with_a_consistency st)"
  shows "journaling only_shc cb pcb st = Inl Blocked \<or>
    (\<exists>st' ev. journaling only_shc cb pcb st = Inr (st', ev) \<and> same_lists st st')"
proof -
  let ?mems = "if only_shc then g_memories_added_shc st else get_list_with_a_consistency st"
  let ?st = "st\<lparr>g_journal_semaphore := g_journal_semaphore st - 1, g_journal_callback := cb,
      g_journal_result := 0, g_journal_actual := 0, g_journal_expected := int (length ?mems)\<rparr>"
  have "live ?st ?mems" using assms by (simp add: live_def)
  then show ?thesis
    using load_list_live [of ?st ?mems] by (auto simp: journaling_def Let_def same_lists_def)
qed

section \<open>Removing a memory\<close>

lemma id_at_store: "id_at (store p m st) q = (if q = p then mem_id m else id_at st q)"
  by (simp add: store_def m_at_def)

lemma distinct_ids: "km_inv D st \<Longrightarrow> p \<in> set (g_memories st) \<Longrightarrow> q \<in> set (g_memories st) \<Longrightarrow> id_at st p = id_at st q \<Longrightarrow> p = q"
  unfolding km_inv_def distinct_map by (auto dest: inj_onD)

lemma remove_first_criterion:
  assumes "km_inv D st" "criterion_ok D st ps"
  shows "set (remove_first (\<lambda>p. id_at st p = i) ps) = {p \<in> set ps. id_at st p \<noteq> i}"
    and "criterion_ok (D - {i}) st (remove_first (\<lambda>p. id_at st p = i) ps)"
proof -
  have "distinct (map (id_at st) ps)"
    using assms distinct_ids [OF assms(1)] by (auto simp: criterion_ok_def distinct_map inj_on_def subset_iff)
  then show s: "set (remove_first (\<lambda>p. id_at st p = i) ps) = {p \<in> set ps. id_at st p \<noteq> i}"
    by (rule set_remove_first_key)
  have "distinct (remove_first (\<lambda>p. id_at st p = i) ps)"
    using assms(2) distinct_remove_first [of "\<lambda>p. p" ps] by (simp add: criterion_ok_def)
  then show "criterion_ok (D - {i}) st (remove_first (\<lambda>p. id_at st p = i) ps)"
    using assms(2) by (auto simp: criterion_ok_def s)
qed

definition removed :: "int \<Rightarrow> kernel_memories \<Rightarrow> kernel_memories" where
  \<comment> \<open>the state with the memory taken from every criterion\<close>
  "removed i st = st\<lparr>g_memories_added_sc := remove_first (\<lambda>p. id_at st p = i) (g_memories_added_sc st),
     g_memories_added_shc := remove_first (\<lambda>p. id_at st p = i) (g_memories_added_shc st),
     g_memories_added_ec := remove_first (\<lambda>p. id_at st p = i) (g_memories_added_ec st)\<rparr>"

lemma m_at_removed [simp]: "m_at (removed i st) = m_at st"
  by (auto simp: removed_def m_at_def)

lemma length_remove_first: "length (remove_first P xs) \<le> length xs"
  by (induction xs) auto

lemma km_inv_removed:
  assumes "km_inv D st" shows "km_inv (D - {i}) (removed i st)"
proof -
  have "criterion_ok D st (g_memories_added_sc st)" "criterion_ok D st (g_memories_added_shc st)" "criterion_ok D st (g_memories_added_ec st)"
    using assms by (auto simp: km_inv_def)
  note r = this [THEN remove_first_criterion(2) [OF assms], of i]
  have "length (g_memories_added_sc (removed i st)) \<le> 1"
    using assms length_remove_first [of _ "g_memories_added_sc st"] by (auto simp: km_inv_def removed_def intro: order_trans)
  with assms r show ?thesis
    by (auto simp: km_inv_def criterion_ok_def removed_def m_at_def live_def)
qed

lemma remove_memory_cases:
  assumes "km_inv D st"
  shows "remove_memory i st = Inl Blocked \<or>
    (\<exists>st' ev. remove_memory i st = Inr (st', ev) \<and> same_lists (removed i st) st')"
proof -
  note l = km_inv_live [OF assms]
  have "live (removed i st) (g_memories_added_shc (removed i st))"
    using l(3) set_remove_first_subset by (fastforce simp: live_def removed_def)
  then have j: "journaling True None None (removed i st) = Inl Blocked \<or>
    (\<exists>st' ev. journaling True None None (removed i st) = Inr (st', ev) \<and> same_lists (removed i st) st')"
    using journaling_cases [of "removed i st" True] by simp
  show ?thesis
    using l j by (auto simp: remove_memory_def remove_from_live Let_def removed_def [symmetric] same_lists_def)
qed

lemma in_criteria_removed:
  assumes "km_inv D st" "same_lists (removed i st) st'"
    "p \<in> set (g_memories_added_sc st') \<union> set (g_memories_added_shc st') \<union> set (g_memories_added_ec st')"
  shows "id_at st' p \<noteq> i"
proof -
  have "criterion_ok D st (g_memories_added_sc st)" "criterion_ok D st (g_memories_added_shc st)" "criterion_ok D st (g_memories_added_ec st)"
    using assms(1) by (auto simp: km_inv_def)
  note r = this [THEN remove_first_criterion(1) [OF assms(1)], of i]
  have "id_at st p \<noteq> i" using assms(2,3) r by (auto simp: same_lists_def removed_def)
  then show ?thesis using m_at_same [OF assms(2)] by simp
qed

section \<open>Adding a memory to a criterion\<close>

lemma criterion_ok_add:
  "criterion_ok D st ps \<Longrightarrow> p \<in> set (g_memories st) \<Longrightarrow> p \<notin> set ps \<Longrightarrow> mem_alive (m_at st p) \<Longrightarrow> id_at st p \<noteq> -1 \<Longrightarrow>
   criterion_ok D st (ps @ [p])"
  by (auto simp: criterion_ok_def)

lemma found_memory:
  assumes "km_inv D st" "find (\<lambda>p. id_at st p = i) (g_memories st) = Some p"
  shows "p \<in> set (g_memories st)" "id_at st p = i" "k_heap st p \<noteq> None"
  using find_key_in [OF assms(2)] km_inv_live(1) [OF assms(1)] by (auto simp: live_def)

lemma not_added:
  assumes "find (\<lambda>q. id_at st q = i) ps = None" "id_at st p = i"
  shows "p \<notin> set ps"
  using assms find_key_None [of "id_at st" i ps] by (auto simp: rev_image_eqI)

lemma km_ok_added:
  assumes "km_ok st" "p \<in> set (g_memories st)" "mem_alive (m_at st p)" "id_at st p \<noteq> -1"
  shows "g_memories_added_sc st = [] \<Longrightarrow> km_ok (st\<lparr>g_memories_added_sc := [p]\<rparr>)"
    and "p \<notin> set (g_memories_added_shc st) \<Longrightarrow> km_ok (st\<lparr>g_memories_added_shc := g_memories_added_shc st @ [p]\<rparr>)"
    and "p \<notin> set (g_memories_added_ec st) \<Longrightarrow> km_ok (st\<lparr>g_memories_added_ec := g_memories_added_ec st @ [p]\<rparr>)"
  using assms by (auto simp: km_inv_def criterion_ok_def m_at_def live_def)

lemma add_sc_memory_cases:
  assumes "km_ok st" "i \<noteq> -1"
  shows "\<exists>st'. add_sc_memory i st = Inr (st', []) \<and> km_ok st'"
proof (cases "find (\<lambda>p. id_at st p = i) (g_memories st)")
  case None
  then show ?thesis using assms by (simp add: add_sc_memory_def get_memory_by_id_live km_inv_live(1))
next
  case (Some p)
  note f = found_memory [OF assms(1) Some] and l = km_inv_live [OF assms(1)]
  show ?thesis
    using Some f(3) l assms km_ok_added(1) [OF assms(1) f(1)] f(2)
    by (cases "mem_alive (m_at st p)") (auto simp: add_sc_memory_def get_memory_by_id_live load_live)
qed

lemma add_shc_memory_cases:
  assumes "km_ok st" "i \<noteq> -1"
  shows "add_shc_memory i st = Inl Blocked \<or> (\<exists>st' ev. add_shc_memory i st = Inr (st', ev) \<and> km_ok st')"
proof (cases "find (\<lambda>p. id_at st p = i) (g_memories st)")
  case None
  then show ?thesis using assms by (simp add: add_shc_memory_def get_memory_by_id_live km_inv_live(1))
next
  case (Some p)
  note f = found_memory [OF assms(1) Some] and l = km_inv_live [OF assms(1)]
  let ?st = "st\<lparr>g_memories_added_shc := g_memories_added_shc st @ [p]\<rparr>"
  show ?thesis
  proof (cases "mem_alive (m_at st p) \<and> find (\<lambda>p. id_at st p = i) (g_memories_added_shc st) = None")
    case True
    then have ok: "km_ok ?st" using km_ok_added(2) [OF assms(1) f(1)] f(2) assms(2) not_added [of st i _ p] by auto
    have "live ?st (g_memories_added_shc ?st)" using km_inv_live(3) [OF ok] .
    from journaling_cases [of ?st True None None] this
    have "journaling True None None ?st = Inl Blocked \<or> (\<exists>st' ev. journaling True None None ?st = Inr (st', ev) \<and> same_lists ?st st')"
      by simp
    then have "journaling True None None ?st = Inl Blocked \<or> (\<exists>st' ev. journaling True None None ?st = Inr (st', ev) \<and> km_ok st')"
      using km_inv_same ok by blast
    moreover have "add_shc_memory i st = (if length (g_memories_added_shc ?st) > 1 then journaling True None None ?st else Inr (?st, []))"
      using Some f(3) l True by (simp add: add_shc_memory_def get_memory_by_id_live load_live Let_def)
    ultimately show ?thesis using ok by auto
  next
    case False
    then show ?thesis using Some f(3) l assms(1) by (auto simp: add_shc_memory_def get_memory_by_id_live load_live)
  qed
qed

lemma add_ec_memory_cases:
  assumes "km_ok st" "i \<noteq> -1"
  shows "\<exists>st'. add_ec_memory i st = Inr (st', []) \<and> km_ok st'"
proof (cases "find (\<lambda>p. id_at st p = i) (g_memories st)")
  case None
  then show ?thesis using assms by (simp add: add_ec_memory_def get_memory_by_id_live km_inv_live(1))
next
  case (Some p)
  note f = found_memory [OF assms(1) Some] and l = km_inv_live [OF assms(1)]
  show ?thesis
    using Some f(3) l assms km_ok_added(3) [OF assms(1) f(1)] f(2) not_added [of st i "g_memories_added_ec st" p]
    by (cases "mem_alive (m_at st p)"; cases "find (\<lambda>p. id_at st p = i) (g_memories_added_ec st)")
       (auto simp: add_ec_memory_def get_memory_by_id_live load_live)
qed

lemma process_add_cases:
  assumes "km_ok st" "add_memory_number input \<noteq> -1"
  shows "process_add input st = Inl Blocked \<or> (\<exists>st' ev. process_add input st = Inr (st', ev) \<and> km_ok st')"
  using add_sc_memory_cases [OF assms] add_shc_memory_cases [OF assms] add_ec_memory_cases [OF assms]
  by (cases "add_consistency input") (auto simp: process_add_def)

section \<open>Gossiping\<close>

lemma m_at_store: "m_at (store p m st) q = (if q = p then m else m_at st q)"
  by (simp add: store_def m_at_def)

lemma store_fields [simp]:
  "g_memories (store p m st) = g_memories st" "g_memories_added_sc (store p m st) = g_memories_added_sc st"
  "g_memories_added_shc (store p m st) = g_memories_added_shc st" "g_memories_added_ec (store p m st) = g_memories_added_ec st"
  "k_fresh (store p m st) = k_fresh st" "ec_next (store p m st) = ec_next st"
  "k_heap (store p m st) q = (if q = p then Some m else k_heap st q)"
  by (simp_all add: store_def)

lemma km_inv_store:
  assumes "km_inv D st" "p \<in> set (g_memories st)" "mem_id m = id_at st p"
  shows "km_inv (if mem_alive m then D else insert (mem_id m) D) (store p m st)"
proof -
  have id: "id_at (store p m st) q = id_at st q" for q using assms(3) by (simp add: m_at_store)
  have "live (store p m st) (g_memories st)" using assms(1) by (auto simp: km_inv_def live_def)
  moreover have "map (id_at (store p m st)) (g_memories st) = map (id_at st) (g_memories st)" by (simp add: id)
  moreover have "criterion_ok (if mem_alive m then D else insert (mem_id m) D) (store p m st) ps" if "criterion_ok D st ps" for ps
    using that by (auto simp: criterion_ok_def id) (auto simp: m_at_store assms(3) split: if_splits)
  ultimately show ?thesis using assms(1) by (simp add: km_inv_def id)
qed

lemma km_inv_malloc:
  assumes "km_inv D st" "malloc_memory m st = (p, st1)" "mem_id m \<noteq> -1" "mem_id m \<notin> id_at st ` set (g_memories st)"
  shows "km_inv D (st1\<lparr>g_memories := g_memories st1 @ [p]\<rparr>)"
proof -
  let ?st = "st1\<lparr>g_memories := g_memories st1 @ [p]\<rparr>"
  have st1: "p = k_fresh st" "st1 = st\<lparr>k_heap := (k_heap st)(p \<mapsto> m), k_fresh := Suc p\<rparr>"
    using assms(2) by (auto simp: malloc_memory_def)
  have fresh: "p \<notin> set (g_memories st)" using assms(1) st1 by (auto simp: km_inv_def)
  have at: "m_at ?st q = m_at st q" if "q \<in> set (g_memories st)" for q using that fresh by (auto simp: m_at_def st1(2))
  have gm: "g_memories ?st = g_memories st @ [p]" by (simp add: st1(2))
  have new: "m_at ?st p = m" by (simp add: m_at_def st1(2))
  have ids: "map (id_at ?st) (g_memories st) = map (id_at st) (g_memories st)" using at by simp
  have crit: "criterion_ok D ?st ps" if "criterion_ok D st ps" for ps
    using that at fresh by (auto simp: criterion_ok_def st1(2) subset_iff)
  have "live ?st (g_memories ?st)" using assms(1) by (auto simp: km_inv_def live_def st1(2))
  moreover have "distinct (map (id_at ?st) (g_memories ?st))"
  proof -
    have "map (id_at ?st) (g_memories ?st) = map (id_at st) (g_memories st) @ [mem_id m]" using ids new gm by simp
    then show ?thesis using assms(1,4) by (simp add: km_inv_def)
  qed
  moreover have "\<forall>q \<in> set (tl (g_memories ?st)). id_at ?st q \<noteq> -1"
    using assms(1,3) new at by (cases "g_memories st") (auto simp: km_inv_def st1(2))
  moreover have "\<forall>q \<in> set (g_memories ?st). q < k_fresh ?st" using assms(1) st1 by (auto simp: km_inv_def less_Suc_eq)
  ultimately show ?thesis using assms(1) crit by (auto simp: km_inv_def st1(2))
qed

definition kview :: "kernel_memories \<Rightarrow> mem_view" where
  "kview st i = map_option (m_at st) (find (\<lambda>p. id_at st p = i) (g_memories st))"

lemma kview_same: "same_lists st st' \<Longrightarrow> kview st' = kview st"
  using m_at_same [of st st'] by (auto simp: kview_def same_lists_def)

lemma kview_removed [simp]: "kview (removed i st) = kview st"
proof
  fix j
  have "g_memories (removed i st) = g_memories st" by (simp add: removed_def)
  then show "kview (removed i st) j = kview st j" by (simp add: kview_def)
qed

lemma kview_store:
  assumes "km_inv D st" "find (\<lambda>p. id_at st p = mem_id m) (g_memories st) = Some p"
  shows "kview (store p m st) = (kview st)(mem_id m \<mapsto> m)"
proof
  fix i
  have id: "id_at (store p m st) q = id_at st q" for q using found_memory(2) [OF assms] by (simp add: m_at_store)
  show "kview (store p m st) i = ((kview st)(mem_id m \<mapsto> m)) i"
  proof (cases "i = mem_id m")
    case True
    then show ?thesis using assms(2) by (simp add: kview_def id) (simp add: m_at_store)
  next
    case False
    have "q \<noteq> p" if "find (\<lambda>p. id_at st p = i) (g_memories st) = Some q" for q
      using find_key_in [OF that] found_memory(2) [OF assms] False by auto
    moreover have "find (\<lambda>q. id_at (store p m st) q = i) (g_memories st) = find (\<lambda>q. id_at st q = i) (g_memories st)" by (simp only: id)
    ultimately show ?thesis using False
      by (cases "find (\<lambda>q. id_at st q = i) (g_memories st)") (simp_all add: kview_def m_at_store)
  qed
qed

text \<open>What the kernel learns from one record of a gossip answer.\<close>

lemma update_memory_cases:
  assumes "km_ok st" "mem_id m \<noteq> -1"
  shows "update_memory st m = Inl Blocked \<or>
    (\<exists>st' ev. update_memory st m = Inr (st', ev) \<and> km_ok st' \<and> kview st' = merge_one (\<lambda>_. True) (kview st) m)"
proof (cases "find (\<lambda>p. id_at st p = mem_id m) (g_memories st)")
  case None
  obtain p st1 where a: "malloc_memory m st = (p, st1)" by fastforce
  let ?st = "st1\<lparr>g_memories := g_memories st1 @ [p]\<rparr>"
  have notin: "mem_id m \<notin> id_at st ` set (g_memories st)" using None find_key_None [of "id_at st"] by blast
  have ok: "km_ok ?st" by (rule km_inv_malloc [OF assms(1) a assms(2) notin])
  have st1: "p = k_fresh st" "st1 = st\<lparr>k_heap := (k_heap st)(p \<mapsto> m), k_fresh := Suc p\<rparr>" using a by (auto simp: malloc_memory_def)
  have fresh: "p \<notin> set (g_memories st)" using assms(1) st1 by (auto simp: km_inv_def)
  define st2 where "st2 = ?st"
  have st2: "g_memories st2 = g_memories st @ [p]" "m_at st2 p = m" "\<And>q. q \<in> set (g_memories st) \<Longrightarrow> m_at st2 q = m_at st q"
    using fresh by (auto simp: m_at_def st1(2) st2_def)
  have "kview st2 i = merge_one (\<lambda>_. True) (kview st) m i" for i
  proof -
    have "find (\<lambda>q. id_at st2 q = i) (g_memories st) = find (\<lambda>q. id_at st q = i) (g_memories st)"
      by (rule find_cong [OF refl]) (simp add: st2)
    then have "kview st2 i = map_option (m_at st2) (case find (\<lambda>q. id_at st q = i) (g_memories st) of
        None \<Rightarrow> if mem_id m = i then Some p else None | Some q \<Rightarrow> Some q)"
      by (simp add: kview_def find_append st2(1,2) split: option.split)
    then show ?thesis
      using None st2(2,3) find_key_in [of "id_at st" i "g_memories st"]
      by (cases "find (\<lambda>q. id_at st q = i) (g_memories st)") (auto simp: kview_def merge_one_def newest_def)
  qed
  then have "kview ?st = merge_one (\<lambda>_. True) (kview st) m" unfolding st2_def by blast
  then show ?thesis using None a ok km_inv_live(1) [OF assms(1)] by (simp add: update_memory_def get_memory_by_id_live)
next
  case (Some p)
  note f = found_memory [OF assms(1) Some]
  let ?m = "(m_at st p)\<lparr>mem_ip := mem_ip m, mem_port := mem_port m, mem_alive := mem_alive m, mem_timestamp := mem_timestamp m\<rparr>"
  have m: "?m = m" using f(2) by simp
  have view: "kview st (mem_id m) = Some (m_at st p)" using Some by (simp add: kview_def)
  have ok: "km_inv (if mem_alive m then {} else {mem_id m}) (store p m st)"
    using km_inv_store [OF assms(1) f(1), of m] f(2) by auto
  have "update_memory st m =
      (if mem_timestamp (m_at st p) < mem_timestamp m then
         (if \<not> mem_alive m then remove_memory (mem_id m) (store p ?m st) else Inr (store p ?m st, []))
       else Inr (st, []))"
    using Some f km_inv_live(1) [OF assms(1)] by (simp add: update_memory_def get_memory_by_id_live load_live Let_def)
  note eq = this [unfolded m]
  have new: "kview (store p m st) = merge_one (\<lambda>_. True) (kview st) m" if "mem_timestamp (m_at st p) < mem_timestamp m"
    using that view kview_store [OF assms(1) Some] by (simp add: merge_one_def newest_def)
  have old: "kview st = merge_one (\<lambda>_. True) (kview st) m" if "\<not> mem_timestamp (m_at st p) < mem_timestamp m"
    using that view by (simp add: merge_one_def newest_def fun_upd_idem)
  show ?thesis
  proof (cases "mem_timestamp (m_at st p) < mem_timestamp m \<and> \<not> mem_alive m")
    case True
    have "km_ok (removed (mem_id m) (store p m st))" using km_inv_removed [OF ok, of "mem_id m"] True by simp
    then show ?thesis
      using remove_memory_cases [OF ok, of "mem_id m"] km_inv_same kview_same new True eq by fastforce
  next
    case False
    then show ?thesis using eq ok new old assms(1) by auto
  qed
qed

interpretation kernel_gossip: gossip_table kview km_ok "\<lambda>_. True"
  "\<lambda>st m st'. mem_id m \<noteq> -1 \<and> (\<exists>ev. update_memory st m = Inr (st', ev))"
proof
  show "view_ok (kview st)" if "km_ok st" for st
    unfolding view_ok_def kview_def by (auto dest: find_key_in)
  show "km_ok s'" if "km_ok s" "mem_id m \<noteq> -1 \<and> (\<exists>ev. update_memory s m = Inr (s', ev))" for s m s'
    using update_memory_cases [OF that(1), of m] that(2) by auto
  show "kview s' = merge_one (\<lambda>_. True) (kview s) m" if "km_ok s" "mem_id m \<noteq> -1 \<and> (\<exists>ev. update_memory s m = Inr (s', ev))" for s m s'
    using update_memory_cases [OF that(1), of m] that(2) by auto
qed

lemma update_memories_cases:
  assumes "km_ok st" "\<forall>m \<in> set ms. mem_id m \<noteq> -1"
  shows "update_memories st ms = Inl Blocked \<or>
    (\<exists>st' ev. update_memories st ms = Inr (st', ev) \<and>
       learns (\<lambda>st m st'. mem_id m \<noteq> -1 \<and> (\<exists>ev. update_memory st m = Inr (st', ev))) st ms st')"
  using assms
proof (induction ms arbitrary: st)
  case (Cons m ms)
  from update_memory_cases [OF Cons.prems(1), of m] Cons.prems(2)
  consider "update_memory st m = Inl Blocked" | st1 ev where "update_memory st m = Inr (st1, ev)" "km_ok st1" by auto
  then show ?case
  proof cases
    case 2
    with Cons.IH [OF 2(2)] Cons.prems(2) show ?thesis by fastforce
  qed simp
qed simp

text \<open>The answer to a gossip request, or its failure, for a memory that is still in the list.\<close>

definition marked_dead :: "addr \<Rightarrow> int \<Rightarrow> kernel_memories \<Rightarrow> kernel_memories" where
  "marked_dead p now st = store p ((m_at st p)\<lparr>mem_alive := False, mem_timestamp := now\<rparr>) st"

lemma mark_dead_cases:
  assumes "km_ok st" "p \<in> set (g_memories st)"
  shows "remove_memory (id_at st p) (marked_dead p now st) = Inl Blocked \<or>
    (\<exists>st' ev. remove_memory (id_at st p) (marked_dead p now st) = Inr (st', ev) \<and> km_ok st' \<and>
       p \<notin> set (g_memories_added_sc st') \<union> set (g_memories_added_shc st') \<union> set (g_memories_added_ec st') \<and>
       g_memories st' = g_memories st \<and> m_at st' p = (m_at st p)\<lparr>mem_alive := False, mem_timestamp := now\<rparr>)"
proof -
  let ?i = "id_at st p" and ?st = "marked_dead p now st"
  have ok: "km_inv {?i} ?st" using km_inv_store [OF assms, of "(m_at st p)\<lparr>mem_alive := False, mem_timestamp := now\<rparr>"] by (simp add: marked_dead_def)
  have new: "m_at ?st p = (m_at st p)\<lparr>mem_alive := False, mem_timestamp := now\<rparr>" "g_memories ?st = g_memories st"
    by (simp_all add: marked_dead_def m_at_store)
  have rem: "km_ok (removed ?i ?st)" using km_inv_removed [OF ok, of ?i] by simp
  show ?thesis
  proof (cases "remove_memory ?i ?st = Inl Blocked")
    case False
    then obtain st' ev where st': "remove_memory ?i ?st = Inr (st', ev)" "same_lists (removed ?i ?st) st'"
      using remove_memory_cases [OF ok, of ?i] by blast
    have m: "m_at st' = m_at ?st" using m_at_same [OF st'(2)] by simp
    have "p \<notin> set (g_memories_added_sc st') \<union> set (g_memories_added_shc st') \<union> set (g_memories_added_ec st')"
      using in_criteria_removed [OF ok st'(2), of p] m new(1) by auto
    moreover have "g_memories st' = g_memories st" using st'(2) new(2) by (simp add: same_lists_def removed_def)
    ultimately show ?thesis using st'(1) km_inv_same [OF st'(2)] rem m new(1) by auto
  qed simp
qed

lemma post_gossip_failed:
  assumes "km_ok st" "p \<in> set (g_memories st)"
  shows "post_gossip now None p st = remove_memory (id_at st p) (marked_dead p now st)"
  using assms by (simp add: post_gossip_def load_live km_inv_def live_def marked_dead_def)

lemma km_ok_drop_placeholder:
  assumes "km_ok st" "p \<in> set (g_memories st)" "id_at st p = -1"
  shows "\<exists>ps. list_remove (g_memories st) 0 = Inr ps \<and> p \<notin> set ps \<and> km_ok (free_memory p (st\<lparr>g_memories := ps\<rparr>))"
proof -
  have "p \<notin> set (tl (g_memories st))" using assms by (auto simp: km_inv_def)
  then have g: "g_memories st = p # tl (g_memories st)" using assms(2) by (cases "g_memories st") auto
  let ?ps = "tl (g_memories st)" and ?st = "free_memory p (st\<lparr>g_memories := tl (g_memories st)\<rparr>)"
  have at: "m_at ?st q = m_at st q" if "q \<noteq> p" for q using that by (simp add: free_memory_def m_at_def)
  have np: "p \<notin> set ?ps" by fact
  have ids: "map (id_at ?st) ?ps = map (id_at st) ?ps" using np by (intro map_cong refl arg_cong [where f = mem_id] at) auto
  have fields: "g_memories ?st = ?ps" "k_fresh ?st = k_fresh st" "ec_next ?st = ec_next st" "g_memories_added_sc ?st = g_memories_added_sc st"
    "g_memories_added_shc ?st = g_memories_added_shc st" "g_memories_added_ec ?st = g_memories_added_ec st"
    by (simp_all add: free_memory_def)
  have crit: "criterion_ok {} ?st qs" if "criterion_ok {} st qs" for qs
  proof -
    have "p \<notin> set qs" using that assms(3) by (auto simp: criterion_ok_def)
    moreover have "set (g_memories st) = insert p (set ?ps)" by (subst g) simp
    ultimately show ?thesis using that at fields(1) by (fastforce simp: criterion_ok_def)
  qed
  have "live ?st ?ps" using assms(1) np g by (auto simp: km_inv_def live_def free_memory_def dest: list.set_sel(2) [rotated])
  moreover have "distinct (map (id_at ?st) ?ps)" using assms(1) g unfolding ids by (metis km_inv_def distinct_tl map_tl)
  moreover have "\<forall>q \<in> set (tl ?ps). id_at ?st q \<noteq> -1"
    using assms(1) np at by (metis km_inv_def list.set_sel(2) list.sel(2))
  moreover have "\<forall>q \<in> set ?ps. q < k_fresh st" using assms(1) by (metis km_inv_def list.set_sel(2) list.sel(2))
  ultimately have "km_ok ?st" using assms(1) crit unfolding km_inv_def fields by blast
  moreover have "list_remove (g_memories st) 0 = Inr ?ps" by (subst g) (simp add: list_remove_def)
  ultimately show ?thesis using np by blast
qed

lemma post_gossip_answered:
  assumes "km_ok st" "p \<in> set (g_memories st)" "\<forall>m \<in> set received. mem_id m \<noteq> -1"
  shows "post_gossip now (Some received) p st = Inl Blocked \<or>
    (\<exists>st' ev. post_gossip now (Some received) p st = Inr (st', ev) \<and> km_ok st' \<and>
       (\<forall>m \<in> set received. \<exists>e. kview st' (mem_id m) = Some e \<and> mem_timestamp m \<le> mem_timestamp e))"
proof -
  have load: "load st p = Inr (m_at st p)" using assms(1,2) by (simp add: load_live km_inv_def live_def)
  obtain st1 where st1: "post_gossip now (Some received) p st = update_memories st1 received" "km_ok st1"
  proof (cases "id_at st p = -1")
    case True
    with km_ok_drop_placeholder [OF assms(1,2)] load that show ?thesis by (auto simp: post_gossip_def)
  next
    case False
    have "km_ok (store p ((m_at st p)\<lparr>mem_alive := True, mem_timestamp := now\<rparr>) st)"
      using km_inv_store [OF assms(1,2), of "(m_at st p)\<lparr>mem_alive := True, mem_timestamp := now\<rparr>"] by simp
    with False load that show ?thesis by (simp add: post_gossip_def)
  qed
  show ?thesis
    using update_memories_cases [OF st1(2) assms(3)] kernel_gossip.learns_view [OF st1(2)] kernel_gossip.learns_newest [OF st1(2)] st1(1)
    by fastforce
qed

end
