(* ===== verification/Kernel_Select.thy ===== *)
theory Kernel_Select
  imports Kernel_Inv
begin

text \<open>
  How the kernel chooses a memory for a criterion, what one journaling does from the request to the
  last answer, and the states the memory lists can reach.
\<close>

section \<open>Choosing a memory\<close>

lemma get_any_sc_memory_ok:
  "km_ok st \<Longrightarrow> get_any_sc_memory st = Inr (case g_memories_added_sc st of [] \<Rightarrow> None | p # _ \<Rightarrow> Some p)"
  using km_inv_live(2) [of "{}" st] by (cases "g_memories_added_sc st") (auto simp: get_any_sc_memory_def list_get_def load_live)

lemma get_any_shc_memory_ok:
  assumes "km_ok st" "g_memories_added_shc st \<noteq> []"
  shows "get_any_shc_memory key st = Inr (Some (g_memories_added_shc st ! (unat key mod length (g_memories_added_shc st))))"
proof -
  let ?shc = "g_memories_added_shc st" and ?n = "length (g_memories_added_shc st)"
  have n: "0 < ?n" using assms(2) by simp
  have h: "hash (uint key) (int ?n) = Inr (int (unat key mod ?n))"
  proof -
    have "int (unat key) = uint key" by simp
    then have "uint key mod int ?n = int (unat key mod ?n)" by (metis zmod_int)
    then show ?thesis using n trunc_mod_nonneg [of "uint key" "int ?n"] by (simp add: hash_def)
  qed
  have "unat key mod ?n < ?n" using n by simp
  then show ?thesis
    using km_inv_live(3) [OF assms(1)] assms(2) h by (simp add: get_any_shc_memory_def list_get_def live_def load_live)
qed

definition ec_after :: "int \<Rightarrow> nat \<Rightarrow> nat" where
  \<comment> \<open>the position after \<open>ec_next\<close> in a list of \<open>n\<close> memories\<close>
  "ec_after i n = (if i \<ge> int n - 1 then 0 else nat (i + 1))"

lemma ec_after_less: "0 < n \<Longrightarrow> ec_after i n < n"
  by (auto simp: ec_after_def)

lemma ec_after_Suc: "k < n \<Longrightarrow> ec_after (int k) n = Suc k mod n"
  by (auto simp: ec_after_def nat_add_distrib mod_Suc)

lemma get_any_ec_memory_ok:
  assumes "km_ok st" "g_memories_added_ec st \<noteq> []"
  shows "get_any_ec_memory st =
    (let n = ec_after (ec_next st) (length (g_memories_added_ec st)) in Inr (Some (g_memories_added_ec st ! n), st\<lparr>ec_next := int n\<rparr>))"
proof -
  let ?n = "ec_after (ec_next st) (length (g_memories_added_ec st))"
  have n: "?n < length (g_memories_added_ec st)" using assms(2) by (simp add: ec_after_less)
  have "-1 \<le> ec_next st" using assms(1) by (simp add: km_inv_def)
  then have eq: "(if ec_next st \<ge> int (length (g_memories_added_ec st)) - 1 then 0 else ec_next st + 1) = int ?n"
    by (auto simp: ec_after_def)
  show ?thesis
    using km_inv_live(4) [OF assms(1)] assms(2) n unfolding get_any_ec_memory_def eq
    by (simp add: list_get_def live_def load_live Let_def)
qed

fun ec_calls :: "nat \<Rightarrow> kernel_memories \<Rightarrow> (addr option list \<times> kernel_memories) result" where
  "ec_calls 0 st = Inr ([], st)"
| "ec_calls (Suc n) st = rbind (get_any_ec_memory st) (\<lambda>(p, st1). rbind (ec_calls n st1) (\<lambda>(ps, st2). Inr (p # ps, st2)))"

lemma km_inv_ec_next: "-1 \<le> i \<Longrightarrow> km_inv D (st\<lparr>ec_next := i\<rparr>) \<longleftrightarrow> km_inv D (st\<lparr>ec_next := 0\<rparr>)"
  by (simp add: km_inv_def criterion_ok_def m_at_def live_def)

lemma km_ok_ec_next: "km_ok st \<Longrightarrow> -1 \<le> i \<Longrightarrow> km_ok (st\<lparr>ec_next := i\<rparr>)"
  by (simp add: km_inv_def criterion_ok_def m_at_def live_def)

lemma ec_calls_from:
  assumes "km_ok st" "g_memories_added_ec st \<noteq> []" "ec_next st = int k" "k < length (g_memories_added_ec st)"
  shows "\<exists>st'. ec_calls n st = Inr (map (\<lambda>j. Some (g_memories_added_ec st ! ((k + 1 + j) mod length (g_memories_added_ec st)))) [0..<n], st')"
  using assms
proof (induction n arbitrary: st k)
  case (Suc n)
  let ?ec = "g_memories_added_ec st" and ?l = "length (g_memories_added_ec st)"
  let ?st = "st\<lparr>ec_next := int (Suc k mod ?l)\<rparr>"
  have call: "get_any_ec_memory st = Inr (Some (?ec ! (Suc k mod ?l)), ?st)"
    using get_any_ec_memory_ok [OF Suc.prems(1,2)] Suc.prems(3,4) by (simp add: ec_after_Suc Let_def)
  have "Suc k mod ?l < ?l" using Suc.prems(2) by simp
  then obtain st' where st': "ec_calls n ?st = Inr (map (\<lambda>j. Some (?ec ! ((Suc k mod ?l + 1 + j) mod ?l))) [0..<n], st')"
    using Suc.IH [of ?st "Suc k mod ?l"] km_ok_ec_next [OF Suc.prems(1)] Suc.prems(2) by auto
  have "(Suc k mod ?l + 1 + j) mod ?l = (k + 1 + Suc j) mod ?l" for j
    by (metis Suc_eq_plus1 add_Suc_right add_Suc_shift mod_add_left_eq)
  then have "ec_calls (Suc n) st = Inr (Some (?ec ! (Suc k mod ?l)) # map (\<lambda>j. Some (?ec ! ((k + 1 + Suc j) mod ?l))) [0..<n], st')"
    using call st' by simp
  moreover have "map (\<lambda>j. Some (?ec ! ((k + 1 + j) mod ?l))) [0..<Suc n] =
      Some (?ec ! (Suc k mod ?l)) # map (\<lambda>j. Some (?ec ! ((k + 1 + Suc j) mod ?l))) [0..<n]"
    by (simp add: upt_conv_Cons map_Suc_upt [symmetric] comp_def del: upt_Suc)
  ultimately show ?case by auto
qed simp

section \<open>One journaling\<close>

lemma set_add_to_mems [simp]: "set (add_to_mems_if_not_found ms ps) = set ms \<union> set ps"
  by (induction ms ps rule: add_to_mems_if_not_found.induct) auto

lemma distinct_add_to_mems: "distinct ms \<Longrightarrow> distinct (add_to_mems_if_not_found ms ps)"
  by (induction ms ps rule: add_to_mems_if_not_found.induct) auto

lemma journal_list:
  "distinct (get_list_with_a_consistency st)"
  "set (get_list_with_a_consistency st) = set (g_memories_added_sc st) \<union> set (g_memories_added_shc st) \<union> set (g_memories_added_ec st)"
  by (auto simp: get_list_with_a_consistency_def distinct_add_to_mems)

fun journal_answers :: "int option list \<Rightarrow> addr option \<Rightarrow> kernel_memories \<Rightarrow> kernel_memories \<times> kernel_event list" where
  \<comment> \<open>the callbacks of a journaling, one after the other\<close>
  "journal_answers [] pcb st = (st, [])"
| "journal_answers (r # rs) pcb st =
     (let (st1, e1) = local_journal_callback r pcb st; (st2, e2) = journal_answers rs pcb st1 in (st2, e1 @ e2))"

definition journal_failed :: "int option \<Rightarrow> bool" where
  "journal_failed r \<longleftrightarrow> r = None \<or> r = Some (-1)"

definition journal_call :: "kernel_callback option \<Rightarrow> bool \<Rightarrow> addr option \<Rightarrow> kernel_event list" where
  "journal_call cb failed pcb = (case cb of None \<Rightarrow> [] | Some c \<Rightarrow> [Call_Journal_Callback c (if failed then -1 else 0) pcb])"

lemma journal_answers_all:
  assumes "g_journal_actual st + int (length rs) = g_journal_expected st" "rs \<noteq> []" "g_journal_result st \<in> {0, -1}"
  shows "\<exists>st'. journal_answers rs pcb st =
      (st', journal_call (g_journal_callback st) (g_journal_result st = -1 \<or> (\<exists>r \<in> set rs. journal_failed r)) pcb) \<and>
    same_lists st st' \<and> g_journal_semaphore st' = g_journal_semaphore st + 1"
  using assms
proof (induction rs arbitrary: st)
  case (Cons r rs)
  let ?st = "(count_journal_answer st)\<lparr>g_journal_result := if journal_failed r then -1 else g_journal_result st\<rparr>"
  show ?case
  proof (cases "rs = []")
    case True
    then show ?thesis
      using Cons.prems by (auto simp: local_journal_callback_def check_journal_answer_def count_journal_answer_def journal_failed_def
          journal_call_def same_lists_def Let_def split: option.split)
  next
    case False
    have more: "g_journal_actual st + 1 \<noteq> g_journal_expected st" using Cons.prems(1) False by (cases rs) auto
    have first: "local_journal_callback r pcb st = (?st, [])"
      using more
      by (auto simp: local_journal_callback_def check_journal_answer_def count_journal_answer_def journal_failed_def Let_def)
    have pre: "g_journal_actual ?st + int (length rs) = g_journal_expected ?st" "g_journal_result ?st \<in> {0, -1}"
      using Cons.prems by (auto simp: count_journal_answer_def)
    obtain st' where st': "journal_answers rs pcb ?st =
        (st', journal_call (g_journal_callback ?st) (g_journal_result ?st = -1 \<or> (\<exists>r \<in> set rs. journal_failed r)) pcb)"
      "same_lists ?st st'" "g_journal_semaphore st' = g_journal_semaphore ?st + 1"
      using Cons.IH [OF pre(1) False pre(2)] by blast
    have "g_journal_result ?st = -1 \<or> (\<exists>r \<in> set rs. journal_failed r) \<longleftrightarrow> g_journal_result st = -1 \<or> (\<exists>r \<in> set (r # rs). journal_failed r)"
      "g_journal_callback ?st = g_journal_callback st"
      by (auto simp: count_journal_answer_def)
    note eq = st'(1) [unfolded this]
    have "journal_answers (r # rs) pcb st =
        (st', journal_call (g_journal_callback st) (g_journal_result st = -1 \<or> (\<exists>r \<in> set (r # rs). journal_failed r)) pcb)"
      using first eq by simp
    moreover have "same_lists st st'" "g_journal_semaphore st' = g_journal_semaphore st + 1"
      using st'(2,3) by (simp_all add: same_lists_def count_journal_answer_def)
    ultimately show ?thesis by blast
  qed
qed simp

lemma journaling_requests:
  assumes "km_ok st" "0 < g_journal_semaphore st" "get_list_with_a_consistency st = mems" "mems \<noteq> []"
  shows "\<exists>st1. journaling False cb pcb st = Inr (st1, map (\<lambda>p. journal_request pcb (m_at st p)) mems) \<and>
    same_lists st st1 \<and> g_journal_semaphore st1 = g_journal_semaphore st - 1 \<and> g_journal_callback st1 = cb \<and>
    g_journal_result st1 = 0 \<and> g_journal_actual st1 = 0 \<and> g_journal_expected st1 = int (length mems)"
proof -
  let ?st = "st\<lparr>g_journal_semaphore := g_journal_semaphore st - 1, g_journal_callback := cb,
      g_journal_result := 0, g_journal_actual := 0, g_journal_expected := int (length mems)\<rparr>"
  have s: "same_lists st ?st" by (simp add: same_lists_def)
  have "live ?st mems" using km_inv_live(5) [OF assms(1)] assms(3) live_same [OF s] by simp
  then have "load_list ?st mems = Inr (map (m_at st) mems)" using load_list_live m_at_same [OF s] by metis
  then have "journaling False cb pcb st = Inr (?st, map (\<lambda>p. journal_request pcb (m_at st p)) mems)"
    using assms(2,3,4) by (simp add: journaling_def Let_def comp_def)
  then show ?thesis using s by auto
qed

section \<open>Reachable states\<close>

inductive kernel_mem_step :: "kernel_memories \<Rightarrow> kernel_memories \<Rightarrow> bool" where
  add: "add_memory_number input \<noteq> -1 \<Longrightarrow> process_add input st = Inr (st', ev) \<Longrightarrow> kernel_mem_step st st'"
| gossip_failed: "p \<in> set (g_memories st) \<Longrightarrow> post_gossip now None p st = Inr (st', ev) \<Longrightarrow> kernel_mem_step st st'"
| gossip_answered: "p \<in> set (g_memories st) \<Longrightarrow> \<forall>m \<in> set received. mem_id m \<noteq> -1 \<Longrightarrow>
    post_gossip now (Some received) p st = Inr (st', ev) \<Longrightarrow> kernel_mem_step st st'"
| request_failed: "p \<in> set (g_memories st) \<Longrightarrow> remove_memory (id_at st p) (marked_dead p now st) = Inr (st', ev) \<Longrightarrow> kernel_mem_step st st'"
| choose: "get_any_ec_memory st = Inr (c, st') \<Longrightarrow> kernel_mem_step st st'"
| journal: "journaling only_shc cb pcb st = Inr (st', ev) \<Longrightarrow> kernel_mem_step st st'"
| count: "kernel_mem_step st (count_journal_answer st)"
| check: "check_journal_answer r pcb st = (st', ev) \<Longrightarrow> kernel_mem_step st st'"

inductive kernel_mem_reaches :: "kernel_memories \<Rightarrow> kernel_memories \<Rightarrow> bool" where
  here: "kernel_mem_reaches st st"
| further: "kernel_mem_reaches st st' \<Longrightarrow> kernel_mem_step st' st'' \<Longrightarrow> kernel_mem_reaches st st''"

lemma km_ok_init: "km_ok (init_gossiping ip port now (init_memory_list st))"
  by (simp add: km_inv_def init_gossiping_def init_memory_list_def malloc_memory_def criterion_ok_def)

lemma km_ok_step:
  assumes "kernel_mem_step st st'" "km_ok st" shows "km_ok st'"
  using assms
proof cases
  case (add input ev)
  then show ?thesis using process_add_cases [OF assms(2), of input] by auto
next
  case (gossip_failed p now ev)
  then show ?thesis using mark_dead_cases [OF assms(2), of p now] post_gossip_failed [OF assms(2), of p now] by auto
next
  case (gossip_answered p received now ev)
  then show ?thesis using post_gossip_answered [OF assms(2), of p received now] by auto
next
  case (request_failed p now ev)
  then show ?thesis using mark_dead_cases [OF assms(2), of p now] by auto
next
  case (choose c)
  show ?thesis
  proof (cases "g_memories_added_ec st = []")
    case False
    then show ?thesis using choose get_any_ec_memory_ok [OF assms(2)] km_ok_ec_next [OF assms(2)] by (auto simp: Let_def)
  qed (use choose assms(2) in \<open>simp add: get_any_ec_memory_def\<close>)
next
  case (journal only_shc cb pcb ev)
  have "live st (if only_shc then g_memories_added_shc st else get_list_with_a_consistency st)" using km_inv_live [OF assms(2)] by simp
  then have "same_lists st st'" using journaling_cases [of st only_shc cb pcb] journal by auto
  then show ?thesis using km_inv_same assms(2) by blast
next
  case count
  have "same_lists st (count_journal_answer st)" by (simp add: same_lists_def count_journal_answer_def)
  then show ?thesis using count km_inv_same assms(2) by blast
next
  case (check r pcb ev)
  then have "same_lists st st'" by (auto simp: same_lists_def check_journal_answer_def Let_def split: if_splits)
  then show ?thesis using km_inv_same assms(2) by blast
qed

lemma km_ok_reaches: "kernel_mem_reaches st st' \<Longrightarrow> km_ok st \<Longrightarrow> km_ok st'"
  by (induction rule: kernel_mem_reaches.induct) (auto intro: km_ok_step)

section \<open>A freed structure stays freed\<close>

definition freed :: "addr \<Rightarrow> kernel_memories \<Rightarrow> bool" where
  "freed p st \<longleftrightarrow> k_heap st p = None \<and> p < k_fresh st"

lemma journaling_heap: "journaling only_shc cb pcb st = Inr (st', ev) \<Longrightarrow> k_heap st' = k_heap st \<and> k_fresh st' = k_fresh st"
  by (auto simp: journaling_def Let_def rbind_Inr_iff split: if_splits)

lemma remove_memory_heap:
  assumes "remove_memory i st = Inr (st', ev)" shows "k_heap st' = k_heap st \<and> k_fresh st' = k_fresh st"
  using assms by (auto simp: remove_memory_def Let_def rbind_Inr_iff dest!: journaling_heap split: if_splits)

lemma update_memory_freed:
  assumes "update_memory st m = Inr (st', ev)" "freed p st" shows "freed p st'"
proof -
  from assms(1) obtain found where found: "get_memory_by_id st (g_memories st) (mem_id m) = Inr found"
    by (auto simp: update_memory_def rbind_Inr_iff)
  show ?thesis
  proof (cases found)
    case None
    then show ?thesis using assms found by (auto simp: update_memory_def malloc_memory_def freed_def)
  next
    case (Some q)
    obtain e where e: "k_heap st q = Some e" using assms(1) found Some by (auto simp: update_memory_def rbind_Inr_iff load_Inr)
    then have "q \<noteq> p" using assms(2) by (auto simp: freed_def)
    then show ?thesis
      using assms found Some e
      by (auto simp: update_memory_def load_def freed_def Let_def dest!: remove_memory_heap split: if_splits)
  qed
qed

lemma update_memories_freed: "update_memories st ms = Inr (st', ev) \<Longrightarrow> freed p st \<Longrightarrow> freed p st'"
proof (induction ms arbitrary: st ev)
  case (Cons m ms)
  then obtain st1 ev1 ev2 where "update_memory st m = Inr (st1, ev1)" "update_memories st1 ms = Inr (st', ev2)"
    by (auto simp: rbind_Inr_iff)
  then show ?case using Cons.IH update_memory_freed Cons.prems(2) by blast
qed simp

lemma post_gossip_placeholder_freed:
  assumes "post_gossip now (Some received) p st = Inr (st', ev)" "id_at st p = -1" "p < k_fresh st"
  shows "freed p st'"
  using assms update_memories_freed [of _ received st' ev p]
  by (auto simp: post_gossip_def rbind_Inr_iff load_Inr m_at_def free_memory_def freed_def)

end
