(* ===== verification/Kernel_Describer.thy ===== *)
theory Kernel_Describer
  imports Lib_Utils
begin

text \<open>
  The kernel's copy of the table metadata: \<open>kernel/src/core/describer/describer.c\<close>. An update is
  prepared by \<open>on_post_describe\<close>, \<open>on_post_create\<close> or \<open>on_post_drop\<close> and carried out later, by a thread of
  its own that holds \<open>g_mutex_user_describe\<close>; so an update is one step on \<open>g_table_metadata\<close>. Table names
  are compared ignoring case.
\<close>

record update_metadata_args_t =
  upd_metadata_list :: "table_metadata_t list"
  upd_single :: bool
  upd_upsert :: bool

section \<open>The code\<close>

definition on_describe_update_triggered ::
  "commons \<Rightarrow> update_metadata_args_t \<Rightarrow> table_metadata_t list \<Rightarrow> table_metadata_t list result" where
  "on_describe_update_triggered cm args g_table_metadata =
     (if upd_single args then
        rbind (list_get (upd_metadata_list args) 0) (\<lambda>affected.
        let same = (\<lambda>m. string_equals_ignore_case cm (md_table_name affected) (md_table_name m))
        in if upd_upsert args then
             (let found = index_or_minus_one same g_table_metadata
              in if found = -1 then Inr (g_table_metadata @ [affected])
                 else Inr (g_table_metadata[nat found := affected]))
           else Inr (remove_first same g_table_metadata))
      else Inr (upd_metadata_list args))"

definition on_post_describe :: "table_metadata_t list option \<Rightarrow> bool \<Rightarrow> bool \<Rightarrow> update_metadata_args_t option" where
  \<comment> \<open>the update that is started, none when the request failed\<close>
  "on_post_describe metadata_list single upsert =
     (case metadata_list of
        None \<Rightarrow> None
      | Some l \<Rightarrow> Some \<lparr>upd_metadata_list = l, upd_single = single, upd_upsert = upsert\<rparr>)"

definition on_post_create :: "create_input_t \<Rightarrow> update_metadata_args_t option" where
  "on_post_create input =
     on_post_describe (Some [\<lparr>md_table_name = cre_table_name input, md_consistency = cre_consistency input,
       md_partitions = cre_partitions input, md_compaction_time = cre_compaction_time input\<rparr>]) True True"

definition on_post_drop :: "table_metadata_t \<Rightarrow> drop_input_t \<Rightarrow> update_metadata_args_t option" where
  \<comment> \<open>only the name is assigned; \<open>garbage\<close> is what the other fields of the new structure hold\<close>
  "on_post_drop garbage input = on_post_describe (Some [garbage\<lparr>md_table_name := drp_table_name input\<rparr>]) True False"

definition update_descriptions_callback :: "table_metadata_t list option \<Rightarrow> update_metadata_args_t option" where
  "update_descriptions_callback result = on_post_describe result False True"

definition on_describe_answer :: "table_metadata_t list option \<Rightarrow> update_metadata_args_t option" where
  \<comment> \<open>the part of \<open>on_describe\<close> that starts an update\<close>
  "on_describe_answer result =
     (case result of
        None \<Rightarrow> None
      | Some l \<Rightarrow> if l = [] then None else on_post_describe (Some l) (length l = 1) True)"

definition table_exists_in_metadata :: "commons \<Rightarrow> table_metadata_t list \<Rightarrow> string \<Rightarrow> bool" where
  "table_exists_in_metadata cm g_table_metadata table_name \<longleftrightarrow>
     (\<exists>m \<in> set g_table_metadata. string_equals_ignore_case cm table_name (md_table_name m))"

definition get_consistency_from_table :: "commons \<Rightarrow> table_metadata_t list \<Rightarrow> string \<Rightarrow> consistency_t option" where
  \<comment> \<open>\<open>None\<close> is the -1 the code returns for a table it does not know\<close>
  "get_consistency_from_table cm g_table_metadata table_name =
     map_option md_consistency (find (\<lambda>m. string_equals_ignore_case cm table_name (md_table_name m)) g_table_metadata)"

section \<open>The metadata as a map\<close>

definition upper :: "table_metadata_t \<Rightarrow> string" where
  "upper m = map upc (md_table_name m)"

definition meta_view :: "table_metadata_t list \<Rightarrow> string \<Rightarrow> table_metadata_t option" where
  \<comment> \<open>the metadata of a table, by its name in capitals\<close>
  "meta_view l t = find (\<lambda>m. upper m = t) l"

definition meta_ok :: "table_metadata_t list \<Rightarrow> bool" where
  "meta_ok l \<longleftrightarrow> distinct (map upper l)"

lemma index_or_minus_one_None: "index_or_minus_one P xs = -1 \<longleftrightarrow> (\<forall>x \<in> set xs. \<not> P x)"
  by (auto simp: index_or_minus_one_def find_upt_None find_upt_Some all_set_conv_all_nth split: option.splits)

lemma index_or_minus_one_Some:
  assumes "index_or_minus_one P xs \<noteq> -1"
  obtains k where "index_or_minus_one P xs = int k" "k < length xs" "P (xs ! k)" "\<forall>j < k. \<not> P (xs ! j)"
proof -
  from assms obtain k where "find (\<lambda>i. P (xs ! i)) [0..<length xs] = Some k"
    by (auto simp: index_or_minus_one_def split: option.splits)
  then have "index_or_minus_one P xs = int k" "k < length xs \<and> P (xs ! k) \<and> (\<forall>j < k. \<not> P (xs ! j))"
    unfolding index_or_minus_one_def by (simp, simp add: find_upt_Some)
  then show ?thesis using that by blast
qed

lemma update_at_index:
  assumes "index_or_minus_one P xs \<noteq> -1"
  shows "xs[nat (index_or_minus_one P xs) := y] = update_first P (\<lambda>_. y) xs"
proof -
  obtain k where k: "index_or_minus_one P xs = int k" "k < length xs" "P (xs ! k)" "\<forall>j < k. \<not> P (xs ! j)"
    using index_or_minus_one_Some [OF assms] .
  have "xs = take k xs @ xs ! k # drop (Suc k) xs" using k(2) by (simp add: id_take_nth_drop)
  moreover have "\<forall>x \<in> set (take k xs). \<not> P x" using k(2,4) by (auto simp: in_set_conv_nth)
  ultimately have "update_first P (\<lambda>_. y) xs = take k xs @ y # drop (Suc k) xs"
    using update_first_split [of "take k xs" P "xs ! k" "\<lambda>_. y" "drop (Suc k) xs"] k(3) by simp
  then show ?thesis using k(1,2) by (simp add: upd_conv_take_nth_drop)
qed

lemma find_upsert_present:
  "key y = j \<Longrightarrow> j \<in> key ` set xs \<Longrightarrow>
   find (\<lambda>x. key x = k) (update_first (\<lambda>x. key x = j) (\<lambda>_. y) xs) = (if k = j then Some y else find (\<lambda>x. key x = k) xs)"
  by (induction xs) auto

lemma find_upsert_absent:
  "key y = j \<Longrightarrow> j \<notin> key ` set xs \<Longrightarrow> find (\<lambda>x. key x = k) (xs @ [y]) = (if k = j then Some y else find (\<lambda>x. key x = k) xs)"
  by (induction xs) auto

lemma map_upsert_present: "key y = j \<Longrightarrow> map key (update_first (\<lambda>x. key x = j) (\<lambda>_. y) xs) = map key xs"
  by (induction xs) auto

context commons_api
begin

lemma upsert_spec:
  assumes "meta_ok l"
  shows "\<exists>l'. on_describe_update_triggered cm \<lparr>upd_metadata_list = m # ms, upd_single = True, upd_upsert = True\<rparr> l = Inr l' \<and>
    meta_ok l' \<and> meta_view l' = (meta_view l)(upper m \<mapsto> m)"
proof -
  have same: "string_equals_ignore_case cm (md_table_name m) (md_table_name x) \<longleftrightarrow> upper x = upper m" for x
    by (auto simp: equals_ignore_case upper_def)
  let ?found = "index_or_minus_one (\<lambda>x. upper x = upper m) l"
  have step: "on_describe_update_triggered cm \<lparr>upd_metadata_list = m # ms, upd_single = True, upd_upsert = True\<rparr> l =
      Inr (if ?found = -1 then l @ [m] else l[nat ?found := m])"
    by (simp add: on_describe_update_triggered_def list_get_def same)
  show ?thesis
  proof (cases "?found = -1")
    case True
    then have "upper m \<notin> upper ` set l" by (auto simp: index_or_minus_one_None)
    then have "meta_view (l @ [m]) = (meta_view l)(upper m \<mapsto> m)" "meta_ok (l @ [m])"
      using find_upsert_absent [of upper m "upper m" l] assms by (auto simp: meta_view_def meta_ok_def fun_eq_iff)
    with step True show ?thesis by simp
  next
    case False
    then have "upper m \<in> upper ` set l" unfolding index_or_minus_one_None by (metis imageI)
    then have "meta_view (l[nat ?found := m]) = (meta_view l)(upper m \<mapsto> m)" "meta_ok (l[nat ?found := m])"
      using find_upsert_present [of upper m "upper m" l] map_upsert_present [of upper m "upper m" l] assms
      by (auto simp: meta_view_def meta_ok_def fun_eq_iff update_at_index [OF False])
    with step False show ?thesis by simp
  qed
qed

lemma delete_spec:
  assumes "meta_ok l"
  shows "\<exists>l'. on_describe_update_triggered cm \<lparr>upd_metadata_list = m # ms, upd_single = True, upd_upsert = False\<rparr> l = Inr l' \<and>
    meta_ok l' \<and> meta_view l' = (meta_view l)(upper m := None)"
proof -
  have same: "string_equals_ignore_case cm (md_table_name m) (md_table_name x) \<longleftrightarrow> upper x = upper m" for x
    by (auto simp: equals_ignore_case upper_def)
  have "meta_view (remove_first (\<lambda>x. upper x = upper m) l) = (meta_view l)(upper m := None)"
    using find_remove_first_key [of upper l] assms by (auto simp: meta_view_def meta_ok_def fun_eq_iff)
  then show ?thesis
    using distinct_remove_first [of upper l] assms
    by (auto simp: on_describe_update_triggered_def list_get_def same Let_def meta_ok_def)
qed

lemma replace_spec:
  "on_describe_update_triggered cm \<lparr>upd_metadata_list = l', upd_single = False, upd_upsert = u\<rparr> l = Inr l'"
  by (simp add: on_describe_update_triggered_def)

lemma lookup_spec:
  "table_exists_in_metadata cm l t \<longleftrightarrow> meta_view l (map upc t) \<noteq> None"
  "get_consistency_from_table cm l t = map_option md_consistency (meta_view l (map upc t))"
proof -
  have same: "string_equals_ignore_case cm t (md_table_name x) \<longleftrightarrow> upper x = map upc t" for x
    by (auto simp: equals_ignore_case upper_def)
  show "table_exists_in_metadata cm l t \<longleftrightarrow> meta_view l (map upc t) \<noteq> None"
    using find_None_iff [of "\<lambda>x. upper x = map upc t" l] by (auto simp: table_exists_in_metadata_def meta_view_def same)
  show "get_consistency_from_table cm l t = map_option md_consistency (meta_view l (map upc t))"
    by (simp add: get_consistency_from_table_def meta_view_def same)
qed

end

end
