(* ===== verification/Kernel_Stats.thy ===== *)
theory Kernel_Stats
  imports Lib_Utils "HOL-Library.Multiset"
begin

text \<open>
  The statistics of the kernel: \<open>kernel/src/core/statistics/stats.c\<close> and \<open>metrics.c\<close>. Every finished
  SELECT or INSERT leaves an event; events older than 30 seconds are removed and only counted, by
  memory, in the historic list. Each function that takes \<open>g_stats_semaphore\<close> is one step.
\<close>

datatype stats_event_t = SELECT_EVENT | INSERT_EVENT

record stats_t =
  ev_timestamp_start :: int
  ev_timestamp_end :: int
  ev_memory :: int
  ev_event_type :: stats_event_t
  ev_consistency :: "consistency_t option"

record historic_t =
  his_memory_id :: int
  his_requests :: int

record stats_state =
  g_stats_events :: "stats_t list"
  g_historic_infos :: "historic_t list"

section \<open>The code\<close>

definition add_to_historics :: "historic_t list \<Rightarrow> int \<Rightarrow> historic_t list" where
  "add_to_historics hs memory_id =
     (case find (\<lambda>h. his_memory_id h = memory_id) hs of
        Some _ \<Rightarrow> update_first (\<lambda>h. his_memory_id h = memory_id) (\<lambda>h. h\<lparr>his_requests := his_requests h + 1\<rparr>) hs
      | None \<Rightarrow> hs @ [\<lparr>his_memory_id = memory_id, his_requests = 1\<rparr>])"

definition timelimit :: int where "timelimit = 30000"

definition is_old :: "int \<Rightarrow> stats_t \<Rightarrow> bool" where
  "is_old now event \<longleftrightarrow> timestamp_difference now (ev_timestamp_end event) > timelimit"

fun clear_old_from :: "int \<Rightarrow> nat \<Rightarrow> stats_state \<Rightarrow> stats_state" where
  \<comment> \<open>the loop with \<open>i\<close> elements left to look at, from the last to the first\<close>
  "clear_old_from now 0 st = st"
| "clear_old_from now (Suc i) st =
     (let event = g_stats_events st ! i
      in clear_old_from now i
           (if is_old now event then
              st\<lparr>g_historic_infos := add_to_historics (g_historic_infos st) (ev_memory event),
                 g_stats_events := take i (g_stats_events st) @ drop (Suc i) (g_stats_events st)\<rparr>
            else st))"

definition clear_old_stats :: "int \<Rightarrow> stats_state \<Rightarrow> stats_state" where
  "clear_old_stats now st = clear_old_from now (length (g_stats_events st)) st"

definition get_historic_requests :: "stats_state \<Rightarrow> int \<Rightarrow> int" where
  "get_historic_requests st memory_id =
     (case find (\<lambda>h. his_memory_id h = memory_id) (g_historic_infos st) of Some h \<Rightarrow> his_requests h | None \<Rightarrow> 0)"

definition get_total_requests :: "stats_state \<Rightarrow> int \<Rightarrow> int" where
  "get_total_requests st memory_id =
     foldl (\<lambda>requests event. if ev_memory event = memory_id then requests + 1 else requests)
       (get_historic_requests st memory_id) (g_stats_events st)"

definition get_total_requests_overall :: "stats_state \<Rightarrow> memory_t list \<Rightarrow> int" where
  "get_total_requests_overall st memories = foldl (\<lambda>total m. total + get_total_requests st (mem_id m)) 0 memories"

definition get_operation_latency :: "stats_state \<Rightarrow> consistency_t \<Rightarrow> stats_event_t \<Rightarrow> int" where
  "get_operation_latency st consistency event_t =
     (let (sum, counter) = foldl (\<lambda>(sum, counter) event.
            if ev_event_type event = event_t \<and> ev_consistency event = Some consistency
            then (sum + timestamp_difference (ev_timestamp_start event) (ev_timestamp_end event), counter + 1)
            else (sum, counter)) (0, 0) (g_stats_events st)
      in if counter = 0 then 0 else int_cast (sum div counter))"

definition get_operation_count :: "stats_state \<Rightarrow> consistency_t \<Rightarrow> stats_event_t \<Rightarrow> int" where
  "get_operation_count st consistency event_t =
     foldl (\<lambda>counter event. if ev_event_type event = event_t \<and> ev_consistency event = Some consistency then counter + 1 else counter)
       0 (g_stats_events st)"

definition get_read_latency :: "stats_state \<Rightarrow> consistency_t \<Rightarrow> int" where
  "get_read_latency st consistency = get_operation_latency st consistency SELECT_EVENT"

definition get_write_latency :: "stats_state \<Rightarrow> consistency_t \<Rightarrow> int" where
  "get_write_latency st consistency = get_operation_latency st consistency INSERT_EVENT"

definition get_reads :: "stats_state \<Rightarrow> consistency_t \<Rightarrow> int" where
  "get_reads st consistency = get_operation_count st consistency SELECT_EVENT"

definition get_writes :: "stats_state \<Rightarrow> consistency_t \<Rightarrow> int" where
  "get_writes st consistency = get_operation_count st consistency INSERT_EVENT"

definition compare_mems_by_id :: "memory_t \<Rightarrow> memory_t \<Rightarrow> bool" where
  "compare_mems_by_id m1 m2 \<longleftrightarrow> mem_id m1 < mem_id m2"

record metrics_report =
  rep_criteria :: "(consistency_t \<times> int \<times> int \<times> int \<times> int) list"
  rep_memories :: "(int \<times> int \<times> int) list"

definition process_metrics ::
  "((memory_t \<Rightarrow> memory_t \<Rightarrow> bool) \<Rightarrow> memory_t list \<Rightarrow> memory_t list) \<Rightarrow> int \<Rightarrow> memory_t list \<Rightarrow> stats_state \<Rightarrow> stats_state \<times> metrics_report" where
  \<comment> \<open>\<open>sort_memories\<close> is \<open>list_sorted\<close>; of the memory loads the requests and the total are reported, the percentage is their quotient\<close>
  "process_metrics sort_memories now memories st =
     (let st1 = clear_old_stats now st;
          total_requests = get_total_requests_overall st1 memories
      in (st1, \<lparr>rep_criteria = map (\<lambda>c. (c, get_read_latency st1 c, get_write_latency st1 c, get_reads st1 c, get_writes st1 c))
                   [STRONG_CONSISTENCY, STRONG_HASH_CONSISTENCY, EVENTUAL_CONSISTENCY],
                rep_memories = map (\<lambda>m. (mem_id m, get_total_requests st1 (mem_id m), total_requests))
                   (sort_memories compare_mems_by_id memories)\<rparr>))"

section \<open>Counting\<close>

lemma foldl_count: "foldl (\<lambda>n x. if P x then n + 1 else n) (a :: int) xs = a + int (length (filter P xs))"
  by (induction xs arbitrary: a) auto

lemma foldl_sum: "foldl (\<lambda>t x. t + f x) (a :: int) xs = a + sum_list (map f xs)"
  by (induction xs arbitrary: a) auto

lemma foldl_sum_count:
  "foldl (\<lambda>(s, c) x. if P x then (s + f x, c + 1) else (s, c)) (a :: int, b :: int) xs =
   (a + sum_list (map f (filter P xs)), b + int (length (filter P xs)))"
  by (induction xs arbitrary: a b) auto

lemma get_total_requests_eq:
  "get_total_requests st i = get_historic_requests st i + int (length (filter (\<lambda>e. ev_memory e = i) (g_stats_events st)))"
  by (simp add: get_total_requests_def foldl_count)

lemma get_historic_add:
  "get_historic_requests (st\<lparr>g_historic_infos := add_to_historics (g_historic_infos st) m\<rparr>) i =
   get_historic_requests st i + (if i = m then 1 else 0)"
proof -
  let ?f = "\<lambda>h :: historic_t. h\<lparr>his_requests := his_requests h + 1\<rparr>"
  have f: "his_memory_id (?f h) = his_memory_id h" for h by simp
  show ?thesis
    using find_update_first [of his_memory_id ?f i m "g_historic_infos st", OF f]
    by (auto simp: get_historic_requests_def add_to_historics_def find_append split: option.splits)
qed

section \<open>Clearing the old events\<close>

lemma clear_old_from_spec:
  assumes "i \<le> length (g_stats_events st)"
  shows "g_stats_events (clear_old_from now i st) = filter (\<lambda>e. \<not> is_old now e) (take i (g_stats_events st)) @ drop i (g_stats_events st) \<and>
    get_total_requests (clear_old_from now i st) j = get_total_requests st j"
  using assms
proof (induction i arbitrary: st)
  case (Suc i)
  let ?es = "g_stats_events st" and ?e = "g_stats_events st ! i"
  have es: "take (Suc i) ?es = take i ?es @ [?e]" "drop i ?es = ?e # drop (Suc i) ?es"
    using Suc.prems by (simp_all add: take_Suc_conv_app_nth Cons_nth_drop_Suc)
  show ?case
  proof (cases "is_old now ?e")
    case False
    then show ?thesis using Suc.IH [of st] Suc.prems es by simp
  next
    case True
    let ?st = "st\<lparr>g_historic_infos := add_to_historics (g_historic_infos st) (ev_memory ?e),
                 g_stats_events := take i ?es @ drop (Suc i) ?es\<rparr>"
    have i: "i \<le> length (g_stats_events ?st)" using Suc.prems by simp
    have hist: "get_historic_requests ?st j = get_historic_requests st j + (if j = ev_memory ?e then 1 else 0)"
      using get_historic_add [of st "ev_memory ?e" j] by (simp add: get_historic_requests_def)
    have "filter (\<lambda>e. ev_memory e = j) ?es = filter (\<lambda>e. ev_memory e = j) (take i ?es @ ?e # drop (Suc i) ?es)"
      using Suc.prems by (simp add: Cons_nth_drop_Suc)
    then have "get_total_requests ?st j = get_total_requests st j"
      using hist by (auto simp: get_total_requests_eq)
    then show ?thesis using Suc.IH [OF i] Suc.prems es True by simp
  qed
qed simp

lemma clear_old_stats_events: "g_stats_events (clear_old_stats now st) = filter (\<lambda>e. \<not> is_old now e) (g_stats_events st)"
  and clear_old_stats_total: "get_total_requests (clear_old_stats now st) j = get_total_requests st j"
  using clear_old_from_spec [of "length (g_stats_events st)" st now j] by (simp_all add: clear_old_stats_def)

section \<open>Latencies\<close>

definition matching :: "consistency_t \<Rightarrow> stats_event_t \<Rightarrow> stats_state \<Rightarrow> stats_t list" where
  "matching c t st = filter (\<lambda>e. ev_event_type e = t \<and> ev_consistency e = Some c) (g_stats_events st)"

definition duration :: "stats_t \<Rightarrow> int" where
  "duration e = \<bar>ev_timestamp_end e - ev_timestamp_start e\<bar>"

lemma timestamp_difference_abs: "timestamp_difference a b = \<bar>b - a\<bar>"
  by (auto simp: timestamp_difference_def)

lemma get_operation_latency_eq:
  "get_operation_latency st c t =
     (if matching c t st = [] then 0 else int_cast (sum_list (map duration (matching c t st)) div int (length (matching c t st))))"
  by (auto simp: get_operation_latency_def foldl_sum_count matching_def duration_def [abs_def] timestamp_difference_abs Let_def)

lemma get_operation_count_eq: "get_operation_count st c t = int (length (matching c t st))"
  by (simp add: get_operation_count_def foldl_count matching_def)

lemma average_bounds:
  assumes "xs \<noteq> []" "\<forall>x \<in> set xs. lo \<le> x \<and> x \<le> (hi :: int)"
  shows "lo \<le> sum_list xs div int (length xs)" "sum_list xs div int (length xs) \<le> hi"
proof -
  have "lo * int (length xs) \<le> sum_list xs \<and> sum_list xs \<le> hi * int (length xs)"
    using assms(2) by (induction xs) (auto simp: algebra_simps)
  moreover have "0 < int (length xs)" using assms(1) by simp
  ultimately show "lo \<le> sum_list xs div int (length xs)" "sum_list xs div int (length xs) \<le> hi"
    using zdiv_mono1 [of _ "hi * int (length xs)" "int (length xs)"]
      zdiv_mono1 [of "lo * int (length xs)" _ "int (length xs)"]
    by (metis nonzero_mult_div_cancel_right less_irrefl)+
qed

end
