(* ===== verification/Kernel_Theorems.thy ===== *)
theory Kernel_Theorems
  imports Kernel_Select Kernel_Describer Kernel_Stats Console
begin

text \<open>
  The properties of the kernel's memory lists: the criteria, the choice of a memory and journaling.
\<close>

section \<open>Witness data\<close>

definition blank_km :: kernel_memories where
  "blank_km = \<lparr>k_heap = (\<lambda>_. None), k_fresh = 0, g_memories = [], g_memories_added_sc = [], g_memories_added_shc = [],
     g_memories_added_ec = [], ec_next = 0, g_journal_semaphore = 0, g_journal_result = 0, g_journal_callback = None,
     g_journal_expected = 0, g_journal_actual = 0\<rparr>"

definition rec_of :: "int \<Rightarrow> bool \<Rightarrow> memory_t" where
  "rec_of n alive = \<lparr>mem_id = n, mem_ip = ''a'', mem_port = n, mem_alive = alive, mem_timestamp = 1\<rparr>"

abbreviation "km_start \<equiv> init_gossiping ''a'' 9 0 (init_memory_list blank_km)"

definition demo_km :: "addr list \<Rightarrow> addr list \<Rightarrow> addr list \<Rightarrow> kernel_memories" where
  "demo_km sc shc ec = \<lparr>k_heap = (\<lambda>_. None)(1 \<mapsto> rec_of 1 True, 2 \<mapsto> rec_of 2 True), k_fresh = 3, g_memories = [1, 2],
     g_memories_added_sc = sc, g_memories_added_shc = shc, g_memories_added_ec = ec, ec_next = -1,
     g_journal_semaphore = 1, g_journal_result = 0, g_journal_callback = None, g_journal_expected = 0, g_journal_actual = 0\<rparr>"

lemmas km_eval = blank_km_def rec_of_def demo_km_def init_gossiping_def init_memory_list_def malloc_memory_def post_gossip_def
  load_def list_remove_def free_memory_def update_memory_def add_sc_memory_def add_ec_memory_def add_shc_memory_def process_add_def Let_def

lemma demo_km_gossip: "post_gossip 1 (Some [rec_of 1 True, rec_of 2 True]) 0 km_start = Inr (demo_km [] [] [], [])"
  by (simp add: km_eval numeral_2_eq_2)

lemma demo_km_reached:
  "kernel_mem_reaches km_start (demo_km [] [] [])" "kernel_mem_reaches km_start (demo_km [2] [1] [2, 1])"
proof -
  show r1: "kernel_mem_reaches km_start (demo_km [] [] [])"
    by (rule kernel_mem_reaches.further [OF kernel_mem_reaches.here kernel_mem_step.gossip_answered [OF _ _ demo_km_gossip]])
      (simp_all add: km_eval)
  have "process_add \<lparr>add_memory_number = 2, add_consistency = STRONG_CONSISTENCY\<rparr> (demo_km [] [] []) = Inr (demo_km [2] [] [], [])"
    by (simp add: km_eval)
  note r2 = kernel_mem_reaches.further [OF r1 kernel_mem_step.add [OF _ this]]
  have "process_add \<lparr>add_memory_number = 1, add_consistency = STRONG_HASH_CONSISTENCY\<rparr> (demo_km [2] [] []) = Inr (demo_km [2] [1] [], [])"
    by (simp add: km_eval)
  note r3 = kernel_mem_reaches.further [OF r2 kernel_mem_step.add [OF _ this]]
  have "process_add \<lparr>add_memory_number = 2, add_consistency = EVENTUAL_CONSISTENCY\<rparr> (demo_km [2] [1] []) = Inr (demo_km [2] [1] [2], [])"
    by (simp add: km_eval)
  note r4 = kernel_mem_reaches.further [OF r3 kernel_mem_step.add [OF _ this]]
  have "process_add \<lparr>add_memory_number = 1, add_consistency = EVENTUAL_CONSISTENCY\<rparr> (demo_km [2] [1] [2]) = Inr (demo_km [2] [1] [2, 1], [])"
    by (simp add: km_eval)
  note r5 = kernel_mem_reaches.further [OF r4 kernel_mem_step.add [OF _ this]]
  show "kernel_mem_reaches km_start (demo_km [2] [1] [2, 1])" by (rule r5) simp_all
qed

section \<open>Properties\<close>

text \<open>
  C31. As long as no memory has the number -1, which stands for the memory of the configuration file until it answers (neither an ADD nor a table
  that is received names it): whatever is added, answered, lost and journaled, in every state the kernel can reach the SC
  criterion has at most one memory, no criterion holds a memory twice, and every memory in a
  criterion is allocated, known and alive; adding another one neither crashes nor breaks this. (An answer to a request sent for a memory that
  was released in between crashes at once, \<open>second_first_answer_crashes\<close>, and leads to no state.) An ADD of -1, which the console lets
  through, breaks it: \<open>add_minus_one_crashes\<close>.
\<close>

theorem kernel_criteria_ok:
  assumes "kernel_mem_reaches (init_gossiping ip port now (init_memory_list st0)) st"
  shows "length (g_memories_added_sc st) \<le> 1 \<and> distinct (g_memories_added_shc st) \<and> distinct (g_memories_added_ec st) \<and>
    (\<forall>p \<in> set (g_memories_added_sc st) \<union> set (g_memories_added_shc st) \<union> set (g_memories_added_ec st).
       p \<in> set (g_memories st) \<and> (\<exists>m. k_heap st p = Some m \<and> mem_alive m)) \<and>
    (\<forall>input. add_memory_number input \<noteq> -1 \<longrightarrow> process_add input st = Inl Blocked \<or> (\<exists>r. process_add input st = Inr r))"
proof -
  have ok: "km_ok st" using km_ok_reaches [OF assms km_ok_init] .
  have "p \<in> set (g_memories st) \<and> (\<exists>m. k_heap st p = Some m \<and> mem_alive m)" if "criterion_ok {} st ps" "p \<in> set ps" for p ps
    using that km_inv_live(1) [OF ok] by (fastforce simp: criterion_ok_def live_def m_at_def)
  moreover have "process_add input st = Inl Blocked \<or> (\<exists>r. process_add input st = Inr r)" if "add_memory_number input \<noteq> -1" for input
    using process_add_cases [OF ok that] by blast
  ultimately show ?thesis using ok unfolding km_inv_def by (auto simp: criterion_ok_def)
qed

theorem kernel_criteria_ok_witness:
  "\<exists>m. k_heap (demo_km [2] [1] [2, 1]) 2 = Some m \<and> mem_alive m"
  using kernel_criteria_ok [OF demo_km_reached(2)] by (simp add: demo_km_def)

text \<open>
  ADD MEMORY 4294967295 TO SC: the console accepts the number, and as an \<open>int\<close> it is -1. The placeholder of the memory of the configuration is added to the criterion, the first
  answer to a gossip releases it, and the next ADD reads it.
\<close>

theorem add_minus_one_crashes:
  assumes "mem_id m \<noteq> -1" "mem_alive m" "string_equals_ignore_case cm ''TO'' ''TO''" "is_consistency cm ''SC''"
  shows "validate_add cm [''ADD'', ''MEMORY'', ''4294967295'', ''TO'', ''SC''] \<and> string_to_int ''4294967295'' = -1 \<and>
    (\<exists>st1 st2. process_add \<lparr>add_memory_number = -1, add_consistency = STRONG_CONSISTENCY\<rparr> (init_gossiping ip port now (init_memory_list st0)) = Inr (st1, []) \<and>
       post_gossip now' (Some [m]) (k_fresh st0) st1 = Inr (st2, []) \<and>
       process_add \<lparr>add_memory_number = mem_id m, add_consistency = STRONG_CONSISTENCY\<rparr> st2 = Inl Freed)"
proof -
  have d: "''4294967295'' = dec_int 4294967295" by (simp add: dec_int_def dec_nat.simps) code_simp
  have n: "is_number_in ''4294967295'' 0 LONG_MAX" unfolding d by (simp add: fits_long_def LONG_MAX_def)
  have "string_to_long ''4294967295'' = 4294967295" unfolding d by (simp add: fits_long_def)
  then have i: "string_to_int ''4294967295'' = -1"
    by (simp add: string_to_int_def int_cast_def signed_take_bit_eq_take_bit_shift take_bit_eq_mod)
  have "process_add \<lparr>add_memory_number = -1, add_consistency = STRONG_CONSISTENCY\<rparr> (init_gossiping ip port now (init_memory_list st0)) =
      Inr ((init_gossiping ip port now (init_memory_list st0))\<lparr>g_memories_added_sc := [k_fresh st0]\<rparr>, [])"
    by (simp add: km_eval)
  moreover have "\<exists>st2. post_gossip now' (Some [m]) (k_fresh st0) ((init_gossiping ip port now (init_memory_list st0))\<lparr>g_memories_added_sc := [k_fresh st0]\<rparr>) = Inr (st2, []) \<and>
      process_add \<lparr>add_memory_number = mem_id m, add_consistency = STRONG_CONSISTENCY\<rparr> st2 = Inl Freed"
    using assms(1,2) by (simp add: km_eval)
  ultimately show ?thesis using n i assms(3,4) by (simp add: validate_add_def)
qed

text \<open>
  The choice of a memory in a reachable state: SC uses its one memory, SHC sends a key always to
  the memory at the position key mod n of the criterion's n memories, and the memory chosen is alive.
\<close>

theorem kernel_choice:
  assumes "kernel_mem_reaches (init_gossiping ip port now (init_memory_list st0)) st"
    "g_memories_added_sc st \<noteq> []" "g_memories_added_shc st \<noteq> []"
  shows "\<exists>p q m n. get_any_sc_memory st = Inr (Some p) \<and> g_memories_added_sc st = [p] \<and> k_heap st p = Some m \<and> mem_alive m \<and>
    get_any_shc_memory key st = Inr (Some q) \<and> q = g_memories_added_shc st ! (unat key mod length (g_memories_added_shc st)) \<and>
    k_heap st q = Some n \<and> mem_alive n"
proof -
  have ok: "km_ok st" using km_ok_reaches [OF assms(1) km_ok_init] .
  obtain p where p: "g_memories_added_sc st = [p]" using ok assms(2) unfolding km_inv_def by (cases "g_memories_added_sc st") auto
  let ?q = "g_memories_added_shc st ! (unat key mod length (g_memories_added_shc st))"
  have q: "?q \<in> set (g_memories_added_shc st)" using assms(3) by simp
  have alive: "\<exists>m. k_heap st r = Some m \<and> mem_alive m" if "criterion_ok {} st ps" "r \<in> set ps" for r ps
    using that km_inv_live(1) [OF ok] by (fastforce simp: criterion_ok_def live_def m_at_def)
  have "criterion_ok {} st (g_memories_added_sc st)" "criterion_ok {} st (g_memories_added_shc st)" using ok by (auto simp: km_inv_def)
  from alive [OF this(1), of p] alive [OF this(2) q] p
  show ?thesis using get_any_sc_memory_ok [OF ok] get_any_shc_memory_ok [OF ok assms(3), of key] by auto
qed

theorem kernel_choice_witness:
  "get_any_sc_memory (demo_km [2] [1] [2, 1]) = Inr (Some 2) \<and> get_any_shc_memory 7 (demo_km [2] [1] [2, 1]) = Inr (Some 1)"
  using kernel_choice [OF demo_km_reached(2), of 7] by (auto simp: demo_km_def)

text \<open>
  C32. EC is round robin: from any reachable state, as many calls as there are EC memories return each
  of them exactly once, in the order of the criterion from some position on.
\<close>

theorem ec_round_robin:
  assumes "kernel_mem_reaches (init_gossiping ip port now (init_memory_list st0)) st" "g_memories_added_ec st \<noteq> []"
  shows "\<exists>k st'. ec_calls (length (g_memories_added_ec st)) st = Inr (map Some (rotate k (g_memories_added_ec st)), st')"
proof -
  have ok: "km_ok st" using km_ok_reaches [OF assms(1) km_ok_init] .
  let ?ec = "g_memories_added_ec st" and ?l = "length (g_memories_added_ec st)"
  let ?n = "ec_after (ec_next st) ?l"
  have n: "?n < ?l" using assms(2) by (simp add: ec_after_less)
  obtain m where m: "?l = Suc m" using assms(2) by (cases ?ec) auto
  have call: "get_any_ec_memory st = Inr (Some (?ec ! ?n), st\<lparr>ec_next := int ?n\<rparr>)"
    using get_any_ec_memory_ok [OF ok assms(2)] by (simp add: Let_def)
  have "km_ok (st\<lparr>ec_next := int ?n\<rparr>)" using km_ok_ec_next [OF ok] by simp
  then obtain st' where "ec_calls m (st\<lparr>ec_next := int ?n\<rparr>) = Inr (map (\<lambda>j. Some (?ec ! ((?n + 1 + j) mod ?l))) [0..<m], st')"
    using ec_calls_from [of "st\<lparr>ec_next := int ?n\<rparr>" ?n m] assms(2) n by auto
  with call have "ec_calls ?l st = Inr (Some (?ec ! ?n) # map (\<lambda>j. Some (?ec ! ((?n + 1 + j) mod ?l))) [0..<m], st')"
    by (simp add: m)
  moreover have "map Some (rotate ?n ?ec) = Some (?ec ! ?n) # map (\<lambda>j. Some (?ec ! ((?n + 1 + j) mod ?l))) [0..<m]"
    by (rule nth_equalityI) (use n m in \<open>auto simp: nth_rotate nth_Cons' add_ac\<close>)
  ultimately have "ec_calls ?l st = Inr (map Some (rotate ?n ?ec), st')" by (simp only:)
  then show ?thesis by blast
qed

theorem ec_round_robin_witness:
  "\<exists>k st'. ec_calls 2 (demo_km [2] [1] [2, 1]) = Inr (map Some (rotate k [2, 1]), st')"
proof -
  have ec: "g_memories_added_ec (demo_km [2] [1] [2, 1]) = [2, 1]" by (simp add: demo_km_def)
  show ?thesis
    using ec_round_robin [OF demo_km_reached(2), unfolded ec] by (simp del: ec_calls.simps add: numeral_2_eq_2)
qed

text \<open>
  C33. A JOURNAL in a reachable state where some memory has a criterion sends one request to each such
  memory, to none twice; if the answers are handled one after the other the callback runs exactly
  once, with the last of them, with -1 if any memory failed or did not answer and 0 otherwise, and the
  semaphore is given back. (Answers that are handled at the same time can call back twice: \<open>journal_callback_twice\<close>.)
\<close>

theorem kernel_journal_once:
  assumes "kernel_mem_reaches (init_gossiping ip port now (init_memory_list st0)) st" "0 < g_journal_semaphore st"
    "get_list_with_a_consistency st = mems" "mems \<noteq> []" "length answers = length mems"
  shows "\<exists>st1 st2. journaling False (Some cb) pcb st = Inr (st1, map (\<lambda>p. journal_request pcb (m_at st p)) mems) \<and> distinct mems \<and>
    set mems = set (g_memories_added_sc st) \<union> set (g_memories_added_shc st) \<union> set (g_memories_added_ec st) \<and>
    journal_answers answers pcb st1 =
      (st2, [Call_Journal_Callback cb (if \<exists>a \<in> set answers. a = None \<or> a = Some (-1) then -1 else 0) pcb]) \<and>
    g_journal_semaphore st2 = g_journal_semaphore st"
proof -
  have ok: "km_ok st" using km_ok_reaches [OF assms(1) km_ok_init] .
  obtain st1 where st1: "journaling False (Some cb) pcb st = Inr (st1, map (\<lambda>p. journal_request pcb (m_at st p)) mems)"
    "g_journal_semaphore st1 = g_journal_semaphore st - 1" "g_journal_callback st1 = Some cb" "g_journal_result st1 = 0"
    "g_journal_actual st1 = 0" "g_journal_expected st1 = int (length mems)"
    using journaling_requests [OF ok assms(2,3,4), of "Some cb" pcb] by auto
  have ne: "answers \<noteq> []" using assms(4,5) by auto
  obtain st2 where "journal_answers answers pcb st1 = (st2, journal_call (Some cb) (\<exists>r \<in> set answers. journal_failed r) pcb)"
    "g_journal_semaphore st2 = g_journal_semaphore st"
    using journal_answers_all [of st1 answers pcb, OF _ ne] st1 assms(5) by auto
  moreover have "distinct mems" "set mems = set (g_memories_added_sc st) \<union> set (g_memories_added_shc st) \<union> set (g_memories_added_ec st)"
    using journal_list [of st] assms(3) by auto
  ultimately show ?thesis using st1(1) by (auto simp: journal_call_def journal_failed_def)
qed

theorem kernel_journal_once_witness:
  "\<exists>st1 st2. journaling False (Some On_Journal) (Some 5) (demo_km [2] [1] [2, 1]) =
      Inr (st1, [journal_request (Some 5) (rec_of 2 True), journal_request (Some 5) (rec_of 1 True)]) \<and>
    journal_answers [Some 0, None] (Some 5) st1 = (st2, [Call_Journal_Callback On_Journal (-1) (Some 5)]) \<and> g_journal_semaphore st2 = 1"
proof -
  have mems: "get_list_with_a_consistency (demo_km [2] [1] [2, 1]) = [2, 1]" by (simp add: get_list_with_a_consistency_def demo_km_def)
  have sem: "0 < g_journal_semaphore (demo_km [2] [1] [2, 1])" by (simp add: demo_km_def)
  show ?thesis
    using kernel_journal_once [OF demo_km_reached(2) sem mems, of "[Some 0, None]" On_Journal "Some 5"]
    by (auto simp: demo_km_def m_at_def)
qed

text \<open>
  The counter of a journaling is incremented under a semaphore but compared outside it: when the
  last two answers are both counted before either is checked, both find the journaling complete, the
  callback runs twice and the semaphore is posted twice, so two later journalings overlap.
\<close>

theorem journal_callback_twice:
  assumes "g_journal_actual st + 2 = g_journal_expected st" "g_journal_callback st = Some cb" "g_journal_result st = 0"
    "a \<noteq> None" "a \<noteq> Some (-1)" "b \<noteq> None" "b \<noteq> Some (-1)"
    "check_journal_answer a pcb (count_journal_answer (count_journal_answer st)) = (st1, ev1)"
    "check_journal_answer b pcb st1 = (st2, ev2)"
  shows "ev1 @ ev2 = [Call_Journal_Callback cb 0 pcb, Call_Journal_Callback cb 0 pcb] \<and> g_journal_semaphore st2 = g_journal_semaphore st + 2"
  using assms by (auto simp: check_journal_answer_def count_journal_answer_def Let_def)

theorem journal_callback_twice_witness:
  "\<exists>st1 st2 ev1 ev2. check_journal_answer (Some 0) (Some 5) (count_journal_answer (count_journal_answer
      ((demo_km [2] [1] [2, 1])\<lparr>g_journal_semaphore := 0, g_journal_expected := 2, g_journal_callback := Some On_Journal\<rparr>))) = (st1, ev1) \<and>
    check_journal_answer (Some 0) (Some 5) st1 = (st2, ev2) \<and>
    ev1 @ ev2 = [Call_Journal_Callback On_Journal 0 (Some 5), Call_Journal_Callback On_Journal 0 (Some 5)] \<and> g_journal_semaphore st2 = 2"
proof -
  let ?st = "(demo_km [2] [1] [2, 1])\<lparr>g_journal_semaphore := 0, g_journal_expected := 2, g_journal_callback := Some On_Journal\<rparr>"
  obtain st1 ev1 where 1: "check_journal_answer (Some 0) (Some 5) (count_journal_answer (count_journal_answer ?st)) = (st1, ev1)" by fastforce
  obtain st2 ev2 where 2: "check_journal_answer (Some 0) (Some 5) st1 = (st2, ev2)" by fastforce
  have "ev1 @ ev2 = [Call_Journal_Callback On_Journal 0 (Some 5), Call_Journal_Callback On_Journal 0 (Some 5)] \<and>
      g_journal_semaphore st2 = g_journal_semaphore ?st + 2"
    by (rule journal_callback_twice [OF _ _ _ _ _ _ _ 1 2]) (simp_all add: demo_km_def)
  then show ?thesis using 1 2 by auto
qed

text \<open>
  A memory that does not answer the kernel's gossip leaves every criterion and is marked dead with
  the current time; the only other outcome is that the call waits for a journaling that is under way.
\<close>

theorem failed_gossip_removes:
  assumes "kernel_mem_reaches (init_gossiping ip port now0 (init_memory_list st0)) st" "p \<in> set (g_memories st)"
  shows "post_gossip now None p st = Inl Blocked \<or>
    (\<exists>st' ev m. post_gossip now None p st = Inr (st', ev) \<and> g_memories st' = g_memories st \<and>
       p \<notin> set (g_memories_added_sc st') \<union> set (g_memories_added_shc st') \<union> set (g_memories_added_ec st') \<and>
       k_heap st' p = Some m \<and> \<not> mem_alive m \<and> mem_timestamp m = now)"
proof -
  have ok: "km_ok st" using km_ok_reaches [OF assms(1) km_ok_init] .
  show ?thesis
  proof (cases "post_gossip now None p st = Inl Blocked")
    case False
    then obtain st' ev where st': "post_gossip now None p st = Inr (st', ev)" "km_ok st'" "g_memories st' = g_memories st"
      "p \<notin> set (g_memories_added_sc st') \<union> set (g_memories_added_shc st') \<union> set (g_memories_added_ec st')"
      "m_at st' p = (m_at st p)\<lparr>mem_alive := False, mem_timestamp := now\<rparr>"
      using mark_dead_cases [OF ok assms(2), of now] post_gossip_failed [OF ok assms(2)] by auto
    have "k_heap st' p \<noteq> None" using km_inv_live(1) [OF st'(2)] st'(3) assms(2) by (simp add: live_def)
    then have "k_heap st' p = Some (m_at st' p)" by (auto simp: m_at_def)
    with st' show ?thesis by auto
  qed simp
qed

theorem failed_gossip_removes_witness:
  "\<exists>st' ev. post_gossip 8 None 2 (demo_km [2] [1] [2, 1]) = Inr (st', ev) \<and> 2 \<notin> set (g_memories_added_ec st')"
proof -
  have "post_gossip 8 None 2 (demo_km [2] [1] [2, 1]) \<noteq> Inl Blocked"
    by (simp add: km_eval remove_memory_def store_def)
  moreover have "2 \<in> set (g_memories (demo_km [2] [1] [2, 1]))" by (simp add: demo_km_def)
  ultimately show ?thesis using failed_gossip_removes [OF demo_km_reached(2), of 2 8] by blast
qed

text \<open>
  Before its first answer the kernel knows only a placeholder with the identifier -1. The first
  answer frees it; if a second request had been sent by then, its answer uses the freed structure.
\<close>

theorem second_first_answer_crashes:
  assumes "st = init_gossiping ip port now (init_memory_list st0)"
    "post_gossip now1 (Some received) (hd (g_memories st)) st = Inr (st1, ev)"
  shows "post_gossip now2 result (hd (g_memories st)) st1 = Inl Freed"
proof -
  have "id_at st (hd (g_memories st)) = -1" "hd (g_memories st) < k_fresh st"
    using assms(1) by (simp_all add: init_gossiping_def malloc_memory_def m_at_def)
  from post_gossip_placeholder_freed [OF assms(2) this] show ?thesis by (simp add: post_gossip_def load_def freed_def)
qed

theorem second_first_answer_crashes_witness:
  "post_gossip 2 (Some [rec_of 1 True]) 0 (demo_km [] [] []) = Inl Freed"
proof -
  have "hd (g_memories km_start) = 0" by (simp add: km_eval)
  then show ?thesis
    using second_first_answer_crashes [of km_start, OF refl, of 1 "[rec_of 1 True, rec_of 2 True]" "demo_km [] [] []" "[]"] demo_km_gossip by simp
qed

section \<open>Table metadata\<close>

definition demo_md :: "string \<Rightarrow> consistency_t \<Rightarrow> table_metadata_t" where
  "demo_md t c = \<lparr>md_table_name = t, md_consistency = c, md_partitions = 1, md_compaction_time = 60\<rparr>"

lemma demo_upper: "map upc ''Ab'' = ''AB''" "map upc ''ab'' = ''AB''" "map upc ''C'' = ''C''" "map upc ''c'' = ''C''"
  by code_simp+

text \<open>
  C34. The kernel's metadata is a map from table names, compared ignoring case: the update after a
  CREATE sets the entry of the created table and no other, the one after a DROP removes exactly the
  entry of the dropped table, the periodic DESCRIBE leaves exactly what it received; names stay
  distinct, and a consistency is found exactly for the tables of the map.
\<close>

theorem metadata_refines_map:
  assumes "commons_api cm" "meta_ok l"
  shows "\<exists>created dropped. on_describe_update_triggered cm (the (on_post_create input)) l = Inr created \<and> meta_ok created \<and>
    (\<forall>t. get_consistency_from_table cm created t =
       (if map upc t = map upc (cre_table_name input) then Some (cre_consistency input) else get_consistency_from_table cm l t)) \<and>
    on_describe_update_triggered cm (the (on_post_drop garbage dinput)) l = Inr dropped \<and> meta_ok dropped \<and>
    (\<forall>t. table_exists_in_metadata cm dropped t \<longleftrightarrow> table_exists_in_metadata cm l t \<and> map upc t \<noteq> map upc (drp_table_name dinput)) \<and>
    on_describe_update_triggered cm (the (update_descriptions_callback (Some received))) l = Inr received"
proof -
  note c = commons_api.upsert_spec [OF assms] and d = commons_api.delete_spec [OF assms] and look = commons_api.lookup_spec [OF assms(1)]
  let ?m = "\<lparr>md_table_name = cre_table_name input, md_consistency = cre_consistency input, md_partitions = cre_partitions input, md_compaction_time = cre_compaction_time input\<rparr>"
  let ?g = "garbage\<lparr>md_table_name := drp_table_name dinput\<rparr>"
  obtain created where created: "on_describe_update_triggered cm (the (on_post_create input)) l = Inr created" "meta_ok created"
    "meta_view created = (meta_view l)(upper ?m \<mapsto> ?m)"
    using c [of ?m "[]"] by (auto simp: on_post_create_def on_post_describe_def)
  obtain dropped where dropped: "on_describe_update_triggered cm (the (on_post_drop garbage dinput)) l = Inr dropped" "meta_ok dropped"
    "meta_view dropped = (meta_view l)(upper ?g := None)"
    using d [of ?g "[]"] by (auto simp: on_post_drop_def on_post_describe_def)
  have "on_describe_update_triggered cm (the (update_descriptions_callback (Some received))) l = Inr received"
    by (simp add: update_descriptions_callback_def on_post_describe_def on_describe_update_triggered_def)
  then show ?thesis using created dropped by (simp add: look upper_def)
qed

theorem metadata_refines_map_witness:
  "\<exists>created. on_describe_update_triggered std_commons (the (on_post_create
       \<lparr>cre_table_name = ''ab'', cre_consistency = STRONG_CONSISTENCY, cre_partitions = 2, cre_compaction_time = 60\<rparr>))
       [demo_md ''Ab'' EVENTUAL_CONSISTENCY] = Inr created \<and>
     get_consistency_from_table std_commons created ''Ab'' = Some STRONG_CONSISTENCY"
proof -
  have "meta_ok [demo_md ''Ab'' EVENTUAL_CONSISTENCY]" by (simp add: meta_ok_def)
  from metadata_refines_map [OF std.commons_api_axioms this,
      of "\<lparr>cre_table_name = ''ab'', cre_consistency = STRONG_CONSISTENCY, cre_partitions = 2, cre_compaction_time = 60\<rparr>"
        "demo_md ''C'' EVENTUAL_CONSISTENCY" "\<lparr>drp_table_name = ''C''\<rparr>" "[]"]
  obtain created where "on_describe_update_triggered std_commons (the (on_post_create
       \<lparr>cre_table_name = ''ab'', cre_consistency = STRONG_CONSISTENCY, cre_partitions = 2, cre_compaction_time = 60\<rparr>))
       [demo_md ''Ab'' EVENTUAL_CONSISTENCY] = Inr created"
    "\<forall>t. get_consistency_from_table std_commons created t = (if map upc t = map upc ''ab'' then Some STRONG_CONSISTENCY
       else get_consistency_from_table std_commons [demo_md ''Ab'' EVENTUAL_CONSISTENCY] t)"
    by auto
  then show ?thesis using demo_upper by metis
qed

text \<open>
  The answer to a DESCRIBE of all tables is taken for the answer to a DESCRIBE of one table when it
  has exactly one entry: the update only sets that entry, and every other table the kernel knew stays
  in its metadata although it no longer exists.
\<close>

theorem describe_one_table_keeps_stale:
  assumes "commons_api cm" "meta_ok l" "table_exists_in_metadata cm l t" "map upc t \<noteq> map upc (md_table_name m)"
  shows "\<exists>l'. on_describe_update_triggered cm (the (on_describe_answer (Some [m]))) l = Inr l' \<and> table_exists_in_metadata cm l' t"
proof -
  obtain l' where "on_describe_update_triggered cm \<lparr>upd_metadata_list = [m], upd_single = True, upd_upsert = True\<rparr> l = Inr l'"
    "meta_view l' = (meta_view l)(upper m \<mapsto> m)"
    using commons_api.upsert_spec [OF assms(1,2), of m "[]"] by blast
  then show ?thesis
    using assms(3,4) by (auto simp: on_describe_answer_def on_post_describe_def commons_api.lookup_spec [OF assms(1)] upper_def)
qed

theorem describe_one_table_keeps_stale_witness:
  "\<exists>l'. on_describe_update_triggered std_commons (the (on_describe_answer (Some [demo_md ''C'' STRONG_CONSISTENCY])))
      [demo_md ''Ab'' EVENTUAL_CONSISTENCY] = Inr l' \<and> table_exists_in_metadata std_commons l' ''ab''"
proof (rule describe_one_table_keeps_stale [OF std.commons_api_axioms])
  show "meta_ok [demo_md ''Ab'' EVENTUAL_CONSISTENCY]" by (simp add: meta_ok_def)
  show "table_exists_in_metadata std_commons [demo_md ''Ab'' EVENTUAL_CONSISTENCY] ''ab''"
    using demo_upper by (simp add: table_exists_in_metadata_def std_commons_def demo_md_def del: list.map)
  show "map upc ''ab'' \<noteq> map upc (md_table_name (demo_md ''C'' STRONG_CONSISTENCY))"
    unfolding demo_md_def table_metadata_t.simps demo_upper by simp
qed

section \<open>Statistics\<close>

text \<open>
  The metrics drop the events older than 30 seconds, and only those, and forget no request: the
  total of every memory is the one before, and the requests reported for the memories add up to the
  reported total, so their percentages add up to 100 when there is any request.
\<close>

theorem metrics_count_every_request:
  assumes "mset (sort_memories compare_mems_by_id memories) = mset memories" "process_metrics sort_memories now memories st = (st', report)"
  shows "g_stats_events st' = filter (\<lambda>e. \<bar>ev_timestamp_end e - now\<bar> \<le> 30000) (g_stats_events st) \<and>
    (\<forall>i. get_total_requests st' i = get_total_requests st i) \<and>
    (\<forall>(i, requests, total) \<in> set (rep_memories report). requests = get_total_requests st i \<and>
       total = sum_list (map (\<lambda>(_, requests, _). requests) (rep_memories report)))"
proof -
  let ?mems = "sort_memories compare_mems_by_id memories"
  have st': "st' = clear_old_stats now st"
    and rep: "rep_memories report = map (\<lambda>m. (mem_id m, get_total_requests st' (mem_id m), get_total_requests_overall st' memories)) ?mems"
    using assms(2) by (auto simp: process_metrics_def Let_def)
  have "g_stats_events st' = filter (\<lambda>e. \<bar>ev_timestamp_end e - now\<bar> \<le> 30000) (g_stats_events st)"
    unfolding st' clear_old_stats_events by (rule filter_cong) (auto simp: is_old_def timelimit_def timestamp_difference_abs)
  moreover have tot: "\<forall>i. get_total_requests st' i = get_total_requests st i" by (simp add: st' clear_old_stats_total)
  moreover have "get_total_requests_overall st' memories = sum_list (map (\<lambda>(_, requests, _). requests) (rep_memories report))"
  proof -
    have "sum_list (map (\<lambda>m. get_total_requests st' (mem_id m)) ?mems) = sum_list (map (\<lambda>m. get_total_requests st' (mem_id m)) memories)"
    proof -
      have "mset (map (\<lambda>m. get_total_requests st' (mem_id m)) ?mems) = mset (map (\<lambda>m. get_total_requests st' (mem_id m)) memories)"
        using assms(1) by simp
      then show ?thesis unfolding sum_mset_sum_list [symmetric] by (rule arg_cong)
    qed
    then show ?thesis by (simp add: get_total_requests_overall_def foldl_sum rep comp_def)
  qed
  ultimately show ?thesis using rep by auto
qed

theorem metrics_count_every_request_witness:
  "\<exists>st' report. process_metrics (\<lambda>_ l. l) 40000 [rec_of 1 True]
      \<lparr>g_stats_events = [\<lparr>ev_timestamp_start = 0, ev_timestamp_end = 5, ev_memory = 1, ev_event_type = SELECT_EVENT, ev_consistency = None\<rparr>],
       g_historic_infos = []\<rparr> = (st', report) \<and> g_stats_events st' = [] \<and> get_total_requests st' 1 = 1"
proof -
  let ?st = "\<lparr>g_stats_events = [\<lparr>ev_timestamp_start = 0, ev_timestamp_end = 5, ev_memory = 1, ev_event_type = SELECT_EVENT, ev_consistency = None\<rparr>],
       g_historic_infos = []\<rparr>"
  obtain st' report where r: "process_metrics (\<lambda>_ l. l) 40000 [rec_of 1 True] ?st = (st', report)" by fastforce
  have "get_total_requests ?st 1 = 1" by (simp add: get_total_requests_eq get_historic_requests_def)
  then show ?thesis using metrics_count_every_request [OF refl r] r by simp
qed

text \<open>
  The latency reported for a criterion and a kind of operation is the average duration of its
  events of the last 30 seconds, rounded down: it lies between the shortest and the longest of them,
  and is 0 when there is none.
\<close>

theorem latency_is_average:
  assumes "\<forall>e \<in> set (g_stats_events st). 0 \<le> lo \<and> lo \<le> \<bar>ev_timestamp_end e - ev_timestamp_start e\<bar> \<and>
      \<bar>ev_timestamp_end e - ev_timestamp_start e\<bar> \<le> hi" "fits_int hi"
  shows "if get_operation_count st c t = 0 then get_operation_latency st c t = 0
    else lo \<le> get_operation_latency st c t \<and> get_operation_latency st c t \<le> hi"
proof (cases "matching c t st = []")
  case True
  then show ?thesis by (simp add: get_operation_count_eq get_operation_latency_eq)
next
  case False
  let ?ds = "map duration (matching c t st)"
  have ds: "\<forall>d \<in> set ?ds. lo \<le> d \<and> d \<le> hi" "0 \<le> lo"
    using assms(1) False by (auto simp: matching_def duration_def neq_Nil_conv filter_eq_Cons_iff)
  have b: "lo \<le> sum_list ?ds div int (length ?ds)" "sum_list ?ds div int (length ?ds) \<le> hi"
    using average_bounds [of ?ds lo hi] ds(1) False by auto
  then have "fits_int (sum_list ?ds div int (length ?ds))" using assms(2) ds(2) by (auto simp: fits_int_def)
  then show ?thesis using b False by (simp add: get_operation_count_eq get_operation_latency_eq int_cast_fits)
qed

theorem latency_is_average_witness:
  "get_operation_latency \<lparr>g_stats_events = [\<lparr>ev_timestamp_start = 0, ev_timestamp_end = 5, ev_memory = 1,
      ev_event_type = SELECT_EVENT, ev_consistency = Some STRONG_CONSISTENCY\<rparr>], g_historic_infos = []\<rparr> STRONG_CONSISTENCY SELECT_EVENT = 5"
  using latency_is_average [of "\<lparr>g_stats_events = [\<lparr>ev_timestamp_start = 0, ev_timestamp_end = 5, ev_memory = 1,
      ev_event_type = SELECT_EVENT, ev_consistency = Some STRONG_CONSISTENCY\<rparr>], g_historic_infos = []\<rparr>" 5 5 STRONG_CONSISTENCY SELECT_EVENT]
  by (simp add: fits_int_def get_operation_count_eq matching_def)

end
