(* ===== verification/Kernel_Sched.thy ===== *)
theory Kernel_Sched
  imports Kernel_Memories Kernel_Describer Kernel_Stats Console
begin

text \<open>
  The scheduler of the kernel: \<open>scheduler.c\<close>, \<open>long_term_scheduler.c\<close>, \<open>short_term_scheduler.c\<close> and the
  operations of \<open>kernel/src/core/operations.c\<close> that create processes. The queues hold pointers to
  \<open>pcb_t\<close> structures, so these live in a heap; a semaphore is its value, and a loop that waits on one is
  a function of one iteration, which is \<open>Blocked\<close> while the value is 0.
\<close>

section \<open>Processes and queues\<close>

datatype t_state = NEW | READY | EXEC | EXIT

record statement_t =
  stm_operation :: operation_t
  stm_select_input :: "select_input_t option"
  stm_insert_input :: "insert_input_t option"
  stm_create_input :: "create_input_t option"
  stm_describe_input :: "describe_input_t option"
  stm_drop_input :: "drop_input_t option"
  stm_semaphore :: int
  stm_assigned_memory :: "addr option"

record pcb_t =
  pcb_process_id :: int
  pcb_state :: t_state
  pcb_program_counter :: nat
  pcb_quantum :: int
  pcb_statements :: "statement_t list"
  pcb_errors :: bool
  pcb_recently_ready :: bool
  pcb_recently_exec :: bool
  pcb_processor :: nat
  pcb_last_execution_stats :: stats_t

record sched_state =
  s_pcbs :: "addr \<Rightarrow> pcb_t option"
  s_next :: addr
  q_new :: "addr list"
  q_ready :: "addr list"
  q_exit :: "addr list"
  q_exec :: "addr option list"
  exec_semaphores_init :: "int list"
  exec_semaphores :: "int list"
  pcbs_to_ready :: "addr option list"
  g_lts_semaphore :: int
  g_sts_semaphore :: int
  g_inner_scheduler_semaphore :: int
  g_process_ids :: "int list"

definition setup_scheduler_queues :: "nat \<Rightarrow> sched_state" where
  \<comment> \<open>with what \<open>short_term_schedule\<close> and \<open>long_term_schedule\<close> initialise before their loops\<close>
  "setup_scheduler_queues multiprocessing =
     \<lparr>s_pcbs = (\<lambda>_. None), s_next = 0, q_new = [], q_ready = [], q_exit = [], q_exec = replicate multiprocessing None,
      exec_semaphores_init = replicate multiprocessing 0, exec_semaphores = replicate multiprocessing 0,
      pcbs_to_ready = replicate multiprocessing None, g_lts_semaphore = 0, g_sts_semaphore = 0, g_inner_scheduler_semaphore = 1,
      g_process_ids = []\<rparr>"

definition pcb_load :: "sched_state \<Rightarrow> addr \<Rightarrow> pcb_t result" where
  "pcb_load s p = (case s_pcbs s p of None \<Rightarrow> Inl Freed | Some pcb \<Rightarrow> Inr pcb)"

definition pcb_update :: "addr \<Rightarrow> (pcb_t \<Rightarrow> pcb_t) \<Rightarrow> sched_state \<Rightarrow> sched_state" where
  "pcb_update p f s = s\<lparr>s_pcbs := (s_pcbs s)(p := map_option f (s_pcbs s p))\<rparr>"

definition get_new_pcb :: "pcb_t \<Rightarrow> sched_state \<Rightarrow> addr \<times> sched_state" where
  \<comment> \<open>\<open>garbage\<close> is what the allocated memory holds: the quantum, the processor and the statistics are not assigned\<close>
  "get_new_pcb garbage s =
     (let (process_id, ids) = generate_pid (g_process_ids s);
          pcb = garbage\<lparr>pcb_process_id := process_id, pcb_state := NEW, pcb_program_counter := 0, pcb_errors := False,
                        pcb_statements := [], pcb_recently_ready := False, pcb_recently_exec := False\<rparr>
      in (s_next s, s\<lparr>s_pcbs := (s_pcbs s)(s_next s \<mapsto> pcb), s_next := Suc (s_next s), g_process_ids := ids\<rparr>))"

definition delete_pcb :: "addr \<Rightarrow> sched_state \<Rightarrow> sched_state result" where
  "delete_pcb p s = rbind (pcb_load s p) (\<lambda>pcb.
     Inr (s\<lparr>g_process_ids := remove_pid (pcb_process_id pcb) (g_process_ids s), s_pcbs := (s_pcbs s)(p := None)\<rparr>))"

definition generate_statement :: statement_t where
  "generate_statement = \<lparr>stm_operation = INVALID, stm_select_input = None, stm_insert_input = None, stm_create_input = None,
     stm_describe_input = None, stm_drop_input = None, stm_semaphore = 0, stm_assigned_memory = None\<rparr>"

section \<open>Creating processes\<close>

definition add_to_new :: "addr \<Rightarrow> sched_state \<Rightarrow> sched_state" where
  \<comment> \<open>\<open>list_add(g_scheduler_queues.new, pcb); sem_post(&g_lts_semaphore)\<close>\<close>
  "add_to_new p s = s\<lparr>q_new := q_new s @ [p], g_lts_semaphore := g_lts_semaphore s + 1\<rparr>"

definition submit :: "pcb_t \<Rightarrow> statement_t list \<Rightarrow> sched_state \<Rightarrow> sched_state" where
  "submit garbage statements s =
     (let (p, s1) = get_new_pcb garbage s
      in add_to_new p (pcb_update p (\<lambda>pcb. pcb\<lparr>pcb_statements := pcb_statements pcb @ statements\<rparr>) s1))"

definition process_select :: "pcb_t \<Rightarrow> select_input_t \<Rightarrow> sched_state \<Rightarrow> sched_state" where
  "process_select garbage input = submit garbage [generate_statement\<lparr>stm_operation := SELECT, stm_select_input := Some input\<rparr>]"

definition process_insert :: "pcb_t \<Rightarrow> insert_input_t \<Rightarrow> sched_state \<Rightarrow> sched_state" where
  "process_insert garbage input = submit garbage [generate_statement\<lparr>stm_operation := INSERT, stm_insert_input := Some input\<rparr>]"

definition process_create :: "pcb_t \<Rightarrow> create_input_t \<Rightarrow> sched_state \<Rightarrow> sched_state" where
  "process_create garbage input = submit garbage [generate_statement\<lparr>stm_operation := CREATE, stm_create_input := Some input\<rparr>]"

definition process_describe :: "pcb_t \<Rightarrow> describe_input_t \<Rightarrow> sched_state \<Rightarrow> sched_state" where
  "process_describe garbage input = submit garbage [generate_statement\<lparr>stm_operation := DESCRIBE, stm_describe_input := Some input\<rparr>]"

definition process_drop :: "pcb_t \<Rightarrow> drop_input_t \<Rightarrow> sched_state \<Rightarrow> sched_state" where
  "process_drop garbage input = submit garbage [generate_statement\<lparr>stm_operation := DROP, stm_drop_input := Some input\<rparr>]"

definition process_journal :: "pcb_t \<Rightarrow> sched_state \<Rightarrow> sched_state" where
  "process_journal garbage = submit garbage [generate_statement\<lparr>stm_operation := JOURNAL\<rparr>]"

text \<open>
  Scripts. \<open>get_file_lines\<close> of \<open>lib/utils/file.c\<close> overwrites the last character \<open>getline\<close> returned, which
  is the newline except in a last line that has none. A script that runs itself recurs without end, so
  the recursion has fuel, the depth of the call stack.
\<close>

function file_lines :: "string \<Rightarrow> string list" where
  "file_lines content =
     (if content = [] then []
      else let n = Suc (length (takeWhile (\<lambda>c. c \<noteq> CHR 0x0A) content))
        in cstr (butlast (take n content)) # file_lines (drop n content))"
  by pat_completeness auto
termination
  by (relation "measure length") (auto simp: Let_def neq_Nil_conv)

declare file_lines.simps [simp del]

definition get_file_lines :: "(string \<Rightarrow> string option) \<Rightarrow> string \<Rightarrow> string list option" where
  \<comment> \<open>\<open>files\<close> is the content of the files that can be opened\<close>
  "get_file_lines files path = map_option file_lines (files path)"

definition statement_of :: "commons \<Rightarrow> operation_t \<Rightarrow> string list \<Rightarrow> statement_t result" where
  "statement_of cm operation tokens =
     (let statement = generate_statement\<lparr>stm_operation := operation\<rparr>
      in case operation of
           SELECT \<Rightarrow> rbind (token tokens 1) (\<lambda>t1. rbind (token tokens 2) (\<lambda>t2.
             Inr (statement\<lparr>stm_select_input := Some \<lparr>sel_table_name = t1, sel_key = string_to_uint16 t2\<rparr>\<rparr>)))
         | INSERT \<Rightarrow> rbind (token tokens 1) (\<lambda>t1. rbind (token tokens 2) (\<lambda>t2. rbind (token tokens 3) (\<lambda>t3.
             rbind (if length tokens = 5 then rbind (token tokens 4) (\<lambda>t4. Inr (string_to_long_long t4)) else Inr (-1)) (\<lambda>ts.
             Inr (statement\<lparr>stm_insert_input := Some \<lparr>ins_table_name = t1, ins_key = string_to_uint16 t2, ins_value = t3, ins_timestamp = ts\<rparr>\<rparr>)))))
         | CREATE \<Rightarrow> rbind (token tokens 1) (\<lambda>t1. rbind (token tokens 2) (\<lambda>t2. rbind (token tokens 3) (\<lambda>t3. rbind (token tokens 4) (\<lambda>t4.
             Inr (statement\<lparr>stm_create_input := Some \<lparr>cre_table_name = t1, cre_consistency = consistency_of_token cm t2,
               cre_partitions = string_to_int t3, cre_compaction_time = string_to_long t4\<rparr>\<rparr>)))))
         | DESCRIBE \<Rightarrow> rbind (if length tokens = 2 then rbind (token tokens 1) (\<lambda>t1. Inr (Some t1)) else Inr None) (\<lambda>t.
             Inr (statement\<lparr>stm_describe_input := Some \<lparr>des_table_name = t\<rparr>\<rparr>))
         | DROP \<Rightarrow> rbind (token tokens 1) (\<lambda>t1. Inr (statement\<lparr>stm_drop_input := Some \<lparr>drp_table_name = t1\<rparr>\<rparr>))
         | _ \<Rightarrow> Inr statement)"

definition add_statement ::
  "(run_input_t \<Rightarrow> statement_t list \<Rightarrow> (bool \<times> statement_t list) result) \<Rightarrow> commons \<Rightarrow> statement_t list \<Rightarrow> operation_t \<Rightarrow> string \<Rightarrow>
   statement_t list result" where
  \<comment> \<open>\<open>inner\<close> is \<open>on_inner_run_request\<close>, whose result is not looked at\<close>
  "add_statement inner cm statements operation command =
     (let tokens = string_split_ignore_quotes cm command
      in if operation = RUN then
           rbind (token tokens 1) (\<lambda>t1. rbind (inner \<lparr>run_path = t1\<rparr> statements) (\<lambda>(success, statements'). Inr statements'))
         else rbind (statement_of cm operation tokens) (\<lambda>statement. Inr (statements @ [statement])))"

fun run_lines ::
  "(run_input_t \<Rightarrow> statement_t list \<Rightarrow> (bool \<times> statement_t list) result) \<Rightarrow> commons \<Rightarrow> statement_t list \<Rightarrow> string list \<Rightarrow>
   (bool \<times> statement_t list) result" where
  "run_lines inner cm statements [] = Inr (True, statements)"
| "run_lines inner cm statements (command # commands) =
     (let operation = get_operation cm command
      in if operation = INVALID \<or> \<not> operation_allowed operation KERNEL \<or> \<not> validate_input cm operation command then Inr (False, statements)
         else if operation \<noteq> RUN \<and> operation > JOURNAL then Inr (False, statements)
         else rbind (add_statement inner cm statements operation command) (\<lambda>statements'. run_lines inner cm statements' commands))"

primrec on_inner_run_request ::
  "nat \<Rightarrow> commons \<Rightarrow> (string \<Rightarrow> string option) \<Rightarrow> run_input_t \<Rightarrow> statement_t list \<Rightarrow> (bool \<times> statement_t list) result" where
  "on_inner_run_request 0 = (\<lambda>cm files input statements. Inl Never_Returns)"
| "on_inner_run_request (Suc depth) = (\<lambda>cm files input statements.
     case get_file_lines files (run_path input) of
       None \<Rightarrow> Inr (False, statements)
     | Some lines \<Rightarrow> if lines = [] then Inr (False, statements)
         else run_lines (on_inner_run_request depth cm files) cm statements lines)"

definition process_run :: "nat \<Rightarrow> commons \<Rightarrow> (string \<Rightarrow> string option) \<Rightarrow> pcb_t \<Rightarrow> run_input_t \<Rightarrow> sched_state \<Rightarrow> sched_state result" where
  "process_run depth cm files garbage input s =
     (let (p, s1) = get_new_pcb garbage s
      in rbind (on_inner_run_request depth cm files input []) (\<lambda>(success, statements).
         let s2 = pcb_update p (\<lambda>pcb. pcb\<lparr>pcb_statements := statements\<rparr>) s1
         in if \<not> success then delete_pcb p s2 else Inr (add_to_new p s2)))"

section \<open>The schedulers\<close>

definition sem_post_neg_value :: "int \<Rightarrow> int" where
  "sem_post_neg_value v = (if v \<le> 0 then v + 1 else v)"

definition sts_post_neg :: "sched_state \<Rightarrow> sched_state" where
  "sts_post_neg s = s\<lparr>g_sts_semaphore := sem_post_neg_value (g_sts_semaphore s)\<rparr>"

definition sem_post_at :: "int list \<Rightarrow> nat \<Rightarrow> int list result" where
  \<comment> \<open>\<open>sem_post(list_get(semaphores, i))\<close>\<close>
  "sem_post_at sems i = (if i < length sems then Inr (sems[i := sems ! i + 1]) else Inl Null_Pointer)"

definition sem_wait_at :: "int list \<Rightarrow> nat \<Rightarrow> int list result" where
  "sem_wait_at sems i = (if i < length sems then (if sems ! i > 0 then Inr (sems[i := sems ! i - 1]) else Inl Blocked) else Inl Null_Pointer)"

fun forget_ready :: "addr \<Rightarrow> addr option list \<Rightarrow> addr option list" where
  \<comment> \<open>the first entry that is \<open>pcb\<close> becomes \<open>NULL\<close>\<close>
  "forget_ready p [] = []"
| "forget_ready p (x # xs) = (if x = Some p then None # xs else x # forget_ready p xs)"

text \<open>
  The bodies of the three loops, as the sequence of the statements that write what the threads share. A body first reads (the
  queues, and the process it is about) and decides which statements follow. The body of the short-term scheduler, and the
  branch of the long-term one that deletes a process, hold \<open>g_inner_scheduler_semaphore\<close>; an executor takes no lock, so that its
  body can be interrupted between any two of its statements.
\<close>

type_synonym part = "sched_state \<Rightarrow> sched_state result"

primrec run_parts :: "part list \<Rightarrow> part" where
  "run_parts [] s = Inr s"
| "run_parts (f # fs) s = rbind (f s) (run_parts fs)"

definition interrupted :: "nat \<Rightarrow> part list \<Rightarrow> part \<Rightarrow> part" where
  \<comment> \<open>a thread runs \<open>parts\<close>, and another one its whole body after the first \<open>k\<close> of them\<close>
  "interrupted k parts other s = rbind (run_parts (take k parts) s) (\<lambda>s1. rbind (other s1) (run_parts (drop k parts)))"

definition set_pcb :: "addr \<Rightarrow> (pcb_t \<Rightarrow> pcb_t) \<Rightarrow> part" where
  \<comment> \<open>an assignment to a field of \<open>*pcb\<close>\<close>
  "set_pcb p f s = rbind (pcb_load s p) (\<lambda>_. Inr (pcb_update p f s))"

definition exec_get :: "nat \<Rightarrow> sched_state \<Rightarrow> addr option" where
  \<comment> \<open>\<open>list_get(g_scheduler_queues.exec, i)\<close>\<close>
  "exec_get i s = (if i < length (q_exec s) then q_exec s ! i else None)"

definition exec_remove :: "nat \<Rightarrow> part" where
  \<comment> \<open>\<open>list_remove(g_scheduler_queues.exec, i)\<close>: the positions behind \<open>i\<close> move\<close>
  "exec_remove i s = (if i < length (q_exec s) then Inr (s\<lparr>q_exec := take i (q_exec s) @ drop (Suc i) (q_exec s)\<rparr>) else Inl Out_Of_Bounds)"

definition exec_add :: "nat \<Rightarrow> addr option \<Rightarrow> part" where
  \<comment> \<open>\<open>list_add_in_index(g_scheduler_queues.exec, i, x)\<close>\<close>
  "exec_add i x s = (if i \<le> length (q_exec s) then Inr (s\<lparr>q_exec := take i (q_exec s) @ x # drop i (q_exec s)\<rparr>) else Inl Out_Of_Bounds)"

definition ready_add :: "addr \<Rightarrow> part" where
  "ready_add p s = Inr (s\<lparr>q_ready := q_ready s @ [p]\<rparr>)"

definition ready_remove :: part where
  "ready_remove s = Inr (s\<lparr>q_ready := tl (q_ready s)\<rparr>)"

definition new_remove :: part where
  "new_remove s = Inr (s\<lparr>q_new := tl (q_new s)\<rparr>)"

definition exit_add :: "addr \<Rightarrow> part" where
  "exit_add p s = Inr (s\<lparr>q_exit := q_exit s @ [p]\<rparr>)"

definition exit_remove :: part where
  "exit_remove s = Inr (s\<lparr>q_exit := tl (q_exit s)\<rparr>)"

definition to_ready_replace :: "nat \<Rightarrow> addr option \<Rightarrow> part" where
  \<comment> \<open>\<open>list_replace(__pcbs_to_ready, i, x)\<close>\<close>
  "to_ready_replace i x s = Inr (s\<lparr>pcbs_to_ready := (pcbs_to_ready s)[i := x]\<rparr>)"

definition to_ready_forget :: "addr \<Rightarrow> part" where
  "to_ready_forget p s = Inr (s\<lparr>pcbs_to_ready := forget_ready p (pcbs_to_ready s)\<rparr>)"

definition post_sts :: part where
  "post_sts s = Inr (sts_post_neg s)"

definition post_lts :: part where
  "post_lts s = Inr (s\<lparr>g_lts_semaphore := g_lts_semaphore s + 1\<rparr>)"

definition post_init :: "nat \<Rightarrow> part" where
  "post_init i s = rbind (sem_post_at (exec_semaphores_init s) i) (\<lambda>sems. Inr (s\<lparr>exec_semaphores_init := sems\<rparr>))"

definition inner_wait :: part where
  \<comment> \<open>\<open>sem_wait(&g_inner_scheduler_semaphore)\<close>\<close>
  "inner_wait s = (if g_inner_scheduler_semaphore s > 0 then Inr (s\<lparr>g_inner_scheduler_semaphore := g_inner_scheduler_semaphore s - 1\<rparr>) else Inl Blocked)"

definition inner_post :: part where
  "inner_post s = Inr (s\<lparr>g_inner_scheduler_semaphore := g_inner_scheduler_semaphore s + 1\<rparr>)"

definition lts_parts :: "sched_state \<Rightarrow> part list" where
  "lts_parts s =
     (case q_new s of
        p # _ \<Rightarrow> [set_pcb p (\<lambda>pcb. pcb\<lparr>pcb_state := READY\<rparr>), new_remove, ready_add p, post_sts]
      | [] \<Rightarrow> (case q_exit s of
          p # _ \<Rightarrow> [inner_wait, exit_remove, to_ready_forget p, delete_pcb p, inner_post]
        | [] \<Rightarrow> []))"

definition long_term_schedule :: part where
  \<comment> \<open>one iteration\<close>
  "long_term_schedule s =
     (if g_lts_semaphore s \<le> 0 then Inl Blocked
      else let s1 = s\<lparr>g_lts_semaphore := g_lts_semaphore s - 1\<rparr> in run_parts (lts_parts s1) s1)"

definition slot_parts :: "nat \<Rightarrow> sched_state \<Rightarrow> part list result" where
  "slot_parts i s =
     (case exec_get i s of
        None \<Rightarrow>
          (case q_ready s of
             [] \<Rightarrow> Inr []
           | p # _ \<Rightarrow> rbind (pcb_load s p) (\<lambda>pcb.
               if \<not> pcb_recently_ready pcb then
                 Inr [ready_remove, exec_remove i, exec_add i (Some p), set_pcb p (\<lambda>pcb. pcb\<lparr>pcb_state := EXEC\<rparr>),
                      set_pcb p (\<lambda>pcb. pcb\<lparr>pcb_quantum := 0\<rparr>), set_pcb p (\<lambda>pcb. pcb\<lparr>pcb_recently_exec := True\<rparr>), post_sts]
               else Inr []))
      | Some p \<Rightarrow> rbind (pcb_load s p) (\<lambda>pcb.
          if pcb_recently_exec pcb then
            Inr [set_pcb p (\<lambda>pcb. pcb\<lparr>pcb_processor := i\<rparr>), post_init i, set_pcb p (\<lambda>pcb. pcb\<lparr>pcb_quantum := pcb_quantum pcb + 1\<rparr>),
                 set_pcb p (\<lambda>pcb. pcb\<lparr>pcb_recently_exec := False\<rparr>)]
          else Inr []))"

definition sts_slot :: "nat \<Rightarrow> part" where
  \<comment> \<open>the body of the loop over the processors in \<open>short_term_schedule\<close>\<close>
  "sts_slot i s = rbind (inner_wait s) (\<lambda>s1. rbind (slot_parts i s1) (\<lambda>parts. rbind (run_parts parts s1) inner_post))"

fun sts_sweep :: "nat \<Rightarrow> sched_state \<Rightarrow> sched_state result" where
  \<comment> \<open>the loop over \<open>__pcbs_to_ready\<close>, for the positions below the argument\<close>
  "sts_sweep 0 s = Inr s"
| "sts_sweep (Suc i) s =
     rbind (sts_sweep i s) (\<lambda>s1.
     case pcbs_to_ready s1 ! i of
       None \<Rightarrow> Inr s1
     | Some p \<Rightarrow> rbind (pcb_load s1 p) (\<lambda>pcb.
         if pcb_recently_ready pcb then
           Inr (sts_post_neg (pcb_update p (\<lambda>pcb. pcb\<lparr>pcb_recently_ready := False\<rparr>) s1\<lparr>pcbs_to_ready := (pcbs_to_ready s1)[i := None]\<rparr>))
         else Inr s1))"

definition check_parts :: "int \<Rightarrow> nat \<Rightarrow> addr \<Rightarrow> pcb_t \<Rightarrow> part list" where
  "check_parts quantum i p pcb =
     (if pcb_program_counter pcb \<ge> length (pcb_statements pcb) then
        [exec_remove i, exit_add p, exec_add i None, set_pcb p (\<lambda>pcb. pcb\<lparr>pcb_state := EXIT\<rparr>), to_ready_replace i None, post_lts, post_sts]
      else if pcb_quantum pcb \<ge> quantum then
        [exec_remove i, ready_add p, to_ready_replace i (Some p), set_pcb p (\<lambda>pcb. pcb\<lparr>pcb_state := READY\<rparr>),
         set_pcb p (\<lambda>pcb. pcb\<lparr>pcb_recently_ready := True\<rparr>), exec_add i None, post_sts]
      else
        [set_pcb p (\<lambda>pcb. pcb\<lparr>pcb_processor := i\<rparr>), post_init i, set_pcb p (\<lambda>pcb. pcb\<lparr>pcb_quantum := pcb_quantum pcb + 1\<rparr>)])"

definition planifier_check :: "int \<Rightarrow> nat \<Rightarrow> part" where
  \<comment> \<open>the part of \<open>planifier_execute\<close> after \<open>sem_wait(semaphore_exec)\<close>\<close>
  "planifier_check quantum i s =
     (case exec_get i s of
        None \<Rightarrow> Inl Null_Pointer
      | Some p \<Rightarrow> rbind (pcb_load s p) (\<lambda>pcb. run_parts (check_parts quantum i p pcb) s))"

section \<open>A body that is not interrupted\<close>

lemmas part_defs = set_pcb_def exec_remove_def exec_add_def ready_add_def ready_remove_def new_remove_def exit_add_def exit_remove_def
  to_ready_replace_def to_ready_forget_def post_sts_def post_lts_def post_init_def inner_wait_def inner_post_def

lemma list_put_back: "i < length xs \<Longrightarrow> take i (take i xs @ drop (Suc i) xs) @ x # drop i (take i xs @ drop (Suc i) xs) = xs[i := x]"
  by (simp add: upd_conv_take_nth_drop min_def)

lemma planifier_check_whole:
  assumes "i < length (q_exec s)"
  shows "planifier_check quantum i s =
     (case q_exec s ! i of
        None \<Rightarrow> Inl Null_Pointer
      | Some p \<Rightarrow> rbind (pcb_load s p) (\<lambda>pcb.
          if pcb_program_counter pcb \<ge> length (pcb_statements pcb) then
            Inr (sts_post_neg (pcb_update p (\<lambda>pcb. pcb\<lparr>pcb_state := EXIT\<rparr>)
              s\<lparr>q_exec := (q_exec s)[i := None], q_exit := q_exit s @ [p], pcbs_to_ready := (pcbs_to_ready s)[i := None],
                g_lts_semaphore := g_lts_semaphore s + 1\<rparr>))
          else if pcb_quantum pcb \<ge> quantum then
            Inr (sts_post_neg (pcb_update p (\<lambda>pcb. pcb\<lparr>pcb_state := READY, pcb_recently_ready := True\<rparr>)
              s\<lparr>q_exec := (q_exec s)[i := None], q_ready := q_ready s @ [p], pcbs_to_ready := (pcbs_to_ready s)[i := Some p]\<rparr>))
          else rbind (sem_post_at (exec_semaphores_init s) i) (\<lambda>sems.
            Inr (pcb_update p (\<lambda>pcb. pcb\<lparr>pcb_processor := i, pcb_quantum := pcb_quantum pcb + 1\<rparr>) s\<lparr>exec_semaphores_init := sems\<rparr>))))"
  using assms list_put_back [OF assms]
  by (auto simp: planifier_check_def exec_get_def check_parts_def part_defs pcb_load_def pcb_update_def sts_post_neg_def sem_post_at_def split: option.split)

lemma sts_slot_lock: "sts_slot i s = Inr s' \<Longrightarrow> 0 < g_inner_scheduler_semaphore s"
  by (auto simp: sts_slot_def inner_wait_def split: if_splits)

lemma sts_slot_whole:
  assumes "i < length (q_exec s)" "0 < g_inner_scheduler_semaphore s"
  shows "sts_slot i s =
     (case q_exec s ! i of
        None \<Rightarrow>
          (case q_ready s of
             [] \<Rightarrow> Inr s
           | p # ps \<Rightarrow> rbind (pcb_load s p) (\<lambda>pcb.
               if \<not> pcb_recently_ready pcb then
                 Inr (sts_post_neg (pcb_update p (\<lambda>pcb. pcb\<lparr>pcb_state := EXEC, pcb_quantum := 0, pcb_recently_exec := True\<rparr>)
                        s\<lparr>q_ready := ps, q_exec := (q_exec s)[i := Some p]\<rparr>))
               else Inr s))
      | Some p \<Rightarrow> rbind (pcb_load s p) (\<lambda>pcb.
          if pcb_recently_exec pcb then
            rbind (sem_post_at (exec_semaphores_init s) i) (\<lambda>sems.
            Inr (pcb_update p (\<lambda>pcb. pcb\<lparr>pcb_processor := i, pcb_quantum := pcb_quantum pcb + 1, pcb_recently_exec := False\<rparr>)
                   s\<lparr>exec_semaphores_init := sems\<rparr>))
          else Inr s))"
  using assms list_put_back [OF assms(1)]
  by (auto simp: sts_slot_def slot_parts_def exec_get_def part_defs pcb_load_def pcb_update_def sts_post_neg_def sem_post_at_def
      split: option.split list.split)

lemma long_term_schedule_lock:
  "long_term_schedule s = Inr s' \<Longrightarrow> q_new s = [] \<and> q_exit s \<noteq> [] \<longrightarrow> 0 < g_inner_scheduler_semaphore s"
  by (auto simp: long_term_schedule_def lts_parts_def inner_wait_def neq_Nil_conv Let_def split: if_splits)

lemma long_term_schedule_whole:
  assumes "q_new s = [] \<and> q_exit s \<noteq> [] \<longrightarrow> 0 < g_inner_scheduler_semaphore s"
  shows "long_term_schedule s =
     (if g_lts_semaphore s \<le> 0 then Inl Blocked
      else let s1 = s\<lparr>g_lts_semaphore := g_lts_semaphore s - 1\<rparr>
        in case q_new s1 of
             p # ps \<Rightarrow> rbind (pcb_load s1 p) (\<lambda>_.
               Inr (sts_post_neg (pcb_update p (\<lambda>pcb. pcb\<lparr>pcb_state := READY\<rparr>) s1\<lparr>q_new := ps, q_ready := q_ready s1 @ [p]\<rparr>)))
           | [] \<Rightarrow> (case q_exit s1 of
               p # ps \<Rightarrow> delete_pcb p (s1\<lparr>q_exit := ps, pcbs_to_ready := forget_ready p (pcbs_to_ready s1)\<rparr>)
             | [] \<Rightarrow> Inr s1))"
  using assms
  by (auto simp: long_term_schedule_def lts_parts_def part_defs delete_pcb_def pcb_load_def pcb_update_def sts_post_neg_def Let_def
      split: option.split list.split)

end
