(* ===== verification/Kernel_Exec.thy ===== *)
theory Kernel_Exec
  imports Kernel_Sched
begin

text \<open>
  Execution of statements: \<open>exec_next_statement\<close>, \<open>exec_remote\<close>, the callbacks \<open>on_select\<close> to \<open>on_journal\<close>
  and \<open>post_exec_statement\<close> of \<open>short_term_scheduler.c\<close>, on the state of the whole kernel. A callback gets
  the answer of the memory, \<open>None\<close> when the request failed. Log messages are left out.
\<close>

record kernel_state =
  ks_sched :: sched_state
  ks_mem :: kernel_memories
  ks_metadata :: "table_metadata_t list"
  ks_updates :: "update_metadata_args_t list"
  ks_stats :: stats_state

definition with_sched :: "(sched_state \<Rightarrow> sched_state result) \<Rightarrow> kernel_state \<Rightarrow> kernel_state result" where
  "with_sched f st = rbind (f (ks_sched st)) (\<lambda>s. Inr (st\<lparr>ks_sched := s\<rparr>))"

abbreviation upd_pcb :: "addr \<Rightarrow> (pcb_t \<Rightarrow> pcb_t) \<Rightarrow> kernel_state \<Rightarrow> kernel_state" where
  "upd_pcb p f st \<equiv> st\<lparr>ks_sched := pcb_update p f (ks_sched st)\<rparr>"

section \<open>The end of a statement\<close>

definition post_exec_processor :: "addr \<Rightarrow> sched_state \<Rightarrow> sched_state result" where
  \<comment> \<open>\<open>sem_post(list_get(g_scheduler_queues.exec_semaphores, pcb->processor))\<close>\<close>
  "post_exec_processor p s = rbind (pcb_load s p) (\<lambda>pcb.
     rbind (sem_post_at (exec_semaphores s) (pcb_processor pcb)) (\<lambda>sems. Inr (s\<lparr>exec_semaphores := sems\<rparr>)))"

definition cancel_process :: "addr \<Rightarrow> sched_state \<Rightarrow> sched_state result" where
  \<comment> \<open>the error exits of \<open>exec_remote\<close>\<close>
  "cancel_process p s =
     post_exec_processor p (pcb_update p (\<lambda>pcb. pcb\<lparr>pcb_errors := True, pcb_program_counter := length (pcb_statements pcb)\<rparr>) s)"

definition post_statement :: "nat \<Rightarrow> pcb_t \<Rightarrow> pcb_t" where
  \<comment> \<open>\<open>sem_post(current_statement->semaphore)\<close>\<close>
  "post_statement i pcb =
     pcb\<lparr>pcb_statements := (pcb_statements pcb)[i := (pcb_statements pcb ! i)\<lparr>stm_semaphore := stm_semaphore (pcb_statements pcb ! i) + 1\<rparr>]\<rparr>"

definition post_exec_statement :: "addr \<Rightarrow> nat \<Rightarrow> sched_state \<Rightarrow> sched_state result" where
  \<comment> \<open>\<open>current\<close> is the position of \<open>current_statement\<close>\<close>
  "post_exec_statement p current s = rbind (pcb_load s p) (\<lambda>pcb.
     if current \<ge> length (pcb_statements pcb) then Inl Null_Pointer
     else let pc = (if pcb_errors pcb then length (pcb_statements pcb) else pcb_program_counter pcb + 1)
       in post_exec_processor p (pcb_update p (\<lambda>pcb. post_statement current (pcb\<lparr>pcb_program_counter := pc\<rparr>)) s))"

definition add_event :: "int \<Rightarrow> addr \<Rightarrow> (stats_t \<Rightarrow> stats_t) \<Rightarrow> kernel_state \<Rightarrow> kernel_state result" where
  \<comment> \<open>the statistics of the process are completed, added to \<open>g_stats_events\<close> and the old events removed\<close>
  "add_event now p f st = rbind (pcb_load (ks_sched st) p) (\<lambda>pcb.
     let event = f (pcb_last_execution_stats pcb)
     in Inr (upd_pcb p (\<lambda>pcb. pcb\<lparr>pcb_last_execution_stats := event\<rparr>) st
          \<lparr>ks_stats := clear_old_stats now ((ks_stats st)\<lparr>g_stats_events := g_stats_events (ks_stats st) @ [event]\<rparr>)\<rparr>))"

section \<open>Starting a statement\<close>

definition network_request :: "statement_t \<Rightarrow> (socket_operation_t \<times> content \<times> int list \<times> kernel_callback) option result" where
  \<comment> \<open>the first \<open>switch\<close> of \<open>exec_remote\<close>; the other operations assign nothing\<close>
  "network_request statement =
     (case stm_operation statement of
        SELECT \<Rightarrow> (case stm_select_input statement of None \<Rightarrow> Inl Null_Pointer
          | Some i \<Rightarrow> Inr (Some (SELECT_IN, Select_Content i, elements_select_in_info i, On_Select)))
      | INSERT \<Rightarrow> (case stm_insert_input statement of None \<Rightarrow> Inl Null_Pointer
          | Some i \<Rightarrow> Inr (Some (INSERT_IN, Insert_Content i, elements_insert_in_info i, On_Insert)))
      | CREATE \<Rightarrow> (case stm_create_input statement of None \<Rightarrow> Inl Null_Pointer
          | Some i \<Rightarrow> Inr (Some (CREATE_IN, Create_Content i, elements_create_in_info i, On_Create)))
      | DESCRIBE \<Rightarrow> (case stm_describe_input statement of None \<Rightarrow> Inl Null_Pointer
          | Some i \<Rightarrow> Inr (Some (DESCRIBE_IN, Describe_Content i, elements_describe_in_info i, On_Describe)))
      | DROP \<Rightarrow> (case stm_drop_input statement of None \<Rightarrow> Inl Null_Pointer
          | Some i \<Rightarrow> Inr (Some (DROP_IN, Drop_Content i, elements_drop_in_info i, On_Drop)))
      | _ \<Rightarrow> Inr None)"

definition checked_table :: "statement_t \<Rightarrow> string option" where
  \<comment> \<open>the table that has to be in the metadata\<close>
  "checked_table statement =
     (case stm_operation statement of
        SELECT \<Rightarrow> map_option sel_table_name (stm_select_input statement)
      | INSERT \<Rightarrow> map_option ins_table_name (stm_insert_input statement)
      | DROP \<Rightarrow> map_option drp_table_name (stm_drop_input statement)
      | _ \<Rightarrow> None)"

definition statement_key :: "statement_t \<Rightarrow> u16" where
  "statement_key statement =
     (if stm_operation statement = SELECT then (case stm_select_input statement of Some i \<Rightarrow> sel_key i | None \<Rightarrow> 0)
      else (case stm_insert_input statement of Some i \<Rightarrow> ins_key i | None \<Rightarrow> 0))"

definition choose_memory :: "consistency_t \<Rightarrow> u16 \<Rightarrow> kernel_memories \<Rightarrow> (addr option \<times> kernel_memories) result" where
  \<comment> \<open>the \<open>switch\<close> over the consistency\<close>
  "choose_memory consistency key km =
     (case consistency of
        STRONG_CONSISTENCY \<Rightarrow> rbind (get_any_sc_memory km) (\<lambda>p. Inr (p, km))
      | STRONG_HASH_CONSISTENCY \<Rightarrow> rbind (get_any_shc_memory key km) (\<lambda>p. Inr (p, km))
      | EVENTUAL_CONSISTENCY \<Rightarrow> get_any_ec_memory km)"

definition send_statement ::
  "addr \<Rightarrow> nat \<Rightarrow> addr \<Rightarrow> (socket_operation_t \<times> content \<times> int list \<times> kernel_callback) option \<Rightarrow> kernel_state \<Rightarrow> kernel_state kstep" where
  \<comment> \<open>\<open>statement->assigned_memory = assigned_memory; do_simple_request(...)\<close>\<close>
  "send_statement p current memory request st =
     (case request of
        None \<Rightarrow> Inl Uninitialised
      | Some (operation, content, sizes, callback) \<Rightarrow>
          rbind (load (ks_mem st) memory) (\<lambda>m.
          Inr (upd_pcb p (\<lambda>pcb. pcb\<lparr>pcb_statements := (pcb_statements pcb)[current := (pcb_statements pcb ! current)\<lparr>stm_assigned_memory := Some memory\<rparr>]\<rparr>) st,
               [Request (mem_ip m) (mem_port m) operation content sizes callback (Some p)])))"

definition exec_data_statement ::
  "commons \<Rightarrow> int \<Rightarrow> addr \<Rightarrow> nat \<Rightarrow> statement_t \<Rightarrow> (socket_operation_t \<times> content \<times> int list \<times> kernel_callback) option \<Rightarrow> string \<Rightarrow>
   kernel_state \<Rightarrow> kernel_state kstep" where
  \<comment> \<open>a SELECT or INSERT whose table was in the metadata. Without it \<open>get_consistency_from_table\<close> returns -1, which
      is 255 in the byte of a \<open>consistency_t\<close>: the check for -1 is never true, no case of the \<open>switch\<close> applies and
      \<open>assigned_memory\<close> is read unset\<close>
  "exec_data_statement cm now p current statement request table_name st =
     (case get_consistency_from_table cm (ks_metadata st) table_name of
        None \<Rightarrow> Inl Uninitialised
      | Some consistency \<Rightarrow>
          rbind (choose_memory consistency (statement_key statement) (ks_mem st)) (\<lambda>(chosen, km).
          let st1 = st\<lparr>ks_mem := km\<rparr>
          in case chosen of
               None \<Rightarrow>
                 rbind (add_event now p (\<lambda>e. e\<lparr>ev_timestamp_end := now, ev_memory := -1, ev_consistency := Some consistency\<rparr>) st1) (\<lambda>st2.
                 rbind (with_sched (cancel_process p) st2) (\<lambda>st3. Inr (st3, [])))
             | Some memory \<Rightarrow>
                 rbind (load km memory) (\<lambda>m.
                 send_statement p current memory request
                   (upd_pcb p (\<lambda>pcb. pcb\<lparr>pcb_last_execution_stats :=
                      (pcb_last_execution_stats pcb)\<lparr>ev_memory := mem_id m, ev_consistency := Some consistency\<rparr>\<rparr>) st1))))"

definition exec_other_statement ::
  "int \<Rightarrow> addr \<Rightarrow> nat \<Rightarrow> (socket_operation_t \<times> content \<times> int list \<times> kernel_callback) option \<Rightarrow> kernel_state \<Rightarrow> kernel_state kstep" where
  \<comment> \<open>any other statement goes to a random memory\<close>
  "exec_other_statement random p current request st =
     rbind (get_any_memory random (ks_mem st)) (\<lambda>chosen.
     case chosen of
       None \<Rightarrow> rbind (with_sched (cancel_process p) st) (\<lambda>st1. Inr (st1, []))
     | Some memory \<Rightarrow> send_statement p current memory request st)"

definition on_journal :: "int \<Rightarrow> addr \<Rightarrow> kernel_state \<Rightarrow> kernel_state result" where
  "on_journal status p st = rbind (pcb_load (ks_sched st) p) (\<lambda>pcb.
     let current = pcb_program_counter pcb;
         st1 = (if status = -3 \<or> status = -1 then upd_pcb p (\<lambda>pcb. pcb\<lparr>pcb_errors := True\<rparr>) st else st)
     in with_sched (post_exec_statement p current) st1)"

fun run_journal_callbacks :: "kernel_event list \<Rightarrow> kernel_state \<Rightarrow> kernel_state kstep" where
  \<comment> \<open>the calls of \<open>g_journal_callback\<close> among the events are carried out, the requests stay\<close>
  "run_journal_callbacks [] st = Inr (st, [])"
| "run_journal_callbacks (Call_Journal_Callback cb status (Some p) # evs) st =
     rbind (on_journal status p st) (\<lambda>st1. run_journal_callbacks evs st1)"
| "run_journal_callbacks (ev # evs) st = rbind (run_journal_callbacks evs st) (\<lambda>(st1, evs1). Inr (st1, ev # evs1))"

definition exec_remote :: "commons \<Rightarrow> int \<Rightarrow> int \<Rightarrow> addr \<Rightarrow> nat \<Rightarrow> statement_t \<Rightarrow> kernel_state \<Rightarrow> kernel_state kstep" where
  \<comment> \<open>\<open>random\<close> is what \<open>random()\<close> returns, \<open>now\<close> the clock\<close>
  "exec_remote cm random now p current statement st =
     (if stm_operation statement = JOURNAL then
        rbind (journaling False (Some On_Journal) (Some p) (ks_mem st)) (\<lambda>(km, evs). run_journal_callbacks evs (st\<lparr>ks_mem := km\<rparr>))
      else rbind (network_request statement) (\<lambda>request.
        case checked_table statement of
          Some table_name \<Rightarrow>
            if \<not> table_exists_in_metadata cm (ks_metadata st) table_name then
              rbind (if stm_operation statement \<le> INSERT then add_event now p (\<lambda>e. e\<lparr>ev_timestamp_end := now\<rparr>) st else Inr st) (\<lambda>st1.
              rbind (with_sched (cancel_process p) st1) (\<lambda>st2. Inr (st2, [])))
            else if stm_operation statement = SELECT \<or> stm_operation statement = INSERT then
              exec_data_statement cm now p current statement request table_name st
            else exec_other_statement random p current request st
        | None \<Rightarrow> exec_other_statement random p current request st))"

definition exec_next_statement :: "commons \<Rightarrow> int \<Rightarrow> int \<Rightarrow> nat \<Rightarrow> kernel_state \<Rightarrow> kernel_state kstep" where
  "exec_next_statement cm random now processor st =
     (case q_exec (ks_sched st) ! processor of
        None \<Rightarrow> Inl Null_Pointer
      | Some p \<Rightarrow> rbind (pcb_load (ks_sched st) p) (\<lambda>pcb.
          if pcb_program_counter pcb \<ge> length (pcb_statements pcb) then Inl Null_Pointer
          else let current = pcb_program_counter pcb; statement = pcb_statements pcb ! current;
                   event = \<lparr>ev_timestamp_start = now, ev_timestamp_end = now, ev_memory = 0,
                            ev_event_type = (if stm_operation statement = SELECT then SELECT_EVENT else INSERT_EVENT), ev_consistency = None\<rparr>;
                   st1 = (if stm_operation statement \<le> INSERT then upd_pcb p (\<lambda>pcb. pcb\<lparr>pcb_last_execution_stats := event\<rparr>) st else st)
            in exec_remote cm random now p current statement st1))"

section \<open>The callbacks\<close>

definition lost_memory :: "int \<Rightarrow> addr \<Rightarrow> nat \<Rightarrow> kernel_state \<Rightarrow> kernel_state kstep" where
  \<comment> \<open>what every callback does when the request failed: the memory is dead and leaves the criteria, the process has an error\<close>
  "lost_memory now p current st = rbind (pcb_load (ks_sched st) p) (\<lambda>pcb.
     if current \<ge> length (pcb_statements pcb) then Inl Null_Pointer
     else case stm_assigned_memory (pcb_statements pcb ! current) of
       None \<Rightarrow> Inl Null_Pointer
     | Some memory \<Rightarrow> rbind (load (ks_mem st) memory) (\<lambda>m.
         rbind (remove_memory (mem_id m) (store memory (m\<lparr>mem_alive := False, mem_timestamp := now\<rparr>) (ks_mem st))) (\<lambda>(km, evs).
         Inr (upd_pcb p (\<lambda>pcb. pcb\<lparr>pcb_errors := True\<rparr>) (st\<lparr>ks_mem := km\<rparr>), evs))))"

definition process_failed :: "bool \<Rightarrow> addr \<Rightarrow> kernel_state \<Rightarrow> kernel_state" where
  "process_failed failed p st = (if failed then upd_pcb p (\<lambda>pcb. pcb\<lparr>pcb_errors := True\<rparr>) st else st)"

definition finish_statement :: "addr \<Rightarrow> nat \<Rightarrow> kernel_state kstep \<Rightarrow> kernel_state kstep" where
  "finish_statement p current r =
     rbind r (\<lambda>(st, evs). rbind (with_sched (post_exec_statement p current) st) (\<lambda>st1. Inr (st1, evs)))"

definition with_current :: "addr \<Rightarrow> kernel_state \<Rightarrow> (nat \<Rightarrow> kernel_state kstep) \<Rightarrow> kernel_state kstep" where
  \<comment> \<open>\<open>current_statement = list_get(pcb->statements, pcb->program_counter)\<close>\<close>
  "with_current p st f = rbind (pcb_load (ks_sched st) p) (\<lambda>pcb. f (pcb_program_counter pcb))"

definition measured :: "int \<Rightarrow> addr \<Rightarrow> kernel_state kstep \<Rightarrow> kernel_state kstep" where
  \<comment> \<open>the end of the event of a SELECT or INSERT\<close>
  "measured now p r = rbind r (\<lambda>(st, evs). rbind (add_event now p (\<lambda>e. e\<lparr>ev_timestamp_end := now\<rparr>) st) (\<lambda>st1. Inr (st1, evs)))"

definition on_select :: "int \<Rightarrow> record_t option \<Rightarrow> addr \<Rightarrow> kernel_state \<Rightarrow> kernel_state kstep" where
  "on_select now result p st = with_current p st (\<lambda>current.
     finish_statement p current (measured now p
       (case result of
          None \<Rightarrow> lost_memory now p current st
        | Some record \<Rightarrow> Inr (process_failed (rec_timestamp record \<in> {-4, -3, -2}) p st, []))))"

definition on_insert :: "int \<Rightarrow> int option \<Rightarrow> addr \<Rightarrow> kernel_state \<Rightarrow> kernel_state kstep" where
  "on_insert now result p st = with_current p st (\<lambda>current.
     finish_statement p current (measured now p
       (case result of
          None \<Rightarrow> lost_memory now p current st
        | Some status \<Rightarrow> Inr (process_failed (status = -4) p st, []))))"

definition with_update :: "update_metadata_args_t option \<Rightarrow> kernel_state \<Rightarrow> kernel_state" where
  \<comment> \<open>the thread that updates the metadata is started\<close>
  "with_update upd st = (case upd of None \<Rightarrow> st | Some args \<Rightarrow> st\<lparr>ks_updates := ks_updates st @ [args]\<rparr>)"

definition on_create :: "int \<Rightarrow> int option \<Rightarrow> addr \<Rightarrow> kernel_state \<Rightarrow> kernel_state kstep" where
  "on_create now result p st = with_current p st (\<lambda>current. rbind (pcb_load (ks_sched st) p) (\<lambda>pcb.
     finish_statement p current
       (case result of
          None \<Rightarrow> lost_memory now p current st
        | Some status \<Rightarrow>
            if status = -3 \<or> status = -2 \<or> status = -1 then Inr (process_failed True p st, [])
            else if current \<ge> length (pcb_statements pcb) then Inl Null_Pointer
            else (case stm_create_input (pcb_statements pcb ! current) of
                    None \<Rightarrow> Inl Null_Pointer
                  | Some input \<Rightarrow> Inr (with_update (on_post_create input) st, [])))))"

definition on_describe :: "int \<Rightarrow> table_metadata_t list option \<Rightarrow> addr \<Rightarrow> kernel_state \<Rightarrow> kernel_state kstep" where
  "on_describe now result p st = with_current p st (\<lambda>current.
     finish_statement p current
       (case result of
          None \<Rightarrow> lost_memory now p current st
        | Some metadata_list \<Rightarrow> Inr (with_update (on_describe_answer (Some metadata_list)) st, [])))"

definition on_drop :: "table_metadata_t \<Rightarrow> int \<Rightarrow> int option \<Rightarrow> addr \<Rightarrow> kernel_state \<Rightarrow> kernel_state kstep" where
  "on_drop garbage now result p st = with_current p st (\<lambda>current. rbind (pcb_load (ks_sched st) p) (\<lambda>pcb.
     finish_statement p current
       (case result of
          None \<Rightarrow> lost_memory now p current st
        | Some status \<Rightarrow>
            if status = -2 \<or> status = -1 then Inr (process_failed True p st, [])
            else if current \<ge> length (pcb_statements pcb) then Inl Null_Pointer
            else (case stm_drop_input (pcb_statements pcb ! current) of
                    None \<Rightarrow> Inl Null_Pointer
                  | Some input \<Rightarrow> Inr (with_update (on_post_drop garbage input) st, [])))))"

definition journal_answer :: "int option \<Rightarrow> addr option \<Rightarrow> kernel_state \<Rightarrow> kernel_state kstep" where
  \<comment> \<open>\<open>_local_journal_callback\<close> with the call of \<open>on_journal\<close> it may make\<close>
  "journal_answer result response st =
     (let (km, evs) = local_journal_callback result response (ks_mem st) in run_journal_callbacks evs (st\<lparr>ks_mem := km\<rparr>))"

end
