(* ===== verification/Sched_Threads.thy ===== *)
theory Sched_Threads
  imports Kernel_Exec
begin

text \<open>
  The threads of the scheduler as an interleaving of steps: the long-term scheduler, the short-term
  scheduler (which looks at one processor after the other and then clears the processes that came
  back), one executor for each processor, and the callbacks that answer the requests of the
  executors. A step is the whole body of a loop, from one wait to the next: the relation has every interleaving of bodies, but in it no
  body is interrupted by another one. The code enforces this only where \<open>g_inner_scheduler_semaphore\<close> is held; what can go wrong when
  an executor is interrupted is shown with \<open>process_in_one_queue\<close>. Each request is answered
  once: a JOURNAL may be answered twice (\<open>journal_callback_twice\<close>), which these steps leave out. The quantum is that of
  one reading of the configuration.
\<close>

section \<open>Steps\<close>

record threads =
  th_sched :: sched_state
  th_running :: "bool list"
  th_pos :: "nat option"

text \<open>
  \<open>th_running\<close>: the executor has taken its \<open>semaphore_init\<close> and waits for its \<open>semaphore_exec\<close>. \<open>th_pos\<close>: where
  the short-term scheduler is, \<open>None\<close> while it waits. What an executor or a callback writes to a process,
  its statements' semaphores, its statistics and its error flag, is any function that keeps the rest. An executor starts the
  next statement of its process; when there is none (a process can be created without statements) it dereferences a null pointer and
  there is no step.
\<close>

definition keeps :: "(pcb_t \<Rightarrow> pcb_t) \<Rightarrow> bool" where
  "keeps f \<longleftrightarrow> (\<forall>pcb. pcb_state (f pcb) = pcb_state pcb \<and> pcb_program_counter (f pcb) = pcb_program_counter pcb \<and>
     pcb_quantum (f pcb) = pcb_quantum pcb \<and> length (pcb_statements (f pcb)) = length (pcb_statements pcb) \<and>
     pcb_recently_ready (f pcb) = pcb_recently_ready pcb \<and> pcb_recently_exec (f pcb) = pcb_recently_exec pcb \<and>
     pcb_processor (f pcb) = pcb_processor pcb)"

inductive sched_step :: "int \<Rightarrow> threads \<Rightarrow> threads \<Rightarrow> bool" for quantum where
  submit: "sched_step quantum t (t\<lparr>th_sched := submit garbage statements (th_sched t)\<rparr>)"
| lts: "long_term_schedule (th_sched t) = Inr s' \<Longrightarrow> sched_step quantum t (t\<lparr>th_sched := s'\<rparr>)"
| sts_begin: "th_pos t = None \<Longrightarrow> 0 < g_sts_semaphore (th_sched t) \<Longrightarrow>
    sched_step quantum t (t\<lparr>th_sched := (th_sched t)\<lparr>g_sts_semaphore := g_sts_semaphore (th_sched t) - 1\<rparr>, th_pos := Some 0\<rparr>)"
| sts_slot: "th_pos t = Some i \<Longrightarrow> i < length (q_exec (th_sched t)) \<Longrightarrow> sts_slot i (th_sched t) = Inr s' \<Longrightarrow>
    sched_step quantum t (t\<lparr>th_sched := s', th_pos := Some (Suc i)\<rparr>)"
| sts_sweep: "th_pos t = Some (length (q_exec (th_sched t))) \<Longrightarrow> sts_sweep (length (pcbs_to_ready (th_sched t))) (th_sched t) = Inr s' \<Longrightarrow>
    sched_step quantum t (t\<lparr>th_sched := s', th_pos := None\<rparr>)"
| exec_cancel: "i < length (q_exec (th_sched t)) \<Longrightarrow> \<not> th_running t ! i \<Longrightarrow> sem_wait_at (exec_semaphores_init (th_sched t)) i = Inr sems \<Longrightarrow>
    q_exec (th_sched t) ! i = Some p \<Longrightarrow> s_pcbs (th_sched t) p = Some pcb \<Longrightarrow> pcb_program_counter pcb < length (pcb_statements pcb) \<Longrightarrow> keeps f \<Longrightarrow>
    cancel_process p (pcb_update p f ((th_sched t)\<lparr>exec_semaphores_init := sems\<rparr>)) = Inr s' \<Longrightarrow>
    sched_step quantum t (t\<lparr>th_sched := s', th_running := (th_running t)[i := True]\<rparr>)"
| exec_send: "i < length (q_exec (th_sched t)) \<Longrightarrow> \<not> th_running t ! i \<Longrightarrow> sem_wait_at (exec_semaphores_init (th_sched t)) i = Inr sems \<Longrightarrow>
    q_exec (th_sched t) ! i = Some p \<Longrightarrow> s_pcbs (th_sched t) p = Some pcb \<Longrightarrow> pcb_program_counter pcb < length (pcb_statements pcb) \<Longrightarrow> keeps f \<Longrightarrow>
    sched_step quantum t (t\<lparr>th_sched := pcb_update p f ((th_sched t)\<lparr>exec_semaphores_init := sems\<rparr>), th_running := (th_running t)[i := True]\<rparr>)"
| callback: "i < length (q_exec (th_sched t)) \<Longrightarrow> th_running t ! i \<Longrightarrow> exec_semaphores (th_sched t) ! i = 0 \<Longrightarrow>
    q_exec (th_sched t) ! i = Some p \<Longrightarrow> s_pcbs (th_sched t) p = Some pcb \<Longrightarrow> keeps f \<Longrightarrow>
    post_exec_statement p (pcb_program_counter pcb) (pcb_update p f (th_sched t)) = Inr s' \<Longrightarrow>
    sched_step quantum t (t\<lparr>th_sched := s'\<rparr>)"
| check: "i < length (q_exec (th_sched t)) \<Longrightarrow> th_running t ! i \<Longrightarrow> sem_wait_at (exec_semaphores (th_sched t)) i = Inr sems \<Longrightarrow>
    planifier_check quantum i ((th_sched t)\<lparr>exec_semaphores := sems\<rparr>) = Inr s' \<Longrightarrow>
    sched_step quantum t (t\<lparr>th_sched := s', th_running := (th_running t)[i := False]\<rparr>)"

inductive sched_reaches :: "int \<Rightarrow> threads \<Rightarrow> threads \<Rightarrow> bool" for quantum where
  here: "sched_reaches quantum t t"
| further: "sched_reaches quantum t t' \<Longrightarrow> sched_step quantum t' t'' \<Longrightarrow> sched_reaches quantum t t''"

definition threads_init :: "nat \<Rightarrow> threads" where
  "threads_init n = \<lparr>th_sched = setup_scheduler_queues n, th_running = replicate n False, th_pos = None\<rparr>"

section \<open>Helper facts\<close>

lemma s_pcbs_update [simp]: "s_pcbs (pcb_update p f s) q = (if q = p then map_option f (s_pcbs s p) else s_pcbs s q)"
  by (simp add: pcb_update_def)

lemma pcb_update_fields [simp]:
  "q_new (pcb_update p f s) = q_new s" "q_ready (pcb_update p f s) = q_ready s" "q_exit (pcb_update p f s) = q_exit s"
  "q_exec (pcb_update p f s) = q_exec s" "exec_semaphores_init (pcb_update p f s) = exec_semaphores_init s"
  "exec_semaphores (pcb_update p f s) = exec_semaphores s" "pcbs_to_ready (pcb_update p f s) = pcbs_to_ready s"
  "g_lts_semaphore (pcb_update p f s) = g_lts_semaphore s" "g_sts_semaphore (pcb_update p f s) = g_sts_semaphore s"
  "s_next (pcb_update p f s) = s_next s" "g_process_ids (pcb_update p f s) = g_process_ids s"
  by (simp_all add: pcb_update_def)

lemma sts_post_neg_fields [simp]:
  "q_new (sts_post_neg s) = q_new s" "q_ready (sts_post_neg s) = q_ready s" "q_exit (sts_post_neg s) = q_exit s"
  "q_exec (sts_post_neg s) = q_exec s" "exec_semaphores_init (sts_post_neg s) = exec_semaphores_init s"
  "exec_semaphores (sts_post_neg s) = exec_semaphores s" "pcbs_to_ready (sts_post_neg s) = pcbs_to_ready s"
  "g_lts_semaphore (sts_post_neg s) = g_lts_semaphore s" "s_pcbs (sts_post_neg s) = s_pcbs s" "s_next (sts_post_neg s) = s_next s"
  "g_sts_semaphore (sts_post_neg s) = (if g_sts_semaphore s \<le> 0 then g_sts_semaphore s + 1 else g_sts_semaphore s)"
  by (simp_all add: sts_post_neg_def sem_post_neg_value_def)

lemma pcb_load_Inr: "pcb_load s p = Inr pcb \<longleftrightarrow> s_pcbs s p = Some pcb"
  by (simp add: pcb_load_def split: option.splits)

lemma count_list_update:
  "i < length xs \<Longrightarrow> count_list (xs[i := y]) z + (if xs ! i = z then 1 else 0) = count_list xs z + (if y = z then 1 else 0)"
proof (induction xs arbitrary: i)
  case (Cons x xs)
  show ?case
  proof (cases i)
    case (Suc j)
    then show ?thesis using Cons.IH [of j] Cons.prems by (auto split: if_splits)
  qed simp
qed simp

lemma count_list_nth: "i < length xs \<Longrightarrow> xs ! i = z \<Longrightarrow> 0 < count_list xs z"
  by (metis count_list_0_iff gr0I nth_mem)

lemma count_list_unique:
  assumes "count_list xs z \<le> 1" "i < length xs" "j < length xs" "xs ! i = z" "xs ! j = z"
  shows "i = j"
  using assms
proof (induction xs arbitrary: i j)
  case (Cons x xs)
  show ?case
  proof (cases "x = z")
    case True
    then have "z \<notin> set xs" using Cons.prems(1) by (simp add: count_list_0_iff)
    then show ?thesis using Cons.prems by (cases i; cases j) (auto dest: nth_mem)
  next
    case False
    then obtain i' j' where "i = Suc i'" "j = Suc j'" using Cons.prems(4,5) by (cases i; cases j) auto
    then show ?thesis using Cons.IH [of i' j'] Cons.prems False by simp
  qed
qed simp

section \<open>The invariant\<close>

abbreviation pcb_at :: "threads \<Rightarrow> addr \<Rightarrow> pcb_t" where
  "pcb_at t p \<equiv> the (s_pcbs (th_sched t) p)"

definition places :: "sched_state \<Rightarrow> addr \<Rightarrow> nat" where
  \<comment> \<open>how often a process occurs in the queues\<close>
  "places s p = count_list (q_new s) p + count_list (q_ready s) p + count_list (q_exit s) p + count_list (q_exec s) (Some p)"

definition places_ok :: "threads \<Rightarrow> bool" where
  "places_ok t \<longleftrightarrow> (\<forall>p. places (th_sched t) p = (if s_pcbs (th_sched t) p = None then 0 else 1)) \<and>
     (\<forall>p. s_next (th_sched t) \<le> p \<longrightarrow> s_pcbs (th_sched t) p = None)"

definition unfinished :: "pcb_t \<Rightarrow> bool" where
  "unfinished pcb \<longleftrightarrow> pcb_program_counter pcb < length (pcb_statements pcb)"

definition runnable :: "pcb_t \<Rightarrow> bool" where
  \<comment> \<open>a process without statements is scheduled like any other\<close>
  "runnable pcb \<longleftrightarrow> unfinished pcb \<or> pcb_program_counter pcb = 0 \<and> pcb_statements pcb = []"

definition new_ok :: "pcb_t \<Rightarrow> bool" where
  "new_ok pcb \<longleftrightarrow> pcb_state pcb = NEW \<and> \<not> pcb_recently_ready pcb \<and> \<not> pcb_recently_exec pcb \<and> runnable pcb"

definition ready_ok :: "pcb_t \<Rightarrow> bool" where
  "ready_ok pcb \<longleftrightarrow> pcb_state pcb = READY \<and> \<not> pcb_recently_exec pcb \<and> runnable pcb"

definition exit_ok :: "pcb_t \<Rightarrow> bool" where
  "exit_ok pcb \<longleftrightarrow> pcb_state pcb = EXIT \<and> \<not> pcb_recently_ready pcb \<and> \<not> pcb_recently_exec pcb"

definition queues_ok :: "threads \<Rightarrow> bool" where
  "queues_ok t \<longleftrightarrow>
     (\<forall>p \<in> set (q_new (th_sched t)). new_ok (pcb_at t p)) \<and> (\<forall>p \<in> set (q_ready (th_sched t)). ready_ok (pcb_at t p)) \<and>
     (\<forall>p \<in> set (q_exit (th_sched t)). exit_ok (pcb_at t p))"

definition exec_ok :: "int \<Rightarrow> nat \<Rightarrow> int \<Rightarrow> int \<Rightarrow> bool \<Rightarrow> pcb_t \<Rightarrow> bool" where
  \<comment> \<open>a process on processor \<open>i\<close>, with the values of its two semaphores and whether its executor runs\<close>
  "exec_ok quantum i ini sem running pcb \<longleftrightarrow>
     pcb_state pcb = EXEC \<and> \<not> pcb_recently_ready pcb \<and>
     (if pcb_recently_exec pcb then ini = 0 \<and> sem = 0 \<and> \<not> running \<and> runnable pcb \<and> pcb_quantum pcb = 0
      else pcb_processor pcb = i \<and> 1 \<le> pcb_quantum pcb \<and> pcb_quantum pcb \<le> max 1 quantum \<and>
        (\<not> running \<and> ini = 1 \<and> sem = 0 \<and> runnable pcb \<or> running \<and> ini = 0 \<and> sem = 0 \<and> unfinished pcb \<or>
         running \<and> ini = 0 \<and> sem = 1))"

definition slot_ok :: "int \<Rightarrow> threads \<Rightarrow> nat \<Rightarrow> bool" where
  "slot_ok quantum t i \<longleftrightarrow>
     (case q_exec (th_sched t) ! i of
        None \<Rightarrow> exec_semaphores_init (th_sched t) ! i = 0 \<and> exec_semaphores (th_sched t) ! i = 0 \<and> \<not> th_running t ! i
      | Some p \<Rightarrow> exec_ok quantum i (exec_semaphores_init (th_sched t) ! i) (exec_semaphores (th_sched t) ! i) (th_running t ! i) (pcb_at t p))"

definition lengths_ok :: "threads \<Rightarrow> bool" where
  "lengths_ok t \<longleftrightarrow> (let n = length (q_exec (th_sched t))
     in length (exec_semaphores_init (th_sched t)) = n \<and> length (exec_semaphores (th_sched t)) = n \<and>
        length (pcbs_to_ready (th_sched t)) = n \<and> length (th_running t) = n \<and> (\<forall>i. th_pos t = Some i \<longrightarrow> i \<le> n))"

definition entry_ok :: "threads \<Rightarrow> nat \<Rightarrow> addr \<Rightarrow> bool" where
  \<comment> \<open>a process that came back from processor \<open>j\<close>: it is ready and flagged, once, and the processor has not run since\<close>
  "entry_ok t j p \<longleftrightarrow> p \<in> set (q_ready (th_sched t)) \<and> pcb_recently_ready (pcb_at t p) \<and>
     (\<forall>k < length (pcbs_to_ready (th_sched t)). pcbs_to_ready (th_sched t) ! k = Some p \<longrightarrow> k = j) \<and>
     (\<forall>b. q_exec (th_sched t) ! j = Some b \<longrightarrow> pcb_recently_exec (pcb_at t b) \<and> (\<exists>i. th_pos t = Some i \<and> j < i))"

definition returned_ok :: "threads \<Rightarrow> bool" where
  "returned_ok t \<longleftrightarrow>
     (\<forall>p \<in> set (q_ready (th_sched t)). pcb_recently_ready (pcb_at t p) \<longrightarrow> Some p \<in> set (pcbs_to_ready (th_sched t))) \<and>
     (\<forall>j < length (pcbs_to_ready (th_sched t)). \<forall>p. pcbs_to_ready (th_sched t) ! j = Some p \<longrightarrow> entry_ok t j p)"

definition no_work_below :: "threads \<Rightarrow> nat \<Rightarrow> bool" where
  "no_work_below t i \<longleftrightarrow>
     (\<forall>j < i. (\<forall>p. q_exec (th_sched t) ! j = Some p \<longrightarrow> \<not> pcb_recently_exec (pcb_at t p)) \<and>
        (q_exec (th_sched t) ! j = None \<longrightarrow> q_ready (th_sched t) = [] \<or> pcb_recently_ready (pcb_at t (hd (q_ready (th_sched t))))))"

definition wakeup_ok :: "threads \<Rightarrow> bool" where
  \<comment> \<open>no wake-up is lost: with its semaphore at 0 the short-term scheduler has nothing left to do where it has been\<close>
  "wakeup_ok t \<longleftrightarrow> g_sts_semaphore (th_sched t) \<in> {0, 1} \<and>
     (g_sts_semaphore (th_sched t) = 0 \<longrightarrow>
        (case th_pos t of
           Some i \<Rightarrow> no_work_below t i
         | None \<Rightarrow> no_work_below t (length (q_exec (th_sched t))) \<and> (\<forall>x \<in> set (pcbs_to_ready (th_sched t)). x = None))) \<and>
     g_lts_semaphore (th_sched t) = int (length (q_new (th_sched t)) + length (q_exit (th_sched t)))"

definition sched_inv :: "int \<Rightarrow> threads \<Rightarrow> bool" where
  "sched_inv quantum t \<longleftrightarrow> lengths_ok t \<and> places_ok t \<and> queues_ok t \<and> (\<forall>i < length (q_exec (th_sched t)). slot_ok quantum t i) \<and>
     returned_ok t \<and> wakeup_ok t"

lemma sched_inv_init: "sched_inv quantum (threads_init n)"
  by (auto simp: sched_inv_def lengths_ok_def places_ok_def queues_ok_def slot_ok_def returned_ok_def entry_ok_def wakeup_ok_def no_work_below_def
      Let_def threads_init_def setup_scheduler_queues_def places_def count_list_0_iff)

text \<open>What a step has to show for the parts it does not touch.\<close>

lemma slot_ok_frame:
  assumes "slot_ok quantum t i" "q_exec (th_sched t') ! i = q_exec (th_sched t) ! i" "th_running t' ! i = th_running t ! i"
    "exec_semaphores_init (th_sched t') ! i = exec_semaphores_init (th_sched t) ! i" "exec_semaphores (th_sched t') ! i = exec_semaphores (th_sched t) ! i"
    "\<And>p. q_exec (th_sched t) ! i = Some p \<Longrightarrow> s_pcbs (th_sched t') p = s_pcbs (th_sched t) p"
  shows "slot_ok quantum t' i"
  using assms by (auto simp: slot_ok_def split: option.splits)

lemma no_work_frame:
  assumes "no_work_below t i" "i \<le> length (q_exec (th_sched t))" "q_exec (th_sched t') = q_exec (th_sched t)" "q_ready (th_sched t') = q_ready (th_sched t)"
    "\<And>j p. j < length (q_exec (th_sched t)) \<Longrightarrow> q_exec (th_sched t) ! j = Some p \<Longrightarrow> pcb_recently_exec (pcb_at t' p) = pcb_recently_exec (pcb_at t p)"
    "\<And>p. p \<in> set (q_ready (th_sched t)) \<Longrightarrow> pcb_recently_ready (pcb_at t' p) = pcb_recently_ready (pcb_at t p)"
  shows "no_work_below t' i"
  unfolding no_work_below_def
proof (intro allI impI conjI)
  fix j assume j: "j < i"
  then have len: "j < length (q_exec (th_sched t))" using assms(2) by simp
  show "\<not> pcb_recently_exec (pcb_at t' p)" if "q_exec (th_sched t') ! j = Some p" for p
    using assms(1) j that assms(3) assms(5) [OF len] by (simp add: no_work_below_def)
  show "q_ready (th_sched t') = [] \<or> pcb_recently_ready (pcb_at t' (hd (q_ready (th_sched t'))))" if "q_exec (th_sched t') ! j = None"
    using assms(1) j that assms(3,4) assms(6) [OF hd_in_set] by (auto simp: no_work_below_def)
qed

lemma returned_frame:
  assumes "returned_ok t" "lengths_ok t" "th_pos t' = th_pos t" "pcbs_to_ready (th_sched t') = pcbs_to_ready (th_sched t)"
    "q_exec (th_sched t') = q_exec (th_sched t)" "set (q_ready (th_sched t)) \<subseteq> set (q_ready (th_sched t'))"
    "\<And>j p. j < length (q_exec (th_sched t)) \<Longrightarrow> q_exec (th_sched t) ! j = Some p \<Longrightarrow> pcb_recently_exec (pcb_at t' p) = pcb_recently_exec (pcb_at t p)"
    "\<And>p. p \<in> set (q_ready (th_sched t)) \<Longrightarrow> pcb_recently_ready (pcb_at t' p) = pcb_recently_ready (pcb_at t p)"
    "\<And>p. p \<in> set (q_ready (th_sched t')) \<Longrightarrow> p \<notin> set (q_ready (th_sched t)) \<Longrightarrow> \<not> pcb_recently_ready (pcb_at t' p)"
  shows "returned_ok t'"
  unfolding returned_ok_def
proof (intro conjI ballI allI impI)
  show "Some p \<in> set (pcbs_to_ready (th_sched t'))" if "p \<in> set (q_ready (th_sched t'))" "pcb_recently_ready (pcb_at t' p)" for p
    using assms(1,4) assms(8,9) [of p] that by (auto simp: returned_ok_def)
  fix j p assume j: "j < length (pcbs_to_ready (th_sched t'))" "pcbs_to_ready (th_sched t') ! j = Some p"
  then have e: "entry_ok t j p" and len: "j < length (q_exec (th_sched t))"
    using assms(1,2,4) by (auto simp: returned_ok_def lengths_ok_def Let_def)
  show "entry_ok t' j p"
    using e assms(3,4,5,6) assms(7) [OF len] assms(8) [of p] by (auto simp: entry_ok_def)
qed

section \<open>Where a process is\<close>

lemma place_new:
  assumes "places_ok t" "p \<in> set (q_new (th_sched t))"
  shows "\<exists>pcb. s_pcbs (th_sched t) p = Some pcb" "p \<notin> set (q_ready (th_sched t))" "p \<notin> set (q_exit (th_sched t))" "Some p \<notin> set (q_exec (th_sched t))"
    "count_list (q_new (th_sched t)) p = 1"
proof -
  have c: "0 < count_list (q_new (th_sched t)) p" using assms(2) by (metis count_list_0_iff gr0I)
  have e: "places (th_sched t) p = (if s_pcbs (th_sched t) p = None then 0 else 1)" using assms(1) by (simp add: places_ok_def)
  show "\<exists>pcb. s_pcbs (th_sched t) p = Some pcb" "p \<notin> set (q_ready (th_sched t))" "p \<notin> set (q_exit (th_sched t))" "Some p \<notin> set (q_exec (th_sched t))"
    "count_list (q_new (th_sched t)) p = 1"
    using c e by (auto simp: places_def count_list_0_iff [symmetric] split: if_splits)
qed

lemma place_ready:
  assumes "places_ok t" "p \<in> set (q_ready (th_sched t))"
  shows "\<exists>pcb. s_pcbs (th_sched t) p = Some pcb" "p \<notin> set (q_new (th_sched t))" "p \<notin> set (q_exit (th_sched t))" "Some p \<notin> set (q_exec (th_sched t))"
    "count_list (q_ready (th_sched t)) p = 1"
proof -
  have c: "0 < count_list (q_ready (th_sched t)) p" using assms(2) by (metis count_list_0_iff gr0I)
  have e: "places (th_sched t) p = (if s_pcbs (th_sched t) p = None then 0 else 1)" using assms(1) by (simp add: places_ok_def)
  show "\<exists>pcb. s_pcbs (th_sched t) p = Some pcb" "p \<notin> set (q_new (th_sched t))" "p \<notin> set (q_exit (th_sched t))" "Some p \<notin> set (q_exec (th_sched t))"
    "count_list (q_ready (th_sched t)) p = 1"
    using c e by (auto simp: places_def count_list_0_iff [symmetric] split: if_splits)
qed

lemma place_exit:
  assumes "places_ok t" "p \<in> set (q_exit (th_sched t))"
  shows "\<exists>pcb. s_pcbs (th_sched t) p = Some pcb" "p \<notin> set (q_new (th_sched t))" "p \<notin> set (q_ready (th_sched t))" "Some p \<notin> set (q_exec (th_sched t))"
    "count_list (q_exit (th_sched t)) p = 1"
proof -
  have c: "0 < count_list (q_exit (th_sched t)) p" using assms(2) by (metis count_list_0_iff gr0I)
  have e: "places (th_sched t) p = (if s_pcbs (th_sched t) p = None then 0 else 1)" using assms(1) by (simp add: places_ok_def)
  show "\<exists>pcb. s_pcbs (th_sched t) p = Some pcb" "p \<notin> set (q_new (th_sched t))" "p \<notin> set (q_ready (th_sched t))" "Some p \<notin> set (q_exec (th_sched t))"
    "count_list (q_exit (th_sched t)) p = 1"
    using c e by (auto simp: places_def count_list_0_iff [symmetric] split: if_splits)
qed

lemma place_exec:
  assumes "places_ok t" "i < length (q_exec (th_sched t))" "q_exec (th_sched t) ! i = Some p"
  shows "\<exists>pcb. s_pcbs (th_sched t) p = Some pcb" "p \<notin> set (q_new (th_sched t))" "p \<notin> set (q_ready (th_sched t))" "p \<notin> set (q_exit (th_sched t))"
    "\<And>j. j < length (q_exec (th_sched t)) \<Longrightarrow> q_exec (th_sched t) ! j = Some p \<Longrightarrow> j = i"
proof -
  have c: "0 < count_list (q_exec (th_sched t)) (Some p)" using count_list_nth [OF assms(2,3)] .
  have e: "places (th_sched t) p = (if s_pcbs (th_sched t) p = None then 0 else 1)" using assms(1) by (simp add: places_ok_def)
  show "\<exists>pcb. s_pcbs (th_sched t) p = Some pcb" "p \<notin> set (q_new (th_sched t))" "p \<notin> set (q_ready (th_sched t))" "p \<notin> set (q_exit (th_sched t))"
    using c e by (auto simp: places_def count_list_0_iff [symmetric] split: if_splits)
  have "count_list (q_exec (th_sched t)) (Some p) \<le> 1" using e by (auto simp: places_def split: if_splits)
  then show "j = i" if "j < length (q_exec (th_sched t))" "q_exec (th_sched t) ! j = Some p" for j
    using count_list_unique assms(2,3) that by metis
qed

section \<open>Preservation\<close>

text \<open>Creating a process.\<close>

lemma submit_fields:
  "submit garbage statements s = s' \<Longrightarrow>
   q_new s' = q_new s @ [s_next s] \<and> q_ready s' = q_ready s \<and> q_exit s' = q_exit s \<and> q_exec s' = q_exec s \<and>
   exec_semaphores_init s' = exec_semaphores_init s \<and> exec_semaphores s' = exec_semaphores s \<and> pcbs_to_ready s' = pcbs_to_ready s \<and>
   g_lts_semaphore s' = g_lts_semaphore s + 1 \<and> g_sts_semaphore s' = g_sts_semaphore s \<and> s_next s' = Suc (s_next s) \<and>
   (\<forall>q. q \<noteq> s_next s \<longrightarrow> s_pcbs s' q = s_pcbs s q) \<and>
   (\<exists>pcb. s_pcbs s' (s_next s) = Some pcb \<and> pcb_state pcb = NEW \<and> pcb_program_counter pcb = 0 \<and> pcb_statements pcb = statements \<and>
      \<not> pcb_recently_ready pcb \<and> \<not> pcb_recently_exec pcb)"
  by (auto simp: submit_def get_new_pcb_def add_to_new_def Let_def case_prod_beta)

lemma inv_submit:
  assumes "sched_inv quantum t"
  shows "sched_inv quantum (t\<lparr>th_sched := submit garbage statements (th_sched t)\<rparr>)"
proof -
  let ?s = "th_sched t"
  define s' where "s' = submit garbage statements ?s"
  define p where "p = s_next ?s"
  let ?t = "t\<lparr>th_sched := s'\<rparr>"
  obtain pcb where f: "q_new s' = q_new ?s @ [p]" "q_ready s' = q_ready ?s" "q_exit s' = q_exit ?s" "q_exec s' = q_exec ?s"
    "exec_semaphores_init s' = exec_semaphores_init ?s" "exec_semaphores s' = exec_semaphores ?s" "pcbs_to_ready s' = pcbs_to_ready ?s"
    "g_lts_semaphore s' = g_lts_semaphore ?s + 1" "g_sts_semaphore s' = g_sts_semaphore ?s" "s_next s' = Suc p"
    "\<And>q. q \<noteq> p \<Longrightarrow> s_pcbs s' q = s_pcbs ?s q" "s_pcbs s' p = Some pcb" "pcb_state pcb = NEW" "pcb_program_counter pcb = 0"
    "pcb_statements pcb = statements" "\<not> pcb_recently_ready pcb" "\<not> pcb_recently_exec pcb"
    using submit_fields [of garbage statements ?s s'] s'_def p_def by auto
  have pl: "places_ok t" using assms(1) by (simp add: sched_inv_def)
  have fresh: "s_pcbs ?s p = None" using pl by (simp add: places_ok_def p_def)
  have np: "p \<notin> set (q_new ?s)" "p \<notin> set (q_ready ?s)" "p \<notin> set (q_exit ?s)" "\<And>i. i < length (q_exec ?s) \<Longrightarrow> q_exec ?s ! i \<noteq> Some p"
    using place_new(1) [OF pl, of p] place_ready(1) [OF pl, of p] place_exit(1) [OF pl, of p] place_exec(1) [OF pl, of _ p] fresh by auto
  have same: "\<And>q. q \<in> set (q_new ?s) \<Longrightarrow> s_pcbs s' q = s_pcbs ?s q" "\<And>q. q \<in> set (q_ready ?s) \<Longrightarrow> s_pcbs s' q = s_pcbs ?s q"
    "\<And>q. q \<in> set (q_exit ?s) \<Longrightarrow> s_pcbs s' q = s_pcbs ?s q"
    "\<And>i q. q_exec ?s ! i = Some q \<Longrightarrow> i < length (q_exec ?s) \<Longrightarrow> s_pcbs s' q = s_pcbs ?s q"
    using np f(11) by metis+
  have moved: "places s' q = places ?s q + (if q = p then 1 else 0)" for q by (simp add: places_def f(1-4))
  have "places_ok ?t"
    unfolding places_ok_def
  proof (intro conjI allI impI)
    show "places (th_sched ?t) q = (if s_pcbs (th_sched ?t) q = None then 0 else 1)" for q
      using pl fresh f(11,12) by (cases "q = p") (simp_all add: moved places_ok_def)
    show "s_pcbs (th_sched ?t) q = None" if "s_next (th_sched ?t) \<le> q" for q
      using pl that f(10,11) by (simp add: places_ok_def p_def)
  qed
  moreover have "lengths_ok ?t" using assms(1) f(4-7) by (simp add: sched_inv_def lengths_ok_def)
  moreover have "queues_ok ?t"
    using assms f(1-3) f(12-17) same by (auto simp: sched_inv_def queues_ok_def new_ok_def runnable_def unfinished_def)
  moreover have "\<forall>i < length (q_exec s'). slot_ok quantum ?t i"
    by (intro allI impI, rule slot_ok_frame [where t = t]) (use assms(1) in \<open>simp_all add: sched_inv_def f(4-6) same(4)\<close>)
  moreover have "returned_ok ?t"
    by (rule returned_frame [where t = t]) (use assms(1) in \<open>simp_all add: sched_inv_def f(2,4,7) same(2,4)\<close>)
  moreover have "wakeup_ok ?t"
  proof -
    have "no_work_below ?t i" if "no_work_below t i" "i \<le> length (q_exec ?s)" for i
      by (rule no_work_frame [OF that]) (simp_all add: f(2,4) same(2,4))
    moreover have "wakeup_ok t" "\<And>i. th_pos t = Some i \<Longrightarrow> i \<le> length (q_exec ?s)"
      using assms(1) by (auto simp: sched_inv_def lengths_ok_def Let_def)
    ultimately show ?thesis
      by (cases "th_pos t") (simp_all add: wakeup_ok_def f(1,3,4,7-9))
  qed
  ultimately show ?thesis unfolding sched_inv_def s'_def by simp
qed

lemma wakeup_posted:
  assumes "wakeup_ok t" "g_sts_semaphore s' = (if g_sts_semaphore (th_sched t) \<le> 0 then g_sts_semaphore (th_sched t) + 1 else g_sts_semaphore (th_sched t))"
    "g_lts_semaphore s' = int (length (q_new s') + length (q_exit s'))" "th_sched t' = s'"
  shows "wakeup_ok t'"
  using assms by (auto simp: wakeup_ok_def)

text \<open>The long-term scheduler.\<close>

lemma inv_lts_new:
  assumes "sched_inv quantum t" "q_new (th_sched t) = p # ps" "long_term_schedule (th_sched t) = Inr s'"
  shows "sched_inv quantum (t\<lparr>th_sched := s'\<rparr>)"
proof -
  let ?s = "th_sched t" and ?t = "t\<lparr>th_sched := s'\<rparr>"
  have pl: "places_ok t" and w: "wakeup_ok t" using assms(1) by (auto simp: sched_inv_def)
  have new: "p \<in> set (q_new ?s)" using assms(2) by simp
  note pn = place_new [OF pl new]
  from pn(1) obtain pcb where pcb: "s_pcbs ?s p = Some pcb" by blast
  have "pcb_at t p = pcb" using pcb by simp
  then have ok: "new_ok pcb" using assms(1) new by (auto simp: sched_inv_def queues_ok_def)
  have np: "p \<notin> set ps" using pn(5) assms(2) by (simp add: count_list_0_iff)
  have f: "q_new s' = ps" "q_ready s' = q_ready ?s @ [p]" "q_exit s' = q_exit ?s" "q_exec s' = q_exec ?s"
    "exec_semaphores_init s' = exec_semaphores_init ?s" "exec_semaphores s' = exec_semaphores ?s" "pcbs_to_ready s' = pcbs_to_ready ?s"
    "g_lts_semaphore s' = g_lts_semaphore ?s - 1" "s_next s' = s_next ?s"
    "g_sts_semaphore s' = (if g_sts_semaphore ?s \<le> 0 then g_sts_semaphore ?s + 1 else g_sts_semaphore ?s)"
    "\<And>q. q \<noteq> p \<Longrightarrow> s_pcbs s' q = s_pcbs ?s q" "s_pcbs s' p = Some (pcb\<lparr>pcb_state := READY\<rparr>)"
    using assms(2,3) pcb by (auto simp: long_term_schedule_whole [OF long_term_schedule_lock [OF assms(3)]] pcb_load_def Let_def split: if_splits)
  have same: "\<And>q. q \<in> set ps \<Longrightarrow> s_pcbs s' q = s_pcbs ?s q" "\<And>q. q \<in> set (q_ready ?s) \<Longrightarrow> s_pcbs s' q = s_pcbs ?s q"
    "\<And>q. q \<in> set (q_exit ?s) \<Longrightarrow> s_pcbs s' q = s_pcbs ?s q"
    "\<And>i q. q_exec ?s ! i = Some q \<Longrightarrow> i < length (q_exec ?s) \<Longrightarrow> s_pcbs s' q = s_pcbs ?s q"
    using np pn(2,3,4) f(11) by (metis, metis, metis, metis nth_mem)
  have moved: "places s' q = places ?s q" for q using assms(2) by (simp add: places_def f(1-4))
  have "places_ok ?t"
    using pl pcb f(9,11,12) unfolding places_ok_def by (simp add: moved) (metis option.distinct(1))
  moreover have "lengths_ok ?t" using assms(1) f(4-7) by (simp add: sched_inv_def lengths_ok_def)
  moreover have "queues_ok ?t"
    using assms(1,2) f(1-3,12) same(1-3) ok by (auto simp: sched_inv_def queues_ok_def new_ok_def ready_ok_def runnable_def unfinished_def)
  moreover have "\<forall>i < length (q_exec s'). slot_ok quantum ?t i"
    by (intro allI impI, rule slot_ok_frame [where t = t]) (use assms(1) in \<open>simp_all add: sched_inv_def f(4-6) same(4)\<close>)
  moreover have "returned_ok ?t"
    by (rule returned_frame [where t = t]) (use assms(1) ok in \<open>auto simp: sched_inv_def f(2,4,7,12) same(2,4) new_ok_def\<close>)
  moreover have "wakeup_ok ?t"
    by (rule wakeup_posted [OF w f(10)]) (use w assms(2) in \<open>simp_all add: wakeup_ok_def f(1,3,8)\<close>)
  ultimately show ?thesis unfolding sched_inv_def by simp
qed

lemma forget_ready_absent: "Some p \<notin> set xs \<Longrightarrow> forget_ready p xs = xs"
  by (induction p xs rule: forget_ready.induct) auto

lemma returned_in_ready:
  "returned_ok t \<Longrightarrow> Some p \<in> set (pcbs_to_ready (th_sched t)) \<Longrightarrow> p \<in> set (q_ready (th_sched t))"
  by (auto simp: returned_ok_def entry_ok_def in_set_conv_nth)

lemma inv_lts_exit:
  assumes "sched_inv quantum t" "q_new (th_sched t) = []" "q_exit (th_sched t) = p # ps" "long_term_schedule (th_sched t) = Inr s'"
  shows "sched_inv quantum (t\<lparr>th_sched := s'\<rparr>)"
proof -
  let ?s = "th_sched t" and ?t = "t\<lparr>th_sched := s'\<rparr>"
  have pl: "places_ok t" and w: "wakeup_ok t" and r: "returned_ok t" and ln: "lengths_ok t" using assms(1) by (auto simp: sched_inv_def)
  have ex: "p \<in> set (q_exit ?s)" using assms(3) by simp
  note pn = place_exit [OF pl ex]
  from pn(1) obtain pcb where pcb: "s_pcbs ?s p = Some pcb" by blast
  have np: "p \<notin> set ps" using pn(5) assms(3) by (simp add: count_list_0_iff)
  have forget: "forget_ready p (pcbs_to_ready ?s) = pcbs_to_ready ?s" using returned_in_ready [OF r, of p] pn(3) forget_ready_absent by blast
  have f: "q_new s' = []" "q_ready s' = q_ready ?s" "q_exit s' = ps" "q_exec s' = q_exec ?s"
    "exec_semaphores_init s' = exec_semaphores_init ?s" "exec_semaphores s' = exec_semaphores ?s" "pcbs_to_ready s' = pcbs_to_ready ?s"
    "g_lts_semaphore s' = g_lts_semaphore ?s - 1" "s_next s' = s_next ?s" "g_sts_semaphore s' = g_sts_semaphore ?s"
    "\<And>q. q \<noteq> p \<Longrightarrow> s_pcbs s' q = s_pcbs ?s q" "s_pcbs s' p = None"
    using assms(2,3,4) pcb forget by (auto simp: long_term_schedule_whole [OF long_term_schedule_lock [OF assms(4)]] delete_pcb_def pcb_load_def Let_def split: if_splits)
  have same: "\<And>q. q \<in> set ps \<Longrightarrow> s_pcbs s' q = s_pcbs ?s q" "\<And>q. q \<in> set (q_ready ?s) \<Longrightarrow> s_pcbs s' q = s_pcbs ?s q"
    "\<And>i q. q_exec ?s ! i = Some q \<Longrightarrow> i < length (q_exec ?s) \<Longrightarrow> s_pcbs s' q = s_pcbs ?s q"
    using np pn(2,3,4) f(11) by (metis, metis, metis nth_mem)
  have moved: "places ?s q = places s' q + (if q = p then 1 else 0)" for q using assms(2,3) by (simp add: places_def f(1-4))
  have "places_ok ?t"
    unfolding places_ok_def
  proof (intro conjI allI impI)
    show "places (th_sched ?t) q = (if s_pcbs (th_sched ?t) q = None then 0 else 1)" for q
      using pl pcb f(11,12) moved [of q] by (cases "q = p") (auto simp: places_ok_def)
    show "s_pcbs (th_sched ?t) q = None" if "s_next (th_sched ?t) \<le> q" for q
      using pl that f(9,11,12) by (cases "q = p") (simp_all add: places_ok_def)
  qed
  moreover have "lengths_ok ?t" using ln f(4-7) by (simp add: lengths_ok_def)
  moreover have "queues_ok ?t"
    using assms(1,2,3) f(1-3) same(1,2) by (auto simp: sched_inv_def queues_ok_def)
  moreover have "\<forall>i < length (q_exec s'). slot_ok quantum ?t i"
    by (intro allI impI, rule slot_ok_frame [where t = t]) (use assms(1) in \<open>simp_all add: sched_inv_def f(4-6) same(3)\<close>)
  moreover have "returned_ok ?t"
    by (rule returned_frame [where t = t]) (use r ln in \<open>simp_all add: f(2,4,7) same(2,3)\<close>)
  moreover have "wakeup_ok ?t"
  proof -
    have "no_work_below ?t i" if "no_work_below t i" "i \<le> length (q_exec ?s)" for i
      by (rule no_work_frame [OF that]) (simp_all add: f(2,4) same(2,3))
    moreover have "\<And>i. th_pos t = Some i \<Longrightarrow> i \<le> length (q_exec ?s)" using ln by (auto simp: lengths_ok_def Let_def)
    ultimately show ?thesis using w assms(2,3)
      by (cases "th_pos t") (simp_all add: wakeup_ok_def f(1,3,4,7,8,10))
  qed
  ultimately show ?thesis unfolding sched_inv_def by simp
qed

lemma inv_lts:
  assumes "sched_inv quantum t" "long_term_schedule (th_sched t) = Inr s'"
  shows "sched_inv quantum (t\<lparr>th_sched := s'\<rparr>)"
proof (cases "q_new (th_sched t)")
  case (Cons p ps)
  then show ?thesis using inv_lts_new assms by blast
next
  case Nil
  show ?thesis
  proof (cases "q_exit (th_sched t)")
    case (Cons p ps)
    then show ?thesis using inv_lts_exit Nil assms by blast
  next
    case Nil2: Nil
    then have "g_lts_semaphore (th_sched t) = 0" using assms(1) Nil by (simp add: sched_inv_def wakeup_ok_def)
    then show ?thesis using assms(2) by (simp add: long_term_schedule_def)
  qed
qed

end
