(* ===== verification/Sched_Inv.thy ===== *)
theory Sched_Inv
  imports Sched_Threads
begin

text \<open>The invariant of the scheduler is kept by the short-term scheduler, the executors and the callbacks.\<close>

section \<open>The short-term scheduler\<close>

lemma returned_pos:
  assumes "returned_ok t" "pcbs_to_ready (th_sched t') = pcbs_to_ready (th_sched t)" "q_exec (th_sched t') = q_exec (th_sched t)"
    "q_ready (th_sched t') = q_ready (th_sched t)" "s_pcbs (th_sched t') = s_pcbs (th_sched t)"
    "\<And>j i. th_pos t = Some i \<Longrightarrow> j < i \<Longrightarrow> \<exists>k. th_pos t' = Some k \<and> j < k"
  shows "returned_ok t'"
  unfolding returned_ok_def assms(2-5)
proof (intro conjI ballI allI impI)
  show "Some p \<in> set (pcbs_to_ready (th_sched t))" if "p \<in> set (q_ready (th_sched t))" "pcb_recently_ready (pcb_at t p)" for p
    using assms(1) that unfolding returned_ok_def by blast
  fix j p assume "j < length (pcbs_to_ready (th_sched t))" "pcbs_to_ready (th_sched t) ! j = Some p"
  then have "entry_ok t j p" using assms(1) unfolding returned_ok_def by blast
  then show "entry_ok t' j p" using assms(6) unfolding entry_ok_def assms(2-5) by blast
qed

lemma inv_sts_begin:
  assumes "sched_inv quantum t" "th_pos t = None" "0 < g_sts_semaphore (th_sched t)"
  shows "sched_inv quantum (t\<lparr>th_sched := (th_sched t)\<lparr>g_sts_semaphore := g_sts_semaphore (th_sched t) - 1\<rparr>, th_pos := Some 0\<rparr>)"
proof -
  let ?t = "t\<lparr>th_sched := (th_sched t)\<lparr>g_sts_semaphore := g_sts_semaphore (th_sched t) - 1\<rparr>, th_pos := Some 0\<rparr>"
  have "\<forall>i < length (q_exec (th_sched t)). slot_ok quantum ?t i"
    by (intro allI impI, rule slot_ok_frame [where t = t]) (use assms(1) in \<open>simp_all add: sched_inv_def\<close>)
  moreover have "lengths_ok ?t" "places_ok ?t" "queues_ok ?t"
    using assms(1) by (simp_all add: sched_inv_def lengths_ok_def places_ok_def places_def queues_ok_def Let_def)
  moreover have "wakeup_ok ?t" using assms by (auto simp: sched_inv_def wakeup_ok_def no_work_below_def)
  moreover have "returned_ok ?t"
    by (rule returned_pos [of t]) (use assms(1,2) in \<open>simp_all add: sched_inv_def\<close>)
  ultimately show ?thesis by (simp add: sched_inv_def)
qed

text \<open>A free processor gets the first process of READY.\<close>

lemma inv_sts_place:
  assumes inv: "sched_inv quantum t" and pos: "th_pos t = Some i" and i: "i < length (q_exec (th_sched t))"
    and free: "q_exec (th_sched t) ! i = None" and rdy: "q_ready (th_sched t) = p # ps"
    and pcb: "s_pcbs (th_sched t) p = Some pcb" "\<not> pcb_recently_ready pcb" and s': "sts_slot i (th_sched t) = Inr s'"
  shows "sched_inv quantum (t\<lparr>th_sched := s', th_pos := Some (Suc i)\<rparr>)"
proof -
  let ?s = "th_sched t" and ?t = "t\<lparr>th_sched := s', th_pos := Some (Suc i)\<rparr>"
  let ?pcb = "pcb\<lparr>pcb_state := EXEC, pcb_quantum := 0, pcb_recently_exec := True\<rparr>"
  have pl: "places_ok t" and w: "wakeup_ok t" and r: "returned_ok t" and ln: "lengths_ok t" and qs: "queues_ok t"
    and sl: "\<forall>i < length (q_exec ?s). slot_ok quantum t i" using inv by (auto simp: sched_inv_def)
  have pin: "p \<in> set (q_ready ?s)" using rdy by simp
  note pn = place_ready [OF pl pin]
  have np: "p \<notin> set ps" using pn(5) rdy by (simp add: count_list_0_iff)
  have ok: "ready_ok pcb" using qs pin pcb(1) by (auto simp: queues_ok_def)
  have f: "q_new s' = q_new ?s" "q_ready s' = ps" "q_exit s' = q_exit ?s" "q_exec s' = (q_exec ?s)[i := Some p]"
    "exec_semaphores_init s' = exec_semaphores_init ?s" "exec_semaphores s' = exec_semaphores ?s" "pcbs_to_ready s' = pcbs_to_ready ?s"
    "g_lts_semaphore s' = g_lts_semaphore ?s" "s_next s' = s_next ?s"
    "g_sts_semaphore s' = (if g_sts_semaphore ?s \<le> 0 then g_sts_semaphore ?s + 1 else g_sts_semaphore ?s)"
    "\<And>q. q \<noteq> p \<Longrightarrow> s_pcbs s' q = s_pcbs ?s q" "s_pcbs s' p = Some ?pcb"
    using s' free rdy pcb by (auto simp: sts_slot_whole [OF i sts_slot_lock [OF s']] pcb_load_def)
  have same: "\<And>q. q \<in> set (q_new ?s) \<Longrightarrow> s_pcbs s' q = s_pcbs ?s q" "\<And>q. q \<in> set ps \<Longrightarrow> s_pcbs s' q = s_pcbs ?s q"
    "\<And>q. q \<in> set (q_exit ?s) \<Longrightarrow> s_pcbs s' q = s_pcbs ?s q"
    "\<And>j q. q_exec ?s ! j = Some q \<Longrightarrow> j < length (q_exec ?s) \<Longrightarrow> s_pcbs s' q = s_pcbs ?s q"
    using np pn(2,3,4) f(11) by (metis, metis, metis, metis nth_mem)
  have moved: "places s' q = places ?s q" for q
    using count_list_update [OF i, of "Some p" "Some q"] free rdy by (auto simp: places_def f(1-4))
  have "places_ok ?t"
    using pl pcb f(9,11,12) unfolding places_ok_def by (simp add: moved) (metis option.distinct(1))
  moreover have "lengths_ok ?t" using ln f(4-7) pos i by (auto simp: lengths_ok_def Let_def)
  moreover have "queues_ok ?t" using qs f(1-3) same(1-3) rdy by (auto simp: queues_ok_def)
  moreover have "\<forall>j < length (q_exec s'). slot_ok quantum ?t j"
  proof (intro allI impI)
    fix j assume j: "j < length (q_exec s')"
    show "slot_ok quantum ?t j"
    proof (cases "j = i")
      case True
      have "slot_ok quantum t i" using sl i by blast
      then show ?thesis
        using True i free f(4,5,6,12) ok pcb(2) by (simp add: slot_ok_def exec_ok_def ready_ok_def runnable_def unfinished_def)
    next
      case False
      have "slot_ok quantum t j" using sl j f(4) by simp
      then show ?thesis
      proof (rule slot_ok_frame)
        show "s_pcbs (th_sched ?t) q = s_pcbs ?s q" if "q_exec ?s ! j = Some q" for q
          using same(4) [OF that] j False f(4) by simp
      qed (use False in \<open>simp_all add: f(4-6)\<close>)
    qed
  qed
  moreover have "returned_ok ?t"
    unfolding returned_ok_def
  proof (intro conjI ballI allI impI)
    show "Some q \<in> set (pcbs_to_ready (th_sched ?t))" if "q \<in> set (q_ready (th_sched ?t))" "pcb_recently_ready (pcb_at ?t q)" for q
      using r that rdy f(2,7) same(2) by (simp add: returned_ok_def)
    fix j q assume j: "j < length (pcbs_to_ready (th_sched ?t))" "pcbs_to_ready (th_sched ?t) ! j = Some q"
    then have e: "entry_ok t j q" and len: "j < length (q_exec ?s)" using r ln by (auto simp: returned_ok_def f(7) lengths_ok_def Let_def)
    have "q \<noteq> p" using e pcb by (auto simp: entry_ok_def)
    then have q: "q \<in> set ps" using e rdy by (auto simp: entry_ok_def)
    show "entry_ok ?t j q"
    proof (cases "j = i")
      case True
      then show ?thesis using e q i f(12) by (simp add: entry_ok_def f(2,4,7) same(2))
    next
      case False
      have "pcb_recently_exec (the (s_pcbs s' b)) \<and> j < Suc i" if "q_exec ?s ! j = Some b" for b
        using e that same(4) [OF that len] pos by (auto simp: entry_ok_def)
      then show ?thesis using e q False by (simp add: entry_ok_def f(2,4,7) same(2))
    qed
  qed
  moreover have "wakeup_ok ?t"
    by (rule wakeup_posted [OF w f(10)]) (use w in \<open>simp_all add: wakeup_ok_def f(1,3,8)\<close>)
  ultimately show ?thesis unfolding sched_inv_def by simp
qed

text \<open>A process that was placed is started.\<close>

lemma inv_sts_start:
  assumes inv: "sched_inv quantum t" and pos: "th_pos t = Some i" and i: "i < length (q_exec (th_sched t))"
    and ex: "q_exec (th_sched t) ! i = Some p" and pcb: "s_pcbs (th_sched t) p = Some pcb" "pcb_recently_exec pcb"
    and s': "sts_slot i (th_sched t) = Inr s'"
  shows "sched_inv quantum (t\<lparr>th_sched := s', th_pos := Some (Suc i)\<rparr>)"
proof -
  let ?s = "th_sched t" and ?t = "t\<lparr>th_sched := s', th_pos := Some (Suc i)\<rparr>"
  let ?pcb = "pcb\<lparr>pcb_processor := i, pcb_quantum := pcb_quantum pcb + 1, pcb_recently_exec := False\<rparr>"
  have pl: "places_ok t" and w: "wakeup_ok t" and r: "returned_ok t" and ln: "lengths_ok t" and qs: "queues_ok t"
    and sl: "\<forall>i < length (q_exec ?s). slot_ok quantum t i" using inv by (auto simp: sched_inv_def)
  note pn = place_exec [OF pl i ex]
  have li: "i < length (exec_semaphores_init ?s)" using ln i by (simp add: lengths_ok_def Let_def)
  have f: "q_new s' = q_new ?s" "q_ready s' = q_ready ?s" "q_exit s' = q_exit ?s" "q_exec s' = q_exec ?s"
    "exec_semaphores_init s' = (exec_semaphores_init ?s)[i := exec_semaphores_init ?s ! i + 1]" "exec_semaphores s' = exec_semaphores ?s"
    "pcbs_to_ready s' = pcbs_to_ready ?s" "g_lts_semaphore s' = g_lts_semaphore ?s" "s_next s' = s_next ?s" "g_sts_semaphore s' = g_sts_semaphore ?s"
    "\<And>q. q \<noteq> p \<Longrightarrow> s_pcbs s' q = s_pcbs ?s q" "s_pcbs s' p = Some ?pcb"
    using s' ex pcb li by (auto simp: sts_slot_whole [OF i sts_slot_lock [OF s']] pcb_load_def sem_post_at_def)
  have same: "\<And>q. q \<in> set (q_new ?s) \<Longrightarrow> s_pcbs s' q = s_pcbs ?s q" "\<And>q. q \<in> set (q_ready ?s) \<Longrightarrow> s_pcbs s' q = s_pcbs ?s q"
    "\<And>q. q \<in> set (q_exit ?s) \<Longrightarrow> s_pcbs s' q = s_pcbs ?s q"
    "\<And>j q. q_exec ?s ! j = Some q \<Longrightarrow> j < length (q_exec ?s) \<Longrightarrow> j \<noteq> i \<Longrightarrow> s_pcbs s' q = s_pcbs ?s q"
    using pn f(11) by metis+
  have moved: "places s' q = places ?s q" for q by (simp add: places_def f(1-4))
  have "places_ok ?t"
    using pl pcb f(9,11,12) unfolding places_ok_def by (simp add: moved) (metis option.distinct(1))
  moreover have "lengths_ok ?t" using ln f(4-7) i by (auto simp: lengths_ok_def Let_def)
  moreover have "queues_ok ?t" using qs f(1-3) same(1-3) by (auto simp: queues_ok_def)
  moreover have "\<forall>j < length (q_exec s'). slot_ok quantum ?t j"
  proof (intro allI impI)
    fix j assume j: "j < length (q_exec s')"
    show "slot_ok quantum ?t j"
    proof (cases "j = i")
      case True
      have "slot_ok quantum t i" using sl i by blast
      then show ?thesis using True i li ex pcb f(4,5,6,12) by (simp add: slot_ok_def exec_ok_def runnable_def unfinished_def)
    next
      case False
      have "slot_ok quantum t j" using sl j f(4) by simp
      then show ?thesis
      proof (rule slot_ok_frame)
        show "s_pcbs (th_sched ?t) q = s_pcbs ?s q" if "q_exec ?s ! j = Some q" for q
          using same(4) [OF that] j False f(4) by simp
      qed (use False in \<open>simp_all add: f(4-6)\<close>)
    qed
  qed
  moreover have "returned_ok ?t"
    unfolding returned_ok_def
  proof (intro conjI ballI allI impI)
    show "Some q \<in> set (pcbs_to_ready (th_sched ?t))" if "q \<in> set (q_ready (th_sched ?t))" "pcb_recently_ready (pcb_at ?t q)" for q
      using r that f(2,7) same(2) by (simp add: returned_ok_def)
    fix j q assume j: "j < length (pcbs_to_ready (th_sched ?t))" "pcbs_to_ready (th_sched ?t) ! j = Some q"
    then have e: "entry_ok t j q" and len: "j < length (q_exec ?s)" using r ln by (auto simp: returned_ok_def f(7) lengths_ok_def Let_def)
    have "j \<noteq> i" using e ex pos by (auto simp: entry_ok_def)
    then have "pcb_recently_exec (the (s_pcbs s' b)) \<and> j < Suc i" if "q_exec ?s ! j = Some b" for b
      using e that same(4) [OF that len] pos by (auto simp: entry_ok_def)
    then show "entry_ok ?t j q" using e by (simp add: entry_ok_def f(2,4,7) same(2))
  qed
  moreover have "wakeup_ok ?t"
  proof -
    have "no_work_below ?t (Suc i)" if n: "no_work_below t i"
      unfolding no_work_below_def
    proof (intro allI impI conjI)
      fix j assume j: "j < Suc i"
      show "\<not> pcb_recently_exec (pcb_at ?t q)" if "q_exec (th_sched ?t) ! j = Some q" for q
        using that n j i ex f(12) same(4) by (cases "j = i") (auto simp: f(4) no_work_below_def less_Suc_eq)
      show "q_ready (th_sched ?t) = [] \<or> pcb_recently_ready (pcb_at ?t (hd (q_ready (th_sched ?t))))" if "q_exec (th_sched ?t) ! j = None"
        using that n j ex same(2) [OF hd_in_set] by (cases "j = i"; cases "q_ready ?s = []") (auto simp: f(2,4) no_work_below_def less_Suc_eq)
    qed
    then show ?thesis using w pos by (simp add: wakeup_ok_def f(1,3,8,10))
  qed
  ultimately show ?thesis unfolding sched_inv_def by simp
qed

lemma inv_sts_slot:
  assumes "sched_inv quantum t" "th_pos t = Some i" "i < length (q_exec (th_sched t))" "sts_slot i (th_sched t) = Inr s'"
  shows "sched_inv quantum (t\<lparr>th_sched := s', th_pos := Some (Suc i)\<rparr>)"
proof (cases "(\<exists>p ps pcb. q_exec (th_sched t) ! i = None \<and> q_ready (th_sched t) = p # ps \<and> s_pcbs (th_sched t) p = Some pcb \<and> \<not> pcb_recently_ready pcb) \<or>
    (\<exists>p pcb. q_exec (th_sched t) ! i = Some p \<and> s_pcbs (th_sched t) p = Some pcb \<and> pcb_recently_exec pcb)")
  case True
  then show ?thesis using inv_sts_place [OF assms(1-3)] inv_sts_start [OF assms(1-3)] assms(4) by blast
next
  case False
  let ?s = "th_sched t" and ?t = "t\<lparr>th_sched := s', th_pos := Some (Suc i)\<rparr>"
  have s': "s' = ?s"
    using assms(4) False by (auto simp: sts_slot_whole [OF assms(3) sts_slot_lock [OF assms(4)]] pcb_load_def rbind_Inr_iff split: option.splits list.splits if_splits)
  have pl: "places_ok t" and w: "wakeup_ok t" and r: "returned_ok t" and ln: "lengths_ok t" using assms(1) by (auto simp: sched_inv_def)
  have "no_work_below ?t (Suc i)" if n: "no_work_below t i"
    unfolding no_work_below_def
  proof (intro allI impI conjI)
    fix j assume j: "j < Suc i"
    show "\<not> pcb_recently_exec (pcb_at ?t q)" if "q_exec (th_sched ?t) ! j = Some q" for q
      using that n j s' False place_exec(1) [OF pl assms(3), of q] by (cases "j = i") (auto simp: no_work_below_def less_Suc_eq)
    show "q_ready (th_sched ?t) = [] \<or> pcb_recently_ready (pcb_at ?t (hd (q_ready (th_sched ?t))))" if "q_exec (th_sched ?t) ! j = None"
    proof (cases "j = i \<and> q_ready ?s \<noteq> []")
      case True
      then obtain p ps where rd: "q_ready ?s = p # ps" by (cases "q_ready ?s") auto
      then show ?thesis using True that s' False place_ready(1) [OF pl, of p] by auto
    next
      case no: False
      then show ?thesis using that n j s' by (auto simp: no_work_below_def less_Suc_eq)
    qed
  qed
  then have "wakeup_ok ?t" using w assms(2) s' by (simp add: wakeup_ok_def)
  moreover have "returned_ok ?t" by (rule returned_pos [OF r]) (use assms(2) in \<open>simp_all add: s'\<close>)
  moreover have "\<forall>j < length (q_exec ?s). slot_ok quantum ?t j"
    by (intro allI impI, rule slot_ok_frame [where t = t]) (use assms(1) s' in \<open>simp_all add: sched_inv_def\<close>)
  ultimately show ?thesis
    using assms(1-3) s' by (auto simp: sched_inv_def lengths_ok_def places_ok_def places_def queues_ok_def Let_def)
qed

text \<open>The sweep at the end of an iteration.\<close>

definition unflag :: "pcb_t \<Rightarrow> pcb_t" where
  "unflag pcb = pcb\<lparr>pcb_recently_ready := False\<rparr>"

lemma unflag_fields [simp]:
  "pcb_state (unflag pcb) = pcb_state pcb" "pcb_recently_exec (unflag pcb) = pcb_recently_exec pcb"
  "runnable (unflag pcb) = runnable pcb" "\<not> pcb_recently_ready (unflag pcb)"
  by (simp_all add: unflag_def runnable_def unfinished_def)

lemma sweep_spec:
  assumes "m \<le> length (pcbs_to_ready s)" "g_sts_semaphore s \<in> {0, 1}"
    "\<And>j p. j < length (pcbs_to_ready s) \<Longrightarrow> pcbs_to_ready s ! j = Some p \<Longrightarrow>
       (\<exists>pcb. s_pcbs s p = Some pcb \<and> pcb_recently_ready pcb) \<and> (\<forall>k < length (pcbs_to_ready s). pcbs_to_ready s ! k = Some p \<longrightarrow> k = j)"
    "sts_sweep m s = Inr s'"
  shows "q_new s' = q_new s \<and> q_ready s' = q_ready s \<and> q_exit s' = q_exit s \<and> q_exec s' = q_exec s \<and>
    exec_semaphores_init s' = exec_semaphores_init s \<and> exec_semaphores s' = exec_semaphores s \<and> s_next s' = s_next s \<and>
    g_lts_semaphore s' = g_lts_semaphore s \<and> pcbs_to_ready s' = replicate m None @ drop m (pcbs_to_ready s) \<and>
    (\<forall>q. s_pcbs s' q = (if Some q \<in> set (take m (pcbs_to_ready s)) then map_option unflag (s_pcbs s q) else s_pcbs s q)) \<and>
    g_sts_semaphore s' = (if \<exists>x \<in> set (take m (pcbs_to_ready s)). x \<noteq> None then 1 else g_sts_semaphore s)"
  using assms(1,4)
proof (induction m arbitrary: s')
  case (Suc m)
  let ?tr = "pcbs_to_ready s"
  have m: "m < length ?tr" using Suc.prems(1) by simp
  obtain s1 where s1: "sts_sweep m s = Inr s1" using Suc.prems(2) by (auto simp: rbind_Inr_iff)
  note IH = Suc.IH [OF less_imp_le [OF m] s1]
  have take: "take (Suc m) ?tr = take m ?tr @ [?tr ! m]" using m by (simp add: take_Suc_conv_app_nth)
  have nth: "pcbs_to_ready s1 ! m = ?tr ! m" using IH m by (simp add: nth_append)
  have dropm: "drop m ?tr = ?tr ! m # drop (Suc m) ?tr" using m by (simp add: Cons_nth_drop_Suc)
  show ?case
  proof (cases "?tr ! m")
    case None
    then have "s' = s1" using Suc.prems(2) s1 nth by simp
    moreover have "pcbs_to_ready s1 = replicate (Suc m) None @ drop (Suc m) ?tr"
      using IH None dropm by (simp add: replicate_append_same [symmetric])
    ultimately show ?thesis using IH take None by simp
  next
    case (Some p)
    obtain pcb where pcb: "s_pcbs s p = Some pcb" "pcb_recently_ready pcb" and uniq: "\<forall>k < length ?tr. ?tr ! k = Some p \<longrightarrow> k = m"
      using assms(3) [OF m Some] by blast
    have np: "Some p \<notin> set (take m ?tr)"
    proof
      assume "Some p \<in> set (take m ?tr)"
      then obtain k where "k < m" "?tr ! k = Some p" using m by (auto simp: in_set_conv_nth)
      then show False using uniq m by (metis less_irrefl less_trans)
    qed
    then have p1: "s_pcbs s1 p = Some pcb" using IH pcb(1) by simp
    have s': "s' = sts_post_neg (pcb_update p (\<lambda>pcb. pcb\<lparr>pcb_recently_ready := False\<rparr>) s1\<lparr>pcbs_to_ready := (pcbs_to_ready s1)[m := None]\<rparr>)"
      using Suc.prems(2) s1 nth Some p1 pcb(2) by (simp add: pcb_load_def)
    have tr: "(pcbs_to_ready s1)[m := None] = replicate (Suc m) None @ drop (Suc m) ?tr"
      using IH m dropm by (simp add: list_update_append replicate_append_same [symmetric])
    have sem: "g_sts_semaphore s1 \<in> {0, 1}" using IH assms(2) by auto
    have pcbs: "s_pcbs s' q = (if Some q \<in> set (take (Suc m) ?tr) then map_option unflag (s_pcbs s q) else s_pcbs s q)" for q
      using IH np p1 pcb(1) by (auto simp: s' take Some unflag_def [abs_def])
    have sts: "g_sts_semaphore s' = 1" using sem by (auto simp: s')
    show ?thesis using IH tr pcbs sts by (simp add: s' take Some)
  qed
qed simp

lemma inv_sts_sweep:
  assumes "sched_inv quantum t" "th_pos t = Some (length (q_exec (th_sched t)))"
    "sts_sweep (length (pcbs_to_ready (th_sched t))) (th_sched t) = Inr s'"
  shows "sched_inv quantum (t\<lparr>th_sched := s', th_pos := None\<rparr>)"
proof -
  let ?s = "th_sched t" and ?t = "t\<lparr>th_sched := s', th_pos := None\<rparr>" and ?tr = "pcbs_to_ready (th_sched t)"
  have pl: "places_ok t" and w: "wakeup_ok t" and r: "returned_ok t" and ln: "lengths_ok t" and qs: "queues_ok t"
    using assms(1) by (auto simp: sched_inv_def)
  have entries: "(\<exists>pcb. s_pcbs ?s p = Some pcb \<and> pcb_recently_ready pcb) \<and> (\<forall>k < length ?tr. ?tr ! k = Some p \<longrightarrow> k = j)"
    if "j < length ?tr" "?tr ! j = Some p" for j p
  proof -
    have e: "entry_ok t j p" using r that unfolding returned_ok_def by blast
    then show ?thesis using place_ready(1) [OF pl, of p] by (auto simp: entry_ok_def)
  qed
  have sem: "g_sts_semaphore ?s \<in> {0, 1}" using w by (simp add: wakeup_ok_def)
  note sp = sweep_spec [OF order_refl sem entries assms(3), simplified]
  have f: "q_new s' = q_new ?s" "q_ready s' = q_ready ?s" "q_exit s' = q_exit ?s" "q_exec s' = q_exec ?s"
    "exec_semaphores_init s' = exec_semaphores_init ?s" "exec_semaphores s' = exec_semaphores ?s" "s_next s' = s_next ?s"
    "g_lts_semaphore s' = g_lts_semaphore ?s" "pcbs_to_ready s' = replicate (length ?tr) None"
    "\<And>q. s_pcbs s' q = (if Some q \<in> set ?tr then map_option unflag (s_pcbs ?s q) else s_pcbs ?s q)"
    "g_sts_semaphore s' = (if \<exists>x \<in> set ?tr. x \<noteq> None then 1 else g_sts_semaphore ?s)"
    using sp by auto
  have nr: "q \<in> set (q_ready ?s)" if "Some q \<in> set ?tr" for q using returned_in_ready [OF r that] .
  have same: "\<And>q. q \<in> set (q_new ?s) \<Longrightarrow> s_pcbs s' q = s_pcbs ?s q" "\<And>q. q \<in> set (q_exit ?s) \<Longrightarrow> s_pcbs s' q = s_pcbs ?s q"
    "\<And>j q. q_exec ?s ! j = Some q \<Longrightarrow> j < length (q_exec ?s) \<Longrightarrow> s_pcbs s' q = s_pcbs ?s q"
    using nr place_new(2) [OF pl] place_exit(3) [OF pl] place_exec(3) [OF pl] f(10) by metis+
  have "places_ok ?t" using pl by (simp add: places_ok_def places_def f(1-4,7,10))
  moreover have "lengths_ok ?t" using ln by (simp add: lengths_ok_def Let_def f(4-6,9))
  moreover have "queues_ok ?t"
  proof -
    have "ready_ok (the (s_pcbs s' q))" if rdy: "q \<in> set (q_ready ?s)" for q
    proof -
      obtain pcb where "s_pcbs ?s q = Some pcb" using place_ready(1) [OF pl rdy] by blast
      moreover have "ready_ok (pcb_at t q)" using qs rdy by (simp add: queues_ok_def)
      ultimately show ?thesis by (simp add: f(10) ready_ok_def)
    qed
    then show ?thesis using qs by (simp add: queues_ok_def f(1-3) same(1,2))
  qed
  moreover have "\<forall>j < length (q_exec s'). slot_ok quantum ?t j"
    by (intro allI impI, rule slot_ok_frame [where t = t]) (use assms(1) in \<open>simp_all add: sched_inv_def f(4-6) same(3)\<close>)
  moreover have unfl: "\<not> pcb_recently_ready (the (s_pcbs s' q))" if rdy: "q \<in> set (q_ready ?s)" for q
  proof -
    obtain pcb where "s_pcbs ?s q = Some pcb" using place_ready(1) [OF pl rdy] by blast
    moreover have "pcb_recently_ready (pcb_at t q) \<Longrightarrow> Some q \<in> set ?tr" using r rdy by (simp add: returned_ok_def)
    ultimately show ?thesis by (auto simp: f(10))
  qed
  moreover have "returned_ok ?t" using unfl by (simp add: returned_ok_def f(2,9))
  moreover have "wakeup_ok ?t"
  proof -
    have "no_work_below ?t (length (q_exec ?s))" if "g_sts_semaphore s' = 0"
    proof -
      have none: "\<forall>x \<in> set ?tr. x = None" "g_sts_semaphore ?s = 0" using that f(11) by (auto split: if_splits)
      then have "Some q \<notin> set ?tr" for q by blast
      then have pc: "s_pcbs s' = s_pcbs ?s" by (intro ext) (simp add: f(10))
      have "no_work_below t (length (q_exec ?s))" using w none(2) assms(2) by (simp add: wakeup_ok_def)
      then show ?thesis by (simp add: no_work_below_def f(2,4) pc)
    qed
    then show ?thesis using w sem by (auto simp: wakeup_ok_def f(1,3,4,8,9,11))
  qed
  ultimately show ?thesis unfolding sched_inv_def by simp
qed

section \<open>The executors and the callbacks\<close>

text \<open>
  A step that changes only one process on a processor, without its flags, and the semaphores and the
  executor of that processor.
\<close>

lemma inv_processor:
  assumes inv: "sched_inv quantum t" and i: "i < length (q_exec (th_sched t))" and ex: "q_exec (th_sched t) ! i = Some p"
    and pcb: "s_pcbs (th_sched t) p = Some pcb"
    and f: "q_new s' = q_new (th_sched t)" "q_ready s' = q_ready (th_sched t)" "q_exit s' = q_exit (th_sched t)" "q_exec s' = q_exec (th_sched t)"
      "exec_semaphores_init s' = (exec_semaphores_init (th_sched t))[i := a]" "exec_semaphores s' = (exec_semaphores (th_sched t))[i := b]"
      "pcbs_to_ready s' = pcbs_to_ready (th_sched t)" "g_lts_semaphore s' = g_lts_semaphore (th_sched t)" "s_next s' = s_next (th_sched t)"
      "g_sts_semaphore s' = g_sts_semaphore (th_sched t)" "\<And>q. q \<noteq> p \<Longrightarrow> s_pcbs s' q = s_pcbs (th_sched t) q" "s_pcbs s' p = Some pcb'"
    and flags: "pcb_recently_exec pcb' = pcb_recently_exec pcb" and ok: "exec_ok quantum i a b c pcb'"
  shows "sched_inv quantum (t\<lparr>th_sched := s', th_running := (th_running t)[i := c]\<rparr>)"
proof -
  let ?s = "th_sched t" and ?t = "t\<lparr>th_sched := s', th_running := (th_running t)[i := c]\<rparr>"
  have pl: "places_ok t" and w: "wakeup_ok t" and r: "returned_ok t" and ln: "lengths_ok t" and qs: "queues_ok t"
    and sl: "\<forall>i < length (q_exec ?s). slot_ok quantum t i" using inv by (auto simp: sched_inv_def)
  note pn = place_exec [OF pl i ex]
  have li: "i < length (exec_semaphores_init ?s)" "i < length (exec_semaphores ?s)" "i < length (th_running t)"
    using ln i by (simp_all add: lengths_ok_def Let_def)
  have same: "\<And>q. q \<in> set (q_new ?s) \<Longrightarrow> s_pcbs s' q = s_pcbs ?s q" "\<And>q. q \<in> set (q_ready ?s) \<Longrightarrow> s_pcbs s' q = s_pcbs ?s q"
    "\<And>q. q \<in> set (q_exit ?s) \<Longrightarrow> s_pcbs s' q = s_pcbs ?s q"
    "\<And>j q. q_exec ?s ! j = Some q \<Longrightarrow> j < length (q_exec ?s) \<Longrightarrow> j \<noteq> i \<Longrightarrow> s_pcbs s' q = s_pcbs ?s q"
    using pn f(11) by metis+
  have re: "pcb_recently_exec (the (s_pcbs s' q)) = pcb_recently_exec (pcb_at t q)" if "j < length (q_exec ?s)" "q_exec ?s ! j = Some q" for j q
    using that same(4) ex pcb f(12) flags by (cases "j = i") auto
  have moved: "places s' q = places ?s q" for q by (simp add: places_def f(1-4))
  have "places_ok ?t"
    using pl pcb f(9,11,12) unfolding places_ok_def by (simp add: moved) (metis option.distinct(1))
  moreover have "lengths_ok ?t" using ln by (simp add: lengths_ok_def Let_def f(4-7))
  moreover have "queues_ok ?t" using qs by (simp add: queues_ok_def f(1-3) same(1-3))
  moreover have "\<forall>j < length (q_exec s'). slot_ok quantum ?t j"
  proof (intro allI impI)
    fix j assume j: "j < length (q_exec s')"
    show "slot_ok quantum ?t j"
    proof (cases "j = i")
      case True
      then show ?thesis using ok li ex by (simp add: slot_ok_def f(4-6,12))
    next
      case False
      have "slot_ok quantum t j" using sl j f(4) by simp
      then show ?thesis
      proof (rule slot_ok_frame)
        show "s_pcbs (th_sched ?t) q = s_pcbs ?s q" if "q_exec ?s ! j = Some q" for q
          using same(4) [OF that] j False f(4) by simp
      qed (use False in \<open>simp_all add: f(4-6)\<close>)
    qed
  qed
  moreover have "returned_ok ?t"
    by (rule returned_frame [OF r ln]) (simp_all add: f(2,4,7) re same(2))
  moreover have "wakeup_ok ?t"
  proof -
    have "no_work_below ?t i" if "no_work_below t i" "i \<le> length (q_exec ?s)" for i
      by (rule no_work_frame [OF that]) (simp_all add: f(2,4) same(2) re)
    moreover have "\<And>i. th_pos t = Some i \<Longrightarrow> i \<le> length (q_exec ?s)" using ln by (auto simp: lengths_ok_def Let_def)
    ultimately show ?thesis using w by (cases "th_pos t") (simp_all add: wakeup_ok_def f(1,3,4,7,8,10))
  qed
  ultimately show ?thesis unfolding sched_inv_def by simp
qed

lemma executor_pcb:
  assumes "sched_inv quantum t" "i < length (q_exec (th_sched t))" "q_exec (th_sched t) ! i = Some p"
  obtains pcb where "s_pcbs (th_sched t) p = Some pcb"
    "exec_ok quantum i (exec_semaphores_init (th_sched t) ! i) (exec_semaphores (th_sched t) ! i) (th_running t ! i) pcb"
    "i < length (exec_semaphores_init (th_sched t))" "i < length (exec_semaphores (th_sched t))" "i < length (th_running t)"
proof -
  have pl: "places_ok t" and sl: "slot_ok quantum t i" and ln: "lengths_ok t" using assms by (auto simp: sched_inv_def)
  obtain pcb where pcb: "s_pcbs (th_sched t) p = Some pcb" using place_exec(1) [OF pl assms(2,3)] by blast
  have "exec_ok quantum i (exec_semaphores_init (th_sched t) ! i) (exec_semaphores (th_sched t) ! i) (th_running t ! i) pcb"
    using sl assms(3) pcb by (simp add: slot_ok_def)
  then show ?thesis using that pcb ln assms(2) by (auto simp: lengths_ok_def Let_def)
qed

lemma keepsD:
  assumes "keeps f"
  shows "pcb_state (f pcb) = pcb_state pcb" "pcb_program_counter (f pcb) = pcb_program_counter pcb" "pcb_quantum (f pcb) = pcb_quantum pcb"
    "length (pcb_statements (f pcb)) = length (pcb_statements pcb)" "pcb_recently_ready (f pcb) = pcb_recently_ready pcb"
    "pcb_recently_exec (f pcb) = pcb_recently_exec pcb" "pcb_processor (f pcb) = pcb_processor pcb"
  using assms by (simp_all add: keeps_def)

lemma inv_exec_send:
  assumes "sched_inv quantum t" "i < length (q_exec (th_sched t))" "\<not> th_running t ! i" "sem_wait_at (exec_semaphores_init (th_sched t)) i = Inr sems"
    "q_exec (th_sched t) ! i = Some p" "s_pcbs (th_sched t) p = Some pcb" "pcb_program_counter pcb < length (pcb_statements pcb)" "keeps f"
  shows "sched_inv quantum (t\<lparr>th_sched := pcb_update p f ((th_sched t)\<lparr>exec_semaphores_init := sems\<rparr>), th_running := (th_running t)[i := True]\<rparr>)"
proof -
  have pcb: "s_pcbs (th_sched t) p = Some pcb"
    "exec_ok quantum i (exec_semaphores_init (th_sched t) ! i) (exec_semaphores (th_sched t) ! i) (th_running t ! i) pcb"
    "i < length (exec_semaphores_init (th_sched t))" "i < length (exec_semaphores (th_sched t))"
    using executor_pcb [OF assms(1,2,5)] assms(6) by auto
  have sems: "sems = (exec_semaphores_init (th_sched t))[i := exec_semaphores_init (th_sched t) ! i - 1]" "0 < exec_semaphores_init (th_sched t) ! i"
    using assms(4) pcb(3) by (auto simp: sem_wait_at_def split: if_splits)
  note k = keepsD [OF assms(8), of pcb]
  have ok: "exec_ok quantum i (exec_semaphores_init (th_sched t) ! i - 1) (exec_semaphores (th_sched t) ! i) True (f pcb)"
    using pcb(2) assms(3,7) sems(2) k by (auto simp: exec_ok_def unfinished_def split: if_splits)
  show ?thesis
    by (rule inv_processor [OF assms(1,2,5) pcb(1) _ _ _ _ _ _ _ _ _ _ _ _ _ ok]) (use pcb(1,4) sems(1) k in simp_all)
qed

lemma inv_exec_cancel:
  assumes "sched_inv quantum t" "i < length (q_exec (th_sched t))" "\<not> th_running t ! i" "sem_wait_at (exec_semaphores_init (th_sched t)) i = Inr sems"
    "q_exec (th_sched t) ! i = Some p" "s_pcbs (th_sched t) p = Some pcb" "pcb_program_counter pcb < length (pcb_statements pcb)" "keeps f"
    "cancel_process p (pcb_update p f ((th_sched t)\<lparr>exec_semaphores_init := sems\<rparr>)) = Inr s'"
  shows "sched_inv quantum (t\<lparr>th_sched := s', th_running := (th_running t)[i := True]\<rparr>)"
proof -
  have pcb: "s_pcbs (th_sched t) p = Some pcb"
    "exec_ok quantum i (exec_semaphores_init (th_sched t) ! i) (exec_semaphores (th_sched t) ! i) (th_running t ! i) pcb"
    "i < length (exec_semaphores_init (th_sched t))" "i < length (exec_semaphores (th_sched t))"
    using executor_pcb [OF assms(1,2,5)] assms(6) by auto
  have sems: "sems = (exec_semaphores_init (th_sched t))[i := exec_semaphores_init (th_sched t) ! i - 1]" "0 < exec_semaphores_init (th_sched t) ! i"
    using assms(4) pcb(3) by (auto simp: sem_wait_at_def split: if_splits)
  note k = keepsD [OF assms(8), of pcb]
  let ?pcb = "(f pcb)\<lparr>pcb_errors := True, pcb_program_counter := length (pcb_statements (f pcb))\<rparr>"
  have ok: "exec_ok quantum i (exec_semaphores_init (th_sched t) ! i - 1) (exec_semaphores (th_sched t) ! i + 1) True ?pcb"
    using pcb(2) assms(3) sems(2) k by (auto simp: exec_ok_def unfinished_def split: if_splits)
  have "pcb_processor pcb = i" using pcb(2) sems(2) by (auto simp: exec_ok_def split: if_splits)
  then have s': "s' = pcb_update p (\<lambda>pcb. pcb\<lparr>pcb_errors := True, pcb_program_counter := length (pcb_statements pcb)\<rparr>)
      (pcb_update p f ((th_sched t)\<lparr>exec_semaphores_init := sems\<rparr>))\<lparr>exec_semaphores := (exec_semaphores (th_sched t))[i := exec_semaphores (th_sched t) ! i + 1]\<rparr>"
    using assms(9) pcb(1,4) k(7) by (auto simp: cancel_process_def post_exec_processor_def pcb_load_def sem_post_at_def)
  show ?thesis
    by (rule inv_processor [OF assms(1,2,5) pcb(1) _ _ _ _ _ _ _ _ _ _ _ _ _ ok]) (use pcb(1) sems(1) k in \<open>simp_all add: s'\<close>)
qed

lemma inv_callback:
  assumes "sched_inv quantum t" "i < length (q_exec (th_sched t))" "th_running t ! i" "exec_semaphores (th_sched t) ! i = 0"
    "q_exec (th_sched t) ! i = Some p" "s_pcbs (th_sched t) p = Some pcb" "keeps f"
    "post_exec_statement p (pcb_program_counter pcb) (pcb_update p f (th_sched t)) = Inr s'"
  shows "sched_inv quantum (t\<lparr>th_sched := s'\<rparr>)"
proof -
  have pcb: "exec_ok quantum i (exec_semaphores_init (th_sched t) ! i) (exec_semaphores (th_sched t) ! i) (th_running t ! i) pcb"
    "i < length (exec_semaphores_init (th_sched t))" "i < length (exec_semaphores (th_sched t))" "i < length (th_running t)"
    using executor_pcb [OF assms(1,2,5)] assms(6) by auto
  note k = keepsD [OF assms(7), of pcb]
  let ?pc = "if pcb_errors (f pcb) then length (pcb_statements (f pcb)) else pcb_program_counter (f pcb) + 1"
  let ?pcb = "post_statement (pcb_program_counter pcb) ((f pcb)\<lparr>pcb_program_counter := ?pc\<rparr>)"
  have ok: "exec_ok quantum i (exec_semaphores_init (th_sched t) ! i) (exec_semaphores (th_sched t) ! i + 1) True ?pcb"
    using pcb(1) assms(3,4) k by (auto simp: exec_ok_def unfinished_def post_statement_def split: if_splits)
  have "pcb_processor pcb = i" using pcb(1) assms(3) by (auto simp: exec_ok_def split: if_splits)
  then have s': "s' = pcb_update p (\<lambda>pcb'. post_statement (pcb_program_counter pcb) (pcb'\<lparr>pcb_program_counter := ?pc\<rparr>))
      (pcb_update p f (th_sched t))\<lparr>exec_semaphores := (exec_semaphores (th_sched t))[i := exec_semaphores (th_sched t) ! i + 1]\<rparr>"
    using assms(6,8) pcb(3) k(4,7)
    by (auto simp: post_exec_statement_def post_exec_processor_def pcb_load_def sem_post_at_def post_statement_def Let_def split: if_splits)
  have "(th_running t)[i := True] = th_running t" using assms(3) pcb(4) by (metis list_update_id)
  moreover have "sched_inv quantum (t\<lparr>th_sched := s', th_running := (th_running t)[i := True]\<rparr>)"
    by (rule inv_processor [OF assms(1,2,5,6) _ _ _ _ _ _ _ _ _ _ _ _ _ ok]) (use assms(6) k in \<open>simp_all add: s' post_statement_def\<close>)
  ultimately show ?thesis by simp
qed

text \<open>
  After an answer the executor looks at its process: finished, at the end of its quantum, or to go on.
  The first two leave the processor, in the same way but for the queue they go to.
\<close>

definition left :: "addr \<Rightarrow> nat \<Rightarrow> pcb_t \<Rightarrow> sched_state \<Rightarrow> sched_state \<Rightarrow> bool" where
  "left p i pcb' s s' \<longleftrightarrow>
     q_exit s' = q_exit s @ [p] \<and> q_ready s' = q_ready s \<and> pcbs_to_ready s' = (pcbs_to_ready s)[i := None] \<and>
       g_lts_semaphore s' = g_lts_semaphore s + 1 \<and> exit_ok pcb' \<or>
     q_exit s' = q_exit s \<and> q_ready s' = q_ready s @ [p] \<and> pcbs_to_ready s' = (pcbs_to_ready s)[i := Some p] \<and>
       g_lts_semaphore s' = g_lts_semaphore s \<and> ready_ok pcb' \<and> pcb_recently_ready pcb'"

lemma returned_left:
  assumes r: "returned_ok t" and ln: "lengths_ok t" and pl: "places_ok t" and i: "i < length (q_exec (th_sched t))"
    and ex: "q_exec (th_sched t) ! i = Some p" "\<not> pcb_recently_exec (pcb_at t p)"
    and lf: "left p i pcb' (th_sched t) s'" and f: "q_exec s' = (q_exec (th_sched t))[i := None]"
      "\<And>q. q \<noteq> p \<Longrightarrow> s_pcbs s' q = s_pcbs (th_sched t) q" "s_pcbs s' p = Some pcb'" and t': "th_sched t' = s'" "th_pos t' = th_pos t"
  shows "returned_ok t'"
  unfolding returned_ok_def
proof (intro conjI ballI allI impI)
  let ?tr = "pcbs_to_ready (th_sched t)"
  have len: "length ?tr = length (q_exec (th_sched t))" using ln by (simp add: lengths_ok_def Let_def)
  have np: "p \<notin> set (q_ready (th_sched t))" using place_exec(3) [OF pl i ex(1)] .
  have ent: "entry_ok t j q" if "j < length ?tr" "?tr ! j = Some q" for j q using r that by (simp add: returned_ok_def)
  have free: "?tr ! i = None"
  proof (rule ccontr)
    assume "?tr ! i \<noteq> None"
    then obtain q where "?tr ! i = Some q" by auto
    then show False using ent [of i q] ex i len by (auto simp: entry_ok_def)
  qed
  have absent: "Some p \<notin> set ?tr" using returned_in_ready [OF r, of p] np by blast
  have tr': "pcbs_to_ready s' = ?tr[i := x] \<and> (x = None \<or> x = Some p)" if "x = pcbs_to_ready s' ! i" for x
    using lf that i len by (auto simp: left_def)
  show "Some q \<in> set (pcbs_to_ready (th_sched t'))" if q: "q \<in> set (q_ready (th_sched t'))" "pcb_recently_ready (pcb_at t' q)" for q
  proof (cases "q = p")
    case True
    then have "pcbs_to_ready s' = ?tr[i := Some p]" using q lf t' np by (auto simp: left_def)
    then show ?thesis using True t' i len by (simp add: set_update_memI)
  next
    case False
    then have "q \<in> set (q_ready (th_sched t))" "pcb_recently_ready (pcb_at t q)" using q lf t' f(2) by (auto simp: left_def)
    then have "Some q \<in> set ?tr" using r by (simp add: returned_ok_def)
    then obtain j where "j < length ?tr" "?tr ! j = Some q" by (auto simp: in_set_conv_nth)
    then have "j < length (pcbs_to_ready s')" "pcbs_to_ready s' ! j = Some q" using free tr' by (cases "j = i"; auto)+
    then show ?thesis using t' by (metis nth_mem)
  qed
  fix j q assume j: "j < length (pcbs_to_ready (th_sched t'))" "pcbs_to_ready (th_sched t') ! j = Some q"
  show "entry_ok t' j q"
  proof (cases "j = i")
    case True
    then have q: "q = p" "pcbs_to_ready s' = ?tr[i := Some p]" using j t' tr' i len by auto
    have "?tr[i := None] \<noteq> ?tr[i := Some p]" using i len by (metis nth_list_update_eq option.distinct(1))
    then have "p \<in> set (q_ready s')" "pcb_recently_ready pcb'" using lf q(2) by (auto simp: left_def)
    moreover have "k = i" if "k < length ?tr" "?tr[i := Some p] ! k = Some p" for k
      using that absent by (cases "k = i") (auto dest: nth_mem)
    ultimately show ?thesis using True q i len f by (simp add: entry_ok_def t')
  next
    case False
    have jl: "j < length ?tr" "?tr ! j = Some q" using j t' tr' False by (auto simp: nth_list_update)
    note e = ent [OF jl]
    have qp: "q \<noteq> p" using absent jl by (auto dest: nth_mem)
    have "q \<in> set (q_ready s')" using e lf by (auto simp: entry_ok_def left_def)
    moreover have "k = j" if "k < length ?tr" "pcbs_to_ready s' ! k = Some q" for k
      using that e tr' qp by (cases "k = i") (auto simp: entry_ok_def)
    moreover have "pcb_recently_exec (the (s_pcbs s' b)) \<and> (\<exists>i. th_pos t = Some i \<and> j < i)" if b: "q_exec s' ! j = Some b" for b
    proof -
      have "q_exec (th_sched t) ! j = Some b" using b False by (simp add: f(1))
      moreover have "b \<noteq> p" using calculation place_exec(5) [OF pl i ex(1)] jl(1) len False by auto
      ultimately show ?thesis using e f(2) by (auto simp: entry_ok_def)
    qed
    ultimately show ?thesis using e f(2) qp tr' by (auto simp: entry_ok_def t')
  qed
qed

lemma inv_left:
  assumes inv: "sched_inv quantum t" and i: "i < length (q_exec (th_sched t))" and ex: "q_exec (th_sched t) ! i = Some p"
    and pcb: "s_pcbs (th_sched t) p = Some pcb" and run: "th_running t ! i" "exec_semaphores (th_sched t) ! i = 1"
    and lf: "left p i pcb' (th_sched t) s'"
    and f: "q_new s' = q_new (th_sched t)" "q_exec s' = (q_exec (th_sched t))[i := None]"
      "exec_semaphores_init s' = exec_semaphores_init (th_sched t)" "exec_semaphores s' = (exec_semaphores (th_sched t))[i := 0]"
      "s_next s' = s_next (th_sched t)" "\<And>q. q \<noteq> p \<Longrightarrow> s_pcbs s' q = s_pcbs (th_sched t) q" "s_pcbs s' p = Some pcb'"
      "g_sts_semaphore s' = (if g_sts_semaphore (th_sched t) \<le> 0 then g_sts_semaphore (th_sched t) + 1 else g_sts_semaphore (th_sched t))"
  shows "sched_inv quantum (t\<lparr>th_sched := s', th_running := (th_running t)[i := False]\<rparr>)"
proof -
  let ?s = "th_sched t" and ?t = "t\<lparr>th_sched := s', th_running := (th_running t)[i := False]\<rparr>"
  have pl: "places_ok t" and w: "wakeup_ok t" and r: "returned_ok t" and ln: "lengths_ok t" and qs: "queues_ok t"
    and sl: "\<forall>i < length (q_exec ?s). slot_ok quantum t i" using inv by (auto simp: sched_inv_def)
  note pn = place_exec [OF pl i ex]
  have eo: "exec_ok quantum i (exec_semaphores_init ?s ! i) (exec_semaphores ?s ! i) (th_running t ! i) pcb"
    and li: "i < length (exec_semaphores ?s)" "i < length (th_running t)"
    using executor_pcb [OF inv i ex] pcb by auto
  have re: "\<not> pcb_recently_exec (pcb_at t p)" and ini: "exec_semaphores_init ?s ! i = 0"
    using eo run pcb by (auto simp: exec_ok_def split: if_splits)
  have same: "\<And>q. q \<in> set (q_new ?s) \<Longrightarrow> s_pcbs s' q = s_pcbs ?s q" "\<And>q. q \<in> set (q_ready ?s) \<Longrightarrow> s_pcbs s' q = s_pcbs ?s q"
    "\<And>q. q \<in> set (q_exit ?s) \<Longrightarrow> s_pcbs s' q = s_pcbs ?s q"
    "\<And>j q. q_exec ?s ! j = Some q \<Longrightarrow> j < length (q_exec ?s) \<Longrightarrow> j \<noteq> i \<Longrightarrow> s_pcbs s' q = s_pcbs ?s q"
    using pn f(6) by metis+
  have moved: "places s' q = places ?s q" for q
    using lf count_list_update [OF i, of None "Some q"] ex by (auto simp: left_def places_def f(1,2))
  have "places_ok ?t"
    using pl pcb f(5,6,7) unfolding places_ok_def by (simp add: moved) (metis option.distinct(1))
  moreover have "lengths_ok ?t" using ln lf by (auto simp: lengths_ok_def Let_def left_def f(2-4))
  moreover have "queues_ok ?t" using qs lf by (auto simp: queues_ok_def left_def f(1,7) same(1-3))
  moreover have "\<forall>j < length (q_exec s'). slot_ok quantum ?t j"
  proof (intro allI impI)
    fix j assume j: "j < length (q_exec s')"
    show "slot_ok quantum ?t j"
    proof (cases "j = i")
      case True
      then show ?thesis using i li ini by (simp add: slot_ok_def f(2-4))
    next
      case False
      have "slot_ok quantum t j" using sl j f(2) by simp
      then show ?thesis
      proof (rule slot_ok_frame)
        show "s_pcbs (th_sched ?t) q = s_pcbs ?s q" if "q_exec ?s ! j = Some q" for q
          using same(4) [OF that] j False f(2) by simp
      qed (use False in \<open>simp_all add: f(2-4)\<close>)
    qed
  qed
  moreover have "returned_ok ?t" by (rule returned_left [OF r ln pl i ex re lf f(2,6,7)]) simp_all
  moreover have "wakeup_ok ?t"
    by (rule wakeup_posted [OF w f(8)]) (use w lf in \<open>auto simp: wakeup_ok_def left_def f(1)\<close>)
  ultimately show ?thesis unfolding sched_inv_def by simp
qed

lemma inv_check:
  assumes "sched_inv quantum t" "i < length (q_exec (th_sched t))" "th_running t ! i" "sem_wait_at (exec_semaphores (th_sched t)) i = Inr sems"
    "planifier_check quantum i ((th_sched t)\<lparr>exec_semaphores := sems\<rparr>) = Inr s'"
  shows "sched_inv quantum (t\<lparr>th_sched := s', th_running := (th_running t)[i := False]\<rparr>)"
proof -
  let ?s = "th_sched t"
  obtain p where ex: "q_exec ?s ! i = Some p" using assms(5) assms(2) by (auto simp: planifier_check_whole split: option.splits)
  obtain pcb where pcb: "s_pcbs ?s p = Some pcb"
    "exec_ok quantum i (exec_semaphores_init ?s ! i) (exec_semaphores ?s ! i) (th_running t ! i) pcb"
    and li: "i < length (exec_semaphores_init ?s)" "i < length (exec_semaphores ?s)"
    using executor_pcb [OF assms(1,2) ex] by blast
  have pos: "0 < exec_semaphores ?s ! i" and sems: "sems = (exec_semaphores ?s)[i := exec_semaphores ?s ! i - 1]"
    using assms(4) li by (auto simp: sem_wait_at_def split: if_splits)
  have eo: "exec_semaphores ?s ! i = 1" "exec_semaphores_init ?s ! i = 0" "\<not> pcb_recently_exec pcb" "\<not> pcb_recently_ready pcb"
    "pcb_state pcb = EXEC" "1 \<le> pcb_quantum pcb"
    using pcb(2) pos by (auto simp: exec_ok_def split: if_splits)
  have sems0: "sems = (exec_semaphores ?s)[i := 0]" using sems eo by simp
  have "i < length (q_exec (?s\<lparr>exec_semaphores := sems\<rparr>))" using assms(2) by simp
  note check = assms(5) [unfolded planifier_check_whole [OF this]]
  show ?thesis
  proof (cases "unfinished pcb")
    case False
    let ?pcb = "pcb\<lparr>pcb_state := EXIT\<rparr>"
    have s': "s' = sts_post_neg (pcb_update p (\<lambda>pcb. pcb\<lparr>pcb_state := EXIT\<rparr>)
        (?s\<lparr>exec_semaphores := sems\<rparr>)\<lparr>q_exec := (q_exec ?s)[i := None], q_exit := q_exit ?s @ [p],
          pcbs_to_ready := (pcbs_to_ready ?s)[i := None], g_lts_semaphore := g_lts_semaphore ?s + 1\<rparr>)"
      using check ex pcb(1) False by (simp add: pcb_load_def unfinished_def pcb_update_def)
    have "left p i ?pcb ?s s'" using eo by (simp add: left_def s' exit_ok_def)
    then show ?thesis by (rule inv_left [OF assms(1,2) ex pcb(1) assms(3) eo(1)]) (use pcb(1) in \<open>simp_all add: s' sems0\<close>)
  next
    case True
    show ?thesis
    proof (cases "pcb_quantum pcb \<ge> quantum")
      case q: True
      let ?pcb = "pcb\<lparr>pcb_state := READY, pcb_recently_ready := True\<rparr>"
      have s': "s' = sts_post_neg (pcb_update p (\<lambda>pcb. pcb\<lparr>pcb_state := READY, pcb_recently_ready := True\<rparr>)
          (?s\<lparr>exec_semaphores := sems\<rparr>)\<lparr>q_exec := (q_exec ?s)[i := None], q_ready := q_ready ?s @ [p],
            pcbs_to_ready := (pcbs_to_ready ?s)[i := Some p]\<rparr>)"
        using check ex pcb(1) True q by (simp add: pcb_load_def unfinished_def pcb_update_def)
      have "left p i ?pcb ?s s'" using eo True by (simp add: left_def s' ready_ok_def runnable_def unfinished_def)
      then show ?thesis by (rule inv_left [OF assms(1,2) ex pcb(1) assms(3) eo(1)]) (use pcb(1) in \<open>simp_all add: s' sems0\<close>)
    next
      case q: False
      let ?pcb = "pcb\<lparr>pcb_processor := i, pcb_quantum := pcb_quantum pcb + 1\<rparr>"
      have s': "s' = pcb_update p (\<lambda>pcb. pcb\<lparr>pcb_processor := i, pcb_quantum := pcb_quantum pcb + 1\<rparr>)
          (?s\<lparr>exec_semaphores := sems\<rparr>)\<lparr>exec_semaphores_init := (exec_semaphores_init ?s)[i := 1]\<rparr>"
        using check ex pcb(1) True q li eo by (simp add: pcb_load_def unfinished_def pcb_update_def sem_post_at_def)
      have ok: "exec_ok quantum i 1 0 False ?pcb" using eo True q by (simp add: exec_ok_def runnable_def unfinished_def)
      show ?thesis
        by (rule inv_processor [OF assms(1,2) ex pcb(1) _ _ _ _ _ _ _ _ _ _ _ _ _ ok]) (use pcb(1) in \<open>simp_all add: s' sems0\<close>)
    qed
  qed
qed

section \<open>Every reachable state\<close>

lemma sched_inv_step: "sched_step quantum t t' \<Longrightarrow> sched_inv quantum t \<Longrightarrow> sched_inv quantum t'"
  by (induction rule: sched_step.induct)
    (blast intro: inv_submit inv_lts inv_sts_begin inv_sts_slot inv_sts_sweep inv_exec_cancel inv_exec_send inv_callback inv_check)+

lemma sched_inv_reaches: "sched_reaches quantum t t' \<Longrightarrow> sched_inv quantum t \<Longrightarrow> sched_inv quantum t'"
  by (induction rule: sched_reaches.induct) (auto intro: sched_inv_step)

end
