(* ===== verification/Sched_Live.thy ===== *)
theory Sched_Live
  imports Sched_Inv
begin

text \<open>
  The scheduler does not stop: while a process exists some thread can take a step, or an executor is about to run a process
  without statements, which is the end of the kernel. And how many statements a processor starts before it gets another
  process.
\<close>

section \<open>The lock between bodies\<close>

lemma sweep_inner: "sts_sweep n s = Inr s' \<Longrightarrow> g_inner_scheduler_semaphore s' = g_inner_scheduler_semaphore s"
  by (induction n arbitrary: s') (auto simp: rbind_Inr_iff sts_post_neg_def pcb_update_def split: option.splits if_splits)

lemma inner_step: "sched_step quantum t t' \<Longrightarrow> g_inner_scheduler_semaphore (th_sched t') = g_inner_scheduler_semaphore (th_sched t)"
proof (induction rule: sched_step.induct)
  case (lts t s')
  then show ?case using long_term_schedule_whole [OF long_term_schedule_lock [OF lts]]
    by (auto simp: delete_pcb_def rbind_Inr_iff pcb_update_def sts_post_neg_def Let_def split: if_splits list.splits)
next
  case (sts_slot t i s')
  then show ?case using sts_slot_whole [OF sts_slot(2) sts_slot_lock [OF sts_slot(3)]]
    by (auto simp: rbind_Inr_iff pcb_update_def sts_post_neg_def split: if_splits option.splits list.splits)
next
  case (check i t sems s')
  then show ?case by (auto simp: planifier_check_whole rbind_Inr_iff pcb_update_def sts_post_neg_def split: if_splits option.splits)
qed (auto simp: submit_def get_new_pcb_def add_to_new_def Let_def case_prod_beta cancel_process_def post_exec_processor_def post_exec_statement_def
    rbind_Inr_iff sweep_inner pcb_update_def split: if_splits)

lemma inner_reaches: "sched_reaches quantum t t' \<Longrightarrow> g_inner_scheduler_semaphore (th_sched t') = g_inner_scheduler_semaphore (th_sched t)"
  by (induction rule: sched_reaches.induct) (auto simp: inner_step)

section \<open>No step of a thread fails\<close>

lemma lts_total:
  assumes "sched_inv quantum t" "q_new (th_sched t) \<noteq> [] \<or> q_exit (th_sched t) \<noteq> []" "0 < g_inner_scheduler_semaphore (th_sched t)"
  shows "\<exists>s'. long_term_schedule (th_sched t) = Inr s' \<and> s_next s' = s_next (th_sched t)"
proof -
  let ?s = "th_sched t"
  have pl: "places_ok t" and "g_lts_semaphore ?s = int (length (q_new ?s) + length (q_exit ?s))"
    using assms by (auto simp: sched_inv_def wakeup_ok_def)
  then have sem: "0 < g_lts_semaphore ?s" using assms(2) by (cases "q_new ?s"; cases "q_exit ?s") simp_all
  show ?thesis
  proof (cases "q_new ?s")
    case (Cons p ps)
    then obtain pcb where "s_pcbs ?s p = Some pcb" using place_new(1) [OF pl, of p] by auto
    then show ?thesis using Cons sem assms(3) by (simp add: long_term_schedule_whole pcb_load_def Let_def)
  next
    case Nil
    then obtain p ps where ex: "q_exit ?s = p # ps" using assms(2) by (auto simp: neq_Nil_conv)
    then obtain pcb where "s_pcbs ?s p = Some pcb" using place_exit(1) [OF pl, of p] by auto
    then show ?thesis using Nil ex sem assms(3) by (simp add: long_term_schedule_whole delete_pcb_def pcb_load_def Let_def)
  qed
qed

lemma sts_slot_total:
  assumes "sched_inv quantum t" "i < length (q_exec (th_sched t))" "0 < g_inner_scheduler_semaphore (th_sched t)"
  shows "\<exists>s'. sts_slot i (th_sched t) = Inr s' \<and> s_next s' = s_next (th_sched t)"
proof -
  let ?s = "th_sched t"
  have pl: "places_ok t" using assms(1) by (simp add: sched_inv_def)
  show ?thesis
  proof (cases "q_exec ?s ! i")
    case None
    show ?thesis
    proof (cases "q_ready ?s")
      case (Cons p ps)
      then obtain pcb where "s_pcbs ?s p = Some pcb" using place_ready(1) [OF pl, of p] by auto
      then show ?thesis using None Cons by (simp add: sts_slot_whole [OF assms(2,3)] pcb_load_def)
    qed (simp add: sts_slot_whole [OF assms(2,3)] None)
  next
    case (Some p)
    obtain pcb where "s_pcbs ?s p = Some pcb" "i < length (exec_semaphores_init ?s)" using executor_pcb [OF assms(1,2) Some] by blast
    then show ?thesis using Some by (simp add: sts_slot_whole [OF assms(2,3)] pcb_load_def sem_post_at_def)
  qed
qed

lemma sts_sweep_total:
  assumes "\<forall>p. Some p \<in> set (pcbs_to_ready s) \<longrightarrow> s_pcbs s p \<noteq> None" "n \<le> length (pcbs_to_ready s)"
  shows "\<exists>s'. sts_sweep n s = Inr s' \<and> s_next s' = s_next s \<and> (\<forall>p. s_pcbs s p \<noteq> None \<longrightarrow> s_pcbs s' p \<noteq> None) \<and>
    length (pcbs_to_ready s') = length (pcbs_to_ready s) \<and> (\<forall>p. Some p \<in> set (pcbs_to_ready s') \<longrightarrow> Some p \<in> set (pcbs_to_ready s))"
  using assms(2)
proof (induction n)
  case (Suc n)
  then obtain s1 where s1: "sts_sweep n s = Inr s1" "s_next s1 = s_next s" "\<forall>p. s_pcbs s p \<noteq> None \<longrightarrow> s_pcbs s1 p \<noteq> None"
    "length (pcbs_to_ready s1) = length (pcbs_to_ready s)" "\<forall>p. Some p \<in> set (pcbs_to_ready s1) \<longrightarrow> Some p \<in> set (pcbs_to_ready s)"
    by auto
  show ?case
  proof (cases "pcbs_to_ready s1 ! n")
    case (Some p)
    then have "Some p \<in> set (pcbs_to_ready s1)" using Suc.prems s1(4) by (metis Suc_le_lessD nth_mem)
    then obtain pcb where pcb: "s_pcbs s1 p = Some pcb" using assms(1) s1(3,5) by blast
    have sub: "Some q \<in> set (pcbs_to_ready s)" if "Some q \<in> set ((pcbs_to_ready s1)[n := None])" for q
      using that s1(5) set_update_subset_insert [of "pcbs_to_ready s1" n None] by blast
    show ?thesis using s1 Some pcb sub by (auto simp: pcb_load_def)
  qed (use s1 in auto)
qed simp

definition empty_start :: "threads \<Rightarrow> nat \<Rightarrow> bool" where
  \<comment> \<open>the executor may go on, with a process that has no statements\<close>
  "empty_start t i \<longleftrightarrow> i < length (q_exec (th_sched t)) \<and> \<not> th_running t ! i \<and> 0 < exec_semaphores_init (th_sched t) ! i \<and>
     (\<exists>p pcb. q_exec (th_sched t) ! i = Some p \<and> s_pcbs (th_sched t) p = Some pcb \<and> pcb_statements pcb = [])"

lemma executor_total:
  assumes "sched_inv quantum t" "i < length (q_exec (th_sched t))" "q_exec (th_sched t) ! i = Some p" "\<not> pcb_recently_exec (pcb_at t p)"
  shows "(\<exists>t'. sched_step quantum t t' \<and> s_next (th_sched t') = s_next (th_sched t)) \<or> empty_start t i"
proof -
  let ?s = "th_sched t"
  obtain pcb where pcb: "s_pcbs ?s p = Some pcb"
    "exec_ok quantum i (exec_semaphores_init ?s ! i) (exec_semaphores ?s ! i) (th_running t ! i) pcb"
    and li: "i < length (exec_semaphores_init ?s)" "i < length (exec_semaphores ?s)"
    using executor_pcb [OF assms(1-3)] by blast
  have idk: "keeps (\<lambda>pcb. pcb)" by (simp add: keeps_def)
  have proc: "pcb_processor pcb = i" and
    cases: "\<not> th_running t ! i \<and> exec_semaphores_init ?s ! i = 1 \<and> runnable pcb \<or>
      th_running t ! i \<and> exec_semaphores ?s ! i = 0 \<and> unfinished pcb \<or> th_running t ! i \<and> exec_semaphores ?s ! i = 1"
    using pcb assms(4) by (auto simp: exec_ok_def)
  from cases show ?thesis
  proof (elim disjE conjE)
    assume a: "\<not> th_running t ! i" "exec_semaphores_init ?s ! i = 1" "runnable pcb"
    have sems: "sem_wait_at (exec_semaphores_init ?s) i = Inr ((exec_semaphores_init ?s)[i := 0])" using li a by (simp add: sem_wait_at_def)
    show ?thesis
    proof (cases "unfinished pcb")
      case True
      then show ?thesis using sched_step.exec_send [OF assms(2) a(1) sems assms(3) pcb(1) _ idk] by (fastforce simp: unfinished_def)
    next
      case False
      then show ?thesis using a assms(2,3) pcb(1) by (auto simp: empty_start_def runnable_def)
    qed
  next
    assume a: "th_running t ! i" "exec_semaphores ?s ! i = 0" "unfinished pcb"
    obtain s' where s': "post_exec_statement p (pcb_program_counter pcb) (pcb_update p (\<lambda>pcb. pcb) ?s) = Inr s'" "s_next s' = s_next ?s"
      using a(3) pcb(1) li proc
      by (auto simp: post_exec_statement_def post_exec_processor_def pcb_load_def sem_post_at_def post_statement_def Let_def unfinished_def)
    show ?thesis using sched_step.callback [OF assms(2) a(1,2) assms(3) pcb(1) idk s'(1)] s'(2) by fastforce
  next
    assume a: "th_running t ! i" "exec_semaphores ?s ! i = 1"
    have sems: "sem_wait_at (exec_semaphores ?s) i = Inr ((exec_semaphores ?s)[i := 0])" using li a by (simp add: sem_wait_at_def)
    have "\<exists>s'. planifier_check quantum i (?s\<lparr>exec_semaphores := (exec_semaphores ?s)[i := 0]\<rparr>) = Inr s' \<and> s_next s' = s_next ?s"
      using assms(2,3) pcb(1) li by (simp add: planifier_check_whole pcb_load_def sem_post_at_def)
    then obtain s' where s': "planifier_check quantum i (?s\<lparr>exec_semaphores := (exec_semaphores ?s)[i := 0]\<rparr>) = Inr s'" "s_next s' = s_next ?s"
      by blast
    show ?thesis using sched_step.check [OF assms(2) a(1) sems s'(1)] s'(2) by fastforce
  qed
qed

lemma sts_total:
  assumes "sched_inv quantum t" "th_pos t = Some i" "0 < g_inner_scheduler_semaphore (th_sched t)"
  shows "\<exists>t'. sched_step quantum t t' \<and> s_next (th_sched t') = s_next (th_sched t)"
proof (cases "i < length (q_exec (th_sched t))")
  case True
  obtain s' where s': "sts_slot i (th_sched t) = Inr s'" "s_next s' = s_next (th_sched t)" using sts_slot_total [OF assms(1) True assms(3)] by blast
  show ?thesis using sched_step.sts_slot [OF assms(2) True s'(1)] s'(2) by fastforce
next
  case False
  have pl: "places_ok t" and r: "returned_ok t" and ln: "lengths_ok t" using assms(1) by (auto simp: sched_inv_def)
  have i: "th_pos t = Some (length (q_exec (th_sched t)))" using assms(2) False ln by (auto simp: lengths_ok_def Let_def)
  have "\<forall>p. Some p \<in> set (pcbs_to_ready (th_sched t)) \<longrightarrow> s_pcbs (th_sched t) p \<noteq> None"
    using returned_in_ready [OF r] place_ready(1) [OF pl] by force
  from sts_sweep_total [OF this order_refl] obtain s' where
    s': "sts_sweep (length (pcbs_to_ready (th_sched t))) (th_sched t) = Inr s'" "s_next s' = s_next (th_sched t)" by blast
  show ?thesis using sched_step.sts_sweep [OF i s'(1)] s'(2) by fastforce
qed

text \<open>With its semaphore at 0 the waiting short-term scheduler has no process to place or to start.\<close>

lemma sts_idle:
  assumes "sched_inv quantum t" "th_pos t = None" "g_sts_semaphore (th_sched t) = 0"
  shows "\<And>i p. i < length (q_exec (th_sched t)) \<Longrightarrow> q_exec (th_sched t) ! i = Some p \<Longrightarrow> \<not> pcb_recently_exec (pcb_at t p)"
    "q_ready (th_sched t) = [] \<or> None \<notin> set (q_exec (th_sched t))"
proof -
  have w: "no_work_below t (length (q_exec (th_sched t)))" "\<forall>x \<in> set (pcbs_to_ready (th_sched t)). x = None" and r: "returned_ok t"
    using assms by (auto simp: sched_inv_def wakeup_ok_def)
  show "\<not> pcb_recently_exec (pcb_at t p)" if "i < length (q_exec (th_sched t))" "q_exec (th_sched t) ! i = Some p" for i p
    using w(1) that by (simp add: no_work_below_def)
  show "q_ready (th_sched t) = [] \<or> None \<notin> set (q_exec (th_sched t))"
  proof (rule ccontr)
    assume "\<not> ?thesis"
    then have ne: "q_ready (th_sched t) \<noteq> []" and "None \<in> set (q_exec (th_sched t))" by auto
    then obtain i where "i < length (q_exec (th_sched t))" "q_exec (th_sched t) ! i = None" by (auto simp: in_set_conv_nth)
    then have "pcb_recently_ready (pcb_at t (hd (q_ready (th_sched t))))" using w(1) ne by (auto simp: no_work_below_def)
    then have "Some (hd (q_ready (th_sched t))) \<in> set (pcbs_to_ready (th_sched t))" using r ne by (simp add: returned_ok_def)
    then show False using w(2) by blast
  qed
qed

lemma process_is_queued:
  assumes "places_ok t" "s_pcbs (th_sched t) p \<noteq> None"
  shows "p \<in> set (q_new (th_sched t)) \<or> p \<in> set (q_ready (th_sched t)) \<or> p \<in> set (q_exit (th_sched t)) \<or> Some p \<in> set (q_exec (th_sched t))"
proof -
  have "places (th_sched t) p = 1" using assms by (simp add: places_ok_def)
  moreover have "places (th_sched t) p = 0" if "\<not> ?thesis" using that by (simp add: places_def count_list_0_iff)
  ultimately show ?thesis by auto
qed

lemma sched_progress:
  assumes "sched_inv quantum t" "q_exec (th_sched t) \<noteq> []" "s_pcbs (th_sched t) p \<noteq> None" "0 < g_inner_scheduler_semaphore (th_sched t)"
  shows "(\<exists>t'. sched_step quantum t t' \<and> s_next (th_sched t') = s_next (th_sched t)) \<or> (\<exists>i. empty_start t i)"
proof -
  let ?s = "th_sched t"
  have pl: "places_ok t" and w: "wakeup_ok t" using assms(1) by (auto simp: sched_inv_def)
  consider (lts) "q_new ?s \<noteq> [] \<or> q_exit ?s \<noteq> []" | (busy) i where "th_pos t = Some i" | (wake) "th_pos t = None" "0 < g_sts_semaphore ?s"
    | (idle) "q_new ?s = []" "q_exit ?s = []" "th_pos t = None" "g_sts_semaphore ?s = 0"
    using w by (cases "th_pos t") (auto simp: wakeup_ok_def)
  then show ?thesis
  proof cases
    case lts
    then obtain s' where "long_term_schedule ?s = Inr s'" "s_next s' = s_next ?s" using lts_total [OF assms(1) _ assms(4)] by blast
    then show ?thesis using sched_step.lts [of t s'] by fastforce
  next
    case wake
    then show ?thesis using sched_step.sts_begin [of t] by fastforce
  next
    case idle
    note none = sts_idle [OF assms(1) idle(3,4)]
    have "\<exists>i q. i < length (q_exec ?s) \<and> q_exec ?s ! i = Some q"
    proof (cases "q_ready ?s = []")
      case True
      then have "Some p \<in> set (q_exec ?s)" using process_is_queued [OF pl assms(3)] idle(1,2) by simp
      then show ?thesis by (auto simp: in_set_conv_nth)
    next
      case False
      then have "q_exec ?s ! 0 \<noteq> None" using none(2) assms(2) by (metis length_greater_0_conv nth_mem)
      then show ?thesis using assms(2) by blast
    qed
    then obtain i q where "i < length (q_exec ?s)" "q_exec ?s ! i = Some q" by blast
    then show ?thesis using executor_total [OF assms(1)] none(1) by blast
  qed (use sts_total [OF assms(1) _ assms(4)] in blast)
qed


section \<open>The number of processors\<close>

lemma sweep_processors: "sts_sweep n s = Inr s' \<Longrightarrow> q_exec s' = q_exec s"
  by (induction n arbitrary: s') (auto simp: rbind_Inr_iff split: option.splits if_splits)

lemma processors_step: "sched_step quantum t t' \<Longrightarrow> length (q_exec (th_sched t')) = length (q_exec (th_sched t))"
proof (induction rule: sched_step.induct)
  case (lts t s')
  then show ?case using long_term_schedule_whole [OF long_term_schedule_lock [OF lts]]
    by (auto simp: delete_pcb_def rbind_Inr_iff Let_def split: if_splits list.splits)
next
  case (sts_slot t i s')
  then show ?case using sts_slot_whole [OF sts_slot(2) sts_slot_lock [OF sts_slot(3)]]
    by (auto simp: rbind_Inr_iff split: if_splits option.splits list.splits)
next
  case (check i t sems s')
  then show ?case by (auto simp: planifier_check_whole rbind_Inr_iff split: if_splits option.splits)
qed (auto simp: submit_def get_new_pcb_def add_to_new_def Let_def case_prod_beta cancel_process_def post_exec_processor_def post_exec_statement_def
    rbind_Inr_iff sweep_processors split: if_splits)

lemma processors_reaches: "sched_reaches quantum t t' \<Longrightarrow> length (q_exec (th_sched t')) = length (q_exec (th_sched t))"
  by (induction rule: sched_reaches.induct) (auto simp: processors_step)

end
