(* ===== verification/Sched_Refine.thy ===== *)
theory Sched_Refine
  imports Sched_Live
begin

text \<open>
  The functions of \<open>Kernel_Exec\<close> are steps of the threads: \<open>exec_next_statement\<close> either cancels the
  process or sends one request for it, and the callback of that request ends the statement.
\<close>

section \<open>What is written to a process\<close>

definition touches :: "addr \<Rightarrow> sched_state \<Rightarrow> sched_state \<Rightarrow> bool" where
  "touches p s s' \<longleftrightarrow> (\<exists>f. keeps f \<and> s' = pcb_update p f s)"

definition cancels :: "addr \<Rightarrow> sched_state \<Rightarrow> sched_state \<Rightarrow> bool" where
  "cancels p s s' \<longleftrightarrow> (\<exists>s1. touches p s s1 \<and> cancel_process p s1 = Inr s')"

lemma pcb_update_pcb_update: "pcb_update p g (pcb_update p f s) = pcb_update p (g \<circ> f) s"
  by (simp add: pcb_update_def option.map_comp)

lemma pcb_update_id: "pcb_update p (\<lambda>pcb. pcb) s = s"
  by (simp add: pcb_update_def option.map_ident)

lemma touches_refl [intro, simp]: "touches p s s"
  unfolding touches_def by (rule exI [of _ "\<lambda>pcb. pcb"]) (simp add: keeps_def pcb_update_id)

lemma touches_trans: "touches p s s1 \<Longrightarrow> touches p s1 s2 \<Longrightarrow> touches p s s2"
proof -
  assume "touches p s s1" "touches p s1 s2"
  then obtain f g where "keeps f" "keeps g" "s2 = pcb_update p (g \<circ> f) s" by (auto simp: touches_def pcb_update_pcb_update)
  moreover have "keeps (g \<circ> f)" using calculation(1,2) by (simp add: keeps_def)
  ultimately show ?thesis by (auto simp: touches_def)
qed

lemma touches_update: "keeps f \<Longrightarrow> touches p s (pcb_update p f s)"
  by (auto simp: touches_def)

lemma cancels_trans: "touches p s s1 \<Longrightarrow> cancels p s1 s2 \<Longrightarrow> cancels p s s2"
  using touches_trans unfolding cancels_def by blast

lemma cancels_now: "cancel_process p s = Inr s' \<Longrightarrow> cancels p s s'"
  unfolding cancels_def by blast

lemma touches_event: "add_event now p f st = Inr st' \<Longrightarrow> touches p (ks_sched st) (ks_sched st')"
  by (auto simp: add_event_def rbind_Inr_iff Let_def keeps_def intro!: touches_update)

lemma touches_send:
  "send_statement p current memory request st = Inr (st', evs) \<Longrightarrow> touches p (ks_sched st) (ks_sched st') \<and> length evs = 1"
  by (auto simp: send_statement_def rbind_Inr_iff keeps_def intro!: touches_update split: option.splits)

lemma with_sched_Inr: "with_sched f st = Inr st' \<longleftrightarrow> (\<exists>s. f (ks_sched st) = Inr s \<and> st' = st\<lparr>ks_sched := s\<rparr>)"
  by (auto simp: with_sched_def rbind_Inr_iff)

section \<open>The executor\<close>

definition starts :: "addr \<Rightarrow> sched_state \<Rightarrow> kernel_state \<times> kernel_event list \<Rightarrow> bool" where
  \<comment> \<open>what starting a statement leads to\<close>
  "starts p s r \<longleftrightarrow> (case r of (st, evs) \<Rightarrow> evs = [] \<and> cancels p s (ks_sched st) \<or> length evs = 1 \<and> touches p s (ks_sched st))"

lemma starts_cancel: "with_sched (cancel_process p) st = Inr st' \<Longrightarrow> starts p (ks_sched st) (st', [])"
  by (auto simp: with_sched_Inr starts_def intro: cancels_now)

lemma starts_send: "send_statement p current memory request st = Inr r \<Longrightarrow> starts p (ks_sched st) r"
  using touches_send [of p current memory request st "fst r" "snd r"] by (simp add: starts_def case_prod_beta)

lemma starts_touched: "touches p s s1 \<Longrightarrow> starts p s1 r \<Longrightarrow> starts p s r"
  by (auto simp: starts_def intro: cancels_trans touches_trans)

lemma starts_data:
  assumes "exec_data_statement cm now p current statement request table_name st = Inr r"
  shows "starts p (ks_sched st) r"
proof (cases "get_consistency_from_table cm (ks_metadata st) table_name")
  case None
  then show ?thesis using assms by (simp add: exec_data_statement_def)
next
  case (Some consistency)
  obtain chosen km where ch: "choose_memory consistency (statement_key statement) (ks_mem st) = Inr (chosen, km)"
    using assms Some by (auto simp: exec_data_statement_def rbind_Inr_iff)
  let ?st = "st\<lparr>ks_mem := km\<rparr>"
  show ?thesis
  proof (cases chosen)
    case None
    obtain st2 st3 where e: "add_event now p (\<lambda>e. e\<lparr>ev_timestamp_end := now, ev_memory := -1, ev_consistency := Some consistency\<rparr>) ?st = Inr st2"
      and c: "with_sched (cancel_process p) st2 = Inr st3" and r: "r = (st3, [])"
      using assms Some ch None by (auto simp: exec_data_statement_def rbind_Inr_iff)
    show ?thesis using starts_touched [OF touches_event [OF e] starts_cancel [OF c]] r by simp
  next
    case (Some memory)
    note known = \<open>get_consistency_from_table cm (ks_metadata st) table_name = Some consistency\<close>
    obtain m where m: "load km memory = Inr m"
      using assms known ch Some by (auto simp: exec_data_statement_def rbind_Inr_iff)
    have "send_statement p current memory request (upd_pcb p (\<lambda>pcb. pcb\<lparr>pcb_last_execution_stats :=
        (pcb_last_execution_stats pcb)\<lparr>ev_memory := mem_id m, ev_consistency := Some consistency\<rparr>\<rparr>) ?st) = Inr r"
      using assms known ch Some m by (simp add: exec_data_statement_def)
    moreover have "touches p (ks_sched st) (pcb_update p (\<lambda>pcb. pcb\<lparr>pcb_last_execution_stats :=
        (pcb_last_execution_stats pcb)\<lparr>ev_memory := mem_id m, ev_consistency := Some consistency\<rparr>\<rparr>) (ks_sched st))"
      by (rule touches_update) (simp add: keeps_def)
    ultimately show ?thesis using starts_send starts_touched by fastforce
  qed
qed

lemma starts_other:
  "exec_other_statement random p current request st = Inr r \<Longrightarrow> starts p (ks_sched st) r"
  by (auto simp: exec_other_statement_def rbind_Inr_iff intro: starts_cancel starts_send split: option.splits)

lemma starts_remote:
  assumes "exec_remote cm random now p current statement st = Inr r" "stm_operation statement \<noteq> JOURNAL"
  shows "starts p (ks_sched st) r"
proof -
  obtain request where "network_request statement = Inr request" using assms by (auto simp: exec_remote_def rbind_Inr_iff)
  note rem = assms(1) [unfolded exec_remote_def if_not_P [OF assms(2)] this rbind_simps]
  show ?thesis
  proof (cases "checked_table statement")
    case None
    then show ?thesis using rem starts_other by simp
  next
    case (Some table_name)
    show ?thesis
    proof (cases "table_exists_in_metadata cm (ks_metadata st) table_name")
      case True
      then show ?thesis using rem Some starts_other starts_data by (simp split: if_splits)
    next
      case False
      then obtain st1 st2 where e: "(if stm_operation statement \<le> INSERT then add_event now p (\<lambda>e. e\<lparr>ev_timestamp_end := now\<rparr>) st else Inr st) = Inr st1"
        and c: "with_sched (cancel_process p) st1 = Inr st2" and r: "r = (st2, [])"
        using rem Some by (auto simp: rbind_Inr_iff simp del: if_split)
      have "touches p (ks_sched st) (ks_sched st1)"
        using e touches_event [of now p _ st st1] by (cases "stm_operation statement \<le> INSERT") auto
      then show ?thesis using starts_touched starts_cancel [OF c] r by blast
    qed
  qed
qed

lemma starts_next:
  assumes "exec_next_statement cm random now i st = Inr r" "q_exec (ks_sched st) ! i = Some p" "s_pcbs (ks_sched st) p = Some pcb"
    "stm_operation (pcb_statements pcb ! pcb_program_counter pcb) \<noteq> JOURNAL"
  shows "starts p (ks_sched st) r"
proof -
  let ?statement = "pcb_statements pcb ! pcb_program_counter pcb"
  obtain st1 where st1: "exec_remote cm random now p (pcb_program_counter pcb) ?statement st1 = Inr r" "touches p (ks_sched st) (ks_sched st1)"
  proof (cases "stm_operation ?statement \<le> INSERT")
    case True
    let ?e = "\<lparr>ev_timestamp_start = now, ev_timestamp_end = now, ev_memory = 0,
      ev_event_type = (if stm_operation ?statement = SELECT then SELECT_EVENT else INSERT_EVENT), ev_consistency = None\<rparr>"
    have "exec_remote cm random now p (pcb_program_counter pcb) ?statement (upd_pcb p (\<lambda>pcb. pcb\<lparr>pcb_last_execution_stats := ?e\<rparr>) st) = Inr r"
      using assms(1-3) True by (simp add: exec_next_statement_def pcb_load_def Let_def split: if_splits)
    moreover have "touches p (ks_sched st) (pcb_update p (\<lambda>pcb. pcb\<lparr>pcb_last_execution_stats := ?e\<rparr>) (ks_sched st))"
      by (rule touches_update) (simp add: keeps_def)
    ultimately show ?thesis using that by simp
  next
    case False
    then have "exec_remote cm random now p (pcb_program_counter pcb) ?statement st = Inr r"
      using assms(1-3) by (simp add: exec_next_statement_def pcb_load_def Let_def split: if_splits)
    then show ?thesis using that by simp
  qed
  show ?thesis using starts_touched [OF st1(2) starts_remote [OF st1(1) assms(4)]] .
qed

section \<open>The callbacks\<close>

lemma touches_failed: "touches p (ks_sched st) (ks_sched (process_failed b p st))"
  by (auto simp: process_failed_def keeps_def intro!: touches_update)

lemma touches_lost: "lost_memory now p current st = Inr (st', evs) \<Longrightarrow> touches p (ks_sched st) (ks_sched st')"
  by (auto simp: lost_memory_def rbind_Inr_iff keeps_def intro!: touches_update split: if_splits option.splits)

lemma with_update_sched [simp]: "ks_sched (with_update upd st) = ks_sched st"
  by (simp add: with_update_def split: option.split)

definition finishes :: "addr \<Rightarrow> nat \<Rightarrow> sched_state \<Rightarrow> sched_state \<Rightarrow> bool" where
  "finishes p current s s' \<longleftrightarrow> (\<exists>s1. touches p s s1 \<and> post_exec_statement p current s1 = Inr s')"

lemma finishes_finish:
  assumes "finish_statement p current r = Inr (st', evs)" "\<And>st1 evs1. r = Inr (st1, evs1) \<Longrightarrow> touches p s (ks_sched st1)"
  shows "finishes p current s (ks_sched st')"
  using assms by (auto simp: finish_statement_def rbind_Inr_iff with_sched_Inr finishes_def)

lemma touches_measured:
  assumes "measured now p r = Inr (st', evs)" "\<And>st1 evs1. r = Inr (st1, evs1) \<Longrightarrow> touches p s (ks_sched st1)"
  shows "touches p s (ks_sched st')"
  using assms touches_event touches_trans by (fastforce simp: measured_def rbind_Inr_iff)

lemma with_current_Inr:
  "with_current p st f = Inr r \<longleftrightarrow> (\<exists>pcb. s_pcbs (ks_sched st) p = Some pcb \<and> f (pcb_program_counter pcb) = Inr r)"
  by (auto simp: with_current_def rbind_Inr_iff pcb_load_Inr)

lemmas touches_answer = touches_failed touches_lost

lemma finishes_select:
  assumes "on_select now result p st = Inr (st', evs)"
  shows "\<exists>pcb. s_pcbs (ks_sched st) p = Some pcb \<and> finishes p (pcb_program_counter pcb) (ks_sched st) (ks_sched st')"
proof -
  obtain pcb where pcb: "s_pcbs (ks_sched st) p = Some pcb" and fin:
    "finish_statement p (pcb_program_counter pcb) (measured now p
       (case result of
          None \<Rightarrow> lost_memory now p (pcb_program_counter pcb) st
        | Some record \<Rightarrow> Inr (process_failed (rec_timestamp record \<in> {-4, -3, -2}) p st, []))) = Inr (st', evs)"
    using assms by (auto simp: on_select_def with_current_Inr)
  have "finishes p (pcb_program_counter pcb) (ks_sched st) (ks_sched st')"
    by (rule finishes_finish [OF fin], erule touches_measured) (auto intro: touches_answer split: option.splits)
  then show ?thesis using pcb by blast
qed

lemma finishes_insert:
  assumes "on_insert now result p st = Inr (st', evs)"
  shows "\<exists>pcb. s_pcbs (ks_sched st) p = Some pcb \<and> finishes p (pcb_program_counter pcb) (ks_sched st) (ks_sched st')"
proof -
  obtain pcb where pcb: "s_pcbs (ks_sched st) p = Some pcb" and fin:
    "finish_statement p (pcb_program_counter pcb) (measured now p
       (case result of
          None \<Rightarrow> lost_memory now p (pcb_program_counter pcb) st
        | Some status \<Rightarrow> Inr (process_failed (status = -4) p st, []))) = Inr (st', evs)"
    using assms by (auto simp: on_insert_def with_current_Inr)
  have "finishes p (pcb_program_counter pcb) (ks_sched st) (ks_sched st')"
    by (rule finishes_finish [OF fin], erule touches_measured) (auto intro: touches_answer split: option.splits)
  then show ?thesis using pcb by blast
qed

lemma finishes_create:
  assumes "on_create now result p st = Inr (st', evs)"
  shows "\<exists>pcb. s_pcbs (ks_sched st) p = Some pcb \<and> finishes p (pcb_program_counter pcb) (ks_sched st) (ks_sched st')"
proof -
  obtain pcb where pcb: "s_pcbs (ks_sched st) p = Some pcb"
    using assms by (auto simp: on_create_def with_current_Inr)
  note fin = assms [unfolded on_create_def with_current_def pcb_load_def pcb option.case rbind_simps]
  have "finishes p (pcb_program_counter pcb) (ks_sched st) (ks_sched st')"
    by (rule finishes_finish [OF fin]) (auto intro: touches_answer split: option.splits if_splits)
  then show ?thesis using pcb by blast
qed

lemma finishes_describe:
  assumes "on_describe now result p st = Inr (st', evs)"
  shows "\<exists>pcb. s_pcbs (ks_sched st) p = Some pcb \<and> finishes p (pcb_program_counter pcb) (ks_sched st) (ks_sched st')"
proof -
  obtain pcb where pcb: "s_pcbs (ks_sched st) p = Some pcb"
    using assms by (auto simp: on_describe_def with_current_Inr)
  note fin = assms [unfolded on_describe_def with_current_def pcb_load_def pcb option.case rbind_simps]
  have "finishes p (pcb_program_counter pcb) (ks_sched st) (ks_sched st')"
    by (rule finishes_finish [OF fin]) (auto intro: touches_answer split: option.splits if_splits)
  then show ?thesis using pcb by blast
qed

lemma finishes_drop:
  assumes "on_drop garbage now result p st = Inr (st', evs)"
  shows "\<exists>pcb. s_pcbs (ks_sched st) p = Some pcb \<and> finishes p (pcb_program_counter pcb) (ks_sched st) (ks_sched st')"
proof -
  obtain pcb where pcb: "s_pcbs (ks_sched st) p = Some pcb"
    using assms by (auto simp: on_drop_def with_current_Inr)
  note fin = assms [unfolded on_drop_def with_current_def pcb_load_def pcb option.case rbind_simps]
  have "finishes p (pcb_program_counter pcb) (ks_sched st) (ks_sched st')"
    by (rule finishes_finish [OF fin]) (auto intro: touches_answer split: option.splits if_splits)
  then show ?thesis using pcb by blast
qed

section \<open>Steps\<close>

lemma executor_step:
  assumes i: "i < length (q_exec (th_sched t))" and run: "\<not> th_running t ! i" and w: "sem_wait_at (exec_semaphores_init (th_sched t)) i = Inr sems"
    and st: "ks_sched st = (th_sched t)\<lparr>exec_semaphores_init := sems\<rparr>" and p: "q_exec (th_sched t) ! i = Some p" "s_pcbs (th_sched t) p = Some pcb"
    and op: "stm_operation (pcb_statements pcb ! pcb_program_counter pcb) \<noteq> JOURNAL"
    and ex: "exec_next_statement cm random now i st = Inr (st', evs)"
  shows "sched_step quantum t (t\<lparr>th_sched := ks_sched st', th_running := (th_running t)[i := True]\<rparr>) \<and> length evs \<le> 1"
proof -
  have pc: "pcb_program_counter pcb < length (pcb_statements pcb)"
    using ex st p by (auto simp: exec_next_statement_def pcb_load_def split: if_splits)
  have "starts p (ks_sched st) (st', evs)" using starts_next [OF ex] st p op by simp
  then consider (cancel) s1 where "evs = []" "touches p (ks_sched st) s1" "cancel_process p s1 = Inr (ks_sched st')"
    | (send) "length evs = 1" "touches p (ks_sched st) (ks_sched st')"
    by (auto simp: starts_def cancels_def)
  then show ?thesis
  proof cases
    case cancel
    then obtain f where "keeps f" "s1 = pcb_update p f ((th_sched t)\<lparr>exec_semaphores_init := sems\<rparr>)" using st by (auto simp: touches_def)
    then show ?thesis using sched_step.exec_cancel [OF i run w p pc] cancel by auto
  next
    case send
    then obtain f where "keeps f" "ks_sched st' = pcb_update p f ((th_sched t)\<lparr>exec_semaphores_init := sems\<rparr>)" using st by (auto simp: touches_def)
    then show ?thesis using sched_step.exec_send [OF i run w p pc] send by auto
  qed
qed

lemma finishes_step:
  assumes "i < length (q_exec (th_sched t))" "th_running t ! i" "exec_semaphores (th_sched t) ! i = 0" "q_exec (th_sched t) ! i = Some p"
    "s_pcbs (th_sched t) p = Some pcb" "finishes p (pcb_program_counter pcb) (th_sched t) s'"
  shows "sched_step quantum t (t\<lparr>th_sched := s'\<rparr>)"
proof -
  obtain f where "keeps f" "post_exec_statement p (pcb_program_counter pcb) (pcb_update p f (th_sched t)) = Inr s'"
    using assms(6) by (auto simp: finishes_def touches_def)
  then show ?thesis using sched_step.callback [OF assms(1-5)] by blast
qed

text \<open>The callbacks of the requests a process sends, with the answer.\<close>

datatype answer = Select_Answer "record_t option" | Insert_Answer "int option" | Create_Answer "int option"
  | Describe_Answer "table_metadata_t list option" | Drop_Answer "int option"

fun on_answer :: "table_metadata_t \<Rightarrow> int \<Rightarrow> answer \<Rightarrow> addr \<Rightarrow> kernel_state \<Rightarrow> kernel_state kstep" where
  "on_answer garbage now (Select_Answer result) = on_select now result"
| "on_answer garbage now (Insert_Answer result) = on_insert now result"
| "on_answer garbage now (Create_Answer result) = on_create now result"
| "on_answer garbage now (Describe_Answer result) = on_describe now result"
| "on_answer garbage now (Drop_Answer result) = on_drop garbage now result"

lemma finishes_answer:
  "on_answer garbage now answer p st = Inr (st', evs) \<Longrightarrow>
   \<exists>pcb. s_pcbs (ks_sched st) p = Some pcb \<and> finishes p (pcb_program_counter pcb) (ks_sched st) (ks_sched st')"
  by (cases answer) (auto dest: finishes_select finishes_insert finishes_create finishes_describe finishes_drop)

lemma answer_step:
  assumes "i < length (q_exec (th_sched t))" "th_running t ! i" "exec_semaphores (th_sched t) ! i = 0" "q_exec (th_sched t) ! i = Some p"
    "ks_sched st = th_sched t" "on_answer garbage now answer p st = Inr (st', evs)"
  shows "sched_step quantum t (t\<lparr>th_sched := ks_sched st'\<rparr>)"
proof -
  obtain pcb where "s_pcbs (th_sched t) p = Some pcb" "finishes p (pcb_program_counter pcb) (th_sched t) (ks_sched st')"
    using finishes_answer [OF assms(6)] assms(5) by auto
  then show ?thesis using finishes_step [OF assms(1-4)] by blast
qed

end
