(* ===== verification/Sched_Quantum.thy ===== *)
theory Sched_Quantum
  imports Sched_Live
begin

text \<open>
  The quantum: how many statements a processor starts along a run of the threads before it is given another process. The proof
  is a budget that every start uses up and no step restores.
\<close>

section \<open>Runs\<close>

fun sched_path :: "int \<Rightarrow> threads list \<Rightarrow> bool" where
  "sched_path quantum (t # t' # ts) \<longleftrightarrow> sched_step quantum t t' \<and> sched_path quantum (t' # ts)"
| "sched_path quantum ts \<longleftrightarrow> True"

definition starts_statement :: "nat \<Rightarrow> threads \<Rightarrow> threads \<Rightarrow> bool" where
  \<comment> \<open>the executor has passed \<open>sem_wait(semaphore_init)\<close> and called \<open>exec_next_statement\<close>\<close>
  "starts_statement i t t' \<longleftrightarrow> \<not> th_running t ! i \<and> th_running t' ! i"

definition gets_process :: "nat \<Rightarrow> threads \<Rightarrow> threads \<Rightarrow> bool" where
  "gets_process i t t' \<longleftrightarrow> q_exec (th_sched t) ! i = None \<and> q_exec (th_sched t') ! i \<noteq> None"

fun statements_started :: "nat \<Rightarrow> threads list \<Rightarrow> nat" where
  "statements_started i (t # t' # ts) = (if starts_statement i t t' then 1 else 0) + statements_started i (t' # ts)"
| "statements_started i ts = 0"

fun processes_given :: "nat \<Rightarrow> threads list \<Rightarrow> nat" where
  "processes_given i (t # t' # ts) = (if gets_process i t t' then 1 else 0) + processes_given i (t' # ts)"
| "processes_given i ts = 0"

section \<open>The budget of a processor\<close>

definition budget :: "int \<Rightarrow> threads \<Rightarrow> nat \<Rightarrow> int" where
  "budget quantum t i =
     (case q_exec (th_sched t) ! i of
        None \<Rightarrow> 0
      | Some p \<Rightarrow> if pcb_recently_exec (pcb_at t p) then max 1 quantum
          else max 1 quantum - pcb_quantum (pcb_at t p) + (if th_running t ! i then 0 else 1))"

lemma budget_range:
  assumes "sched_inv quantum t" "i < length (q_exec (th_sched t))"
  shows "0 \<le> budget quantum t i" "budget quantum t i \<le> max 1 quantum"
proof -
  have "slot_ok quantum t i" using assms by (simp add: sched_inv_def)
  then show "0 \<le> budget quantum t i" "budget quantum t i \<le> max 1 quantum"
    by (auto simp: budget_def slot_ok_def exec_ok_def split: option.splits if_splits)
qed

lemma budget_frame:
  assumes "q_exec (th_sched t') ! i = q_exec (th_sched t) ! i" "th_running t' ! i = th_running t ! i"
    "\<And>p. q_exec (th_sched t) ! i = Some p \<Longrightarrow>
       pcb_recently_exec (pcb_at t' p) = pcb_recently_exec (pcb_at t p) \<and> pcb_quantum (pcb_at t' p) = pcb_quantum (pcb_at t p)"
  shows "budget quantum t' i + of_bool (starts_statement i t t') = budget quantum t i"
  using assms by (auto simp: budget_def starts_statement_def split: option.split)

text \<open>A step of another processor.\<close>

lemma budget_other:
  assumes "sched_inv quantum t" "i < length (q_exec (th_sched t))" "j < length (q_exec (th_sched t))" "i \<noteq> j" "q_exec (th_sched t) ! j = Some p"
    "q_exec (th_sched t') ! i = q_exec (th_sched t) ! i" "th_running t' ! i = th_running t ! i" "\<And>q. q \<noteq> p \<Longrightarrow> s_pcbs (th_sched t') q = s_pcbs (th_sched t) q"
  shows "budget quantum t' i + of_bool (starts_statement i t t') = budget quantum t i"
proof (rule budget_frame [OF assms(6,7)])
  have pl: "places_ok t" using assms(1) by (simp add: sched_inv_def)
  fix q assume q: "q_exec (th_sched t) ! i = Some q"
  then have "q \<noteq> p" using place_exec(5) [OF pl assms(2) q, of j] assms(3,4,5) by auto
  then show "pcb_recently_exec (pcb_at t' q) = pcb_recently_exec (pcb_at t q) \<and> pcb_quantum (pcb_at t' q) = pcb_quantum (pcb_at t q)"
    using assms(8) by simp
qed

lemma budget_lts:
  assumes "sched_inv quantum t" "i < length (q_exec (th_sched t))" "long_term_schedule (th_sched t) = Inr s'"
  shows "budget quantum (t\<lparr>th_sched := s'\<rparr>) i + of_bool (starts_statement i t (t\<lparr>th_sched := s'\<rparr>)) = budget quantum t i"
proof (rule budget_frame)
  have pl: "places_ok t" using assms(1) by (simp add: sched_inv_def)
  note run = assms(3) [unfolded long_term_schedule_whole [OF long_term_schedule_lock [OF assms(3)]]]
  show "q_exec (th_sched (t\<lparr>th_sched := s'\<rparr>)) ! i = q_exec (th_sched t) ! i"
    using run by (auto simp: delete_pcb_def rbind_Inr_iff Let_def split: if_splits list.splits)
  fix p assume p: "q_exec (th_sched t) ! i = Some p"
  have "p \<notin> set (q_new (th_sched t))" "p \<notin> set (q_exit (th_sched t))" using place_exec(2,4) [OF pl assms(2) p] by auto
  then have "s_pcbs s' p = s_pcbs (th_sched t) p"
    using run by (auto simp: delete_pcb_def rbind_Inr_iff Let_def split: if_splits list.splits)
  then show "pcb_recently_exec (pcb_at (t\<lparr>th_sched := s'\<rparr>) p) = pcb_recently_exec (pcb_at t p) \<and>
      pcb_quantum (pcb_at (t\<lparr>th_sched := s'\<rparr>) p) = pcb_quantum (pcb_at t p)" by simp
qed simp

lemma sweep_keeps:
  "sts_sweep n s = Inr s' \<Longrightarrow> pcb_recently_exec (the (s_pcbs s' p)) = pcb_recently_exec (the (s_pcbs s p)) \<and>
     pcb_quantum (the (s_pcbs s' p)) = pcb_quantum (the (s_pcbs s p))"
proof (induction n arbitrary: s')
  case (Suc n)
  then obtain s1 where "sts_sweep n s = Inr s1" by (auto simp: rbind_Inr_iff)
  with Suc show ?case by (auto simp: rbind_Inr_iff pcb_load_Inr split: option.splits if_splits)
qed simp

lemma budget_slot:
  assumes inv: "sched_inv quantum t" and i: "i < length (q_exec (th_sched t))" and j: "j < length (q_exec (th_sched t))"
    and s': "sts_slot j (th_sched t) = Inr s'" and t': "t' = t\<lparr>th_sched := s', th_pos := pos\<rparr>" and no: "\<not> gets_process i t t'"
  shows "budget quantum t' i + of_bool (starts_statement i t t') \<le> budget quantum t i"
proof -
  have pl: "places_ok t" and sl: "slot_ok quantum t i" using inv i by (simp_all add: sched_inv_def)
  note run = s' [unfolded sts_slot_whole [OF j sts_slot_lock [OF s']]]
  show ?thesis
  proof (cases "q_exec (th_sched t) ! j")
    case None
    show ?thesis
    proof (cases "s' = th_sched t")
      case True
      then show ?thesis by (simp add: t' budget_def starts_statement_def split: option.split)
    next
      case False
      then obtain p ps pcb where r: "q_ready (th_sched t) = p # ps" "s_pcbs (th_sched t) p = Some pcb"
        "s' = sts_post_neg (pcb_update p (\<lambda>pcb. pcb\<lparr>pcb_state := EXEC, pcb_quantum := 0, pcb_recently_exec := True\<rparr>)
                        (th_sched t)\<lparr>q_ready := ps, q_exec := (q_exec (th_sched t))[j := Some p]\<rparr>)"
        using run None by (auto simp: rbind_Inr_iff pcb_load_Inr split: list.splits if_splits)
      have ij: "i \<noteq> j" using no None r(3) i by (auto simp: gets_process_def t')
      have "budget quantum t' i + of_bool (starts_statement i t t') = budget quantum t i"
      proof (rule budget_frame)
        fix q assume "q_exec (th_sched t) ! i = Some q"
        then have "q \<noteq> p" using place_exec(3) [OF pl i] r(1) by auto
        then show "pcb_recently_exec (pcb_at t' q) = pcb_recently_exec (pcb_at t q) \<and> pcb_quantum (pcb_at t' q) = pcb_quantum (pcb_at t q)"
          by (simp add: t' r(3))
      qed (use ij in \<open>simp_all add: t' r(3)\<close>)
      then show ?thesis by simp
    qed
  next
    case (Some p)
    show ?thesis
    proof (cases "i = j")
      case True
      then show ?thesis using sl Some run
        by (auto simp: t' budget_def starts_statement_def slot_ok_def exec_ok_def rbind_Inr_iff pcb_load_Inr split: if_splits)
    next
      case False
      have "budget quantum t' i + of_bool (starts_statement i t t') = budget quantum t i"
        by (rule budget_other [OF inv i j False Some]) (use run Some in \<open>auto simp: t' rbind_Inr_iff pcb_load_Inr split: if_splits\<close>)
      then show ?thesis by simp
    qed
  qed
qed

lemma budget_check:
  assumes inv: "sched_inv quantum t" and i: "i < length (q_exec (th_sched t))" and j: "j < length (q_exec (th_sched t))"
    and run: "th_running t ! j" and w: "sem_wait_at (exec_semaphores (th_sched t)) j = Inr sems"
    and s': "planifier_check quantum j ((th_sched t)\<lparr>exec_semaphores := sems\<rparr>) = Inr s'"
    and t': "t' = t\<lparr>th_sched := s', th_running := (th_running t)[j := False]\<rparr>"
  shows "budget quantum t' i + of_bool (starts_statement i t t') \<le> budget quantum t i"
proof -
  have "j < length (q_exec ((th_sched t)\<lparr>exec_semaphores := sems\<rparr>))" using j by simp
  note chk = s' [unfolded planifier_check_whole [OF this]]
  obtain p where p: "q_exec (th_sched t) ! j = Some p" using chk by (auto split: option.splits)
  obtain pcb where pcb: "s_pcbs (th_sched t) p = Some pcb"
    "exec_ok quantum j (exec_semaphores_init (th_sched t) ! j) (exec_semaphores (th_sched t) ! j) (th_running t ! j) pcb"
    and li: "j < length (th_running t)" using executor_pcb [OF inv j p] by blast
  show ?thesis
  proof (cases "i = j")
    case True
    have "budget quantum t' i \<le> budget quantum t i"
    proof (cases "q_exec s' ! i = None")
      case gone: True
      then show ?thesis using budget_range(1) [OF inv i] by (simp add: budget_def t')
    next
      case False
      then have "s_pcbs s' p = Some (pcb\<lparr>pcb_processor := j, pcb_quantum := pcb_quantum pcb + 1\<rparr>)" "q_exec s' ! i = Some p"
        using chk p pcb(1) True j by (auto simp: pcb_load_def rbind_Inr_iff split: if_splits)
      then show ?thesis using True p pcb run li by (auto simp: budget_def t' exec_ok_def)
    qed
    moreover have "\<not> starts_statement i t t'" using True run by (simp add: starts_statement_def)
    ultimately show ?thesis by simp
  next
    case False
    have "budget quantum t' i + of_bool (starts_statement i t t') = budget quantum t i"
      by (rule budget_other [OF inv i j False p]) (use chk p pcb(1) False in \<open>auto simp: t' pcb_load_def rbind_Inr_iff split: if_splits\<close>)
    then show ?thesis by simp
  qed
qed

text \<open>A step that writes to the process on a processor, but not its flags and its quantum: it may start a statement.\<close>

lemma budget_process:
  assumes inv: "sched_inv quantum t" and i: "i < length (q_exec (th_sched t))" and j: "j < length (q_exec (th_sched t))"
    and p: "q_exec (th_sched t) ! j = Some p" "s_pcbs (th_sched t) p = Some pcb" "\<not> pcb_recently_exec pcb"
    and f: "q_exec s' = q_exec (th_sched t)" "\<And>q. q \<noteq> p \<Longrightarrow> s_pcbs s' q = s_pcbs (th_sched t) q"
      "\<exists>pcb'. s_pcbs s' p = Some pcb' \<and> pcb_recently_exec pcb' = pcb_recently_exec pcb \<and> pcb_quantum pcb' = pcb_quantum pcb"
    and t': "t' = t\<lparr>th_sched := s', th_running := (th_running t)[j := True]\<rparr>"
  shows "budget quantum t' i + of_bool (starts_statement i t t') \<le> budget quantum t i"
proof (cases "i = j")
  case True
  have "j < length (th_running t)" using executor_pcb [OF inv j p(1)] by blast
  then show ?thesis using True p f by (auto simp: budget_def starts_statement_def t')
next
  case False
  have "budget quantum t' i + of_bool (starts_statement i t t') = budget quantum t i"
    by (rule budget_other [OF inv i j False p(1)]) (use False f in \<open>simp_all add: t'\<close>)
  then show ?thesis by simp
qed

lemma budget_step:
  assumes "sched_step quantum t t'" "sched_inv quantum t" "i < length (q_exec (th_sched t))" "\<not> gets_process i t t'"
  shows "budget quantum t' i + of_bool (starts_statement i t t') \<le> budget quantum t i"
  using assms
proof (cases rule: sched_step.cases)
  case (submit garbage statements)
  have pl: "places_ok t" using assms(2) by (simp add: sched_inv_def)
  note f = submit_fields [OF refl, of garbage statements "th_sched t"]
  have "budget quantum t' i + of_bool (starts_statement i t t') = budget quantum t i"
  proof (rule budget_frame)
    fix p assume p: "q_exec (th_sched t) ! i = Some p"
    have "p \<noteq> s_next (th_sched t)" using place_exec(1) [OF pl assms(3) p] pl by (auto simp: places_ok_def)
    then show "pcb_recently_exec (pcb_at t' p) = pcb_recently_exec (pcb_at t p) \<and> pcb_quantum (pcb_at t' p) = pcb_quantum (pcb_at t p)"
      using f by (simp add: submit)
  qed (use f in \<open>simp_all add: submit\<close>)
  then show ?thesis by simp
next
  case (lts s')
  then show ?thesis using budget_lts [OF assms(2,3)] by simp
next
  case (sts_slot j s')
  then show ?thesis using budget_slot [OF assms(2,3) _ _ _ assms(4)] by blast
next
  case (sts_sweep s')
  have "budget quantum t' i + of_bool (starts_statement i t t') = budget quantum t i"
    by (rule budget_frame) (use sts_sweep sweep_processors [of _ "th_sched t" s'] sweep_keeps [of _ "th_sched t" s'] in simp_all)
  then show ?thesis by simp
next
  case (exec_cancel j sems p pcb f s')
  have "exec_ok quantum j (exec_semaphores_init (th_sched t) ! j) (exec_semaphores (th_sched t) ! j) (th_running t ! j) pcb"
    using executor_pcb [OF assms(2) exec_cancel(2,5)] exec_cancel(6) by auto
  then have "\<not> pcb_recently_exec pcb" using exec_cancel(4) by (auto simp: exec_ok_def sem_wait_at_def split: if_splits)
  then show ?thesis
    by (rule budget_process [OF assms(2,3) exec_cancel(2,5,6) _ _ _ _ exec_cancel(1)])
      (use exec_cancel keepsD [OF exec_cancel(8), of pcb] in \<open>auto simp: cancel_process_def post_exec_processor_def rbind_Inr_iff pcb_load_Inr\<close>)
next
  case (exec_send j sems p pcb f)
  have "exec_ok quantum j (exec_semaphores_init (th_sched t) ! j) (exec_semaphores (th_sched t) ! j) (th_running t ! j) pcb"
    using executor_pcb [OF assms(2) exec_send(2,5)] exec_send(6) by auto
  then have "\<not> pcb_recently_exec pcb" using exec_send(4) by (auto simp: exec_ok_def sem_wait_at_def split: if_splits)
  then show ?thesis
    by (rule budget_process [OF assms(2,3) exec_send(2,5,6) _ _ _ _ exec_send(1)])
      (use exec_send keepsD [OF exec_send(8), of pcb] in auto)
next
  case (callback j p pcb f s')
  have eo: "exec_ok quantum j (exec_semaphores_init (th_sched t) ! j) (exec_semaphores (th_sched t) ! j) (th_running t ! j) pcb"
    using executor_pcb [OF assms(2) callback(2,5)] callback(6) by auto
  then have re: "\<not> pcb_recently_exec pcb" using callback(3) by (auto simp: exec_ok_def split: if_splits)
  have "(th_running t)[j := True] = th_running t" using callback(3) by (metis list_update_id)
  then have t': "t' = t\<lparr>th_sched := s', th_running := (th_running t)[j := True]\<rparr>" using callback(1) by simp
  show ?thesis
    by (rule budget_process [OF assms(2,3) callback(2,5,6) re _ _ _ t'])
      (use callback keepsD [OF callback(7), of pcb] in \<open>auto simp: post_exec_statement_def post_exec_processor_def post_statement_def rbind_Inr_iff pcb_load_Inr Let_def split: if_splits\<close>)
next
  case (check j sems s')
  then show ?thesis using budget_check [OF assms(2,3)] by blast
qed (simp add: budget_def starts_statement_def split: option.split)

lemma starts_on_process: "sched_step quantum t t' \<Longrightarrow> starts_statement i t t' \<Longrightarrow> q_exec (th_sched t) ! i \<noteq> None"
  by (erule sched_step.cases) (auto simp: starts_statement_def, (metis nth_list_update_neq option.distinct(1))+)

lemma budget_path:
  assumes "sched_inv quantum t" "i < length (q_exec (th_sched t))" "sched_path quantum (t # ts)"
  shows "int (statements_started i (t # ts)) \<le> budget quantum t i + max 1 quantum * int (processes_given i (t # ts))"
  using assms
proof (induction ts arbitrary: t)
  case Nil
  then show ?case using budget_range(1) by simp
next
  case (Cons t' ts)
  have step: "sched_step quantum t t'" using Cons.prems(3) by simp
  have inv: "sched_inv quantum t'" "i < length (q_exec (th_sched t'))"
    using Cons.prems sched_inv_step [OF step] processors_step [OF step] by auto
  have IH: "int (statements_started i (t' # ts)) \<le> budget quantum t' i + max 1 quantum * int (processes_given i (t' # ts))"
    by (rule Cons.IH) (use inv Cons.prems(3) in simp_all)
  show ?case
  proof (cases "gets_process i t t'")
    case True
    then have "\<not> starts_statement i t t'" using starts_on_process [OF step, of i] by (auto simp: gets_process_def)
    then show ?thesis using True IH budget_range(2) [OF inv] budget_range(1) [OF Cons.prems(1,2)] by (simp add: distrib_left)
  next
    case False
    then show ?thesis using IH budget_step [OF step Cons.prems(1,2) False] by (cases "starts_statement i t t'") simp_all
  qed
qed

text \<open>The two semaphores of a processor are never both posted.\<close>

lemma semaphores_path:
  assumes "sched_inv quantum t" "i < length (q_exec (th_sched t))" "sched_path quantum (t # ts)" "t' \<in> set (t # ts)"
  shows "0 \<le> exec_semaphores_init (th_sched t') ! i \<and> 0 \<le> exec_semaphores (th_sched t') ! i \<and>
    exec_semaphores_init (th_sched t') ! i + exec_semaphores (th_sched t') ! i \<le> 1"
  using assms
proof (induction ts arbitrary: t)
  case Nil
  then have "slot_ok quantum t i" by (simp add: sched_inv_def)
  then show ?case using Nil by (auto simp: slot_ok_def exec_ok_def split: option.splits if_splits)
next
  case (Cons u us)
  have step: "sched_step quantum t u" using Cons.prems(3) by simp
  have inv: "sched_inv quantum u" "i < length (q_exec (th_sched u))" "slot_ok quantum t i"
    using Cons.prems sched_inv_step [OF step] processors_step [OF step] by (auto simp: sched_inv_def)
  show ?case
  proof (cases "t' = t")
    case True
    then show ?thesis using inv(3) by (auto simp: slot_ok_def exec_ok_def split: option.splits if_splits)
  next
    case False
    then show ?thesis using Cons.IH [OF inv(1,2)] Cons.prems(3,4) by auto
  qed
qed

end
