(* ===== verification/Kernel_Scripts.thy ===== *)
theory Kernel_Scripts
  imports Kernel_Exec
begin

text \<open>
  Scripts: the lines of a file, and the statements that \<open>RUN\<close> gives a process for a file of printed
  commands.
\<close>

section \<open>Lines\<close>

definition lines_text :: "string list \<Rightarrow> string" where
  "lines_text ls = concat (map (\<lambda>l. l @ [CHR 0x0A]) ls)"

definition line_ok :: "string \<Rightarrow> bool" where
  "line_ok l \<longleftrightarrow> CHR 0x0A \<notin> set l \<and> CHR 0x00 \<notin> set l"

lemma cstr_id: "CHR 0x00 \<notin> set l \<Longrightarrow> cstr l = l"
  by (auto simp: cstr_def NUL_def takeWhile_eq_all_conv)

lemma file_lines_last:
  assumes "line_ok rest" "rest \<noteq> []"
  shows "file_lines rest = [butlast rest]"
proof -
  have tw: "takeWhile (\<lambda>c. c \<noteq> CHR 0x0A) rest = rest" using assms(1) by (auto simp: line_ok_def takeWhile_eq_all_conv)
  have "CHR 0x00 \<notin> set (butlast rest)" using assms(1) by (auto simp: line_ok_def dest: in_set_butlastD)
  then show ?thesis using assms(2) by (subst file_lines.simps) (simp add: tw Let_def file_lines.simps cstr_id)
qed

lemma file_lines_text: "\<forall>l \<in> set ls. line_ok l \<Longrightarrow> file_lines (lines_text ls @ rest) = ls @ file_lines rest"
proof (induction ls)
  case (Cons l ls)
  have l: "CHR 0x0A \<notin> set l" "CHR 0x00 \<notin> set l" using Cons.prems by (auto simp: line_ok_def)
  have tw: "takeWhile (\<lambda>c. c \<noteq> CHR 0x0A) (l @ CHR 0x0A # xs) = l" for xs
    using l(1) by (induction l) auto
  have "file_lines (lines_text (l # ls) @ rest) = l # file_lines (lines_text ls @ rest)"
    using l(2) by (subst file_lines.simps) (simp add: lines_text_def tw Let_def cstr_id butlast_append)
  then show ?case using Cons by simp
qed (simp add: lines_text_def)

section \<open>Statements of commands\<close>

fun statement_of_command :: "command \<Rightarrow> statement_t" where
  "statement_of_command (CSelect i) = generate_statement\<lparr>stm_operation := SELECT, stm_select_input := Some i\<rparr>"
| "statement_of_command (CInsert i) = generate_statement\<lparr>stm_operation := INSERT, stm_insert_input := Some i\<rparr>"
| "statement_of_command (CCreate i) = generate_statement\<lparr>stm_operation := CREATE, stm_create_input := Some i\<rparr>"
| "statement_of_command (CDescribe i) = generate_statement\<lparr>stm_operation := DESCRIBE, stm_describe_input := Some i\<rparr>"
| "statement_of_command (CDrop i) = generate_statement\<lparr>stm_operation := DROP, stm_drop_input := Some i\<rparr>"
| "statement_of_command c = generate_statement\<lparr>stm_operation := command_operation c\<rparr>"

definition script_command :: "command \<Rightarrow> bool" where
  "script_command c \<longleftrightarrow> command_ok c \<and> command_operation c \<le> JOURNAL \<and> line_ok (print_command c)"

lemma kernel_allows [simp]: "operation_allowed op KERNEL"
  by (simp add: operation_allowed_cases)

lemma operation_not_invalid [simp]: "command_operation c \<noteq> INVALID"
  by (cases c) simp_all

context commons_api
begin

lemma statement_of_print:
  "command_ok c \<Longrightarrow> statement_of cm (command_operation c) (map lexeme_text (command_line c)) = Inr (statement_of_command c)"
  by (cases c) (auto simp: statement_of_def token_def numeral_eq_Suc Let_def split: option.splits)

lemma run_lines_print:
  "\<forall>c \<in> set cs. script_command c \<Longrightarrow>
   run_lines inner cm statements (map print_command cs) = Inr (True, statements @ map statement_of_command cs)"
proof (induction cs arbitrary: statements)
  case (Cons c cs)
  then have ok: "command_ok c" "command_operation c \<le> JOURNAL" by (simp_all add: script_command_def)
  then have "command_operation c \<noteq> RUN" by (auto simp: less_eq_operation_t_def)
  then have "add_statement inner cm statements (command_operation c) (print_command c) = Inr (statements @ [statement_of_command c])"
    using ok statement_of_print by (simp add: add_statement_def tokens_print_command)
  then show ?case using Cons ok by (simp add: get_operation_print validate_print not_less [symmetric] leD)
qed simp

lemma run_script:
  assumes "cs \<noteq> []" "\<forall>c \<in> set cs. script_command c" "files (run_path input) = Some (lines_text (map print_command cs))"
  shows "process_run (Suc depth) cm files garbage input s = Inr (submit garbage (map statement_of_command cs) s)"
proof -
  have "file_lines (lines_text (map print_command cs)) = map print_command cs"
    using file_lines_text [of "map print_command cs" "[]"] assms(2) by (simp add: script_command_def file_lines.simps)
  then have "get_file_lines files (run_path input) = Some (map print_command cs)" using assms(3) by (simp add: get_file_lines_def)
  then have "on_inner_run_request (Suc depth) cm files input [] = Inr (True, map statement_of_command cs)"
    using assms(1) run_lines_print [OF assms(2)] by simp
  then show ?thesis
    by (cases garbage) (simp add: process_run_def submit_def get_new_pcb_def Let_def case_prod_beta pcb_update_def del: on_inner_run_request.simps)
qed

text \<open>A script whose only line runs a file that cannot be opened.\<close>

lemma run_empty:
  assumes "command_ok (CRun inner)" "line_ok (print_command (CRun inner))" "files (run_path inner) = None"
    "files (run_path input) = Some (lines_text [print_command (CRun inner)])"
  shows "process_run (Suc (Suc depth)) cm files garbage input s = Inr (submit garbage [] s)"
proof -
  let ?l = "print_command (CRun inner)"
  have "file_lines (lines_text [?l]) = [?l]"
    using file_lines_text [of "[?l]" "[]"] assms(2) by (simp add: file_lines.simps)
  then have lines: "get_file_lines files (run_path input) = Some [?l]" using assms(4) by (simp add: get_file_lines_def)
  have "get_operation cm ?l = RUN" "validate_input cm RUN ?l" using get_operation_print [OF assms(1)] validate_print [OF assms(1)] by simp_all
  moreover have "get_file_lines files (run_path inner) = None" using assms(3) by (simp add: get_file_lines_def)
  ultimately have "on_inner_run_request (Suc (Suc depth)) cm files input [] = Inr (True, [])"
    using lines by (simp add: add_statement_def tokens_print_command [OF assms(1)] token_def)
  then show ?thesis
    by (cases garbage) (simp add: process_run_def submit_def get_new_pcb_def Let_def case_prod_beta pcb_update_def del: on_inner_run_request.simps)
qed

end

lemma empty_process_crashes:
  assumes "q_exec (ks_sched st) ! i = Some p" "s_pcbs (ks_sched st) p = Some pcb" "pcb_statements pcb = []"
  shows "exec_next_statement cm random now i st = Inl Null_Pointer"
  using assms by (simp add: exec_next_statement_def pcb_load_def)

end
