(* ===== verification/Sched_Theorems.thy ===== *)
theory Sched_Theorems
  imports Sched_Refine Sched_Quantum Kernel_Scripts
begin

text \<open>
  The properties of the kernel's scheduler, for every interleaving of the loop bodies of its threads from the state
  \<open>setup_scheduler_queues\<close> makes, what an interrupted body leads to, and the scripts the kernel runs.
\<close>

section \<open>A run of one process on one processor\<close>

definition demo_garbage :: pcb_t where
  "demo_garbage = \<lparr>pcb_process_id = 0, pcb_state = EXIT, pcb_program_counter = 0, pcb_quantum = 99, pcb_statements = [], pcb_errors = True,
     pcb_recently_ready = True, pcb_recently_exec = True, pcb_processor = 99,
     pcb_last_execution_stats = \<lparr>ev_timestamp_start = 0, ev_timestamp_end = 0, ev_memory = 0, ev_event_type = SELECT_EVENT, ev_consistency = None\<rparr>\<rparr>"

definition demo_statements :: "statement_t list" where
  "demo_statements = [generate_statement\<lparr>stm_operation := DESCRIBE, stm_describe_input := Some \<lparr>des_table_name = None\<rparr>\<rparr>]"

definition demo_pcb :: "t_state \<Rightarrow> int \<Rightarrow> bool \<Rightarrow> nat \<Rightarrow> pcb_t" where
  "demo_pcb state quantum placed processor = demo_garbage\<lparr>pcb_process_id := 0, pcb_state := state, pcb_errors := False,
     pcb_statements := demo_statements, pcb_quantum := quantum, pcb_recently_ready := False, pcb_recently_exec := placed, pcb_processor := processor\<rparr>"

definition demo_sched :: "pcb_t \<Rightarrow> addr list \<Rightarrow> addr list \<Rightarrow> addr option \<Rightarrow> int \<Rightarrow> int \<Rightarrow> int \<Rightarrow> sched_state" where
  "demo_sched pcb new ready exec ini lts sts = (setup_scheduler_queues 1)\<lparr>s_pcbs := (\<lambda>_. None)(0 \<mapsto> pcb), s_next := 1, q_new := new, q_ready := ready,
     q_exec := [exec], exec_semaphores_init := [ini], g_lts_semaphore := lts, g_sts_semaphore := sts, g_process_ids := [0]\<rparr>"

lemmas demo_eval = demo_garbage_def demo_pcb_def demo_sched_def setup_scheduler_queues_def threads_init_def pcb_load_def pcb_update_def
  sts_post_neg_def sem_post_neg_value_def Let_def

lemma demo_submit: "submit demo_garbage demo_statements (setup_scheduler_queues 1) = demo_sched (demo_pcb NEW 99 False 99) [0] [] None 0 1 0"
proof -
  have pid: "generate_pid [] = (0, [0])" by code_simp
  show ?thesis by (simp add: demo_eval submit_def get_new_pcb_def add_to_new_def pid)
qed

lemma demo_reaches:
  "\<exists>t. sched_reaches 2 (threads_init 1) t \<and> th_sched t = demo_sched (demo_pcb EXEC 1 False 0) [] [] (Some 0) 1 0 0 \<and> th_running t = [False] \<and>
    th_pos t = None"
proof -
  let ?T = "\<lambda>s pos. \<lparr>th_sched = s, th_running = [False], th_pos = pos\<rparr>"
  let ?new = "demo_sched (demo_pcb NEW 99 False 99) [0] [] None 0 1 0" and ?ready = "demo_sched (demo_pcb READY 99 False 99) [] [0] None 0 0"
  let ?placed = "demo_sched (demo_pcb EXEC 0 True 99) [] [] (Some 0) 0 0" and ?started = "demo_sched (demo_pcb EXEC 1 False 0) [] [] (Some 0) 1 0 0"
  have "sched_step 2 (threads_init 1) (?T ?new None)"
    using sched_step.submit [of 2 "threads_init 1" demo_garbage demo_statements] demo_submit by (simp add: threads_init_def demo_statements_def)
  moreover have "sched_step 2 (?T ?new None) (?T (?ready 1) None)"
    using sched_step.lts [of "?T ?new None" "?ready 1" 2] by (simp add: long_term_schedule_def lts_parts_def part_defs demo_eval)
  moreover have "sched_step 2 (?T (?ready 1) None) (?T (?ready 0) (Some 0))"
    using sched_step.sts_begin [of "?T (?ready 1) None" 2] by (simp add: demo_eval)
  moreover have "sched_step 2 (?T (?ready 0) (Some 0)) (?T (?placed 1) (Some 1))"
    using sched_step.sts_slot [of "?T (?ready 0) (Some 0)" 0 "?placed 1" 2] by (simp add: sts_slot_def slot_parts_def exec_get_def part_defs demo_eval)
  moreover have "sched_step 2 (?T (?placed 1) (Some 1)) (?T (?placed 1) None)"
    using sched_step.sts_sweep [of "?T (?placed 1) (Some 1)" "?placed 1" 2] by (simp add: demo_eval)
  moreover have "sched_step 2 (?T (?placed 1) None) (?T (?placed 0) (Some 0))"
    using sched_step.sts_begin [of "?T (?placed 1) None" 2] by (simp add: demo_eval)
  moreover have "sched_step 2 (?T (?placed 0) (Some 0)) (?T ?started (Some 1))"
    using sched_step.sts_slot [of "?T (?placed 0) (Some 0)" 0 ?started 2] by (simp add: sts_slot_def slot_parts_def exec_get_def part_defs sem_post_at_def demo_eval)
  moreover have "sched_step 2 (?T ?started (Some 1)) (?T ?started None)"
    using sched_step.sts_sweep [of "?T ?started (Some 1)" ?started 2] by (simp add: demo_eval)
  ultimately have "sched_reaches 2 (threads_init 1) (?T ?started None)"
    by (meson sched_reaches.here sched_reaches.further)
  then show ?thesis by force
qed

section \<open>Where a process is\<close>

lemma init_reaches_inv: "sched_reaches quantum (threads_init n) t \<Longrightarrow> sched_inv quantum t"
  using sched_inv_reaches sched_inv_init by blast

lemma queue_states:
  assumes inv: "sched_inv quantum t" and pcb: "s_pcbs (th_sched t) p = Some pcb"
  shows "p \<in> set (q_new (th_sched t)) \<Longrightarrow> pcb_state pcb = NEW" "p \<in> set (q_ready (th_sched t)) \<Longrightarrow> pcb_state pcb = READY"
    "p \<in> set (q_exit (th_sched t)) \<Longrightarrow> pcb_state pcb = EXIT" "Some p \<in> set (q_exec (th_sched t)) \<Longrightarrow> pcb_state pcb = EXEC"
proof -
  have qs: "queues_ok t" using inv by (simp add: sched_inv_def)
  show "p \<in> set (q_new (th_sched t)) \<Longrightarrow> pcb_state pcb = NEW" "p \<in> set (q_ready (th_sched t)) \<Longrightarrow> pcb_state pcb = READY"
    "p \<in> set (q_exit (th_sched t)) \<Longrightarrow> pcb_state pcb = EXIT"
    using qs pcb by (force simp: queues_ok_def new_ok_def ready_ok_def exit_ok_def)+
  assume "Some p \<in> set (q_exec (th_sched t))"
  then obtain i where i: "i < length (q_exec (th_sched t))" "q_exec (th_sched t) ! i = Some p" by (auto simp: in_set_conv_nth)
  show "pcb_state pcb = EXEC" using executor_pcb [OF inv i] pcb by (auto simp: exec_ok_def)
qed

text \<open>
  An executor that is interrupted: three processors, a quantum of one statement, and a process with two statements that comes back from
  processor 0 while the short-term scheduler looks at processor 1.
\<close>

definition race_pcb :: "t_state \<Rightarrow> int \<Rightarrow> bool \<Rightarrow> nat \<Rightarrow> pcb_t" where
  "race_pcb state quantum placed processor = (demo_pcb state quantum placed processor)\<lparr>pcb_statements := demo_statements @ demo_statements\<rparr>"

definition race_back :: pcb_t where
  \<comment> \<open>after the answer to its first statement\<close>
  "race_back = post_statement 0 ((race_pcb EXEC 1 False 0)\<lparr>pcb_program_counter := 1\<rparr>)"

definition race_sched :: "pcb_t \<Rightarrow> addr list \<Rightarrow> addr list \<Rightarrow> addr option \<Rightarrow> int \<Rightarrow> int \<Rightarrow> int \<Rightarrow> int \<Rightarrow> sched_state" where
  "race_sched pcb new ready exec ini sem lts sts = (setup_scheduler_queues 3)\<lparr>s_pcbs := (\<lambda>_. None)(0 \<mapsto> pcb), s_next := 1, q_new := new, q_ready := ready,
     q_exec := [exec, None, None], exec_semaphores_init := [ini, 0, 0], exec_semaphores := [sem, 0, 0], g_lts_semaphore := lts, g_sts_semaphore := sts,
     g_process_ids := [0]\<rparr>"

lemmas race_eval = race_pcb_def race_sched_def demo_eval numeral_3_eq_3 numeral_2_eq_2

lemma race_submit: "submit demo_garbage (demo_statements @ demo_statements) (setup_scheduler_queues 3) = race_sched (race_pcb NEW 99 False 99) [0] [] None 0 0 1 0"
proof -
  have pid: "generate_pid [] = (0, [0])" by code_simp
  show ?thesis by (simp add: race_eval submit_def get_new_pcb_def add_to_new_def pid)
qed

lemma race_reaches:
  "sched_reaches 1 (threads_init 3) \<lparr>th_sched = race_sched race_back [] [] (Some 0) 0 1 0 0, th_running = [True, False, False], th_pos = Some 1\<rparr>"
proof -
  let ?T = "\<lambda>s pos. \<lparr>th_sched = s, th_running = [False, False, False], th_pos = pos\<rparr>"
  let ?R = "\<lambda>s. \<lparr>th_sched = s, th_running = [True, False, False], th_pos = Some 1\<rparr>"
  let ?new = "race_sched (race_pcb NEW 99 False 99) [0] [] None 0 0 1 0" and ?ready = "race_sched (race_pcb READY 99 False 99) [] [0] None 0 0 0"
  let ?placed = "race_sched (race_pcb EXEC 0 True 99) [] [] (Some 0) 0 0 0" and ?started = "race_sched (race_pcb EXEC 1 False 0) [] [] (Some 0)"
  have keep: "keeps (\<lambda>pcb. pcb)" by (simp add: keeps_def)
  have "sched_step 1 (threads_init 3) (?T ?new None)"
    using sched_step.submit [of 1 "threads_init 3" demo_garbage "demo_statements @ demo_statements"] race_submit by (simp add: threads_init_def numeral_3_eq_3)
  moreover have "sched_step 1 (?T ?new None) (?T (?ready 1) None)"
    using sched_step.lts [of "?T ?new None" "?ready 1" 1] by (simp add: long_term_schedule_def lts_parts_def part_defs race_eval)
  moreover have "sched_step 1 (?T (?ready 1) None) (?T (?ready 0) (Some 0))"
    using sched_step.sts_begin [of "?T (?ready 1) None" 1] by (simp add: race_eval)
  moreover have "sched_step 1 (?T (?ready 0) (Some 0)) (?T (?placed 1) (Some 1))"
    using sched_step.sts_slot [of "?T (?ready 0) (Some 0)" 0 "?placed 1" 1] by (simp add: sts_slot_def slot_parts_def exec_get_def part_defs race_eval)
  moreover have "sched_step 1 (?T (?placed 1) (Some 1)) (?T (?placed 1) (Some 2))"
    using sched_step.sts_slot [of "?T (?placed 1) (Some 1)" 1 "?placed 1" 1] by (simp add: sts_slot_def slot_parts_def exec_get_def part_defs race_eval)
  moreover have "sched_step 1 (?T (?placed 1) (Some 2)) (?T (?placed 1) (Some 3))"
    using sched_step.sts_slot [of "?T (?placed 1) (Some 2)" 2 "?placed 1" 1] by (simp add: sts_slot_def slot_parts_def exec_get_def part_defs race_eval)
  moreover have "sched_step 1 (?T (?placed 1) (Some 3)) (?T (?placed 1) None)"
    using sched_step.sts_sweep [of "?T (?placed 1) (Some 3)" "?placed 1" 1] by (simp add: race_eval)
  moreover have "sched_step 1 (?T (?placed 1) None) (?T (?placed 0) (Some 0))"
    using sched_step.sts_begin [of "?T (?placed 1) None" 1] by (simp add: race_eval)
  moreover have "sched_step 1 (?T (?placed 0) (Some 0)) (?T (?started 1 0 0 0) (Some 1))"
    using sched_step.sts_slot [of "?T (?placed 0) (Some 0)" 0 "?started 1 0 0 0" 1]
    by (simp add: sts_slot_def slot_parts_def exec_get_def part_defs sem_post_at_def race_eval)
  moreover have "sched_step 1 (?T (?started 1 0 0 0) (Some 1)) (?R (?started 0 0 0 0))"
    using sched_step.exec_send [of 0 "?T (?started 1 0 0 0) (Some 1)" "[0, 0, 0]" 0 "race_pcb EXEC 1 False 0" "\<lambda>pcb. pcb" 1] keep
    by (simp add: race_eval sem_wait_at_def demo_statements_def)
  moreover have "sched_step 1 (?R (?started 0 0 0 0)) (?R (race_sched race_back [] [] (Some 0) 0 1 0 0))"
    using sched_step.callback [of 0 "?R (?started 0 0 0 0)" 0 "race_pcb EXEC 1 False 0" "\<lambda>pcb. pcb" "race_sched race_back [] [] (Some 0) 0 1 0 0" 1] keep
    by (simp add: race_eval race_back_def demo_statements_def post_exec_statement_def post_exec_processor_def sem_post_at_def post_statement_def)
  ultimately show ?thesis by (meson sched_reaches.here sched_reaches.further)
qed

lemma race_interrupted:
  "\<exists>s'. interrupted 2 (check_parts 1 0 0 race_back) (sts_slot 1) (race_sched race_back [] [] (Some 0) 0 0 0 0) = Inr s' \<and>
     q_exec s' = [None, None, Some 0] \<and> q_ready s' = [] \<and> (\<exists>pcb. s_pcbs s' 0 = Some pcb \<and> pcb_state pcb = READY)"
  by (simp add: interrupted_def check_parts_def sts_slot_def slot_parts_def exec_get_def part_defs race_back_def post_statement_def demo_statements_def race_eval)

text \<open>
  C35. Where a process is. As long as the bodies of the loops of the schedulers and executors and the callbacks run one after the other, in any order,
  a process that has not been deleted is in exactly one of the queues, and its state names that queue; a deleted process
  is in none. The code does not keep the bodies apart: an executor takes no lock, and when the short-term scheduler comes between two of its statements
  a process ends on a processor, in no other queue, with the state READY.
\<close>

theorem process_in_one_queue:
  "(\<forall>quantum n t p. sched_reaches quantum (threads_init n) t \<longrightarrow>
     places (th_sched t) p = (if s_pcbs (th_sched t) p = None then 0 else 1) \<and>
     (\<forall>pcb. s_pcbs (th_sched t) p = Some pcb \<longrightarrow>
       (pcb_state pcb = NEW \<longleftrightarrow> p \<in> set (q_new (th_sched t))) \<and> (pcb_state pcb = READY \<longleftrightarrow> p \<in> set (q_ready (th_sched t))) \<and>
       (pcb_state pcb = EXEC \<longleftrightarrow> Some p \<in> set (q_exec (th_sched t))) \<and> (pcb_state pcb = EXIT \<longleftrightarrow> p \<in> set (q_exit (th_sched t))))) \<and>
   (\<exists>t p pcb sems s'. sched_reaches 1 (threads_init 3) t \<and> th_running t ! 0 \<and> sem_wait_at (exec_semaphores (th_sched t)) 0 = Inr sems \<and>
     exec_get 0 (th_sched t) = Some p \<and> s_pcbs (th_sched t) p = Some pcb \<and> th_pos t = Some 1 \<and>
     interrupted 2 (check_parts 1 0 p pcb) (sts_slot 1) ((th_sched t)\<lparr>exec_semaphores := sems\<rparr>) = Inr s' \<and>
     Some p \<in> set (q_exec s') \<and> q_ready s' = [] \<and> (\<exists>pcb'. s_pcbs s' p = Some pcb' \<and> pcb_state pcb' = READY))"
proof (intro conjI allI impI)
  fix quantum n t p assume r: "sched_reaches quantum (threads_init n) t"
  have inv: "sched_inv quantum t" using init_reaches_inv [OF r] .
  then have pl: "places_ok t" by (simp add: sched_inv_def)
  then show "places (th_sched t) p = (if s_pcbs (th_sched t) p = None then 0 else 1)" by (simp add: places_ok_def)
  fix pcb assume pcb: "s_pcbs (th_sched t) p = Some pcb"
  show "pcb_state pcb = NEW \<longleftrightarrow> p \<in> set (q_new (th_sched t))" "pcb_state pcb = READY \<longleftrightarrow> p \<in> set (q_ready (th_sched t))"
    "pcb_state pcb = EXEC \<longleftrightarrow> Some p \<in> set (q_exec (th_sched t))" "pcb_state pcb = EXIT \<longleftrightarrow> p \<in> set (q_exit (th_sched t))"
    using queue_states [OF inv pcb] process_is_queued [OF pl, of p] pcb by (metis option.distinct(1) t_state.distinct)+
next
  let ?s = "race_sched race_back [] [] (Some 0) 0"
  obtain s' where s': "interrupted 2 (check_parts 1 0 0 race_back) (sts_slot 1) (?s 0 0 0) = Inr s'" "q_exec s' = [None, None, Some 0]" "q_ready s' = []"
    "\<exists>pcb. s_pcbs s' 0 = Some pcb \<and> pcb_state pcb = READY" using race_interrupted by blast
  let ?t = "\<lparr>th_sched = ?s 1 0 0, th_running = [True, False, False], th_pos = Some 1\<rparr>"
  have "sem_wait_at (exec_semaphores (th_sched ?t)) 0 = Inr [0, 0, 0]" "exec_get 0 (th_sched ?t) = Some 0" "s_pcbs (th_sched ?t) 0 = Some race_back"
    "(th_sched ?t)\<lparr>exec_semaphores := [0, 0, 0]\<rparr> = ?s 0 0 0" by (simp_all add: race_sched_def sem_wait_at_def exec_get_def)
  then show "\<exists>t p pcb sems s'. sched_reaches 1 (threads_init 3) t \<and> th_running t ! 0 \<and> sem_wait_at (exec_semaphores (th_sched t)) 0 = Inr sems \<and>
     exec_get 0 (th_sched t) = Some p \<and> s_pcbs (th_sched t) p = Some pcb \<and> th_pos t = Some 1 \<and>
     interrupted 2 (check_parts 1 0 p pcb) (sts_slot 1) ((th_sched t)\<lparr>exec_semaphores := sems\<rparr>) = Inr s' \<and>
     Some p \<in> set (q_exec s') \<and> q_ready s' = [] \<and> (\<exists>pcb'. s_pcbs s' p = Some pcb' \<and> pcb_state pcb' = READY)"
    using race_reaches s' by (intro exI [of _ ?t] exI [of _ 0] exI [of _ race_back] exI [of _ "[0, 0, 0]"] exI [of _ s']) simp
qed

theorem process_in_one_queue_witness:
  "\<exists>t. sched_reaches 2 (threads_init 1) t \<and> places (th_sched t) 0 = 1 \<and> Some 0 \<in> set (q_exec (th_sched t))"
proof -
  obtain t where t: "sched_reaches 2 (threads_init 1) t" "th_sched t = demo_sched (demo_pcb EXEC 1 False 0) [] [] (Some 0) 1 0 0"
    using demo_reaches by blast
  then show ?thesis using process_in_one_queue [THEN conjunct1, rule_format, OF t(1), of 0] by (intro exI [of _ t]) (simp add: demo_eval)
qed

text \<open>
  C36. No wake-up is lost. Whenever the short-term scheduler waits on its semaphore and the semaphore is 0,
  no process is placed on a processor without having been started, and either no process is ready or no processor is
  free; and the long-term scheduler's semaphore counts exactly the processes in the new and exit queues.
\<close>

theorem no_wakeup_lost:
  assumes "sched_reaches quantum (threads_init n) t" "th_pos t = None" "g_sts_semaphore (th_sched t) = 0"
  shows "(\<forall>i p. i < length (q_exec (th_sched t)) \<and> q_exec (th_sched t) ! i = Some p \<longrightarrow>
       s_pcbs (th_sched t) p \<noteq> None \<and> \<not> pcb_recently_exec (the (s_pcbs (th_sched t) p))) \<and>
    (q_ready (th_sched t) = [] \<or> None \<notin> set (q_exec (th_sched t))) \<and>
    g_lts_semaphore (th_sched t) = int (length (q_new (th_sched t)) + length (q_exit (th_sched t)))"
proof -
  have inv: "sched_inv quantum t" using init_reaches_inv [OF assms(1)] .
  then show ?thesis using sts_idle [OF inv assms(2,3)] executor_pcb [OF inv] by (force simp: sched_inv_def wakeup_ok_def)
qed

theorem no_wakeup_lost_witness:
  "\<exists>t. sched_reaches 2 (threads_init 1) t \<and> th_pos t = None \<and> g_sts_semaphore (th_sched t) = 0 \<and> q_exec (th_sched t) = [Some 0] \<and>
     \<not> pcb_recently_exec (the (s_pcbs (th_sched t) 0)) \<and> g_lts_semaphore (th_sched t) = 0"
proof -
  obtain t where t: "sched_reaches 2 (threads_init 1) t" "th_pos t = None" "th_sched t = demo_sched (demo_pcb EXEC 1 False 0) [] [] (Some 0) 1 0 0"
    using demo_reaches by blast
  moreover have "g_sts_semaphore (th_sched t) = 0" "q_exec (th_sched t) = [Some 0]" using t(3) by (simp_all add: demo_eval)
  ultimately show ?thesis using no_wakeup_lost [OF t(1,2)] by (intro exI [of _ t]) (auto simp: demo_eval)
qed

text \<open>
  C37. The scheduler does not deadlock. With at least one processor, in every state reached by whole bodies in which a
  process exists, some thread can take a step that is not the creation of another process (an address is
  allocated only by creating one), or the kernel is about to crash: an executor may start, its process was created without
  statements, and \<open>exec_next_statement\<close> dereferences a null pointer.
\<close>

theorem scheduler_progress:
  assumes "sched_reaches quantum (threads_init n) t" "0 < n" "s_pcbs (th_sched t) p \<noteq> None"
  shows "(\<exists>t'. sched_step quantum t t' \<and> s_next (th_sched t') = s_next (th_sched t)) \<or>
    (\<exists>i q pcb. i < n \<and> \<not> th_running t ! i \<and> 0 < exec_semaphores_init (th_sched t) ! i \<and> q_exec (th_sched t) ! i = Some q \<and>
       s_pcbs (th_sched t) q = Some pcb \<and> pcb_statements pcb = [] \<and>
       (\<forall>cm random now st. q_exec (ks_sched st) = q_exec (th_sched t) \<and> s_pcbs (ks_sched st) = s_pcbs (th_sched t) \<longrightarrow>
          exec_next_statement cm random now i st = Inl Null_Pointer))"
proof -
  have n: "length (q_exec (th_sched t)) = n" "g_inner_scheduler_semaphore (th_sched t) = 1"
    using processors_reaches [OF assms(1)] inner_reaches [OF assms(1)] by (simp_all add: threads_init_def setup_scheduler_queues_def)
  then have "(\<exists>t'. sched_step quantum t t' \<and> s_next (th_sched t') = s_next (th_sched t)) \<or> (\<exists>i. empty_start t i)"
    using sched_progress [OF init_reaches_inv [OF assms(1)] _ assms(3)] assms(2) by force
  then show ?thesis
  proof
    assume "\<exists>i. empty_start t i"
    then obtain i q pcb where "i < n" "\<not> th_running t ! i" "0 < exec_semaphores_init (th_sched t) ! i" "q_exec (th_sched t) ! i = Some q"
      "s_pcbs (th_sched t) q = Some pcb" "pcb_statements pcb = []" unfolding empty_start_def n(1) by blast
    then show ?thesis using empty_process_crashes by (intro disjI2 exI [of _ i] exI [of _ q] exI [of _ pcb]) simp
  qed blast
qed

theorem scheduler_progress_witness:
  "\<exists>t t'. sched_reaches 2 (threads_init 1) t \<and> sched_step 2 t t' \<and> s_next (th_sched t') = s_next (th_sched t)"
proof -
  obtain t where t: "sched_reaches 2 (threads_init 1) t" "th_sched t = demo_sched (demo_pcb EXEC 1 False 0) [] [] (Some 0) 1 0 0"
    using demo_reaches by blast
  then have "s_pcbs (th_sched t) 0 \<noteq> None" by (simp add: demo_eval)
  from scheduler_progress [OF t(1) _ this] have "\<exists>t'. sched_step 2 t t' \<and> s_next (th_sched t') = s_next (th_sched t)"
    using t(2) by (auto simp: demo_eval demo_statements_def)
  then show ?thesis using t(1) by blast
qed

text \<open>
  C38. The quantum. Along any run of whole bodies a processor starts at most \<open>max 1 quantum\<close> statements for each process it is given, and as many
  for the one it has at the beginning of the run: a process is never run beyond its quantum, and a processor without a process starts nothing. The two
  semaphores of a processor are never both posted.
\<close>

theorem quantum_bounds_statements:
  assumes "sched_reaches quantum (threads_init n) t" "sched_path quantum (t # ts)" "i < n"
  shows "int (statements_started i (t # ts)) \<le> max 1 quantum * (of_bool (q_exec (th_sched t) ! i \<noteq> None) + int (processes_given i (t # ts))) \<and>
    (\<forall>t' \<in> set (t # ts). 0 \<le> exec_semaphores_init (th_sched t') ! i \<and> 0 \<le> exec_semaphores (th_sched t') ! i \<and>
       exec_semaphores_init (th_sched t') ! i + exec_semaphores (th_sched t') ! i \<le> 1)"
proof
  have inv: "sched_inv quantum t" using init_reaches_inv [OF assms(1)] .
  have i: "i < length (q_exec (th_sched t))"
    using processors_reaches [OF assms(1)] assms(3) by (simp add: threads_init_def setup_scheduler_queues_def)
  have "budget quantum t i \<le> max 1 quantum * of_bool (q_exec (th_sched t) ! i \<noteq> None)"
    using budget_range(2) [OF inv i] by (cases "q_exec (th_sched t) ! i") (simp_all add: budget_def)
  then show "int (statements_started i (t # ts)) \<le> max 1 quantum * (of_bool (q_exec (th_sched t) ! i \<noteq> None) + int (processes_given i (t # ts)))"
    using budget_path [OF inv i assms(2)] by (simp add: distrib_left)
  show "\<forall>t' \<in> set (t # ts). 0 \<le> exec_semaphores_init (th_sched t') ! i \<and> 0 \<le> exec_semaphores (th_sched t') ! i \<and>
       exec_semaphores_init (th_sched t') ! i + exec_semaphores (th_sched t') ! i \<le> 1"
    using semaphores_path [OF inv i assms(2)] by blast
qed

theorem quantum_bounds_statements_witness:
  "\<exists>t t'. sched_reaches 2 (threads_init 1) t \<and> sched_path 2 [t, t'] \<and> statements_started 0 [t, t'] = 1 \<and> processes_given 0 [t, t'] = 0 \<and>
     int (statements_started 0 [t, t']) \<le> 2"
proof -
  obtain t where t: "sched_reaches 2 (threads_init 1) t" "th_sched t = demo_sched (demo_pcb EXEC 1 False 0) [] [] (Some 0) 1 0 0" "th_running t = [False]"
    using demo_reaches by blast
  let ?t = "t\<lparr>th_sched := pcb_update 0 (\<lambda>pcb. pcb) ((th_sched t)\<lparr>exec_semaphores_init := [0]\<rparr>), th_running := (th_running t)[0 := True]\<rparr>"
  have "sched_step 2 t ?t"
    by (rule sched_step.exec_send [where pcb = "demo_pcb EXEC 1 False 0"]) (use t in \<open>simp_all add: demo_eval demo_statements_def sem_wait_at_def keeps_def\<close>)
  then have path: "sched_path 2 [t, ?t]" by simp
  have "statements_started 0 [t, ?t] = 1" "processes_given 0 [t, ?t] = 0" "q_exec (th_sched t) ! 0 \<noteq> None"
    using t by (simp_all add: starts_statement_def gets_process_def demo_eval)
  then show ?thesis using quantum_bounds_statements [OF t(1) path, of 0, THEN conjunct1] t(1) path by (intro exI [of _ t] exI [of _ ?t]) simp
qed

section \<open>Executing a statement\<close>

lemma finishes_effect:
  assumes "finishes p (pcb_program_counter pcb) s s'" "s_pcbs s p = Some pcb" "i < length (exec_semaphores s)" "pcb_processor pcb = i"
  shows "\<exists>pcb'. s_pcbs s' p = Some pcb' \<and> exec_semaphores s' ! i = exec_semaphores s ! i + 1 \<and>
    pcb_program_counter pcb' = (if pcb_errors pcb' then length (pcb_statements pcb) else pcb_program_counter pcb + 1)"
proof -
  obtain f where k: "keeps f" and fin: "post_exec_statement p (pcb_program_counter pcb) (pcb_update p f s) = Inr s'"
    using assms(1) by (auto simp: finishes_def touches_def)
  note k = keepsD [OF k, of pcb]
  show ?thesis
    using fin assms(2-4) k
    by (auto simp: post_exec_statement_def post_exec_processor_def pcb_load_def sem_post_at_def post_statement_def Let_def split: if_splits)
qed

text \<open>
  C39. The functions the executors and the network threads really call follow the protocol of the
  threads. When a processor may start, \<open>exec_next_statement\<close> on the whole kernel (any statement but a JOURNAL)
  sends at most one request; when it sent one, the callback for any answer to it, or for none, leads to a state the threads
  reach, in which the executor may go on once and the process continues with its next statement, or is at its end when
  it has an error.
\<close>

theorem statement_round:
  assumes "sched_reaches quantum (threads_init n) t" "i < n" "\<not> th_running t ! i" "sem_wait_at (exec_semaphores_init (th_sched t)) i = Inr sems"
    "ks_sched st = (th_sched t)\<lparr>exec_semaphores_init := sems\<rparr>" "q_exec (th_sched t) ! i = Some p" "s_pcbs (th_sched t) p = Some pcb"
    "stm_operation (pcb_statements pcb ! pcb_program_counter pcb) \<noteq> JOURNAL"
    "exec_next_statement cm random now i st = Inr (st1, evs)" "evs \<noteq> []" "on_answer garbage now' answer p st1 = Inr (st2, evs2)"
  shows "length evs = 1 \<and> sched_reaches quantum (threads_init n) (t\<lparr>th_sched := ks_sched st2, th_running := (th_running t)[i := True]\<rparr>) \<and>
    exec_semaphores (ks_sched st2) ! i = 1 \<and>
    (\<exists>pcb2. s_pcbs (ks_sched st2) p = Some pcb2 \<and>
       pcb_program_counter pcb2 = (if pcb_errors pcb2 then length (pcb_statements pcb) else pcb_program_counter pcb + 1))"
proof -
  let ?t1 = "t\<lparr>th_sched := ks_sched st1, th_running := (th_running t)[i := True]\<rparr>"
  have inv: "sched_inv quantum t" using init_reaches_inv [OF assms(1)] .
  have i: "i < length (q_exec (th_sched t))"
    using processors_reaches [OF assms(1)] assms(2) by (simp add: threads_init_def setup_scheduler_queues_def)
  have eo: "exec_ok quantum i (exec_semaphores_init (th_sched t) ! i) (exec_semaphores (th_sched t) ! i) (th_running t ! i) pcb"
    and li: "i < length (exec_semaphores_init (th_sched t))" "i < length (exec_semaphores (th_sched t))" "i < length (th_running t)"
    using executor_pcb [OF inv i assms(6)] assms(7) by auto
  then have proc: "pcb_processor pcb = i" "exec_semaphores (th_sched t) ! i = 0"
    using assms(3,4) by (auto simp: exec_ok_def sem_wait_at_def split: if_splits)
  have one: "length evs = 1" and step: "sched_step quantum t ?t1"
    using executor_step [OF i assms(3,4,5,6,7,8,9)] assms(10) by (cases evs; auto)+
  have "starts p (ks_sched st) (st1, evs)" using starts_next [OF assms(9)] assms(5-8) by simp
  then obtain f where f: "keeps f" "ks_sched st1 = pcb_update p f ((th_sched t)\<lparr>exec_semaphores_init := sems\<rparr>)"
    using assms(5,10) by (auto simp: starts_def touches_def)
  note k = keepsD [OF f(1), of pcb]
  have sem: "exec_semaphores (ks_sched st1) ! i = 0" "s_pcbs (ks_sched st1) p = Some (f pcb)" using f(2) assms(7) proc by simp_all
  have "sched_step quantum ?t1 (?t1\<lparr>th_sched := ks_sched st2\<rparr>)"
    by (rule answer_step [OF _ _ _ _ _ assms(11)]) (use i li f(2) assms(6) proc in simp_all)
  moreover have "?t1\<lparr>th_sched := ks_sched st2\<rparr> = t\<lparr>th_sched := ks_sched st2, th_running := (th_running t)[i := True]\<rparr>" by (cases t) simp
  ultimately have "sched_reaches quantum (threads_init n) (t\<lparr>th_sched := ks_sched st2, th_running := (th_running t)[i := True]\<rparr>)"
    using sched_reaches.further [OF sched_reaches.further [OF assms(1) step]] by metis
  moreover have "\<exists>pcb2. s_pcbs (ks_sched st2) p = Some pcb2 \<and> exec_semaphores (ks_sched st2) ! i = exec_semaphores (ks_sched st1) ! i + 1 \<and>
      pcb_program_counter pcb2 = (if pcb_errors pcb2 then length (pcb_statements (f pcb)) else pcb_program_counter (f pcb) + 1)"
    using finishes_answer [OF assms(11)] sem(2) li(2) f(2) proc(1) k
    by (intro finishes_effect [where s = "ks_sched st1"]) auto
  ultimately show ?thesis using one sem(1) k by auto
qed

definition demo_memory :: kernel_memories where
  "demo_memory = \<lparr>k_heap = (\<lambda>_. None)(0 \<mapsto> \<lparr>mem_id = 1, mem_ip = ''a'', mem_port = 1, mem_alive = True, mem_timestamp = 0\<rparr>), k_fresh = 1,
     g_memories = [0], g_memories_added_sc = [], g_memories_added_shc = [], g_memories_added_ec = [], ec_next = 0, g_journal_semaphore = 1,
     g_journal_result = 0, g_journal_callback = None, g_journal_expected = 0, g_journal_actual = 0\<rparr>"

theorem statement_round_witness:
  "\<exists>st st1 ev st2 pcb2. exec_next_statement std_commons 0 0 0 st = Inr (st1, [ev]) \<and>
     on_answer (\<lparr>md_table_name = [], md_consistency = STRONG_CONSISTENCY, md_partitions = 0, md_compaction_time = 0\<rparr>) 1 (Describe_Answer (Some [])) 0 st1 =
       Inr (st2, []) \<and> s_pcbs (ks_sched st2) 0 = Some pcb2 \<and> pcb_program_counter pcb2 = 1"
proof -
  let ?md = "\<lparr>md_table_name = [], md_consistency = STRONG_CONSISTENCY, md_partitions = 0, md_compaction_time = 0\<rparr> :: table_metadata_t"
  obtain t where t: "sched_reaches 2 (threads_init 1) t" "th_sched t = demo_sched (demo_pcb EXEC 1 False 0) [] [] (Some 0) 1 0 0" "th_running t = [False]"
    using demo_reaches by blast
  let ?st = "\<lparr>ks_sched = (th_sched t)\<lparr>exec_semaphores_init := [0]\<rparr>, ks_mem = demo_memory, ks_metadata = [], ks_updates = [],
      ks_stats = \<lparr>g_stats_events = [], g_historic_infos = []\<rparr>\<rparr>"
  have w: "sem_wait_at (exec_semaphores_init (th_sched t)) 0 = Inr [0]" and q: "q_exec (th_sched t) ! 0 = Some 0"
    and pcb: "s_pcbs (th_sched t) 0 = Some (demo_pcb EXEC 1 False 0)" using t(2) by (simp_all add: demo_eval sem_wait_at_def)
  have op: "stm_operation (pcb_statements (demo_pcb EXEC 1 False 0) ! pcb_program_counter (demo_pcb EXEC 1 False 0)) \<noteq> JOURNAL"
    by (simp add: demo_eval demo_statements_def)
  have any: "get_any_memory 0 demo_memory = Inr (Some 0)"
    by (simp add: get_any_memory_def demo_memory_def load_def list_get_def rnd_def trunc_mod_def is_memory_alive_def)
  have ld: "load demo_memory 0 = Inr \<lparr>mem_id = 1, mem_ip = ''a'', mem_port = 1, mem_alive = True, mem_timestamp = 0\<rparr>"
    by (simp add: load_def demo_memory_def)
  have "\<exists>st1 ev. exec_next_statement std_commons 0 0 0 ?st = Inr (st1, [ev]) \<and> (\<exists>st2. on_answer ?md 1 (Describe_Answer (Some [])) 0 st1 = Inr (st2, []))"
    using t(2)
    by (simp add: exec_next_statement_def pcb_load_def Let_def exec_remote_def demo_eval demo_statements_def network_request_def checked_table_def
        exec_other_statement_def send_statement_def any ld less_eq_operation_t_def generate_statement_def
        on_describe_def with_current_def finish_statement_def on_describe_answer_def with_update_def with_sched_def post_exec_statement_def
        post_exec_processor_def sem_post_at_def post_statement_def)
  then obtain st1 ev st2 where ex: "exec_next_statement std_commons 0 0 0 ?st = Inr (st1, [ev])"
    "on_answer ?md 1 (Describe_Answer (Some [])) 0 st1 = Inr (st2, [])" by blast
  have "\<exists>pcb2. s_pcbs (ks_sched st2) 0 = Some pcb2 \<and> pcb_program_counter pcb2 = 1"
    using statement_round [OF t(1) _ _ w _ q pcb op ex(1) _ ex(2)] t(3) by (auto simp: demo_eval demo_statements_def split: if_splits)
  then show ?thesis using ex by blast
qed

section \<open>Scripts\<close>

text \<open>
  C40. RUN of a file of commands, one on each line, creates one process whose statements are exactly
  those commands in their order: reading the file, splitting and validating each line and converting its arguments lose
  nothing.
\<close>

theorem run_creates_process:
  assumes "commons_api cm" "cs \<noteq> []" "\<forall>c \<in> set cs. script_command c" "files (run_path input) = Some (lines_text (map print_command cs))"
  shows "process_run (Suc depth) cm files garbage input s = Inr (submit garbage (map statement_of_command cs) s)"
  by (rule commons_api.run_script [OF assms(1-3)]) (rule assms(4))

theorem run_creates_process_witness:
  "process_run 1 std_commons (\<lambda>f. if f = ''s'' then Some (lines_text [print_command CJournal, print_command (CDrop \<lparr>drp_table_name = ''T''\<rparr>)]) else None)
     demo_garbage \<lparr>run_path = ''s''\<rparr> (setup_scheduler_queues 1) =
   Inr (submit demo_garbage [generate_statement\<lparr>stm_operation := JOURNAL\<rparr>,
     generate_statement\<lparr>stm_operation := DROP, stm_drop_input := Some \<lparr>drp_table_name = ''T''\<rparr>\<rparr>] (setup_scheduler_queues 1))"
proof -
  have "script_command CJournal" "script_command (CDrop \<lparr>drp_table_name = ''T''\<rparr>)"
    by (simp_all add: script_command_def line_ok_def print_command_def join_with.simps less_eq_operation_t_def)
  then show ?thesis
    using run_creates_process [OF std.commons_api_axioms, of "[CJournal, CDrop \<lparr>drp_table_name = ''T''\<rparr>]" _ "\<lparr>run_path = ''s''\<rparr>" 0] by simp
qed

text \<open>
  The lines of a file that ends in a newline are read back; a last line without one loses its last
  character, since the last character \<open>getline\<close> returned is overwritten whatever it is.
\<close>

theorem script_lines:
  assumes "\<forall>l \<in> set ls. line_ok l" "line_ok rest"
  shows "get_file_lines (\<lambda>_. Some (lines_text ls @ rest)) path = Some (ls @ (if rest = [] then [] else [butlast rest]))"
  using file_lines_text [OF assms(1), of rest] file_lines_last [OF assms(2)] by (auto simp: get_file_lines_def file_lines.simps)

theorem script_lines_witness:
  "get_file_lines (\<lambda>_. Some (lines_text [''JOURNAL''] @ ''JOURNAL'')) ''s'' = Some [''JOURNAL'', ''JOURNA'']"
  using script_lines [of "[''JOURNAL'']" "''JOURNAL''" "''s''"] by (simp add: line_ok_def)

text \<open>
  A script whose only line runs a file that cannot be opened is accepted, because the result of the
  inner run is not looked at: it becomes a process without statements, and the executor that gets it dereferences a null
  statement.
\<close>

theorem run_of_missing_file_crashes:
  assumes "commons_api cm" "command_ok (CRun inner)" "line_ok (print_command (CRun inner))" "files (run_path inner) = None"
    "files (run_path input) = Some (lines_text [print_command (CRun inner)])"
  shows "\<exists>s1 s2 s3 s4. process_run (Suc (Suc depth)) cm files garbage input (setup_scheduler_queues (Suc n)) = Inr s1 \<and>
    long_term_schedule s1 = Inr s2 \<and> sts_slot 0 s2 = Inr s3 \<and> sts_slot 0 s3 = Inr s4 \<and>
    exec_next_statement cm random now 0 (st\<lparr>ks_sched := s4\<rparr>) = Inl Null_Pointer"
proof -
  let ?s = "submit garbage [] (setup_scheduler_queues (Suc n))"
  have run: "process_run (Suc (Suc depth)) cm files garbage input (setup_scheduler_queues (Suc n)) = Inr ?s"
    by (rule commons_api.run_empty [OF assms(1-3)]) (rule assms(4,5))+
  have "\<exists>s2 s3 s4 pcb. long_term_schedule ?s = Inr s2 \<and> sts_slot 0 s2 = Inr s3 \<and> sts_slot 0 s3 = Inr s4 \<and>
    q_exec s4 ! 0 = Some 0 \<and> s_pcbs s4 0 = Some pcb \<and> pcb_statements pcb = []"
    by (simp add: submit_def get_new_pcb_def add_to_new_def long_term_schedule_def lts_parts_def sts_slot_def slot_parts_def exec_get_def part_defs
        sem_post_at_def case_prod_beta demo_eval)
  then show ?thesis using run empty_process_crashes [of "st\<lparr>ks_sched := _\<rparr>" 0 0] by fastforce
qed

theorem run_of_missing_file_crashes_witness:
  "\<exists>s1 s2 s3 s4. process_run 2 std_commons (\<lambda>f. if f = ''s'' then Some (lines_text [print_command (CRun \<lparr>run_path = ''x''\<rparr>)]) else None)
     demo_garbage \<lparr>run_path = ''s''\<rparr> (setup_scheduler_queues 1) = Inr s1 \<and>
     long_term_schedule s1 = Inr s2 \<and> sts_slot 0 s2 = Inr s3 \<and> sts_slot 0 s3 = Inr s4 \<and>
     exec_next_statement std_commons 0 0 0 (\<lparr>ks_sched = s4, ks_mem = demo_memory, ks_metadata = [], ks_updates = [],
       ks_stats = \<lparr>g_stats_events = [], g_historic_infos = []\<rparr>\<rparr>) = Inl Null_Pointer"
proof -
  have "line_ok (print_command (CRun \<lparr>run_path = ''x''\<rparr>))" "command_ok (CRun \<lparr>run_path = ''x''\<rparr>)"
    by (simp_all add: line_ok_def print_command_def join_with.simps)
  then show ?thesis
    using run_of_missing_file_crashes [OF std.commons_api_axioms, of "\<lparr>run_path = ''x''\<rparr>"
        "\<lambda>f. if f = ''s'' then Some (lines_text [print_command (CRun \<lparr>run_path = ''x''\<rparr>)]) else None" "\<lparr>run_path = ''s''\<rparr>" 0 demo_garbage 0 0 0
        "\<lparr>ks_sched = setup_scheduler_queues 1, ks_mem = demo_memory, ks_metadata = [], ks_updates = [],
          ks_stats = \<lparr>g_stats_events = [], g_historic_infos = []\<rparr>\<rparr>"]
    by (simp add: numeral_2_eq_2)
qed

end
