(* ===== verification/FS_Disk.thy ===== *)
theory FS_Disk
  imports Lib_Utils Types "HOL-Library.AList"
begin

text \<open>
  The disk of the file system process and the files on it: \<open>directorys.c\<close>, \<open>lib/utils/binary_files.c\<close>, the
  table metadata, the archives (partitions, temporary files) and the bitmap of \<open>filesystem.c\<close> and
  \<open>key_searching.c\<close>.

  Below the mount point there are the block files \<open>Bloques/<n>.bin\<close>, the file \<open>Metadata/Bitmap.bin\<close> and one
  directory in \<open>Tables/\<close> for each table. A path is the name of the table directory and the name of the file in
  it; a table name with a slash, which would be a longer path, and files directly in \<open>Tables/\<close> are outside the model. The bit array of the
  commons library is a parameter.
\<close>

named_theorems fs_simps \<open>files of the file system process\<close>

lemma rbind_cong [fundef_cong]:
  "r = r' \<Longrightarrow> (\<And>x. r' = Inr x \<Longrightarrow> f x = f' x) \<Longrightarrow> rbind r f = rbind r' f'"
  by (cases r') auto

section \<open>Bit arrays\<close>

record bitarrays =
  bitarray_test_bit :: "bytes \<Rightarrow> nat \<Rightarrow> bool"
  bitarray_set_bit :: "bytes \<Rightarrow> nat \<Rightarrow> bytes"
  bitarray_clean_bit :: "bytes \<Rightarrow> nat \<Rightarrow> bytes"

text \<open>
  What the library documents of a bit array: bits are set, cleared and tested independently, it keeps its size, and
  in an array of zero bytes no bit is set.
\<close>

locale bitarray_api =
  fixes ba :: bitarrays
  assumes length_set: "i < 8 * length bm \<Longrightarrow> length (bitarray_set_bit ba bm i) = length bm"
    and length_clean: "i < 8 * length bm \<Longrightarrow> length (bitarray_clean_bit ba bm i) = length bm"
    and test_set: "i < 8 * length bm \<Longrightarrow> j < 8 * length bm \<Longrightarrow>
      bitarray_test_bit ba (bitarray_set_bit ba bm i) j \<longleftrightarrow> j = i \<or> bitarray_test_bit ba bm j"
    and test_clean: "i < 8 * length bm \<Longrightarrow> j < 8 * length bm \<Longrightarrow>
      bitarray_test_bit ba (bitarray_clean_bit ba bm i) j \<longleftrightarrow> j \<noteq> i \<and> bitarray_test_bit ba bm j"
    and test_zero: "i < 8 * n \<Longrightarrow> \<not> bitarray_test_bit ba (replicate n NUL) i"

definition bit_of :: "char \<Rightarrow> nat \<Rightarrow> bool" where
  "bit_of c k \<longleftrightarrow> odd ((of_char c :: nat) div 2 ^ k)"

definition with_bit :: "nat \<Rightarrow> bool \<Rightarrow> char \<Rightarrow> char" where
  "with_bit k b c =
     (let n = (of_char c :: nat) in if bit_of c k = b then c else if b then char_of (n + 2 ^ k) else char_of (n - 2 ^ k))"

definition std_bitarrays :: bitarrays where
  \<comment> \<open>the least significant bit of each byte first, as \<open>LSB_FIRST\<close> asks for\<close>
  "std_bitarrays =
     \<lparr>bitarray_test_bit = (\<lambda>bm i. bit_of (bm ! (i div 8)) (i mod 8)),
      bitarray_set_bit = (\<lambda>bm i. bm[i div 8 := with_bit (i mod 8) True (bm ! (i div 8))]),
      bitarray_clean_bit = (\<lambda>bm i. bm[i div 8 := with_bit (i mod 8) False (bm ! (i div 8))])\<rparr>"

section \<open>The environment and the disk\<close>

text \<open>
  What every operation reads and none changes: the libraries, the block size of \<open>fs_metadata\<close>, the
  configured maximum of a value, and the clock.
\<close>

record fs_env =
  e_cm :: commons
  e_ba :: bitarrays
  e_block_size :: int
  e_max_value_size :: int
  e_now :: int

type_synonym directory = "(string \<times> bytes) list"

record disk =
  d_blocks :: "int \<Rightarrow> bytes option"
  d_bitmap :: bytes
  d_tables :: "(string \<times> directory) list"

record partition_t =
  par_number_of_blocks :: int
  par_size :: int
  par_blocks :: "int list"

definition read_file :: "disk \<Rightarrow> string \<Rightarrow> string \<Rightarrow> bytes result" where
  \<comment> \<open>\<open>fopen(path, "rb")\<close> and what can be read; the sources do not check for \<open>NULL\<close>\<close>
  "read_file d table name =
     (case map_of (d_tables d) table of
        None \<Rightarrow> Inl Null_Pointer
      | Some dir \<Rightarrow> (case map_of dir name of None \<Rightarrow> Inl Null_Pointer | Some content \<Rightarrow> Inr content))"

definition update_dir :: "string \<Rightarrow> (directory \<Rightarrow> directory) \<Rightarrow> disk \<Rightarrow> disk" where
  "update_dir table f d = d\<lparr>d_tables := map (\<lambda>(t, dir). (t, if t = table then f dir else dir)) (d_tables d)\<rparr>"

definition write_file :: "string \<Rightarrow> string \<Rightarrow> bytes \<Rightarrow> disk \<Rightarrow> disk result" where
  \<comment> \<open>\<open>fopen(path, "wb")\<close>, which fails when there is no such directory, and the bytes written\<close>
  "write_file table name content d =
     (case map_of (d_tables d) table of
        None \<Rightarrow> Inl Null_Pointer
      | Some _ \<Rightarrow> Inr (update_dir table (AList.update name content) d))"

definition remove_file :: "string \<Rightarrow> string \<Rightarrow> disk \<Rightarrow> disk" where
  "remove_file table name d = update_dir table (AList.delete name) d"

section \<open>Names and directories\<close>

definition get_tmp_name :: "nat \<Rightarrow> string" where
  "get_tmp_name tmp_number = ''A'' @ dec_nat tmp_number @ ''.tmp''"

definition get_tmpc_name :: string where
  "get_tmpc_name = ''A1.tmpc''"

definition create_partition_name :: "int \<Rightarrow> string" where
  \<comment> \<open>without the slash\<close>
  "create_partition_name partition_number = dec_int partition_number @ ''.bin''"

definition metadata_name :: string where
  "metadata_name = ''metadata.bin''"

definition dot_entries :: "string list" where
  "dot_entries = [''.'', ''..'']"

definition table_names :: "disk \<Rightarrow> string list" where
  \<comment> \<open>what \<open>readdir\<close> returns for \<open>Tables/\<close>\<close>
  "table_names d = dot_entries @ map fst (d_tables d)"

definition table_entries :: "disk \<Rightarrow> string \<Rightarrow> string list option" where
  \<comment> \<open>for \<open>Tables/<table>\<close>, which for the first two names is \<open>Tables/\<close> itself and the mount point\<close>
  "table_entries d table =
     (if table = ''.'' then Some (table_names d)
      else if table = ''..'' then Some (dot_entries @ [''Bloques'', ''Metadata'', ''Tables''])
      else map_option (\<lambda>dir. dot_entries @ map fst dir) (map_of (d_tables d) table))"

definition exist_in_directory :: "string \<Rightarrow> string list option \<Rightarrow> bool" where
  "exist_in_directory archive entries =
     (case entries of
        None \<Rightarrow> False
      | Some names \<Rightarrow> list_ex (\<lambda>n. to_uppercase n = to_uppercase archive) names)"

definition get_tables_list :: "disk \<Rightarrow> string list" where
  "get_tables_list d = map to_uppercase (filter (\<lambda>n. n \<noteq> ''.'' \<and> n \<noteq> ''..'') (table_names d))"

text \<open>
  The loops \<open>while (exist_in_directory(tmp_name, table_directory))\<close> count the temporary files
  \<open>A1.tmp\<close>, \<open>A2.tmp\<close>, \<open>...\<close> up to the first that is missing. A directory with \<open>n\<close> entries cannot have more than \<open>n\<close>
  of them (\<open>tmp_numbers_end\<close>).
\<close>

definition tmp_numbers :: "disk \<Rightarrow> string \<Rightarrow> nat list" where
  "tmp_numbers d table =
     (let entries = table_entries d table
      in takeWhile (\<lambda>n. exist_in_directory (get_tmp_name n) entries)
           [1..<Suc (Suc (case entries of None \<Rightarrow> 0 | Some names \<Rightarrow> length names))])"

section \<open>Block files\<close>

definition open_block :: "int \<Rightarrow> disk \<Rightarrow> disk" where
  \<comment> \<open>\<open>fopen(block, "wb")\<close> truncates or creates the file\<close>
  "open_block b d = d\<lparr>d_blocks := (d_blocks d)(b \<mapsto> [])\<rparr>"

definition write_tkv :: "int \<Rightarrow> string \<Rightarrow> disk \<Rightarrow> disk" where
  \<comment> \<open>the string and its final zero byte at the end of an open block\<close>
  "write_tkv b tkv d = d\<lparr>d_blocks := (d_blocks d)(b \<mapsto> the (d_blocks d b) @ cstr_bytes tkv)\<rparr>"

definition free_block :: "int \<Rightarrow> disk \<Rightarrow> disk" where
  "free_block b d = d\<lparr>d_blocks := (d_blocks d)(b \<mapsto> [])\<rparr>"

definition read_block :: "disk \<Rightarrow> int \<Rightarrow> bytes result" where
  "read_block d b = (case d_blocks d b of None \<Rightarrow> Inl Null_Pointer | Some content \<Rightarrow> Inr content)"

section \<open>The bitmap\<close>

definition read_bitmap :: "disk \<Rightarrow> bytes result" where
  \<comment> \<open>the mode and the size are read before the bits; only \<open>size\<close> of the \<open>size * 8\<close> bytes asked for are there\<close>
  "read_bitmap d =
     (let f = d_bitmap d
      in if length f < 12 then Inl Uninitialised
         else let sz = nat (dec_uint (take 8 (drop 4 f)))
           in if length f < 12 + sz then Inl Uninitialised else Inr (take sz (drop 12 f)))"

definition write_bitmap :: "bytes \<Rightarrow> disk \<Rightarrow> disk" where
  \<comment> \<open>\<open>LSB_FIRST\<close> is 0\<close>
  "write_bitmap bm d = d\<lparr>d_bitmap := enc_int 4 0 @ enc_int 8 (int (length bm)) @ bm\<rparr>"

definition find_free_block :: "fs_env \<Rightarrow> bytes \<Rightarrow> int \<times> bytes" where
  "find_free_block e bm =
     (case find (\<lambda>i. \<not> bitarray_test_bit (e_ba e) bm i) [0..<8 * length bm] of
        Some i \<Rightarrow> (int i, bitarray_set_bit (e_ba e) bm i)
      | None \<Rightarrow> (-1, bm))"

primrec free_blocks_loop :: "fs_env \<Rightarrow> nat \<Rightarrow> bytes \<Rightarrow> int list \<times> bytes" where
  "free_blocks_loop e 0 bm = ([], bm)"
| "free_blocks_loop e (Suc n) bm =
     (case find_free_block e bm of
        (block, bm1) \<Rightarrow>
          if block = -1 then ([], bm1)
          else (case free_blocks_loop e n bm1 of (blocks, bm2) \<Rightarrow> ((block + 1) # blocks, bm2)))"

definition assign_free_blocks :: "fs_env \<Rightarrow> bytes \<Rightarrow> int \<Rightarrow> int list \<times> bytes" where
  \<comment> \<open>the entries of the array \<open>blocks\<close> that were assigned; the value of the C function is their number\<close>
  "assign_free_blocks e bm partitions_amount =
     (if partitions_amount \<le> 8 * int (length bm) then free_blocks_loop e (nat partitions_amount) bm else ([], bm))"

definition clean_bit :: "fs_env \<Rightarrow> int \<Rightarrow> bytes \<Rightarrow> bytes result" where
  "clean_bit e i bm = (if 0 \<le> i \<and> i < 8 * int (length bm) then Inr (bitarray_clean_bit (e_ba e) bm (nat i)) else Inl Out_Of_Bounds)"

section \<open>Table metadata and archives\<close>

definition create_table_metadata :: "consistency_t \<Rightarrow> int \<Rightarrow> int \<Rightarrow> string \<Rightarrow> disk \<Rightarrow> disk result" where
  \<comment> \<open>\<open>consistency_t\<close> is a packed enumeration of one byte, so the file has 13 bytes\<close>
  "create_table_metadata consistency partitions compaction_time table =
     write_file table metadata_name (enc_int 8 compaction_time @ enc_int 1 (consistency_code consistency) @ enc_int 4 partitions)"

definition read_table_metadata :: "disk \<Rightarrow> string \<Rightarrow> (int \<times> consistency_t \<times> int) result" where
  \<comment> \<open>compaction time, consistency and partitions; the name is not assigned\<close>
  "read_table_metadata d table =
     rbind (read_file d table metadata_name) (\<lambda>f.
     if length f < 13 then Inl Uninitialised
     else case consistency_of_code (dec_uint (take 1 (drop 8 f))) of
            None \<Rightarrow> Inl Bad_Enum
          | Some c \<Rightarrow> Inr (dec_sint (take 8 f), c, dec_sint (take 4 (drop 9 f))))"

definition archive_bytes :: "int list \<Rightarrow> int \<Rightarrow> bytes" where
  "archive_bytes blocks sz = enc_int 4 (int (length blocks)) @ concat (map (enc_int 4) blocks) @ enc_int 4 sz"

fun ints_of :: "nat \<Rightarrow> bytes \<Rightarrow> int list" where
  "ints_of 0 f = []"
| "ints_of (Suc n) f = dec_sint (take 4 f) # ints_of n (drop 4 f)"

definition read_fs_archive :: "disk \<Rightarrow> string \<Rightarrow> string \<Rightarrow> partition_t result" where
  \<comment> \<open>with a negative number of blocks \<open>malloc\<close> is asked for a huge size\<close>
  "read_fs_archive d table name =
     rbind (read_file d table name) (\<lambda>f.
     if length f < 4 then Inl Uninitialised
     else let n = dec_sint (take 4 f)
       in if n < 0 then Inl Null_Pointer
          else if length f < 8 + 4 * nat n then Inl Uninitialised
          else Inr \<lparr>par_number_of_blocks = n, par_size = dec_sint (take 4 (drop (4 + 4 * nat n) f)), par_blocks = ints_of (nat n) (drop 4 f)\<rparr>)"

datatype archive_kind = Tmpc | Tmp | Partition int

definition create_fs_archive :: "string \<Rightarrow> int list \<Rightarrow> int \<Rightarrow> archive_kind \<Rightarrow> disk \<Rightarrow> disk result" where
  \<comment> \<open>\<open>archive_flag\<close> 0, 1 and 2; a temporary file gets the first number that is free\<close>
  "create_fs_archive table_name blocks sz kind d =
     (let table = to_uppercase table_name;
          tmp_number = Suc (length (tmp_numbers d table));
          name = (case kind of Tmpc \<Rightarrow> get_tmpc_name | Tmp \<Rightarrow> get_tmp_name tmp_number | Partition n \<Rightarrow> create_partition_name n)
      in write_file table name (archive_bytes blocks sz) d)"

fun create_partitions_from :: "int \<Rightarrow> string \<Rightarrow> int list \<Rightarrow> disk \<Rightarrow> disk result" where
  "create_partitions_from i table [] d = Inr d"
| "create_partitions_from i table (b # bs) d =
     rbind (write_file table (create_partition_name (i + 1)) (archive_bytes [b] 0) d) (create_partitions_from (i + 1) table bs)"

definition create_partitions :: "string \<Rightarrow> int list \<Rightarrow> disk \<Rightarrow> disk result" where
  "create_partitions table blocks = create_partitions_from 0 table blocks"

fun free_blocks_of :: "fs_env \<Rightarrow> int list \<Rightarrow> bytes \<Rightarrow> disk \<Rightarrow> (bytes \<times> disk) result" where
  "free_blocks_of e [] bm d = Inr (bm, d)"
| "free_blocks_of e (b # bs) bm d = rbind (clean_bit e (b - 1) bm) (\<lambda>bm1. free_blocks_of e bs bm1 (free_block b d))"

definition free_blocks_of_fs_archive :: "fs_env \<Rightarrow> string \<Rightarrow> string \<Rightarrow> bytes \<Rightarrow> disk \<Rightarrow> (bytes \<times> disk) result" where
  "free_blocks_of_fs_archive e table name bm d =
     rbind (read_fs_archive d table name) (\<lambda>partition. free_blocks_of e (par_blocks partition) bm d)"

fun free_archives :: "fs_env \<Rightarrow> string \<Rightarrow> string list \<Rightarrow> bytes \<Rightarrow> disk \<Rightarrow> (bytes \<times> disk) result" where
  "free_archives e table [] bm d = Inr (bm, d)"
| "free_archives e table (n # ns) bm d =
     rbind (free_blocks_of_fs_archive e table n bm d) (\<lambda>(bm1, d1). free_archives e table ns bm1 d1)"

definition partition_names :: "int \<Rightarrow> string list" where
  "partition_names partitions = map (\<lambda>i. create_partition_name (int i + 1)) [0..<nat partitions]"

definition free_partitions :: "fs_env \<Rightarrow> string \<Rightarrow> bytes \<Rightarrow> disk \<Rightarrow> (bytes \<times> disk) result" where
  "free_partitions e table bm d =
     rbind (read_table_metadata d table) (\<lambda>(_, _, partitions). free_archives e table (partition_names partitions) bm d)"

definition free_blocks_of_all_tmps :: "fs_env \<Rightarrow> string \<Rightarrow> bytes \<Rightarrow> disk \<Rightarrow> (bytes \<times> disk) result" where
  "free_blocks_of_all_tmps e table bm d = free_archives e table (map get_tmp_name (tmp_numbers d table)) bm d"

definition destroy_all_tmps :: "string \<Rightarrow> disk \<Rightarrow> disk" where
  "destroy_all_tmps table d = fold (\<lambda>n. remove_file table (get_tmp_name n)) (tmp_numbers d table) d"

definition create_table_folder :: "string \<Rightarrow> disk \<Rightarrow> int \<times> disk" where
  \<comment> \<open>\<open>mkdir\<close>, which fails for a name that is taken and, as the path is then \<open>Tables/\<close>, for the empty one\<close>
  "create_table_folder table d =
     (if table = [] \<or> table \<in> set (table_names d) then (-1, d) else (0, d\<lparr>d_tables := d_tables d @ [(table, [])]\<rparr>))"

definition remove_directory :: "string \<Rightarrow> disk \<Rightarrow> disk" where
  \<comment> \<open>all the files and then the directory itself\<close>
  "remove_directory table d = d\<lparr>d_tables := AList.delete table (d_tables d)\<rparr>"

section \<open>The format\<close>

record metadata_t =
  fm_block_size :: int
  fm_blocks :: int
  fm_magic_number :: bytes

definition write_fs_metadata :: "int \<Rightarrow> int \<Rightarrow> string \<Rightarrow> bytes result" where
  \<comment> \<open>\<open>Metadata.bin\<close> as the program that formats the mount point writes it: 12 bytes of the magic number, whatever its length\<close>
  "write_fs_metadata block_size blocks magic_number =
     (let magic = cstr_bytes magic_number
      in if length magic < 12 then Inl Out_Of_Bounds else Inr (enc_int 4 block_size @ enc_int 4 blocks @ take 12 magic))"

definition read_fs_metadata :: "bytes \<Rightarrow> metadata_t result" where
  \<comment> \<open>10 bytes of the magic number are read\<close>
  "read_fs_metadata f =
     (if length f < 18 then Inl Uninitialised
      else Inr \<lparr>fm_block_size = dec_sint (take 4 f), fm_blocks = dec_sint (take 4 (drop 4 f)), fm_magic_number = take 10 (drop 8 f)\<rparr>)"

lemma read_write_fs_metadata:
  "fits_int bs \<Longrightarrow> fits_int n \<Longrightarrow> write_fs_metadata bs n magic = Inr f \<Longrightarrow>
     read_fs_metadata f = Inr \<lparr>fm_block_size = bs, fm_blocks = n, fm_magic_number = take 10 (cstr_bytes magic)\<rparr>"
  by (auto simp: write_fs_metadata_def read_fs_metadata_def Let_def split: if_splits)

text \<open>The magic number the file system expects is too short for the program that formats.\<close>

lemma standard_magic_number: "write_fs_metadata bs n ''LISSANDRA'' = Inl Out_Of_Bounds"
  by (simp add: write_fs_metadata_def cstr_bytes_def)

definition block_creator :: "int \<Rightarrow> disk" where
  \<comment> \<open>the blocks and the bitmap of a fresh mount point, for a number of blocks that is not negative; there are no tables yet. Its buffer for a file
    name has 6 bytes, which the name of block 10 exceeds: what that overwrites is not modelled.\<close>
  "block_creator blocks =
     \<lparr>d_blocks = (\<lambda>b. if 1 \<le> b \<and> b \<le> blocks then Some [] else None),
      d_bitmap = enc_int 4 0 @ enc_int 8 (blocks div 8) @ replicate (nat (blocks div 8)) NUL, d_tables = []\<rparr>"

end
