(* ===== verification/FS_Blocks.thy ===== *)
theory FS_Blocks
  imports FS_Disk
begin

text \<open>
  How records are laid out in blocks and read again: the writing loops of \<open>dump_table\<close> and
  \<open>create_partition\<close> (\<open>compactor.c\<close>), \<open>create_tkv_list\<close> (\<open>tkvs_utils.c\<close>) and the search for a key in an archive
  (\<open>key_searching.c\<close>). A record is the text \<open>timestamp;key;value\<close> with its zero byte; a record that does not fit into
  a block is cut, each part but the last ending in a newline.
\<close>

section \<open>Records\<close>

record fs_record =
  fr_timestamp :: int
  fr_key :: int
  fr_value :: string

record tkv_t =
  tk_tkv :: string
  tk_incomplete :: bool

definition no_tkv :: string where
  "no_tkv = ''-1;-1;-1''"

definition not_found :: fs_record where
  "not_found = \<lparr>fr_timestamp = -1, fr_key = -1, fr_value = ''-1''\<rparr>"

definition tkv_text :: "int \<Rightarrow> int \<Rightarrow> string \<Rightarrow> string" where
  \<comment> \<open>\<open>sprintf(tkv, "%lld;%d;%s", timestamp, key, value)\<close>\<close>
  "tkv_text timestamp key value = dec_int timestamp @ CHR '';'' # dec_int key @ CHR '';'' # value"

definition create_tkv :: "insert_input_t \<Rightarrow> string" where
  "create_tkv input = tkv_text (ins_timestamp input) (uint (ins_key input)) (ins_value input)"

definition convert_to_tkv :: "fs_record \<Rightarrow> string" where
  "convert_to_tkv r = tkv_text (fr_timestamp r) (fr_key r) (fr_value r)"

definition split_tkv :: "commons \<Rightarrow> string \<Rightarrow> (string \<times> string \<times> string option) result" where
  \<comment> \<open>the first three fields of \<open>string_split(tkv, ";")\<close>, whose array ends in \<open>NULL\<close>\<close>
  "split_tkv cm tkv =
     (case string_split cm tkv (CHR '';'') of
        t0 # t1 # ts \<Rightarrow> Inr (t0, t1, case ts of [] \<Rightarrow> None | t2 # _ \<Rightarrow> Some t2)
      | _ \<Rightarrow> Inl Null_Pointer)"

definition convert_record :: "commons \<Rightarrow> string \<Rightarrow> fs_record result" where
  "convert_record cm tkv = rbind (split_tkv cm tkv) (\<lambda>(t0, t1, t2).
     case t2 of
       None \<Rightarrow> Inl Null_Pointer
     | Some v \<Rightarrow> Inr \<lparr>fr_timestamp = string_to_long_long t0, fr_key = uint (string_to_uint16 t1), fr_value = v\<rparr>)"

definition convert_to_record :: "commons \<Rightarrow> string \<Rightarrow> fs_record result" where
  \<comment> \<open>like \<open>convert_record\<close>, but the key is read as an \<open>int\<close>\<close>
  "convert_to_record cm tkv = rbind (split_tkv cm tkv) (\<lambda>(t0, t1, t2).
     case t2 of
       None \<Rightarrow> Inl Null_Pointer
     | Some v \<Rightarrow> Inr \<lparr>fr_timestamp = string_to_long_long t0, fr_key = string_to_int t1, fr_value = v\<rparr>)"

definition copy_key :: "fs_record \<Rightarrow> fs_record" where
  "copy_key r = (if fr_timestamp r \<noteq> -1 then r else not_found)"

definition key_with_greater_timestamp :: "fs_record \<Rightarrow> fs_record \<Rightarrow> fs_record" where
  "key_with_greater_timestamp key_1 key_2 = (if fr_timestamp key_1 > fr_timestamp key_2 then key_1 else key_2)"

definition tkv_size :: "fs_env \<Rightarrow> nat" where
  "tkv_size e = nat (digits_in_a_number 65535 + digits_in_a_number (e_now e) + e_max_value_size e + 3)"

section \<open>Writing\<close>

text \<open>A block is taken from the bitmap; without a free one its number is 0, and the file \<open>0.bin\<close> is written.\<close>

definition take_block :: "fs_env \<Rightarrow> disk \<Rightarrow> (int \<times> disk) result" where
  "take_block e d = rbind (read_bitmap d) (\<lambda>bm.
     case find_free_block e bm of (b, bm1) \<Rightarrow> Inr (b + 1, open_block (b + 1) (write_bitmap bm1 d)))"

record writer =
  w_disk :: disk
  w_blocks :: "int list"
  w_block :: int
  w_block_size :: int

definition first_block :: "fs_env \<Rightarrow> disk \<Rightarrow> writer result" where
  "first_block e d = rbind (take_block e d) (\<lambda>(b, d1).
     Inr \<lparr>w_disk = d1, w_blocks = [b], w_block = b, w_block_size = e_block_size e\<rparr>)"

definition next_block :: "fs_env \<Rightarrow> writer \<Rightarrow> writer result" where
  "next_block e w = rbind (take_block e (w_disk w)) (\<lambda>(b, d1).
     Inr \<lparr>w_disk = d1, w_blocks = w_blocks w @ [b], w_block = b, w_block_size = e_block_size e\<rparr>)"

definition put_tkv :: "string \<Rightarrow> writer \<Rightarrow> writer" where
  \<comment> \<open>\<open>write_tkv\<close> to the open block\<close>
  "put_tkv tkv w = w\<lparr>w_disk := write_tkv (w_block w) tkv (w_disk w)\<rparr>"

lemma next_block_size: "next_block e w = Inr w' \<Longrightarrow> w_block_size w' = e_block_size e"
  by (auto simp: next_block_def rbind_Inr_iff)

text \<open>
  The inner \<open>while (true)\<close>: what fits is written with a newline and the rest goes to another block. Nothing in the
  source makes this loop end, so it is a partial function whose value \<open>None\<close> is a run without end; \<open>write_cut\<close>
  gives that outcome a name. A substring of negative length is read and written outside its buffer.
\<close>

partial_function (option) write_cut_loop :: "fs_env \<Rightarrow> string \<Rightarrow> writer \<Rightarrow> writer result option" where
  "write_cut_loop e tkv w =
     (if w_block_size w - int (length tkv) \<ge> 0 then Some (Inr (put_tkv tkv (w\<lparr>w_block_size := w_block_size w - int (length tkv)\<rparr>)))
      else if w_block_size w - 1 < 0 then Some (Inl Out_Of_Bounds)
      else let cut = nat (w_block_size w - 1)
        in case next_block e (put_tkv (string_append (e_cm e) (string_substring_until (e_cm e) tkv cut) [CHR 0x0A]) w) of
             Inl err \<Rightarrow> Some (Inl err)
           | Inr w1 \<Rightarrow> write_cut_loop e (drop cut tkv) w1)"

definition write_cut :: "fs_env \<Rightarrow> string \<Rightarrow> writer \<Rightarrow> writer result" where
  "write_cut e tkv w = (case write_cut_loop e tkv w of None \<Rightarrow> Inl Never_Returns | Some r \<Rightarrow> r)"

lemma write_cut_fits:
  "int (length tkv) \<le> w_block_size w \<Longrightarrow> write_cut e tkv w = Inr (put_tkv tkv (w\<lparr>w_block_size := w_block_size w - int (length tkv)\<rparr>))"
  by (simp add: write_cut_def write_cut_loop.simps)

lemma write_cut_cuts:
  "w_block_size w < int (length tkv) \<Longrightarrow> 1 \<le> w_block_size w \<Longrightarrow> write_cut e tkv w =
     rbind (next_block e (put_tkv (string_append (e_cm e) (string_substring_until (e_cm e) tkv (nat (w_block_size w - 1))) [CHR 0x0A]) w))
       (write_cut e (drop (nat (w_block_size w - 1)) tkv))"
  unfolding write_cut_def [of e tkv w] by (subst write_cut_loop.simps) (simp add: Let_def rbind_def write_cut_def split: sum.split)

text \<open>Induction over the rounds of a loop that returned.\<close>

lemma write_cut_induct [consumes 1, case_names fits cuts]:
  assumes ret: "write_cut e tkv w = Inr w'"
    and fits: "\<And>e tkv w. P e tkv w (put_tkv tkv (w\<lparr>w_block_size := w_block_size w - int (length tkv)\<rparr>))"
    and cuts: "\<And>e tkv w x w1 w'. next_block e (put_tkv x w) = Inr w1 \<Longrightarrow> P e (drop (nat (w_block_size w - 1)) tkv) w1 w' \<Longrightarrow> P e tkv w w'"
  shows "P e tkv w w'"
proof -
  have loop: "write_cut_loop e tkv w = Some (Inr w')" using ret by (simp add: write_cut_def split: option.splits)
  have "\<forall>w''. Inr w' = (Inr w'' :: writer result) \<longrightarrow> P e tkv w w''"
  proof (rule write_cut_loop.raw_induct [where P = "\<lambda>e tkv w r. \<forall>w'. r = Inr w' \<longrightarrow> P e tkv w w'", OF _ loop], intro allI impI)
    fix f e tkv w r w'
    assume hyp: "\<And>e tkv w y. f e tkv w = Some y \<Longrightarrow> \<forall>w'. y = Inr w' \<longrightarrow> P e tkv w w'"
      and round: "(if w_block_size w - int (length tkv) \<ge> 0 then Some (Inr (put_tkv tkv (w\<lparr>w_block_size := w_block_size w - int (length tkv)\<rparr>)))
      else if w_block_size w - 1 < 0 then Some (Inl Out_Of_Bounds)
      else let cut = nat (w_block_size w - 1)
        in case next_block e (put_tkv (string_append (e_cm e) (string_substring_until (e_cm e) tkv cut) [CHR 0x0A]) w) of
             Inl err \<Rightarrow> Some (Inl err) | Inr w1 \<Rightarrow> f e (drop cut tkv) w1) = Some r" and r: "r = Inr w'"
    show "P e tkv w w'"
      using round r fits [of e tkv w] by (auto simp: Let_def split: if_splits sum.splits dest!: hyp intro: cuts)
  qed
  then show ?thesis by simp
qed

fun write_tkvs :: "fs_env \<Rightarrow> string list \<Rightarrow> writer \<Rightarrow> writer result" where
  "write_tkvs e [] w = Inr w"
| "write_tkvs e (tkv # tkvs) w =
     rbind (if w_block_size w - int (length tkv) > 0 then Inr (put_tkv tkv (w\<lparr>w_block_size := w_block_size w - int (length tkv)\<rparr>))
            else write_cut e tkv w) (\<lambda>w1.
     rbind (if w_block_size w1 \<le> 1 then next_block e w1 else Inr w1) (write_tkvs e tkvs))"

definition tkv_extra :: "fs_env \<Rightarrow> string \<Rightarrow> int result" where
  \<comment> \<open>the length of a record with the newlines that cutting it adds, as the sources count them\<close>
  "tkv_extra e tkv =
     (if e_block_size e = 1 \<or> e_block_size e = 0 then Inl Div_By_Zero
      else let n = int (length tkv); extra = n div (e_block_size e - 1)
        in Inr (n + (if n mod e_block_size e = 0 then extra - 1 else extra)))"

fun size_of_all_tkvs :: "fs_env \<Rightarrow> string list \<Rightarrow> int result" where
  "size_of_all_tkvs e [] = Inr 0"
| "size_of_all_tkvs e (tkv # tkvs) = rbind (tkv_extra e tkv) (\<lambda>n. rbind (size_of_all_tkvs e tkvs) (\<lambda>m. Inr (n + m)))"

definition necessary_blocks_for_tkvs :: "fs_env \<Rightarrow> string list \<Rightarrow> int result" where
  "necessary_blocks_for_tkvs e tkvs =
     rbind (size_of_all_tkvs e tkvs) (\<lambda>n. rbind (division_rounded_up (word_of_int n) (word_of_int (e_block_size e))) (\<lambda>q. Inr (sint q)))"

section \<open>Reading\<close>

definition fread_into :: "bytes \<Rightarrow> bytes \<Rightarrow> nat \<Rightarrow> bytes" where
  \<comment> \<open>\<open>fread\<close> of at most as many bytes as the buffer has, from the position; the rest of the buffer stays\<close>
  "fread_into buf f pos = (let chunk = take (length buf) (drop pos f) in chunk @ drop (length chunk) buf)"

definition read_first_tkv_in_block :: "disk \<Rightarrow> nat \<Rightarrow> int \<Rightarrow> string result" where
  \<comment> \<open>the buffer is not initialised\<close>
  "read_first_tkv_in_block d sz b = rbind (read_block d b) (\<lambda>f.
     if NUL \<in> set (take sz f) then Inr (cstr (take sz f)) else Inl Uninitialised)"

text \<open>
  The loop over the strings of a block. \<open>fseek\<close> clears the end-of-file flag, so it is left only when a
  read returns nothing or the string ends in a newline.
\<close>

function records_loop :: "commons \<Rightarrow> bytes \<Rightarrow> bytes \<Rightarrow> nat \<Rightarrow> fs_record list \<Rightarrow> (tkv_t \<times> fs_record list) result" where
  "records_loop cm f buf pointer tkvs =
     (let buf1 = fread_into buf f pointer; readed_key = cstr buf1
      in if NUL \<notin> set buf1 then Inl Out_Of_Bounds
         else if readed_key \<noteq> [] \<and> string_ends_with cm readed_key [CHR 0x0A] then
           Inr (\<lparr>tk_tkv = string_substring_until cm readed_key (length readed_key - 1), tk_incomplete = True\<rparr>, tkvs)
         else if take (length buf) (drop pointer f) = [] then Inr (\<lparr>tk_tkv = no_tkv, tk_incomplete = False\<rparr>, tkvs)
         else rbind (convert_record cm readed_key) (\<lambda>r. records_loop cm f buf1 (pointer + length readed_key + 1) (tkvs @ [r])))"
  by pat_completeness auto
termination
  by (relation "measure (\<lambda>(cm, f, buf, pointer, tkvs). length f - pointer)") auto

declare records_loop.simps [simp del]

definition skip_first :: "nat \<Rightarrow> bool \<Rightarrow> nat \<Rightarrow> bytes \<Rightarrow> (bytes \<times> nat \<times> bool) result" where
  \<comment> \<open>the buffer, the position and whether the loop is entered, after the read that skips the part of a
    record that began in an earlier block\<close>
  "skip_first sz index incomplete_tkv_size f =
     (let buf = replicate sz NUL
      in if \<not> index then Inr (buf, 0, True)
         else if min incomplete_tkv_size (length f) > sz then Inl Out_Of_Bounds
         else let chunk = take incomplete_tkv_size f
           in Inr (chunk @ drop (length chunk) buf, incomplete_tkv_size, incomplete_tkv_size \<le> length f))"

definition add_records_from_block ::
  "fs_env \<Rightarrow> disk \<Rightarrow> int \<Rightarrow> bool \<Rightarrow> nat \<Rightarrow> fs_record list \<Rightarrow> (tkv_t \<times> fs_record list) result" where
  "add_records_from_block e d block index incomplete_tkv_size tkvs =
     rbind (read_block d block) (\<lambda>f.
     rbind (skip_first (tkv_size e) index incomplete_tkv_size f) (\<lambda>(buf, pointer, enter).
     if enter then records_loop (e_cm e) f buf pointer tkvs else Inr (\<lparr>tk_tkv = no_tkv, tk_incomplete = False\<rparr>, tkvs)))"

text \<open>
  The loop that completes a cut record from the blocks that follow. \<open>list_get\<close> past the end of the list returns
  \<open>NULL\<close>, which is taken for block 0.
\<close>

fun continue_tkv :: "fs_env \<Rightarrow> disk \<Rightarrow> string \<Rightarrow> int list \<Rightarrow> (string \<times> nat \<times> int list) result" where
  \<comment> \<open>the completed record, the bytes its last part takes and the blocks from the one of that part on\<close>
  "continue_tkv e d tkv [] =
     rbind (read_first_tkv_in_block d (tkv_size e) 0) (\<lambda>continuation.
     let tkv1 = string_append (e_cm e) tkv continuation
     in if length tkv1 \<ge> tkv_size e then Inl Out_Of_Bounds
        else if string_ends_with (e_cm e) tkv1 [CHR 0x0A] then Inl (if continuation = [CHR 0x0A] then Never_Returns else Out_Of_Bounds)
        else Inr (tkv1, length continuation + 1, []))"
| "continue_tkv e d tkv (b # bs) =
     rbind (read_first_tkv_in_block d (tkv_size e) b) (\<lambda>continuation.
     let tkv1 = string_append (e_cm e) tkv continuation
     in if length tkv1 \<ge> tkv_size e then Inl Out_Of_Bounds
        else if string_ends_with (e_cm e) tkv1 [CHR 0x0A] then
          continue_tkv e d (string_substring_until (e_cm e) tkv1 (length tkv1 - 1)) bs
        else Inr (tkv1, length continuation + 1, b # bs))"

lemma continue_tkv_blocks: "continue_tkv e d tkv bs = Inr (s, n, rest) \<Longrightarrow> length rest \<le> length bs"
proof (induction e d tkv bs rule: continue_tkv.induct)
  case (2 e d tkv b bs)
  then show ?case by (auto simp: rbind_Inr_iff Let_def split: if_splits) (metis le_SucI)
qed (auto simp: rbind_Inr_iff Let_def split: if_splits)

function tkv_list_from ::
  "fs_env \<Rightarrow> disk \<Rightarrow> bool \<Rightarrow> nat \<Rightarrow> int list \<Rightarrow> fs_record list \<Rightarrow> fs_record list result" where
  "tkv_list_from e d index incomplete_tkv_size [] tkvs = Inr tkvs"
| "tkv_list_from e d index incomplete_tkv_size (b # bs) tkvs =
     rbind (add_records_from_block e d b index incomplete_tkv_size tkvs) (\<lambda>(key_found, tkvs1).
     if tk_incomplete key_found then
       rbind (continue_tkv e d (tk_tkv key_found) bs) (\<lambda>(tkv, n, rest).
       rbind (convert_record (e_cm e) tkv) (\<lambda>r. tkv_list_from e d True n rest (tkvs1 @ [r])))
     else tkv_list_from e d False incomplete_tkv_size bs tkvs1)"
  by pat_completeness auto
termination
  by (relation "measure (\<lambda>(e, d, index, n, bs, tkvs). length bs)") (auto dest: continue_tkv_blocks)

definition create_tkv_list :: "fs_env \<Rightarrow> disk \<Rightarrow> partition_t \<Rightarrow> fs_record list result" where
  "create_tkv_list e d par = tkv_list_from e d False 0 (par_blocks par) []"

section \<open>Searching\<close>

function search_loop ::
  "commons \<Rightarrow> string \<Rightarrow> bytes \<Rightarrow> bytes \<Rightarrow> nat \<Rightarrow> string \<Rightarrow> int \<Rightarrow> string \<Rightarrow> (tkv_t \<times> string) result" where
  \<comment> \<open>\<open>tkv\<close> and \<open>timestamp\<close> are what was found in this block, \<open>previous\<close> is \<open>previous_key_founded->tkv\<close>\<close>
  "search_loop cm key f buf pointer tkv timestamp previous =
     (let buf1 = fread_into buf f pointer; readed_key = cstr buf1
      in if NUL \<notin> set buf1 then Inl Out_Of_Bounds
         else if readed_key \<noteq> [] \<and> string_ends_with cm readed_key [CHR 0x0A] then
           Inr (\<lparr>tk_tkv = string_substring_until cm readed_key (length readed_key - 1), tk_incomplete = True\<rparr>,
                if string_equals_ignore_case cm tkv no_tkv then previous else tkv)
         else if take (length buf) (drop pointer f) = [] then Inr (\<lparr>tk_tkv = tkv, tk_incomplete = False\<rparr>, previous)
         else rbind (split_tkv cm readed_key) (\<lambda>(t0, t1, _).
           if t1 = key \<and> string_to_long_long t0 > timestamp
           then search_loop cm key f buf1 (pointer + length readed_key + 1) readed_key (string_to_long_long t0) previous
           else search_loop cm key f buf1 (pointer + length readed_key + 1) tkv timestamp previous))"
  by pat_completeness auto
termination
  by (relation "measure (\<lambda>(cm, key, f, buf, pointer, tkv, timestamp, previous). length f - pointer)") auto

declare search_loop.simps [simp del]

definition search_key_in_block :: "fs_env \<Rightarrow> disk \<Rightarrow> int \<Rightarrow> string \<Rightarrow> bool \<Rightarrow> nat \<Rightarrow> string \<Rightarrow> (tkv_t \<times> string) result" where
  "search_key_in_block e d block key index incomplete_tkv_size previous =
     rbind (read_block d block) (\<lambda>f.
     rbind (skip_first (tkv_size e) index incomplete_tkv_size f) (\<lambda>(buf, pointer, enter).
     if enter then search_loop (e_cm e) key f buf pointer no_tkv (-1) previous
     else Inr (\<lparr>tk_tkv = no_tkv, tk_incomplete = False\<rparr>, previous)))"

definition newer_tkv :: "commons \<Rightarrow> string \<Rightarrow> string \<times> int \<Rightarrow> (string \<times> int) result" where
  \<comment> \<open>the record found in a block replaces the one found before when its timestamp is greater\<close>
  "newer_tkv cm tkv best = rbind (split_tkv cm tkv) (\<lambda>(t0, _, _).
     Inr (if string_to_long_long t0 > snd best then (tkv, string_to_long_long t0) else best))"

function archive_loop :: "fs_env \<Rightarrow> disk \<Rightarrow> string \<Rightarrow> bool \<Rightarrow> nat \<Rightarrow> int list \<Rightarrow> string \<times> int \<Rightarrow> string result" where
  "archive_loop e d key index incomplete_tkv_size [] best = Inr (fst best)"
| "archive_loop e d key index incomplete_tkv_size (b # bs) best =
     rbind (search_key_in_block e d b key index incomplete_tkv_size (fst best)) (\<lambda>(key_found, correct).
     rbind (if tk_tkv key_found \<noteq> no_tkv \<and> \<not> tk_incomplete key_found then newer_tkv (e_cm e) (tk_tkv key_found) (correct, snd best)
            else Inr (correct, snd best)) (\<lambda>best1.
     if tk_incomplete key_found then
       rbind (continue_tkv e d (tk_tkv key_found) bs) (\<lambda>(tkv, n, rest).
       rbind (split_tkv (e_cm e) tkv) (\<lambda>(t0, t1, _).
       archive_loop e d key True n rest
         (if t1 = key \<and> string_to_long_long t0 > snd best1 then (tkv, string_to_long_long t0) else best1)))
     else archive_loop e d key False incomplete_tkv_size bs best1))"
  by pat_completeness auto
termination
  by (relation "measure (\<lambda>(e, d, key, index, n, bs, best). length bs)") (auto dest: continue_tkv_blocks)

definition search_key_in_fs_archive :: "fs_env \<Rightarrow> disk \<Rightarrow> string \<Rightarrow> string \<Rightarrow> int \<Rightarrow> fs_record result" where
  \<comment> \<open>without blocks \<open>key_found\<close> is freed before it was assigned\<close>
  "search_key_in_fs_archive e d table name key =
     rbind (read_fs_archive d table name) (\<lambda>par.
     if par_blocks par = [] then Inl Uninitialised
     else rbind (archive_loop e d (string_itoa (e_cm e) key) False 0 (par_blocks par) (no_tkv, -1))
            (convert_to_record (e_cm e)))"

end
