(* ===== verification/FS_Layout.thy ===== *)
theory FS_Layout
  imports FS_Blocks
begin

text \<open>
  The layout of records in blocks, apart from the bytes: a block is a list of strings, the strings of
  consecutive blocks are glued together where one ends in a newline. The reading loops of \<open>FS_Blocks\<close> are shown to
  return the records of the layout.
\<close>

section \<open>Strings and layouts\<close>

definition cut_mark :: char where
  "cut_mark = CHR 0x0A"

definition is_cut :: "string \<Rightarrow> bool" where
  "is_cut s \<longleftrightarrow> s \<noteq> [] \<and> last s = cut_mark"

fun glue :: "string \<Rightarrow> string list \<Rightarrow> string list" where
  "glue p [] = (if p = [] then [] else [p])"
| "glue p (s # ss) = (if is_cut s then glue (p @ butlast s) ss else (p @ s) # glue [] ss)"

definition block_bytes :: "string list \<Rightarrow> bytes" where
  "block_bytes ss = concat (map cstr_bytes ss)"

definition string_ok :: "nat \<Rightarrow> string \<Rightarrow> bool" where
  "string_ok sz s \<longleftrightarrow> s \<noteq> [] \<and> no_nul s \<and> length s < sz"

text \<open>In a block only the last string may be cut, and in the last block none is.\<close>

fun blocks_ok :: "nat \<Rightarrow> string list list \<Rightarrow> bool" where
  "blocks_ok sz [] \<longleftrightarrow> True"
| "blocks_ok sz (ss # Bs) \<longleftrightarrow> (\<forall>s \<in> set ss. string_ok sz s) \<and> (\<forall>s \<in> set (butlast ss). \<not> is_cut s) \<and>
     (ss \<noteq> [] \<and> is_cut (last ss) \<longrightarrow> Bs \<noteq> [] \<and> hd Bs \<noteq> []) \<and> blocks_ok sz Bs"

definition holds_blocks :: "disk \<Rightarrow> int list \<Rightarrow> string list list \<Rightarrow> bool" where
  "holds_blocks d bs Bs \<longleftrightarrow> list_all2 (\<lambda>b ss. d_blocks d b = Some (block_bytes ss)) bs Bs"

lemma block_bytes_simps [simp]: "block_bytes [] = []" "block_bytes (s # ss) = cstr_bytes s @ block_bytes ss"
  "block_bytes (ss @ ts) = block_bytes ss @ block_bytes ts"
  by (simp_all add: block_bytes_def)

lemma is_cut_snoc [simp]: "is_cut (x @ [cut_mark])" by (simp add: is_cut_def)

lemma is_cutE: "is_cut s \<Longrightarrow> (\<And>x. s = x @ [cut_mark] \<Longrightarrow> P) \<Longrightarrow> P"
  by (metis append_butlast_last_id is_cut_def)

context commons_api
begin

lemma ends_with_mark: "string_ends_with cm s [CHR 0x0A] \<longleftrightarrow> is_cut s"
  by (auto simp: ends_with is_cut_def cut_mark_def) (metis append_butlast_last_id)

end

section \<open>The buffer\<close>

definition quiet :: "nat \<Rightarrow> bytes \<Rightarrow> bool" where
  \<comment> \<open>a buffer that does not look like a cut record when nothing is read into it\<close>
  "quiet sz buf \<longleftrightarrow> length buf = sz \<and> NUL \<in> set buf \<and> \<not> is_cut (cstr buf)"

lemma cstr_bytes_prefix:
  assumes "no_nul s" "length s < sz" "length buf = sz"
  shows "NUL \<in> set (fread_into buf (pre @ cstr_bytes s @ rest) (length pre))"
    "cstr (fread_into buf (pre @ cstr_bytes s @ rest) (length pre)) = s"
    "length (fread_into buf (pre @ cstr_bytes s @ rest) (length pre)) = sz"
proof -
  let ?chunk = "take sz (cstr_bytes s @ rest)"
  have c: "?chunk = cstr_bytes s @ take (sz - length (cstr_bytes s)) rest" using assms(2) by simp
  have b: "fread_into buf (pre @ cstr_bytes s @ rest) (length pre) =
      cstr_bytes s @ take (sz - length (cstr_bytes s)) rest @ drop (length ?chunk) buf"
    using assms(3) by (simp add: fread_into_def Let_def c del: take_append length_cstr_bytes)
  show "NUL \<in> set (fread_into buf (pre @ cstr_bytes s @ rest) (length pre))" unfolding b by (simp add: cstr_bytes_def)
  show "cstr (fread_into buf (pre @ cstr_bytes s @ rest) (length pre)) = s" unfolding b by (simp add: assms(1))
  show "length (fread_into buf (pre @ cstr_bytes s @ rest) (length pre)) = sz"
    using assms(3) by (simp add: fread_into_def Let_def)
qed

lemma fread_end: "fread_into buf f (length f) = buf"
  by (simp add: fread_into_def)

section \<open>One block\<close>

context commons_api
begin

lemma records_loop_step:
  assumes "string_ok sz s" "length buf = sz" "\<not> is_cut s" "convert_record cm s = Inr r"
  shows "\<exists>buf1. quiet sz buf1 \<and> records_loop cm (pre @ cstr_bytes s @ rest) buf (length pre) acc =
    records_loop cm (pre @ cstr_bytes s @ rest) buf1 (length (pre @ cstr_bytes s)) (acc @ [r])"
proof -
  have s: "no_nul s" "length s < sz" "s \<noteq> []" using assms(1) by (auto simp: string_ok_def)
  let ?f = "pre @ cstr_bytes s @ rest"
  let ?b = "fread_into buf ?f (length pre)"
  note b = cstr_bytes_prefix [OF s(1,2) assms(2), of pre rest]
  have "quiet sz ?b" using b assms(3) by (simp add: quiet_def)
  moreover have "buf \<noteq> []" "cstr_bytes s \<noteq> []" using assms(2) s(2) by (auto simp: cstr_bytes_def)
  ultimately show ?thesis
    using b assms(3,4) by (intro exI [of _ ?b]) (simp add: records_loop.simps [of cm ?f buf] Let_def ends_with_mark)
qed

lemma records_loop_end: "quiet sz buf \<Longrightarrow> records_loop cm f buf (length f) acc = Inr (\<lparr>tk_tkv = no_tkv, tk_incomplete = False\<rparr>, acc)"
  by (simp add: records_loop.simps [of cm f buf] Let_def fread_end quiet_def ends_with_mark)

lemma records_loop_cut:
  assumes "string_ok sz (x @ [cut_mark])" "length buf = sz"
  shows "records_loop cm (pre @ cstr_bytes (x @ [cut_mark]) @ rest) buf (length pre) acc = Inr (\<lparr>tk_tkv = x, tk_incomplete = True\<rparr>, acc)"
proof -
  have s: "no_nul (x @ [cut_mark])" "length (x @ [cut_mark]) < sz" using assms(1) by (auto simp: string_ok_def)
  note b = cstr_bytes_prefix [OF s assms(2), of pre rest]
  show ?thesis by (subst records_loop.simps) (simp add: Let_def b ends_with_mark substring_until)
qed

text \<open>The strings of a block from a position on: all of them, or all up to the cut one.\<close>

lemma records_loop_block:
  assumes "\<forall>s \<in> set ss. string_ok sz s \<and> \<not> is_cut s \<and> convert_record cm s = Inr (r s)" "quiet sz buf"
  shows "records_loop cm (pre @ block_bytes ss) buf (length pre) acc = Inr (\<lparr>tk_tkv = no_tkv, tk_incomplete = False\<rparr>, acc @ map r ss)"
  using assms
proof (induction ss arbitrary: pre buf acc)
  case Nil
  then show ?case using records_loop_end [of sz buf pre acc] by simp
next
  case (Cons s ss)
  obtain buf1 where b: "quiet sz buf1" "records_loop cm (pre @ cstr_bytes s @ block_bytes ss) buf (length pre) acc =
      records_loop cm (pre @ cstr_bytes s @ block_bytes ss) buf1 (length (pre @ cstr_bytes s)) (acc @ [r s])"
    using records_loop_step [of sz s buf "r s" pre "block_bytes ss" acc] Cons.prems by (auto simp: quiet_def)
  show ?case using Cons.IH [of buf1 "pre @ cstr_bytes s" "acc @ [r s]"] Cons.prems b by simp
qed

lemma records_loop_block_cut:
  assumes "\<forall>s \<in> set ss. string_ok sz s \<and> \<not> is_cut s \<and> convert_record cm s = Inr (r s)" "string_ok sz (x @ [cut_mark])" "length buf = sz"
  shows "records_loop cm (pre @ block_bytes (ss @ [x @ [cut_mark]])) buf (length pre) acc = Inr (\<lparr>tk_tkv = x, tk_incomplete = True\<rparr>, acc @ map r ss)"
  using assms
proof (induction ss arbitrary: pre buf acc)
  case Nil
  then show ?case using records_loop_cut [of sz x buf pre "[]" acc] by simp
next
  case (Cons s ss)
  let ?rest = "block_bytes (ss @ [x @ [cut_mark]])"
  obtain buf1 where b: "quiet sz buf1" "records_loop cm (pre @ cstr_bytes s @ ?rest) buf (length pre) acc =
      records_loop cm (pre @ cstr_bytes s @ ?rest) buf1 (length (pre @ cstr_bytes s)) (acc @ [r s])"
    using records_loop_step [of sz s buf "r s" pre ?rest acc] Cons.prems by auto
  show ?case using Cons.IH [of buf1 "pre @ cstr_bytes s" "acc @ [r s]"] Cons.prems b by (simp add: quiet_def)
qed

end

section \<open>Gluing\<close>

lemma glue_uncut: "\<forall>s \<in> set ss. \<not> is_cut s \<Longrightarrow> glue [] (ss @ rest) = ss @ glue [] rest"
  by (induction ss) auto

lemma block_cases:
  assumes "\<forall>s \<in> set (butlast ss). \<not> is_cut s"
  obtains (uncut) "\<forall>s \<in> set ss. \<not> is_cut s" | (cut) ss' x where "ss = ss' @ [x @ [cut_mark]]" "\<forall>s \<in> set ss'. \<not> is_cut s"
proof (cases "ss \<noteq> [] \<and> is_cut (last ss)")
  case True
  then obtain x where "last ss = x @ [cut_mark]" using is_cutE by blast
  then have "ss = butlast ss @ [x @ [cut_mark]]" using True by (metis append_butlast_last_id)
  then show ?thesis using cut assms by blast
next
  case False
  then have "\<forall>s \<in> set ss. \<not> is_cut s" using assms by (cases ss rule: rev_cases) auto
  then show ?thesis using uncut by blast
qed

section \<open>All the blocks\<close>

definition enters :: "nat \<Rightarrow> bool \<Rightarrow> nat \<Rightarrow> string list \<Rightarrow> string list \<Rightarrow> bool" where
  \<comment> \<open>reading a block with the strings \<open>ss0\<close> starts at \<open>ss\<close>, after the string that was used up\<close>
  "enters sz index n ss0 ss \<longleftrightarrow>
     (if index then \<exists>s. ss0 = s # ss \<and> n = Suc (length s) \<and> string_ok sz s \<and> \<not> is_cut s else ss0 = ss)"

lemma quiet_replicate: "0 < sz \<Longrightarrow> quiet sz (replicate sz NUL)"
  by (cases sz) (simp_all add: quiet_def cstr_def is_cut_def)

lemma skip_first_enters:
  assumes "enters sz index n ss0 ss" "0 < sz"
  obtains buf pre where "skip_first sz index n (block_bytes ss0) = Inr (buf, length pre, True)" "quiet sz buf" "block_bytes ss0 = pre @ block_bytes ss"
proof (cases index)
  case True
  then obtain s where s: "ss0 = s # ss" "n = Suc (length s)" "string_ok sz s" "\<not> is_cut s" using assms by (auto simp: enters_def)
  let ?buf = "cstr_bytes s @ drop n (replicate sz NUL)"
  have "skip_first sz index n (block_bytes ss0) = Inr (?buf, length (cstr_bytes s), True)"
    using s True by (auto simp: skip_first_def string_ok_def Let_def)
  moreover have "quiet sz ?buf" using s by (auto simp: quiet_def string_ok_def cstr_bytes_def)
      (metis cstr_bytes_def cstr_cstr_bytes append.assoc append_Cons append_Nil)
  moreover have "block_bytes ss0 = cstr_bytes s @ block_bytes ss" using s by simp
  ultimately show ?thesis using that by blast
next
  case False
  then show ?thesis using that [of "replicate sz NUL" "[]"] assms by (simp add: skip_first_def enters_def quiet_replicate Let_def)
qed

locale fs_reader = commons_api "e_cm e" for e :: fs_env +
  assumes tkv_size_pos: "0 < tkv_size e"
begin

lemma add_records_uncut:
  assumes "d_blocks d b = Some (block_bytes ss0)" "enters (tkv_size e) index n ss0 ss"
    "\<forall>s \<in> set ss. string_ok (tkv_size e) s \<and> \<not> is_cut s \<and> convert_record (e_cm e) s = Inr (r s)"
  shows "add_records_from_block e d b index n acc = Inr (\<lparr>tk_tkv = no_tkv, tk_incomplete = False\<rparr>, acc @ map r ss)"
proof -
  obtain buf pre where "skip_first (tkv_size e) index n (block_bytes ss0) = Inr (buf, length pre, True)" "quiet (tkv_size e) buf"
    "block_bytes ss0 = pre @ block_bytes ss"
    using skip_first_enters [OF assms(2) tkv_size_pos] by blast
  then show ?thesis using records_loop_block [OF assms(3)] assms(1) by (simp add: add_records_from_block_def read_block_def)
qed

lemma add_records_cut:
  assumes "d_blocks d b = Some (block_bytes ss0)" "enters (tkv_size e) index n ss0 (ss @ [x @ [cut_mark]])"
    "\<forall>s \<in> set ss. string_ok (tkv_size e) s \<and> \<not> is_cut s \<and> convert_record (e_cm e) s = Inr (r s)" "string_ok (tkv_size e) (x @ [cut_mark])"
  shows "add_records_from_block e d b index n acc = Inr (\<lparr>tk_tkv = x, tk_incomplete = True\<rparr>, acc @ map r ss)"
proof -
  obtain buf pre where "skip_first (tkv_size e) index n (block_bytes ss0) = Inr (buf, length pre, True)" "quiet (tkv_size e) buf"
    "block_bytes ss0 = pre @ block_bytes (ss @ [x @ [cut_mark]])"
    using skip_first_enters [OF assms(2) tkv_size_pos] by blast
  then show ?thesis using records_loop_block_cut [OF assms(3,4), of buf pre acc] assms(1)
    by (simp add: add_records_from_block_def read_block_def quiet_def)
qed

lemma read_first_string:
  assumes "string_ok (tkv_size e) s" "d_blocks d b = Some (block_bytes (s # ss))"
  shows "read_first_tkv_in_block d (tkv_size e) b = Inr s"
proof -
  have s: "no_nul s" "length s < tkv_size e" using assms(1) by (auto simp: string_ok_def)
  then have t: "take (tkv_size e) (block_bytes (s # ss)) = cstr_bytes s @ take (tkv_size e - Suc (length s)) (block_bytes ss)" by simp
  have "NUL \<in> set (take (tkv_size e) (block_bytes (s # ss)))" unfolding t by (simp add: cstr_bytes_def)
  moreover have "cstr (take (tkv_size e) (block_bytes (s # ss))) = s" unfolding t using s(1) by simp
  ultimately show ?thesis using assms(2) by (simp add: read_first_tkv_in_block_def read_block_def del: block_bytes_simps)
qed

text \<open>The record that was cut is completed, and reading goes on behind its last part.\<close>

lemma continue_ok:
  assumes "holds_blocks d bs Bs" "blocks_ok (tkv_size e) Bs" "Bs \<noteq> []" "hd Bs \<noteq> []" "\<forall>t \<in> set (glue p (concat Bs)). length t < tkv_size e"
  shows "\<exists>u b rest s ss Bs'. continue_tkv e d p bs = Inr (p @ u, Suc (length s), b # rest) \<and> u \<noteq> [] \<and> holds_blocks d (b # rest) ((s # ss) # Bs') \<and>
    length rest < length bs \<and> \<not> is_cut s \<and> blocks_ok (tkv_size e) ((s # ss) # Bs') \<and> glue p (concat Bs) = (p @ u) # glue [] (ss @ concat Bs')"
  using assms
proof (induction Bs arbitrary: bs p)
  case (Cons B Bs)
  obtain s ss where B: "B = s # ss" using Cons.prems(4) by (cases B) auto
  obtain b rest where bs: "bs = b # rest" "d_blocks d b = Some (block_bytes (s # ss))" "holds_blocks d rest Bs"
    using Cons.prems(1) B by (auto simp: holds_blocks_def list_all2_Cons2)
  have ok: "string_ok (tkv_size e) s" using Cons.prems(2) B by simp
  have rd: "read_first_tkv_in_block d (tkv_size e) b = Inr s" using read_first_string [OF ok bs(2)] .
  have nonempty: "s \<noteq> []" using ok by (simp add: string_ok_def)
  show ?case
  proof (cases "is_cut s")
    case False
    have "\<not> is_cut (p @ s)" using False nonempty by (auto simp: is_cut_def)
    moreover have "length (p @ s) < tkv_size e" using Cons.prems(5) B False by simp
    ultimately have "continue_tkv e d p bs = Inr (p @ s, Suc (length s), b # rest)"
      using bs(1) rd by (simp add: append ends_with_mark)
    then show ?thesis using bs Cons.prems(1,2) B False nonempty
      by (intro exI [of _ s] exI [of _ b] exI [of _ rest] exI [of _ ss] exI [of _ Bs]) simp
  next
    case True
    then obtain x where x: "s = x @ [cut_mark]" by (rule is_cutE)
    have ss: "ss = []" using Cons.prems(2) B True by (cases ss rule: rev_cases) auto
    have nx: "Bs \<noteq> []" "hd Bs \<noteq> []" "blocks_ok (tkv_size e) Bs" using Cons.prems(2) B ss True by auto
    have g: "glue p (concat (B # Bs)) = glue (p @ x) (concat Bs)" using B ss x by simp
    obtain u b' rest' s' ss' Bs' where IH: "continue_tkv e d (p @ x) rest = Inr ((p @ x) @ u, Suc (length s'), b' # rest')" "u \<noteq> []"
      "holds_blocks d (b' # rest') ((s' # ss') # Bs')" "length rest' < length rest" "\<not> is_cut s'" "blocks_ok (tkv_size e) ((s' # ss') # Bs')"
      "glue (p @ x) (concat Bs) = ((p @ x) @ u) # glue [] (ss' @ concat Bs')"
      using Cons.IH [OF bs(3) nx(3,1,2), of "p @ x"] Cons.prems(5) g by auto
    have "length (p @ x @ u) < tkv_size e" using Cons.prems(5) g IH(7) by simp
    then have len: "length (p @ s) < tkv_size e" using x IH(2) by (cases u) auto
    have cut: "is_cut (p @ s)" using x is_cut_snoc [of "p @ x"] by simp
    have "continue_tkv e d p bs = continue_tkv e d (p @ x) rest"
      using bs(1) rd len cut x by (simp add: append ends_with_mark substring_until)
    then show ?thesis using IH g bs(1)
      by (intro exI [of _ "x @ u"] exI [of _ b'] exI [of _ rest'] exI [of _ s'] exI [of _ ss'] exI [of _ Bs']) simp
  qed
qed simp

lemma tkv_list_reads:
  assumes "holds_blocks d (b # bs) (ss0 # Bs)" "enters (tkv_size e) index n ss0 ss" "blocks_ok (tkv_size e) (ss # Bs)"
    "\<forall>t \<in> set (glue [] (ss @ concat Bs)). length t < tkv_size e \<and> convert_record (e_cm e) t = Inr (r t)"
  shows "tkv_list_from e d index n (b # bs) acc = Inr (acc @ map r (glue [] (ss @ concat Bs)))"
  using assms
proof (induction "length bs" arbitrary: b bs ss0 Bs index n ss acc rule: less_induct)
  case less
  have blk: "d_blocks d b = Some (block_bytes ss0)" and hold: "holds_blocks d bs Bs"
    using less.prems(1) by (simp_all add: holds_blocks_def)
  have oks: "\<forall>s \<in> set ss. string_ok (tkv_size e) s" "\<forall>s \<in> set (butlast ss). \<not> is_cut s" "blocks_ok (tkv_size e) Bs"
    "ss \<noteq> [] \<and> is_cut (last ss) \<longrightarrow> Bs \<noteq> [] \<and> hd Bs \<noteq> []"
    using less.prems(3) by simp_all
  from oks(2) show ?case
  proof (cases rule: block_cases)
    case uncut
    have g: "glue [] (ss @ concat Bs) = ss @ glue [] (concat Bs)" using glue_uncut [OF uncut] .
    have add: "add_records_from_block e d b index n acc = Inr (\<lparr>tk_tkv = no_tkv, tk_incomplete = False\<rparr>, acc @ map r ss)"
      by (rule add_records_uncut [OF blk less.prems(2)]) (use oks(1) uncut less.prems(4) g in auto)
    show ?thesis
    proof (cases bs)
      case Nil
      then have "Bs = []" using hold by (simp add: holds_blocks_def)
      then show ?thesis using add Nil g by simp
    next
      case (Cons b' bs')
      then obtain ss' Bs' where Bs: "Bs = ss' # Bs'" using hold by (auto simp: holds_blocks_def list_all2_Cons1)
      have "tkv_list_from e d False n (b' # bs') (acc @ map r ss) = Inr ((acc @ map r ss) @ map r (glue [] (ss' @ concat Bs')))"
        by (rule less.hyps) (use Cons hold Bs oks(3) less.prems(4) g in \<open>auto simp: enters_def\<close>)
      then show ?thesis using add Cons Bs g by simp
    qed
  next
    case (cut ss' x)
    have nx: "Bs \<noteq> []" "hd Bs \<noteq> []" using oks(4) cut by auto
    have g: "glue [] (ss @ concat Bs) = ss' @ glue x (concat Bs)" using glue_uncut [OF cut(2)] cut(1) by simp
    have add: "add_records_from_block e d b index n acc = Inr (\<lparr>tk_tkv = x, tk_incomplete = True\<rparr>, acc @ map r ss')"
      by (rule add_records_cut [OF blk]) (use less.prems(2,4) oks(1) cut g in auto)
    obtain u b' rest s ss1 Bs' where c: "continue_tkv e d x bs = Inr (x @ u, Suc (length s), b' # rest)" "u \<noteq> []"
      "holds_blocks d (b' # rest) ((s # ss1) # Bs')" "length rest < length bs" "\<not> is_cut s" "blocks_ok (tkv_size e) ((s # ss1) # Bs')"
      "glue x (concat Bs) = (x @ u) # glue [] (ss1 @ concat Bs')"
      using continue_ok [OF hold oks(3) nx, of x] less.prems(4) g by auto
    have conv: "convert_record (e_cm e) (x @ u) = Inr (r (x @ u))" using less.prems(4) g c(7) by simp
    have "blocks_ok (tkv_size e) (ss1 # Bs')" using c(6) by (cases ss1) auto
    moreover have "enters (tkv_size e) True (Suc (length s)) (s # ss1) ss1" using c(5,6) by (simp add: enters_def)
    ultimately have "tkv_list_from e d True (Suc (length s)) (b' # rest) (acc @ map r ss' @ [r (x @ u)]) =
        Inr ((acc @ map r ss' @ [r (x @ u)]) @ map r (glue [] (ss1 @ concat Bs')))"
      by (intro less.hyps [OF c(4,3)]) (use less.prems(4) g c(7) in auto)
    then show ?thesis using add c(1) conv g c(7) by simp
  qed
qed

lemma create_tkv_list_reads:
  assumes "holds_blocks d bs Bs" "blocks_ok (tkv_size e) Bs" "par_blocks par = bs"
    "\<forall>t \<in> set (glue [] (concat Bs)). length t < tkv_size e \<and> convert_record (e_cm e) t = Inr (r t)"
  shows "create_tkv_list e d par = Inr (map r (glue [] (concat Bs)))"
proof (cases bs)
  case Nil
  then show ?thesis using assms(1,3) by (simp add: create_tkv_list_def holds_blocks_def)
next
  case (Cons b bs')
  then obtain ss Bs' where "Bs = ss # Bs'" using assms(1) by (auto simp: holds_blocks_def list_all2_Cons1)
  then show ?thesis using tkv_list_reads [of d b bs' ss Bs' False 0 ss r "[]"] assms Cons
    by (simp add: create_tkv_list_def enters_def)
qed

end

end
