(* ===== verification/FS_Writer.thy ===== *)
theory FS_Writer
  imports FS_Layout
begin

text \<open>
  The writing loops: the blocks a writer has filled hold the records it was given, they were free
  before, and nothing else on the disk has changed. With the reading of \<open>FS_Layout\<close> this is the round trip of an
  archive.
\<close>

section \<open>The bitmap\<close>

definition bitmap_ok :: "disk \<Rightarrow> bool" where
  \<comment> \<open>the numbers of the blocks are in the range of \<open>int\<close>\<close>
  "bitmap_ok d \<longleftrightarrow> (\<exists>bm. read_bitmap d = Inr bm \<and> 8 * int (length bm) < 2 ^ 31)"

definition bitmap_bits :: "disk \<Rightarrow> int" where
  "bitmap_bits d = (case read_bitmap d of Inl _ \<Rightarrow> 0 | Inr bm \<Rightarrow> 8 * int (length bm))"

definition taken :: "fs_env \<Rightarrow> disk \<Rightarrow> int \<Rightarrow> bool" where
  \<comment> \<open>block \<open>b\<close> is marked in the bitmap\<close>
  "taken e d b \<longleftrightarrow> (\<exists>bm. read_bitmap d = Inr bm \<and> 1 \<le> b \<and> b \<le> 8 * int (length bm) \<and> bitarray_test_bit (e_ba e) bm (nat (b - 1)))"

lemma read_write_bitmap [simp]: "int (length bm) < 256 ^ 8 \<Longrightarrow> read_bitmap (write_bitmap bm d) = Inr bm"
  by (simp add: read_bitmap_def write_bitmap_def Let_def)

lemma write_bitmap_fields [simp]: "d_blocks (write_bitmap bm d) = d_blocks d" "d_tables (write_bitmap bm d) = d_tables d"
  by (simp_all add: write_bitmap_def)

lemma open_block_fields [simp]: "read_bitmap (open_block b d) = read_bitmap d" "d_tables (open_block b d) = d_tables d"
  "d_blocks (open_block b d) = (d_blocks d)(b \<mapsto> [])"
  by (simp_all add: open_block_def read_bitmap_def)

lemma write_tkv_fields [simp]: "read_bitmap (write_tkv b s d) = read_bitmap d" "d_tables (write_tkv b s d) = d_tables d"
  "d_blocks (write_tkv b s d) = (d_blocks d)(b \<mapsto> the (d_blocks d b) @ cstr_bytes s)"
  by (simp_all add: write_tkv_def read_bitmap_def)

lemma taken_bitmap: "read_bitmap d = Inr bm \<Longrightarrow> taken e d b \<longleftrightarrow> 1 \<le> b \<and> b \<le> 8 * int (length bm) \<and> bitarray_test_bit (e_ba e) bm (nat (b - 1))"
  by (simp add: taken_def)

lemma taken_same: "read_bitmap d' = read_bitmap d \<Longrightarrow> taken e d' b = taken e d b"
  by (simp add: taken_def)

lemma bits_same: "read_bitmap d' = read_bitmap d \<Longrightarrow> bitmap_bits d' = bitmap_bits d"
  by (simp add: bitmap_bits_def)

lemma taken_bits: "taken e d b \<Longrightarrow> 1 \<le> b \<and> b \<le> bitmap_bits d"
  by (auto simp: taken_def bitmap_bits_def)

lemma taken_pos: "taken e d b \<Longrightarrow> 0 < b"
  by (auto simp: taken_def)

locale fs_libs = fs_reader e + bitarray_api "e_ba e" for e :: fs_env
begin

lemma find_free_block_cases:
  obtains (none) "find_free_block e bm = (-1, bm)" "\<forall>i < 8 * length bm. bitarray_test_bit (e_ba e) bm i"
  | (found) i where "find_free_block e bm = (int i, bitarray_set_bit (e_ba e) bm i)" "i < 8 * length bm" "\<not> bitarray_test_bit (e_ba e) bm i"
proof (cases "find (\<lambda>i. \<not> bitarray_test_bit (e_ba e) bm i) [0..<8 * length bm]")
  case None
  then have "find_free_block e bm = (-1, bm)" by (simp add: find_free_block_def)
  moreover have "\<forall>i < 8 * length bm. bitarray_test_bit (e_ba e) bm i" using None by (simp add: find_None_iff)
  ultimately show ?thesis using none by blast
next
  case (Some i)
  then have "i < 8 * length bm" "\<not> bitarray_test_bit (e_ba e) bm i" by (auto simp: find_Some_iff)
  then show ?thesis using found Some by (simp add: find_free_block_def)
qed

lemma take_block_total: "bitmap_ok d \<Longrightarrow> \<exists>b d'. take_block e d = Inr (b, d') \<and> bitmap_ok d'"
proof -
  assume "bitmap_ok d"
  then obtain bm where bm: "read_bitmap d = Inr bm" "8 * int (length bm) < 2 ^ 31" by (auto simp: bitmap_ok_def)
  show ?thesis
  proof (cases rule: find_free_block_cases [of bm])
    case none
    then show ?thesis using bm by (simp add: take_block_def bitmap_ok_def)
  next
    case (found i)
    then show ?thesis using bm length_set [of i bm] by (simp add: take_block_def bitmap_ok_def)
  qed
qed

text \<open>A block that is taken was free, and is empty; only it changes.\<close>

lemma take_block_ok:
  assumes "take_block e d = Inr (b, d')" "bitmap_ok d" "b \<noteq> 0"
  shows "\<not> taken e d b" "\<And>c. taken e d' c \<longleftrightarrow> taken e d c \<or> c = b" "d_blocks d' = (d_blocks d)(b \<mapsto> [])" "d_tables d' = d_tables d" "0 < b" "bitmap_bits d' = bitmap_bits d"
proof -
  obtain bm where bm: "read_bitmap d = Inr bm" "8 * int (length bm) < 2 ^ 31" using assms(2) by (auto simp: bitmap_ok_def)
  have "\<exists>i. find_free_block e bm = (int i, bitarray_set_bit (e_ba e) bm i) \<and> i < 8 * length bm \<and> \<not> bitarray_test_bit (e_ba e) bm i"
    using assms(1,3) bm by (cases rule: find_free_block_cases [of bm]) (auto simp: take_block_def)
  then obtain i where i: "find_free_block e bm = (int i, bitarray_set_bit (e_ba e) bm i)" "i < 8 * length bm" "\<not> bitarray_test_bit (e_ba e) bm i" by blast
  let ?bm = "bitarray_set_bit (e_ba e) bm i"
  have b: "b = int i + 1" and d': "d' = open_block b (write_bitmap ?bm d)" using assms(1) bm i(1) by (auto simp: take_block_def)
  have rd: "read_bitmap d' = Inr ?bm" using d' bm(2) length_set [OF i(2)] by simp
  show "\<not> taken e d b" using i(3) by (simp add: taken_bitmap [OF bm(1)] b)
  show "taken e d' c \<longleftrightarrow> taken e d c \<or> c = b" for c
  proof (cases "1 \<le> c \<and> c \<le> 8 * int (length bm)")
    case True
    then have j: "nat (c - 1) < 8 * length bm" by linarith
    show ?thesis using True i(2) test_set [OF i(2) j]
      by (auto simp: taken_bitmap [OF rd] taken_bitmap [OF bm(1)] length_set [OF i(2)] b)
  next
    case False
    then show ?thesis using i(2) by (auto simp: taken_bitmap [OF rd] taken_bitmap [OF bm(1)] length_set [OF i(2)] b)
  qed
  show "d_blocks d' = (d_blocks d)(b \<mapsto> [])" "d_tables d' = d_tables d" "0 < b" using d' b by simp_all
  show "bitmap_bits d' = bitmap_bits d" using rd bm(1) length_set [OF i(2)] by (simp add: bitmap_bits_def)
qed

end

section \<open>Layouts in the making\<close>

fun gs :: "string \<Rightarrow> string list \<Rightarrow> string list \<times> string" where
  \<comment> \<open>the records that are complete and the one that is not\<close>
  "gs p [] = ([], p)"
| "gs p (s # ss) = (if is_cut s then gs (p @ butlast s) ss else (case gs [] ss of (done, q) \<Rightarrow> ((p @ s) # done, q)))"

lemma glue_gs: "gs p ss = (done, []) \<Longrightarrow> glue p ss = done"
  by (induction p ss arbitrary: "done" rule: gs.induct) (auto split: if_splits prod.splits)

lemma gs_snoc: "gs p ss = (done, q) \<Longrightarrow> gs p (ss @ [s]) = (if is_cut s then (done, q @ butlast s) else (done @ [q @ s], []))"
  by (induction p ss arbitrary: "done" rule: gs.induct) (auto split: if_splits prod.splits)

fun lay_ok :: "nat \<Rightarrow> string list list \<Rightarrow> bool" where
  "lay_ok sz [] \<longleftrightarrow> False"
| "lay_ok sz [ss] \<longleftrightarrow> (\<forall>s \<in> set ss. string_ok sz s \<and> \<not> is_cut s)"
| "lay_ok sz (ss # ss2 # Bs) \<longleftrightarrow> (\<forall>s \<in> set ss. string_ok sz s) \<and> (\<forall>s \<in> set (butlast ss). \<not> is_cut s) \<and>
     (ss \<noteq> [] \<and> is_cut (last ss) \<longrightarrow> ss2 \<noteq> [] \<or> Bs = []) \<and> lay_ok sz (ss2 # Bs)"

lemma lay_ok_write: "lay_ok sz (Bs @ [cur]) \<Longrightarrow> string_ok sz s \<Longrightarrow> \<not> is_cut s \<Longrightarrow> lay_ok sz (Bs @ [cur @ [s]])"
proof (induction Bs rule: induct_list012)
  case (3 x y zs)
  then show ?case by (cases zs) auto
qed auto

lemma lay_ok_next:
  "lay_ok sz (Bs @ [cur]) \<Longrightarrow> \<forall>s \<in> set cur'. string_ok sz s \<Longrightarrow> \<forall>s \<in> set (butlast cur'). \<not> is_cut s \<Longrightarrow> cur' \<noteq> [] \<Longrightarrow>
   lay_ok sz (Bs @ [cur', []])"
proof (induction Bs rule: induct_list012)
  case (3 y z zs)
  then show ?case by (cases zs) simp_all
qed simp_all

lemma lay_ok_tail: "lay_ok sz (ss # Bs @ [cur]) \<Longrightarrow> lay_ok sz (Bs @ [cur])"
  by (cases Bs) auto

lemma lay_ok_current: "lay_ok sz (Bs @ [cur]) \<Longrightarrow> s \<in> set cur \<Longrightarrow> string_ok sz s \<and> \<not> is_cut s"
proof (induction Bs)
  case (Cons ss Bs)
  then show ?case using lay_ok_tail [of sz ss Bs cur] by simp
qed simp

text \<open>A finished layout can be read.\<close>

lemma lay_ok_blocks:
  "lay_ok sz Bs \<Longrightarrow> gs p (concat Bs) = (done, []) \<Longrightarrow> (\<forall>s \<in> set (concat Bs). is_cut s \<longrightarrow> butlast s \<noteq> []) \<Longrightarrow> blocks_ok sz Bs"
proof (induction Bs arbitrary: p "done" rule: lay_ok.induct)
  case (2 sz ss)
  then show ?case by (auto dest: in_set_butlastD)
next
  case (3 sz ss ss2 Bs)
  obtain done1 q where g: "gs p ss = (done1, q)" by (cases "gs p ss")
  have app: "gs p (ss @ rest) = (done1 @ fst (gs q rest), snd (gs q rest))" for rest
    using g by (induction p ss arbitrary: done1 rule: gs.induct) (auto split: if_splits prod.splits)
  have rest: "gs q (concat (ss2 # Bs)) = (fst (gs q (concat (ss2 # Bs))), [])" using "3.prems"(2) app [of "concat (ss2 # Bs)"]
    by (metis concat.simps(2) prod.collapse snd_conv)
  have "ss2 \<noteq> []" if cut: "ss \<noteq> []" "is_cut (last ss)"
  proof (rule ccontr)
    assume "\<not> ss2 \<noteq> []"
    then have "ss2 = []" "Bs = []" using "3.prems"(1) cut by auto
    then have "q = []" using rest by simp
    moreover have "gs p ss = (fst (gs p (butlast ss)), snd (gs p (butlast ss)) @ butlast (last ss))"
      using gs_snoc [of p "butlast ss" "fst (gs p (butlast ss))" "snd (gs p (butlast ss))" "last ss"] cut by simp
    moreover have "butlast (last ss) \<noteq> []" using "3.prems"(3) cut by simp
    ultimately show False using g by simp
  qed
  then show ?case using "3.prems" "3.IH" [OF _ rest] by simp
qed simp

section \<open>The writer\<close>

definition tkv_ok :: "nat \<Rightarrow> string \<Rightarrow> bool" where
  \<comment> \<open>the text of a record that fits the buffers and has no character with a meaning in the layout\<close>
  "tkv_ok sz s \<longleftrightarrow> string_ok sz s \<and> cut_mark \<notin> set s"

lemma tkv_ok_uncut: "tkv_ok sz s \<Longrightarrow> \<not> is_cut s"
  by (metis is_cut_def last_in_set tkv_ok_def)

definition changes_only :: "fs_env \<Rightarrow> disk \<Rightarrow> int list \<Rightarrow> disk \<Rightarrow> bool" where
  \<comment> \<open>the blocks were free and are now marked, the rest of the disk is as it was\<close>
  "changes_only e d bs d' \<longleftrightarrow> (\<forall>b \<in> set bs. 0 < b \<and> \<not> taken e d b) \<and> (\<forall>b. taken e d' b \<longleftrightarrow> taken e d b \<or> b \<in> set bs) \<and>
     (\<forall>b. b \<notin> set bs \<longrightarrow> d_blocks d' b = d_blocks d b) \<and> d_tables d' = d_tables d \<and> bitmap_bits d' = bitmap_bits d"

definition wdisk :: "fs_env \<Rightarrow> disk \<Rightarrow> writer \<Rightarrow> string list list \<Rightarrow> bool" where
  \<comment> \<open>the writer's blocks on the disk\<close>
  "wdisk e d w Bs \<longleftrightarrow> bitmap_ok (w_disk w) \<and> changes_only e d (w_blocks w) (w_disk w) \<and>
     holds_blocks (w_disk w) (w_blocks w) Bs \<and> distinct (w_blocks w) \<and> w_blocks w \<noteq> [] \<and> w_block w = last (w_blocks w)"

definition winv :: "fs_env \<Rightarrow> disk \<Rightarrow> writer \<Rightarrow> string list list \<Rightarrow> string list \<Rightarrow> string \<Rightarrow> bool" where
  "winv e d w Bs tkvs p \<longleftrightarrow> wdisk e d w Bs \<and>
     lay_ok (tkv_size e) Bs \<and> (\<forall>s \<in> set (concat Bs). is_cut s \<longrightarrow> butlast s \<noteq> []) \<and> gs [] (concat Bs) = (tkvs, p)"

lemma holds_blocks_snoc: "holds_blocks d (bs @ [b]) Bs' \<longleftrightarrow> (\<exists>Bs cur. Bs' = Bs @ [cur] \<and> holds_blocks d bs Bs \<and> d_blocks d b = Some (block_bytes cur))"
proof -
  have "holds_blocks d (bs @ [b]) Bs' \<longleftrightarrow> list_all2 (\<lambda>b ss. d_blocks d b = Some (block_bytes ss)) (b # rev bs) (rev Bs')"
    unfolding holds_blocks_def by (subst list_all2_rev [symmetric]) simp
  also have "\<dots> \<longleftrightarrow> (\<exists>Bs cur. Bs' = Bs @ [cur] \<and> holds_blocks d bs Bs \<and> d_blocks d b = Some (block_bytes cur))"
    unfolding holds_blocks_def by (cases Bs' rule: rev_cases) auto
  finally show ?thesis .
qed

lemma holds_blocks_same: "holds_blocks d bs Bs \<Longrightarrow> (\<And>b. b \<in> set bs \<Longrightarrow> d_blocks d' b = d_blocks d b) \<Longrightarrow> holds_blocks d' bs Bs"
  unfolding holds_blocks_def by (auto intro: list.rel_mono_strong)

lemma wdisk_current:
  assumes "wdisk e d w Bs'"
  obtains bs Bs cur where "w_blocks w = bs @ [w_block w]" "Bs' = Bs @ [cur]" "holds_blocks (w_disk w) bs Bs"
    "d_blocks (w_disk w) (w_block w) = Some (block_bytes cur)" "w_block w \<notin> set bs"
proof -
  have bs: "w_blocks w = butlast (w_blocks w) @ [w_block w]" using assms by (auto simp: wdisk_def)
  then have "holds_blocks (w_disk w) (butlast (w_blocks w) @ [w_block w]) Bs'" "distinct (butlast (w_blocks w) @ [w_block w])"
    using assms by (auto simp: wdisk_def)
  then obtain Bs cur where "Bs' = Bs @ [cur]" "holds_blocks (w_disk w) (butlast (w_blocks w)) Bs"
    "d_blocks (w_disk w) (w_block w) = Some (block_bytes cur)" "w_block w \<notin> set (butlast (w_blocks w))"
    unfolding holds_blocks_snoc by auto
  then show ?thesis using that bs by blast
qed

lemma put_tkv_fields [simp]:
  "w_blocks (put_tkv s w) = w_blocks w" "w_block (put_tkv s w) = w_block w" "w_block_size (put_tkv s w) = w_block_size w"
  "w_disk (put_tkv s w) = write_tkv (w_block w) s (w_disk w)"
  by (simp_all add: put_tkv_def)

lemma wdisk_put:
  assumes "wdisk e d w (Bs @ [cur])"
  shows "wdisk e d (put_tkv s w) (Bs @ [cur @ [s]])"
proof -
  obtain bs where w: "w_blocks w = bs @ [w_block w]" "holds_blocks (w_disk w) bs Bs" "d_blocks (w_disk w) (w_block w) = Some (block_bytes cur)" "w_block w \<notin> set bs"
    using wdisk_current [OF assms] by (metis append1_eq_conv)
  have "holds_blocks (w_disk (put_tkv s w)) bs Bs" by (rule holds_blocks_same [OF w(2)]) (use w(4) in auto)
  then have h: "holds_blocks (w_disk (put_tkv s w)) (w_blocks w) (Bs @ [cur @ [s]])"
    unfolding w(1) using w(3) by (simp add: holds_blocks_snoc)
  have mem: "w_block w \<in> set (w_blocks w)" using w(1) by (metis in_set_conv_decomp)
  have "changes_only e d (w_blocks w) (w_disk w)" "bitmap_ok (w_disk w)" using assms by (auto simp: wdisk_def)
  then have "changes_only e d (w_blocks w) (w_disk (put_tkv s w))" "bitmap_ok (w_disk (put_tkv s w))"
    using mem taken_same [of "write_tkv (w_block w) s (w_disk w)" "w_disk w" e] bits_same [of "write_tkv (w_block w) s (w_disk w)" "w_disk w"] by (auto simp: changes_only_def bitmap_ok_def)
  then show ?thesis using h assms by (simp add: wdisk_def)
qed

lemma winv_snoc: "winv e d w Bs' tkvs p \<Longrightarrow> \<exists>Bs cur. Bs' = Bs @ [cur]"
  using wdisk_current by (metis winv_def)

context fs_libs
begin

lemma winv_put:
  assumes "winv e d w (Bs @ [cur]) tkvs p" "string_ok (tkv_size e) s" "\<not> is_cut s"
  shows "winv e d (put_tkv s w) (Bs @ [cur @ [s]]) (tkvs @ [p @ s]) []"
  using assms wdisk_put [of e d w Bs cur s] lay_ok_write [of "tkv_size e" Bs cur s] gs_snoc [of "[]" "concat (Bs @ [cur])" tkvs p s]
  by (auto simp: winv_def)

lemma wdisk_first:
  assumes "first_block e d = Inr w" "bitmap_ok d" "0 \<notin> set (w_blocks w)"
  shows "wdisk e d w [[]] \<and> w_block_size w = e_block_size e"
proof -
  obtain b d1 where b: "take_block e d = Inr (b, d1)" "w = \<lparr>w_disk = d1, w_blocks = [b], w_block = b, w_block_size = e_block_size e\<rparr>"
    using assms(1) by (auto simp: first_block_def rbind_Inr_iff)
  have nz: "b \<noteq> 0" using assms(3) b(2) by simp
  have "bitmap_ok d1" using take_block_total [OF assms(2)] b(1) by auto
  then show ?thesis using take_block_ok [OF b(1) assms(2) nz] b(2)
    by (auto simp: wdisk_def changes_only_def holds_blocks_def block_bytes_def)
qed

lemma next_block_blocks: "next_block e w = Inr w' \<Longrightarrow> \<exists>b. w_blocks w' = w_blocks w @ [b]"
  by (auto simp: next_block_def rbind_Inr_iff)

lemma wdisk_next:
  assumes "wdisk e d w Bs" "next_block e w = Inr w'" "0 \<notin> set (w_blocks w')"
  shows "wdisk e d w' (Bs @ [[]])"
proof -
  obtain b d1 where b: "take_block e (w_disk w) = Inr (b, d1)" "w' = \<lparr>w_disk = d1, w_blocks = w_blocks w @ [b], w_block = b, w_block_size = e_block_size e\<rparr>"
    using assms(2) by (auto simp: next_block_def rbind_Inr_iff)
  have nz: "b \<noteq> 0" using assms(3) b(2) by simp
  have ok: "bitmap_ok (w_disk w)" and ch: "changes_only e d (w_blocks w) (w_disk w)" and hold: "holds_blocks (w_disk w) (w_blocks w) Bs"
    and dist: "distinct (w_blocks w)" using assms(1) by (auto simp: wdisk_def)
  note t = take_block_ok [OF b(1) ok nz]
  have new: "b \<notin> set (w_blocks w)" using t(1) ch by (auto simp: changes_only_def)
  have "holds_blocks d1 (w_blocks w) Bs" by (rule holds_blocks_same [OF hold]) (use new t(3) in auto)
  then have "holds_blocks d1 (w_blocks w @ [b]) (Bs @ [[]])" using t(3) by (simp add: holds_blocks_snoc block_bytes_def)
  moreover have "changes_only e d (w_blocks w @ [b]) d1" using ch t by (auto simp: changes_only_def)
  moreover have "bitmap_ok d1" using take_block_total [OF ok] b(1) by auto
  ultimately show ?thesis using b(2) new dist by (simp add: wdisk_def)
qed

lemma winv_next:
  assumes "winv e d w (Bs @ [cur]) tkvs p" "cur \<noteq> []" "next_block e w = Inr w'" "0 \<notin> set (w_blocks w')"
  shows "winv e d w' (Bs @ [cur, []]) tkvs p"
proof -
  have lay: "lay_ok (tkv_size e) (Bs @ [cur])" using assms(1) by (simp add: winv_def)
  have "lay_ok (tkv_size e) (Bs @ [cur, []])"
    by (rule lay_ok_next [OF lay]) (use lay_ok_current [OF lay] assms(2) in \<open>auto dest: in_set_butlastD\<close>)
  moreover have "wdisk e d w' ((Bs @ [cur]) @ [[]])" by (rule wdisk_next [OF _ assms(3,4)]) (use assms(1) in \<open>simp add: winv_def\<close>)
  ultimately show ?thesis using assms(1) by (simp add: winv_def)
qed

lemma winv_cut_next:
  assumes "winv e d w (Bs @ [cur]) tkvs p" "string_ok (tkv_size e) (x @ [cut_mark])" "x \<noteq> []"
    "next_block e (put_tkv (x @ [cut_mark]) w) = Inr w'" "0 \<notin> set (w_blocks w')"
  shows "winv e d w' ((Bs @ [cur @ [x @ [cut_mark]]]) @ [[]]) tkvs (p @ x)"
proof -
  have lay: "lay_ok (tkv_size e) (Bs @ [cur])" using assms(1) by (simp add: winv_def)
  have "lay_ok (tkv_size e) (Bs @ [cur @ [x @ [cut_mark]], []])"
    by (rule lay_ok_next [OF lay]) (use lay_ok_current [OF lay] assms(2) in auto)
  moreover have "wdisk e d w' ((Bs @ [cur @ [x @ [cut_mark]]]) @ [[]])"
    by (rule wdisk_next [OF wdisk_put assms(4,5)]) (use assms(1) in \<open>simp add: winv_def\<close>)
  ultimately show ?thesis using assms(1,3) gs_snoc [of "[]" "concat (Bs @ [cur])" tkvs p "x @ [cut_mark]"] by (auto simp: winv_def)
qed

lemma write_cut_blocks: "write_cut e s w = Inr w' \<Longrightarrow> \<exists>more. w_blocks w' = w_blocks w @ more"
  by (induction rule: write_cut_induct) (auto simp: next_block_def rbind_Inr_iff)

lemma winv_cut:
  assumes "winv e d w Bs tkvs p" "2 \<le> e_block_size e" "2 \<le> w_block_size w" "tkv_ok (tkv_size e) s" "write_cut e s w = Inr w'" "0 \<notin> set (w_blocks w')"
  shows "\<exists>Bs' cur. winv e d w' (Bs' @ [cur]) (tkvs @ [p @ s]) [] \<and> cur \<noteq> []"
  using assms
proof (induction "length s" arbitrary: s w Bs p rule: less_induct)
  case less
  obtain Bs0 cur where Bs: "Bs = Bs0 @ [cur]" using winv_snoc [OF less.prems(1)] by blast
  have s: "s \<noteq> []" "no_nul s" "length s < tkv_size e" "cut_mark \<notin> set s" using less.prems(4) by (auto simp: tkv_ok_def string_ok_def)
  show ?case
  proof (cases "w_block_size w - int (length s) \<ge> 0")
    case True
    then have w': "w' = put_tkv s (w\<lparr>w_block_size := w_block_size w - int (length s)\<rparr>)" using less.prems(5) by (simp add: write_cut_fits)
    have "\<not> is_cut s" using tkv_ok_uncut [OF less.prems(4)] .
    moreover have "winv e d (w\<lparr>w_block_size := w_block_size w - int (length s)\<rparr>) (Bs0 @ [cur]) tkvs p"
      using less.prems(1) Bs by (simp add: winv_def wdisk_def)
    ultimately have "winv e d w' (Bs0 @ [cur @ [s]]) (tkvs @ [p @ s]) []" using winv_put less.prems(4) w' by (simp add: tkv_ok_def)
    then show ?thesis by blast
  next
    case False
    let ?c = "nat (w_block_size w - 1)"
    let ?x = "take ?c s"
    have c: "0 < ?c" "?c < length s" using False less.prems(3) by linarith+
    have "write_cut e s w = rbind (next_block e (put_tkv (?x @ [cut_mark]) w)) (write_cut e (drop ?c s))"
      using False less.prems(3) by (simp add: write_cut_cuts append substring_until cut_mark_def)
    then have "rbind (next_block e (put_tkv (?x @ [cut_mark]) w)) (write_cut e (drop ?c s)) = Inr w'" using less.prems(5) by simp
    then obtain w1 where w1: "next_block e (put_tkv (?x @ [cut_mark]) w) = Inr w1" "write_cut e (drop ?c s) w1 = Inr w'"
      unfolding rbind_Inr_iff by blast
    have nz: "0 \<notin> set (w_blocks w1)" using write_cut_blocks [OF w1(2)] less.prems(6) by auto
    have x: "string_ok (tkv_size e) (?x @ [cut_mark])" "?x \<noteq> []"
      using s c by (auto simp: string_ok_def no_nul_take cut_mark_def NUL_def)
    have w: "winv e d w1 ((Bs0 @ [cur @ [?x @ [cut_mark]]]) @ [[]]) tkvs (p @ ?x)"
      using winv_cut_next [OF _ x w1(1) nz] less.prems(1) Bs by blast
    have size1: "2 \<le> w_block_size w1" using next_block_size [OF w1(1)] less.prems(2) by simp
    have rest: "tkv_ok (tkv_size e) (drop ?c s)" using s c by (auto simp: tkv_ok_def string_ok_def no_nul_drop dest: in_set_dropD)
    have "length (drop ?c s) < length s" using c by simp
    from less.hyps [OF this w less.prems(2) size1 rest w1(2) less.prems(6)]
    show ?thesis by simp
  qed
qed

lemma write_tkvs_blocks: "write_tkvs e tkvs w = Inr w' \<Longrightarrow> \<exists>more. w_blocks w' = w_blocks w @ more"
proof (induction tkvs arbitrary: w)
  case (Cons s tkvs)
  then obtain w1 w2 where w: "(if w_block_size w - int (length s) > 0 then Inr (put_tkv s (w\<lparr>w_block_size := w_block_size w - int (length s)\<rparr>))
      else write_cut e s w) = Inr w1" "(if w_block_size w1 \<le> 1 then next_block e w1 else Inr w1) = Inr w2" "write_tkvs e tkvs w2 = Inr w'"
    by (auto simp: rbind_Inr_iff simp del: if_split)
  have "\<exists>more. w_blocks w1 = w_blocks w @ more" using w(1) write_cut_blocks by (auto split: if_splits)
  moreover have "\<exists>more. w_blocks w2 = w_blocks w1 @ more" using w(2) next_block_blocks by (fastforce split: if_splits)
  ultimately show ?case using Cons.IH [OF w(3)] by auto
qed simp

lemma winv_tkvs:
  assumes "winv e d w Bs tkvs0 []" "2 \<le> e_block_size e" "2 \<le> w_block_size w" "\<forall>s \<in> set tkvs. tkv_ok (tkv_size e) s"
    "write_tkvs e tkvs w = Inr w'" "0 \<notin> set (w_blocks w')"
  shows "\<exists>Bs'. winv e d w' Bs' (tkvs0 @ tkvs) []"
  using assms
proof (induction tkvs arbitrary: w Bs tkvs0)
  case Nil
  then show ?case by auto
next
  case (Cons s tkvs)
  obtain w1 w2 where w: "(if w_block_size w - int (length s) > 0 then Inr (put_tkv s (w\<lparr>w_block_size := w_block_size w - int (length s)\<rparr>))
      else write_cut e s w) = Inr w1" "(if w_block_size w1 \<le> 1 then next_block e w1 else Inr w1) = Inr w2" "write_tkvs e tkvs w2 = Inr w'"
    using Cons.prems(5) by (auto simp: rbind_Inr_iff simp del: if_split)
  have nz2: "0 \<notin> set (w_blocks w2)" using write_tkvs_blocks [OF w(3)] Cons.prems(6) by auto
  have nz1: "0 \<notin> set (w_blocks w1)" using w(2) nz2 next_block_blocks by (fastforce split: if_splits)
  have ok: "tkv_ok (tkv_size e) s" using Cons.prems(4) by simp
  obtain Bs1 cur where w1: "winv e d w1 (Bs1 @ [cur]) (tkvs0 @ [s]) []" "cur \<noteq> []"
  proof (cases "w_block_size w - int (length s) > 0")
    case True
    obtain Bs0 cur0 where Bs: "Bs = Bs0 @ [cur0]" using winv_snoc [OF Cons.prems(1)] by blast
    have "winv e d (w\<lparr>w_block_size := w_block_size w - int (length s)\<rparr>) (Bs0 @ [cur0]) tkvs0 []"
      using Cons.prems(1) Bs by (simp add: winv_def wdisk_def)
    moreover have "\<not> is_cut s" using tkv_ok_uncut [OF ok] .
    ultimately have "winv e d w1 (Bs0 @ [cur0 @ [s]]) (tkvs0 @ [[] @ s]) []"
      using winv_put [of d "w\<lparr>w_block_size := w_block_size w - int (length s)\<rparr>" Bs0 cur0 tkvs0 "[]" s] ok w(1) True by (simp add: tkv_ok_def)
    then show ?thesis using that by simp
  next
    case False
    then have "write_cut e s w = Inr w1" using w(1) by simp
    from winv_cut [OF Cons.prems(1,2,3) ok this nz1] show ?thesis using that by auto
  qed
  have "\<exists>Bs2. winv e d w2 Bs2 (tkvs0 @ [s]) [] \<and> 2 \<le> w_block_size w2"
  proof (cases "w_block_size w1 \<le> 1")
    case True
    then have "next_block e w1 = Inr w2" using w(2) by simp
    from winv_next [OF w1 this nz2] next_block_size [OF this] show ?thesis using Cons.prems(2) by auto
  next
    case False
    then show ?thesis using w(2) w1(1) by auto
  qed
  then obtain Bs2 where "winv e d w2 Bs2 (tkvs0 @ [s]) []" "2 \<le> w_block_size w2" by blast
  from Cons.IH [OF this(1) Cons.prems(2) this(2) _ w(3) Cons.prems(6)] show ?case using Cons.prems(4) by simp
qed

text \<open>Writing ends, whatever the records are, when a block has at least two characters.\<close>

lemma next_block_total: "bitmap_ok (w_disk w) \<Longrightarrow> \<exists>w'. next_block e w = Inr w' \<and> bitmap_ok (w_disk w') \<and> w_block_size w' = e_block_size e"
  using take_block_total [of "w_disk w"] by (auto simp: next_block_def)

lemma write_cut_total:
  "bitmap_ok (w_disk w) \<Longrightarrow> 2 \<le> e_block_size e \<Longrightarrow> 2 \<le> w_block_size w \<Longrightarrow> \<exists>w'. write_cut e s w = Inr w' \<and> bitmap_ok (w_disk w')"
proof (induction "length s" arbitrary: s w rule: less_induct)
  case less
  show ?case
  proof (cases "w_block_size w - int (length s) \<ge> 0")
    case True
    then show ?thesis using less.prems(1) by (simp add: write_cut_fits bitmap_ok_def)
  next
    case False
    let ?c = "nat (w_block_size w - 1)"
    let ?w = "put_tkv (string_append (e_cm e) (string_substring_until (e_cm e) s ?c) [CHR 0x0A]) w"
    have "bitmap_ok (w_disk ?w)" using less.prems(1) by (simp add: bitmap_ok_def)
    then obtain w1 where w1: "next_block e ?w = Inr w1" "bitmap_ok (w_disk w1)" "w_block_size w1 = e_block_size e" using next_block_total by blast
    have "length (drop ?c s) < length s" using False less.prems(3) by simp
    then obtain w' where "write_cut e (drop ?c s) w1 = Inr w'" "bitmap_ok (w_disk w')" using less.hyps [of "drop ?c s" w1] w1 less.prems(2) by auto
    then show ?thesis using False less.prems(3) w1(1) by (simp add: write_cut_cuts)
  qed
qed

text \<open>
  In blocks of one character a longer record is never written: every round writes a newline, takes another block and
  has the whole record left. A loop that returned would have had such a round as its last one.
\<close>

lemma write_cut_endless:
  assumes "e_block_size e = 1" "w_block_size w = 1" "1 < length s" "bitmap_ok (w_disk w)"
  shows "write_cut e s w = Inl Never_Returns"
proof -
  have "False" if "write_cut_loop e s w = Some r" for r
  proof -
    have "\<not> (e = e \<and> w_block_size w = 1 \<and> 1 < length s \<and> bitmap_ok (w_disk w))"
    proof (rule write_cut_loop.raw_induct [where P = "\<lambda>e' s w r. \<not> (e' = e \<and> w_block_size w = 1 \<and> 1 < length s \<and> bitmap_ok (w_disk w))", OF _ that], rule notI)
      fix f e' s w r
      assume hyp: "\<And>e' s w y. f e' s w = Some y \<Longrightarrow> \<not> (e' = e \<and> w_block_size w = 1 \<and> 1 < length s \<and> bitmap_ok (w_disk w))"
        and round: "(if w_block_size w - int (length s) \<ge> 0 then Some (Inr (put_tkv s (w\<lparr>w_block_size := w_block_size w - int (length s)\<rparr>)))
          else if w_block_size w - 1 < 0 then Some (Inl Out_Of_Bounds)
          else let cut = nat (w_block_size w - 1)
            in case next_block e' (put_tkv (string_append (e_cm e') (string_substring_until (e_cm e') s cut) [CHR 0x0A]) w) of
                 Inl err \<Rightarrow> Some (Inl err) | Inr w1 \<Rightarrow> f e' (drop cut s) w1) = Some r"
        and one: "e' = e \<and> w_block_size w = 1 \<and> 1 < length s \<and> bitmap_ok (w_disk w)"
      let ?w = "put_tkv (string_append (e_cm e) (string_substring_until (e_cm e) s 0) [CHR 0x0A]) w"
      have "bitmap_ok (w_disk ?w)" using one by (simp add: bitmap_ok_def)
      then obtain w1 where w1: "next_block e ?w = Inr w1" "bitmap_ok (w_disk w1)" "w_block_size w1 = 1" using next_block_total assms(1) by fastforce
      then have "f e s w1 = Some r" using round one by simp
      then show False using hyp w1 one by simp
    qed
    then show False using assms by simp
  qed
  then show ?thesis by (auto simp: write_cut_def split: option.split)
qed

lemma write_tkvs_total:
  "bitmap_ok (w_disk w) \<Longrightarrow> 2 \<le> e_block_size e \<Longrightarrow> 2 \<le> w_block_size w \<Longrightarrow> \<exists>w'. write_tkvs e tkvs w = Inr w' \<and> bitmap_ok (w_disk w')"
proof (induction tkvs arbitrary: w)
  case (Cons s tkvs)
  obtain w1 where w1: "(if w_block_size w - int (length s) > 0 then Inr (put_tkv s (w\<lparr>w_block_size := w_block_size w - int (length s)\<rparr>))
      else write_cut e s w) = Inr w1" "bitmap_ok (w_disk w1)"
    using write_cut_total [OF Cons.prems, of s] Cons.prems(1) by (cases "w_block_size w - int (length s) > 0") (auto simp: bitmap_ok_def)
  obtain w2 where w2: "(if w_block_size w1 \<le> 1 then next_block e w1 else Inr w1) = Inr w2" "bitmap_ok (w_disk w2)" "2 \<le> w_block_size w2"
    using next_block_total [OF w1(2)] w1(2) Cons.prems(2) by (cases "w_block_size w1 \<le> 1") auto
  obtain w' where "write_tkvs e tkvs w2 = Inr w'" "bitmap_ok (w_disk w')" using Cons.IH [OF w2(2) Cons.prems(2) w2(3)] by blast
  then show ?case using w1(1) w2(1) by (simp del: if_split)
qed simp

lemma size_of_all_tkvs_total: "2 \<le> e_block_size e \<Longrightarrow> \<exists>n. size_of_all_tkvs e tkvs = Inr n"
  by (induction tkvs) (auto simp: tkv_extra_def Let_def)

end

end
