(* ===== verification/FS_Ops.thy ===== *)
theory FS_Ops
  imports FS_Blocks
begin

text \<open>
  The state and the operations of the file system process: \<open>core/operations.c\<close>, the memory table of
  \<open>fs_lists.c\<close> and \<open>table_utils.c\<close>, the table states and the search of \<open>filesystem.c\<close>, dump and compaction of
  \<open>compactor.c\<close>. The semaphores of the bitmap and of the dump are taken and given back within one function, so
  in steps that are functions they have no part; those of a table are its state. Log messages are left out, and
  with them the name of the archive a record was found in.
\<close>

record table_t =
  tb_name :: string
  tb_tkvs :: "string list"

record table_state_t =
  ts_name :: string
  ts_is_blocked_mutex :: int
  ts_live_status_mutex :: int
  ts_select_mutex :: int
  ts_compaction_thread :: nat

record fs_state =
  f_disk :: disk
  f_mem_table :: "table_t list"
  f_table_state_list :: "table_state_t list"
  f_thread_semaphore :: int
  f_next_thread :: nat

section \<open>Table states\<close>

definition find_in_table_state_list :: "fs_env \<Rightarrow> string \<Rightarrow> fs_state \<Rightarrow> table_state_t option" where
  "find_in_table_state_list e table st = find (\<lambda>s. string_equals_ignore_case (e_cm e) (ts_name s) table) (f_table_state_list st)"

definition find_in_table_state_list_with_thread :: "nat \<Rightarrow> fs_state \<Rightarrow> table_state_t option" where
  "find_in_table_state_list_with_thread thread st = find (\<lambda>s. ts_compaction_thread s = thread) (f_table_state_list st)"

definition change_state :: "fs_env \<Rightarrow> string \<Rightarrow> (table_state_t \<Rightarrow> table_state_t) \<Rightarrow> fs_state \<Rightarrow> fs_state" where
  "change_state e table f st =
     st\<lparr>f_table_state_list := update_first (\<lambda>s. string_equals_ignore_case (e_cm e) (ts_name s) table) f (f_table_state_list st)\<rparr>"

definition select_wait :: "fs_env \<Rightarrow> string \<Rightarrow> fs_state \<Rightarrow> fs_state result" where
  "select_wait e table st =
     (case find_in_table_state_list e table st of
        None \<Rightarrow> Inr st
      | Some s \<Rightarrow> if ts_select_mutex s \<le> 0 then Inl Blocked
                  else Inr (change_state e table (\<lambda>s. s\<lparr>ts_select_mutex := ts_select_mutex s - 1\<rparr>) st))"

definition select_post :: "fs_env \<Rightarrow> string \<Rightarrow> fs_state \<Rightarrow> fs_state" where
  "select_post e table st = change_state e table (\<lambda>s. s\<lparr>ts_select_mutex := ts_select_mutex s + 1\<rparr>) st"

definition is_blocked_wait :: "fs_env \<Rightarrow> string \<Rightarrow> fs_state \<Rightarrow> fs_state result" where
  "is_blocked_wait e table st =
     (case find_in_table_state_list e table st of
        None \<Rightarrow> Inr st
      | Some s \<Rightarrow> if ts_is_blocked_mutex s \<le> 0 then Inl Blocked
                  else Inr (change_state e table (\<lambda>s. s\<lparr>ts_is_blocked_mutex := ts_is_blocked_mutex s - 1\<rparr>) st))"

definition is_blocked_post :: "fs_env \<Rightarrow> string \<Rightarrow> fs_state \<Rightarrow> fs_state" where
  "is_blocked_post e table st = change_state e table (\<lambda>s. s\<lparr>ts_is_blocked_mutex := ts_is_blocked_mutex s + 1\<rparr>) st"

definition pass_block :: "fs_env \<Rightarrow> string \<Rightarrow> fs_state \<Rightarrow> fs_state result" where
  \<comment> \<open>\<open>is_blocked_wait(table); is_blocked_post(table);\<close>\<close>
  "pass_block e table st = rbind (is_blocked_wait e table st) (\<lambda>st1. Inr (is_blocked_post e table st1))"

definition dropped_name :: string where
  "dropped_name = ''Pipo pipo pipo pi piiiii pipo pipo piiiiii pipo pipi contigo pipo! APROBAME EL TP DE OPERATIVOS POR  FAVOR TENGO ESPOSA E HIJOS AAAAAAAAAAAH''"

definition live_status_wait :: "fs_env \<Rightarrow> string \<Rightarrow> fs_state \<Rightarrow> fs_state result" where
  \<comment> \<open>the state loses its name, so that it is found by its thread only\<close>
  "live_status_wait e table st =
     (case find_in_table_state_list e table st of
        None \<Rightarrow> Inr st
      | Some s \<Rightarrow> if ts_live_status_mutex s \<le> 0 then Inl Blocked
                  else Inr (change_state e table (\<lambda>s. s\<lparr>ts_name := dropped_name, ts_live_status_mutex := ts_live_status_mutex s - 1\<rparr>) st))"

definition live_status_post :: "fs_env \<Rightarrow> string \<Rightarrow> fs_state \<Rightarrow> fs_state" where
  "live_status_post e table st = change_state e table (\<lambda>s. s\<lparr>ts_live_status_mutex := ts_live_status_mutex s + 1\<rparr>) st"

definition get_live_status :: "nat \<Rightarrow> fs_state \<Rightarrow> int" where
  "get_live_status thread st =
     (case find_in_table_state_list_with_thread thread st of None \<Rightarrow> -1337 | Some s \<Rightarrow> ts_live_status_mutex s)"

definition destroy_in_table_state_list :: "nat \<Rightarrow> fs_state \<Rightarrow> fs_state" where
  "destroy_in_table_state_list thread st =
     st\<lparr>f_table_state_list := remove_first (\<lambda>s. ts_compaction_thread s = thread) (f_table_state_list st)\<rparr>"

definition add_table_to_table_state_list :: "string \<Rightarrow> fs_state \<Rightarrow> fs_state" where
  \<comment> \<open>with the compaction thread, which gets a new identifier\<close>
  "add_table_to_table_state_list table st =
     st\<lparr>f_table_state_list := f_table_state_list st @
          [\<lparr>ts_name = to_uppercase table, ts_is_blocked_mutex = 1, ts_live_status_mutex = 1, ts_select_mutex = 1,
            ts_compaction_thread = f_next_thread st\<rparr>],
        f_next_thread := Suc (f_next_thread st), f_thread_semaphore := f_thread_semaphore st + 1\<rparr>"

definition create_table_state_list :: "disk \<Rightarrow> table_state_t list" where
  \<comment> \<open>at the start, with the threads \<open>iniitalize_compaction_in_all_tables\<close> then creates\<close>
  "create_table_state_list d =
     map (\<lambda>(i, n). \<lparr>ts_name = n, ts_is_blocked_mutex = 1, ts_live_status_mutex = 1, ts_select_mutex = 1, ts_compaction_thread = i\<rparr>)
       (enumerate 0 (get_tables_list d))"

definition fs_start :: "disk \<Rightarrow> fs_state" where
  "fs_start d = (let states = create_table_state_list d
     in \<lparr>f_disk = d, f_mem_table = [], f_table_state_list = states, f_thread_semaphore = int (length states), f_next_thread = length states\<rparr>)"

section \<open>The memory table\<close>

definition table_not_exist_in_list :: "table_t list \<Rightarrow> string \<Rightarrow> bool" where
  "table_not_exist_in_list l table \<longleftrightarrow> \<not> list_ex (\<lambda>t. tb_name t = table) l"

definition create_table :: "string \<Rightarrow> table_t" where
  "create_table name = \<lparr>tb_name = name, tb_tkvs = []\<rparr>"

definition insert_tkv :: "string \<Rightarrow> string \<Rightarrow> table_t list \<Rightarrow> table_t list" where
  \<comment> \<open>the table is created when it is missing, and the record added to the one \<open>find_table_in_list\<close> finds\<close>
  "insert_tkv table tkv l =
     (let l1 = (if table_not_exist_in_list l table then l @ [create_table table] else l)
      in update_first (\<lambda>t. tb_name t = table) (\<lambda>t. t\<lparr>tb_tkvs := tb_tkvs t @ [tkv]\<rparr>) l1)"

definition search_table_in_memtable :: "fs_env \<Rightarrow> string \<Rightarrow> table_t list \<Rightarrow> table_t option" where
  "search_table_in_memtable e table l = find (\<lambda>t. string_equals_ignore_case (e_cm e) (tb_name t) table) l"

fun memtable_loop :: "commons \<Rightarrow> int \<Rightarrow> string list \<Rightarrow> fs_record \<Rightarrow> fs_record result" where
  "memtable_loop cm key [] found = Inr found"
| "memtable_loop cm key (tkv # tkvs) found =
     rbind (convert_record cm tkv) (\<lambda>r.
     memtable_loop cm key tkvs (if fr_key r = key \<and> fr_timestamp r > fr_timestamp found then r else found))"

definition search_key_in_memtable :: "fs_env \<Rightarrow> int \<Rightarrow> string \<Rightarrow> fs_state \<Rightarrow> fs_record result" where
  "search_key_in_memtable e key table st =
     (case search_table_in_memtable e table (f_mem_table st) of
        None \<Rightarrow> Inr not_found
      | Some t \<Rightarrow> memtable_loop (e_cm e) key (tb_tkvs t) not_found)"

section \<open>Searching a key\<close>

definition search_in_tmpc :: "fs_env \<Rightarrow> string \<Rightarrow> int \<Rightarrow> disk \<Rightarrow> fs_record result" where
  "search_in_tmpc e table key d =
     (if exist_in_directory get_tmpc_name (table_entries d table) then search_key_in_fs_archive e d table get_tmpc_name key
      else Inr not_found)"

fun tmps_loop :: "fs_env \<Rightarrow> string \<Rightarrow> int \<Rightarrow> disk \<Rightarrow> nat list \<Rightarrow> fs_record \<Rightarrow> fs_record result" where
  "tmps_loop e table key d [] found = Inr found"
| "tmps_loop e table key d (n # ns) found =
     rbind (search_key_in_fs_archive e d table (get_tmp_name n) key) (\<lambda>r.
     tmps_loop e table key d ns (if fr_timestamp r > fr_timestamp found then copy_key r else found))"

definition search_in_all_tmps :: "fs_env \<Rightarrow> string \<Rightarrow> int \<Rightarrow> disk \<Rightarrow> fs_record result" where
  "search_in_all_tmps e table key d = tmps_loop e table key d (tmp_numbers d table) not_found"

definition search_in_partition :: "fs_env \<Rightarrow> string \<Rightarrow> int \<Rightarrow> disk \<Rightarrow> fs_record result" where
  "search_in_partition e table key d =
     rbind (read_table_metadata d table) (\<lambda>(_, _, partitions).
     if partitions = 0 then Inl Div_By_Zero
     else search_key_in_fs_archive e d table (create_partition_name (trunc_mod key partitions + 1)) key)"

definition newest_of :: "fs_record \<Rightarrow> fs_record \<Rightarrow> fs_record \<Rightarrow> fs_record \<Rightarrow> fs_record" where
  \<comment> \<open>the comparisons at the end of \<open>search_key\<close>, with \<open>copy_key2\<close>\<close>
  "newest_of in_tmpc in_tmp in_partition in_memtable =
     copy_key (key_with_greater_timestamp
       (key_with_greater_timestamp (key_with_greater_timestamp in_tmp in_tmpc) in_memtable) in_partition)"

text \<open>
  \<open>search_key\<close> in two parts: the archives, and then the memory table, for which it waits for the semaphore of the dump.
\<close>

definition search_archives :: "fs_env \<Rightarrow> string \<Rightarrow> int \<Rightarrow> fs_state \<Rightarrow> (fs_record \<times> fs_record \<times> fs_record \<times> fs_state) result" where
  "search_archives e table key st =
     rbind (select_wait e table st) (\<lambda>st1.
     rbind (pass_block e table st1) (\<lambda>st2. rbind (search_in_tmpc e table key (f_disk st2)) (\<lambda>in_tmpc.
     rbind (pass_block e table st2) (\<lambda>st3. rbind (search_in_all_tmps e table key (f_disk st3)) (\<lambda>in_tmp.
     rbind (pass_block e table st3) (\<lambda>st4. rbind (search_in_partition e table key (f_disk st4)) (\<lambda>in_partition.
     rbind (pass_block e table st4) (\<lambda>st5. Inr (in_tmpc, in_tmp, in_partition, st5)))))))))"

definition search_finish :: "fs_env \<Rightarrow> string \<Rightarrow> int \<Rightarrow> fs_record \<times> fs_record \<times> fs_record \<times> fs_state \<Rightarrow> (fs_record \<times> fs_state) result" where
  "search_finish e table key found =
     (case found of (in_tmpc, in_tmp, in_partition, st) \<Rightarrow>
        rbind (search_key_in_memtable e key table st) (\<lambda>in_memtable.
        Inr (newest_of in_tmpc in_tmp in_partition in_memtable, select_post e table st)))"

definition search_key :: "fs_env \<Rightarrow> string \<Rightarrow> int \<Rightarrow> fs_state \<Rightarrow> (fs_record \<times> fs_state) result" where
  "search_key e table key st = rbind (search_archives e table key st) (search_finish e table key)"

lemmas search_key_defs = search_key_def search_archives_def search_finish_def

section \<open>Operations\<close>

text \<open>An operation returns what it answers; without a response, from the console, the answer is released.\<close>

definition process_select :: "fs_env \<Rightarrow> select_input_t \<Rightarrow> fs_state \<Rightarrow> (record_t \<times> fs_state) result" where
  "process_select e input st =
     (let table = to_uppercase (sel_table_name input)
      in rbind (pass_block e table st) (\<lambda>st1.
         if exist_in_directory (sel_table_name input) (Some (table_names (f_disk st1))) then
           rbind (search_key e table (uint (sel_key input)) st1) (\<lambda>(r, st2).
           Inr (if fr_timestamp r = -1 then \<lparr>rec_table_name = table, rec_timestamp = -1, rec_key = -1, rec_value = ''-1''\<rparr>
                else \<lparr>rec_table_name = table, rec_timestamp = fr_timestamp r, rec_key = fr_key r, rec_value = fr_value r\<rparr>, st2))
         else Inr (\<lparr>rec_table_name = table, rec_timestamp = -2, rec_key = -2, rec_value = ''-2''\<rparr>, st1)))"

definition value_exceeds_maximun_size :: "fs_env \<Rightarrow> string \<Rightarrow> bool" where
  \<comment> \<open>the comparison is unsigned\<close>
  "value_exceeds_maximun_size e v \<longleftrightarrow> 0 \<le> e_max_value_size e \<and> int (length v) > e_max_value_size e"

definition process_insert :: "fs_env \<Rightarrow> insert_input_t \<Rightarrow> fs_state \<Rightarrow> (int \<times> fs_state) result" where
  "process_insert e input st =
     (let table = to_uppercase (ins_table_name input)
      in rbind (pass_block e table st) (\<lambda>st1.
         if exist_in_directory (ins_table_name input) (Some (table_names (f_disk st1))) then
           if value_exceeds_maximun_size e (ins_value input) then Inr (-1, st1)
           else let input1 = (if ins_timestamp input = -1 then input\<lparr>ins_timestamp := e_now e\<rparr> else input)
             in Inr (0, st1\<lparr>f_mem_table := insert_tkv table (create_tkv input1) (f_mem_table st1)\<rparr>)
         else Inr (-2, st1)))"

fun multiinsert_loop :: "fs_env \<Rightarrow> insert_input_t list \<Rightarrow> int \<Rightarrow> fs_state \<Rightarrow> (int \<times> fs_state) result" where
  "multiinsert_loop e [] multiinsert_result st = Inr (multiinsert_result, st)"
| "multiinsert_loop e (input # inputs) multiinsert_result st =
     rbind (process_insert e input st) (\<lambda>(status, st1).
     multiinsert_loop e inputs (if status < 0 then -1 else multiinsert_result) st1)"

definition process_multiinsert :: "fs_env \<Rightarrow> insert_input_t list \<Rightarrow> fs_state \<Rightarrow> (int \<times> fs_state) result" where
  "process_multiinsert e inputs st = multiinsert_loop e inputs 0 st"

definition process_create :: "fs_env \<Rightarrow> create_input_t \<Rightarrow> fs_state \<Rightarrow> (int \<times> fs_state) result" where
  \<comment> \<open>the array \<open>blocks\<close> has as many elements as the table partitions\<close>
  "process_create e input st =
     (let table = to_uppercase (cre_table_name input)
      in rbind (read_bitmap (f_disk st)) (\<lambda>bm.
         if cre_partitions input < 0 then Inl Out_Of_Bounds
         else case assign_free_blocks e bm (cre_partitions input) of (blocks, bm1) \<Rightarrow>
           if int (length blocks) \<noteq> cre_partitions input then Inr (-2, st)
           else case create_table_folder table (f_disk st) of (dir, d1) \<Rightarrow>
             if dir \<noteq> 0 then Inr (-1, st)
             else rbind (create_table_metadata (cre_consistency input) (cre_partitions input) (cre_compaction_time input) table d1) (\<lambda>d2.
               rbind (create_partitions table blocks d2) (\<lambda>d3.
               Inr (0, add_table_to_table_state_list table (st\<lparr>f_disk := write_bitmap bm1 d3\<rparr>))))))"

definition describe_table :: "disk \<Rightarrow> string \<Rightarrow> table_metadata_t result" where
  "describe_table d table =
     rbind (read_table_metadata d table) (\<lambda>(compaction_time, consistency, partitions).
     Inr \<lparr>md_table_name = table, md_consistency = consistency, md_partitions = partitions, md_compaction_time = compaction_time\<rparr>)"

fun describe_tables :: "disk \<Rightarrow> string list \<Rightarrow> table_metadata_t list result" where
  "describe_tables d [] = Inr []"
| "describe_tables d (t # ts) = rbind (describe_table d t) (\<lambda>m. rbind (describe_tables d ts) (\<lambda>ms. Inr (m # ms)))"

definition process_describe :: "describe_input_t \<Rightarrow> fs_state \<Rightarrow> table_metadata_t list result" where
  "process_describe input st =
     (case des_table_name input of
        None \<Rightarrow> describe_tables (f_disk st) (get_tables_list (f_disk st))
      | Some name \<Rightarrow>
          if exist_in_directory name (Some (table_names (f_disk st)))
          then rbind (describe_table (f_disk st) (to_uppercase name)) (\<lambda>m. Inr [m])
          else Inr [])"

definition process_drop :: "fs_env \<Rightarrow> drop_input_t \<Rightarrow> fs_state \<Rightarrow> (int \<times> fs_state) result" where
  "process_drop e input st =
     (let table = to_uppercase (drp_table_name input)
      in rbind (pass_block e table st) (\<lambda>st1.
         if exist_in_directory (drp_table_name input) (Some (table_names (f_disk st1))) then
           rbind (read_bitmap (f_disk st1)) (\<lambda>bm.
           rbind (free_partitions e table bm (f_disk st1)) (\<lambda>(bm1, d1).
           rbind (free_blocks_of_all_tmps e table bm1 d1) (\<lambda>(bm2, d2).
           rbind (live_status_wait e table (st1\<lparr>f_disk := write_bitmap bm2 (remove_directory table d2)\<rparr>)) (\<lambda>st2.
           Inr (0, st2)))))
         else Inr (-1, st1)))"

definition process_value :: "fs_env \<Rightarrow> int" where
  "process_value e = e_max_value_size e"

section \<open>Dump\<close>

definition dump_table :: "fs_env \<Rightarrow> table_t \<Rightarrow> disk \<Rightarrow> disk result" where
  "dump_table e table d =
     rbind (first_block e d) (\<lambda>w.
     rbind (write_tkvs e (tb_tkvs table) w) (\<lambda>w1.
     rbind (size_of_all_tkvs e (tb_tkvs table)) (\<lambda>sz.
     create_fs_archive (tb_name table) (w_blocks w1) sz Tmp (w_disk w1))))"

fun dump_tables :: "fs_env \<Rightarrow> table_t list \<Rightarrow> disk \<Rightarrow> disk result" where
  "dump_tables e [] d = Inr d"
| "dump_tables e (t # ts) d = rbind (dump_table e t d) (dump_tables e ts)"

definition dump_write :: "fs_env \<Rightarrow> fs_state \<Rightarrow> fs_state result" where
  "dump_write e st = rbind (dump_tables e (f_mem_table st) (f_disk st)) (\<lambda>d. Inr (st\<lparr>f_disk := d\<rparr>))"

definition free_memtable :: "fs_state \<Rightarrow> fs_state" where
  "free_memtable st = st\<lparr>f_mem_table := []\<rparr>"

definition dump :: "fs_env \<Rightarrow> fs_state \<Rightarrow> fs_state result" where
  "dump e st = rbind (dump_write e st) (\<lambda>st1. Inr (free_memtable st1))"

lemmas dump_defs = dump_def dump_write_def free_memtable_def

section \<open>Compaction\<close>

fun concat_tmps :: "disk \<Rightarrow> string \<Rightarrow> nat list \<Rightarrow> partition_t result" where
  "concat_tmps d table [] = Inr \<lparr>par_number_of_blocks = 0, par_size = 0, par_blocks = []\<rparr>"
| "concat_tmps d table (n # ns) =
     rbind (read_fs_archive d table (get_tmp_name n)) (\<lambda>p. rbind (concat_tmps d table ns) (\<lambda>q.
     Inr \<lparr>par_number_of_blocks = par_number_of_blocks p + par_number_of_blocks q, par_size = par_size p + par_size q,
          par_blocks = par_blocks p @ par_blocks q\<rparr>))"

definition get_all_blocks_from_all_tmps :: "disk \<Rightarrow> string \<Rightarrow> partition_t result" where
  "get_all_blocks_from_all_tmps d table = concat_tmps d table (tmp_numbers d table)"

record tkvs_per_partition_t =
  tpp_partition :: int
  tpp_tkvs :: "fs_record list"

fun partition_tkvs_from :: "fs_env \<Rightarrow> disk \<Rightarrow> string \<Rightarrow> nat list \<Rightarrow> tkvs_per_partition_t list result" where
  "partition_tkvs_from e d table [] = Inr []"
| "partition_tkvs_from e d table (i # is) =
     rbind (read_fs_archive d table (create_partition_name (int i + 1))) (\<lambda>p.
     rbind (create_tkv_list e d p) (\<lambda>tkvs.
     rbind (partition_tkvs_from e d table is) (\<lambda>l. Inr (\<lparr>tpp_partition = int i + 1, tpp_tkvs = tkvs\<rparr> # l))))"

definition create_partition_tkv_list :: "fs_env \<Rightarrow> disk \<Rightarrow> string \<Rightarrow> int \<Rightarrow> tkvs_per_partition_t list result" where
  "create_partition_tkv_list e d table partitions = partition_tkvs_from e d table [0..<nat partitions]"

fun add_record_to_partition_list :: "fs_record \<Rightarrow> fs_record list \<Rightarrow> fs_record list" where
  \<comment> \<open>the first record of that key decides; a newer one is removed from its place and added at the end\<close>
  "add_record_to_partition_list r [] = [copy_key r]"
| "add_record_to_partition_list r (x # xs) =
     (if fr_key r = fr_key x then (if fr_timestamp r > fr_timestamp x then xs @ [copy_key r] else x # xs)
      else x # add_record_to_partition_list r xs)"

fun get_tkvs_to_insert :: "fs_record list \<Rightarrow> tkvs_per_partition_t list \<Rightarrow> tkvs_per_partition_t list result" where
  "get_tkvs_to_insert [] l = Inr l"
| "get_tkvs_to_insert (r # rs) l =
     (if l = [] then Inl Div_By_Zero
      else let i = nat (trunc_mod (fr_key r) (int (length l)))
        in get_tkvs_to_insert rs (l[i := (l ! i)\<lparr>tpp_tkvs := add_record_to_partition_list r (tpp_tkvs (l ! i))\<rparr>]))"

definition create_partition :: "fs_env \<Rightarrow> string \<Rightarrow> tkvs_per_partition_t \<Rightarrow> disk \<Rightarrow> disk result" where
  "create_partition e table p d =
     (let tkvs = map convert_to_tkv (tpp_tkvs p)
      in rbind (first_block e d) (\<lambda>w.
         rbind (write_tkvs e tkvs w) (\<lambda>w1.
         rbind (size_of_all_tkvs e tkvs) (\<lambda>sz.
         create_fs_archive table (w_blocks w1) sz (Partition (tpp_partition p)) (w_disk w1)))))"

fun create_new_partitions :: "fs_env \<Rightarrow> string \<Rightarrow> tkvs_per_partition_t list \<Rightarrow> disk \<Rightarrow> disk result" where
  "create_new_partitions e table [] d = Inr d"
| "create_new_partitions e table (p # ps) d = rbind (create_partition e table p d) (create_new_partitions e table ps)"

text \<open>
  \<open>compaction\<close> and \<open>start_compaction\<close> in two steps: what they read, up to the point where the table is
  blocked, and what they write while it is. Dumps are not excluded in between.
\<close>

definition start_compaction_read :: "fs_env \<Rightarrow> string \<Rightarrow> int \<Rightarrow> partition_t \<Rightarrow> disk \<Rightarrow> tkvs_per_partition_t list result" where
  "start_compaction_read e table partitions tmpc d =
     rbind (create_tkv_list e d tmpc) (\<lambda>tmpc_tkvs.
     rbind (create_partition_tkv_list e d table partitions) (\<lambda>partition_tkvs.
     get_tkvs_to_insert tmpc_tkvs partition_tkvs))"

definition start_compaction_write :: "fs_env \<Rightarrow> string \<Rightarrow> tkvs_per_partition_t list \<Rightarrow> bool \<Rightarrow> fs_state \<Rightarrow> fs_state result" where
  "start_compaction_write e table partition_tkvs tmp_destroy_flag st =
     rbind (is_blocked_wait e table st) (\<lambda>st1.
     rbind (read_bitmap (f_disk st1)) (\<lambda>bm.
     rbind (free_partitions e table bm (f_disk st1)) (\<lambda>(bm1, d1).
     rbind (if tmp_destroy_flag then rbind (free_blocks_of_all_tmps e table bm1 d1) (\<lambda>(bm2, d2). Inr (bm2, destroy_all_tmps table d2))
            else Inr (bm1, d1)) (\<lambda>(bm2, d2).
     rbind (create_new_partitions e table partition_tkvs (remove_file table get_tmpc_name (write_bitmap bm2 d2))) (\<lambda>d3.
     Inr (is_blocked_post e table (st1\<lparr>f_disk := d3\<rparr>)))))))"

definition compaction_read :: "fs_env \<Rightarrow> string \<Rightarrow> fs_state \<Rightarrow> ((tkvs_per_partition_t list \<times> bool) option \<times> fs_state) result" where
  "compaction_read e table st =
     (let d = f_disk st
      in if \<not> exist_in_directory table (Some (table_names d)) then Inr (None, st)
         else rbind (read_table_metadata d table) (\<lambda>(_, _, partitions).
           if exist_in_directory get_tmpc_name (table_entries d table) then
             rbind (read_fs_archive d table get_tmpc_name) (\<lambda>tmpc.
             rbind (start_compaction_read e table partitions tmpc d) (\<lambda>l. Inr (Some (l, False), st)))
           else if exist_in_directory (get_tmp_name 1) (table_entries d table) then
             rbind (get_all_blocks_from_all_tmps d table) (\<lambda>tmpc.
             rbind (create_fs_archive table (par_blocks tmpc) (par_size tmpc) Tmpc d) (\<lambda>d1.
             rbind (start_compaction_read e table partitions tmpc d1) (\<lambda>l. Inr (Some (l, True), st\<lparr>f_disk := d1\<rparr>))))
           else Inr (None, st)))"

definition compaction :: "fs_env \<Rightarrow> string \<Rightarrow> fs_state \<Rightarrow> fs_state result" where
  "compaction e table st = rbind (compaction_read e table st) (\<lambda>(job, st1).
     case job of None \<Rightarrow> Inr st1 | Some (l, flag) \<Rightarrow> start_compaction_write e table l flag st1)"

definition compact_thread_begin :: "nat \<Rightarrow> fs_state \<Rightarrow> ((string \<times> int) option \<times> fs_state) result" where
  \<comment> \<open>the thread up to its loop: the name of its table and its compaction time, a \<open>long\<close> kept in an \<open>int\<close>\<close>
  "compact_thread_begin thread st =
     (if f_thread_semaphore st \<le> 0 then Inl Blocked
      else let st1 = st\<lparr>f_thread_semaphore := f_thread_semaphore st - 1\<rparr>
        in case find_in_table_state_list_with_thread thread st1 of
             None \<Rightarrow> Inr (None, st1)
           | Some s \<Rightarrow> rbind (read_table_metadata (f_disk st1) (ts_name s)) (\<lambda>(compaction_time, _, _).
               Inr (Some (ts_name s, int_cast compaction_time), st1)))"

definition compact_this_table :: "fs_env \<Rightarrow> nat \<Rightarrow> string \<Rightarrow> fs_state \<Rightarrow> (bool \<times> fs_state) result" where
  \<comment> \<open>one iteration of the thread, with the table name it copied when it started; whether it goes on\<close>
  "compact_this_table e thread table st =
     (if get_live_status thread st = 1 then
        rbind (select_wait e table st) (\<lambda>st1. rbind (compaction e table st1) (\<lambda>st2. Inr (True, select_post e table st2)))
      else Inr (False, destroy_in_table_state_list thread st))"

end
