(* ===== verification/FS_Files.thy ===== *)
theory FS_Files
  imports FS_Writer FS_Ops
begin

text \<open>
  Round trips of the files: the table metadata, the archives and the records; what a directory lists after
  a file is written or removed; the count of temporary files; and the bit arrays of the library's documented layout.
\<close>

section \<open>Bit arrays\<close>

lemma of_char_lt [simp]: "(of_char c :: nat) < 256"
  by (metis of_char_mod_256 mod_less_divisor zero_less_numeral)

lemma bit_of_bit: "bit_of c k \<longleftrightarrow> bit (of_char c :: nat) k"
  by (simp add: bit_of_def bit_iff_odd)

lemma plus_bit: "\<not> bit n k \<Longrightarrow> n + 2 ^ k = set_bit k (n :: nat)"
  by (simp add: set_bit_eq)

lemma minus_bit: "bit n k \<Longrightarrow> n - 2 ^ k = unset_bit k (n :: nat)"
proof -
  assume "bit n k"
  then have "set_bit k (unset_bit k n) = n" by (intro bit_eqI) (auto simp: bit_simps)
  moreover have "unset_bit k n + 2 ^ k = set_bit k (unset_bit k n)" by (rule plus_bit) (simp add: bit_simps)
  ultimately show ?thesis by simp
qed

lemma set_bit_small: "n < 256 \<Longrightarrow> k < 8 \<Longrightarrow> set_bit k (n :: nat) < 256"
proof -
  assume "n < 256" "k < 8"
  then have "take_bit 8 n = n" by (simp add: take_bit_nat_eq_self_iff)
  then have "bit n j \<Longrightarrow> j < 8" for j by (metis bit_take_bit_iff)
  then have "take_bit 8 (set_bit k n) = set_bit k n"
    using \<open>k < 8\<close> by (intro bit_eqI) (auto simp: bit_simps)
  then show ?thesis by (simp add: take_bit_nat_eq_self_iff)
qed

lemma bit_with_bit: "k < 8 \<Longrightarrow> bit_of (with_bit k b c) j \<longleftrightarrow> (if j = k then b else bit_of c j)"
proof -
  assume k: "k < 8"
  let ?n = "of_char c :: nat"
  have s: "set_bit k ?n < 256" using set_bit_small [OF of_char_lt k] .
  have u: "?n - 2 ^ k < 256" using of_char_lt [of c] by linarith
  show ?thesis
    using s u by (auto simp: with_bit_def bit_of_bit Let_def plus_bit minus_bit bit_simps)
qed

interpretation std_ba: bitarray_api std_bitarrays
proof
  fix bm :: bytes and i j :: nat
  assume i: "i < 8 * length bm"
  show "length (bitarray_set_bit std_bitarrays bm i) = length bm" "length (bitarray_clean_bit std_bitarrays bm i) = length bm"
    by (simp_all add: std_bitarrays_def)
  assume j: "j < 8 * length bm"
  have "i div 8 < length bm" "j div 8 < length bm" using i j by simp_all
  moreover have "j = i \<longleftrightarrow> j div 8 = i div 8 \<and> j mod 8 = i mod 8" by (metis div_mult_mod_eq)
  ultimately show "bitarray_test_bit std_bitarrays (bitarray_set_bit std_bitarrays bm i) j \<longleftrightarrow> j = i \<or> bitarray_test_bit std_bitarrays bm j"
    "bitarray_test_bit std_bitarrays (bitarray_clean_bit std_bitarrays bm i) j \<longleftrightarrow> j \<noteq> i \<and> bitarray_test_bit std_bitarrays bm j"
    by (auto simp: std_bitarrays_def bit_with_bit nth_list_update)
next
  fix i n :: nat
  assume "i < 8 * n"
  then have "i div 8 < n" by simp
  then show "\<not> bitarray_test_bit std_bitarrays (replicate n NUL) i" by (simp add: std_bitarrays_def bit_of_def NUL_def)
qed

section \<open>Files and directories\<close>

definition file_at :: "disk \<Rightarrow> string \<Rightarrow> string \<Rightarrow> bytes option" where
  "file_at d table name = Option.bind (map_of (d_tables d) table) (\<lambda>dir. map_of dir name)"

definition has_table :: "disk \<Rightarrow> string \<Rightarrow> bool" where
  "has_table d table \<longleftrightarrow> table \<in> set (map fst (d_tables d))"

lemma read_file_at: "read_file d table name = (case file_at d table name of None \<Rightarrow> Inl Null_Pointer | Some f \<Rightarrow> Inr f)"
  by (simp add: read_file_def file_at_def split: option.splits)

lemma has_table_map_of: "has_table d table \<longleftrightarrow> map_of (d_tables d) table \<noteq> None"
  by (simp add: has_table_def map_of_eq_None_iff)

lemma map_of_update_dir:
  "map_of (d_tables (update_dir table f d)) t = (if t = table then map_option f (map_of (d_tables d) t) else map_of (d_tables d) t)"
proof -
  have "map_of (map (\<lambda>(t, dir). (t, if t = table then f dir else dir)) l) t =
      (if t = table then map_option f (map_of l t) else map_of l t)" for l
    by (induction l) auto
  then show ?thesis by (simp add: update_dir_def)
qed

lemma update_dir_fields [simp]: "map fst (d_tables (update_dir table f d)) = map fst (d_tables d)"
  "d_blocks (update_dir table f d) = d_blocks d" "d_bitmap (update_dir table f d) = d_bitmap d"
  by (auto simp: update_dir_def comp_def split_beta)

lemma file_at_update_dir:
  "file_at (update_dir table f d) t n = (if t = table then Option.bind (map_of (d_tables d) t) (\<lambda>dir. map_of (f dir) n) else file_at d t n)"
  by (cases "map_of (d_tables d) t") (auto simp: file_at_def map_of_update_dir)

lemma write_file_eq: "write_file table name content d =
    (if has_table d table then Inr (update_dir table (AList.update name content) d) else Inl Null_Pointer)"
  by (simp add: write_file_def has_table_map_of split: option.splits)

lemma file_at_write:
  "has_table d table \<Longrightarrow> file_at (update_dir table (AList.update name content) d) t n = (if t = table \<and> n = name then Some content else file_at d t n)"
  by (auto simp: file_at_def map_of_update_dir has_table_map_of update_conv')

lemma file_at_remove: "file_at (remove_file table name d) t n = (if t = table \<and> n = name then None else file_at d t n)"
  by (cases "map_of (d_tables d) t") (auto simp: remove_file_def file_at_def map_of_update_dir delete_conv')

lemma remove_file_fields [simp]: "map fst (d_tables (remove_file table name d)) = map fst (d_tables d)"
  "d_blocks (remove_file table name d) = d_blocks d" "d_bitmap (remove_file table name d) = d_bitmap d"
  by (simp_all add: remove_file_def)

lemma has_table_same [simp]: "has_table (update_dir t f d) table = has_table d table" "has_table (remove_file t n d) table = has_table d table"
  by (simp_all add: has_table_def del: list.set_map)

lemma file_at_table: "file_at d table name = Some f \<Longrightarrow> has_table d table"
  by (auto simp: file_at_def has_table_map_of bind_eq_Some_conv)

lemma file_at_cong: "d_tables d' = d_tables d \<Longrightarrow> file_at d' t n = file_at d t n"
  by (simp add: file_at_def)

lemma table_entries_at:
  assumes "table \<noteq> ''.''" "table \<noteq> ''..''"
  shows "exist_in_directory name (table_entries d table) \<longleftrightarrow>
    has_table d table \<and> (to_uppercase name \<in> set (map to_uppercase dot_entries) \<or> (\<exists>n. file_at d table n \<noteq> None \<and> to_uppercase n = to_uppercase name))"
proof (cases "map_of (d_tables d) table")
  case None
  then show ?thesis using assms by (simp add: table_entries_def exist_in_directory_def has_table_map_of)
next
  case (Some dir)
  have "map_of dir n \<noteq> None \<longleftrightarrow> n \<in> fst ` set dir" for n by (simp add: map_of_eq_None_iff)
  then show ?thesis using Some assms
    by (auto simp: table_entries_def exist_in_directory_def has_table_map_of file_at_def list_ex_iff dot_entries_def simp del: not_None_eq)
qed

section \<open>Archives\<close>

lemma ints_of_enc: "\<forall>x \<in> set xs. fits_int x \<Longrightarrow> ints_of (length xs) (concat (map (enc_int 4) xs) @ rest) = xs"
  by (induction xs) simp_all

lemma length_enc_ints: "length (concat (map (enc_int k) xs)) = k * length xs"
  by (induction xs) simp_all

lemma read_archive_bytes:
  assumes "file_at d table name = Some (archive_bytes bs sz)" "\<forall>b \<in> set bs. fits_int b" "length bs < 2 ^ 31"
  shows "\<exists>p. read_fs_archive d table name = Inr p \<and> par_blocks p = bs \<and> par_number_of_blocks p = int (length bs)"
proof -
  have n: "fits_int (int (length bs))" using assms(3) by (simp add: fits_int_def)
  have "read_fs_archive d table name = Inr \<lparr>par_number_of_blocks = int (length bs), par_size = dec_sint (enc_int 4 sz), par_blocks = bs\<rparr>"
    using n assms(1,2) ints_of_enc [OF assms(2), of "enc_int 4 sz"]
    by (simp add: read_fs_archive_def read_file_at archive_bytes_def Let_def length_enc_ints)
  then show ?thesis by simp
qed

section \<open>Table metadata\<close>

lemma consistency_code_roundtrip [simp]: "consistency_of_code (consistency_code c mod 256) = Some c"
  by (cases c) (simp_all add: consistency_of_code_def)

lemma read_metadata:
  assumes "file_at d table metadata_name = Some (enc_int 8 ct @ enc_int 1 (consistency_code c) @ enc_int 4 p)" "fits_long ct" "fits_int p"
  shows "read_table_metadata d table = Inr (ct, c, p)"
  using assms by (simp add: read_table_metadata_def read_file_at Let_def)

section \<open>Names\<close>

definition fs_name :: "string \<Rightarrow> bool" where
  \<comment> \<open>the files the program creates in the directory of a table\<close>
  "fs_name n \<longleftrightarrow> n = metadata_name \<or> n = get_tmpc_name \<or> (\<exists>k. n = get_tmp_name k) \<or> (\<exists>i. n = create_partition_name i)"

lemma upc_digit: "is_digit c \<Longrightarrow> upc c = c"
  by (auto simp: upc_def is_digit_def)

lemma upper_dec_nat: "to_uppercase (dec_nat n) = dec_nat n"
  using dec_nat_digits [of n] by (auto simp: to_uppercase_def list_all_iff upc_digit intro: map_idI simp del: dec_nat_digits)

lemma upper_append: "to_uppercase (s @ t) = to_uppercase s @ to_uppercase t"
  by (simp add: to_uppercase_def)

lemma upper_consts: "to_uppercase ''A'' = ''A''" "to_uppercase ''.tmp'' = ''.TMP''" "to_uppercase get_tmpc_name = ''A1.TMPC''" "to_uppercase metadata_name = ''METADATA.BIN''"
  "to_uppercase ''.bin'' = ''.BIN''" "to_uppercase ''.'' = ''.''" "to_uppercase ''..'' = ''..''"
  by code_simp+

lemma upper_tmp_name: "to_uppercase (get_tmp_name k) = CHR ''A'' # dec_nat k @ ''.TMP''"
  unfolding get_tmp_name_def upper_append upper_dec_nat upper_consts by simp

lemma hd_dec_int: "is_digit (hd (dec_int i)) \<or> hd (dec_int i) = CHR ''-''"
  using dec_nat_digits [of "nat i"] dec_nat_not_Nil [of "nat i"]
  by (cases "dec_nat (nat i)") (auto simp: dec_int_def)

lemma hd_upper_partition: "hd (to_uppercase (create_partition_name i)) \<noteq> CHR ''A''" "hd (to_uppercase (create_partition_name i)) \<noteq> CHR ''M''"
  "to_uppercase (create_partition_name i) \<noteq> []"
proof -
  have "hd (to_uppercase (create_partition_name i)) = upc (hd (dec_int i))" "to_uppercase (create_partition_name i) \<noteq> []"
    using dec_int_not_Nil [of i] by (simp_all add: to_uppercase_def create_partition_name_def hd_map)
  moreover have "upc (hd (dec_int i)) \<noteq> CHR ''A''" "upc (hd (dec_int i)) \<noteq> CHR ''M''"
    using hd_dec_int [of i] upc_digit [of "hd (dec_int i)"] by (auto simp: is_digit_def upc_def)
  ultimately show "hd (to_uppercase (create_partition_name i)) \<noteq> CHR ''A''" "hd (to_uppercase (create_partition_name i)) \<noteq> CHR ''M''"
    "to_uppercase (create_partition_name i) \<noteq> []" by simp_all
qed

lemma get_tmp_name_inject [simp]: "get_tmp_name j = get_tmp_name k \<longleftrightarrow> j = k"
  by (simp add: get_tmp_name_def)

lemma create_partition_name_inject [simp]: "create_partition_name i = create_partition_name j \<longleftrightarrow> i = j"
  by (simp add: create_partition_name_def)

lemma upper_tmp_neq: "to_uppercase metadata_name \<noteq> to_uppercase (get_tmp_name k)" "to_uppercase get_tmpc_name \<noteq> to_uppercase (get_tmp_name k)"
  "to_uppercase (create_partition_name i) \<noteq> to_uppercase (get_tmp_name k)" "to_uppercase metadata_name \<noteq> to_uppercase get_tmpc_name"
  "to_uppercase (create_partition_name i) \<noteq> to_uppercase get_tmpc_name" "to_uppercase (create_partition_name i) \<noteq> to_uppercase metadata_name"
proof -
  have "last (to_uppercase (get_tmp_name k)) = CHR ''P''" by (simp add: upper_tmp_name)
  moreover have "last (to_uppercase get_tmpc_name) = CHR ''C''" by (simp add: upper_consts)
  ultimately show "to_uppercase get_tmpc_name \<noteq> to_uppercase (get_tmp_name k)" by force
  show "to_uppercase metadata_name \<noteq> to_uppercase (get_tmp_name k)" "to_uppercase metadata_name \<noteq> to_uppercase get_tmpc_name"
    by (simp_all add: upper_consts upper_tmp_name)
  show "to_uppercase (create_partition_name i) \<noteq> to_uppercase (get_tmp_name k)" "to_uppercase (create_partition_name i) \<noteq> to_uppercase get_tmpc_name"
     "to_uppercase (create_partition_name i) \<noteq> to_uppercase metadata_name"
    using hd_upper_partition [of i] by (auto simp: upper_tmp_name upper_consts)
qed

lemma names_neq [simp]: "metadata_name \<noteq> get_tmp_name k" "get_tmpc_name \<noteq> get_tmp_name k" "create_partition_name i \<noteq> get_tmp_name k"
  "metadata_name \<noteq> get_tmpc_name" "create_partition_name i \<noteq> get_tmpc_name" "create_partition_name i \<noteq> metadata_name"
  "get_tmp_name k \<noteq> metadata_name" "get_tmp_name k \<noteq> get_tmpc_name" "get_tmp_name k \<noteq> create_partition_name i"
  "get_tmpc_name \<noteq> metadata_name" "get_tmpc_name \<noteq> create_partition_name i" "metadata_name \<noteq> create_partition_name i"
  using upper_tmp_neq by metis+

text \<open>Names that only differ in case do not occur, so a file is found exactly when it is there.\<close>

lemma fs_name_upper_tmp: "fs_name n \<Longrightarrow> to_uppercase n = to_uppercase (get_tmp_name k) \<longleftrightarrow> n = get_tmp_name k"
  by (auto simp: fs_name_def upper_tmp_name dest: upper_tmp_neq [unfolded upper_tmp_name, THEN notE])

lemma fs_name_upper_tmpc: "fs_name n \<Longrightarrow> to_uppercase n = to_uppercase get_tmpc_name \<longleftrightarrow> n = get_tmpc_name"
  unfolding fs_name_def using upper_tmp_neq by metis

lemma exists_tmp:
  assumes "table \<noteq> ''.''" "table \<noteq> ''..''" "\<forall>n. file_at d table n \<noteq> None \<longrightarrow> fs_name n"
  shows "exist_in_directory (get_tmp_name k) (table_entries d table) \<longleftrightarrow> file_at d table (get_tmp_name k) \<noteq> None"
    "exist_in_directory get_tmpc_name (table_entries d table) \<longleftrightarrow> file_at d table get_tmpc_name \<noteq> None"
proof -
  have "to_uppercase (get_tmp_name k) \<notin> set (map to_uppercase dot_entries)" "to_uppercase get_tmpc_name \<notin> set (map to_uppercase dot_entries)"
    by (simp_all add: upper_tmp_name dot_entries_def upper_consts)
  then show "exist_in_directory (get_tmp_name k) (table_entries d table) \<longleftrightarrow> file_at d table (get_tmp_name k) \<noteq> None"
    "exist_in_directory get_tmpc_name (table_entries d table) \<longleftrightarrow> file_at d table get_tmpc_name \<noteq> None"
    unfolding table_entries_at [OF assms(1,2)] using fs_name_upper_tmp fs_name_upper_tmpc assms(3) file_at_table
    by (metis option.exhaust)+
qed

section \<open>The number of temporary files\<close>

lemma nth_upt1: "i < n \<Longrightarrow> [1..<Suc n] ! i = Suc i"
  by (simp del: upt_Suc)

text \<open>The count stops at a number that is free, so the length of the directory bounds the loop.\<close>

lemma tmp_numbers_end: "\<not> exist_in_directory (get_tmp_name (Suc (length (tmp_numbers d table)))) (table_entries d table)"
proof -
  let ?names = "case table_entries d table of None \<Rightarrow> [] | Some names \<Rightarrow> names"
  let ?P = "\<lambda>n. exist_in_directory (get_tmp_name n) (table_entries d table)"
  let ?l = "[1..<Suc (Suc (length ?names))]"
  have t: "tmp_numbers d table = takeWhile ?P ?l"
    by (simp add: tmp_numbers_def Let_def split: option.splits)
  have E: "?P k \<Longrightarrow> to_uppercase (get_tmp_name k) \<in> set (map to_uppercase ?names)" for k
    by (cases "table_entries d table") (auto simp: exist_in_directory_def list_ex_iff intro: rev_image_eqI)
  have "\<exists>k \<in> set ?l. \<not> ?P k"
  proof (rule ccontr)
    assume "\<not> ?thesis"
    then have "(\<lambda>k. to_uppercase (get_tmp_name k)) ` set ?l \<subseteq> set (map to_uppercase ?names)"
      using E by blast
    then have "card ((\<lambda>k. to_uppercase (get_tmp_name k)) ` set ?l) \<le> length ?names"
      by (metis card_length card_mono finite_set length_map order_trans)
    moreover have "inj_on (\<lambda>k. to_uppercase (get_tmp_name k)) (set ?l)" by (auto simp: inj_on_def upper_tmp_name)
    ultimately show False by (simp add: card_image del: upt_Suc)
  qed
  then have "length (takeWhile ?P ?l) < length ?l"
    by (metis (no_types, lifting) takeWhile_eq_all_conv length_takeWhile_le le_neq_implies_less takeWhile_eq_take take_all_iff order_refl)
  then show ?thesis using nth_length_takeWhile [of ?P ?l] nth_upt1 [of _ "Suc (length ?names)"] unfolding t
    by (metis (no_types, lifting) length_upt diff_Suc_1)
qed

lemma takeWhile_upt: "takeWhile P [a..<b] = [a..<c]" if "a \<le> c" "c < b" "\<And>k. a \<le> k \<Longrightarrow> k < c \<Longrightarrow> P k" "\<not> P c"
proof -
  have "[a..<b] = [a..<c] @ c # [Suc c..<b]" using that(1,2) by (metis le_add_diff_inverse less_imp_le upt_add_eq_append upt_conv_Cons)
  moreover have "takeWhile P ([a..<c] @ c # [Suc c..<b]) = [a..<c] @ takeWhile P (c # [Suc c..<b])"
    by (rule takeWhile_append2) (simp add: that(3))
  ultimately show ?thesis using that(4) by simp
qed

lemma tmp_numbers_upto:
  assumes "table \<noteq> ''.''" "table \<noteq> ''..''" "\<forall>n. file_at d table n \<noteq> None \<longrightarrow> fs_name n"
    "\<forall>k. file_at d table (get_tmp_name k) \<noteq> None \<longleftrightarrow> 1 \<le> k \<and> k \<le> n"
  shows "tmp_numbers d table = [1..<Suc n]"
proof -
  have P: "exist_in_directory (get_tmp_name k) (table_entries d table) \<longleftrightarrow> 1 \<le> k \<and> k \<le> n" for k
    using exists_tmp(1) [OF assms(1-3)] assms(4) by blast
  let ?m = "length (tmp_numbers d table)"
  obtain b where t: "tmp_numbers d table = takeWhile (\<lambda>k. 1 \<le> k \<and> k \<le> n) [1..<Suc b]"
    using that [of "Suc (case table_entries d table of None \<Rightarrow> 0 | Some names \<Rightarrow> length names)"] by (simp add: tmp_numbers_def P Let_def del: upt_Suc)
  have "\<not> Suc ?m \<le> n" using tmp_numbers_end [of d table] P by simp
  moreover have "?m \<le> b" unfolding t by (metis length_takeWhile_le length_upt diff_Suc_1)
  ultimately have "n \<le> b" by simp
  show ?thesis
  proof (cases "n = b")
    case True
    then show ?thesis unfolding t by (simp add: takeWhile_eq_all_conv del: upt_Suc)
  next
    case False
    then show ?thesis unfolding t using \<open>n \<le> b\<close> by (intro takeWhile_upt) auto
  qed
qed

section \<open>Records\<close>

definition rec_ok :: "fs_env \<Rightarrow> fs_record \<Rightarrow> bool" where
  "rec_ok e r \<longleftrightarrow> 0 \<le> fr_timestamp r \<and> fits_long (fr_timestamp r) \<and> 0 \<le> fr_key r \<and> fr_key r < 65536 \<and>
     fr_value r \<noteq> [] \<and> CHR '';'' \<notin> set (fr_value r) \<and> cut_mark \<notin> set (fr_value r) \<and> no_nul (fr_value r) \<and>
     length (convert_to_tkv r) < tkv_size e"

lemma rec_ok_tkv: "rec_ok e r \<Longrightarrow> tkv_ok (tkv_size e) (convert_to_tkv r)"
  using dec_int_notin [of cut_mark]
  by (auto simp: rec_ok_def tkv_ok_def string_ok_def convert_to_tkv_def tkv_text_def cut_mark_def NUL_def)

lemma rec_ok_key: "rec_ok e r \<Longrightarrow> uint (word_of_int (fr_key r) :: u16) = fr_key r"
  by (simp add: rec_ok_def uint_word_of_int)

lemma fits_key: "0 \<le> k \<Longrightarrow> k < 65536 \<Longrightarrow> fits_int k \<and> fits_long k"
  by (simp add: fits_int_def fits_long_def)

context commons_api
begin

lemma split_record: "rec_ok e r \<Longrightarrow> split_tkv cm (convert_to_tkv r) = Inr (dec_int (fr_timestamp r), dec_int (fr_key r), Some (fr_value r))"
  using dec_int_notin [of "CHR '';''"] split3 [of "dec_int (fr_timestamp r)" "dec_int (fr_key r)" "fr_value r" "CHR '';''"]
  by (simp add: split_tkv_def rec_ok_def convert_to_tkv_def tkv_text_def)

lemma convert_record_tkv: "rec_ok e r \<Longrightarrow> convert_record cm (convert_to_tkv r) = Inr r"
  using rec_ok_key [of e r] string_to_uint16_dec [of "word_of_int (fr_key r)"]
  by (simp add: convert_record_def split_record) (simp add: rec_ok_def)

lemma convert_to_record_tkv: "rec_ok e r \<Longrightarrow> convert_to_record cm (convert_to_tkv r) = Inr r"
  using fits_key [of "fr_key r"]
  by (simp add: convert_to_record_def split_record) (simp add: rec_ok_def string_to_int_def string_to_long_def int_cast_fits)

lemma split_no_tkv: "split_tkv cm no_tkv = Inr (''-1'', ''-1'', Some ''-1'')"
  using split3 [of "''-1''" "''-1''" "''-1''" "CHR '';''"] by (simp add: split_tkv_def no_tkv_def)

end

end
