(* ===== verification/FS_Search.thy ===== *)
theory FS_Search
  imports FS_Files
begin

text \<open>
  The search for a key in an archive. In an archive where the records of a key have ascending timestamps the search
  returns one with the greatest timestamp; the parts of \<open>search_key\<close> are then put together with the same relation.
\<close>

section \<open>The newest record of a key\<close>

definition newest :: "int \<Rightarrow> fs_record list \<Rightarrow> fs_record \<Rightarrow> bool" where
  "newest k rs r \<longleftrightarrow>
     (if \<exists>x \<in> set rs. fr_key x = k then r \<in> set rs \<and> fr_key r = k \<and> (\<forall>x \<in> set rs. fr_key x = k \<longrightarrow> fr_timestamp x \<le> fr_timestamp r)
      else r = not_found)"

definition ascending :: "fs_record list \<Rightarrow> bool" where
  \<comment> \<open>for each key\<close>
  "ascending rs \<longleftrightarrow> sorted_wrt (\<lambda>x y. fr_key x = fr_key y \<longrightarrow> fr_timestamp x \<le> fr_timestamp y) rs"

lemma newest_none: "newest k [] r \<longleftrightarrow> r = not_found"
  by (simp add: newest_def)

lemma newest_set: "set rs = set rs' \<Longrightarrow> newest k rs r \<longleftrightarrow> newest k rs' r"
  by (simp add: newest_def)

lemma newest_timestamp: "newest k rs r \<Longrightarrow> \<forall>x \<in> set rs. 0 \<le> fr_timestamp x \<Longrightarrow> fr_timestamp r = -1 \<longleftrightarrow> r = not_found"
  by (auto simp: newest_def not_found_def split: if_splits)

text \<open>Two parts that were searched, compared by \<open>>\<close> or by \<open>\<ge>\<close>.\<close>

lemma newest_append:
  assumes "newest k A a" "newest k B b" "\<forall>x \<in> set A \<union> set B. 0 \<le> fr_timestamp x"
  shows "fr_timestamp a \<le> fr_timestamp b \<Longrightarrow> newest k (A @ B) b" "fr_timestamp b \<le> fr_timestamp a \<Longrightarrow> newest k (A @ B) a"
proof -
  have a: "a = not_found \<and> (\<forall>x \<in> set A. fr_key x \<noteq> k) \<or> a \<in> set A \<and> fr_key a = k \<and> 0 \<le> fr_timestamp a \<and> (\<forall>x \<in> set A. fr_key x = k \<longrightarrow> fr_timestamp x \<le> fr_timestamp a)"
    and b: "b = not_found \<and> (\<forall>x \<in> set B. fr_key x \<noteq> k) \<or> b \<in> set B \<and> fr_key b = k \<and> 0 \<le> fr_timestamp b \<and> (\<forall>x \<in> set B. fr_key x = k \<longrightarrow> fr_timestamp x \<le> fr_timestamp b)"
    using assms by (auto simp: newest_def split: if_splits)
  have neg: "fr_timestamp not_found = -1" by (simp add: not_found_def)
  show "newest k (A @ B) b" if "fr_timestamp a \<le> fr_timestamp b"
    using a b that neg by (auto simp: newest_def intro: order_trans)
  show "newest k (A @ B) a" if "fr_timestamp b \<le> fr_timestamp a"
    using a b that neg by (auto simp: newest_def intro: order_trans)
qed

lemma newest_copy: "newest k rs r \<Longrightarrow> \<forall>x \<in> set rs. 0 \<le> fr_timestamp x \<Longrightarrow> copy_key r = r"
  using newest_timestamp by (auto simp: copy_key_def)

section \<open>A block\<close>

definition scan :: "int \<Rightarrow> string \<times> int \<Rightarrow> fs_record \<Rightarrow> string \<times> int" where
  \<comment> \<open>what the loop over a block does with a record\<close>
  "scan k best r = (if fr_key r = k \<and> fr_timestamp r > snd best then (convert_to_tkv r, fr_timestamp r) else best)"

lemma convert_to_tkv_not_none: "0 \<le> fr_timestamp r \<Longrightarrow> map upc (convert_to_tkv r) \<noteq> map upc no_tkv"
proof -
  assume t: "0 \<le> fr_timestamp r"
  obtain c cs where c: "dec_nat (nat (fr_timestamp r)) = c # cs" by (cases "dec_nat (nat (fr_timestamp r))") auto
  then have "is_digit c" using dec_nat_digits [of "nat (fr_timestamp r)"] by simp
  then have "upc c \<noteq> CHR ''-''" by (simp add: upc_digit) (auto simp: is_digit_def)
  moreover have "upc CHR ''-'' = CHR ''-''" by (simp add: upc_def)
  ultimately show ?thesis using t c by (simp add: convert_to_tkv_def tkv_text_def dec_int_def no_tkv_def)
qed

context commons_api
begin

lemma search_loop_step:
  assumes "rec_ok e r" "length buf = tkv_size e"
  shows "\<exists>buf1. quiet (tkv_size e) buf1 \<and>
    search_loop cm (dec_int k) (pre @ cstr_bytes (convert_to_tkv r) @ rest) buf (length pre) tkv ts previous =
    search_loop cm (dec_int k) (pre @ cstr_bytes (convert_to_tkv r) @ rest) buf1 (length (pre @ cstr_bytes (convert_to_tkv r)))
      (fst (scan k (tkv, ts) r)) (snd (scan k (tkv, ts) r)) previous"
proof -
  let ?s = "convert_to_tkv r"
  have tk: "tkv_ok (tkv_size e) ?s" using rec_ok_tkv [OF assms(1)] .
  then have s: "no_nul ?s" "length ?s < tkv_size e" "\<not> is_cut ?s" using tkv_ok_uncut by (auto simp: tkv_ok_def string_ok_def)
  let ?f = "pre @ cstr_bytes ?s @ rest"
  let ?b = "fread_into buf ?f (length pre)"
  note b = cstr_bytes_prefix [OF s(1,2) assms(2), of pre rest]
  have "quiet (tkv_size e) ?b" using b s(3) by (simp add: quiet_def)
  moreover have "buf \<noteq> []" "cstr_bytes ?s \<noteq> []" using assms(2) s(2) by (auto simp: cstr_bytes_def)
  moreover have "fits_long (fr_timestamp r)" using assms(1) by (simp add: rec_ok_def)
  ultimately show ?thesis
    using b s(3) by (intro exI [of _ ?b]) (simp add: search_loop.simps [of cm _ ?f buf] Let_def ends_with_mark split_record [OF assms(1)] scan_def)
qed

lemma search_loop_end: "quiet sz buf \<Longrightarrow> search_loop cm key f buf (length f) tkv ts previous = Inr (\<lparr>tk_tkv = tkv, tk_incomplete = False\<rparr>, previous)"
  by (simp add: search_loop.simps [of cm key f buf] Let_def fread_end quiet_def ends_with_mark)

lemma search_loop_cut:
  assumes "string_ok sz (x @ [cut_mark])" "length buf = sz"
  shows "search_loop cm key (pre @ cstr_bytes (x @ [cut_mark]) @ rest) buf (length pre) tkv ts previous =
    Inr (\<lparr>tk_tkv = x, tk_incomplete = True\<rparr>, if map upc tkv = map upc no_tkv then previous else tkv)"
proof -
  have s: "no_nul (x @ [cut_mark])" "length (x @ [cut_mark]) < sz" using assms(1) by (auto simp: string_ok_def)
  note b = cstr_bytes_prefix [OF s assms(2), of pre rest]
  show ?thesis by (subst search_loop.simps) (simp add: Let_def b ends_with_mark substring_until equals_ignore_case)
qed

lemma search_loop_block:
  assumes "\<forall>r \<in> set rs. rec_ok e r" "quiet (tkv_size e) buf"
  shows "search_loop cm (dec_int k) (pre @ block_bytes (map convert_to_tkv rs)) buf (length pre) tkv ts previous =
    Inr (\<lparr>tk_tkv = fst (foldl (scan k) (tkv, ts) rs), tk_incomplete = False\<rparr>, previous)"
  using assms
proof (induction rs arbitrary: pre buf tkv ts)
  case Nil
  then show ?case using search_loop_end [of _ buf _ pre] by simp
next
  case (Cons r rs)
  let ?rest = "block_bytes (map convert_to_tkv rs)"
  obtain buf1 where b: "quiet (tkv_size e) buf1"
    "search_loop cm (dec_int k) (pre @ cstr_bytes (convert_to_tkv r) @ ?rest) buf (length pre) tkv ts previous =
     search_loop cm (dec_int k) (pre @ cstr_bytes (convert_to_tkv r) @ ?rest) buf1 (length (pre @ cstr_bytes (convert_to_tkv r)))
      (fst (scan k (tkv, ts) r)) (snd (scan k (tkv, ts) r)) previous"
    using search_loop_step [of e r buf k pre ?rest tkv ts previous] Cons.prems by (auto simp: quiet_def)
  show ?case using Cons.IH [of buf1 "pre @ cstr_bytes (convert_to_tkv r)"] Cons.prems b by simp
qed

lemma search_loop_block_cut:
  assumes "\<forall>r \<in> set rs. rec_ok e r" "string_ok (tkv_size e) (x @ [cut_mark])" "length buf = tkv_size e"
  shows "search_loop cm (dec_int k) (pre @ block_bytes (map convert_to_tkv rs @ [x @ [cut_mark]])) buf (length pre) tkv ts previous =
    (let found = fst (foldl (scan k) (tkv, ts) rs)
     in Inr (\<lparr>tk_tkv = x, tk_incomplete = True\<rparr>, if map upc found = map upc no_tkv then previous else found))"
  using assms
proof (induction rs arbitrary: pre buf tkv ts)
  case Nil
  then show ?case using search_loop_cut [of _ x buf _ pre "[]"] by simp
next
  case (Cons r rs)
  let ?rest = "block_bytes (map convert_to_tkv rs @ [x @ [cut_mark]])"
  obtain buf1 where b: "quiet (tkv_size e) buf1"
    "search_loop cm (dec_int k) (pre @ cstr_bytes (convert_to_tkv r) @ ?rest) buf (length pre) tkv ts previous =
     search_loop cm (dec_int k) (pre @ cstr_bytes (convert_to_tkv r) @ ?rest) buf1 (length (pre @ cstr_bytes (convert_to_tkv r)))
      (fst (scan k (tkv, ts) r)) (snd (scan k (tkv, ts) r)) previous"
    using search_loop_step [of e r buf k pre ?rest tkv ts previous] Cons.prems by auto
  show ?case using Cons.IH [of buf1 "pre @ cstr_bytes (convert_to_tkv r)"] Cons.prems b by (simp add: quiet_def Let_def)
qed

end

context fs_reader
begin

lemma search_block_uncut:
  assumes "d_blocks d b = Some (block_bytes ss0)" "enters (tkv_size e) index n ss0 (map convert_to_tkv rs)" "\<forall>r \<in> set rs. rec_ok e r"
  shows "search_key_in_block e d b (dec_int k) index n previous =
    Inr (\<lparr>tk_tkv = fst (foldl (scan k) (no_tkv, -1) rs), tk_incomplete = False\<rparr>, previous)"
proof -
  obtain buf pre where "skip_first (tkv_size e) index n (block_bytes ss0) = Inr (buf, length pre, True)" "quiet (tkv_size e) buf"
    "block_bytes ss0 = pre @ block_bytes (map convert_to_tkv rs)"
    using skip_first_enters [OF assms(2) tkv_size_pos] by blast
  then show ?thesis using search_loop_block [OF assms(3)] assms(1) by (simp add: search_key_in_block_def read_block_def)
qed

lemma search_block_cut:
  assumes "d_blocks d b = Some (block_bytes ss0)" "enters (tkv_size e) index n ss0 (map convert_to_tkv rs @ [x @ [cut_mark]])"
    "\<forall>r \<in> set rs. rec_ok e r" "string_ok (tkv_size e) (x @ [cut_mark])"
  shows "search_key_in_block e d b (dec_int k) index n previous =
    (let found = fst (foldl (scan k) (no_tkv, -1) rs)
     in Inr (\<lparr>tk_tkv = x, tk_incomplete = True\<rparr>, if map upc found = map upc no_tkv then previous else found))"
proof -
  obtain buf pre where "skip_first (tkv_size e) index n (block_bytes ss0) = Inr (buf, length pre, True)" "quiet (tkv_size e) buf"
    "block_bytes ss0 = pre @ block_bytes (map convert_to_tkv rs @ [x @ [cut_mark]])"
    using skip_first_enters [OF assms(2) tkv_size_pos] by blast
  then show ?thesis using search_loop_block_cut [OF assms(3,4), of buf k pre] assms(1)
    by (simp add: search_key_in_block_def read_block_def quiet_def del: block_bytes_simps)
qed

end

section \<open>An archive\<close>

text \<open>
  The record kept after the records \<open>rs\<close>, with the timestamp it is compared by. That timestamp may be an older one,
  since a block that ends in a cut record does not set it.
\<close>

definition best_of :: "int \<Rightarrow> fs_record list \<Rightarrow> string \<times> int \<Rightarrow> bool" where
  "best_of k rs best \<longleftrightarrow> -1 \<le> snd best \<and>
     (\<exists>r. newest k rs r \<and> fst best = (if r = not_found then no_tkv else convert_to_tkv r) \<and> snd best \<le> fr_timestamp r)"

definition scanned :: "int \<Rightarrow> fs_record list \<Rightarrow> string \<times> int \<Rightarrow> bool" where
  "scanned k rs best \<longleftrightarrow> (\<exists>r. newest k rs r \<and> best = (if r = not_found then no_tkv else convert_to_tkv r, fr_timestamp r))"

lemma newest_one: "0 \<le> fr_timestamp r \<Longrightarrow> newest k [r] (if fr_key r = k then r else not_found)"
  by (simp add: newest_def)

lemma ok_not_found: "0 \<le> fr_timestamp r \<Longrightarrow> r \<noteq> not_found" "fr_timestamp not_found = -1"
  by (auto simp: not_found_def)

lemma scanned_scan:
  assumes "\<forall>r \<in> set rs. 0 \<le> fr_timestamp r"
  shows "scanned k rs (foldl (scan k) (no_tkv, -1) rs)"
  using assms
proof (induction rs rule: rev_induct)
  case Nil
  then show ?case by (simp add: scanned_def newest_none not_found_def)
next
  case (snoc x rs)
  then obtain r where r: "newest k rs r" "foldl (scan k) (no_tkv, -1) rs = (if r = not_found then no_tkv else convert_to_tkv r, fr_timestamp r)"
    by (auto simp: scanned_def)
  have x: "0 \<le> fr_timestamp x" using snoc.prems by simp
  note nw = newest_append [OF r(1) newest_one [OF x]]
  show ?case
  proof (cases "fr_key x = k \<and> fr_timestamp x > fr_timestamp r")
    case True
    then have "newest k (rs @ [x]) x" using nw(1) snoc.prems by simp
    moreover have "foldl (scan k) (no_tkv, -1) (rs @ [x]) = (convert_to_tkv x, fr_timestamp x)"
      using True r(2) by (simp add: scan_def [of k "(_, _)"])
    ultimately show ?thesis using ok_not_found(1) [OF x] by (auto simp: scanned_def)
  next
    case False
    have "-1 \<le> fr_timestamp r" using r(1) snoc.prems by (auto simp: newest_def ok_not_found split: if_splits)
    then have "newest k (rs @ [x]) r" using False nw(2) snoc.prems by (auto simp: ok_not_found)
    moreover have "foldl (scan k) (no_tkv, -1) (rs @ [x]) = foldl (scan k) (no_tkv, -1) rs"
      using False r(2) by (auto simp: scan_def [of k "(_, _)"])
    ultimately show ?thesis using r(2) by (auto simp: scanned_def)
  qed
qed

lemma newest_cases:
  assumes "newest k rs r" "\<forall>x \<in> set rs. 0 \<le> fr_timestamp x"
  obtains (absent) "r = not_found" "\<forall>x \<in> set rs. fr_key x \<noteq> k"
  | (found) "r \<noteq> not_found" "r \<in> set rs" "fr_key r = k" "0 \<le> fr_timestamp r" "\<forall>x \<in> set rs. fr_key x = k \<longrightarrow> fr_timestamp x \<le> fr_timestamp r"
proof (cases "\<exists>x \<in> set rs. fr_key x = k")
  case True
  then have "r \<in> set rs" "fr_key r = k" "\<forall>x \<in> set rs. fr_key x = k \<longrightarrow> fr_timestamp x \<le> fr_timestamp r" using assms(1) by (simp_all add: newest_def)
  then show ?thesis using found assms(2) ok_not_found(1) by blast
next
  case False
  then show ?thesis using absent assms(1) by (auto simp: newest_def)
qed

lemma best_of_extend:
  assumes "best_of k A best" "newest k B b" "\<forall>x \<in> set A. \<forall>y \<in> set B. fr_key x = fr_key y \<longrightarrow> fr_timestamp x \<le> fr_timestamp y"
    "\<forall>x \<in> set A \<union> set B. 0 \<le> fr_timestamp x"
  shows "b = not_found \<or> \<not> fr_timestamp b > snd best \<Longrightarrow> best_of k (A @ B) best"
    "b \<noteq> not_found \<Longrightarrow> -1 \<le> t \<Longrightarrow> t \<le> fr_timestamp b \<Longrightarrow> best_of k (A @ B) (convert_to_tkv b, t)"
proof -
  obtain r where r: "newest k A r" "fst best = (if r = not_found then no_tkv else convert_to_tkv r)" "snd best \<le> fr_timestamp r" "-1 \<le> snd best"
    using assms(1) by (auto simp: best_of_def)
  have nb: "\<forall>x \<in> set A. 0 \<le> fr_timestamp x" "\<forall>x \<in> set B. 0 \<le> fr_timestamp x" using assms(4) by auto
  note nw = newest_append [OF r(1) assms(2,4)]
  have le: "fr_timestamp r \<le> fr_timestamp b" if "b \<noteq> not_found"
    using r(1) nb(1)
  proof (cases rule: newest_cases)
    case absent
    then show ?thesis using that by (cases rule: newest_cases [OF assms(2) nb(2)]) (auto simp: ok_not_found)
  next
    case found
    then show ?thesis using that assms(3) by (cases rule: newest_cases [OF assms(2) nb(2)]) auto
  qed
  show "best_of k (A @ B) best" if "b = not_found \<or> \<not> fr_timestamp b > snd best"
  proof -
    have "-1 \<le> fr_timestamp r" by (cases rule: newest_cases [OF r(1) nb(1)]) (auto simp: ok_not_found)
    then have "fr_timestamp b \<le> fr_timestamp r" using that r(3,4) by (cases "b = not_found") (auto simp: ok_not_found)
    then show ?thesis using nw(2) r by (auto simp: best_of_def)
  qed
  show "best_of k (A @ B) (convert_to_tkv b, t)" if "b \<noteq> not_found" "-1 \<le> t" "t \<le> fr_timestamp b"
    using nw(1) [OF le [OF that(1)]] that by (auto simp: best_of_def)
qed

lemma best_after_record:
  assumes "best_of k A best" "0 \<le> fr_timestamp r" "\<forall>x \<in> set A. 0 \<le> fr_timestamp x" "\<forall>x \<in> set A. fr_key x = fr_key r \<longrightarrow> fr_timestamp x \<le> fr_timestamp r"
  shows "best_of k (A @ [r]) (scan k best r)"
proof -
  have "\<forall>x \<in> set A. \<forall>y \<in> set [r]. fr_key x = fr_key y \<longrightarrow> fr_timestamp x \<le> fr_timestamp y" "\<forall>x \<in> set A \<union> set [r]. 0 \<le> fr_timestamp x"
    using assms by auto
  note ext = best_of_extend [OF assms(1) newest_one [OF assms(2)] this]
  show ?thesis
  proof (cases "fr_key r = k \<and> fr_timestamp r > snd best")
    case True
    then show ?thesis using ext(2) [of "fr_timestamp r"] assms(2) ok_not_found(1) by (auto simp: scan_def)
  next
    case False
    then show ?thesis using ext(1) by (auto simp: scan_def split: if_splits)
  qed
qed

lemma no_tkv_upc: "newest k rs b \<Longrightarrow> \<forall>x \<in> set rs. 0 \<le> fr_timestamp x \<Longrightarrow>
    map upc (if b = not_found then no_tkv else convert_to_tkv b) = map upc no_tkv \<longleftrightarrow> b = not_found"
  by (cases rule: newest_cases [of k rs b]) (auto simp: convert_to_tkv_not_none)

context fs_reader
begin

lemma best_after_block:
  assumes "best_of k A best" "\<forall>r \<in> set rs. rec_ok e r" "\<forall>x \<in> set A. 0 \<le> fr_timestamp x"
    "\<forall>x \<in> set A. \<forall>y \<in> set rs. fr_key x = fr_key y \<longrightarrow> fr_timestamp x \<le> fr_timestamp y"
  defines "found \<equiv> fst (foldl (scan k) (no_tkv, -1) rs)"
  shows "\<exists>best1. (if found \<noteq> no_tkv then newer_tkv (e_cm e) found best else Inr best) = Inr best1 \<and> best_of k (A @ rs) best1"
    "best_of k (A @ rs) (if map upc found = map upc no_tkv then fst best else found, snd best)"
proof -
  have nn: "\<forall>r \<in> set rs. 0 \<le> fr_timestamp r" using assms(2) by (simp add: rec_ok_def)
  obtain b where b: "newest k rs b" "found = (if b = not_found then no_tkv else convert_to_tkv b)"
    using scanned_scan [OF nn, of k] by (auto simp: scanned_def found_def)
  note ext = best_of_extend [OF assms(1) b(1) assms(4)]
  have m1: "-1 \<le> snd best" using assms(1) by (simp add: best_of_def)
  show "\<exists>best1. (if found \<noteq> no_tkv then newer_tkv (e_cm e) found best else Inr best) = Inr best1 \<and> best_of k (A @ rs) best1"
  proof (cases "b = not_found")
    case True
    then show ?thesis using ext(1) b(2) assms(3) nn by auto
  next
    case False
    then have mem: "b \<in> set rs" using b(1) by (auto simp: newest_def split: if_splits)
    then have ok: "rec_ok e b" using assms(2) by simp
    then have "newer_tkv (e_cm e) found best = Inr (if fr_timestamp b > snd best then (found, fr_timestamp b) else best)"
      using False b(2) by (simp add: newer_tkv_def split_record) (simp add: rec_ok_def)
    moreover have "found \<noteq> no_tkv" using no_tkv_upc [OF b(1) nn] b(2) False by metis
    moreover have "best_of k (A @ rs) (if fr_timestamp b > snd best then (found, fr_timestamp b) else best)"
      using ext(1) ext(2) [of "fr_timestamp b"] False b(2) assms(3) nn ok by (auto simp: rec_ok_def)
    ultimately show ?thesis by simp
  qed
  show "best_of k (A @ rs) (if map upc found = map upc no_tkv then fst best else found, snd best)"
  proof (cases "b = not_found \<or> \<not> fr_timestamp b > snd best")
    case False
    then show ?thesis using ext(2) [of "snd best"] b(2) assms(3) nn m1 no_tkv_upc [OF b(1) nn] by auto
  next
    case True
    show ?thesis
    proof (cases "b = not_found")
      case True
      then show ?thesis using ext(1) b(2) assms(3) nn by auto
    next
      case neq: False
      obtain r where r: "newest k A r" "snd best \<le> fr_timestamp r" using assms(1) by (auto simp: best_of_def)
      have "fr_timestamp b = snd best"
        using r(1) assms(3)
      proof (cases rule: newest_cases)
        case absent
        then show ?thesis using r(2) True neq b(1) nn m1 by (cases rule: newest_cases [OF b(1) nn]) (auto simp: ok_not_found)
      next
        case found
        then have "fr_timestamp r \<le> fr_timestamp b" using assms(4) neq by (cases rule: newest_cases [OF b(1) nn]) auto
        then show ?thesis using True neq r(2) by simp
      qed
      then show ?thesis using ext(2) [of "snd best"] b(2) assms(3) nn m1 neq no_tkv_upc [OF b(1) nn] by auto
    qed
  qed
qed

end

definition archive_rep :: "fs_env \<Rightarrow> disk \<Rightarrow> string \<Rightarrow> string \<Rightarrow> int list \<Rightarrow> fs_record list \<Rightarrow> bool" where
  \<comment> \<open>the file is an archive with the blocks \<open>bs\<close>, and these hold the records \<open>rs\<close>\<close>
  "archive_rep e d table name bs rs \<longleftrightarrow> (\<exists>sz. file_at d table name = Some (archive_bytes bs sz)) \<and> bs \<noteq> [] \<and>
     (\<forall>b \<in> set bs. fits_int b) \<and> length bs < 2 ^ 31 \<and> (\<forall>r \<in> set rs. rec_ok e r) \<and>
     (\<exists>Bs. holds_blocks d bs Bs \<and> blocks_ok (tkv_size e) Bs \<and> glue [] (concat Bs) = map convert_to_tkv rs)"

lemma archive_rep_read: "archive_rep e d table name bs rs \<Longrightarrow> \<exists>p. read_fs_archive d table name = Inr p \<and> par_blocks p = bs"
  unfolding archive_rep_def using read_archive_bytes by blast

context fs_reader
begin

lemma archive_loop_ok:
  assumes "holds_blocks d (b # bs) (ss0 # Bs)" "enters (tkv_size e) index n ss0 ss" "blocks_ok (tkv_size e) (ss # Bs)"
    "glue [] (ss @ concat Bs) = map convert_to_tkv rs" "\<forall>r \<in> set rs. rec_ok e r" "best_of k A best" "\<forall>x \<in> set A. 0 \<le> fr_timestamp x" "ascending (A @ rs)"
  shows "\<exists>tkv ts. archive_loop e d (dec_int k) index n (b # bs) best = Inr tkv \<and> best_of k (A @ rs) (tkv, ts)"
  using assms
proof (induction "length bs" arbitrary: b bs ss0 Bs index n ss A rs best rule: less_induct)
  case less
  have blk: "d_blocks d b = Some (block_bytes ss0)" and hold: "holds_blocks d bs Bs" using less.prems(1) by (simp_all add: holds_blocks_def)
  have oks: "\<forall>s \<in> set ss. string_ok (tkv_size e) s" "\<forall>s \<in> set (butlast ss). \<not> is_cut s" "blocks_ok (tkv_size e) Bs"
    "ss \<noteq> [] \<and> is_cut (last ss) \<longrightarrow> Bs \<noteq> [] \<and> hd Bs \<noteq> []"
    using less.prems(3) by simp_all
  have asc: "\<forall>x \<in> set A. \<forall>y \<in> set rs. fr_key x = fr_key y \<longrightarrow> fr_timestamp x \<le> fr_timestamp y"
    using less.prems(8) by (auto simp: ascending_def sorted_wrt_append)
  from oks(2) show ?case
  proof (cases rule: block_cases)
    case uncut
    have "ss @ glue [] (concat Bs) = map convert_to_tkv rs" using glue_uncut [OF uncut] less.prems(4) by simp
    then obtain rs1 rs2 where rs: "rs = rs1 @ rs2" "ss = map convert_to_tkv rs1" "glue [] (concat Bs) = map convert_to_tkv rs2"
      by (auto simp: append_eq_map_conv)
    note blk' = search_block_uncut [OF blk, of index n rs1 k "fst best"]
    have s: "search_key_in_block e d b (dec_int k) index n (fst best) =
        Inr (\<lparr>tk_tkv = fst (foldl (scan k) (no_tkv, -1) rs1), tk_incomplete = False\<rparr>, fst best)"
      by (rule blk') (use less.prems(2,5) rs in auto)
    obtain best1 where b1: "(if fst (foldl (scan k) (no_tkv, -1) rs1) \<noteq> no_tkv then newer_tkv (e_cm e) (fst (foldl (scan k) (no_tkv, -1) rs1)) best else Inr best) = Inr best1"
        "best_of k (A @ rs1) best1"
      using best_after_block(1) [OF less.prems(6) _ less.prems(7), of rs1] less.prems(5) rs asc by auto
    have loop: "archive_loop e d (dec_int k) index n (b # bs) best = archive_loop e d (dec_int k) False n bs best1"
      using s b1(1) by (auto split: if_splits)
    show ?thesis
    proof (cases bs)
      case Nil
      then have "rs2 = []" using hold rs(3) by (simp add: holds_blocks_def)
      then show ?thesis using loop Nil b1(2) rs by (auto intro: exI [of _ "snd best1"])
    next
      case (Cons b' bs')
      then obtain ss' Bs' where Bs: "Bs = ss' # Bs'" using hold by (auto simp: holds_blocks_def list_all2_Cons1)
      have "\<exists>tkv ts. archive_loop e d (dec_int k) False n (b' # bs') best1 = Inr tkv \<and> best_of k ((A @ rs1) @ rs2) (tkv, ts)"
        by (rule less.hyps) (use Cons hold Bs oks(3) less.prems(5,7,8) rs b1(2) in \<open>auto simp: enters_def rec_ok_def\<close>)
      then show ?thesis using loop Cons rs by simp
    qed
  next
    case (cut ss' x)
    have nx: "Bs \<noteq> []" "hd Bs \<noteq> []" using oks(4) cut by auto
    have "ss' @ glue x (concat Bs) = map convert_to_tkv rs" using glue_uncut [OF cut(2)] cut(1) less.prems(4) by simp
    then obtain rs1 rs2 where rs: "rs = rs1 @ rs2" "ss' = map convert_to_tkv rs1" "glue x (concat Bs) = map convert_to_tkv rs2"
      by (auto simp: append_eq_map_conv)
    have x: "string_ok (tkv_size e) (x @ [cut_mark])" using oks(1) cut by simp
    let ?found = "fst (foldl (scan k) (no_tkv, -1) rs1)"
    let ?best = "(if map upc ?found = map upc no_tkv then fst best else ?found, snd best)"
    have s: "search_key_in_block e d b (dec_int k) index n (fst best) = Inr (\<lparr>tk_tkv = x, tk_incomplete = True\<rparr>, fst ?best)"
      using search_block_cut [OF blk, of index n rs1 x k "fst best"] less.prems(2,5) x cut(1) rs by (simp add: Let_def)
    have b1: "best_of k (A @ rs1) ?best"
      using best_after_block(2) [OF less.prems(6) _ less.prems(7), of rs1] less.prems(5) rs asc by auto
    have short: "\<forall>t \<in> set (glue x (concat Bs)). length t < tkv_size e" using rs less.prems(5) by (auto simp: rec_ok_def)
    obtain u b' rest s ss1 Bs' where c: "continue_tkv e d x bs = Inr (x @ u, Suc (length s), b' # rest)"
      "holds_blocks d (b' # rest) ((s # ss1) # Bs')" "length rest < length bs" "\<not> is_cut s" "blocks_ok (tkv_size e) ((s # ss1) # Bs')"
      "glue x (concat Bs) = (x @ u) # glue [] (ss1 @ concat Bs')"
      using continue_ok [OF hold oks(3) nx short] by auto
    then obtain r rs3 where r: "rs2 = r # rs3" "x @ u = convert_to_tkv r" "glue [] (ss1 @ concat Bs') = map convert_to_tkv rs3"
      using rs(3) by auto
    have ok: "rec_ok e r" using less.prems(5) rs r by simp
    let ?best2 = "scan k ?best r"
    have b2: "best_of k ((A @ rs1) @ [r]) ?best2"
      by (rule best_after_record [OF b1]) (use asc rs r less.prems(5,7,8) in \<open>auto simp: rec_ok_def ascending_def sorted_wrt_append\<close>)
    have loop: "archive_loop e d (dec_int k) index n (b # bs) best = archive_loop e d (dec_int k) True (Suc (length s)) (b' # rest) ?best2"
      unfolding archive_loop.simps(2) [of e d "dec_int k" index n b bs] using s c(1) r(2) split_record [OF ok] ok
      by (simp add: rec_ok_def scan_def [of k "(_, _)"] del: archive_loop.simps)
    have "blocks_ok (tkv_size e) (ss1 # Bs')" using c(5) by (cases ss1) auto
    moreover have "enters (tkv_size e) True (Suc (length s)) (s # ss1) ss1" using c(4,5) by (simp add: enters_def)
    ultimately have "\<exists>tkv ts. archive_loop e d (dec_int k) True (Suc (length s)) (b' # rest) ?best2 = Inr tkv \<and> best_of k (((A @ rs1) @ [r]) @ rs3) (tkv, ts)"
      by (intro less.hyps [OF c(3,2)]) (use less.prems(5,7,8) rs r ok b2 in \<open>auto simp: rec_ok_def\<close>)
    then show ?thesis using loop rs r by simp
  qed
qed

lemma convert_no_tkv: "convert_to_record (e_cm e) no_tkv = Inr not_found"
proof -
  have d: "''-1'' = dec_int (-1)" by code_simp
  then have "string_to_long_long ''-1'' = -1" "string_to_int ''-1'' = -1"
    using strtol_dec_int [of "-1"] by (simp_all add: string_to_long_long_def string_to_int_def string_to_long_def fits_long_def int_cast_fits fits_int_def)
  then show ?thesis by (simp add: convert_to_record_def split_no_tkv not_found_def)
qed

lemma search_archive_newest:
  assumes "archive_rep e d table name bs rs" "ascending rs"
  shows "\<exists>r. search_key_in_fs_archive e d table name k = Inr r \<and> newest k rs r"
proof -
  obtain par where par: "read_fs_archive d table name = Inr par" "par_blocks par = bs" using archive_rep_read [OF assms(1)] by blast
  obtain Bs where Bs: "holds_blocks d bs Bs" "blocks_ok (tkv_size e) Bs" "glue [] (concat Bs) = map convert_to_tkv rs" and ne: "bs \<noteq> []" and ok: "\<forall>r \<in> set rs. rec_ok e r"
    using assms(1) by (auto simp: archive_rep_def)
  obtain b bs' where b: "bs = b # bs'" using ne by (cases bs) auto
  then obtain ss Bs' where ss: "Bs = ss # Bs'" using Bs(1) by (auto simp: holds_blocks_def list_all2_Cons1)
  have "best_of k [] (no_tkv, -1)" by (simp add: best_of_def newest_none ok_not_found)
  then obtain tkv ts where tkv: "archive_loop e d (dec_int k) False 0 (b # bs') (no_tkv, -1) = Inr tkv" "best_of k rs (tkv, ts)"
    using archive_loop_ok [of d b bs' ss Bs' False 0 ss rs k "[]" "(no_tkv, -1)"] Bs ss b ok assms(2) by (auto simp: enters_def)
  then obtain r where r: "newest k rs r" "tkv = (if r = not_found then no_tkv else convert_to_tkv r)" by (auto simp: best_of_def)
  have "r = not_found \<or> rec_ok e r" using r(1) ok by (auto simp: newest_def split: if_splits)
  then have "convert_to_record (e_cm e) tkv = Inr r" using r(2) convert_no_tkv convert_to_record_tkv by auto
  then show ?thesis using r(1) par tkv(1) b by (simp add: search_key_in_fs_archive_def itoa del: archive_loop.simps)
qed

lemma memtable_loop_newest:
  assumes "\<forall>r \<in> set rs. rec_ok e r" "newest k A f" "\<forall>x \<in> set A. 0 \<le> fr_timestamp x"
  shows "\<exists>r. memtable_loop (e_cm e) k (map convert_to_tkv rs) f = Inr r \<and> newest k (A @ rs) r"
  using assms
proof (induction rs arbitrary: A f)
  case (Cons x rs)
  have x: "rec_ok e x" "0 \<le> fr_timestamp x" using Cons.prems(1) by (auto simp: rec_ok_def)
  have m1: "-1 \<le> fr_timestamp f" using Cons.prems(2,3) by (cases rule: newest_cases) (auto simp: ok_not_found)
  let ?f = "if fr_key x = k \<and> fr_timestamp x > fr_timestamp f then x else f"
  have "newest k (A @ [x]) ?f"
    using newest_append [OF Cons.prems(2) newest_one [OF x(2), of k]] Cons.prems(3) x(2) m1 by (auto simp: ok_not_found)
  then obtain r where "memtable_loop (e_cm e) k (map convert_to_tkv rs) ?f = Inr r" "newest k ((A @ [x]) @ rs) r"
    using Cons.IH [of "A @ [x]" ?f] Cons.prems x(2) by auto
  then show ?case using convert_record_tkv [OF x(1)] by simp
qed auto

lemma tmps_loop_newest:
  assumes "\<forall>n \<in> set ns. archive_rep e d table (get_tmp_name n) (bs n) (rs n) \<and> ascending (rs n)" "newest k A f" "\<forall>x \<in> set A. 0 \<le> fr_timestamp x"
  shows "\<exists>r. tmps_loop e table k d ns f = Inr r \<and> newest k (A @ concat (map rs ns)) r"
  using assms
proof (induction ns arbitrary: A f)
  case (Cons n ns)
  obtain r where r: "search_key_in_fs_archive e d table (get_tmp_name n) k = Inr r" "newest k (rs n) r"
    using search_archive_newest [of d table "get_tmp_name n" "bs n" "rs n" k] Cons.prems(1) by auto
  have nn: "\<forall>x \<in> set (rs n). 0 \<le> fr_timestamp x" using Cons.prems(1) by (auto simp: archive_rep_def rec_ok_def)
  let ?f = "if fr_timestamp r > fr_timestamp f then copy_key r else f"
  have "newest k (A @ rs n) ?f"
    using newest_append [OF Cons.prems(2) r(2)] newest_copy [OF r(2) nn] nn Cons.prems(3) by (auto simp: ball_Un)
  then obtain r' where "tmps_loop e table k d ns ?f = Inr r'" "newest k ((A @ rs n) @ concat (map rs ns)) r'"
    using Cons.IH [of "A @ rs n" ?f] Cons.prems nn by auto
  then show ?case using r(1) by simp
qed auto

end

end
