(* ===== verification/FS_Tables.thy ===== *)
theory FS_Tables
  imports FS_Search
begin

text \<open>
  What a table is on the disk and in memory: its metadata, the records of its partitions and temporary files and
  those of the memory table. SELECT is shown to return the newest record of the key among them.
\<close>

section \<open>Tables\<close>

definition parts_ok :: "fs_record list list \<Rightarrow> bool" where
  \<comment> \<open>each key has at most one record, in the partition its remainder names\<close>
  "parts_ok parts \<longleftrightarrow> (\<forall>i < length parts. distinct (map fr_key (parts ! i)) \<and> (\<forall>r \<in> set (parts ! i). fr_key r mod int (length parts) = int i))"

definition table_rep0 :: "fs_env \<Rightarrow> disk \<Rightarrow> string \<Rightarrow> int \<Rightarrow> consistency_t \<Rightarrow> fs_record list list \<Rightarrow> fs_record list list \<Rightarrow> bool" where
  \<comment> \<open>while it is compacted or not\<close>
  "table_rep0 e d table ct c parts tmps \<longleftrightarrow> has_table d table \<and> table \<notin> set dot_entries \<and> (\<forall>n. file_at d table n \<noteq> None \<longrightarrow> fs_name n) \<and>
     read_table_metadata d table = Inr (ct, c, int (length parts)) \<and> parts \<noteq> [] \<and> parts_ok parts \<and>
     (\<forall>i. file_at d table (create_partition_name i) \<noteq> None \<longleftrightarrow> 1 \<le> i \<and> i \<le> int (length parts)) \<and>
     (\<forall>k. file_at d table (get_tmp_name k) \<noteq> None \<longleftrightarrow> 1 \<le> k \<and> k \<le> length tmps) \<and>
     (\<forall>i < length parts. \<exists>bs. archive_rep e d table (create_partition_name (int i + 1)) bs (parts ! i)) \<and>
     (\<forall>i < length tmps. \<exists>bs. archive_rep e d table (get_tmp_name (Suc i)) bs (tmps ! i))"

definition table_rep :: "fs_env \<Rightarrow> disk \<Rightarrow> string \<Rightarrow> int \<Rightarrow> consistency_t \<Rightarrow> fs_record list list \<Rightarrow> fs_record list list \<Rightarrow> bool" where
  "table_rep e d table ct c parts tmps \<longleftrightarrow> has_table d table \<and> table \<notin> set dot_entries \<and> (\<forall>n. file_at d table n \<noteq> None \<longrightarrow> fs_name n) \<and>
     file_at d table get_tmpc_name = None \<and> read_table_metadata d table = Inr (ct, c, int (length parts)) \<and> parts \<noteq> [] \<and> parts_ok parts \<and>
     (\<forall>i. file_at d table (create_partition_name i) \<noteq> None \<longleftrightarrow> 1 \<le> i \<and> i \<le> int (length parts)) \<and>
     (\<forall>k. file_at d table (get_tmp_name k) \<noteq> None \<longleftrightarrow> 1 \<le> k \<and> k \<le> length tmps) \<and>
     (\<forall>i < length parts. \<exists>bs. archive_rep e d table (create_partition_name (int i + 1)) bs (parts ! i)) \<and>
     (\<forall>i < length tmps. \<exists>bs. archive_rep e d table (get_tmp_name (Suc i)) bs (tmps ! i))"

definition mem_rep :: "fs_env \<Rightarrow> fs_state \<Rightarrow> string \<Rightarrow> fs_record list \<Rightarrow> bool" where
  "mem_rep e st table mem \<longleftrightarrow> (\<forall>r \<in> set mem. rec_ok e r) \<and>
     (case search_table_in_memtable e table (f_mem_table st) of None \<Rightarrow> mem = [] | Some t \<Rightarrow> tb_tkvs t = map convert_to_tkv mem)"

definition table_free :: "fs_env \<Rightarrow> string \<Rightarrow> fs_state \<Rightarrow> bool" where
  \<comment> \<open>nobody has the semaphores of the table\<close>
  "table_free e table st \<longleftrightarrow> (case find_in_table_state_list e table st of None \<Rightarrow> True | Some s \<Rightarrow> 0 < ts_is_blocked_mutex s \<and> 0 < ts_select_mutex s)"

lemma table_rep_alt: "table_rep e d table ct c parts tmps \<longleftrightarrow> table_rep0 e d table ct c parts tmps \<and> file_at d table get_tmpc_name = None"
  by (auto simp: table_rep_def table_rep0_def)

section \<open>Semaphores\<close>

lemma update_first_found: "find P xs = Some x \<Longrightarrow> f x = x \<Longrightarrow> update_first P f xs = xs"
  by (induction xs) (auto split: if_splits)

lemma update_first_twice: "(\<And>x. P x \<Longrightarrow> P (f x)) \<Longrightarrow> update_first P g (update_first P f xs) = update_first P (g \<circ> f) xs"
  by (induction xs) auto

lemma update_first_id: "(\<And>x. f x = x) \<Longrightarrow> update_first P f xs = xs"
  by (induction xs) auto

lemma find_changed: "find_in_table_state_list e table (change_state e table f st) = map_option f (find_in_table_state_list e table st)" if "\<And>s. ts_name (f s) = ts_name s"
proof -
  have "find P (update_first P f xs) = map_option f (find P xs)" if "\<And>x. P (f x) = P x" for P xs using that by (induction xs) auto
  then show ?thesis using that by (simp add: find_in_table_state_list_def change_state_def)
qed

lemma change_absent: "find_in_table_state_list e table st = None \<Longrightarrow> change_state e table f st = st"
  by (simp add: find_in_table_state_list_def find_None_iff change_state_def update_first_absent)

lemma is_blocked_post_wait: "is_blocked_wait e table st = Inr st' \<Longrightarrow> is_blocked_post e table st' = st"
proof -
  assume w: "is_blocked_wait e table st = Inr st'"
  show ?thesis
  proof (cases "find_in_table_state_list e table st")
    case None
    then show ?thesis using w by (simp add: is_blocked_wait_def is_blocked_post_def change_absent)
  next
    case (Some s)
    then show ?thesis using w by (auto simp: is_blocked_wait_def is_blocked_post_def change_state_def update_first_twice update_first_id split: if_splits)
  qed
qed

lemma select_post_wait: "select_wait e table st = Inr st' \<Longrightarrow> select_post e table st' = st"
proof -
  assume w: "select_wait e table st = Inr st'"
  show ?thesis
  proof (cases "find_in_table_state_list e table st")
    case None
    then show ?thesis using w by (simp add: select_wait_def select_post_def change_absent)
  next
    case (Some s)
    then show ?thesis using w by (auto simp: select_wait_def select_post_def change_state_def update_first_twice update_first_id split: if_splits)
  qed
qed

lemma pass_block_free: "pass_block e table st = (case find_in_table_state_list e table st of None \<Rightarrow> Inr st | Some s \<Rightarrow> if ts_is_blocked_mutex s \<le> 0 then Inl Blocked else Inr st)"
proof (cases "is_blocked_wait e table st")
  case (Inl x)
  then show ?thesis by (auto simp: pass_block_def is_blocked_wait_def split: option.splits if_splits)
next
  case (Inr st')
  then show ?thesis using is_blocked_post_wait [OF Inr] by (auto simp: pass_block_def is_blocked_wait_def split: option.splits if_splits)
qed

lemma table_free_pass [simp]: "table_free e table st \<Longrightarrow> pass_block e table st = Inr st"
  by (auto simp: pass_block_free table_free_def split: option.splits)

lemma table_free_select:
  assumes "table_free e table st"
  shows "\<exists>st'. select_wait e table st = Inr st' \<and> select_post e table st' = st \<and> pass_block e table st' = Inr st' \<and> f_disk st' = f_disk st \<and> f_mem_table st' = f_mem_table st"
proof (cases "find_in_table_state_list e table st")
  case None
  then have w: "select_wait e table st = Inr st" by (simp add: select_wait_def)
  then show ?thesis using select_post_wait [OF w] assms by simp
next
  case (Some s)
  let ?st = "change_state e table (\<lambda>s. s\<lparr>ts_select_mutex := ts_select_mutex s - 1\<rparr>) st"
  have w: "select_wait e table st = Inr ?st" using Some assms by (simp add: select_wait_def table_free_def)
  have "pass_block e table ?st = Inr ?st" using Some assms by (simp add: pass_block_free find_changed table_free_def)
  then show ?thesis using w select_post_wait [OF w] by (simp add: change_state_def)
qed

section \<open>SELECT\<close>

lemma newest_cong: "{x \<in> set A. fr_key x = k} = {x \<in> set B. fr_key x = k} \<Longrightarrow> newest k A r \<longleftrightarrow> newest k B r"
proof -
  assume "{x \<in> set A. fr_key x = k} = {x \<in> set B. fr_key x = k}"
  then have "\<And>x. fr_key x = k \<Longrightarrow> x \<in> set A \<longleftrightarrow> x \<in> set B" by blast
  then show ?thesis by (auto simp: newest_def)
qed

lemma in_concat_nth: "x \<in> set (concat xss) \<longleftrightarrow> (\<exists>i < length xss. x \<in> set (xss ! i))"
  by (simp add: Bex_def) (metis in_set_conv_nth)

lemma newest_greater:
  assumes "newest k A a" "newest k B b" "\<forall>x \<in> set A \<union> set B. 0 \<le> fr_timestamp x"
  shows "newest k (A @ B) (key_with_greater_timestamp a b)"
  using newest_append [OF assms] by (auto simp: key_with_greater_timestamp_def)

lemma newest_partition:
  assumes "parts_ok parts" "parts \<noteq> []" "0 \<le> k" "newest k (parts ! nat (k mod int (length parts))) r"
  shows "newest k (concat parts) r"
proof -
  let ?i = "nat (k mod int (length parts))"
  have n: "0 < int (length parts)" using assms(2) by simp
  then have i: "?i < length parts" "int ?i = k mod int (length parts)" using pos_mod_bound [OF n] pos_mod_sign [OF n] by (simp_all add: nat_less_iff)
  have "x \<in> set (parts ! ?i)" if x: "x \<in> set (concat parts)" "fr_key x = k" for x
  proof -
    obtain j where "j < length parts" "x \<in> set (parts ! j)" using x(1) unfolding in_concat_nth by blast
    moreover from this have "int j = k mod int (length parts)" using assms(1) x(2) by (auto simp: parts_ok_def)
    then have "j = ?i" by simp
    ultimately show ?thesis by simp
  qed
  moreover have "set (parts ! ?i) \<subseteq> set (concat parts)" using nth_mem [OF i(1)] by auto
  ultimately show ?thesis using assms(4) newest_cong [of "concat parts" k "parts ! ?i"] by blast
qed

lemma parts_ok_ascending: "parts_ok parts \<Longrightarrow> i < length parts \<Longrightarrow> ascending (parts ! i)"
proof -
  assume "parts_ok parts" "i < length parts"
  then have "distinct (map fr_key (parts ! i))" by (simp add: parts_ok_def)
  then have "sorted_wrt (\<lambda>x y. fr_key x \<noteq> fr_key y) (parts ! i)" by (simp add: distinct_map sorted_wrt_iff_nth_less inj_on_def distinct_conv_nth)
  then show ?thesis unfolding ascending_def by (rule sorted_wrt_mono_rel [rotated]) auto
qed

lemma uppercase_exists:
  assumes "\<forall>t \<in> set (map fst (d_tables d)). to_uppercase t = t"
  shows "exist_in_directory name (Some (table_names d)) \<longleftrightarrow> to_uppercase name \<in> set dot_entries \<or> has_table d (to_uppercase name)"
proof -
  have "exist_in_directory name (Some (table_names d)) \<longleftrightarrow> (\<exists>t \<in> set (table_names d). to_uppercase t = to_uppercase name)"
    by (simp add: exist_in_directory_def list_ex_iff)
  moreover have "\<forall>t \<in> set (table_names d). to_uppercase t = t" using assms by (auto simp: table_names_def dot_entries_def upper_consts)
  ultimately have "exist_in_directory name (Some (table_names d)) \<longleftrightarrow> to_uppercase name \<in> set (table_names d)" by force
  then show ?thesis by (simp add: table_names_def has_table_def)
qed

lemma exists_of_table: "has_table d (to_uppercase name) \<Longrightarrow> exist_in_directory name (Some (table_names d))"
  unfolding exist_in_directory_def list_ex_iff table_names_def has_table_def by (auto intro!: bexI [of _ "to_uppercase name"])

lemma table_rep0_tmps: "table_rep0 e d table ct c parts tmps \<Longrightarrow> tmp_numbers d table = [1..<Suc (length tmps)]"
  by (intro tmp_numbers_upto) (auto simp: table_rep0_def dot_entries_def)

lemma table_rep_tmps: "table_rep e d table ct c parts tmps \<Longrightarrow> tmp_numbers d table = [1..<Suc (length tmps)]"
  unfolding table_rep_alt using table_rep0_tmps by blast

definition answer :: "string \<Rightarrow> fs_record \<Rightarrow> record_t" where
  "answer table r = \<lparr>rec_table_name = table, rec_timestamp = fr_timestamp r, rec_key = fr_key r, rec_value = fr_value r\<rparr>"

lemma table_rep_nonneg:
  assumes "table_rep e d table ct c parts tmps"
  shows "\<forall>r \<in> set (concat tmps @ concat parts). rec_ok e r"
proof
  fix r assume "r \<in> set (concat tmps @ concat parts)"
  then consider i where "i < length tmps" "r \<in> set (tmps ! i)" | i where "i < length parts" "r \<in> set (parts ! i)"
    unfolding set_append Un_iff in_concat_nth by blast
  then show "rec_ok e r" using assms by cases (auto simp: table_rep_def archive_rep_def)
qed

context fs_reader
begin

lemma tmps_newest:
  assumes "table_rep e d table ct c parts tmps" "\<forall>t \<in> set tmps. ascending t"
  shows "\<exists>r. search_in_all_tmps e table k d = Inr r \<and> newest k (concat tmps) r"
proof -
  let ?ns = "[1..<Suc (length tmps)]"
  have "\<exists>bs. archive_rep e d table (get_tmp_name n) bs (tmps ! (n - 1))" if n: "n \<in> set ?ns" for n
  proof -
    have "n = Suc (n - 1)" "n - 1 < length tmps" using n unfolding set_upt by auto
    then obtain i where "n = Suc i" "i < length tmps" by blast
    then show ?thesis using assms(1) by (simp add: table_rep_def)
  qed
  then have "\<forall>n \<in> set ?ns. \<exists>bs. archive_rep e d table (get_tmp_name n) bs (tmps ! (n - 1))" by blast
  then obtain bs where bs: "\<forall>n \<in> set ?ns. archive_rep e d table (get_tmp_name n) (bs n) (tmps ! (n - 1))" by (auto simp: bchoice_iff simp del: upt_Suc set_upt)
  have "\<forall>n \<in> set ?ns. ascending (tmps ! (n - 1))" using assms(2) by (auto simp del: upt_Suc)
  then obtain r where r: "tmps_loop e table k d ?ns not_found = Inr r" "newest k ([] @ concat (map (\<lambda>n. tmps ! (n - 1)) ?ns)) r"
    using tmps_loop_newest [of ?ns d table bs "\<lambda>n. tmps ! (n - 1)" k "[]" not_found] bs by (auto simp: newest_none simp del: upt_Suc)
  have "map (\<lambda>n. tmps ! (n - 1)) ?ns = tmps" by (rule nth_equalityI) (simp_all del: upt_Suc)
  then show ?thesis using r table_rep_tmps [OF assms(1)] by (simp add: search_in_all_tmps_def del: upt_Suc)
qed

lemma partition_newest:
  assumes "table_rep e d table ct c parts tmps" "0 \<le> k"
  shows "\<exists>r. search_in_partition e table k d = Inr r \<and> newest k (concat parts) r"
proof -
  have p: "parts \<noteq> []" "parts_ok parts" "read_table_metadata d table = Inr (ct, c, int (length parts))" using assms(1) by (auto simp: table_rep_def)
  let ?i = "nat (k mod int (length parts))"
  have n: "0 < int (length parts)" using p(1) by simp
  then have i: "?i < length parts" "int ?i = k mod int (length parts)" using pos_mod_bound [OF n] pos_mod_sign [OF n] by (simp_all add: nat_less_iff)
  obtain bs where "archive_rep e d table (create_partition_name (int ?i + 1)) bs (parts ! ?i)" using assms(1) i(1) unfolding table_rep_def by blast
  then obtain r where "search_key_in_fs_archive e d table (create_partition_name (int ?i + 1)) k = Inr r" "newest k (parts ! ?i) r"
    using search_archive_newest parts_ok_ascending [OF p(2) i(1)] by blast
  then show ?thesis using p newest_partition [OF p(2,1) assms(2)] n assms(2) i(2) by (auto simp: search_in_partition_def trunc_mod_nonneg)
qed

lemma memtable_newest: "mem_rep e st table mem \<Longrightarrow> \<exists>r. search_key_in_memtable e k table st = Inr r \<and> newest k mem r"
  using memtable_loop_newest [of mem k "[]" not_found]
  by (auto simp: mem_rep_def search_key_in_memtable_def newest_none split: option.splits)

lemma search_key_newest:
  assumes "table_rep e (f_disk st) table ct c parts tmps" "\<forall>t \<in> set tmps. ascending t" "mem_rep e st table mem" "table_free e table st" "0 \<le> k"
  shows "\<exists>r. search_key e table k st = Inr (r, st) \<and> newest k (concat tmps @ mem @ concat parts) r"
proof -
  obtain st1 where st1: "select_wait e table st = Inr st1" "select_post e table st1 = st" "pass_block e table st1 = Inr st1" "f_disk st1 = f_disk st" "f_mem_table st1 = f_mem_table st"
    using table_free_select [OF assms(4)] by blast
  have tmpc: "search_in_tmpc e table k (f_disk st) = Inr not_found"
    using assms(1) exists_tmp(2) [of table "f_disk st"] by (auto simp: search_in_tmpc_def table_rep_def dot_entries_def)
  obtain t where t: "search_in_all_tmps e table k (f_disk st) = Inr t" "newest k (concat tmps) t" using tmps_newest [OF assms(1,2)] by blast
  obtain p where p: "search_in_partition e table k (f_disk st) = Inr p" "newest k (concat parts) p" using partition_newest [OF assms(1,5)] by blast
  have "mem_rep e st1 table mem" using assms(3) st1 by (simp add: mem_rep_def)
  then obtain m where m: "search_key_in_memtable e k table st1 = Inr m" "newest k mem m" using memtable_newest by blast
  have nn: "\<forall>x \<in> set (concat tmps) \<union> set (concat parts) \<union> set mem. 0 \<le> fr_timestamp x"
    using table_rep_nonneg [OF assms(1)] assms(3) by (auto simp: mem_rep_def rec_ok_def)
  have "newest k [] not_found" by (simp add: newest_none)
  from newest_greater [OF t(2) this] have "newest k (concat tmps) (key_with_greater_timestamp t not_found)" using nn by auto
  from newest_greater [OF this m(2)] have "newest k (concat tmps @ mem) (key_with_greater_timestamp (key_with_greater_timestamp t not_found) m)" using nn by auto
  from newest_greater [OF this p(2)]
  have nw: "newest k (concat tmps @ mem @ concat parts) (key_with_greater_timestamp (key_with_greater_timestamp (key_with_greater_timestamp t not_found) m) p)" using nn by auto
  then have "newest_of not_found t p m = key_with_greater_timestamp (key_with_greater_timestamp (key_with_greater_timestamp t not_found) m) p"
    using newest_copy [OF nw] nn by (auto simp: newest_of_def)
  then show ?thesis using nw st1 tmpc t(1) p(1) m(1) by (simp add: search_key_defs)
qed

lemma select_newest:
  assumes "table_rep e (f_disk st) (to_uppercase (sel_table_name input)) ct c parts tmps" "\<forall>t \<in> set tmps. ascending t"
    "mem_rep e st (to_uppercase (sel_table_name input)) mem" "table_free e (to_uppercase (sel_table_name input)) st"
  shows "\<exists>r. process_select e input st = Inr (answer (to_uppercase (sel_table_name input)) r, st) \<and> newest (uint (sel_key input)) (concat tmps @ mem @ concat parts) r"
proof -
  obtain r where r: "search_key e (to_uppercase (sel_table_name input)) (uint (sel_key input)) st = Inr (r, st)" "newest (uint (sel_key input)) (concat tmps @ mem @ concat parts) r"
    using search_key_newest [OF assms(1,2,3,4), of "uint (sel_key input)"] by auto
  have nn: "\<forall>x \<in> set (concat tmps @ mem @ concat parts). 0 \<le> fr_timestamp x"
    using table_rep_nonneg [OF assms(1)] assms(3) by (auto simp: mem_rep_def rec_ok_def)
  have ex: "exist_in_directory (sel_table_name input) (Some (table_names (f_disk st)))" using assms(1) exists_of_table by (auto simp: table_rep_def)
  have "fr_timestamp r = -1 \<Longrightarrow> r = not_found" using newest_timestamp [OF r(2) nn] by simp
  then show ?thesis using r ex assms(4) by (intro exI [of _ r]) (cases "fr_timestamp r = -1"; simp add: process_select_def Let_def answer_def not_found_def)
qed

end

end
