(* ===== verification/FS_Archive.thy ===== *)
theory FS_Archive
  imports FS_Tables
begin

text \<open>
  Writing an archive: what \<open>dump_table\<close> and \<open>create_partition\<close> leave on the disk is an archive with exactly the
  records they were given, in blocks that were free; every other archive is as it was.
\<close>

section \<open>Frame\<close>

lemma archive_rep_frame:
  assumes "archive_rep e d table name bs rs" "file_at d' table name = file_at d table name" "\<And>b. b \<in> set bs \<Longrightarrow> d_blocks d' b = d_blocks d b"
  shows "archive_rep e d' table name bs rs"
  using assms(1,2) holds_blocks_same [of d bs _ d'] assms(3) unfolding archive_rep_def by metis

lemma distinct_bounded_length: "distinct bs \<Longrightarrow> \<forall>b \<in> set bs. 1 \<le> b \<and> b \<le> n \<Longrightarrow> int (length bs) \<le> max 0 n" for bs :: "int list"
proof -
  assume "distinct bs" "\<forall>b \<in> set bs. 1 \<le> b \<and> b \<le> n"
  then have "length bs = card (set bs)" "set bs \<subseteq> {1..n}" by (auto simp: distinct_card)
  then have "length bs \<le> card {1..n}" using card_mono [of "{1..n}" "set bs"] by simp
  then show ?thesis by simp
qed

section \<open>Writing\<close>

definition written :: "fs_env \<Rightarrow> disk \<Rightarrow> string \<Rightarrow> string \<Rightarrow> int list \<Rightarrow> fs_record list \<Rightarrow> disk \<Rightarrow> bool" where
  \<comment> \<open>\<open>d'\<close> is \<open>d\<close> with the records \<open>rs\<close> written to the blocks \<open>bs\<close> and the archive of these under the name\<close>
  "written e d table name bs rs d' \<longleftrightarrow> archive_rep e d' table name bs rs \<and> bitmap_ok d' \<and> bitmap_bits d' = bitmap_bits d \<and> distinct bs \<and>
     (\<forall>b \<in> set bs. \<not> taken e d b) \<and> (\<forall>b. taken e d' b \<longleftrightarrow> taken e d b \<or> b \<in> set bs) \<and> (\<forall>b. b \<notin> set bs \<longrightarrow> d_blocks d' b = d_blocks d b) \<and>
     map fst (d_tables d') = map fst (d_tables d) \<and> (\<forall>t n. (t, n) \<noteq> (table, name) \<longrightarrow> file_at d' t n = file_at d t n)"

lemma take_block_tables: "take_block e d = Inr (b, d') \<Longrightarrow> d_tables d' = d_tables d"
  by (auto simp: take_block_def rbind_Inr_iff split_beta)

lemma next_block_tables: "next_block e w = Inr w' \<Longrightarrow> d_tables (w_disk w') = d_tables (w_disk w)"
  by (auto simp: next_block_def rbind_Inr_iff dest: take_block_tables)

lemma write_cut_tables: "write_cut e s w = Inr w' \<Longrightarrow> d_tables (w_disk w') = d_tables (w_disk w)"
  by (induction rule: write_cut_induct) (auto dest: next_block_tables)

lemma write_tkvs_tables: "write_tkvs e tkvs w = Inr w' \<Longrightarrow> d_tables (w_disk w') = d_tables (w_disk w)"
proof (induction tkvs arbitrary: w)
  case (Cons s tkvs)
  then obtain w1 w2 where w: "(if w_block_size w - int (length s) > 0 then Inr (put_tkv s (w\<lparr>w_block_size := w_block_size w - int (length s)\<rparr>))
      else write_cut e s w) = Inr w1" "(if w_block_size w1 \<le> 1 then next_block e w1 else Inr w1) = Inr w2" "write_tkvs e tkvs w2 = Inr w'"
    by (auto simp: rbind_Inr_iff simp del: if_split)
  have "d_tables (w_disk w1) = d_tables (w_disk w)" using w(1) write_cut_tables by (auto split: if_splits)
  moreover have "d_tables (w_disk w2) = d_tables (w_disk w1)" using w(2) next_block_tables by (auto split: if_splits)
  ultimately show ?case using Cons.IH [OF w(3)] by simp
qed simp

context fs_libs
begin

lemma winv_first:
  assumes "first_block e d = Inr w" "bitmap_ok d" "0 \<notin> set (w_blocks w)"
  shows "winv e d w [[]] [] []"
  using wdisk_first [OF assms] by (simp add: winv_def)

lemma write_archive:
  assumes "first_block e d = Inr w" "write_tkvs e (map convert_to_tkv rs) w = Inr w1" "0 \<notin> set (w_blocks w1)" "bitmap_ok d"
    "2 \<le> e_block_size e" "\<forall>r \<in> set rs. rec_ok e r" "write_file table name (archive_bytes (w_blocks w1) sz) (w_disk w1) = Inr d'"
  shows "written e d table name (w_blocks w1) rs d'"
proof -
  have nz: "0 \<notin> set (w_blocks w)" using write_tkvs_blocks [OF assms(2)] assms(3) by auto
  have sz2: "2 \<le> w_block_size w" using wdisk_first [OF assms(1,4) nz] assms(5) by simp
  have "\<forall>s \<in> set (map convert_to_tkv rs). tkv_ok (tkv_size e) s" using assms(6) rec_ok_tkv by auto
  from winv_tkvs [OF winv_first [OF assms(1,4) nz] assms(5) sz2 this assms(2,3)]
  obtain Bs where w: "winv e d w1 Bs (map convert_to_tkv rs) []" by auto
  then have wd: "bitmap_ok (w_disk w1)" "changes_only e d (w_blocks w1) (w_disk w1)" "holds_blocks (w_disk w1) (w_blocks w1) Bs" "distinct (w_blocks w1)" "w_blocks w1 \<noteq> []"
    and lay: "blocks_ok (tkv_size e) Bs" "glue [] (concat Bs) = map convert_to_tkv rs"
    using lay_ok_blocks glue_gs by (auto simp: winv_def wdisk_def)
  have has: "has_table (w_disk w1) table" and d': "d' = update_dir table (AList.update name (archive_bytes (w_blocks w1) sz)) (w_disk w1)"
    using assms(7) by (auto simp: write_file_eq split: if_splits)
  have bm: "read_bitmap d' = read_bitmap (w_disk w1)" using d' by (simp add: read_bitmap_def)
  obtain m where m: "read_bitmap (w_disk w1) = Inr m" "8 * int (length m) < 2 ^ 31" using wd(1) by (auto simp: bitmap_ok_def)
  have range: "1 \<le> b \<and> b \<le> bitmap_bits (w_disk w1)" if "b \<in> set (w_blocks w1)" for b
    using that wd(2) taken_bits [of e "w_disk w1" b] by (auto simp: changes_only_def)
  have bits: "bitmap_bits (w_disk w1) < 2 ^ 31" using m by (simp add: bitmap_bits_def)
  have fits: "\<forall>b \<in> set (w_blocks w1). fits_int b" using range bits by (fastforce simp: fits_int_def)
  have "int (length (w_blocks w1)) \<le> max 0 (bitmap_bits (w_disk w1))" using distinct_bounded_length [OF wd(4)] range by blast
  then have len: "length (w_blocks w1) < 2 ^ 31" using bits by simp
  have hold: "holds_blocks d' (w_blocks w1) Bs" using wd(3) d' by (simp add: holds_blocks_def)
  have fl: "file_at d' t n = (if t = table \<and> n = name then Some (archive_bytes (w_blocks w1) sz) else file_at (w_disk w1) t n)" for t n
    unfolding d' by (rule file_at_write [OF has])
  have "archive_rep e d' table name (w_blocks w1) rs" unfolding archive_rep_def using fl fits len hold lay wd(5) assms(6) by auto
  moreover have "file_at (w_disk w1) t n = file_at d t n" for t n using wd(2) by (simp add: changes_only_def file_at_def)
  ultimately show ?thesis using wd bm taken_same [OF bm, of e] bits_same [OF bm] fl d' by (auto simp: written_def changes_only_def bitmap_ok_def)
qed

lemma first_block_total: "bitmap_ok d \<Longrightarrow> \<exists>w. first_block e d = Inr w \<and> bitmap_ok (w_disk w) \<and> w_block_size w = e_block_size e \<and> d_tables (w_disk w) = d_tables d"
proof -
  assume ok: "bitmap_ok d"
  then obtain b d' where t: "take_block e d = Inr (b, d')" "bitmap_ok d'" using take_block_total by blast
  moreover have "d_tables d' = d_tables d" using take_block_tables [OF t(1)] .
  ultimately show ?thesis by (simp add: first_block_def)
qed

end

end
