(* ===== verification/FS_Inv.thy ===== *)
theory FS_Inv
  imports FS_Archive
begin

text \<open>
  The invariant of the disk: the marked blocks are exactly those the archives name, each by one archive; the free ones
  are empty; and every directory is a table. It is shown for the writing and the freeing of archives, with a set
  of archives whose blocks have been freed while they are being rewritten.
\<close>

section \<open>The invariant\<close>

definition archive_name :: "string \<Rightarrow> bool" where
  "archive_name n \<longleftrightarrow> (\<exists>k. n = get_tmp_name k) \<or> (\<exists>i. n = create_partition_name i)"

definition blocks_at :: "disk \<Rightarrow> string \<Rightarrow> string \<Rightarrow> int list" where
  "blocks_at d table name = (case file_at d table name of None \<Rightarrow> [] | Some f \<Rightarrow> ints_of (nat (dec_sint (take 4 f))) (drop 4 f))"

definition owned :: "fs_env \<Rightarrow> (string \<times> string) set \<Rightarrow> disk \<Rightarrow> bool" where
  \<comment> \<open>apart from the archives in \<open>S\<close>\<close>
  "owned e S d \<longleftrightarrow>
     (\<forall>b. taken e d b \<longleftrightarrow> (\<exists>t n. archive_name n \<and> (t, n) \<notin> S \<and> b \<in> set (blocks_at d t n))) \<and>
     (\<forall>t n t' n'. archive_name n \<longrightarrow> archive_name n' \<longrightarrow> (t, n) \<notin> S \<longrightarrow> (t', n') \<notin> S \<longrightarrow> (t, n) \<noteq> (t', n') \<longrightarrow>
        set (blocks_at d t n) \<inter> set (blocks_at d t' n') = {})"

definition blocks_exist :: "fs_env \<Rightarrow> disk \<Rightarrow> bool" where
  "blocks_exist e d \<longleftrightarrow> (\<forall>b. 1 \<le> b \<and> b \<le> bitmap_bits d \<longrightarrow> d_blocks d b \<noteq> None \<and> (\<not> taken e d b \<longrightarrow> d_blocks d b = Some []))"

definition tables_ok :: "fs_env \<Rightarrow> disk \<Rightarrow> bool" where
  "tables_ok e d \<longleftrightarrow> distinct (map fst (d_tables d)) \<and>
     (\<forall>t. has_table d t \<longrightarrow> to_uppercase t = t \<and> (\<exists>ct c parts tmps. table_rep e d t ct c parts tmps))"

definition disk_inv :: "fs_env \<Rightarrow> disk \<Rightarrow> bool" where
  "disk_inv e d \<longleftrightarrow> bitmap_ok d \<and> owned e {} d \<and> blocks_exist e d \<and> tables_ok e d"

lemma archive_blocks_at: "archive_rep e d table name bs rs \<Longrightarrow> blocks_at d table name = bs"
proof -
  assume "archive_rep e d table name bs rs"
  then obtain sz where f: "file_at d table name = Some (archive_bytes bs sz)" and ok: "\<forall>b \<in> set bs. fits_int b" "length bs < 2 ^ 31"
    by (auto simp: archive_rep_def)
  have "fits_int (int (length bs))" using ok(2) by (simp add: fits_int_def)
  then show ?thesis using f ints_of_enc [OF ok(1), of "enc_int 4 sz"] by (simp add: blocks_at_def archive_bytes_def)
qed

lemma blocks_at_cong: "file_at d' t n = file_at d t n \<Longrightarrow> blocks_at d' t n = blocks_at d t n"
  by (simp add: blocks_at_def)

lemma archive_names [simp]: "archive_name (get_tmp_name k)" "archive_name (create_partition_name i)" "\<not> archive_name metadata_name" "\<not> archive_name get_tmpc_name"
  by (auto simp: archive_name_def)

section \<open>Frame for tables\<close>

lemma read_metadata_cong: "file_at d' t metadata_name = file_at d t metadata_name \<Longrightarrow> read_table_metadata d' t = read_table_metadata d t"
  by (simp add: read_table_metadata_def read_file_at)

lemma table_rep_frame:
  assumes "table_rep e d t ct c parts tmps" "\<And>n. file_at d' t n = file_at d t n"
    "\<And>n b. archive_name n \<Longrightarrow> b \<in> set (blocks_at d t n) \<Longrightarrow> d_blocks d' b = d_blocks d b" "has_table d' t"
  shows "table_rep e d' t ct c parts tmps"
proof -
  have "archive_rep e d' t n bs rs" if "archive_rep e d t n bs rs" "archive_name n" for n bs rs
    by (rule archive_rep_frame [OF that(1)]) (use assms(2,3) that archive_blocks_at [OF that(1)] in auto)
  then have "\<forall>i < length parts. \<exists>bs. archive_rep e d' t (create_partition_name (int i + 1)) bs (parts ! i)"
    "\<forall>i < length tmps. \<exists>bs. archive_rep e d' t (get_tmp_name (Suc i)) bs (tmps ! i)"
    using assms(1) unfolding table_rep_def by (meson archive_names(1,2))+
  then show ?thesis using assms(1,2,4) read_metadata_cong [of d' t d] by (simp add: table_rep_def)
qed

lemma table_rep0_replace:
  \<comment> \<open>a partition or the next temporary file is written; the others are as they were\<close>
  assumes "table_rep0 e d t ct c parts tmps" "written e d t (get_tmp_name (Suc (length tmps))) bs rs d'"
    "\<And>n b. archive_name n \<Longrightarrow> b \<in> set (blocks_at d t n) \<Longrightarrow> taken e d b"
  shows "table_rep0 e d' t ct c parts (tmps @ [rs])"
proof -
  let ?n = "get_tmp_name (Suc (length tmps))"
  have fl: "file_at d' t n = file_at d t n" if "n \<noteq> ?n" for n using assms(2) that by (auto simp: written_def)
  have new: "archive_rep e d' t ?n bs rs" using assms(2) by (simp add: written_def)
  then have some: "file_at d' t ?n \<noteq> None" by (auto simp: archive_rep_def)
  have fr: "archive_rep e d' t n bs' rs'" if "archive_rep e d t n bs' rs'" "archive_name n" "n \<noteq> ?n" for n bs' rs'
  proof (rule archive_rep_frame [OF that(1) fl [OF that(3)]])
    fix b assume "b \<in> set bs'"
    then have "taken e d b" using assms(3) [OF that(2)] archive_blocks_at [OF that(1)] by simp
    then show "d_blocks d' b = d_blocks d b" using assms(2) by (auto simp: written_def)
  qed
  have has: "has_table d' t" using assms(1,2) by (simp add: table_rep0_def written_def has_table_def del: list.set_map)
  have t: "table_rep0 e d t ct c parts tmps" by (rule assms(1))
  have tm: "file_at d' t (get_tmp_name k) \<noteq> None \<longleftrightarrow> 1 \<le> k \<and> k \<le> Suc (length tmps)" for k
    using t some fl [of "get_tmp_name k"] unfolding table_rep0_def by (cases "k = Suc (length tmps)") auto
  have "\<exists>bs. archive_rep e d' t (get_tmp_name (Suc i)) bs ((tmps @ [rs]) ! i)" if i: "i < Suc (length tmps)" for i
  proof (cases "i = length tmps")
    case False
    then have "\<exists>bs. archive_rep e d t (get_tmp_name (Suc i)) bs (tmps ! i)" using t i unfolding table_rep0_def by simp
    then show ?thesis using fr False i by (fastforce simp: nth_append)
  qed (use new in auto)
  moreover have "\<exists>bs. archive_rep e d' t (create_partition_name (int i + 1)) bs (parts ! i)" if i: "i < length parts" for i
    using t i fr unfolding table_rep0_def by (metis archive_names(2) names_neq(3))
  moreover have "fs_name n" if "file_at d' t n \<noteq> None" for n
    using that fl [of n] t unfolding table_rep0_def by (cases "n = ?n") (auto simp: fs_name_def)
  ultimately show ?thesis using t has tm fl read_metadata_cong [of d' t d] by (simp add: table_rep0_def)
qed

lemma table_rep_replace:
  assumes "table_rep e d t ct c parts tmps" "written e d t (get_tmp_name (Suc (length tmps))) bs rs d'"
    "\<And>n b. archive_name n \<Longrightarrow> b \<in> set (blocks_at d t n) \<Longrightarrow> taken e d b"
  shows "table_rep e d' t ct c parts (tmps @ [rs])"
proof -
  have "file_at d' t get_tmpc_name = file_at d t get_tmpc_name" using assms(2) names_neq by (simp add: written_def)
  then show ?thesis using table_rep0_replace [OF _ assms(2,3)] assms(1) by (simp add: table_rep_alt)
qed

section \<open>Ownership\<close>

lemma owned_absent:
  assumes "owned e S d" "blocks_at d t n = []"
  shows "owned e (insert (t, n) S) d"
proof -
  have "(t', n') \<notin> S \<and> b \<in> set (blocks_at d t' n') \<longleftrightarrow> (t', n') \<notin> insert (t, n) S \<and> b \<in> set (blocks_at d t' n')" for t' n' b using assms(2) by auto
  moreover have "\<And>b. taken e d b \<longleftrightarrow> (\<exists>t n. archive_name n \<and> (t, n) \<notin> S \<and> b \<in> set (blocks_at d t n))" using assms(1) by (simp add: owned_def)
  ultimately have "\<And>b. taken e d b \<longleftrightarrow> (\<exists>t' n'. archive_name n' \<and> (t', n') \<notin> insert (t, n) S \<and> b \<in> set (blocks_at d t' n'))" by simp
  then show ?thesis using assms(1) by (simp add: owned_def)
qed

lemma written_owned:
  assumes "owned e S d" "written e d table name bs rs d'" "(table, name) \<in> S" "archive_name name"
  shows "owned e (S - {(table, name)}) d'"
proof -
  have same: "blocks_at d' t n = blocks_at d t n" if "(t, n) \<noteq> (table, name)" for t n
    using assms(2) that by (intro blocks_at_cong) (simp add: written_def)
  have new: "blocks_at d' table name = bs" using assms(2) archive_blocks_at by (auto simp: written_def)
  have w: "\<forall>b \<in> set bs. \<not> taken e d b" "\<forall>b. taken e d' b \<longleftrightarrow> taken e d b \<or> b \<in> set bs" using assms(2) by (auto simp: written_def)
  have o: "\<And>b. taken e d b \<longleftrightarrow> (\<exists>t n. archive_name n \<and> (t, n) \<notin> S \<and> b \<in> set (blocks_at d t n))"
    "\<And>t n t' n'. archive_name n \<Longrightarrow> archive_name n' \<Longrightarrow> (t, n) \<notin> S \<Longrightarrow> (t', n') \<notin> S \<Longrightarrow> (t, n) \<noteq> (t', n') \<Longrightarrow> set (blocks_at d t n) \<inter> set (blocks_at d t' n') = {}"
    using assms(1) unfolding owned_def by blast+
  have "set (blocks_at d t n) \<inter> set bs = {}" if "archive_name n" "(t, n) \<notin> S" for t n using that w(1) o(1) by blast
  then have "set (blocks_at d' t n) \<inter> set (blocks_at d' t' n') = {}"
    if "archive_name n" "archive_name n'" "(t, n) \<notin> S - {(table, name)}" "(t', n') \<notin> S - {(table, name)}" "(t, n) \<noteq> (t', n')" for t n t' n'
    using that same new o(2) [of n n' t t'] by (cases "(t, n) = (table, name)"; cases "(t', n') = (table, name)") (auto simp: Int_commute)
  moreover have "taken e d' b \<longleftrightarrow> (\<exists>t n. archive_name n \<and> (t, n) \<notin> S - {(table, name)} \<and> b \<in> set (blocks_at d' t n))" for b
  proof
    assume "taken e d' b"
    then consider "b \<in> set bs" | t n where "archive_name n" "(t, n) \<notin> S" "b \<in> set (blocks_at d t n)" using w(2) o(1) by blast
    then show "\<exists>t n. archive_name n \<and> (t, n) \<notin> S - {(table, name)} \<and> b \<in> set (blocks_at d' t n)"
    proof cases
      case 2
      then have "(t, n) \<noteq> (table, name)" using assms(3) by blast
      then show ?thesis using 2 same by (intro exI [of _ t] exI [of _ n]) simp
    qed (use new assms(4) in blast)
  next
    assume "\<exists>t n. archive_name n \<and> (t, n) \<notin> S - {(table, name)} \<and> b \<in> set (blocks_at d' t n)"
    then obtain t n where tn: "archive_name n" "(t, n) \<notin> S - {(table, name)}" "b \<in> set (blocks_at d' t n)" by blast
    then show "taken e d' b" using w(2) o(1) same [of t n] new by (cases "(t, n) = (table, name)") auto
  qed
  ultimately show ?thesis unfolding owned_def by blast
qed

lemma archive_rep_blocks: "archive_rep e d table name bs rs \<Longrightarrow> b \<in> set bs \<Longrightarrow> d_blocks d b \<noteq> None"
  by (force simp: archive_rep_def holds_blocks_def list_all2_conv_all_nth in_set_conv_nth)

lemma written_blocks_exist:
  assumes "blocks_exist e d" "written e d table name bs rs d'"
  shows "blocks_exist e d'"
  unfolding blocks_exist_def
proof (intro allI impI)
  fix b assume b: "1 \<le> b \<and> b \<le> bitmap_bits d'"
  show "d_blocks d' b \<noteq> None \<and> (\<not> taken e d' b \<longrightarrow> d_blocks d' b = Some [])"
    using b assms archive_rep_blocks [of e d' table name bs rs b] by (cases "b \<in> set bs") (auto simp: written_def blocks_exist_def)
qed

end
