(* ===== verification/FS_Space.thy ===== *)
theory FS_Space
  imports FS_Inv
begin

text \<open>
  Room for an archive: how many blocks writing takes at most, and that with so many free ones the writing ends and
  never falls back to block 0.
\<close>

section \<open>Free blocks\<close>

definition free_set :: "fs_env \<Rightarrow> disk \<Rightarrow> int set" where
  "free_set e d = {b. 1 \<le> b \<and> b \<le> bitmap_bits d \<and> \<not> taken e d b}"

definition free_count :: "fs_env \<Rightarrow> disk \<Rightarrow> nat" where
  "free_count e d = card (free_set e d)"

definition tkvs_cost :: "string list \<Rightarrow> nat" where
  \<comment> \<open>every part of a record has at least one of its characters, and a new block may follow the record\<close>
  "tkvs_cost tkvs = sum_list (map (\<lambda>s. Suc (length s)) tkvs)"

lemma finite_free_set [simp]: "finite (free_set e d)"
  by (rule finite_subset [of _ "{1..bitmap_bits d}"]) (auto simp: free_set_def)

lemma free_count_same: "read_bitmap d' = read_bitmap d \<Longrightarrow> free_count e d' = free_count e d"
  using taken_same [of d' d e] bits_same [of d' d] by (simp add: free_count_def free_set_def)

lemma free_count_taken:
  assumes "bitmap_bits d' = bitmap_bits d" "\<And>b. taken e d' b \<longleftrightarrow> taken e d b \<or> b \<in> set bs" "\<forall>b \<in> set bs. \<not> taken e d b" "distinct bs"
  shows "free_count e d = free_count e d' + length bs"
proof -
  have "b \<in> free_set e d" if "b \<in> set bs" for b using that assms(1-3) taken_bits [of e d' b] by (auto simp: free_set_def)
  then have "free_set e d = free_set e d' \<union> set bs" "free_set e d' \<inter> set bs = {}" using assms(1,2) by (auto simp: free_set_def)
  then show ?thesis using assms(4) by (simp add: free_count_def card_Un_disjoint distinct_card)
qed

context fs_libs
begin

lemma take_block_free:
  assumes "bitmap_ok d" "0 < free_count e d"
  shows "\<exists>b d'. take_block e d = Inr (b, d') \<and> b \<noteq> 0 \<and> bitmap_ok d' \<and> free_count e d = Suc (free_count e d')"
proof -
  obtain b d' where t: "take_block e d = Inr (b, d')" "bitmap_ok d'" using take_block_total [OF assms(1)] by blast
  obtain bm where bm: "read_bitmap d = Inr bm" using assms(1) by (auto simp: bitmap_ok_def)
  obtain c where c: "c \<in> free_set e d" using assms(2) by (auto simp: free_count_def card_gt_0_iff)
  have nz: "b \<noteq> 0"
  proof (cases rule: find_free_block_cases [of bm])
    case none
    then have "taken e d c" using c by (auto simp: taken_bitmap [OF bm] free_set_def bitmap_bits_def bm)
    then show ?thesis using c by (simp add: free_set_def)
  next
    case (found i)
    then show ?thesis using t(1) bm by (auto simp: take_block_def)
  qed
  note ok = take_block_ok [OF t(1) assms(1) nz]
  have "free_count e d = free_count e d' + length [b]" by (rule free_count_taken) (use ok in auto)
  then show ?thesis using t nz by auto
qed

lemma next_block_free:
  assumes "bitmap_ok (w_disk w)" "0 < free_count e (w_disk w)"
  shows "\<exists>w' b. next_block e w = Inr w' \<and> b \<noteq> 0 \<and> w_blocks w' = w_blocks w @ [b] \<and> bitmap_ok (w_disk w') \<and> w_block_size w' = e_block_size e \<and>
    free_count e (w_disk w) = Suc (free_count e (w_disk w'))"
  using take_block_free [OF assms] by (auto simp: next_block_def)

lemma free_count_put [simp]: "free_count e (write_tkv b s d) = free_count e d"
  by (rule free_count_same) simp

lemma bitmap_ok_put [simp]: "bitmap_ok (write_tkv b s d) = bitmap_ok d"
  by (simp add: bitmap_ok_def)

lemma write_cut_space:
  assumes "bitmap_ok (w_disk w)" "2 \<le> e_block_size e" "2 \<le> w_block_size w" "0 \<notin> set (w_blocks w)" "length s + m \<le> free_count e (w_disk w)"
  shows "\<exists>w'. write_cut e s w = Inr w' \<and> bitmap_ok (w_disk w') \<and> 0 \<notin> set (w_blocks w') \<and> m \<le> free_count e (w_disk w')"
  using assms
proof (induction "length s" arbitrary: s w rule: less_induct)
  case less
  show ?case
  proof (cases "w_block_size w - int (length s) \<ge> 0")
    case True
    then show ?thesis using less.prems by (simp add: write_cut_fits)
  next
    case False
    let ?c = "nat (w_block_size w - 1)"
    let ?w = "put_tkv (string_append (e_cm e) (string_substring_until (e_cm e) s ?c) [CHR 0x0A]) w"
    have short: "length (drop ?c s) < length s" using False less.prems(3) by simp
    then have "0 < free_count e (w_disk ?w)" using less.prems(5) by simp
    then obtain w1 b where w1: "next_block e ?w = Inr w1" "b \<noteq> 0" "w_blocks w1 = w_blocks ?w @ [b]" "bitmap_ok (w_disk w1)" "w_block_size w1 = e_block_size e"
      "free_count e (w_disk ?w) = Suc (free_count e (w_disk w1))"
      using next_block_free [of ?w] less.prems(1) by auto
    have "length (drop ?c s) + m \<le> free_count e (w_disk w1)" using w1(6) less.prems(5) short by simp
    then obtain w' where "write_cut e (drop ?c s) w1 = Inr w'" "bitmap_ok (w_disk w')" "0 \<notin> set (w_blocks w')" "m \<le> free_count e (w_disk w')"
      using less.hyps [OF short, of w1] w1 less.prems(2,4) by auto
    then show ?thesis using False less.prems(3) w1(1) by (simp add: write_cut_cuts)
  qed
qed

lemma write_tkvs_space:
  assumes "bitmap_ok (w_disk w)" "2 \<le> e_block_size e" "2 \<le> w_block_size w" "0 \<notin> set (w_blocks w)" "tkvs_cost tkvs + m \<le> free_count e (w_disk w)"
  shows "\<exists>w'. write_tkvs e tkvs w = Inr w' \<and> bitmap_ok (w_disk w') \<and> 0 \<notin> set (w_blocks w') \<and> m \<le> free_count e (w_disk w')"
  using assms
proof (induction tkvs arbitrary: w)
  case Nil
  then show ?case by (simp add: tkvs_cost_def)
next
  case (Cons s tkvs)
  have cost: "length s + (Suc (tkvs_cost tkvs) + m) \<le> free_count e (w_disk w)" using Cons.prems(5) by (simp add: tkvs_cost_def)
  obtain w1 where w1: "(if w_block_size w - int (length s) > 0 then Inr (put_tkv s (w\<lparr>w_block_size := w_block_size w - int (length s)\<rparr>))
      else write_cut e s w) = Inr w1" "bitmap_ok (w_disk w1)" "0 \<notin> set (w_blocks w1)" "Suc (tkvs_cost tkvs) + m \<le> free_count e (w_disk w1)"
    using write_cut_space [OF Cons.prems(1-4) cost] Cons.prems(1,4) cost by (cases "w_block_size w - int (length s) > 0") auto
  obtain w2 where w2: "(if w_block_size w1 \<le> 1 then next_block e w1 else Inr w1) = Inr w2" "bitmap_ok (w_disk w2)" "2 \<le> w_block_size w2" "0 \<notin> set (w_blocks w2)"
    "tkvs_cost tkvs + m \<le> free_count e (w_disk w2)"
    using next_block_free [OF w1(2)] w1(2-4) Cons.prems(2) by (cases "w_block_size w1 \<le> 1") auto
  obtain w' where "write_tkvs e tkvs w2 = Inr w'" "bitmap_ok (w_disk w')" "0 \<notin> set (w_blocks w')" "m \<le> free_count e (w_disk w')"
    using Cons.IH [OF w2(2) Cons.prems(2) w2(3,4,5)] by blast
  then show ?case using w1(1) w2(1) by (simp del: if_split)
qed

end

definition archive_cost :: "fs_record list \<Rightarrow> nat" where
  "archive_cost rs = Suc (tkvs_cost (map convert_to_tkv rs))"

context fs_libs
begin

lemma archive_fits:
  assumes "bitmap_ok d" "2 \<le> e_block_size e" "\<forall>r \<in> set rs. rec_ok e r" "has_table d table" "archive_cost rs + m \<le> free_count e d"
  shows "\<exists>w w1 sz. first_block e d = Inr w \<and> write_tkvs e (map convert_to_tkv rs) w = Inr w1 \<and> size_of_all_tkvs e (map convert_to_tkv rs) = Inr sz \<and>
    d_tables (w_disk w1) = d_tables d \<and>
    (\<forall>name. \<exists>d'. write_file table name (archive_bytes (w_blocks w1) sz) (w_disk w1) = Inr d' \<and> written e d table name (w_blocks w1) rs d' \<and> m \<le> free_count e d')"
proof -
  have "0 < free_count e d" using assms(5) by (simp add: archive_cost_def)
  then obtain b d0 where b: "take_block e d = Inr (b, d0)" "b \<noteq> 0" "bitmap_ok d0" "free_count e d = Suc (free_count e d0)" using take_block_free [OF assms(1)] by blast
  let ?w = "\<lparr>w_disk = d0, w_blocks = [b], w_block = b, w_block_size = e_block_size e\<rparr>"
  have w: "first_block e d = Inr ?w" using b by (simp add: first_block_def)
  have "tkvs_cost (map convert_to_tkv rs) + m \<le> free_count e d0" using assms(5) b(4) by (simp add: archive_cost_def)
  then obtain w1 where w1: "write_tkvs e (map convert_to_tkv rs) ?w = Inr w1" "0 \<notin> set (w_blocks w1)" "m \<le> free_count e (w_disk w1)"
    using write_tkvs_space [of ?w "map convert_to_tkv rs" m] b assms(2) by auto
  obtain sz where sz: "size_of_all_tkvs e (map convert_to_tkv rs) = Inr sz" using size_of_all_tkvs_total [OF assms(2)] by blast
  have tab: "d_tables (w_disk w1) = d_tables d" using write_tkvs_tables [OF w1(1)] take_block_tables [OF b(1)] by simp
  have "\<exists>d'. write_file table name (archive_bytes (w_blocks w1) sz) (w_disk w1) = Inr d' \<and> written e d table name (w_blocks w1) rs d' \<and> m \<le> free_count e d'" for name
  proof -
    have "has_table (w_disk w1) table" using assms(4) tab by (simp add: has_table_def)
    then obtain d' where d': "write_file table name (archive_bytes (w_blocks w1) sz) (w_disk w1) = Inr d'" "read_bitmap d' = read_bitmap (w_disk w1)"
      by (simp add: write_file_eq read_bitmap_def)
    then show ?thesis using write_archive [OF w w1(1,2) assms(1,2,3) d'(1)] free_count_same [OF d'(2)] w1(3) by auto
  qed
  then show ?thesis using w w1(1) sz tab by blast
qed

end

end
