(* ===== verification/FS_Dump.thy ===== *)
theory FS_Dump
  imports FS_Space
begin

text \<open>
  INSERT and the dump: the memory table holds the records of the inserts, and a dump moves them to a new temporary
  file of each table without losing or changing any.
\<close>

section \<open>The memory table\<close>

definition mem_inv :: "fs_env \<Rightarrow> table_t list \<Rightarrow> bool" where
  "mem_inv e l \<longleftrightarrow> distinct (map tb_name l) \<and>
     (\<forall>tb \<in> set l. to_uppercase (tb_name tb) = tb_name tb \<and> (\<exists>rs. tb_tkvs tb = map convert_to_tkv rs \<and> (\<forall>r \<in> set rs. rec_ok e r)))"

definition mem_cost :: "table_t list \<Rightarrow> nat" where
  "mem_cost l = sum_list (map (\<lambda>tb. Suc (tkvs_cost (tb_tkvs tb))) l)"

lemma tmp_numbers_cong: "d_tables d' = d_tables d \<Longrightarrow> tmp_numbers d' table = tmp_numbers d table"
  by (simp add: tmp_numbers_def table_entries_def table_names_def)

context commons_api
begin

lemma equals_upper: "to_uppercase s = s \<Longrightarrow> to_uppercase t = t \<Longrightarrow> string_equals_ignore_case cm s t \<longleftrightarrow> s = t"
  by (simp add: equals_ignore_case to_uppercase_def)

end

section \<open>Dumping one table\<close>

lemma written_other_tables:
  assumes "owned e S d" "written e d table name bs rs d'" "table_rep e d t ct c parts tmps" "t \<noteq> table" "\<And>n. (t, n) \<notin> S"
  shows "table_rep e d' t ct c parts tmps"
proof (rule table_rep_frame [OF assms(3)])
  show "file_at d' t n = file_at d t n" for n using assms(2,4) by (simp add: written_def)
  show "has_table d' t" using assms(2,3) by (simp add: written_def table_rep_def has_table_def del: list.set_map)
  fix n b assume "archive_name n" "b \<in> set (blocks_at d t n)"
  then have "taken e d b" using assms(1,5) by (auto simp: owned_def)
  then show "d_blocks d' b = d_blocks d b" using assms(2) by (auto simp: written_def)
qed

lemma tables_okI:
  assumes "tables_ok e d" "map fst (d_tables d') = map fst (d_tables d)" "\<And>t. has_table d t \<Longrightarrow> \<exists>ct c parts tmps. table_rep e d' t ct c parts tmps"
  shows "tables_ok e d'"
proof -
  have "has_table d' t = has_table d t" for t unfolding has_table_def assms(2) ..
  then show ?thesis using assms by (simp add: tables_ok_def)
qed

context fs_libs
begin

lemma dump_table_rep0:
  assumes i: "bitmap_ok d" "owned e {} d" "blocks_exist e d" and bs: "2 \<le> e_block_size e" and rep: "table_rep0 e d (tb_name tb) ct c parts tmps" and ok: "\<forall>r \<in> set rs. rec_ok e r"
    and tb: "tb_tkvs tb = map convert_to_tkv rs" "to_uppercase (tb_name tb) = tb_name tb" and room: "archive_cost rs + m \<le> free_count e d"
  shows "\<exists>d' bs. dump_table e tb d = Inr d' \<and> written e d (tb_name tb) (get_tmp_name (Suc (length tmps))) bs rs d' \<and> owned e {} d' \<and> blocks_exist e d' \<and>
    table_rep0 e d' (tb_name tb) ct c parts (tmps @ [rs]) \<and> m \<le> free_count e d'"
proof -
  let ?t = "tb_name tb" and ?n = "get_tmp_name (Suc (length tmps))"
  have has: "has_table d ?t" using rep by (simp add: table_rep0_def)
  obtain w w1 sz where w: "first_block e d = Inr w" "write_tkvs e (map convert_to_tkv rs) w = Inr w1" "size_of_all_tkvs e (map convert_to_tkv rs) = Inr sz"
    "d_tables (w_disk w1) = d_tables d" "\<exists>d'. write_file ?t ?n (archive_bytes (w_blocks w1) sz) (w_disk w1) = Inr d' \<and> written e d ?t ?n (w_blocks w1) rs d' \<and> m \<le> free_count e d'"
    using archive_fits [OF i(1) bs ok has room] by blast
  then obtain d' where d': "write_file ?t ?n (archive_bytes (w_blocks w1) sz) (w_disk w1) = Inr d'" "written e d ?t ?n (w_blocks w1) rs d'" "m \<le> free_count e d'" by blast
  have "length (tmp_numbers (w_disk w1) ?t) = length tmps" using tmp_numbers_cong [OF w(4)] table_rep0_tmps [OF rep] by (simp del: upt_Suc)
  then have dump: "dump_table e tb d = Inr d'" using w d'(1) tb by (simp add: dump_table_def create_fs_archive_def Let_def)
  have "file_at d ?t ?n = None" using rep unfolding table_rep0_def by (metis Suc_n_not_le_n)
  then have absent: "blocks_at d ?t ?n = []" by (simp add: blocks_at_def)
  have own: "owned e {} d'" using written_owned [OF owned_absent [OF i(2) absent] d'(2)] by simp
  have new: "table_rep0 e d' ?t ct c parts (tmps @ [rs])" by (rule table_rep0_replace [OF rep d'(2)]) (use i(2) in \<open>auto simp: owned_def\<close>)
  show ?thesis using dump d' own new written_blocks_exist [OF i(3) d'(2)] by blast
qed

lemma dump_table_ok:
  assumes inv: "disk_inv e d" and bs: "2 \<le> e_block_size e" and rep: "table_rep e d (tb_name tb) ct c parts tmps" and ok: "\<forall>r \<in> set rs. rec_ok e r"
    and tb: "tb_tkvs tb = map convert_to_tkv rs" "to_uppercase (tb_name tb) = tb_name tb" and room: "archive_cost rs + m \<le> free_count e d"
  shows "\<exists>d'. dump_table e tb d = Inr d' \<and> disk_inv e d' \<and> table_rep e d' (tb_name tb) ct c parts (tmps @ [rs]) \<and> m \<le> free_count e d' \<and>
    (\<forall>t ct c parts tmps. t \<noteq> tb_name tb \<longrightarrow> table_rep e d t ct c parts tmps \<longrightarrow> table_rep e d' t ct c parts tmps) \<and> map fst (d_tables d') = map fst (d_tables d)"
proof -
  let ?t = "tb_name tb"
  have i: "bitmap_ok d" "owned e {} d" "blocks_exist e d" "tables_ok e d" using inv by (auto simp: disk_inv_def)
  have rep0: "table_rep0 e d ?t ct c parts tmps" using rep by (simp add: table_rep_alt)
  obtain d' bl where d': "dump_table e tb d = Inr d'" "written e d ?t (get_tmp_name (Suc (length tmps))) bl rs d'" "owned e {} d'" "blocks_exist e d'" "m \<le> free_count e d'"
    using dump_table_rep0 [OF i(1-3) bs rep0 ok tb room] by blast
  have new: "table_rep e d' ?t ct c parts (tmps @ [rs])" by (rule table_rep_replace [OF rep d'(2)]) (use i(2) in \<open>auto simp: owned_def\<close>)
  have others: "table_rep e d' t ct c parts tmps" if "t \<noteq> ?t" "table_rep e d t ct c parts tmps" for t ct c parts tmps
    using written_other_tables [OF i(2) d'(2) that(2,1)] by simp
  have names: "map fst (d_tables d') = map fst (d_tables d)" using d'(2) by (simp add: written_def)
  have "tables_ok e d'"
  proof (rule tables_okI [OF i(4) names])
    fix t assume "has_table d t"
    then show "\<exists>ct c parts tmps. table_rep e d' t ct c parts tmps" using i(4) new others by (cases "t = ?t") (auto simp: tables_ok_def, blast)
  qed
  then have "disk_inv e d'" using d'(2-4) by (simp add: disk_inv_def written_def)
  then show ?thesis using d'(1,5) new others names by blast
qed

lemma dump_tables_ok:
  assumes "disk_inv e d" "2 \<le> e_block_size e" "distinct (map tb_name l)" "mem_cost l \<le> free_count e d"
    "\<forall>tb \<in> set l. has_table d (tb_name tb) \<and> to_uppercase (tb_name tb) = tb_name tb \<and> tb_tkvs tb = map convert_to_tkv (R tb) \<and> (\<forall>r \<in> set (R tb). rec_ok e r)"
  shows "\<exists>d'. dump_tables e l d = Inr d' \<and> disk_inv e d' \<and> map fst (d_tables d') = map fst (d_tables d) \<and>
    (\<forall>t ct c parts tmps. table_rep e d t ct c parts tmps \<longrightarrow>
       table_rep e d' t ct c parts (tmps @ (case find (\<lambda>tb. tb_name tb = t) l of None \<Rightarrow> [] | Some tb \<Rightarrow> [R tb])))"
  using assms
proof (induction l arbitrary: d)
  case (Cons tb l)
  have inv: "disk_inv e d" by (rule Cons.prems)
  have tb: "has_table d (tb_name tb)" "to_uppercase (tb_name tb) = tb_name tb" "tb_tkvs tb = map convert_to_tkv (R tb)" "\<forall>r \<in> set (R tb). rec_ok e r" using Cons.prems(5) by auto
  obtain ct c parts tmps where rep: "table_rep e d (tb_name tb) ct c parts tmps" using inv tb(1) by (auto simp: disk_inv_def tables_ok_def)
  have room: "archive_cost (R tb) + mem_cost l \<le> free_count e d" using Cons.prems(4) tb(3) by (simp add: mem_cost_def archive_cost_def)
  obtain d1 where d1: "dump_table e tb d = Inr d1" "disk_inv e d1" "table_rep e d1 (tb_name tb) ct c parts (tmps @ [R tb])" "mem_cost l \<le> free_count e d1"
    "\<forall>t ct c parts tmps. t \<noteq> tb_name tb \<longrightarrow> table_rep e d t ct c parts tmps \<longrightarrow> table_rep e d1 t ct c parts tmps" "map fst (d_tables d1) = map fst (d_tables d)"
    using dump_table_ok [OF inv Cons.prems(2) rep tb(4,3,2) room] by blast
  have names: "has_table d1 t = has_table d t" for t unfolding has_table_def d1(6) ..
  obtain d' where d': "dump_tables e l d1 = Inr d'" "disk_inv e d'" "map fst (d_tables d') = map fst (d_tables d1)"
    "\<forall>t ct c parts tmps. table_rep e d1 t ct c parts tmps \<longrightarrow>
       table_rep e d' t ct c parts (tmps @ (case find (\<lambda>tb. tb_name tb = t) l of None \<Rightarrow> [] | Some tb \<Rightarrow> [R tb]))"
    using Cons.IH [OF d1(2) Cons.prems(2) _ d1(4)] Cons.prems(3,5) names by auto
  have self: "find (\<lambda>tb'. tb_name tb' = tb_name tb) l = None" using Cons.prems(3) by (simp add: find_key_None)
  have "table_rep e d' t ct' c' parts' (tmps' @ (case find (\<lambda>tb. tb_name tb = t) (tb # l) of None \<Rightarrow> [] | Some tb \<Rightarrow> [R tb]))"
    if t: "table_rep e d t ct' c' parts' tmps'" for t ct' c' parts' tmps'
  proof (cases "t = tb_name tb")
    case True
    have "\<exists>d1'. dump_table e tb d = Inr d1' \<and> table_rep e d1' (tb_name tb) ct' c' parts' (tmps' @ [R tb])"
      using dump_table_ok [OF inv Cons.prems(2) _ tb(4,3,2) room] t True by blast
    then have "table_rep e d1 t ct' c' parts' (tmps' @ [R tb])" using d1(1) True by simp
    then show ?thesis using d'(4) self True by fastforce
  next
    case False
    then have "table_rep e d1 t ct' c' parts' tmps'" using d1(5) t by blast
    then show ?thesis using d'(4) False by simp
  qed
  then show ?case using d1(1,6) d' by simp
qed (auto simp: mem_cost_def)

end

section \<open>The state\<close>

definition fs_inv :: "fs_env \<Rightarrow> fs_state \<Rightarrow> bool" where
  \<comment> \<open>between two operations\<close>
  "fs_inv e st \<longleftrightarrow> disk_inv e (f_disk st) \<and> mem_inv e (f_mem_table st) \<and>
     (\<forall>s \<in> set (f_table_state_list st). ts_is_blocked_mutex s = 1 \<and> ts_select_mutex s = 1 \<and>
        (ts_live_status_mutex s = 1 \<or> ts_live_status_mutex s = 0 \<and> ts_name s = dropped_name))"

definition mem_of :: "fs_state \<Rightarrow> string \<Rightarrow> string list" where
  "mem_of st table = (case find (\<lambda>tb. tb_name tb = table) (f_mem_table st) of None \<Rightarrow> [] | Some tb \<Rightarrow> tb_tkvs tb)"

lemma fs_inv_free: "fs_inv e st \<Longrightarrow> table_free e table st"
  by (auto simp: fs_inv_def table_free_def find_in_table_state_list_def find_Some_iff split: option.splits)

lemma map_convert_inj: "\<forall>r \<in> set rs. rec_ok e r \<Longrightarrow> \<forall>r \<in> set rs'. rec_ok e r \<Longrightarrow> map convert_to_tkv rs = map convert_to_tkv rs' \<Longrightarrow> rs = rs'"
proof (induction rs arbitrary: rs')
  case (Cons r rs)
  then obtain r' rs1 where r': "rs' = r' # rs1" by (cases rs') auto
  have "convert_record std_commons (convert_to_tkv r) = Inr r" "convert_record std_commons (convert_to_tkv r') = Inr r'"
    using std.convert_record_tkv Cons.prems(1,2) r' by auto
  moreover have "convert_to_tkv r = convert_to_tkv r'" using Cons.prems(3) r' by simp
  ultimately have "r = r'" by (metis sum.inject(2))
  moreover have "rs = rs1" using Cons.IH [of rs1] Cons.prems r' by simp
  ultimately show ?case using r' by simp
qed auto

context commons_api
begin

lemma memtable_upper:
  assumes "\<forall>tb \<in> set l. to_uppercase (tb_name tb) = tb_name tb" "to_uppercase table = table" "e_cm e = cm"
  shows "search_table_in_memtable e table l = find (\<lambda>tb. tb_name tb = table) l"
  unfolding search_table_in_memtable_def assms(3) using assms(1,2) equals_upper by (induction l) auto

end

context fs_libs
begin

lemma mem_rep_of:
  assumes "mem_inv e (f_mem_table st)" "to_uppercase table = table"
  shows "mem_rep e st table mem \<longleftrightarrow> (\<forall>r \<in> set mem. rec_ok e r) \<and> mem_of st table = map convert_to_tkv mem"
  using memtable_upper [of "f_mem_table st" table e] assms by (auto simp: mem_rep_def mem_of_def mem_inv_def split: option.splits)

lemma dump_ok:
  assumes "fs_inv e st" "2 \<le> e_block_size e" "\<forall>tb \<in> set (f_mem_table st). has_table (f_disk st) (tb_name tb)" "mem_cost (f_mem_table st) \<le> free_count e (f_disk st)"
  shows "\<exists>st'. dump e st = Inr st' \<and> fs_inv e st' \<and> f_mem_table st' = [] \<and> f_table_state_list st' = f_table_state_list st \<and>
    map fst (d_tables (f_disk st')) = map fst (d_tables (f_disk st)) \<and>
    (\<forall>t ct c parts tmps mem. table_rep e (f_disk st) t ct c parts tmps \<longrightarrow> mem_rep e st t mem \<longrightarrow>
      (\<exists>tmps'. table_rep e (f_disk st') t ct c parts tmps' \<and> mem_rep e st' t [] \<and> concat tmps' = concat tmps @ mem \<and>
         ((\<forall>x \<in> set tmps. ascending x) \<longrightarrow> ascending mem \<longrightarrow> (\<forall>x \<in> set tmps'. ascending x))))"
proof -
  let ?l = "f_mem_table st"
  have inv: "disk_inv e (f_disk st)" "mem_inv e ?l" using assms(1) by (auto simp: fs_inv_def)
  then have "\<forall>tb \<in> set ?l. \<exists>rs. tb_tkvs tb = map convert_to_tkv rs \<and> (\<forall>r \<in> set rs. rec_ok e r)" by (auto simp: mem_inv_def)
  then obtain R where R: "\<forall>tb \<in> set ?l. tb_tkvs tb = map convert_to_tkv (R tb) \<and> (\<forall>r \<in> set (R tb). rec_ok e r)" by metis
  have up: "\<forall>tb \<in> set ?l. to_uppercase (tb_name tb) = tb_name tb" "distinct (map tb_name ?l)" using inv(2) by (auto simp: mem_inv_def)
  obtain d' where d': "dump_tables e ?l (f_disk st) = Inr d'" "disk_inv e d'" "map fst (d_tables d') = map fst (d_tables (f_disk st))"
    "\<forall>t ct c parts tmps. table_rep e (f_disk st) t ct c parts tmps \<longrightarrow>
       table_rep e d' t ct c parts (tmps @ (case find (\<lambda>tb. tb_name tb = t) ?l of None \<Rightarrow> [] | Some tb \<Rightarrow> [R tb]))"
    using dump_tables_ok [OF inv(1) assms(2) up(2) assms(4), of R] R up(1) assms(3) by blast
  let ?st = "st\<lparr>f_disk := d', f_mem_table := []\<rparr>"
  have "\<exists>tmps'. table_rep e d' t ct c parts tmps' \<and> mem_rep e ?st t [] \<and> concat tmps' = concat tmps @ mem \<and>
      ((\<forall>x \<in> set tmps. ascending x) \<longrightarrow> ascending mem \<longrightarrow> (\<forall>x \<in> set tmps'. ascending x))"
    if rep: "table_rep e (f_disk st) t ct c parts tmps" and mem: "mem_rep e st t mem" for t ct c parts tmps mem
  proof -
    have t: "to_uppercase t = t" using inv(1) rep by (auto simp: disk_inv_def tables_ok_def table_rep_def)
    have m: "\<forall>r \<in> set mem. rec_ok e r" "mem_of st t = map convert_to_tkv mem" using mem mem_rep_of [OF inv(2) t] by auto
    have e: "mem_rep e ?st t []" by (simp add: mem_rep_def search_table_in_memtable_def)
    show ?thesis
    proof (cases "find (\<lambda>tb. tb_name tb = t) ?l")
      case None
      then have "table_rep e d' t ct c parts tmps" using d'(4) rep by fastforce
      moreover have "mem = []" using None m by (simp add: mem_of_def)
      ultimately show ?thesis using e by auto
    next
      case (Some tb)
      then have "table_rep e d' t ct c parts (tmps @ [R tb])" using d'(4) rep by fastforce
      moreover have "R tb = mem"
        using map_convert_inj [of "R tb" e mem] Some m R find_key_in [OF Some] by (auto simp: mem_of_def)
      ultimately show ?thesis using e by (intro exI [of _ "tmps @ [mem]"]) auto
    qed
  qed
  then show ?thesis using d' assms(1) by (auto simp: dump_defs fs_inv_def mem_inv_def)
qed

end

section \<open>INSERT\<close>

definition inserted :: "fs_env \<Rightarrow> insert_input_t \<Rightarrow> fs_record" where
  "inserted e input = \<lparr>fr_timestamp = if ins_timestamp input = -1 then e_now e else ins_timestamp input, fr_key = uint (ins_key input), fr_value = ins_value input\<rparr>"

definition insert_ok :: "fs_env \<Rightarrow> insert_input_t \<Rightarrow> bool" where
  \<comment> \<open>what the console lets through, and a timestamp that is not in the future\<close>
  "insert_ok e input \<longleftrightarrow> ins_value input \<noteq> [] \<and> CHR '';'' \<notin> set (ins_value input) \<and> cut_mark \<notin> set (ins_value input) \<and> no_nul (ins_value input) \<and>
     int (length (ins_value input)) \<le> e_max_value_size e \<and> -1 \<le> ins_timestamp input \<and> ins_timestamp input \<le> e_now e \<and> 0 \<le> e_now e \<and> fits_long (e_now e)"

lemma length_key: "length (dec_int (uint (k :: u16))) \<le> 5"
proof -
  have k: "0 \<le> uint k" "uint k \<le> 65535" using uint_lt2p [of k] by simp_all
  then have "length (dec_int (uint k)) = length (dec_nat (nat (uint k)))" by (simp add: dec_int_def)
  also have "\<dots> \<le> length (dec_nat (nat 65535))" using k(2) by (intro length_dec_nat_mono nat_mono)
  also have "\<dots> = 5" by (simp add: dec_nat.simps)
  finally show ?thesis .
qed

lemma inserted_ok: "insert_ok e input \<Longrightarrow> rec_ok e (inserted e input)"
proof -
  assume ok: "insert_ok e input"
  let ?r = "inserted e input"
  have ts: "0 \<le> fr_timestamp ?r" "fr_timestamp ?r \<le> e_now e" using ok by (auto simp: insert_ok_def inserted_def)
  have "length (dec_int (fr_timestamp ?r)) = length (dec_nat (nat (fr_timestamp ?r)))" using ts by (simp add: dec_int_def)
  also have "\<dots> \<le> length (dec_nat (nat \<bar>e_now e\<bar>))" using ts by (intro length_dec_nat_mono) simp
  finally have len: "int (length (dec_int (fr_timestamp ?r))) \<le> digits_in_a_number (e_now e)" by (simp add: digits_in_a_number_length)
  have five: "digits_in_a_number 65535 = 5" by code_simp
  have "int (length (convert_to_tkv ?r)) < digits_in_a_number 65535 + digits_in_a_number (e_now e) + e_max_value_size e + 3"
    using len length_key [of "ins_key input"] ok five by (simp add: convert_to_tkv_def tkv_text_def inserted_def insert_ok_def)
  then have "length (convert_to_tkv ?r) < tkv_size e" by (simp add: tkv_size_def)
  moreover have "fits_long (fr_timestamp ?r)" using ts ok by (simp add: fits_long_def insert_ok_def)
  moreover have "uint (ins_key input) < 65536" using uint_lt2p [of "ins_key input"] by simp
  ultimately show ?thesis using ok ts(1) by (simp add: rec_ok_def inserted_def insert_ok_def)
qed

lemma find_insert_tkv:
  "distinct (map tb_name l) \<Longrightarrow> find (\<lambda>tb. tb_name tb = u) (insert_tkv table tkv l) =
    (if u = table then Some \<lparr>tb_name = table, tb_tkvs = (case find (\<lambda>tb. tb_name tb = table) l of None \<Rightarrow> [] | Some tb \<Rightarrow> tb_tkvs tb) @ [tkv]\<rparr>
     else find (\<lambda>tb. tb_name tb = u) l)"
proof (induction l)
  case Nil
  then show ?case by (simp add: insert_tkv_def table_not_exist_in_list_def create_table_def)
next
  case (Cons tb l)
  then show ?case by (cases "tb_name tb = table") (auto simp: insert_tkv_def table_not_exist_in_list_def)
qed

lemma names_insert_tkv: "map tb_name (insert_tkv table tkv l) = (if table \<in> tb_name ` set l then map tb_name l else map tb_name l @ [table])"
proof -
  have "map tb_name (update_first P (\<lambda>t. t\<lparr>tb_tkvs := tb_tkvs t @ [tkv]\<rparr>) xs) = map tb_name xs" for P xs by (rule map_update_first) simp
  then show ?thesis by (auto simp: insert_tkv_def table_not_exist_in_list_def create_table_def list_ex_iff Let_def)
qed

lemma find_of_mem: "distinct (map tb_name l) \<Longrightarrow> tb \<in> set l \<Longrightarrow> find (\<lambda>x. tb_name x = tb_name tb) l = Some tb"
  by (rule find_key_distinct)

lemma mem_inv_find:
  assumes "mem_inv e l"
  shows "\<exists>rs. (case find (\<lambda>tb. tb_name tb = table) l of None \<Rightarrow> [] | Some tb \<Rightarrow> tb_tkvs tb) = map convert_to_tkv rs \<and> (\<forall>r \<in> set rs. rec_ok e r)"
proof (cases "find (\<lambda>tb. tb_name tb = table) l")
  case (Some tb)
  then have "tb \<in> set l" using find_key_in [of tb_name table l tb] by simp
  then show ?thesis using assms Some by (simp add: mem_inv_def)
qed simp

lemma mem_inv_insert:
  assumes "mem_inv e l" "to_uppercase table = table" "rec_ok e r"
  shows "mem_inv e (insert_tkv table (convert_to_tkv r) l)"
proof -
  let ?l = "insert_tkv table (convert_to_tkv r) l"
  have dist: "distinct (map tb_name l)" using assms(1) by (simp add: mem_inv_def)
  then have dist': "distinct (map tb_name ?l)" by (auto simp: names_insert_tkv)
  have "to_uppercase (tb_name tb) = tb_name tb \<and> (\<exists>rs. tb_tkvs tb = map convert_to_tkv rs \<and> (\<forall>r \<in> set rs. rec_ok e r))" if tb: "tb \<in> set ?l" for tb
  proof -
    have f: "find (\<lambda>x. tb_name x = tb_name tb) ?l = Some tb" using find_of_mem [OF dist' tb] .
    show ?thesis
    proof (cases "tb_name tb = table")
      case False
      then have "find (\<lambda>x. tb_name x = tb_name tb) l = Some tb" using f find_insert_tkv [OF dist, of "tb_name tb"] by simp
      then show ?thesis using assms(1) find_key_in by (fastforce simp: mem_inv_def)
    next
      case True
      then have tb': "tb = \<lparr>tb_name = table, tb_tkvs = (case find (\<lambda>tb. tb_name tb = table) l of None \<Rightarrow> [] | Some tb \<Rightarrow> tb_tkvs tb) @ [convert_to_tkv r]\<rparr>"
        using f find_insert_tkv [OF dist, of "tb_name tb" table] by simp
      obtain rs where "(case find (\<lambda>tb. tb_name tb = table) l of None \<Rightarrow> [] | Some tb \<Rightarrow> tb_tkvs tb) = map convert_to_tkv rs" "\<forall>r \<in> set rs. rec_ok e r"
        using mem_inv_find [OF assms(1)] by blast
      then have "tb_tkvs tb = map convert_to_tkv (rs @ [r])" "\<forall>r \<in> set (rs @ [r]). rec_ok e r" using tb' assms(3) by auto
      then show ?thesis using True assms(2) by (intro conjI exI [of _ "rs @ [r]"]) simp_all
    qed
  qed
  then show ?thesis using dist' by (simp add: mem_inv_def)
qed

context fs_libs
begin

lemma insert_adds:
  assumes "fs_inv e st" "has_table (f_disk st) (to_uppercase (ins_table_name input))" "insert_ok e input"
  shows "\<exists>st'. process_insert e input st = Inr (0, st') \<and> fs_inv e st' \<and> f_disk st' = f_disk st \<and> f_table_state_list st' = f_table_state_list st \<and>
    (\<forall>t mem. to_uppercase t = t \<longrightarrow> mem_rep e st t mem \<longrightarrow> mem_rep e st' t (if t = to_uppercase (ins_table_name input) then mem @ [inserted e input] else mem))"
proof -
  let ?t = "to_uppercase (ins_table_name input)" and ?r = "inserted e input"
  let ?st = "st\<lparr>f_mem_table := insert_tkv ?t (convert_to_tkv ?r) (f_mem_table st)\<rparr>"
  have inv: "disk_inv e (f_disk st)" "mem_inv e (f_mem_table st)" using assms(1) by (auto simp: fs_inv_def)
  have r: "rec_ok e ?r" using inserted_ok [OF assms(3)] .
  have "create_tkv (if ins_timestamp input = -1 then input\<lparr>ins_timestamp := e_now e\<rparr> else input) = convert_to_tkv ?r"
    by (simp add: create_tkv_def convert_to_tkv_def inserted_def)
  then have p: "process_insert e input st = Inr (0, ?st)"
    using exists_of_table [OF assms(2)] fs_inv_free [OF assms(1), of ?t] assms(3)
    by (simp add: process_insert_def Let_def value_exceeds_maximun_size_def insert_ok_def)
  have mi: "mem_inv e (f_mem_table ?st)" using mem_inv_insert [OF inv(2) _ r] by simp
  have dist: "distinct (map tb_name (f_mem_table st))" using inv(2) by (simp add: mem_inv_def)
  have "mem_rep e ?st t (if t = ?t then mem @ [?r] else mem)" if "to_uppercase t = t" "mem_rep e st t mem" for t mem
    using that r by (auto simp: mem_rep_of [OF mi that(1)] mem_rep_of [OF inv(2) that(1)] mem_of_def find_insert_tkv [OF dist])
  then show ?thesis using p mi assms(1) by (auto simp: fs_inv_def)
qed

end

end
