(* ===== verification/FS_Free.thy ===== *)
theory FS_Free
  imports FS_Dump
begin

text \<open>
  Freeing the blocks of archives, and DROP: afterwards exactly the blocks of the table are free and empty, and the
  other tables are as they were.
\<close>

section \<open>Freeing\<close>

definition freed :: "fs_env \<Rightarrow> disk \<Rightarrow> int set \<Rightarrow> disk \<Rightarrow> bool" where
  "freed e d F d' \<longleftrightarrow> bitmap_ok d' \<and> bitmap_bits d' = bitmap_bits d \<and> (\<forall>b. taken e d' b \<longleftrightarrow> taken e d b \<and> b \<notin> F) \<and>
     (\<forall>b. d_blocks d' b = (if b \<in> F then Some [] else d_blocks d b)) \<and> d_tables d' = d_tables d"

lemma freed_file_at: "freed e d F d' \<Longrightarrow> file_at d' t n = file_at d t n"
  by (simp add: freed_def file_at_def)

lemma freed_trans: "freed e d F d1 \<Longrightarrow> freed e d1 G d2 \<Longrightarrow> freed e d (F \<union> G) d2"
  by (auto simp: freed_def)

lemma freed_blocks_exist: "blocks_exist e d \<Longrightarrow> freed e d F d' \<Longrightarrow> blocks_exist e d'"
  by (auto simp: blocks_exist_def freed_def)

lemma free_block_fields [simp]: "d_blocks (free_block b d) = (d_blocks d)(b \<mapsto> [])" "d_tables (free_block b d) = d_tables d" "d_bitmap (free_block b d) = d_bitmap d"
  by (simp_all add: free_block_def)

lemma bitmap_ok_write: "8 * int (length bm) < 2 ^ 31 \<Longrightarrow> bitmap_ok (write_bitmap bm d)" "8 * int (length bm) < 2 ^ 31 \<Longrightarrow> bitmap_bits (write_bitmap bm d) = 8 * int (length bm)"
  by (simp_all add: bitmap_ok_def bitmap_bits_def)

context fs_libs
begin

lemma free_one:
  assumes "8 * int (length bm) < 2 ^ 31" "1 \<le> b" "b \<le> 8 * int (length bm)"
  shows "\<exists>bm'. clean_bit e (b - 1) bm = Inr bm' \<and> length bm' = length bm \<and> freed e (write_bitmap bm d) {b} (write_bitmap bm' (free_block b d))"
proof -
  have i: "nat (b - 1) < 8 * length bm" using assms(2,3) by linarith
  let ?bm = "bitarray_clean_bit (e_ba e) bm (nat (b - 1))"
  have len: "length ?bm = length bm" using length_clean [OF i] .
  have "taken e (write_bitmap ?bm (free_block b d)) c \<longleftrightarrow> taken e (write_bitmap bm d) c \<and> c \<noteq> b" for c
  proof (cases "1 \<le> c \<and> c \<le> 8 * int (length bm)")
    case True
    then have j: "nat (c - 1) < 8 * length bm" by linarith
    have "nat (c - 1) = nat (b - 1) \<longleftrightarrow> c = b" using True assms(2) by linarith
    then show ?thesis using True assms(1) len test_clean [OF i j] taken_bitmap [of "write_bitmap ?bm (free_block b d)" ?bm e c] taken_bitmap [of "write_bitmap bm d" bm e c] by auto
  next
    case False
    then show ?thesis using assms(1) len taken_bitmap [of "write_bitmap ?bm (free_block b d)" ?bm e c] taken_bitmap [of "write_bitmap bm d" bm e c] by auto
  qed
  then have "freed e (write_bitmap bm d) {b} (write_bitmap ?bm (free_block b d))"
    using assms(1) len bitmap_ok_write [of ?bm "free_block b d"] bitmap_ok_write [of bm d] by (auto simp: freed_def)
  then show ?thesis using assms len by (simp add: clean_bit_def)
qed

lemma free_blocks_of_ok:
  assumes "8 * int (length bm) < 2 ^ 31" "\<forall>b \<in> set bs. 1 \<le> b \<and> b \<le> 8 * int (length bm)"
  shows "\<exists>bm' d'. free_blocks_of e bs bm d = Inr (bm', d') \<and> length bm' = length bm \<and> freed e (write_bitmap bm d) (set bs) (write_bitmap bm' d') \<and> d_tables d' = d_tables d"
  using assms
proof (induction bs arbitrary: bm d)
  case Nil
  then show ?case using bitmap_ok_write [of bm d] by (simp add: freed_def)
next
  case (Cons b bs)
  obtain bm1 where b1: "clean_bit e (b - 1) bm = Inr bm1" "length bm1 = length bm" "freed e (write_bitmap bm d) {b} (write_bitmap bm1 (free_block b d))"
    using free_one [OF Cons.prems(1), of b d] Cons.prems(2) by auto
  obtain bm2 d2 where b2: "free_blocks_of e bs bm1 (free_block b d) = Inr (bm2, d2)" "length bm2 = length bm1"
    "freed e (write_bitmap bm1 (free_block b d)) (set bs) (write_bitmap bm2 d2)" "d_tables d2 = d_tables d"
    using Cons.IH [of bm1 "free_block b d"] Cons.prems b1(2) by auto
  show ?case using b1(1,2) b2 freed_trans [OF b1(3) b2(3)] by simp
qed

lemma free_archives_ok:
  assumes "8 * int (length bm) < 2 ^ 31" "\<forall>n \<in> set ns. \<exists>p. read_fs_archive d table n = Inr p \<and> par_blocks p = blocks_at d table n"
    "\<forall>n \<in> set ns. \<forall>b \<in> set (blocks_at d table n). 1 \<le> b \<and> b \<le> 8 * int (length bm)"
  shows "\<exists>bm' d'. free_archives e table ns bm d = Inr (bm', d') \<and> length bm' = length bm \<and>
    freed e (write_bitmap bm d) (\<Union>n \<in> set ns. set (blocks_at d table n)) (write_bitmap bm' d') \<and> d_tables d' = d_tables d"
  using assms
proof (induction ns arbitrary: bm d)
  case Nil
  then show ?case using bitmap_ok_write [of bm d] by (simp add: freed_def)
next
  case (Cons n ns)
  obtain p where p: "read_fs_archive d table n = Inr p" "par_blocks p = blocks_at d table n" using Cons.prems(2) by auto
  obtain bm1 d1 where d1: "free_blocks_of e (blocks_at d table n) bm d = Inr (bm1, d1)" "length bm1 = length bm"
    "freed e (write_bitmap bm d) (set (blocks_at d table n)) (write_bitmap bm1 d1)" "d_tables d1 = d_tables d"
    using free_blocks_of_ok [OF Cons.prems(1), of "blocks_at d table n" d] Cons.prems(3) by auto
  have same: "blocks_at d1 table m = blocks_at d table m" "read_fs_archive d1 table m = read_fs_archive d table m" for m
    using file_at_cong [OF d1(4)] by (simp_all add: blocks_at_def read_fs_archive_def read_file_at)
  obtain bm2 d2 where d2: "free_archives e table ns bm1 d1 = Inr (bm2, d2)" "length bm2 = length bm1"
    "freed e (write_bitmap bm1 d1) (\<Union>n \<in> set ns. set (blocks_at d table n)) (write_bitmap bm2 d2)" "d_tables d2 = d_tables d1"
    using Cons.IH [of bm1 d1] Cons.prems d1(2) same by auto
  show ?case using p d1 d2 freed_trans [OF d1(3) d2(3)] by (simp add: free_blocks_of_fs_archive_def)
qed

end

section \<open>The blocks of a table\<close>

definition table_blocks :: "disk \<Rightarrow> string \<Rightarrow> int set" where
  "table_blocks d table = {b. \<exists>n. archive_name n \<and> b \<in> set (blocks_at d table n)}"

lemma blocks_at_file: "b \<in> set (blocks_at d t n) \<Longrightarrow> file_at d t n \<noteq> None"
  by (cases "file_at d t n") (auto simp: blocks_at_def)

lemma partition_names_nth: "n \<in> set (partition_names (int k)) \<longleftrightarrow> (\<exists>i < k. n = create_partition_name (int i + 1))"
  by (auto simp: partition_names_def)

lemma table_rep_blocks:
  assumes "table_rep0 e d table ct c parts tmps"
  shows "table_blocks d table = (\<Union>n \<in> set (partition_names (int (length parts))). set (blocks_at d table n)) \<union>
    (\<Union>n \<in> set (map get_tmp_name (tmp_numbers d table)). set (blocks_at d table n))"
proof -
  have p: "create_partition_name i \<in> set (partition_names (int (length parts)))" if "b \<in> set (blocks_at d table (create_partition_name i))" for i b
  proof -
    have "file_at d table (create_partition_name i) \<noteq> None" using blocks_at_file [OF that] .
    then have "1 \<le> i" "i \<le> int (length parts)" using assms unfolding table_rep0_def by blast+
    then have "nat (i - 1) < length parts" "i = int (nat (i - 1)) + 1" by auto
    then show ?thesis unfolding partition_names_nth by metis
  qed
  have t: "k \<in> set (tmp_numbers d table)" if "b \<in> set (blocks_at d table (get_tmp_name k))" for k b
  proof -
    have "file_at d table (get_tmp_name k) \<noteq> None" using blocks_at_file [OF that] .
    then have "1 \<le> k" "k \<le> length tmps" using assms unfolding table_rep0_def by blast+
    then show ?thesis unfolding table_rep0_tmps [OF assms] by auto
  qed
  show ?thesis
  proof (intro equalityI subsetI)
    fix b assume "b \<in> table_blocks d table"
    then consider k where "b \<in> set (blocks_at d table (get_tmp_name k))" | i where "b \<in> set (blocks_at d table (create_partition_name i))"
      by (auto simp: table_blocks_def archive_name_def)
    then show "b \<in> (\<Union>n \<in> set (partition_names (int (length parts))). set (blocks_at d table n)) \<union> (\<Union>n \<in> set (map get_tmp_name (tmp_numbers d table)). set (blocks_at d table n))"
      by cases (use p t in fastforce)+
  next
    fix b assume "b \<in> (\<Union>n \<in> set (partition_names (int (length parts))). set (blocks_at d table n)) \<union> (\<Union>n \<in> set (map get_tmp_name (tmp_numbers d table)). set (blocks_at d table n))"
    then show "b \<in> table_blocks d table" by (auto simp: table_blocks_def partition_names_def intro: archive_names)
  qed
qed

lemma table_rep_archives:
  assumes "table_rep0 e d table ct c parts tmps"
  shows "n \<in> set (partition_names (int (length parts))) \<Longrightarrow> \<exists>p. read_fs_archive d table n = Inr p \<and> par_blocks p = blocks_at d table n"
    "k \<in> set (tmp_numbers d table) \<Longrightarrow> \<exists>p. read_fs_archive d table (get_tmp_name k) = Inr p \<and> par_blocks p = blocks_at d table (get_tmp_name k)"
proof -
  have rd: "\<exists>p. read_fs_archive d table n = Inr p \<and> par_blocks p = blocks_at d table n" if "archive_rep e d table n bs rs" for n bs rs
    using archive_rep_read [OF that] archive_blocks_at [OF that] by simp
  show "\<exists>p. read_fs_archive d table n = Inr p \<and> par_blocks p = blocks_at d table n" if "n \<in> set (partition_names (int (length parts)))"
  proof -
    obtain i where "i < length parts" "n = create_partition_name (int i + 1)" using \<open>n \<in> _\<close> unfolding partition_names_nth by blast
    then obtain bs where "archive_rep e d table n bs (parts ! i)" using assms unfolding table_rep0_def by blast
    then show ?thesis by (rule rd)
  qed
  show "\<exists>p. read_fs_archive d table (get_tmp_name k) = Inr p \<and> par_blocks p = blocks_at d table (get_tmp_name k)" if "k \<in> set (tmp_numbers d table)"
  proof -
    have "1 \<le> k" "k - 1 < length tmps" using that unfolding table_rep0_tmps [OF assms] by auto
    then obtain bs where "archive_rep e d table (get_tmp_name (Suc (k - 1))) bs (tmps ! (k - 1))" using assms unfolding table_rep0_def by blast
    then show ?thesis using rd \<open>1 \<le> k\<close> by fastforce
  qed
qed

context fs_libs
begin

lemma free_table_ok:
  assumes "bitmap_ok d" "read_bitmap d = Inr bm" "owned e {} d" "table_rep0 e d table ct c parts tmps"
  shows "\<exists>bm1 d1 bm2 d2. free_partitions e table bm d = Inr (bm1, d1) \<and> free_blocks_of_all_tmps e table bm1 d1 = Inr (bm2, d2) \<and>
    freed e d (table_blocks d table) (write_bitmap bm2 d2) \<and> d_tables d1 = d_tables d \<and> d_tables d2 = d_tables d"
proof -
  have small: "8 * int (length bm) < 2 ^ 31" using assms(1,2) by (simp add: bitmap_ok_def)
  have range: "1 \<le> b \<and> b \<le> 8 * int (length bm)" if "archive_name n" "b \<in> set (blocks_at d table n)" for n b
  proof -
    have "taken e d b" using assms(3) that unfolding owned_def by blast
    then show ?thesis using taken_bits [of e d b] assms(2) by (simp add: bitmap_bits_def)
  qed
  have md: "read_table_metadata d table = Inr (ct, c, int (length parts))" using assms(4) by (simp add: table_rep0_def)
  let ?P = "\<Union>n \<in> set (partition_names (int (length parts))). set (blocks_at d table n)"
  let ?T = "\<Union>n \<in> set (map get_tmp_name (tmp_numbers d table)). set (blocks_at d table n)"
  have rp: "\<forall>n \<in> set (partition_names (int (length parts))). \<forall>b \<in> set (blocks_at d table n). 1 \<le> b \<and> b \<le> 8 * int (length bm)"
    using range [OF archive_names(2)] by (auto simp: partition_names_def)
  obtain bm1 d1 where d1: "free_archives e table (partition_names (int (length parts))) bm d = Inr (bm1, d1)" "length bm1 = length bm"
    "freed e (write_bitmap bm d) ?P (write_bitmap bm1 d1)" "d_tables d1 = d_tables d"
    using free_archives_ok [OF small, of "partition_names (int (length parts))" d table] table_rep_archives(1) [OF assms(4)] rp by blast
  have same: "blocks_at d1 table m = blocks_at d table m" "read_fs_archive d1 table m = read_fs_archive d table m" "tmp_numbers d1 table = tmp_numbers d table" for m
    using file_at_cong [OF d1(4)] tmp_numbers_cong [OF d1(4)] by (simp_all add: blocks_at_def read_fs_archive_def read_file_at)
  have "\<forall>n \<in> set (map get_tmp_name (tmp_numbers d table)). \<exists>p. read_fs_archive d1 table n = Inr p \<and> par_blocks p = blocks_at d1 table n"
    using table_rep_archives(2) [OF assms(4)] same by auto
  then obtain bm2 d2 where d2: "free_archives e table (map get_tmp_name (tmp_numbers d table)) bm1 d1 = Inr (bm2, d2)"
    "freed e (write_bitmap bm1 d1) ?T (write_bitmap bm2 d2)" "d_tables d2 = d_tables d1"
    using free_archives_ok [of bm1 "map get_tmp_name (tmp_numbers d table)" d1 table] small d1(2) range [OF archive_names(1)] same by auto
  have bmd: "read_bitmap (write_bitmap bm d) = read_bitmap d" using small assms(2) by simp
  have "freed e (write_bitmap bm d) (?P \<union> ?T) (write_bitmap bm2 d2)" using freed_trans [OF d1(3) d2(2)] .
  then have "freed e d (table_blocks d table) (write_bitmap bm2 d2)"
    unfolding table_rep_blocks [OF assms(4)] using taken_same [OF bmd, of e] bits_same [OF bmd] by (simp add: freed_def)
  then show ?thesis using md d1 d2 same by (simp add: free_partitions_def free_blocks_of_all_tmps_def)
qed

end

section \<open>DROP\<close>

lemma remove_directory_fields [simp]: "d_blocks (remove_directory table d) = d_blocks d" "d_bitmap (remove_directory table d) = d_bitmap d"
  by (simp_all add: remove_directory_def)

lemma remove_directory_tables:
  "file_at (remove_directory table d) t n = (if t = table then None else file_at d t n)" "has_table (remove_directory table d) t \<longleftrightarrow> t \<noteq> table \<and> has_table d t"
  "map fst (d_tables (remove_directory table d)) = filter (\<lambda>t. t \<noteq> table) (map fst (d_tables d))"
proof -
  show "file_at (remove_directory table d) t n = (if t = table then None else file_at d t n)" "has_table (remove_directory table d) t \<longleftrightarrow> t \<noteq> table \<and> has_table d t"
    by (auto simp: remove_directory_def file_at_def has_table_map_of delete_conv')
  have "map fst (AList.delete table l) = filter (\<lambda>t. t \<noteq> table) (map fst l)" for l :: "(string \<times> directory) list"
    by (induction l) (auto simp: AList.delete_eq)
  then show "map fst (d_tables (remove_directory table d)) = filter (\<lambda>t. t \<noteq> table) (map fst (d_tables d))" by (simp add: remove_directory_def)
qed

lemma owned_free_table:
  assumes "owned e {} d" "\<And>b. taken e d' b \<longleftrightarrow> taken e d b \<and> b \<notin> table_blocks d table" "\<And>t n. t \<noteq> table \<Longrightarrow> blocks_at d' t n = blocks_at d t n"
    "\<And>n. archive_name n \<Longrightarrow> (table, n) \<notin> S \<Longrightarrow> blocks_at d' table n = []" "\<And>t n. (t, n) \<in> S \<Longrightarrow> t = table"
  shows "owned e S d'"
proof -
  have o: "\<And>b. taken e d b \<longleftrightarrow> (\<exists>t n. archive_name n \<and> b \<in> set (blocks_at d t n))"
    "\<And>t n t' n'. archive_name n \<Longrightarrow> archive_name n' \<Longrightarrow> (t, n) \<noteq> (t', n') \<Longrightarrow> set (blocks_at d t n) \<inter> set (blocks_at d t' n') = {}"
    using assms(1) unfolding owned_def by blast+
  have blk: "blocks_at d' t n = (if t = table then [] else blocks_at d t n)" if "archive_name n" "(t, n) \<notin> S" for t n using assms(3,4) that by auto
  have "taken e d' b \<longleftrightarrow> (\<exists>t n. archive_name n \<and> (t, n) \<notin> S \<and> b \<in> set (blocks_at d' t n))" for b
  proof
    assume "taken e d' b"
    then obtain t n where tn: "archive_name n" "b \<in> set (blocks_at d t n)" "b \<notin> table_blocks d table" using assms(2) o(1) by blast
    then have "t \<noteq> table" by (auto simp: table_blocks_def)
    moreover from this have "(t, n) \<notin> S" using assms(5) by blast
    ultimately show "\<exists>t n. archive_name n \<and> (t, n) \<notin> S \<and> b \<in> set (blocks_at d' t n)" using tn assms(3) by metis
  next
    assume "\<exists>t n. archive_name n \<and> (t, n) \<notin> S \<and> b \<in> set (blocks_at d' t n)"
    then obtain t n where tn: "archive_name n" "b \<in> set (blocks_at d t n)" "t \<noteq> table" using blk by (metis empty_iff empty_set)
    then have "b \<notin> table_blocks d table" using o(2) [of n _ t table] by (fastforce simp: table_blocks_def)
    then show "taken e d' b" using assms(2) o(1) tn by blast
  qed
  moreover have "set (blocks_at d' t n) \<inter> set (blocks_at d' t' n') = {}"
    if "archive_name n" "archive_name n'" "(t, n) \<notin> S" "(t', n') \<notin> S" "(t, n) \<noteq> (t', n')" for t n t' n'
    using o(2) [OF that(1,2,5)] blk [OF that(1,3)] blk [OF that(2,4)] by simp
  ultimately show ?thesis unfolding owned_def by blast
qed

context fs_libs
begin

lemma live_status_ok:
  assumes "\<forall>s \<in> set (f_table_state_list st). P s \<and> (ts_live_status_mutex s = 1 \<or> ts_live_status_mutex s = 0 \<and> ts_name s = dropped_name)"
    "to_uppercase table \<noteq> to_uppercase dropped_name" "\<And>s n l. P (s\<lparr>ts_name := n, ts_live_status_mutex := l\<rparr>) = P s"
  shows "\<exists>st'. live_status_wait e table st = Inr st' \<and> f_disk st' = f_disk st \<and> f_mem_table st' = f_mem_table st \<and>
    (\<forall>s \<in> set (f_table_state_list st'). P s \<and> (ts_live_status_mutex s = 1 \<or> ts_live_status_mutex s = 0 \<and> ts_name s = dropped_name))"
proof (cases "find_in_table_state_list e table st")
  case None
  then show ?thesis using assms(1) by (simp add: live_status_wait_def)
next
  case (Some s)
  then have s: "s \<in> set (f_table_state_list st)" "to_uppercase (ts_name s) = to_uppercase table"
    by (auto simp: find_in_table_state_list_def find_Some_iff equals_ignore_case to_uppercase_def)
  then have l: "ts_live_status_mutex s = 1" using assms(1,2) by auto
  let ?Q = "\<lambda>s. string_equals_ignore_case (e_cm e) (ts_name s) table"
  let ?f = "\<lambda>s. s\<lparr>ts_name := dropped_name, ts_live_status_mutex := ts_live_status_mutex s - 1\<rparr>"
  have "ts_live_status_mutex x = 1" if "x \<in> set (f_table_state_list st)" "?Q x" for x
    using that assms(1,2) by (auto simp: equals_ignore_case to_uppercase_def)
  then have "\<forall>x \<in> set (update_first ?Q ?f (f_table_state_list st)). P x \<and> (ts_live_status_mutex x = 1 \<or> ts_live_status_mutex x = 0 \<and> ts_name x = dropped_name)"
    using set_update_first [of ?Q ?f "f_table_state_list st"] assms(1,3) by (fastforce simp: assms(3))
  then show ?thesis using Some l by (simp add: live_status_wait_def change_state_def)
qed

lemma drop_ok:
  assumes inv: "fs_inv e st" and has: "has_table (f_disk st) (to_uppercase (drp_table_name input))" and nm: "to_uppercase (drp_table_name input) \<noteq> to_uppercase dropped_name"
  shows "\<exists>st'. process_drop e input st = Inr (0, st') \<and> fs_inv e st' \<and> f_mem_table st' = f_mem_table st \<and>
    map fst (d_tables (f_disk st')) = filter (\<lambda>t. t \<noteq> to_uppercase (drp_table_name input)) (map fst (d_tables (f_disk st))) \<and>
    free_set e (f_disk st') = free_set e (f_disk st) \<union> table_blocks (f_disk st) (to_uppercase (drp_table_name input)) \<and>
    (\<forall>t ct c parts tmps. t \<noteq> to_uppercase (drp_table_name input) \<longrightarrow> table_rep e (f_disk st) t ct c parts tmps \<longrightarrow> table_rep e (f_disk st') t ct c parts tmps)"
proof -
  let ?t = "to_uppercase (drp_table_name input)" and ?d = "f_disk st"
  have i: "bitmap_ok ?d" "owned e {} ?d" "blocks_exist e ?d" "tables_ok e ?d" using inv by (auto simp: fs_inv_def disk_inv_def)
  obtain bm where bm: "read_bitmap ?d = Inr bm" using i(1) by (auto simp: bitmap_ok_def)
  obtain ct c parts tmps where rep: "table_rep e ?d ?t ct c parts tmps" using i(4) has by (auto simp: tables_ok_def)
  obtain bm1 d1 bm2 d2 where f: "free_partitions e ?t bm ?d = Inr (bm1, d1)" "free_blocks_of_all_tmps e ?t bm1 d1 = Inr (bm2, d2)"
    "freed e ?d (table_blocks ?d ?t) (write_bitmap bm2 d2)" "d_tables d2 = d_tables ?d"
    using free_table_ok [OF i(1) bm i(2)] rep unfolding table_rep_alt by blast
  let ?d' = "write_bitmap bm2 (remove_directory ?t d2)"
  have rb: "read_bitmap ?d' = read_bitmap (write_bitmap bm2 d2)" by (simp add: read_bitmap_def write_bitmap_def)
  have fr: "bitmap_ok ?d'" "bitmap_bits ?d' = bitmap_bits ?d" "\<And>b. taken e ?d' b \<longleftrightarrow> taken e ?d b \<and> b \<notin> table_blocks ?d ?t"
    "\<And>b. d_blocks ?d' b = (if b \<in> table_blocks ?d ?t then Some [] else d_blocks ?d b)"
    using f(3) taken_same [OF rb, of e] bits_same [OF rb] by (auto simp: freed_def bitmap_ok_def rb)
  have fa: "file_at ?d' t n = (if t = ?t then None else file_at ?d t n)" for t n
    using remove_directory_tables(1) [of ?t d2 t n] file_at_cong [OF f(4)] by (simp add: file_at_def)
  have ht: "has_table ?d' t \<longleftrightarrow> t \<noteq> ?t \<and> has_table ?d t" for t using remove_directory_tables(2) [of ?t d2 t] f(4) by (simp add: has_table_def)
  have names: "map fst (d_tables ?d') = filter (\<lambda>t. t \<noteq> ?t) (map fst (d_tables ?d))" using remove_directory_tables(3) [of ?t d2] f(4) by simp
  have own: "owned e {} ?d'" by (rule owned_free_table [OF i(2) fr(3)]) (use fa in \<open>auto simp: blocks_at_def\<close>)
  have others: "table_rep e ?d' t ct c parts tmps" if t: "t \<noteq> ?t" "table_rep e ?d t ct c parts tmps" for t ct c parts tmps
  proof (rule table_rep_frame [OF t(2)])
    show "file_at ?d' t n = file_at ?d t n" for n using fa t(1) by simp
    show "has_table ?d' t" using ht t by (simp add: table_rep_def)
    fix n b assume nb: "archive_name n" "b \<in> set (blocks_at ?d t n)"
    then have "b \<in> set (blocks_at ?d' t n)" using fa t(1) by (simp add: blocks_at_def)
    then have "taken e ?d' b" using own nb(1) by (auto simp: owned_def)
    then show "d_blocks ?d' b = d_blocks ?d b" using fr(3,4) by simp
  qed
  have "blocks_exist e ?d'" using i(3) fr(2-4) by (auto simp: blocks_exist_def)
  moreover have "tables_ok e ?d'" unfolding tables_ok_def names using i(4) ht others by (auto simp: tables_ok_def) (metis others)
  ultimately have dinv: "disk_inv e ?d'" using own fr(1) by (simp add: disk_inv_def)
  have "free_set e ?d' = free_set e ?d \<union> table_blocks ?d ?t"
    using fr(2,3) taken_bits [of e ?d] i(2) by (auto simp: free_set_def table_blocks_def owned_def)
  moreover obtain st' where st': "live_status_wait e ?t (st\<lparr>f_disk := ?d'\<rparr>) = Inr st'" "f_disk st' = ?d'" "f_mem_table st' = f_mem_table st"
    "\<forall>s \<in> set (f_table_state_list st'). (ts_is_blocked_mutex s = 1 \<and> ts_select_mutex s = 1) \<and> (ts_live_status_mutex s = 1 \<or> ts_live_status_mutex s = 0 \<and> ts_name s = dropped_name)"
    using live_status_ok [of "st\<lparr>f_disk := ?d'\<rparr>" "\<lambda>s. ts_is_blocked_mutex s = 1 \<and> ts_select_mutex s = 1" ?t] inv nm by (auto simp: fs_inv_def)
  moreover have "process_drop e input st = Inr (0, st')"
    using exists_of_table [OF has] fs_inv_free [OF inv, of ?t] bm f st'(1) by (simp add: process_drop_def Let_def)
  ultimately show ?thesis using dinv names others inv by (intro exI [of _ st']) (auto simp: fs_inv_def)
qed

end

end
