(* ===== verification/FS_Create.thy ===== *)
theory FS_Create
  imports FS_Free
begin

text \<open>
  CREATE and DESCRIBE: a new table gets one free block for each partition and is described as it was created; when it
  cannot be created nothing changes.
\<close>

section \<open>Assigning blocks\<close>

context fs_libs
begin

lemma free_blocks_loop_ok:
  assumes "free_blocks_loop e n bm = (bs, bm')"
  shows "length bm' = length bm \<and> distinct bs \<and> (\<forall>b \<in> set bs. 1 \<le> b \<and> b \<le> 8 * int (length bm) \<and> \<not> bitarray_test_bit (e_ba e) bm (nat (b - 1))) \<and>
    (\<forall>i < 8 * length bm. bitarray_test_bit (e_ba e) bm' i \<longleftrightarrow> bitarray_test_bit (e_ba e) bm i \<or> int i + 1 \<in> set bs) \<and>
    length bs \<le> n \<and> (length bs = n \<or> (\<forall>i < 8 * length bm. bitarray_test_bit (e_ba e) bm' i))"
  using assms
proof (induction n arbitrary: bm bs)
  case (Suc n)
  show ?case
  proof (cases rule: find_free_block_cases [of bm])
    case none
    then show ?thesis using Suc.prems by auto
  next
    case (found i)
    let ?bm = "bitarray_set_bit (e_ba e) bm i"
    obtain bs1 where r: "free_blocks_loop e n ?bm = (bs1, bm')" "bs = (int i + 1) # bs1" using Suc.prems found(1) by (auto split: prod.splits)
    note IH = Suc.IH [OF r(1)]
    have len: "length ?bm = length bm" using length_set [OF found(2)] .
    have new: "int i + 1 \<notin> set bs1" using IH test_set [OF found(2,2)] len by auto
    have "1 \<le> b \<and> b \<le> 8 * int (length bm) \<and> \<not> bitarray_test_bit (e_ba e) bm (nat (b - 1))" if "b \<in> set bs1" for b
    proof -
      have b: "1 \<le> b" "b \<le> 8 * int (length bm)" "\<not> bitarray_test_bit (e_ba e) ?bm (nat (b - 1))" using IH that len by auto
      then have "nat (b - 1) < 8 * length bm" by linarith
      then show ?thesis using b test_set [OF found(2)] by blast
    qed
    moreover have "bitarray_test_bit (e_ba e) bm' j \<longleftrightarrow> bitarray_test_bit (e_ba e) bm j \<or> int j + 1 \<in> set bs" if "j < 8 * length bm" for j
      using IH that len test_set [OF found(2) that] r(2) by auto
    ultimately show ?thesis using IH r(2) new found(2,3) len by auto
  qed
qed simp

lemma assign_ok:
  assumes "bitmap_ok d" "read_bitmap d = Inr bm" "0 \<le> n" "n \<le> int (free_count e d)"
  shows "\<exists>bs bm'. assign_free_blocks e bm n = (bs, bm') \<and> int (length bs) = n \<and> distinct bs \<and> length bm' = length bm \<and>
    (\<forall>b \<in> set bs. 1 \<le> b \<and> b \<le> bitmap_bits d \<and> \<not> taken e d b) \<and> (\<forall>b D. taken e (write_bitmap bm' D) b \<longleftrightarrow> taken e d b \<or> b \<in> set bs)"
proof -
  have small: "8 * int (length bm) < 2 ^ 31" using assms(1,2) by (simp add: bitmap_ok_def)
  have bits: "bitmap_bits d = 8 * int (length bm)" using assms(2) by (simp add: bitmap_bits_def)
  have "free_count e d \<le> card {1..bitmap_bits d}" unfolding free_count_def by (rule card_mono) (auto simp: free_set_def)
  then have le: "n \<le> 8 * int (length bm)" using assms(4) bits by simp
  obtain bs bm' where a: "free_blocks_loop e (nat n) bm = (bs, bm')" by fastforce
  note ok = free_blocks_loop_ok [OF a]
  have free: "\<forall>b \<in> set bs. 1 \<le> b \<and> b \<le> bitmap_bits d \<and> \<not> taken e d b" using ok bits taken_bitmap [OF assms(2)] by auto
  have tk: "taken e (write_bitmap bm' D) b \<longleftrightarrow> taken e d b \<or> b \<in> set bs" for b D
  proof (cases "1 \<le> b \<and> b \<le> 8 * int (length bm)")
    case True
    then have "nat (b - 1) < 8 * length bm" "int (nat (b - 1)) + 1 = b" by linarith+
    then have "bitarray_test_bit (e_ba e) bm' (nat (b - 1)) \<longleftrightarrow> bitarray_test_bit (e_ba e) bm (nat (b - 1)) \<or> b \<in> set bs" using ok by metis
    then show ?thesis using True ok taken_bitmap [OF assms(2), of e b] taken_bitmap [of "write_bitmap bm' D" bm' e b] small by simp
  next
    case False
    then show ?thesis using ok free bits taken_bitmap [OF assms(2), of e b] taken_bitmap [of "write_bitmap bm' D" bm' e b] small by auto
  qed
  have "length bs = nat n"
  proof (rule ccontr)
    assume ne: "length bs \<noteq> nat n"
    then have all: "\<forall>i < 8 * length bm. bitarray_test_bit (e_ba e) bm' i" using ok by blast
    have "b \<in> set bs" if "b \<in> free_set e d" for b
    proof -
      have b: "1 \<le> b" "b \<le> 8 * int (length bm)" "\<not> taken e d b" using that bits by (auto simp: free_set_def)
      then have "nat (b - 1) < 8 * length bm" by linarith
      then have "taken e (write_bitmap bm' d) b" using all b ok small taken_bitmap [of "write_bitmap bm' d" bm' e b] by auto
      then show ?thesis using tk b(3) by blast
    qed
    then have "free_count e d \<le> length bs" unfolding free_count_def by (meson card_length card_mono List.finite_set order_trans subsetI)
    then show False using ne ok assms(4) by linarith
  qed
  then show ?thesis using a le ok free tk assms(3) by (auto simp: assign_free_blocks_def)
qed

lemma assign_short:
  assumes "bitmap_ok d" "read_bitmap d = Inr bm" "int (free_count e d) < n"
  shows "int (length (fst (assign_free_blocks e bm n))) \<noteq> n"
proof (cases "n \<le> 8 * int (length bm)")
  case True
  obtain bs bm' where a: "free_blocks_loop e (nat n) bm = (bs, bm')" by fastforce
  note ok = free_blocks_loop_ok [OF a]
  have "set bs \<subseteq> free_set e d" using ok assms(2) taken_bitmap [OF assms(2)] by (auto simp: free_set_def bitmap_bits_def)
  then have "card (set bs) \<le> free_count e d" by (simp add: free_count_def card_mono)
  then have "length bs \<le> free_count e d" using ok distinct_card by metis
  then show ?thesis using True a assms(3) by (simp add: assign_free_blocks_def)
qed (use assms(3) in \<open>simp add: assign_free_blocks_def\<close>)

end

section \<open>The files of a new table\<close>

lemma create_partitions_from_ok:
  assumes "has_table d table"
  shows "\<exists>d'. create_partitions_from i table bs d = Inr d' \<and> d_blocks d' = d_blocks d \<and> d_bitmap d' = d_bitmap d \<and> map fst (d_tables d') = map fst (d_tables d) \<and>
    (\<forall>j < length bs. file_at d' table (create_partition_name (i + int j + 1)) = Some (archive_bytes [bs ! j] 0)) \<and>
    (\<forall>t n. (t \<noteq> table \<or> (\<forall>j < length bs. n \<noteq> create_partition_name (i + int j + 1))) \<longrightarrow> file_at d' t n = file_at d t n)"
  using assms
proof (induction bs arbitrary: i d)
  case (Cons b bs)
  let ?d = "update_dir table (AList.update (create_partition_name (i + 1)) (archive_bytes [b] 0)) d"
  have h: "has_table ?d table" using Cons.prems by simp
  obtain d' where d': "create_partitions_from (i + 1) table bs ?d = Inr d'" "d_blocks d' = d_blocks d" "d_bitmap d' = d_bitmap d" "map fst (d_tables d') = map fst (d_tables d)"
    "\<forall>j < length bs. file_at d' table (create_partition_name (i + 1 + int j + 1)) = Some (archive_bytes [bs ! j] 0)"
    "\<forall>t n. (t \<noteq> table \<or> (\<forall>j < length bs. n \<noteq> create_partition_name (i + 1 + int j + 1))) \<longrightarrow> file_at d' t n = file_at ?d t n"
    using Cons.IH [OF h, of "i + 1"] by auto
  have first: "file_at d' table (create_partition_name (i + 1)) = Some (archive_bytes [b] 0)" using d'(6) file_at_write [OF Cons.prems] by simp
  have all: "file_at d' table (create_partition_name (i + int j + 1)) = Some (archive_bytes [(b # bs) ! j] 0)" if "j < Suc (length bs)" for j
  proof (cases j)
    case (Suc k)
    then show ?thesis using d'(5) that by (simp add: algebra_simps)
  qed (use first in simp)
  have rest: "file_at d' t n = file_at d t n" if "t \<noteq> table \<or> (\<forall>j < Suc (length bs). n \<noteq> create_partition_name (i + int j + 1))" for t n
  proof -
    have "t \<noteq> table \<or> (n \<noteq> create_partition_name (i + 1) \<and> (\<forall>j < length bs. n \<noteq> create_partition_name (i + 1 + int j + 1)))"
      using that by (auto simp: algebra_simps)
    then show ?thesis using d'(6) file_at_write [OF Cons.prems, of "create_partition_name (i + 1)" "archive_bytes [b] 0" t n] by auto
  qed
  show ?case using d' all rest Cons.prems by (auto simp: write_file_eq)
qed simp

lemma owned_new_table:
  assumes "owned e {} d" "distinct bs" "\<forall>b \<in> set bs. \<not> taken e d b" "\<And>b. taken e d' b \<longleftrightarrow> taken e d b \<or> b \<in> set bs"
    "\<And>t n. t \<noteq> table \<Longrightarrow> blocks_at d' t n = blocks_at d t n" "\<And>n. blocks_at d table n = []"
    "\<And>j. j < length bs \<Longrightarrow> blocks_at d' table (create_partition_name (int j + 1)) = [bs ! j]"
    "\<And>n b. b \<in> set (blocks_at d' table n) \<Longrightarrow> archive_name n \<Longrightarrow> \<exists>j < length bs. n = create_partition_name (int j + 1) \<and> b = bs ! j"
  shows "owned e {} d'"
proof -
  have o: "\<And>b. taken e d b \<longleftrightarrow> (\<exists>t n. archive_name n \<and> b \<in> set (blocks_at d t n))"
    "\<And>t n t' n'. archive_name n \<Longrightarrow> archive_name n' \<Longrightarrow> (t, n) \<noteq> (t', n') \<Longrightarrow> set (blocks_at d t n) \<inter> set (blocks_at d t' n') = {}"
    using assms(1) unfolding owned_def by blast+
  have old: "b \<notin> set bs" if "t \<noteq> table" "archive_name n" "b \<in> set (blocks_at d' t n)" for t n b
    using that assms(3,5) o(1) by metis
  have new: "b \<in> set bs" if "b \<in> set (blocks_at d' table n)" "archive_name n" for n b using assms(8) [OF that] by auto
  have "taken e d' b \<longleftrightarrow> (\<exists>t n. archive_name n \<and> b \<in> set (blocks_at d' t n))" for b
  proof
    assume "taken e d' b"
    then consider t n where "archive_name n" "b \<in> set (blocks_at d t n)" "t \<noteq> table" | j where "j < length bs" "b = bs ! j"
      using assms(4,6) o(1) by (metis in_set_conv_nth empty_iff empty_set)
    then show "\<exists>t n. archive_name n \<and> b \<in> set (blocks_at d' t n)"
    proof cases
      case 1
      then show ?thesis using assms(5) by metis
    next
      case 2
      then show ?thesis using assms(7) [of j] by (intro exI [of _ table] exI [of _ "create_partition_name (int j + 1)"]) simp
    qed
  next
    assume "\<exists>t n. archive_name n \<and> b \<in> set (blocks_at d' t n)"
    then obtain t n where tn: "archive_name n" "b \<in> set (blocks_at d' t n)" by blast
    then show "taken e d' b" using assms(4,5) o(1) new by (cases "t = table") auto
  qed
  moreover have "set (blocks_at d' t n) \<inter> set (blocks_at d' t' n') = {}" if an: "archive_name n" "archive_name n'" "(t, n) \<noteq> (t', n')" for t n t' n'
  proof (cases "t = table"; cases "t' = table")
    assume t: "t = table" "t' = table"
    show ?thesis
    proof (rule ccontr)
      assume "set (blocks_at d' t n) \<inter> set (blocks_at d' t' n') \<noteq> {}"
      then obtain b where b: "b \<in> set (blocks_at d' table n)" "b \<in> set (blocks_at d' table n')" using t by blast
      then obtain i j where "i < length bs" "n = create_partition_name (int i + 1)" "b = bs ! i" "j < length bs" "n' = create_partition_name (int j + 1)" "b = bs ! j"
        using assms(8) [OF b(1) an(1)] assms(8) [OF b(2) an(2)] by blast
      then have "n = n'" using assms(2) nth_eq_iff_index_eq by metis
      then show False using t an(3) by simp
    qed
  next
    assume t: "t = table" "t' \<noteq> table"
    show ?thesis using old [OF t(2) an(2)] new [OF _ an(1)] t(1) by blast
  next
    assume t: "t \<noteq> table" "t' = table"
    show ?thesis using old [OF t(1) an(1)] new [OF _ an(2)] t(2) by blast
  next
    assume t: "t \<noteq> table" "t' \<noteq> table"
    show ?thesis using o(2) [OF an] assms(5) [OF t(1)] assms(5) [OF t(2)] by simp
  qed
  ultimately show ?thesis unfolding owned_def by blast
qed

lemma file_at_new_table:
  assumes "\<not> has_table d table"
  shows "file_at (d\<lparr>d_tables := d_tables d @ [(table, [])]\<rparr>) t n = file_at d t n" "file_at d table n = None"
  using assms by (auto simp: file_at_def has_table_map_of map_add_def split: option.splits)

context fs_libs
begin

lemma create_ok:
  assumes inv: "fs_inv e st" and t: "to_uppercase (cre_table_name input) \<notin> set dot_entries" "to_uppercase (cre_table_name input) \<noteq> []" "\<not> has_table (f_disk st) (to_uppercase (cre_table_name input))"
    and p: "1 \<le> cre_partitions input" "cre_partitions input \<le> int (free_count e (f_disk st))" and ct: "fits_long (cre_compaction_time input)"
  shows "\<exists>st'. process_create e input st = Inr (0, st') \<and> fs_inv e st' \<and> f_mem_table st' = f_mem_table st \<and>
    map fst (d_tables (f_disk st')) = map fst (d_tables (f_disk st)) @ [to_uppercase (cre_table_name input)] \<and>
    table_rep e (f_disk st') (to_uppercase (cre_table_name input)) (cre_compaction_time input) (cre_consistency input) (replicate (nat (cre_partitions input)) []) [] \<and>
    int (free_count e (f_disk st')) = int (free_count e (f_disk st)) - cre_partitions input \<and>
    (\<forall>t ct c parts tmps. table_rep e (f_disk st) t ct c parts tmps \<longrightarrow> table_rep e (f_disk st') t ct c parts tmps)"
proof -
  let ?t = "to_uppercase (cre_table_name input)" and ?d = "f_disk st" and ?n = "cre_partitions input"
  have i: "bitmap_ok ?d" "owned e {} ?d" "blocks_exist e ?d" "tables_ok e ?d" using inv by (auto simp: fs_inv_def disk_inv_def)
  obtain bm where bm: "read_bitmap ?d = Inr bm" "8 * int (length bm) < 2 ^ 31" using i(1) by (auto simp: bitmap_ok_def)
  obtain bs bm' where a: "assign_free_blocks e bm ?n = (bs, bm')" "int (length bs) = ?n" "distinct bs" "length bm' = length bm"
    "\<forall>b \<in> set bs. 1 \<le> b \<and> b \<le> bitmap_bits ?d \<and> \<not> taken e ?d b" "\<forall>b D. taken e (write_bitmap bm' D) b \<longleftrightarrow> taken e ?d b \<or> b \<in> set bs"
    using assign_ok [OF i(1) bm(1) _ p(2)] p(1) by auto
  let ?d1 = "?d\<lparr>d_tables := d_tables ?d @ [(?t, [])]\<rparr>"
  let ?md = "enc_int 8 (cre_compaction_time input) @ enc_int 1 (consistency_code (cre_consistency input)) @ enc_int 4 ?n"
  let ?d2 = "update_dir ?t (AList.update metadata_name ?md) ?d1"
  have h1: "has_table ?d1 ?t" by (simp add: has_table_def)
  obtain d3 where d3: "create_partitions_from 0 ?t bs ?d2 = Inr d3" "d_blocks d3 = d_blocks ?d" "d_bitmap d3 = d_bitmap ?d" "map fst (d_tables d3) = map fst (d_tables ?d) @ [?t]"
    "\<forall>j < length bs. file_at d3 ?t (create_partition_name (int j + 1)) = Some (archive_bytes [bs ! j] 0)"
    "\<forall>t n. (t \<noteq> ?t \<or> (\<forall>j < length bs. n \<noteq> create_partition_name (int j + 1))) \<longrightarrow> file_at d3 t n = file_at ?d2 t n"
    using create_partitions_from_ok [of ?d2 ?t 0 bs] h1 by auto
  let ?d' = "write_bitmap bm' d3"
  have fa: "file_at ?d' t n = file_at d3 t n" for t n by (simp add: file_at_def)
  have f2: "file_at ?d2 t n = (if t = ?t \<and> n = metadata_name then Some ?md else file_at ?d t n)" for t n
    using file_at_write [OF h1, of metadata_name ?md t n] file_at_new_table(1) [OF t(3), of t n] by simp
  have other: "file_at ?d' t n = file_at ?d t n" if "t \<noteq> ?t" for t n using fa d3(6) f2 that by simp
  have md: "file_at ?d' ?t metadata_name = Some ?md" using fa d3(6) f2 by simp
  have none: "file_at ?d' ?t n = None" if "n \<noteq> metadata_name" "\<forall>j < length bs. n \<noteq> create_partition_name (int j + 1)" for n
    using fa d3(6) f2 that file_at_new_table(2) [OF t(3)] by simp
  have part: "file_at ?d' ?t (create_partition_name (int j + 1)) = Some (archive_bytes [bs ! j] 0)" if "j < length bs" for j using fa d3(5) that by simp
  have bok: "bitmap_ok ?d'" "bitmap_bits ?d' = bitmap_bits ?d" using bitmap_ok_write [of bm' d3] a(4) bm by (simp_all add: bitmap_bits_def)
  have tk: "taken e ?d' b \<longleftrightarrow> taken e ?d b \<or> b \<in> set bs" for b using a(6) by blast
  have range: "1 \<le> b \<and> b < 2 ^ 31 \<and> d_blocks ?d' b = Some []" if "b \<in> set bs" for b
    using a(5) that i(3) d3(2) bm by (auto simp: blocks_exist_def bitmap_bits_def)
  have arch: "archive_rep e ?d' ?t (create_partition_name (int j + 1)) [bs ! j] []" if "j < length bs" for j
  proof -
    have "holds_blocks ?d' [bs ! j] [[]]" using range [OF nth_mem [OF that]] by (simp add: holds_blocks_def)
    then show ?thesis using part [OF that] range [OF nth_mem [OF that]]
      by (auto simp: archive_rep_def fits_int_def intro!: exI [of _ "[[]]"])
  qed
  have pn: "file_at ?d' ?t (create_partition_name k) \<noteq> None \<longleftrightarrow> 1 \<le> k \<and> k \<le> int (length bs)" for k
  proof (cases "1 \<le> k \<and> k \<le> int (length bs)")
    case True
    then have "nat (k - 1) < length bs" "int (nat (k - 1)) + 1 = k" by linarith+
    then show ?thesis using part True by fastforce
  next
    case False
    then have "\<forall>j < length bs. k \<noteq> int j + 1" by auto
    then show ?thesis using none [of "create_partition_name k"] False by simp
  qed
  have len: "length bs = nat ?n" using a(2) by linarith
  have rep: "table_rep e ?d' ?t (cre_compaction_time input) (cre_consistency input) (replicate (nat ?n) []) []"
  proof -
    have "has_table ?d' ?t" using d3(4) by (simp add: has_table_def del: list.set_map)
    moreover have "fits_int ?n"
    proof -
      have "card (free_set e ?d) \<le> card {1..bitmap_bits ?d}" by (rule card_mono) (auto simp: free_set_def)
      then have "?n \<le> bitmap_bits ?d" using p by (simp add: free_count_def)
      then show ?thesis using p(1) bm by (simp add: bitmap_bits_def fits_int_def)
    qed
    then have "read_table_metadata ?d' ?t = Inr (cre_compaction_time input, cre_consistency input, int (nat ?n))" using read_metadata [OF md ct] p(1) by simp
    moreover have "fs_name n" if "file_at ?d' ?t n \<noteq> None" for n using none that by (auto simp: fs_name_def)
    moreover have "file_at ?d' ?t get_tmpc_name = None" "file_at ?d' ?t (get_tmp_name k) = None" for k using none by simp_all
    moreover have "\<exists>bs. archive_rep e ?d' ?t (create_partition_name (int j + 1)) bs []" if "j < nat ?n" for j using arch that len by metis
    ultimately show ?thesis using t(1) p(1) pn len by (auto simp: table_rep_def parts_ok_def)
  qed
  have blk: "blocks_at ?d' t n = blocks_at ?d t n" if "t \<noteq> ?t" for t n using blocks_at_cong other [OF that] by metis
  have own: "owned e {} ?d'"
  proof (rule owned_new_table [OF i(2) a(3) _ tk])
    show "\<forall>b \<in> set bs. \<not> taken e ?d b" using a(5) by blast
    show "blocks_at ?d' t n = blocks_at ?d t n" if "t \<noteq> ?t" for t n using blk that .
    show "blocks_at ?d ?t n = []" for n using file_at_new_table(2) [OF t(3)] by (simp add: blocks_at_def)
    show "blocks_at ?d' ?t (create_partition_name (int j + 1)) = [bs ! j]" if "j < length bs" for j using archive_blocks_at [OF arch [OF that]] .
    show "\<exists>j < length bs. n = create_partition_name (int j + 1) \<and> b = bs ! j" if nb: "b \<in> set (blocks_at ?d' ?t n)" "archive_name n" for n b
    proof -
      have "file_at ?d' ?t n \<noteq> None" using blocks_at_file [OF nb(1)] .
      then obtain j where "j < length bs" "n = create_partition_name (int j + 1)" using none [of n] nb(2) archive_names(3) by metis
      then show ?thesis using archive_blocks_at [OF arch] nb(1) by auto
    qed
  qed
  have others: "table_rep e ?d' t ct c parts tmps" if r: "table_rep e ?d t ct c parts tmps" for t ct c parts tmps
  proof -
    have "t \<noteq> ?t" using r t(3) by (auto simp: table_rep_def)
    then show ?thesis using r d3(2,4) other by (intro table_rep_frame [OF r]) (auto simp: table_rep_def has_table_def simp del: list.set_map)
  qed
  have tok: "tables_ok e ?d'"
  proof -
    have "map fst (d_tables ?d') = map fst (d_tables ?d) @ [?t]" using d3(4) by simp
    moreover from this have "has_table ?d' t \<longleftrightarrow> has_table ?d t \<or> t = ?t" for t by (auto simp: has_table_def simp del: list.set_map)
    ultimately show ?thesis using i(4) t(3) rep others unfolding tables_ok_def by (simp add: has_table_def del: list.set_map) (metis others to_uppercase_idem)
  qed
  have "blocks_exist e ?d'" using i(3) bok(2) tk d3(2) range by (auto simp: blocks_exist_def)
  then have dinv: "disk_inv e ?d'" using bok own tok by (simp add: disk_inv_def)
  have "free_count e ?d = free_count e ?d' + length bs" by (rule free_count_taken [OF bok(2) tk _ a(3)]) (use a(5) in blast)
  then have fc: "int (free_count e ?d') = int (free_count e ?d) - ?n" using a(2) by linarith
  let ?st = "add_table_to_table_state_list ?t (st\<lparr>f_disk := ?d'\<rparr>)"
  have "?t \<notin> set (table_names ?d)" using t(1,3) by (simp add: table_names_def has_table_def)
  then have "process_create e input st = Inr (0, ?st)"
    using bm(1) a(1,2) p(1) t(2) h1 d3(1) by (simp add: process_create_def create_table_folder_def create_table_metadata_def create_partitions_def write_file_eq Let_def)
  moreover have "fs_inv e ?st" using inv dinv by (simp add: fs_inv_def add_table_to_table_state_list_def)
  ultimately show ?thesis using rep others fc d3(4) by (intro exI [of _ ?st]) (simp add: add_table_to_table_state_list_def)
qed

text \<open>The errors leave the state as it is.\<close>

lemma create_errors:
  assumes "fs_inv e st" "1 \<le> cre_partitions input"
  shows "int (free_count e (f_disk st)) < cre_partitions input \<Longrightarrow> process_create e input st = Inr (-2, st)"
    "cre_partitions input \<le> int (free_count e (f_disk st)) \<Longrightarrow>
     to_uppercase (cre_table_name input) = [] \<or> to_uppercase (cre_table_name input) \<in> set (table_names (f_disk st)) \<Longrightarrow> process_create e input st = Inr (-1, st)"
proof -
  have i: "bitmap_ok (f_disk st)" using assms(1) by (simp add: fs_inv_def disk_inv_def)
  obtain bm where bm: "read_bitmap (f_disk st) = Inr bm" using i by (auto simp: bitmap_ok_def)
  show "process_create e input st = Inr (-2, st)" if "int (free_count e (f_disk st)) < cre_partitions input"
    using assign_short [OF i bm that] bm assms(2) by (simp add: process_create_def Let_def split_beta)
  show "process_create e input st = Inr (-1, st)" if ex: "cre_partitions input \<le> int (free_count e (f_disk st))"
    "to_uppercase (cre_table_name input) = [] \<or> to_uppercase (cre_table_name input) \<in> set (table_names (f_disk st))"
  proof -
    obtain bs bm' where "assign_free_blocks e bm (cre_partitions input) = (bs, bm')" "int (length bs) = cre_partitions input"
      using assign_ok [OF i bm _ ex(1)] assms(2) by auto
    then show ?thesis using bm assms(2) ex(2) by (auto simp: process_create_def create_table_folder_def Let_def)
  qed
qed

lemma create_inv:
  assumes "fs_inv e st" "1 \<le> cre_partitions input" "fits_long (cre_compaction_time input)" "process_create e input st = Inr (status, st')"
  shows "fs_inv e st'"
proof -
  let ?t = "to_uppercase (cre_table_name input)"
  consider "int (free_count e (f_disk st)) < cre_partitions input"
    | "cre_partitions input \<le> int (free_count e (f_disk st))" "?t = [] \<or> ?t \<in> set (table_names (f_disk st))"
    | "cre_partitions input \<le> int (free_count e (f_disk st))" "?t \<noteq> []" "?t \<notin> set (table_names (f_disk st))" by linarith
  then show ?thesis
  proof cases
    case 3
    then have "?t \<notin> set dot_entries" "\<not> has_table (f_disk st) ?t" by (auto simp: table_names_def has_table_def)
    then show ?thesis using create_ok [OF assms(1) _ 3(2) _ assms(2) 3(1) assms(3)] assms(4) by auto
  qed (use create_errors [OF assms(1,2)] assms(1,4) in auto)
qed

end

section \<open>DESCRIBE\<close>

lemma describe_table_rep: "table_rep e d t ct c parts tmps \<Longrightarrow>
    describe_table d t = Inr \<lparr>md_table_name = t, md_consistency = c, md_partitions = int (length parts), md_compaction_time = ct\<rparr>"
  by (simp add: table_rep_def describe_table_def)

lemma describe_tables_total: "\<forall>t \<in> set ts. \<exists>m. describe_table d t = Inr m \<Longrightarrow> \<exists>ms. describe_tables d ts = Inr ms \<and> list_all2 (\<lambda>t m. describe_table d t = Inr m) ts ms"
  by (induction ts) (auto simp: list_all2_Cons1)

lemma get_tables_list_names:
  assumes "tables_ok e d"
  shows "get_tables_list d = map fst (d_tables d)"
proof -
  have t: "to_uppercase x = x \<and> x \<noteq> ''.'' \<and> x \<noteq> ''..''" if "x \<in> set (map fst (d_tables d))" for x
    using assms that unfolding tables_ok_def has_table_def table_rep_def dot_entries_def by auto
  have "filter (\<lambda>n. n \<noteq> ''.'' \<and> n \<noteq> ''..'') (table_names d) = map fst (d_tables d)"
    using t by (auto simp: table_names_def dot_entries_def intro!: filter_True)
  moreover have "map to_uppercase (map fst (d_tables d)) = map fst (d_tables d)" using t by (intro map_idI) blast
  ultimately show ?thesis by (simp add: get_tables_list_def)
qed

end
