(* ===== verification/FS_Merge.thy ===== *)
theory FS_Merge
  imports FS_Create
begin

text \<open>
  What a compaction computes: the records of the temporary files, read as one archive, are merged into the
  lists of the partitions. The merged lists have one record per key, which is a newest one.
\<close>

section \<open>Reading\<close>

lemma blocks_ok_append: "blocks_ok sz A \<Longrightarrow> blocks_ok sz B \<Longrightarrow> blocks_ok sz (A @ B)"
  by (induction A) auto

lemma blocks_ok_last: "blocks_ok sz Bs \<Longrightarrow> concat Bs = [] \<or> \<not> is_cut (last (concat Bs))"
proof (induction Bs)
  case (Cons ss Bs)
  show ?case
  proof (cases "concat Bs = []")
    case True
    then have "ss = [] \<or> \<not> is_cut (last ss)" using Cons.prems by (cases Bs) auto
    then show ?thesis using True by simp
  next
    case False
    then show ?thesis using Cons by auto
  qed
qed simp

lemma glue_append: "xs = [] \<and> p = [] \<or> xs \<noteq> [] \<and> \<not> is_cut (last xs) \<Longrightarrow> glue p (xs @ ys) = glue p xs @ glue [] ys"
proof (induction p xs rule: glue.induct)
  case (2 p s ss)
  then show ?case by (cases "ss = []") auto
qed auto

definition record_of :: "fs_env \<Rightarrow> string \<Rightarrow> fs_record" where
  "record_of e tkv = (case convert_record (e_cm e) tkv of Inr r \<Rightarrow> r | Inl _ \<Rightarrow> not_found)"

definition reads_as :: "fs_env \<Rightarrow> disk \<Rightarrow> int list \<Rightarrow> fs_record list \<Rightarrow> bool" where
  "reads_as e d bs rs \<longleftrightarrow> (\<forall>r \<in> set rs. rec_ok e r) \<and> (\<exists>Bs. holds_blocks d bs Bs \<and> blocks_ok (tkv_size e) Bs \<and> glue [] (concat Bs) = map convert_to_tkv rs)"

lemma reads_as_append: "reads_as e d bs rs \<Longrightarrow> reads_as e d bs' rs' \<Longrightarrow> reads_as e d (bs @ bs') (rs @ rs')"
proof -
  assume "reads_as e d bs rs" "reads_as e d bs' rs'"
  then obtain A B where A: "holds_blocks d bs A" "blocks_ok (tkv_size e) A" "glue [] (concat A) = map convert_to_tkv rs" "\<forall>r \<in> set rs. rec_ok e r"
    and B: "holds_blocks d bs' B" "blocks_ok (tkv_size e) B" "glue [] (concat B) = map convert_to_tkv rs'" "\<forall>r \<in> set rs'. rec_ok e r" by (auto simp: reads_as_def)
  have "holds_blocks d (bs @ bs') (A @ B)" using A(1) B(1) by (simp add: holds_blocks_def list_all2_appendI)
  moreover have "glue [] (concat (A @ B)) = map convert_to_tkv (rs @ rs')"
    using glue_append [of "concat A" "[]" "concat B"] blocks_ok_last [OF A(2)] A(3) B(3) by auto
  ultimately show ?thesis using blocks_ok_append [OF A(2) B(2)] A(4) B(4) unfolding reads_as_def by (metis Un_iff set_append)
qed

lemma archive_reads_as: "archive_rep e d t n bs rs \<Longrightarrow> reads_as e d bs rs"
  by (simp add: archive_rep_def reads_as_def)

context fs_reader
begin

lemma create_tkv_list_as: "reads_as e d (par_blocks par) rs \<Longrightarrow> create_tkv_list e d par = Inr rs"
proof -
  assume a: "reads_as e d (par_blocks par) rs"
  then obtain Bs where Bs: "holds_blocks d (par_blocks par) Bs" "blocks_ok (tkv_size e) Bs" "glue [] (concat Bs) = map convert_to_tkv rs" and ok: "\<forall>r \<in> set rs. rec_ok e r"
    by (auto simp: reads_as_def)
  have conv: "convert_record (e_cm e) (convert_to_tkv r) = Inr r" if "r \<in> set rs" for r using convert_record_tkv ok that by blast
  then have "\<forall>t \<in> set (glue [] (concat Bs)). length t < tkv_size e \<and> convert_record (e_cm e) t = Inr (record_of e t)"
    using Bs(3) ok by (auto simp: record_of_def rec_ok_def)
  from create_tkv_list_reads [OF Bs(1,2) refl this] have "create_tkv_list e d par = Inr (map (record_of e) (map convert_to_tkv rs))" using Bs(3) by simp
  moreover have "map (record_of e) (map convert_to_tkv rs) = rs" using conv by (simp add: record_of_def map_idI)
  ultimately show ?thesis by simp
qed

end

section \<open>Merging\<close>

lemma newest_ex: "\<exists>r. newest k rs r"
proof (cases "\<exists>x \<in> set rs. fr_key x = k")
  case True
  let ?S = "{x \<in> set rs. fr_key x = k}"
  have "finite ?S" "?S \<noteq> {}" using True by auto
  then have "Max (fr_timestamp ` ?S) \<in> fr_timestamp ` ?S" by (intro Max_in) auto
  then obtain r where r: "r \<in> ?S" "Max (fr_timestamp ` ?S) = fr_timestamp r" by blast
  have "\<forall>x \<in> ?S. fr_timestamp x \<le> fr_timestamp r" unfolding r(2) [symmetric] using \<open>finite ?S\<close> by (intro ballI Max_ge) auto
  then show ?thesis using True r(1) by (intro exI [of _ r]) (auto simp: newest_def)
next
  case False
  then show ?thesis by (auto simp: newest_def)
qed

lemma newest_sub:
  \<comment> \<open>the newest records of \<open>A\<close> are those of \<open>B\<close>, also together with others\<close>
  assumes "\<And>y. newest k A y \<Longrightarrow> newest k B y" "newest k (A @ C) y" "\<forall>x \<in> set A \<union> set B \<union> set C. 0 \<le> fr_timestamp x"
  shows "newest k (B @ C) y"
proof -
  obtain a where a: "newest k A a" using newest_ex by blast
  have b: "newest k B a" using assms(1) a .
  have nn: "\<forall>x \<in> set A. 0 \<le> fr_timestamp x" "\<forall>x \<in> set B. 0 \<le> fr_timestamp x" "\<forall>x \<in> set (A @ C). 0 \<le> fr_timestamp x" using assms(3) by auto
  show ?thesis
  proof (cases "a = not_found")
    case True
    have "\<forall>x \<in> set A. fr_key x \<noteq> k" using a nn(1) by (cases rule: newest_cases) (use True in auto)
    moreover have "\<forall>x \<in> set B. fr_key x \<noteq> k" using b nn(2) by (cases rule: newest_cases) (use True in auto)
    ultimately have "{x \<in> set (A @ C). fr_key x = k} = {x \<in> set (B @ C). fr_key x = k}" by auto
    then show ?thesis using newest_cong assms(2) by blast
  next
    case False
    have aA: "a \<in> set A" "fr_key a = k" using a nn(1) by (cases rule: newest_cases; use False in auto)+
    have aB: "\<forall>x \<in> set B. fr_key x = k \<longrightarrow> fr_timestamp x \<le> fr_timestamp a" using b nn(2) by (cases rule: newest_cases) (use False in auto)
    have y: "y \<in> set (A @ C)" "fr_key y = k" "\<forall>x \<in> set (A @ C). fr_key x = k \<longrightarrow> fr_timestamp x \<le> fr_timestamp y"
      using assms(2) nn(3) by (cases rule: newest_cases; use aA in auto)+
    have "y \<in> set (B @ C)"
    proof (cases "y \<in> set C")
      case F: False
      then have "newest k A y" using y by (auto simp: newest_def)
      then have "newest k B y" by (rule assms(1))
      then show ?thesis using nn(2) by (cases rule: newest_cases) (use y nn in \<open>force simp: not_found_def\<close>)+
    qed simp
    moreover have "fr_timestamp a \<le> fr_timestamp y" using y(3) aA by simp
    ultimately show ?thesis using y aB by (auto simp: newest_def)
  qed
qed

lemma add_record_keys:
  "fr_timestamp r \<noteq> -1 \<Longrightarrow> fr_key ` set (add_record_to_partition_list r xs) = insert (fr_key r) (fr_key ` set xs)"
  by (induction xs) (auto simp: copy_key_def)

lemma add_record_set: "fr_timestamp r \<noteq> -1 \<Longrightarrow> set (add_record_to_partition_list r xs) \<subseteq> insert r (set xs)"
  by (induction xs) (auto simp: copy_key_def)

lemma add_record_distinct: "fr_timestamp r \<noteq> -1 \<Longrightarrow> distinct (map fr_key xs) \<Longrightarrow> distinct (map fr_key (add_record_to_partition_list r xs))"
proof (induction xs)
  case (Cons x xs)
  then show ?case using add_record_keys [of r xs] by (auto simp: copy_key_def)
qed (simp add: copy_key_def)

lemma add_record_newest:
  assumes "distinct (map fr_key xs)" "0 \<le> fr_timestamp r" "\<forall>x \<in> set xs. 0 \<le> fr_timestamp x" "newest k (add_record_to_partition_list r xs) y"
  shows "newest k (xs @ [r]) y"
  using assms
proof (induction xs)
  case Nil
  then show ?case by (simp add: copy_key_def)
next
  case (Cons x xs)
  have c: "copy_key r = r" using Cons.prems(2) by (simp add: copy_key_def)
  have nk: "\<And>z. z \<in> set xs \<Longrightarrow> fr_key z \<noteq> fr_key x" using Cons.prems(1) by (metis distinct.simps(2) image_eqI list.set_map list.simps(9))
  consider (newer) "fr_key r = fr_key x" "fr_timestamp r > fr_timestamp x" | (older) "fr_key r = fr_key x" "\<not> fr_timestamp r > fr_timestamp x" | (other) "fr_key r \<noteq> fr_key x" by blast
  then show ?case
  proof cases
    case newer
    then have y: "newest k (xs @ [r]) y" using Cons.prems(4) c by simp
    show ?thesis
    proof (cases "k = fr_key x")
      case True
      then have "y = r" using y newer nk by (auto simp: newest_def split: if_splits)
      then show ?thesis using True newer nk by (auto simp: newest_def)
    next
      case False
      then show ?thesis using y newest_cong [of "x # xs @ [r]" k "xs @ [r]"] by auto
    qed
  next
    case older
    then have y: "newest k (x # xs) y" using Cons.prems(4) by simp
    show ?thesis
    proof (cases "k = fr_key x")
      case True
      then have "y = x" using y nk by (auto simp: newest_def split: if_splits)
      then show ?thesis using True older nk by (auto simp: newest_def)
    next
      case False
      then show ?thesis using y older newest_cong [of "x # xs @ [r]" k "x # xs"] by auto
    qed
  next
    case other
    have y: "newest k (x # add_record_to_partition_list r xs) y" using Cons.prems(4) other by simp
    show ?thesis
    proof (cases "k = fr_key x")
      case True
      have "k \<notin> fr_key ` set xs" "k \<notin> fr_key ` set (add_record_to_partition_list r xs)"
        using True Cons.prems(1,2) other add_record_keys [of r xs] by auto
      then have "{z \<in> set (x # add_record_to_partition_list r xs). fr_key z = k} = {z \<in> set ((x # xs) @ [r]). fr_key z = k}" using True other by (auto simp: image_iff)
      then show ?thesis using y newest_cong by blast
    next
      case False
      have "newest k (add_record_to_partition_list r xs) y" using y False newest_cong [of "x # add_record_to_partition_list r xs" k "add_record_to_partition_list r xs"] by auto
      then have "newest k (xs @ [r]) y" using Cons by simp
      then show ?thesis using False newest_cong [of "(x # xs) @ [r]" k "xs @ [r]"] by auto
    qed
  qed
qed

definition parts_cost :: "fs_record list list \<Rightarrow> nat" where
  "parts_cost parts = sum_list (map archive_cost parts)"

definition lists_of :: "fs_record list list \<Rightarrow> tkvs_per_partition_t list" where
  \<comment> \<open>the lists of the partitions with their numbers\<close>
  "lists_of parts = map (\<lambda>i. \<lparr>tpp_partition = int i + 1, tpp_tkvs = parts ! i\<rparr>) [0..<length parts]"

lemma length_lists_of [simp]: "length (lists_of parts) = length parts"
  by (simp add: lists_of_def)

lemma lists_of_update: "i < length parts \<Longrightarrow> (lists_of parts)[i := (lists_of parts ! i)\<lparr>tpp_tkvs := xs\<rparr>] = lists_of (parts[i := xs])"
  by (rule nth_equalityI) (auto simp: lists_of_def nth_list_update)

lemma add_record_cost: "fr_timestamp r \<noteq> -1 \<Longrightarrow> archive_cost (add_record_to_partition_list r xs) \<le> archive_cost xs + tkvs_cost [convert_to_tkv r]"
  by (induction xs) (auto simp: archive_cost_def tkvs_cost_def copy_key_def)

lemma parts_cost_update: "i < length parts \<Longrightarrow> archive_cost xs \<le> archive_cost (parts ! i) + n \<Longrightarrow> parts_cost (parts[i := xs]) \<le> parts_cost parts + n"
proof (induction parts arbitrary: i)
  case (Cons p parts)
  show ?case
  proof (cases i)
    case 0
    then show ?thesis using Cons.prems by (simp add: parts_cost_def)
  next
    case (Suc j)
    then show ?thesis using Cons.IH [of j] Cons.prems by (simp add: parts_cost_def)
  qed
qed simp

text \<open>One record put into its partition.\<close>

lemma merge_one:
  assumes "parts_ok parts" "parts \<noteq> []" "0 \<le> fr_key r" "0 \<le> fr_timestamp r" "\<forall>x \<in> set (concat parts). 0 \<le> fr_timestamp x \<and> 0 \<le> fr_key x"
  defines "i \<equiv> nat (fr_key r mod int (length parts))"
  defines "parts1 \<equiv> parts[i := add_record_to_partition_list r (parts ! i)]"
  shows "parts_ok parts1" "set (concat parts1) \<subseteq> insert r (set (concat parts))" "0 \<le> k \<Longrightarrow> newest k (concat parts1) y \<Longrightarrow> newest k (concat parts @ [r]) y"
    "parts_cost parts1 \<le> parts_cost parts + tkvs_cost [convert_to_tkv r]" "i < length parts"
proof -
  have n: "0 < int (length parts)" using assms(2) by simp
  have i: "i < length parts" "int i = fr_key r mod int (length parts)" using pos_mod_bound [OF n] pos_mod_sign [OF n] by (simp_all add: i_def nat_less_iff)
  show "i < length parts" by (rule i(1))
  have r1: "fr_timestamp r \<noteq> -1" using assms(4) by simp
  have nth1: "parts1 ! j = (if j = i then add_record_to_partition_list r (parts ! i) else parts ! j)" if "j < length parts" for j using that by (simp add: parts1_def)
  have len: "length parts1 = length parts" by (simp add: parts1_def)
  show ok1: "parts_ok parts1" unfolding parts_ok_def
  proof (intro allI impI)
    fix j assume "j < length parts1"
    then have j: "j < length parts" using len by simp
    have "distinct (map fr_key (parts ! j)) \<and> (\<forall>r \<in> set (parts ! j). fr_key r mod int (length parts) = int j)" using assms(1) j by (simp add: parts_ok_def)
    then show "distinct (map fr_key (parts1 ! j)) \<and> (\<forall>r \<in> set (parts1 ! j). fr_key r mod int (length parts1) = int j)"
      using nth1 [OF j] add_record_distinct [OF r1] add_record_set [OF r1, of "parts ! i"] i(2) len by auto
  qed
  have sub: "set (parts1 ! j) \<subseteq> insert r (set (parts ! j))" if "j < length parts" for j using nth1 [OF that] add_record_set [OF r1] by auto
  show "set (concat parts1) \<subseteq> insert r (set (concat parts))"
  proof
    fix x assume "x \<in> set (concat parts1)"
    then obtain j where "j < length parts" "x \<in> set (parts1 ! j)" unfolding in_concat_nth len by blast
    then show "x \<in> insert r (set (concat parts))" using sub [of j] nth_mem [of j parts] by auto
  qed
  show "parts_cost parts1 \<le> parts_cost parts + tkvs_cost [convert_to_tkv r]"
    unfolding parts1_def by (rule parts_cost_update [OF i(1) add_record_cost [OF r1]])
  show "newest k (concat parts @ [r]) y" if k: "0 \<le> k" and y: "newest k (concat parts1) y"
  proof -
    let ?j = "nat (k mod int (length parts))"
    have j: "?j < length parts" "int ?j = k mod int (length parts)" using pos_mod_bound [OF n] pos_mod_sign [OF n] by (simp_all add: nat_less_iff)
    have only: "{x \<in> set (concat ps). fr_key x = k} = {x \<in> set (ps ! ?j). fr_key x = k}" if "parts_ok ps" "length ps = length parts" for ps
    proof -
      have "x \<in> set (ps ! ?j)" if x: "x \<in> set (concat ps)" "fr_key x = k" for x
      proof -
        obtain m where m: "m < length ps" "x \<in> set (ps ! m)" using x(1) unfolding in_concat_nth by blast
        then have "int m = k mod int (length parts)" using \<open>parts_ok ps\<close> \<open>length ps = length parts\<close> x(2) by (auto simp: parts_ok_def)
        then have "m = ?j" by simp
        then show ?thesis using m(2) by simp
      qed
      moreover have "ps ! ?j \<in> set ps" using j(1) that(2) by simp
      then have "set (ps ! ?j) \<subseteq> set (concat ps)" by auto
      ultimately show ?thesis by blast
    qed
    have y1: "newest k (parts1 ! ?j) y" using y newest_cong [OF only [OF ok1 len]] by blast
    show ?thesis
    proof (cases "?j = i")
      case True
      then have "newest k (add_record_to_partition_list r (parts ! i)) y" using y1 nth1 [OF j(1)] by simp
      moreover have "distinct (map fr_key (parts ! i))" using assms(1) i(1) by (simp add: parts_ok_def)
      moreover have "\<forall>x \<in> set (parts ! i). 0 \<le> fr_timestamp x" using assms(5) nth_mem [OF i(1)] by auto
      ultimately have "newest k (parts ! i @ [r]) y" using add_record_newest assms(4) by blast
      moreover have "{x \<in> set (parts ! i @ [r]). fr_key x = k} = {x \<in> set (concat parts @ [r]). fr_key x = k}" using only [OF assms(1) refl] True by auto
      ultimately show ?thesis using newest_cong by blast
    next
      case False
      then have "newest k (parts ! ?j) y" using y1 nth1 [OF j(1)] by simp
      moreover have "fr_key r \<noteq> k" using False i(2) j(2) by (metis of_nat_eq_iff)
      then have "{x \<in> set (parts ! ?j). fr_key x = k} = {x \<in> set (concat parts @ [r]). fr_key x = k}" using only [OF assms(1) refl] by auto
      ultimately show ?thesis using newest_cong by blast
    qed
  qed
qed

lemma merge_ok:
  assumes "parts_ok parts" "parts \<noteq> []" "\<forall>x \<in> set rs. rec_ok e x" "\<forall>x \<in> set (concat parts). rec_ok e x"
  shows "\<exists>parts'. get_tkvs_to_insert rs (lists_of parts) = Inr (lists_of parts') \<and> length parts' = length parts \<and> parts_ok parts' \<and>
    set (concat parts') \<subseteq> set rs \<union> set (concat parts) \<and> parts_cost parts' \<le> parts_cost parts + tkvs_cost (map convert_to_tkv rs) \<and>
    (\<forall>k y. 0 \<le> k \<longrightarrow> newest k (concat parts') y \<longrightarrow> newest k (concat parts @ rs) y)"
  using assms
proof (induction rs arbitrary: parts)
  case Nil
  then show ?case by (auto simp: tkvs_cost_def)
next
  case (Cons r rs)
  let ?i = "nat (fr_key r mod int (length parts))"
  let ?p = "parts[?i := add_record_to_partition_list r (parts ! ?i)]"
  have nn: "\<forall>x \<in> set (concat parts). 0 \<le> fr_timestamp x \<and> 0 \<le> fr_key x" "0 \<le> fr_key r" "0 \<le> fr_timestamp r" using Cons.prems(3,4) by (auto simp: rec_ok_def)
  note m = merge_one [OF Cons.prems(1,2) nn(2,3,1)]
  have lo: "lists_of parts ! ?i = \<lparr>tpp_partition = int ?i + 1, tpp_tkvs = parts ! ?i\<rparr>" using m(5) by (simp add: lists_of_def)
  have step: "get_tkvs_to_insert (r # rs) (lists_of parts) = get_tkvs_to_insert rs (lists_of ?p)"
  proof -
    have "lists_of parts \<noteq> []" using Cons.prems(2) by (metis length_0_conv length_lists_of)
    moreover have "trunc_mod (fr_key r) (int (length parts)) = fr_key r mod int (length parts)" using nn(2) Cons.prems(2) by (simp add: trunc_mod_nonneg)
    moreover have "(lists_of parts)[?i := (lists_of parts ! ?i)\<lparr>tpp_tkvs := add_record_to_partition_list r (tpp_tkvs (lists_of parts ! ?i))\<rparr>] = lists_of ?p"
      using lists_of_update [OF m(5)] lo by simp
    ultimately show ?thesis by (simp add: Let_def)
  qed
  have rec1: "\<forall>x \<in> set (concat ?p). rec_ok e x" using m(2) Cons.prems(3,4) by auto
  have "?p \<noteq> []" using Cons.prems(2) by simp
  then obtain parts' where p': "get_tkvs_to_insert rs (lists_of ?p) = Inr (lists_of parts')" "length parts' = length ?p" "parts_ok parts'"
    "set (concat parts') \<subseteq> set rs \<union> set (concat ?p)" "parts_cost parts' \<le> parts_cost ?p + tkvs_cost (map convert_to_tkv rs)"
    "\<forall>k y. 0 \<le> k \<longrightarrow> newest k (concat parts') y \<longrightarrow> newest k (concat ?p @ rs) y"
    using Cons.IH [OF m(1) _ _ rec1] Cons.prems(3) by auto
  have "newest k (concat parts @ r # rs) y" if "0 \<le> k" "newest k (concat parts') y" for k y
  proof -
    have a: "\<forall>x \<in> set (concat ?p). 0 \<le> fr_timestamp x" using rec1 unfolding rec_ok_def by blast
    have b: "\<forall>x \<in> set (concat parts @ [r]) \<union> set rs. 0 \<le> fr_timestamp x" using Cons.prems(3,4) unfolding rec_ok_def by auto
    have "\<forall>x \<in> set (concat ?p) \<union> set (concat parts @ [r]) \<union> set rs. 0 \<le> fr_timestamp x" 
      using a b by blast
    from newest_sub [OF _ _ this] have "newest k ((concat parts @ [r]) @ rs) y" using m(3) [OF that(1)] p'(6) that by blast
    then show ?thesis by simp
  qed
  moreover have "parts_cost parts' \<le> parts_cost parts + tkvs_cost (map convert_to_tkv (r # rs))" using p'(5) m(4) by (simp add: tkvs_cost_def)
  moreover have "set (concat parts') \<subseteq> set (r # rs) \<union> set (concat parts)" using p'(4) m(2) by auto
  ultimately show ?case using step p'(1-3) by (intro exI [of _ parts']) simp
qed

end
