(* ===== verification/FS_Compact.thy ===== *)
theory FS_Compact
  imports FS_Merge
begin

text \<open>
  The compaction of a table: its temporary files are merged into its partitions, their blocks and the old ones of the
  partitions are freed, and for every key the newest record stays the same.
\<close>

section \<open>Reading the temporary files and the partitions\<close>

lemma reads_as_Nil: "reads_as e d [] []"
  by (auto simp: reads_as_def holds_blocks_def intro: exI [of _ "[]"])

lemma reads_as_cong: "d_blocks d' = d_blocks d \<Longrightarrow> reads_as e d' bs rs = reads_as e d bs rs"
  by (simp add: reads_as_def holds_blocks_def)

lemma concat_tmps_ok:
  assumes "\<forall>n \<in> set ns. \<exists>bs. archive_rep e d table (get_tmp_name n) bs (R n)"
  shows "\<exists>p. concat_tmps d table ns = Inr p \<and> reads_as e d (par_blocks p) (concat (map R ns))"
  using assms
proof (induction ns)
  case (Cons n ns)
  then obtain bs where a: "archive_rep e d table (get_tmp_name n) bs (R n)" by auto
  obtain p where p: "read_fs_archive d table (get_tmp_name n) = Inr p" "par_blocks p = bs" using archive_rep_read [OF a] by blast
  obtain q where q: "concat_tmps d table ns = Inr q" "reads_as e d (par_blocks q) (concat (map R ns))" using Cons by auto
  show ?case using p q reads_as_append [OF archive_reads_as [OF a] q(2)] by simp
qed (simp add: reads_as_Nil)

lemma all_tmps_ok:
  assumes "table_rep0 e d table ct c parts tmps"
  shows "\<exists>p. get_all_blocks_from_all_tmps d table = Inr p \<and> reads_as e d (par_blocks p) (concat tmps)"
proof -
  let ?ns = "[1..<Suc (length tmps)]"
  have "\<exists>bs. archive_rep e d table (get_tmp_name n) bs (tmps ! (n - 1))" if n: "n \<in> set ?ns" for n
  proof -
    have "n = Suc (n - 1)" "n - 1 < length tmps" using n unfolding set_upt by auto
    then show ?thesis using assms unfolding table_rep0_def by metis
  qed
  then obtain p where "concat_tmps d table ?ns = Inr p" "reads_as e d (par_blocks p) (concat (map (\<lambda>n. tmps ! (n - 1)) ?ns))"
    using concat_tmps_ok [of ?ns e d table "\<lambda>n. tmps ! (n - 1)"] by blast
  moreover have "map (\<lambda>n. tmps ! (n - 1)) ?ns = tmps" by (rule nth_equalityI) (simp_all del: upt_Suc)
  ultimately show ?thesis unfolding get_all_blocks_from_all_tmps_def table_rep0_tmps [OF assms] by auto
qed

context fs_reader
begin

lemma partition_tkvs_ok:
  assumes "\<forall>i \<in> set is. \<exists>bs. archive_rep e d table (create_partition_name (int i + 1)) bs (parts ! i)"
  shows "partition_tkvs_from e d table is = Inr (map (\<lambda>i. \<lparr>tpp_partition = int i + 1, tpp_tkvs = parts ! i\<rparr>) is)"
  using assms
proof (induction "is")
  case (Cons i "is")
  then obtain bs where a: "archive_rep e d table (create_partition_name (int i + 1)) bs (parts ! i)" by auto
  obtain p where p: "read_fs_archive d table (create_partition_name (int i + 1)) = Inr p" "par_blocks p = bs" using archive_rep_read [OF a] by blast
  have "create_tkv_list e d p = Inr (parts ! i)" using create_tkv_list_as archive_reads_as [OF a] p(2) by simp
  then show ?case using Cons p(1) by simp
qed simp

lemma partition_lists_ok: "table_rep0 e d table ct c parts tmps \<Longrightarrow> create_partition_tkv_list e d table (int (length parts)) = Inr (lists_of parts)"
  using partition_tkvs_ok [of "[0..<length parts]" d table parts] by (simp add: table_rep0_def create_partition_tkv_list_def lists_of_def)

end

section \<open>The file of a compaction\<close>

lemma tmpc_written:
  fixes content :: bytes
  assumes "table_rep0 e d table ct c parts tmps"
  defines "d1 \<equiv> update_dir table (AList.update get_tmpc_name content) d"
  shows "table_rep0 e d1 table ct c parts tmps" "\<And>t n. archive_name n \<Longrightarrow> file_at d1 t n = file_at d t n" "\<And>t n. t \<noteq> table \<Longrightarrow> file_at d1 t n = file_at d t n"
    "read_bitmap d1 = read_bitmap d" "d_blocks d1 = d_blocks d" "map fst (d_tables d1) = map fst (d_tables d)"
proof -
  have h: "has_table d table" using assms(1) by (simp add: table_rep0_def)
  have f: "file_at d1 t n = (if t = table \<and> n = get_tmpc_name then Some content else file_at d t n)" for t n unfolding d1_def by (rule file_at_write [OF h])
  show "\<And>t n. archive_name n \<Longrightarrow> file_at d1 t n = file_at d t n" using f by auto
  show "\<And>t n. t \<noteq> table \<Longrightarrow> file_at d1 t n = file_at d t n" using f by simp
  show "read_bitmap d1 = read_bitmap d" by (simp add: d1_def read_bitmap_def)
  show b: "d_blocks d1 = d_blocks d" "map fst (d_tables d1) = map fst (d_tables d)" by (simp_all add: d1_def)
  have a: "archive_rep e d1 table n bs rs \<longleftrightarrow> archive_rep e d table n bs rs" if "n \<noteq> get_tmpc_name" for n bs rs
    using f b(1) that by (simp add: archive_rep_def holds_blocks_def)
  have "fs_name n" if "file_at d1 table n \<noteq> None" for n using that f assms(1) by (auto simp: table_rep0_def fs_name_def split: if_splits)
  moreover have "has_table d1 table" using h by (simp add: d1_def)
  ultimately show "table_rep0 e d1 table ct c parts tmps"
    using assms(1) a f read_metadata_cong [of d1 table d] by (simp add: table_rep0_def)
qed

lemma file_at_destroy_tmps: "file_at (destroy_all_tmps table d) t n = (if t = table \<and> (\<exists>k \<in> set (tmp_numbers d table). n = get_tmp_name k) then None else file_at d t n)"
  "d_blocks (destroy_all_tmps table d) = d_blocks d" "d_bitmap (destroy_all_tmps table d) = d_bitmap d" "map fst (d_tables (destroy_all_tmps table d)) = map fst (d_tables d)"
proof -
  have "file_at (fold (\<lambda>n. remove_file table (get_tmp_name n)) ns d) t n = (if t = table \<and> (\<exists>k \<in> set ns. n = get_tmp_name k) then None else file_at d t n) \<and>
      d_blocks (fold (\<lambda>n. remove_file table (get_tmp_name n)) ns d) = d_blocks d \<and> d_bitmap (fold (\<lambda>n. remove_file table (get_tmp_name n)) ns d) = d_bitmap d \<and>
      map fst (d_tables (fold (\<lambda>n. remove_file table (get_tmp_name n)) ns d)) = map fst (d_tables d)" for ns
    by (induction ns arbitrary: d) (auto simp: file_at_remove)
  then show "file_at (destroy_all_tmps table d) t n = (if t = table \<and> (\<exists>k \<in> set (tmp_numbers d table). n = get_tmp_name k) then None else file_at d t n)"
    "d_blocks (destroy_all_tmps table d) = d_blocks d" "d_bitmap (destroy_all_tmps table d) = d_bitmap d" "map fst (d_tables (destroy_all_tmps table d)) = map fst (d_tables d)"
    by (simp_all add: destroy_all_tmps_def)
qed

section \<open>The new partitions\<close>

definition new_names :: "string \<Rightarrow> tkvs_per_partition_t list \<Rightarrow> (string \<times> string) set" where
  "new_names table ps = {(table, create_partition_name (tpp_partition p)) | p. p \<in> set ps}"

context fs_libs
begin

lemma create_new_partitions_ok:
  assumes "bitmap_ok d" "owned e S d" "blocks_exist e d" "has_table d table" "to_uppercase table = table" "2 \<le> e_block_size e" "distinct (map tpp_partition ps)" "new_names table ps \<subseteq> S"
    "\<forall>p \<in> set ps. \<forall>r \<in> set (tpp_tkvs p). rec_ok e r" "sum_list (map (\<lambda>p. archive_cost (tpp_tkvs p)) ps) \<le> free_count e d"
  shows "\<exists>d'. create_new_partitions e table ps d = Inr d' \<and> bitmap_ok d' \<and> owned e (S - new_names table ps) d' \<and> blocks_exist e d' \<and>
    (\<forall>p \<in> set ps. \<exists>bs. archive_rep e d' table (create_partition_name (tpp_partition p)) bs (tpp_tkvs p)) \<and>
    (\<forall>t n. (t, n) \<notin> new_names table ps \<longrightarrow> file_at d' t n = file_at d t n) \<and> (\<forall>b. taken e d b \<longrightarrow> taken e d' b \<and> d_blocks d' b = d_blocks d b) \<and>
    map fst (d_tables d') = map fst (d_tables d)"
  using assms
proof (induction ps arbitrary: d S)
  case Nil
  then show ?case by (simp add: new_names_def)
next
  case (Cons p ps)
  let ?n = "create_partition_name (tpp_partition p)"
  have room: "archive_cost (tpp_tkvs p) + sum_list (map (\<lambda>p. archive_cost (tpp_tkvs p)) ps) \<le> free_count e d" using Cons.prems(10) by simp
  obtain w w1 sz where w: "first_block e d = Inr w" "write_tkvs e (map convert_to_tkv (tpp_tkvs p)) w = Inr w1" "size_of_all_tkvs e (map convert_to_tkv (tpp_tkvs p)) = Inr sz"
    "\<exists>d'. write_file table ?n (archive_bytes (w_blocks w1) sz) (w_disk w1) = Inr d' \<and> written e d table ?n (w_blocks w1) (tpp_tkvs p) d' \<and> sum_list (map (\<lambda>p. archive_cost (tpp_tkvs p)) ps) \<le> free_count e d'"
    using archive_fits [OF Cons.prems(1,6) _ Cons.prems(4) room] Cons.prems(9) by (metis list.set_intros(1))
  then obtain d1 where d1: "write_file table ?n (archive_bytes (w_blocks w1) sz) (w_disk w1) = Inr d1" "written e d table ?n (w_blocks w1) (tpp_tkvs p) d1"
    "sum_list (map (\<lambda>p. archive_cost (tpp_tkvs p)) ps) \<le> free_count e d1" by blast
  have c: "create_partition e table p d = Inr d1" using w(1-3) d1(1) Cons.prems(5) by (simp add: create_partition_def create_fs_archive_def Let_def)
  have inS: "(table, ?n) \<in> S" using Cons.prems(8) by (auto simp: new_names_def)
  have own1: "owned e (S - {(table, ?n)}) d1" by (rule written_owned [OF Cons.prems(2) d1(2) inS]) simp
  have names1: "map fst (d_tables d1) = map fst (d_tables d)" and h1: "has_table d1 table" using d1(2) Cons.prems(4) by (simp_all add: written_def has_table_def del: list.set_map)
  have sub: "new_names table ps \<subseteq> S - {(table, ?n)}"
  proof
    fix x assume "x \<in> new_names table ps"
    then obtain q where q: "q \<in> set ps" "x = (table, create_partition_name (tpp_partition q))" by (auto simp: new_names_def)
    then have "tpp_partition q \<noteq> tpp_partition p" using Cons.prems(7) by (metis distinct.simps(2) image_eqI list.set_map list.simps(9))
    then show "x \<in> S - {(table, ?n)}" using q Cons.prems(8) by (auto simp: new_names_def)
  qed
  have b1: "bitmap_ok d1" "blocks_exist e d1" using d1(2) written_blocks_exist [OF Cons.prems(3) d1(2)] by (simp_all add: written_def)
  obtain d' where d': "create_new_partitions e table ps d1 = Inr d'" "bitmap_ok d'" "owned e (S - {(table, ?n)} - new_names table ps) d'" "blocks_exist e d'"
    "\<forall>p \<in> set ps. \<exists>bs. archive_rep e d' table (create_partition_name (tpp_partition p)) bs (tpp_tkvs p)"
    "\<forall>t n. (t, n) \<notin> new_names table ps \<longrightarrow> file_at d' t n = file_at d1 t n" "\<forall>b. taken e d1 b \<longrightarrow> taken e d' b \<and> d_blocks d' b = d_blocks d1 b" "map fst (d_tables d') = map fst (d_tables d1)"
    using Cons.IH [OF b1(1) own1 b1(2) h1 Cons.prems(5,6) _ sub] Cons.prems(7,9) d1(3) by auto
  have nn: "new_names table (p # ps) = insert (table, ?n) (new_names table ps)" by (auto simp: new_names_def)
  have "archive_rep e d' table ?n (w_blocks w1) (tpp_tkvs p)"
  proof (rule archive_rep_frame [of e d1])
    show "archive_rep e d1 table ?n (w_blocks w1) (tpp_tkvs p)" using d1(2) by (simp add: written_def)
    show "file_at d' table ?n = file_at d1 table ?n" using d'(6) sub by blast
    show "d_blocks d' b = d_blocks d1 b" if "b \<in> set (w_blocks w1)" for b using d'(7) d1(2) that by (auto simp: written_def)
  qed
  moreover have "taken e d' b \<and> d_blocks d' b = d_blocks d b" if "taken e d b" for b
  proof -
    have "taken e d1 b" "d_blocks d1 b = d_blocks d b" using d1(2) that by (auto simp: written_def)
    then show ?thesis using d'(7) by simp
  qed
  moreover have "file_at d' t n = file_at d t n" if "(t, n) \<notin> new_names table (p # ps)" for t n
  proof -
    have "(t, n) \<noteq> (table, ?n)" "(t, n) \<notin> new_names table ps" using that nn by auto
    then show ?thesis using d'(6) d1(2) unfolding written_def by metis
  qed
  moreover have "S - new_names table (p # ps) = S - {(table, ?n)} - new_names table ps" unfolding nn by blast
  ultimately show ?case using c d' names1 by (simp only: create_new_partitions.simps rbind_simps) auto
qed

end

section \<open>Writing\<close>

lemma lists_of_facts: "distinct (map tpp_partition (lists_of parts))" "sum_list (map (\<lambda>p. archive_cost (tpp_tkvs p)) (lists_of parts)) = parts_cost parts"
  "p \<in> set (lists_of parts) \<longleftrightarrow> (\<exists>i < length parts. p = \<lparr>tpp_partition = int i + 1, tpp_tkvs = parts ! i\<rparr>)"
  "(t, n) \<in> new_names table (lists_of parts) \<longleftrightarrow> t = table \<and> (\<exists>i < length parts. n = create_partition_name (int i + 1))"
proof -
  show "distinct (map tpp_partition (lists_of parts))" by (simp add: lists_of_def comp_def distinct_map inj_on_def)
  have "map (\<lambda>p. archive_cost (tpp_tkvs p)) (lists_of parts) = map archive_cost parts" by (rule nth_equalityI) (simp_all add: lists_of_def)
  then show "sum_list (map (\<lambda>p. archive_cost (tpp_tkvs p)) (lists_of parts)) = parts_cost parts" by (simp add: parts_cost_def)
  show m: "p \<in> set (lists_of parts) \<longleftrightarrow> (\<exists>i < length parts. p = \<lparr>tpp_partition = int i + 1, tpp_tkvs = parts ! i\<rparr>)" for p
    by (auto simp: lists_of_def)
  show "(t, n) \<in> new_names table (lists_of parts) \<longleftrightarrow> t = table \<and> (\<exists>i < length parts. n = create_partition_name (int i + 1))"
    unfolding new_names_def m by (auto intro!: exI [of _ "\<lparr>tpp_partition = int _ + 1, tpp_tkvs = parts ! _\<rparr>"])
qed

context fs_libs
begin

lemma compact_disk_ok:
  assumes "bitmap_ok d" "owned e {} d" "blocks_exist e d" "table_rep0 e d table ct c parts tmps" "to_uppercase table = table" "2 \<le> e_block_size e"
    "length parts' = length parts" "parts_ok parts'" "\<forall>r \<in> set (concat parts'). rec_ok e r" "parts_cost parts' \<le> free_count e d"
  shows "\<exists>bm bm1 d1 bm2 d2 d'. read_bitmap d = Inr bm \<and> free_partitions e table bm d = Inr (bm1, d1) \<and> free_blocks_of_all_tmps e table bm1 d1 = Inr (bm2, d2) \<and>
    create_new_partitions e table (lists_of parts') (remove_file table get_tmpc_name (write_bitmap bm2 (destroy_all_tmps table d2))) = Inr d' \<and>
    bitmap_ok d' \<and> owned e {} d' \<and> blocks_exist e d' \<and> table_rep e d' table ct c parts' [] \<and> map fst (d_tables d') = map fst (d_tables d) \<and>
    (\<forall>t ct c parts tmps. t \<noteq> table \<longrightarrow> table_rep e d t ct c parts tmps \<longrightarrow> table_rep e d' t ct c parts tmps)"
proof -
  obtain bm where bm: "read_bitmap d = Inr bm" using assms(1) by (auto simp: bitmap_ok_def)
  obtain bm1 d1 bm2 d2 where f: "free_partitions e table bm d = Inr (bm1, d1)" "free_blocks_of_all_tmps e table bm1 d1 = Inr (bm2, d2)"
    "freed e d (table_blocks d table) (write_bitmap bm2 d2)" "d_tables d2 = d_tables d"
    using free_table_ok [OF assms(1) bm assms(2,4)] by blast
  let ?d4 = "remove_file table get_tmpc_name (write_bitmap bm2 (destroy_all_tmps table d2))"
  have rb: "read_bitmap ?d4 = read_bitmap (write_bitmap bm2 d2)" by (simp add: read_bitmap_def write_bitmap_def)
  have fr: "bitmap_ok ?d4" "bitmap_bits ?d4 = bitmap_bits d" "\<And>b. taken e ?d4 b \<longleftrightarrow> taken e d b \<and> b \<notin> table_blocks d table"
    "\<And>b. d_blocks ?d4 b = (if b \<in> table_blocks d table then Some [] else d_blocks d b)"
    using f(3) taken_same [OF rb, of e] bits_same [OF rb] file_at_destroy_tmps(2) [of table d2] by (auto simp: freed_def bitmap_ok_def rb)
  have tn: "tmp_numbers d2 table = tmp_numbers d table" using tmp_numbers_cong [OF f(4)] .
  have tmp: "k \<in> set (tmp_numbers d table) \<longleftrightarrow> file_at d table (get_tmp_name k) \<noteq> None" for k
    using assms(4) unfolding table_rep0_tmps [OF assms(4)] table_rep0_def by (auto simp del: upt_Suc)
  have fa: "file_at ?d4 t n = (if t = table \<and> (n = get_tmpc_name \<or> (\<exists>k. n = get_tmp_name k)) then None else file_at d t n)" for t n
  proof -
    have "file_at (write_bitmap bm2 (destroy_all_tmps table d2)) t n = file_at (destroy_all_tmps table d2) t n" by (simp add: file_at_def)
    also have "\<dots> = (if t = table \<and> (\<exists>k \<in> set (tmp_numbers d table). n = get_tmp_name k) then None else file_at d t n)"
      unfolding file_at_destroy_tmps(1) tn file_at_cong [OF f(4)] ..
    also have "\<dots> = (if t = table \<and> (\<exists>k. n = get_tmp_name k) then None else file_at d t n)" using tmp by auto
    finally show ?thesis unfolding file_at_remove by auto
  qed
  have names4: "map fst (d_tables ?d4) = map fst (d_tables d)" using file_at_destroy_tmps(4) [of table d2] f(4) by simp
  have h4: "has_table ?d4 table" using assms(4) names4 by (simp add: table_rep0_def has_table_def del: list.set_map)
  let ?S = "new_names table (lists_of parts')"
  have pout: "file_at d table (create_partition_name i) = None" if "(table, create_partition_name i) \<notin> ?S" for i
  proof -
    have "\<not> (1 \<le> i \<and> i \<le> int (length parts))"
    proof
      assume r: "1 \<le> i \<and> i \<le> int (length parts)"
      then obtain j where "i - 1 = int j" by (metis diff_ge_0_iff_ge nonneg_int_cases)
      then have "j < length parts'" "i = int j + 1" using r assms(7) by linarith+
      then show False using that unfolding lists_of_facts(4) by blast
    qed
    then show ?thesis using assms(4) unfolding table_rep0_def by blast
  qed
  have own4: "owned e ?S ?d4"
  proof (rule owned_free_table [OF assms(2) fr(3)])
    show "blocks_at ?d4 t n = blocks_at d t n" if "t \<noteq> table" for t n by (rule blocks_at_cong) (use fa that in simp)
    show "blocks_at ?d4 table n = []" if "archive_name n" "(table, n) \<notin> ?S" for n
      using that fa [of table n] pout by (auto simp: archive_name_def blocks_at_def)
    show "t = table" if "(t, n) \<in> ?S" for t n using that unfolding lists_of_facts(4) by blast
  qed
  have ex4: "blocks_exist e ?d4" using assms(3) fr(2-4) by (auto simp: blocks_exist_def)
  have "free_set e d \<subseteq> free_set e ?d4" using fr(2,3) by (auto simp: free_set_def)
  then have "free_count e d \<le> free_count e ?d4" by (simp add: free_count_def card_mono)
  then have room: "sum_list (map (\<lambda>p. archive_cost (tpp_tkvs p)) (lists_of parts')) \<le> free_count e ?d4" using assms(10) lists_of_facts(2) [of parts'] by simp
  have recs: "\<forall>p \<in> set (lists_of parts'). \<forall>r \<in> set (tpp_tkvs p). rec_ok e r"
  proof (intro ballI)
    fix p r assume "p \<in> set (lists_of parts')" "r \<in> set (tpp_tkvs p)"
    then obtain i where i: "i < length parts'" "r \<in> set (parts' ! i)" unfolding lists_of_facts(3) by auto
    then have "r \<in> set (concat parts')" using nth_mem [OF i(1)] by auto
    then show "rec_ok e r" using assms(9) by blast
  qed
  obtain d' where d': "create_new_partitions e table (lists_of parts') ?d4 = Inr d'" "bitmap_ok d'" "owned e (?S - ?S) d'" "blocks_exist e d'"
    "\<forall>p \<in> set (lists_of parts'). \<exists>bs. archive_rep e d' table (create_partition_name (tpp_partition p)) bs (tpp_tkvs p)"
    "\<forall>t n. (t, n) \<notin> ?S \<longrightarrow> file_at d' t n = file_at ?d4 t n" "\<forall>b. taken e ?d4 b \<longrightarrow> taken e d' b \<and> d_blocks d' b = d_blocks ?d4 b" "map fst (d_tables d') = map fst (d_tables ?d4)"
    using create_new_partitions_ok [OF fr(1) own4 ex4 h4 assms(5,6) lists_of_facts(1) order_refl recs room] by blast
  have arch: "\<exists>bs. archive_rep e d' table (create_partition_name (int i + 1)) bs (parts' ! i)" if "i < length parts'" for i
  proof -
    have "\<lparr>tpp_partition = int i + 1, tpp_tkvs = parts' ! i\<rparr> \<in> set (lists_of parts')" using that unfolding lists_of_facts(3) by blast
    then show ?thesis using d'(5) by fastforce
  qed
  have out: "file_at d' table n = file_at ?d4 table n" if "(table, n) \<notin> ?S" for n using d'(6) that by blast
  have pn: "file_at d' table (create_partition_name i) \<noteq> None \<longleftrightarrow> 1 \<le> i \<and> i \<le> int (length parts')" for i
  proof (cases "(table, create_partition_name i) \<in> ?S")
    case True
    then obtain j where j: "j < length parts'" "i = int j + 1" unfolding lists_of_facts(4) by auto
    then show ?thesis using arch by (fastforce simp: archive_rep_def)
  next
    case False
    then have "file_at d' table (create_partition_name i) = None" using out fa pout by simp
    moreover have "file_at d table (create_partition_name i) = None" using pout False .
    ultimately show ?thesis using assms(4) unfolding assms(7) table_rep0_def by metis
  qed
  have notS: "(table, n) \<notin> ?S" if "\<And>i. n \<noteq> create_partition_name i" for n using that unfolding lists_of_facts(4) by blast
  have rest: "file_at d' table metadata_name = file_at d table metadata_name" "file_at d' table get_tmpc_name = None" "file_at d' table (get_tmp_name k) = None" for k
    using out notS fa by simp_all
  have "fs_name n" if "file_at d' table n \<noteq> None" for n
  proof (cases "(table, n) \<in> ?S")
    case True
    then show ?thesis unfolding lists_of_facts(4) by (auto simp: fs_name_def)
  next
    case False
    then have "file_at d table n \<noteq> None" using that out fa by (auto split: if_splits)
    then show ?thesis using assms(4) unfolding table_rep0_def by blast
  qed
  moreover have "has_table d' table" using h4 d'(8) by (simp add: has_table_def del: list.set_map)
  ultimately have rep: "table_rep e d' table ct c parts' []"
    using assms(4,7,8) pn rest arch read_metadata_cong [OF rest(1)] by (auto simp: table_rep_def table_rep0_def)
  have others: "table_rep e d' t ct c parts tmps" if t: "t \<noteq> table" "table_rep e d t ct c parts tmps" for t ct c parts tmps
  proof (rule table_rep_frame [OF t(2)])
    have "(t, n) \<notin> ?S" for n using t(1) unfolding lists_of_facts(4) by blast
    then show fl: "file_at d' t n = file_at d t n" for n using d'(6) fa t(1) by simp
    show "has_table d' t" using t(2) d'(8) names4 by (simp add: table_rep_def has_table_def del: list.set_map)
    fix n b assume nb: "archive_name n" "b \<in> set (blocks_at d t n)"
    then have "b \<in> set (blocks_at ?d4 t n)" using blocks_at_cong [of ?d4 t n d] fa t(1) by simp
    then have "taken e ?d4 b" using own4 nb(1) \<open>\<And>n. (t, n) \<notin> ?S\<close> unfolding owned_def by blast
    then show "d_blocks d' b = d_blocks d b" using d'(7) fr(3,4) by simp
  qed
  show ?thesis using bm f(1,2) d' rep others names4 by (intro exI [of _ bm] exI [of _ bm1] exI [of _ d1] exI [of _ bm2] exI [of _ d2] exI [of _ d']) simp
qed

end

section \<open>The compaction of a table\<close>

lemma is_blocked_post_disk: "is_blocked_post e table (st\<lparr>f_disk := d\<rparr>) = (is_blocked_post e table st)\<lparr>f_disk := d\<rparr>"
  by (cases st) (simp add: is_blocked_post_def change_state_def)

lemma select_post_disk: "select_post e table (st\<lparr>f_disk := d\<rparr>) = (select_post e table st)\<lparr>f_disk := d\<rparr>"
  by (cases st) (simp add: select_post_def change_state_def)

lemma is_blocked_wait_fields:
  "is_blocked_wait e table st = Inr st' \<Longrightarrow> f_disk st' = f_disk st \<and> f_mem_table st' = f_mem_table st"
  by (auto simp: is_blocked_wait_def change_state_def split: option.splits if_splits)

lemma pass_then_wait: "pass_block e table st = Inr st \<Longrightarrow> \<exists>st'. is_blocked_wait e table st = Inr st'"
  by (auto simp: pass_block_def rbind_Inr_iff)

definition compact_room :: "fs_env \<Rightarrow> disk \<Rightarrow> fs_record list list \<Rightarrow> fs_record list list \<Rightarrow> bool" where
  "compact_room e d parts tmps \<longleftrightarrow> parts_cost parts + tkvs_cost (map convert_to_tkv (concat tmps)) \<le> free_count e d"

context fs_libs
begin

lemma compaction_reads:
  assumes inv: "disk_inv e (f_disk st)" and rep: "table_rep e (f_disk st) table ct c parts tmps" and ne: "tmps \<noteq> []"
  shows "\<exists>d1 parts'. compaction_read e table st = Inr (Some (lists_of parts', True), st\<lparr>f_disk := d1\<rparr>) \<and>
    length parts' = length parts \<and> parts_ok parts' \<and> set (concat parts') \<subseteq> set (concat tmps) \<union> set (concat parts) \<and>
    parts_cost parts' \<le> parts_cost parts + tkvs_cost (map convert_to_tkv (concat tmps)) \<and>
    (\<forall>k y. 0 \<le> k \<longrightarrow> newest k (concat parts') y \<longrightarrow> newest k (concat parts @ concat tmps) y) \<and>
    bitmap_ok d1 \<and> owned e {} d1 \<and> blocks_exist e d1 \<and> table_rep0 e d1 table ct c parts tmps \<and> free_count e d1 = free_count e (f_disk st) \<and>
    map fst (d_tables d1) = map fst (d_tables (f_disk st)) \<and>
    (\<forall>t ct c parts tmps. t \<noteq> table \<longrightarrow> table_rep e (f_disk st) t ct c parts tmps \<longrightarrow> table_rep e d1 t ct c parts tmps)"
proof -
  let ?d = "f_disk st"
  have i: "bitmap_ok ?d" "owned e {} ?d" "blocks_exist e ?d" "tables_ok e ?d" using inv by (auto simp: disk_inv_def)
  have h: "has_table ?d table" "table \<noteq> ''.''" "table \<noteq> ''..''" "\<forall>n. file_at ?d table n \<noteq> None \<longrightarrow> fs_name n" "file_at ?d table get_tmpc_name = None"
    "read_table_metadata ?d table = Inr (ct, c, int (length parts))" "parts \<noteq> []" "parts_ok parts" using rep by (auto simp: table_rep_def dot_entries_def)
  have up: "to_uppercase table = table" using i(4) h(1) by (simp add: tables_ok_def)
  have ex: "exist_in_directory table (Some (table_names ?d))" using exists_of_table [of ?d table] h(1) up by simp
  have tmpc: "\<not> exist_in_directory get_tmpc_name (table_entries ?d table)" using exists_tmp(2) [OF h(2,3,4)] h(5) by simp
  have tmp1: "exist_in_directory (get_tmp_name 1) (table_entries ?d table)" using exists_tmp(1) [OF h(2,3,4), of 1] rep ne by (auto simp: table_rep_def Suc_le_eq)
  have rep0: "table_rep0 e ?d table ct c parts tmps" using rep by (simp add: table_rep_alt)
  obtain p where p: "get_all_blocks_from_all_tmps ?d table = Inr p" "reads_as e ?d (par_blocks p) (concat tmps)" using all_tmps_ok [OF rep0] by blast
  let ?d1 = "update_dir table (AList.update get_tmpc_name (archive_bytes (par_blocks p) (par_size p))) ?d"
  note w = tmpc_written [OF rep0, where content = "archive_bytes (par_blocks p) (par_size p)"]
  have recs: "\<forall>r \<in> set (concat tmps). rec_ok e r" "\<forall>r \<in> set (concat parts). rec_ok e r" using table_rep_nonneg [OF rep] by auto
  obtain parts' where m: "get_tkvs_to_insert (concat tmps) (lists_of parts) = Inr (lists_of parts')" "length parts' = length parts" "parts_ok parts'"
    "set (concat parts') \<subseteq> set (concat tmps) \<union> set (concat parts)" "parts_cost parts' \<le> parts_cost parts + tkvs_cost (map convert_to_tkv (concat tmps))"
    "\<forall>k y. 0 \<le> k \<longrightarrow> newest k (concat parts') y \<longrightarrow> newest k (concat parts @ concat tmps) y"
    using merge_ok [OF h(8,7) recs] by blast
  have rd: "create_tkv_list e ?d1 p = Inr (concat tmps)" using create_tkv_list_as [of ?d1 p "concat tmps"] p(2) reads_as_cong [of ?d1 ?d] by simp
  have read: "compaction_read e table st = Inr (Some (lists_of parts', True), st\<lparr>f_disk := ?d1\<rparr>)"
    using ex tmpc tmp1 h(1,6) up p(1) rd m(1) partition_lists_ok [OF w(1)]
    by (simp add: compaction_read_def create_fs_archive_def write_file_eq start_compaction_read_def Let_def)
  have "blocks_at ?d1 t n = blocks_at ?d t n" if "archive_name n" for t n using blocks_at_cong [of ?d1 t n ?d] w(2) that by blast
  then have own1: "owned e {} ?d1" using i(2) taken_same [OF w(4), of e] by (simp add: owned_def cong: conj_cong)
  have ok1: "bitmap_ok ?d1" "blocks_exist e ?d1" using i(1,3) w(4,5) taken_same [OF w(4), of e] bits_same [OF w(4)] by (simp_all add: bitmap_ok_def blocks_exist_def)
  have others: "table_rep e ?d1 t ct c parts tmps" if t: "t \<noteq> table" "table_rep e ?d t ct c parts tmps" for t ct c parts tmps
    using w(3,5) t by (intro table_rep_frame [OF t(2)]) (auto simp: table_rep_def)
  show ?thesis using read m(2-6) own1 ok1 w(1,6) others free_count_same [OF w(4)] by blast
qed

lemma compaction_writes:
  assumes i: "bitmap_ok d" "owned e {} d" "blocks_exist e d" and rep: "table_rep0 e d table ct c parts tmps" and up: "to_uppercase table = table" and bs: "2 \<le> e_block_size e"
    and parts': "length parts' = length parts" "parts_ok parts'" "\<forall>r \<in> set (concat parts'). rec_ok e r" "parts_cost parts' \<le> free_count e d" and pass: "pass_block e table st = Inr st"
  shows "\<exists>d'. start_compaction_write e table (lists_of parts') True (st\<lparr>f_disk := d\<rparr>) = Inr (st\<lparr>f_disk := d'\<rparr>) \<and> bitmap_ok d' \<and> owned e {} d' \<and> blocks_exist e d' \<and>
    table_rep e d' table ct c parts' [] \<and> map fst (d_tables d') = map fst (d_tables d) \<and>
    (\<forall>t ct c parts tmps. t \<noteq> table \<longrightarrow> table_rep e d t ct c parts tmps \<longrightarrow> table_rep e d' t ct c parts tmps)"
proof -
  obtain bm bm1 d2 bm2 d3 d' where d': "read_bitmap d = Inr bm" "free_partitions e table bm d = Inr (bm1, d2)" "free_blocks_of_all_tmps e table bm1 d2 = Inr (bm2, d3)"
    "create_new_partitions e table (lists_of parts') (remove_file table get_tmpc_name (write_bitmap bm2 (destroy_all_tmps table d3))) = Inr d'"
    "bitmap_ok d'" "owned e {} d'" "blocks_exist e d'" "table_rep e d' table ct c parts' []" "map fst (d_tables d') = map fst (d_tables d)"
    "\<forall>t ct c parts tmps. t \<noteq> table \<longrightarrow> table_rep e d t ct c parts tmps \<longrightarrow> table_rep e d' t ct c parts tmps"
    using compact_disk_ok [OF i rep up bs parts'] by blast
  obtain st1 where st1: "is_blocked_wait e table st = Inr st1" using pass_then_wait [OF pass] by blast
  have st1': "is_blocked_wait e table (st\<lparr>f_disk := d\<rparr>) = Inr (st1\<lparr>f_disk := d\<rparr>)"
    using st1 by (cases st) (auto simp: is_blocked_wait_def find_in_table_state_list_def change_state_def split: option.splits if_splits)
  have "start_compaction_write e table (lists_of parts') True (st\<lparr>f_disk := d\<rparr>) = Inr (is_blocked_post e table (st1\<lparr>f_disk := d'\<rparr>))"
    using st1' d'(1-4) by (simp add: start_compaction_write_def)
  also have "is_blocked_post e table (st1\<lparr>f_disk := d'\<rparr>) = st\<lparr>f_disk := d'\<rparr>" unfolding is_blocked_post_disk using is_blocked_post_wait [OF st1] by simp
  finally show ?thesis using d'(5-10) by blast
qed

lemma compaction_ok:
  assumes inv: "disk_inv e (f_disk st)" and rep: "table_rep e (f_disk st) table ct c parts tmps" and bs: "2 \<le> e_block_size e"
    and room: "compact_room e (f_disk st) parts tmps" and pass: "pass_block e table st = Inr st"
  shows "\<exists>d' parts'. compaction e table st = Inr (st\<lparr>f_disk := d'\<rparr>) \<and> disk_inv e d' \<and> map fst (d_tables d') = map fst (d_tables (f_disk st)) \<and>
    table_rep e d' table ct c parts' [] \<and> (\<forall>k y. 0 \<le> k \<longrightarrow> newest k (concat parts') y \<longrightarrow> newest k (concat parts @ concat tmps) y) \<and>
    (\<forall>t ct c parts tmps. t \<noteq> table \<longrightarrow> table_rep e (f_disk st) t ct c parts tmps \<longrightarrow> table_rep e d' t ct c parts tmps)"
proof -
  let ?d = "f_disk st"
  have tok: "tables_ok e ?d" using inv by (simp add: disk_inv_def)
  have h: "has_table ?d table" "table \<noteq> ''.''" "table \<noteq> ''..''" "\<forall>n. file_at ?d table n \<noteq> None \<longrightarrow> fs_name n" "file_at ?d table get_tmpc_name = None"
    "read_table_metadata ?d table = Inr (ct, c, int (length parts))" using rep by (auto simp: table_rep_def dot_entries_def)
  have up: "to_uppercase table = table" using tok h(1) by (simp add: tables_ok_def)
  show ?thesis
  proof (cases "tmps = []")
    case True
    then have "\<not> exist_in_directory (get_tmp_name 1) (table_entries ?d table)" using exists_tmp(1) [OF h(2,3,4), of 1] rep by (auto simp: table_rep_def)
    then have "compaction e table st = Inr (st\<lparr>f_disk := ?d\<rparr>)"
      using exists_of_table [of ?d table] exists_tmp(2) [OF h(2,3,4)] h(1,5,6) up by (simp add: compaction_def compaction_read_def Let_def)
    then show ?thesis using inv rep True by (intro exI [of _ ?d] exI [of _ parts]) simp
  next
    case False
    obtain d1 parts' where r: "compaction_read e table st = Inr (Some (lists_of parts', True), st\<lparr>f_disk := d1\<rparr>)" "length parts' = length parts" "parts_ok parts'"
      "set (concat parts') \<subseteq> set (concat tmps) \<union> set (concat parts)" "parts_cost parts' \<le> parts_cost parts + tkvs_cost (map convert_to_tkv (concat tmps))"
      "\<forall>k y. 0 \<le> k \<longrightarrow> newest k (concat parts') y \<longrightarrow> newest k (concat parts @ concat tmps) y"
      "bitmap_ok d1" "owned e {} d1" "blocks_exist e d1" "table_rep0 e d1 table ct c parts tmps" "free_count e d1 = free_count e ?d" "map fst (d_tables d1) = map fst (d_tables ?d)"
      "\<forall>t ct c parts tmps. t \<noteq> table \<longrightarrow> table_rep e ?d t ct c parts tmps \<longrightarrow> table_rep e d1 t ct c parts tmps"
      using compaction_reads [OF inv rep False] by blast
    have rec': "\<forall>r \<in> set (concat parts'). rec_ok e r" using r(4) table_rep_nonneg [OF rep] by auto
    have cost: "parts_cost parts' \<le> free_count e d1" using r(5,11) room by (simp add: compact_room_def)
    obtain d' where d': "start_compaction_write e table (lists_of parts') True (st\<lparr>f_disk := d1\<rparr>) = Inr (st\<lparr>f_disk := d'\<rparr>)" "bitmap_ok d'" "owned e {} d'" "blocks_exist e d'"
      "table_rep e d' table ct c parts' []" "map fst (d_tables d') = map fst (d_tables d1)" "\<forall>t ct c parts tmps. t \<noteq> table \<longrightarrow> table_rep e d1 t ct c parts tmps \<longrightarrow> table_rep e d' t ct c parts tmps"
      using compaction_writes [OF r(7-10) up bs r(2,3) rec' cost pass] by blast
    have comp: "compaction e table st = Inr (st\<lparr>f_disk := d'\<rparr>)" using r(1) d'(1) by (simp add: compaction_def)
    have others: "table_rep e d' t ct c parts tmps" if "t \<noteq> table" "table_rep e ?d t ct c parts tmps" for t ct c parts tmps using r(13) d'(7) that by blast
    have names: "map fst (d_tables d') = map fst (d_tables ?d)" using d'(6) r(12) by simp
    have "tables_ok e d'"
    proof (rule tables_okI [OF tok names])
      fix t assume "has_table ?d t"
      then show "\<exists>ct c parts tmps. table_rep e d' t ct c parts tmps" using tok d'(5) others unfolding tables_ok_def by metis
    qed
    then have "disk_inv e d'" using d'(2-4) by (simp add: disk_inv_def)
    then show ?thesis using comp names d'(5) r(6) others by blast
  qed
qed

end

end
