(* ===== verification/FS_Machine.thy ===== *)
theory FS_Machine
  imports FS_Compact
begin

text \<open>
  The file system process as a machine: it starts on a formatted disk, time passes, and its operations, dumps and
  compactions follow one another in any order. The invariant holds in every state it reaches.
\<close>

section \<open>Time\<close>

abbreviation at_time :: "fs_env \<Rightarrow> int \<Rightarrow> fs_env" where
  "at_time e t \<equiv> e\<lparr>e_now := t\<rparr>"

lemma digits_mono: "0 \<le> t \<Longrightarrow> t \<le> t' \<Longrightarrow> digits_in_a_number t \<le> digits_in_a_number t'"
  by (simp add: digits_in_a_number_length length_dec_nat_mono)

lemma tkv_size_mono: "0 \<le> t \<Longrightarrow> t \<le> t' \<Longrightarrow> tkv_size (at_time e t) \<le> tkv_size (at_time e t')"
  using digits_mono [of t t'] by (simp add: tkv_size_def)

lemma fs_libsI: "commons_api (e_cm e) \<Longrightarrow> bitarray_api (e_ba e) \<Longrightarrow> 0 \<le> e_max_value_size e \<Longrightarrow> fs_libs e"
proof -
  assume a: "commons_api (e_cm e)" "bitarray_api (e_ba e)" "0 \<le> e_max_value_size e"
  have "0 < tkv_size e" using a(3) by (simp add: tkv_size_def digits_in_a_number_length)
  then show ?thesis using a by (simp add: fs_libs_def fs_reader_def fs_reader_axioms_def)
qed

lemma fs_libs_at: "commons_api (e_cm e) \<Longrightarrow> bitarray_api (e_ba e) \<Longrightarrow> 0 \<le> e_max_value_size e \<Longrightarrow> fs_libs (at_time e t)"
  by (rule fs_libsI) simp_all

lemma rec_ok_later: "rec_ok (at_time e t) r \<Longrightarrow> 0 \<le> t \<Longrightarrow> t \<le> t' \<Longrightarrow> rec_ok (at_time e t') r"
  using tkv_size_mono [of t t' e] by (auto simp: rec_ok_def)

lemma blocks_ok_mono: "blocks_ok sz Bs \<Longrightarrow> sz \<le> sz' \<Longrightarrow> blocks_ok sz' Bs"
  by (induction Bs) (auto simp: string_ok_def)

lemma archive_rep_later: "archive_rep (at_time e t) d table n bs rs \<Longrightarrow> 0 \<le> t \<Longrightarrow> t \<le> t' \<Longrightarrow> archive_rep (at_time e t') d table n bs rs"
  using blocks_ok_mono [OF _ tkv_size_mono [of t t' e]] rec_ok_later [of t e _ t'] unfolding archive_rep_def by blast

lemma table_rep_later: "table_rep (at_time e t) d table ct c parts tmps \<Longrightarrow> 0 \<le> t \<Longrightarrow> t \<le> t' \<Longrightarrow> table_rep (at_time e t') d table ct c parts tmps"
  using archive_rep_later [of t e d table _ _ _ t'] unfolding table_rep_def by blast

lemma taken_at [simp]: "taken (at_time e t) d b = taken e d b"
  by (simp add: taken_def)

lemma fs_inv_later: "fs_inv (at_time e t) st \<Longrightarrow> 0 \<le> t \<Longrightarrow> t \<le> t' \<Longrightarrow> fs_inv (at_time e t') st"
proof -
  assume a: "fs_inv (at_time e t) st" "0 \<le> t" "t \<le> t'"
  have "owned (at_time e t) {} (f_disk st)" "blocks_exist (at_time e t) (f_disk st)" "bitmap_ok (f_disk st)" using a(1) by (auto simp: fs_inv_def disk_inv_def)
  then have "owned (at_time e t') {} (f_disk st)" "blocks_exist (at_time e t') (f_disk st)" "bitmap_ok (f_disk st)" by (simp_all add: owned_def blocks_exist_def)
  moreover have "tables_ok (at_time e t') (f_disk st)" using a table_rep_later [of t e "f_disk st" _ _ _ _ _ t'] unfolding fs_inv_def disk_inv_def tables_ok_def by metis
  moreover have "mem_inv (at_time e t') (f_mem_table st)" using a rec_ok_later [of t e _ t'] unfolding fs_inv_def mem_inv_def by metis
  ultimately show ?thesis using a(1) by (simp add: fs_inv_def disk_inv_def)
qed

section \<open>The start\<close>

context fs_libs
begin

lemma block_creator_free:
  assumes "0 \<le> blocks" "blocks < 2 ^ 31"
  shows "read_bitmap (block_creator blocks) = Inr (replicate (nat (blocks div 8)) NUL)" "\<not> taken e (block_creator blocks) b"
    "int (free_count e (block_creator blocks)) = 8 * (blocks div 8)"
proof -
  let ?d = "block_creator blocks" and ?n = "nat (blocks div 8)"
  have small: "blocks div 8 < 256 ^ 8" using assms by simp
  show rb: "read_bitmap ?d = Inr (replicate ?n NUL)" using assms small by (simp add: read_bitmap_def block_creator_def Let_def)
  show free: "\<not> taken e ?d b" for b
  proof
    assume "taken e ?d b"
    then have b: "1 \<le> b" "b \<le> 8 * int ?n" "bitarray_test_bit (e_ba e) (replicate ?n NUL) (nat (b - 1))" by (auto simp: taken_bitmap [OF rb])
    then have "nat (b - 1) < 8 * ?n" by linarith
    then show False using test_zero b(3) by blast
  qed
  have "free_set e ?d = {1..8 * (blocks div 8)}" using free rb assms(1) by (auto simp: free_set_def bitmap_bits_def)
  then show "int (free_count e ?d) = 8 * (blocks div 8)" using assms(1) by (simp add: free_count_def)
qed

lemma block_creator_inv:
  assumes "0 \<le> blocks" "blocks < 2 ^ 31"
  shows "disk_inv e (block_creator blocks)"
proof -
  let ?d = "block_creator blocks" and ?n = "nat (blocks div 8)"
  have n: "int ?n = blocks div 8" "8 * (blocks div 8) \<le> blocks" using assms(1) by simp_all
  note rb = block_creator_free(1) [OF assms] and free = block_creator_free(2) [OF assms]
  have fa: "file_at ?d t n = None" "has_table ?d t = False" for t n by (simp_all add: file_at_def has_table_def block_creator_def)
  have "owned e {} ?d" using free fa(1) by (simp add: owned_def blocks_at_def)
  moreover have "bitmap_ok ?d" using rb n assms(2) by (simp add: bitmap_ok_def)
  moreover have "blocks_exist e ?d" using rb n by (auto simp: blocks_exist_def bitmap_bits_def block_creator_def)
  moreover have "tables_ok e ?d" using fa(2) by (simp add: tables_ok_def) (simp add: block_creator_def)
  ultimately show ?thesis by (simp add: disk_inv_def)
qed

lemma start_inv: "0 \<le> blocks \<Longrightarrow> blocks < 2 ^ 31 \<Longrightarrow> fs_inv e (fs_start (block_creator blocks))"
  using block_creator_inv [of blocks]
  by (auto simp: fs_inv_def fs_start_def mem_inv_def create_table_state_list_def get_tables_list_def table_names_def Let_def)

section \<open>Operations that change nothing\<close>

lemma pass_block_same: "pass_block e table st = Inr st' \<Longrightarrow> st' = st"
  by (auto simp: pass_block_free split: option.splits if_splits)

lemma select_unchanged:
  assumes "process_select e input st = Inr (r, st')"
  shows "st' = st"
proof -
  have key: "st2 = st1" if s: "search_key e table k st1 = Inr (x, st2)" for table k st1 x st2
  proof -
    obtain w where "select_wait e table st1 = Inr w" "st2 = select_post e table w"
      using s by (auto simp: search_key_defs rbind_Inr_iff dest!: pass_block_same)
    then show ?thesis using select_post_wait by simp
  qed
  show ?thesis using assms by (auto simp: process_select_def Let_def rbind_Inr_iff dest!: pass_block_same key split: if_splits)
qed

lemma insert_inv:
  assumes "fs_inv e st" "insert_ok e input" "process_insert e input st = Inr (status, st')"
  shows "fs_inv e st'"
proof -
  let ?t = "to_uppercase (ins_table_name input)"
  have c: "create_tkv (if ins_timestamp input = -1 then input\<lparr>ins_timestamp := e_now e\<rparr> else input) = convert_to_tkv (inserted e input)"
    by (simp add: create_tkv_def convert_to_tkv_def inserted_def)
  have "st' = st \<or> st' = st\<lparr>f_mem_table := insert_tkv ?t (convert_to_tkv (inserted e input)) (f_mem_table st)\<rparr>"
    using assms(3) c by (auto simp: process_insert_def Let_def rbind_Inr_iff dest!: pass_block_same split: if_splits)
  moreover have "mem_inv e (insert_tkv ?t (convert_to_tkv (inserted e input)) (f_mem_table st))"
    using mem_inv_insert [OF _ _ inserted_ok [OF assms(2)]] assms(1) by (simp add: fs_inv_def)
  ultimately show ?thesis using assms(1) by (auto simp: fs_inv_def)
qed

lemma drop_inv:
  assumes "fs_inv e st" "to_uppercase (drp_table_name input) \<noteq> to_uppercase dropped_name" "process_drop e input st = Inr (status, st')"
  shows "fs_inv e st'"
proof (cases "has_table (f_disk st) (to_uppercase (drp_table_name input))")
  case True
  then show ?thesis using drop_ok [OF assms(1) True assms(2)] assms(3) by auto
next
  case False
  let ?t = "to_uppercase (drp_table_name input)"
  have "read_table_metadata (f_disk st) ?t = Inl Null_Pointer" using False by (simp add: read_table_metadata_def read_file_at file_at_def has_table_map_of)
  then have "st' = st" using assms(3) fs_inv_free [OF assms(1), of ?t]
    by (auto simp: process_drop_def Let_def free_partitions_def rbind_Inr_iff split: if_splits)
  then show ?thesis using assms(1) by simp
qed

lemma compact_thread_ok:
  assumes "fs_inv e st" "get_live_status thread st = 1" "table_rep e (f_disk st) table ct c parts tmps" "2 \<le> e_block_size e" "compact_room e (f_disk st) parts tmps"
  shows "\<exists>d' parts'. compact_this_table e thread table st = Inr (True, st\<lparr>f_disk := d'\<rparr>) \<and> fs_inv e (st\<lparr>f_disk := d'\<rparr>) \<and>
    map fst (d_tables d') = map fst (d_tables (f_disk st)) \<and> table_rep e d' table ct c parts' [] \<and>
    (\<forall>k y. 0 \<le> k \<longrightarrow> newest k (concat parts') y \<longrightarrow> newest k (concat parts @ concat tmps) y) \<and>
    (\<forall>t ct c parts tmps. t \<noteq> table \<longrightarrow> table_rep e (f_disk st) t ct c parts tmps \<longrightarrow> table_rep e d' t ct c parts tmps)"
proof -
  obtain st1 where st1: "select_wait e table st = Inr st1" "select_post e table st1 = st" "pass_block e table st1 = Inr st1" "f_disk st1 = f_disk st"
    using table_free_select [OF fs_inv_free [OF assms(1)]] by blast
  have inv: "disk_inv e (f_disk st1)" using assms(1) st1(4) by (simp add: fs_inv_def)
  have pre: "table_rep e (f_disk st1) table ct c parts tmps" "compact_room e (f_disk st1) parts tmps" using assms(3,5) st1(4) by simp_all
  obtain d' parts' where d': "compaction e table st1 = Inr (st1\<lparr>f_disk := d'\<rparr>)" "disk_inv e d'" "map fst (d_tables d') = map fst (d_tables (f_disk st))"
    "table_rep e d' table ct c parts' []" "\<forall>k y. 0 \<le> k \<longrightarrow> newest k (concat parts') y \<longrightarrow> newest k (concat parts @ concat tmps) y"
    "\<forall>t ct c parts tmps. t \<noteq> table \<longrightarrow> table_rep e (f_disk st) t ct c parts tmps \<longrightarrow> table_rep e d' t ct c parts tmps"
    using compaction_ok [OF inv pre(1) assms(4) pre(2) st1(3)] unfolding st1(4) by blast
  have "compact_this_table e thread table st = Inr (True, select_post e table (st1\<lparr>f_disk := d'\<rparr>))" using assms(2) st1(1) d'(1) by (simp add: compact_this_table_def)
  also have "select_post e table (st1\<lparr>f_disk := d'\<rparr>) = st\<lparr>f_disk := d'\<rparr>" by (simp add: select_post_disk st1(2))
  finally show ?thesis using d' assms(1) by (intro exI [of _ d'] exI [of _ parts']) (simp add: fs_inv_def)
qed

lemma thread_ends: "fs_inv e st \<Longrightarrow> get_live_status thread st \<noteq> 1 \<Longrightarrow> compact_this_table e thread table st = Inr (b, st') \<Longrightarrow> fs_inv e st'"
  using set_remove_first_subset [of "\<lambda>s. ts_compaction_thread s = thread" "f_table_state_list st"]
  by (auto simp: compact_this_table_def destroy_in_table_state_list_def fs_inv_def)

end

section \<open>Reachable states\<close>

text \<open>
  \<open>blocks\<close> is the number of blocks the disk was formatted with. A dump finds the directories of all its tables and a dump
  and a compaction have room; a table does not have the name that marks a dropped one.
\<close>

inductive fs_reachable :: "fs_env \<Rightarrow> int \<Rightarrow> int \<Rightarrow> fs_state \<Rightarrow> bool" for e :: fs_env and blocks :: int where
  fs_begin: "0 \<le> t \<Longrightarrow> fits_long t \<Longrightarrow> fs_reachable e blocks t (fs_start (block_creator blocks))"
| fs_later: "fs_reachable e blocks t st \<Longrightarrow> t \<le> t' \<Longrightarrow> fits_long t' \<Longrightarrow> fs_reachable e blocks t' st"
| fs_select_op: "fs_reachable e blocks t st \<Longrightarrow> process_select (at_time e t) input st = Inr (r, st') \<Longrightarrow> fs_reachable e blocks t st'"
| fs_insert_op: "fs_reachable e blocks t st \<Longrightarrow> insert_ok (at_time e t) input \<Longrightarrow> process_insert (at_time e t) input st = Inr (status, st') \<Longrightarrow> fs_reachable e blocks t st'"
| fs_create_op: "fs_reachable e blocks t st \<Longrightarrow> 1 \<le> cre_partitions cre \<Longrightarrow> fits_long (cre_compaction_time cre) \<Longrightarrow>
    process_create (at_time e t) cre st = Inr (status, st') \<Longrightarrow> fs_reachable e blocks t st'"
| fs_drop_op: "fs_reachable e blocks t st \<Longrightarrow> to_uppercase (drp_table_name drp) \<noteq> to_uppercase dropped_name \<Longrightarrow>
    process_drop (at_time e t) drp st = Inr (status, st') \<Longrightarrow> fs_reachable e blocks t st'"
| fs_dump_op: "fs_reachable e blocks t st \<Longrightarrow> \<forall>tb \<in> set (f_mem_table st). has_table (f_disk st) (tb_name tb) \<Longrightarrow> mem_cost (f_mem_table st) \<le> free_count e (f_disk st) \<Longrightarrow>
    dump (at_time e t) st = Inr st' \<Longrightarrow> fs_reachable e blocks t st'"
| fs_compact_op: "fs_reachable e blocks t st \<Longrightarrow> get_live_status thread st = 1 \<Longrightarrow> table_rep (at_time e t) (f_disk st) table ct c parts tmps \<Longrightarrow>
    compact_room (at_time e t) (f_disk st) parts tmps \<Longrightarrow> compact_this_table (at_time e t) thread table st = Inr (b, st') \<Longrightarrow> fs_reachable e blocks t st'"
| fs_thread_end: "fs_reachable e blocks t st \<Longrightarrow> get_live_status thread st \<noteq> 1 \<Longrightarrow> compact_this_table (at_time e t) thread table st = Inr (b, st') \<Longrightarrow> fs_reachable e blocks t st'"

lemma free_count_at [simp]: "free_count (at_time e t) d = free_count e d"
  by (simp add: free_count_def free_set_def)

lemma reachable_inv:
  assumes "fs_reachable e blocks t st" "commons_api (e_cm e)" "bitarray_api (e_ba e)" "0 \<le> e_max_value_size e" "2 \<le> e_block_size e" "0 \<le> blocks" "blocks < 2 ^ 31"
  shows "0 \<le> t \<and> fits_long t \<and> fs_inv (at_time e t) st"
  using assms(1)
proof (induction rule: fs_reachable.induct)
  case (fs_begin t)
  then show ?case using fs_libs.start_inv [OF fs_libs_at [OF assms(2-4)] assms(6,7)] by simp
next
  case (fs_later t st t')
  then show ?case using fs_inv_later by auto
next
  case (fs_select_op t st input r st')
  then show ?case using fs_libs.select_unchanged [OF fs_libs_at [OF assms(2-4)]] by metis
next
  case (fs_insert_op t st input status st')
  then show ?case using fs_libs.insert_inv [OF fs_libs_at [OF assms(2-4)]] by blast
next
  case (fs_create_op t st cre status st')
  then show ?case using fs_libs.create_inv [OF fs_libs_at [OF assms(2-4)]] by blast
next
  case (fs_drop_op t st drp status st')
  then show ?case using fs_libs.drop_inv [OF fs_libs_at [OF assms(2-4)]] by blast
next
  case (fs_dump_op t st st')
  then show ?case using fs_libs.dump_ok [OF fs_libs_at [OF assms(2-4)], of t st] assms(5) by auto
next
  case (fs_compact_op t st thread table ct c parts tmps b st')
  then show ?case using fs_libs.compact_thread_ok [OF fs_libs_at [OF assms(2-4)] _ fs_compact_op.hyps(2,3) _ fs_compact_op.hyps(4)] assms(5) by auto
next
  case (fs_thread_end t st thread table b st')
  then show ?case using fs_libs.thread_ends [OF fs_libs_at [OF assms(2-4)]] by blast
qed

end
