(* ===== verification/FS_Demo.thy ===== *)
theory FS_Demo
  imports FS_Machine
begin

text \<open>
  A small file system, run from the format of its disk on: the states the closed instances use. Its blocks have 7
  characters, so that records are cut.
\<close>

definition demo_env :: fs_env where
  "demo_env = \<lparr>e_cm = std_commons, e_ba = std_bitarrays, e_block_size = 7, e_max_value_size = 10, e_now = 50\<rparr>"

definition next_state :: "('a \<times> fs_state) result \<Rightarrow> fs_state" where
  "next_state r = (case r of Inl _ \<Rightarrow> fs_start (block_creator 0) | Inr (_, st) \<Rightarrow> st)"

definition demo_insert :: "int \<Rightarrow> string \<Rightarrow> insert_input_t" where
  "demo_insert timestamp v = \<lparr>ins_table_name = ''t'', ins_key = 1, ins_value = v, ins_timestamp = timestamp\<rparr>"

definition demo_start :: fs_state where
  "demo_start = fs_start (block_creator 64)"

definition demo_create :: create_input_t where
  "demo_create = \<lparr>cre_table_name = ''t'', cre_consistency = STRONG_CONSISTENCY, cre_partitions = 1, cre_compaction_time = 30000\<rparr>"

definition demo_created :: fs_state where
  "demo_created = next_state (process_create demo_env demo_create demo_start)"

definition demo_inserted :: fs_state where
  "demo_inserted = next_state (process_insert demo_env (demo_insert 9 ''N'') demo_created)"

definition demo_twice :: fs_state where
  "demo_twice = next_state (process_insert demo_env (demo_insert 5 ''O'') demo_inserted)"

definition demo_select :: select_input_t where
  "demo_select = \<lparr>sel_table_name = ''t'', sel_key = 1\<rparr>"

section \<open>What holds in these states\<close>

lemma demo_libs: "fs_libs demo_env"
  by (rule fs_libsI) (simp_all add: demo_env_def std.commons_api_axioms std_ba.bitarray_api_axioms)

lemma fs_demo_upper: "to_uppercase ''t'' = ''T''" "to_uppercase ''T'' = ''T''" "to_uppercase ''T'' \<noteq> to_uppercase dropped_name"
  by code_simp+

lemma demo_start_facts: "fs_inv demo_env demo_start" "int (free_count demo_env (f_disk demo_start)) = 64" "f_mem_table demo_start = []" "map fst (d_tables (f_disk demo_start)) = []"
  using fs_libs.start_inv [OF demo_libs, of 64] fs_libs.block_creator_free(3) [OF demo_libs, of 64]
  by (simp_all add: demo_start_def fs_start_def Let_def block_creator_def)

lemma demo_created_facts:
  "process_create demo_env demo_create demo_start = Inr (0, demo_created)" "fs_inv demo_env demo_created" "f_mem_table demo_created = []"
  "table_rep demo_env (f_disk demo_created) ''T'' 30000 STRONG_CONSISTENCY [[]] []" "free_count demo_env (f_disk demo_created) = 63"
  "map fst (d_tables (f_disk demo_created)) = [''T'']"
proof -
  have "\<exists>st'. process_create demo_env demo_create demo_start = Inr (0, st') \<and> fs_inv demo_env st' \<and> f_mem_table st' = f_mem_table demo_start \<and>
    map fst (d_tables (f_disk st')) = map fst (d_tables (f_disk demo_start)) @ [to_uppercase (cre_table_name demo_create)] \<and>
    table_rep demo_env (f_disk st') (to_uppercase (cre_table_name demo_create)) (cre_compaction_time demo_create) (cre_consistency demo_create) (replicate (nat (cre_partitions demo_create)) []) [] \<and>
    int (free_count demo_env (f_disk st')) = int (free_count demo_env (f_disk demo_start)) - cre_partitions demo_create \<and>
    (\<forall>t ct c parts tmps. table_rep demo_env (f_disk demo_start) t ct c parts tmps \<longrightarrow> table_rep demo_env (f_disk st') t ct c parts tmps)"
    by (rule fs_libs.create_ok [OF demo_libs demo_start_facts(1)])
      (use demo_start_facts(2,4) in \<open>simp_all add: demo_create_def fs_demo_upper dot_entries_def has_table_def fits_long_def\<close>)
  then obtain st' where st': "process_create demo_env demo_create demo_start = Inr (0, st')" "fs_inv demo_env st'" "f_mem_table st' = []"
    "map fst (d_tables (f_disk st')) = [''T'']" "table_rep demo_env (f_disk st') ''T'' 30000 STRONG_CONSISTENCY [[]] []"
    "int (free_count demo_env (f_disk st')) = 63"
    using demo_start_facts by (auto simp: demo_create_def fs_demo_upper)
  moreover have "demo_created = st'" using st'(1) by (simp add: demo_created_def next_state_def)
  ultimately show "process_create demo_env demo_create demo_start = Inr (0, demo_created)" "fs_inv demo_env demo_created" "f_mem_table demo_created = []"
    "table_rep demo_env (f_disk demo_created) ''T'' 30000 STRONG_CONSISTENCY [[]] []" "free_count demo_env (f_disk demo_created) = 63"
    "map fst (d_tables (f_disk demo_created)) = [''T'']"
    by simp_all
qed

definition demo_record :: "int \<Rightarrow> string \<Rightarrow> fs_record" where
  "demo_record timestamp v = \<lparr>fr_timestamp = timestamp, fr_key = 1, fr_value = v\<rparr>"

lemma demo_insert_facts:
  "insert_ok demo_env (demo_insert 9 ''N'')" "insert_ok demo_env (demo_insert 5 ''O'')"
  "inserted demo_env (demo_insert 9 ''N'') = demo_record 9 ''N''" "inserted demo_env (demo_insert 5 ''O'') = demo_record 5 ''O''"
  "to_uppercase (ins_table_name (demo_insert t v)) = ''T''" "to_uppercase (sel_table_name demo_select) = ''T''"
  by (simp_all add: insert_ok_def demo_insert_def demo_env_def cut_mark_def NUL_def fits_long_def inserted_def demo_record_def fs_demo_upper demo_select_def)

lemma demo_records:
  "rec_ok demo_env (demo_record 9 ''N'')" "rec_ok demo_env (demo_record 5 ''O'')" "convert_to_tkv (demo_record 9 ''N'') = ''9;1;N''" "convert_to_tkv (demo_record 5 ''O'') = ''5;1;O''"
proof -
  show "rec_ok demo_env (demo_record 9 ''N'')" "rec_ok demo_env (demo_record 5 ''O'')"
    using inserted_ok [OF demo_insert_facts(1)] inserted_ok [OF demo_insert_facts(2)] by (simp_all add: demo_insert_facts)
  show "convert_to_tkv (demo_record 9 ''N'') = ''9;1;N''" "convert_to_tkv (demo_record 5 ''O'') = ''5;1;O''" by code_simp+
qed

lemma demo_inserted_facts:
  "process_insert demo_env (demo_insert 9 ''N'') demo_created = Inr (0, demo_inserted)" "fs_inv demo_env demo_inserted" "f_disk demo_inserted = f_disk demo_created"
  "mem_rep demo_env demo_inserted ''T'' [demo_record 9 ''N'']" "f_mem_table demo_inserted = [\<lparr>tb_name = ''T'', tb_tkvs = [''9;1;N'']\<rparr>]"
proof -
  have h: "has_table (f_disk demo_created) (to_uppercase (ins_table_name (demo_insert 9 ''N'')))" using demo_created_facts(6) by (simp add: demo_insert_facts has_table_def del: list.set_map)
  have m: "mem_rep demo_env demo_created ''T'' []" using demo_created_facts(3) by (simp add: mem_rep_def search_table_in_memtable_def)
  obtain st' where st': "process_insert demo_env (demo_insert 9 ''N'') demo_created = Inr (0, st')" "fs_inv demo_env st'" "f_disk st' = f_disk demo_created"
    "\<forall>t mem. to_uppercase t = t \<longrightarrow> mem_rep demo_env demo_created t mem \<longrightarrow> mem_rep demo_env st' t (if t = ''T'' then mem @ [demo_record 9 ''N''] else mem)"
    using fs_libs.insert_adds [OF demo_libs demo_created_facts(2) h demo_insert_facts(1)] unfolding demo_insert_facts by blast
  have d: "demo_inserted = st'" using st'(1) by (simp add: demo_inserted_def next_state_def)
  have "mem_rep demo_env st' ''T'' [demo_record 9 ''N'']" using st'(4) m fs_demo_upper(2) by fastforce
  then show "process_insert demo_env (demo_insert 9 ''N'') demo_created = Inr (0, demo_inserted)" "fs_inv demo_env demo_inserted" "f_disk demo_inserted = f_disk demo_created"
    "mem_rep demo_env demo_inserted ''T'' [demo_record 9 ''N'']" using st' d by simp_all
  have f: "table_free demo_env ''T'' demo_created" using fs_inv_free [OF demo_created_facts(2)] .
  have "exist_in_directory ''t'' (Some (table_names (f_disk demo_created)))" using exists_of_table [of "f_disk demo_created" "''t''"] h by (simp add: demo_insert_def)
  then have "process_insert demo_env (demo_insert 9 ''N'') demo_created = Inr (0, demo_created\<lparr>f_mem_table := insert_tkv ''T'' (create_tkv (demo_insert 9 ''N'')) []\<rparr>)"
    using f demo_created_facts(3) by (simp add: process_insert_def demo_insert_def fs_demo_upper value_exceeds_maximun_size_def demo_env_def Let_def)
  moreover have "create_tkv (demo_insert 9 ''N'') = ''9;1;N''" using demo_records(3) by (simp add: create_tkv_def demo_insert_def convert_to_tkv_def demo_record_def)
  ultimately show "f_mem_table demo_inserted = [\<lparr>tb_name = ''T'', tb_tkvs = [''9;1;N'']\<rparr>]"
    by (simp add: demo_inserted_def next_state_def insert_tkv_def table_not_exist_in_list_def create_table_def)
qed


section \<open>A dump and the compaction thread\<close>

definition demo_dumped :: fs_state where
  "demo_dumped = (case dump demo_env demo_inserted of Inl _ \<Rightarrow> demo_inserted | Inr st \<Rightarrow> st)"

lemma create_threads:
  "process_create e input st = Inr (0, st') \<Longrightarrow> f_table_state_list st' = f_table_state_list st @
     [\<lparr>ts_name = to_uppercase (to_uppercase (cre_table_name input)), ts_is_blocked_mutex = 1, ts_live_status_mutex = 1, ts_select_mutex = 1, ts_compaction_thread = f_next_thread st\<rparr>]"
  by (auto simp: process_create_def Let_def rbind_Inr_iff add_table_to_table_state_list_def split_beta split: if_splits)

lemma insert_threads: "process_insert e input st = Inr (status, st') \<Longrightarrow> f_table_state_list st' = f_table_state_list st"
  by (auto simp: process_insert_def Let_def rbind_Inr_iff pass_block_free split: option.splits if_splits)

lemma demo_live: "get_live_status 0 demo_created = 1" "get_live_status 0 demo_inserted = 1"
proof -
  have "f_table_state_list demo_start = []" "f_next_thread demo_start = 0"
    by (simp_all add: demo_start_def fs_start_def Let_def create_table_state_list_def get_tables_list_def table_names_def dot_entries_def block_creator_def)
  then show l: "get_live_status 0 demo_created = 1"
    using create_threads [OF demo_created_facts(1)] by (simp add: get_live_status_def find_in_table_state_list_with_thread_def)
  have "f_table_state_list demo_inserted = f_table_state_list demo_created"
    using insert_threads [OF demo_inserted_facts(1)] .
  then show "get_live_status 0 demo_inserted = 1" using l by (simp add: get_live_status_def find_in_table_state_list_with_thread_def)
qed

lemma demo_dumped_facts:
  "dump demo_env demo_inserted = Inr demo_dumped" "fs_inv demo_env demo_dumped" "f_mem_table demo_dumped = []"
  "table_rep demo_env (f_disk demo_dumped) ''T'' 30000 STRONG_CONSISTENCY [[]] [[demo_record 9 ''N'']]" "50 \<le> free_count demo_env (f_disk demo_dumped)"
  "get_live_status 0 demo_dumped = 1"
proof -
  let ?d = "f_disk demo_inserted" and ?tb = "\<lparr>tb_name = ''T'', tb_tkvs = [''9;1;N'']\<rparr>" and ?r = "demo_record 9 ''N''"
  have inv: "disk_inv demo_env ?d" using demo_inserted_facts(2) by (simp add: fs_inv_def)
  have rep: "table_rep demo_env ?d (tb_name ?tb) 30000 STRONG_CONSISTENCY [[]] []" using demo_created_facts(4) demo_inserted_facts(3) by simp
  have room: "archive_cost [?r] + 50 \<le> free_count demo_env ?d" using demo_created_facts(5) demo_inserted_facts(3) by (simp add: archive_cost_def tkvs_cost_def demo_records)
  have ok: "\<forall>r \<in> set [?r]. rec_ok demo_env r" "tb_tkvs ?tb = map convert_to_tkv [?r]" "to_uppercase (tb_name ?tb) = tb_name ?tb" by (simp_all add: demo_records fs_demo_upper)
  obtain d' where d': "dump_table demo_env ?tb ?d = Inr d'" "disk_inv demo_env d'" "table_rep demo_env d' ''T'' 30000 STRONG_CONSISTENCY [[]] [[?r]]" "50 \<le> free_count demo_env d'"
    using fs_libs.dump_table_ok [OF demo_libs inv _ rep ok room] by (auto simp: demo_env_def)
  have dump: "dump demo_env demo_inserted = Inr (demo_inserted\<lparr>f_disk := d', f_mem_table := []\<rparr>)" using d'(1) demo_inserted_facts(5) by (simp add: dump_defs)
  then have st: "demo_dumped = demo_inserted\<lparr>f_disk := d', f_mem_table := []\<rparr>" by (simp add: demo_dumped_def)
  show "dump demo_env demo_inserted = Inr demo_dumped" using dump st by simp
  show "f_mem_table demo_dumped = []" by (simp add: st)
  show "fs_inv demo_env demo_dumped" using demo_inserted_facts(2) d'(2) by (simp add: st fs_inv_def mem_inv_def)
  show "table_rep demo_env (f_disk demo_dumped) ''T'' 30000 STRONG_CONSISTENCY [[]] [[?r]]" "50 \<le> free_count demo_env (f_disk demo_dumped)" using d' by (simp_all add: st)
  show "get_live_status 0 demo_dumped = 1" using demo_live(2) by (simp add: st get_live_status_def find_in_table_state_list_with_thread_def)
qed

end
