(* ===== verification/FS_Races.thy ===== *)
theory FS_Races
  imports FS_Demo
begin

text \<open>
  What goes wrong in the file system process: the search in an archive whose records of a key are not in ascending
  order, and the interleavings that the semaphores of the program allow.
\<close>

section \<open>A cut record hides a newer one\<close>

text \<open>
  When a block ends in a cut record, \<open>search_key_in_block\<close> hands the record it found before over in
  \<open>previous_key_founded\<close>, but the timestamp of the search is not set. The cut record is then compared with -1.
\<close>

context fs_libs
begin

lemma write_two:
  assumes "first_block e d = Inr w" "write_tkvs e [s, u] w = Inr w1" "bitmap_ok d" "0 \<notin> set (w_blocks w1)"
    "e_block_size e = int (length s) + 2" "length u = length s" "3 \<le> length s"
  shows "\<exists>b1 b2. w_blocks w1 = [b1, b2] \<and> holds_blocks (w_disk w1) [b1, b2] [[s, take 1 u @ [cut_mark]], [drop 1 u]]"
proof -
  have sz: "w_block_size w = int (length s) + 2" using assms(1,5) by (auto simp: first_block_def rbind_Inr_iff)
  let ?wa = "put_tkv s (w\<lparr>w_block_size := 2\<rparr>)"
  have "string_append (e_cm e) (string_substring_until (e_cm e) u 1) [CHR 0x0A] = take 1 u @ [cut_mark]" by (simp add: substring_until append cut_mark_def)
  then have cut: "write_cut e u ?wa = rbind (next_block e (put_tkv (take 1 u @ [cut_mark]) ?wa)) (write_cut e (drop 1 u))"
    using assms(5-7) by (simp add: write_cut_cuts)
  have "write_tkvs e [s, u] w = rbind (write_cut e u ?wa) (\<lambda>w1. if w_block_size w1 \<le> 1 then next_block e w1 else Inr w1)"
    using sz assms(6,7) by (cases "write_cut e u ?wa") (simp_all add: rbind_def split: sum.splits)
  then obtain wb wc where wb: "next_block e (put_tkv (take 1 u @ [cut_mark]) ?wa) = Inr wb" "write_cut e (drop 1 u) wb = Inr wc"
    "(if w_block_size wc \<le> 1 then next_block e wc else Inr wc) = Inr w1" using assms(2) cut by (auto simp: rbind_Inr_iff)
  have "w_block_size wb = int (length s) + 2" using next_block_size [OF wb(1)] assms(5) by simp
  then have wc: "wc = put_tkv (drop 1 u) (wb\<lparr>w_block_size := w_block_size wb - int (length (drop 1 u))\<rparr>)" "w_block_size wc = 3"
    using wb(2) assms(6,7) by (auto simp: write_cut_fits)
  then have w1: "w1 = put_tkv (drop 1 u) (wb\<lparr>w_block_size := w_block_size wb - int (length (drop 1 u))\<rparr>)" using wb(3) by simp
  have nz: "0 \<notin> set (w_blocks wb)" using w1 assms(4) by simp
  then have nz0: "0 \<notin> set (w_blocks w)" using next_block_blocks [OF wb(1)] by auto
  have "wdisk e d (w\<lparr>w_block_size := 2\<rparr>) ([] @ [[]])" using wdisk_first [OF assms(1,3) nz0] by (simp add: wdisk_def)
  from wdisk_put [OF this, of s] have "wdisk e d ?wa ([] @ [[s]])" by simp
  from wdisk_put [OF this, of "take 1 u @ [cut_mark]"] have "wdisk e d (put_tkv (take 1 u @ [cut_mark]) ?wa) [[s, take 1 u @ [cut_mark]]]" by simp
  from wdisk_next [OF this wb(1) nz] have "wdisk e d (wb\<lparr>w_block_size := w_block_size wb - int (length (drop 1 u))\<rparr>) ([[s, take 1 u @ [cut_mark]]] @ [[]])"
    by (simp add: wdisk_def)
  from wdisk_put [OF this, of "drop 1 u"] have wd: "wdisk e d w1 [[s, take 1 u @ [cut_mark]], [drop 1 u]]" unfolding w1 by simp
  obtain b1 where "w_blocks w = [b1]" using assms(1) by (auto simp: first_block_def rbind_Inr_iff)
  then obtain b1 b2 where "w_blocks w1 = [b1, b2]" using next_block_blocks [OF wb(1)] w1 by auto
  then show ?thesis using wd by (auto simp: wdisk_def)
qed

lemma search_two:
  assumes "holds_blocks d [b1, b2] [[convert_to_tkv x, take 1 (convert_to_tkv y) @ [cut_mark]], [drop 1 (convert_to_tkv y)]]"
    "rec_ok e x" "rec_ok e y" "fr_key y = fr_key x"
  shows "archive_loop e d (dec_int (fr_key x)) False 0 [b1, b2] (no_tkv, -1) = Inr (convert_to_tkv y)"
proof -
  let ?s = "convert_to_tkv x" and ?u = "convert_to_tkv y" and ?k = "fr_key x"
  have ts: "0 \<le> fr_timestamp x" "0 \<le> fr_timestamp y" "fits_long (fr_timestamp y)" using assms(2,3) by (auto simp: rec_ok_def)
  have u: "tkv_ok (tkv_size e) ?u" using rec_ok_tkv [OF assms(3)] .
  have l: "2 \<le> length ?u" by (simp add: convert_to_tkv_def tkv_text_def)
  have ok: "string_ok (tkv_size e) (take 1 ?u @ [cut_mark])" "string_ok (tkv_size e) (drop 1 ?u)" "\<not> is_cut (drop 1 ?u)"
    using u l by (auto simp: tkv_ok_def string_ok_def is_cut_def cut_mark_def NUL_def no_nul_def dest!: in_set_takeD in_set_dropD last_in_set)
  have blk: "d_blocks d b1 = Some (block_bytes (map convert_to_tkv [x] @ [take 1 ?u @ [cut_mark]]))" "d_blocks d b2 = Some (block_bytes [drop 1 ?u])"
    using assms(1) by (simp_all add: holds_blocks_def)
  have "fst (foldl (scan ?k) (no_tkv, -1) [x]) = ?s" using ts(1) by (simp add: scan_def)
  then have s1: "search_key_in_block e d b1 (dec_int ?k) False 0 no_tkv = Inr (\<lparr>tk_tkv = take 1 ?u, tk_incomplete = True\<rparr>, ?s)"
    using search_block_cut [OF blk(1), of False 0 "[x]" "take 1 ?u" ?k no_tkv] ok(1) assms(2) convert_to_tkv_not_none [OF ts(1)] by (simp add: enters_def Let_def)
  have c: "continue_tkv e d (take 1 ?u) [b2] = Inr (?u, Suc (length (drop 1 ?u)), [b2])"
    using read_first_string [OF ok(2), of d b2 "[]"] blk(2) u l tkv_ok_uncut [OF u] by (simp add: Let_def append ends_with_mark tkv_ok_def string_ok_def min_def)
  have s2: "search_key_in_block e d b2 (dec_int ?k) True (Suc (length (drop 1 ?u))) p = Inr (\<lparr>tk_tkv = no_tkv, tk_incomplete = False\<rparr>, p)" for p
    using search_block_uncut [OF blk(2), of True "Suc (length (drop 1 ?u))" "[]" ?k p] ok(2,3) by (simp add: enters_def)
  show ?thesis using s1 c s2 split_record [OF assms(3)] ts assms(4) by simp
qed

lemma stale_record:
  assumes inv: "disk_inv e d" and rep: "table_rep e d (tb_name tb) ct c parts tmps" and ok: "rec_ok e x" "rec_ok e y"
    and key: "fr_key y = fr_key x" and tb: "tb_tkvs tb = [convert_to_tkv x, convert_to_tkv y]" "to_uppercase (tb_name tb) = tb_name tb"
    and len: "length (convert_to_tkv y) = length (convert_to_tkv x)" "e_block_size e = int (length (convert_to_tkv x)) + 2" and room: "archive_cost [x, y] \<le> free_count e d"
  shows "\<exists>d'. dump_table e tb d = Inr d' \<and> search_key_in_fs_archive e d' (tb_name tb) (get_tmp_name (Suc (length tmps))) (fr_key x) = Inr y"
proof -
  let ?t = "tb_name tb" and ?n = "get_tmp_name (Suc (length tmps))"
  have bs: "2 \<le> e_block_size e" and l3: "3 \<le> length (convert_to_tkv x)" using len(2) ok(1) by (simp_all add: convert_to_tkv_def tkv_text_def rec_ok_def Suc_le_eq dec_int_def)
  have i: "bitmap_ok d" and has: "has_table d ?t" using inv rep by (auto simp: disk_inv_def table_rep_def)
  have oks: "\<forall>r \<in> set [x, y]. rec_ok e r" using ok by simp
  obtain w w1 sz where w: "first_block e d = Inr w" "write_tkvs e (map convert_to_tkv [x, y]) w = Inr w1" "size_of_all_tkvs e (map convert_to_tkv [x, y]) = Inr sz"
    "d_tables (w_disk w1) = d_tables d" "\<exists>d'. write_file ?t ?n (archive_bytes (w_blocks w1) sz) (w_disk w1) = Inr d' \<and> written e d ?t ?n (w_blocks w1) [x, y] d'"
    using archive_fits [OF i bs oks has, of 0] room by auto
  then obtain d' where d': "write_file ?t ?n (archive_bytes (w_blocks w1) sz) (w_disk w1) = Inr d'" "written e d ?t ?n (w_blocks w1) [x, y] d'" by blast
  have "length (tmp_numbers (w_disk w1) ?t) = length tmps" using tmp_numbers_cong [OF w(4)] table_rep_tmps [OF rep] by (simp del: upt_Suc)
  then have dump: "dump_table e tb d = Inr d'" using w d'(1) tb by (simp add: dump_table_def create_fs_archive_def Let_def)
  have "taken e d' b" if "b \<in> set (w_blocks w1)" for b using d'(2) that by (simp add: written_def)
  then have "0 \<notin> set (w_blocks w1)" using taken_pos by force
  then obtain b1 b2 where b: "w_blocks w1 = [b1, b2]"
    "holds_blocks (w_disk w1) [b1, b2] [[convert_to_tkv x, take 1 (convert_to_tkv y) @ [cut_mark]], [drop 1 (convert_to_tkv y)]]"
    using write_two [OF w(1) _ i _ len(2,1) l3] w(2) by auto
  have blocks: "d_blocks d' = d_blocks (w_disk w1)" using d'(1) by (auto simp: write_file_eq split: if_splits)
  have loop: "archive_loop e d' (dec_int (fr_key x)) False 0 [b1, b2] (no_tkv, -1) = Inr (convert_to_tkv y)"
    using search_two [OF _ ok key] b(2) blocks by (simp add: holds_blocks_def)
  have "archive_rep e d' ?t ?n [b1, b2] [x, y]" using d'(2) b(1) by (simp add: written_def)
  then obtain p where "read_fs_archive d' ?t ?n = Inr p" "par_blocks p = [b1, b2]" using archive_rep_read by blast
  then show ?thesis using dump loop convert_to_record_tkv [OF ok(2)] ok(1) by (auto simp: search_key_in_fs_archive_def itoa rec_ok_def fits_key simp del: archive_loop.simps)
qed

end

section \<open>A dump during a compaction\<close>

text \<open>
  A compaction reads the temporary files, and later, when it has blocked the table, destroys all that are there then. Nothing
  keeps the dump thread from adding one in between.
\<close>

context fs_libs
begin

lemma dump_in_compaction:
  assumes inv: "fs_inv e st" and rep: "table_rep e (f_disk st) table ct c parts tmps" and ne: "tmps \<noteq> []" and ok: "\<forall>r \<in> set rs. rec_ok e r" and bs: "2 \<le> e_block_size e"
    and room: "archive_cost rs + (parts_cost parts + tkvs_cost (map convert_to_tkv (concat tmps))) \<le> free_count e (f_disk st)"
  shows "\<exists>l st1 d2 st3 parts'. compaction_read e table st = Inr (Some (l, True), st1) \<and>
    dump_table e \<lparr>tb_name = table, tb_tkvs = map convert_to_tkv rs\<rparr> (f_disk st1) = Inr d2 \<and>
    start_compaction_write e table l True (st1\<lparr>f_disk := d2\<rparr>) = Inr st3 \<and>
    table_rep e (f_disk st3) table ct c parts' [] \<and> set (concat parts') \<subseteq> set (concat tmps) \<union> set (concat parts)"
proof -
  let ?tb = "\<lparr>tb_name = table, tb_tkvs = map convert_to_tkv rs\<rparr>"
  have inv': "disk_inv e (f_disk st)" using inv by (simp add: fs_inv_def)
  have up: "to_uppercase table = table" using inv' rep by (simp add: disk_inv_def tables_ok_def table_rep_def)
  obtain d1 parts' where r: "compaction_read e table st = Inr (Some (lists_of parts', True), st\<lparr>f_disk := d1\<rparr>)" "length parts' = length parts" "parts_ok parts'"
    "set (concat parts') \<subseteq> set (concat tmps) \<union> set (concat parts)" "parts_cost parts' \<le> parts_cost parts + tkvs_cost (map convert_to_tkv (concat tmps))"
    "bitmap_ok d1" "owned e {} d1" "blocks_exist e d1" "table_rep0 e d1 table ct c parts tmps" "free_count e d1 = free_count e (f_disk st)"
    using compaction_reads [OF inv' rep ne] by blast
  have rep1: "table_rep0 e d1 (tb_name ?tb) ct c parts tmps" "tb_tkvs ?tb = map convert_to_tkv rs" "to_uppercase (tb_name ?tb) = tb_name ?tb" using r(9) up by simp_all
  have "archive_cost rs + (parts_cost parts + tkvs_cost (map convert_to_tkv (concat tmps))) \<le> free_count e d1" using room r(10) by simp
  from dump_table_rep0 [OF r(6-8) bs rep1(1) ok rep1(2,3) this] obtain d2 bl where d2: "dump_table e ?tb d1 = Inr d2" "bitmap_ok d2" "owned e {} d2" "blocks_exist e d2"
    "table_rep0 e d2 table ct c parts (tmps @ [rs])" "parts_cost parts + tkvs_cost (map convert_to_tkv (concat tmps)) \<le> free_count e d2" by (auto simp: written_def)
  have rec': "\<forall>r \<in> set (concat parts'). rec_ok e r" using r(4) table_rep_nonneg [OF rep] by auto
  have cost: "parts_cost parts' \<le> free_count e d2" using r(5) d2(6) by linarith
  have "table_free e table st" using fs_inv_free [OF inv] .
  then obtain d3 where d3: "start_compaction_write e table (lists_of parts') True (st\<lparr>f_disk := d2\<rparr>) = Inr (st\<lparr>f_disk := d3\<rparr>)" "table_rep e d3 table ct c parts' []"
    using compaction_writes [OF d2(2-5) up bs r(2,3) rec' cost, of st] by auto
  show ?thesis
    by (rule exI [of _ "lists_of parts'"], rule exI [of _ "st\<lparr>f_disk := d1\<rparr>"], rule exI [of _ d2], rule exI [of _ "st\<lparr>f_disk := d3\<rparr>"], rule exI [of _ parts'])
      (use r(1,4) d2(1) d3 in simp)
qed

section \<open>An INSERT during a dump\<close>

lemma insert_in_dump:
  assumes inv: "fs_inv e st" and bs: "2 \<le> e_block_size e" and tabs: "\<forall>tb \<in> set (f_mem_table st). has_table (f_disk st) (tb_name tb)"
    and room: "mem_cost (f_mem_table st) \<le> free_count e (f_disk st)" and ins: "has_table (f_disk st) (to_uppercase (ins_table_name input))" "insert_ok e input"
  shows "\<exists>st1 st2 st'. dump_write e st = Inr st1 \<and> process_insert e input st1 = Inr (0, st2) \<and> dump e st = Inr st' \<and> free_memtable st2 = st'"
proof -
  let ?t = "to_uppercase (ins_table_name input)"
  obtain st' where st': "dump e st = Inr st'" "map fst (d_tables (f_disk st')) = map fst (d_tables (f_disk st))" using dump_ok [OF inv bs tabs room] by blast
  then obtain d where d: "dump_write e st = Inr (st\<lparr>f_disk := d\<rparr>)" "st' = st\<lparr>f_disk := d, f_mem_table := []\<rparr>" by (auto simp: dump_defs rbind_Inr_iff)
  have "has_table d ?t" using ins(1) st'(2) d(2) by (simp add: has_table_def del: list.set_map)
  moreover have "table_free e ?t (st\<lparr>f_disk := d\<rparr>)" using fs_inv_free [OF inv, of ?t] by (simp add: table_free_def find_in_table_state_list_def)
  ultimately obtain l where "process_insert e input (st\<lparr>f_disk := d\<rparr>) = Inr (0, st\<lparr>f_disk := d, f_mem_table := l\<rparr>)"
    using exists_of_table [of d "ins_table_name input"] ins(2) by (auto simp: process_insert_def Let_def value_exceeds_maximun_size_def insert_ok_def)
  then show ?thesis using d st'(1) by (auto simp: free_memtable_def)
qed

section \<open>A SELECT across a dump\<close>

lemma select_across_dump:
  assumes inv: "fs_inv e st" and bs: "2 \<le> e_block_size e" and tabs: "\<forall>tb \<in> set (f_mem_table st). has_table (f_disk st) (tb_name tb)"
    and room: "mem_cost (f_mem_table st) \<le> free_count e (f_disk st)" and rep: "table_rep e (f_disk st) table ct c parts tmps" and asc: "\<forall>t \<in> set tmps. ascending t"
    and none: "\<forall>r \<in> set (concat tmps @ concat parts). fr_key r \<noteq> k" and k: "0 \<le> k"
  shows "\<exists>x y z st1 st2 st3. search_archives e table k st = Inr (x, y, z, st1) \<and> dump e st1 = Inr st2 \<and> search_finish e table k (x, y, z, st2) = Inr (not_found, st3)"
proof -
  obtain st1 where st1: "select_wait e table st = Inr st1" "pass_block e table st1 = Inr st1" "f_disk st1 = f_disk st" "f_mem_table st1 = f_mem_table st"
    using table_free_select [OF fs_inv_free [OF inv]] by blast
  have tmpc: "search_in_tmpc e table k (f_disk st) = Inr not_found"
    using rep exists_tmp(2) [of table "f_disk st"] by (auto simp: search_in_tmpc_def table_rep_def dot_entries_def)
  have "search_in_all_tmps e table k (f_disk st) = Inr not_found" using tmps_newest [OF rep asc, of k] none by (auto simp: newest_def split: if_splits)
  moreover have "search_in_partition e table k (f_disk st) = Inr not_found" using partition_newest [OF rep k] none by (auto simp: newest_def split: if_splits)
  ultimately have a: "search_archives e table k st = Inr (not_found, not_found, not_found, st1)" using st1 tmpc by (simp add: search_archives_def)
  obtain st' where "dump e st = Inr st'" using dump_ok [OF inv bs tabs room] by blast
  then obtain d where d: "dump e st1 = Inr (st1\<lparr>f_disk := d, f_mem_table := []\<rparr>)" using st1(3,4) by (auto simp: dump_defs rbind_Inr_iff)
  have "search_finish e table k (not_found, not_found, not_found, st1\<lparr>f_disk := d, f_mem_table := []\<rparr>) = Inr (not_found, select_post e table (st1\<lparr>f_disk := d, f_mem_table := []\<rparr>))"
    by (simp add: search_finish_def search_key_in_memtable_def search_table_in_memtable_def newest_of_def key_with_greater_timestamp_def copy_key_def)
  then show ?thesis using a d by blast
qed

section \<open>A dropped table\<close>

lemma dump_missing:
  assumes "bitmap_ok d" "2 \<le> e_block_size e" "tb \<in> set l" "\<not> has_table d (tb_name tb)" "\<forall>tb \<in> set l. to_uppercase (tb_name tb) = tb_name tb"
  shows "dump_tables e l d = Inl Null_Pointer"
  using assms
proof (induction l arbitrary: d)
  case (Cons x l)
  obtain w where w: "first_block e d = Inr w" "bitmap_ok (w_disk w)" "w_block_size w = e_block_size e" "d_tables (w_disk w) = d_tables d"
    using take_block_total [OF Cons.prems(1)] take_block_tables by (fastforce simp: first_block_def)
  obtain w1 where w1: "write_tkvs e (tb_tkvs x) w = Inr w1" "bitmap_ok (w_disk w1)" using write_tkvs_total [OF w(2) Cons.prems(2)] w(3) Cons.prems(2) by auto
  have t1: "d_tables (w_disk w1) = d_tables d" using write_tkvs_tables [OF w1(1)] w(4) by simp
  obtain sz where sz: "size_of_all_tkvs e (tb_tkvs x) = Inr sz" using size_of_all_tkvs_total [OF Cons.prems(2)] by blast
  have up: "to_uppercase (tb_name x) = tb_name x" using Cons.prems(5) by simp
  let ?n = "get_tmp_name (Suc (length (tmp_numbers (w_disk w1) (tb_name x))))"
  have eq: "dump_table e x d = write_file (tb_name x) ?n (archive_bytes (w_blocks w1) sz) (w_disk w1)"
    using w(1) w1(1) sz up by (simp add: dump_table_def create_fs_archive_def Let_def)
  show ?case
  proof (cases "has_table d (tb_name x)")
    case True
    then have "has_table (w_disk w1) (tb_name x)" using t1 by (simp add: has_table_def)
    then obtain d1 where d1: "dump_table e x d = Inr d1" "read_bitmap d1 = read_bitmap (w_disk w1)" "map fst (d_tables d1) = map fst (d_tables (w_disk w1))"
      using eq by (simp add: write_file_eq read_bitmap_def)
    have "bitmap_ok d1" "\<not> has_table d1 (tb_name tb)" "tb \<in> set l" using d1 w1(2) t1 Cons.prems(3,4) True by (auto simp: bitmap_ok_def has_table_def simp del: list.set_map)
    then show ?thesis using Cons.IH [of d1] Cons.prems(2,5) d1(1) by simp
  next
    case False
    then have "\<not> has_table (w_disk w1) (tb_name x)" using t1 by (simp add: has_table_def)
    then show ?thesis using eq by (simp add: write_file_eq)
  qed
qed simp

end

text \<open>
  The state of a dropped table keeps its thread and loses its name. A thread that starts only then looks for the metadata of a
  table with the new name.
\<close>

lemma dropped_thread_begins:
  assumes "find_in_table_state_list_with_thread thread st = Some s" "ts_name s = dropped_name" "\<not> has_table (f_disk st) dropped_name" "0 < f_thread_semaphore st"
  shows "compact_thread_begin thread st = Inl Null_Pointer"
proof -
  have "find_in_table_state_list_with_thread thread (st\<lparr>f_thread_semaphore := f_thread_semaphore st - 1\<rparr>) = Some s" using assms(1) by (simp add: find_in_table_state_list_with_thread_def)
  moreover have "read_table_metadata (f_disk st) dropped_name = Inl Null_Pointer" using assms(3) by (simp add: read_table_metadata_def read_file_at file_at_def has_table_map_of)
  ultimately show ?thesis using assms(2,4) by (simp add: compact_thread_begin_def Let_def)
qed

lemma find_other_update_first:
  "find P xs = Some s \<Longrightarrow> find (\<lambda>x. key x = key s) xs = Some s \<Longrightarrow> key (f s) = key s \<Longrightarrow> find (\<lambda>x. key x = key s) (update_first P f xs) = Some (f s)"
proof (induction xs)
  case (Cons x xs)
  have "P s" using Cons.prems(1) find_Some_iff [of P "x # xs" s] by blast
  then have x: "P x \<longleftrightarrow> s = x" "key x = key s \<longleftrightarrow> s = x" using Cons.prems(1,2) by (auto split: if_splits)
  show ?case
  proof (cases "s = x")
    case True
    then show ?thesis using x(1) Cons.prems(3) by simp
  next
    case False
    then have "\<not> P x" "key x \<noteq> key s" using x by simp_all
    then show ?thesis using Cons.IH Cons.prems by (simp only: find.simps update_first.simps if_False)
  qed
qed simp

lemma upper_dropped_name: "to_uppercase dropped_name \<noteq> dropped_name"
  by code_simp

context fs_libs
begin

lemma drop_before_begin:
  assumes inv: "fs_inv e st" and has: "has_table (f_disk st) (to_uppercase (drp_table_name input))" and nm: "to_uppercase (drp_table_name input) \<noteq> to_uppercase dropped_name"
    and s: "find_in_table_state_list e (to_uppercase (drp_table_name input)) st = Some s" "find_in_table_state_list_with_thread (ts_compaction_thread s) st = Some s" "0 < f_thread_semaphore st"
  shows "\<exists>st'. process_drop e input st = Inr (0, st') \<and> compact_thread_begin (ts_compaction_thread s) st' = Inl Null_Pointer"
proof -
  let ?t = "to_uppercase (drp_table_name input)"
  obtain st' where st': "process_drop e input st = Inr (0, st')" "fs_inv e st'" using drop_ok [OF inv has nm] by blast
  then obtain d where lw: "live_status_wait e ?t (st\<lparr>f_disk := d\<rparr>) = Inr st'"
    using exists_of_table [OF has] fs_inv_free [OF inv, of ?t] by (auto simp: process_drop_def Let_def rbind_Inr_iff)
  let ?f = "\<lambda>s. s\<lparr>ts_name := dropped_name, ts_live_status_mutex := ts_live_status_mutex s - 1\<rparr>"
  have f: "find_in_table_state_list e ?t (st\<lparr>f_disk := d\<rparr>) = Some s" using s(1) by (simp add: find_in_table_state_list_def)
  then have eq: "st' = change_state e ?t ?f (st\<lparr>f_disk := d\<rparr>)" using lw by (auto simp: live_status_wait_def split: if_splits)
  have "find_in_table_state_list_with_thread (ts_compaction_thread s) st' = Some (?f s)"
    using find_other_update_first [of _ "f_table_state_list st" s ts_compaction_thread ?f] s(1,2)
    by (simp add: eq change_state_def find_in_table_state_list_def find_in_table_state_list_with_thread_def)
  moreover have "\<not> has_table (f_disk st') dropped_name" using st'(2) upper_dropped_name by (auto simp: fs_inv_def disk_inv_def tables_ok_def)
  moreover have "0 < f_thread_semaphore st'" using s(3) by (simp add: eq change_state_def)
  ultimately show ?thesis using st'(1) dropped_thread_begins by auto
qed

lemma drop_keeps_records:
  assumes inv: "fs_inv e st" and bs: "2 \<le> e_block_size e" and has: "has_table (f_disk st) (to_uppercase (drp_table_name input))"
    and nm: "to_uppercase (drp_table_name input) \<noteq> to_uppercase dropped_name" and tb: "tb \<in> set (f_mem_table st)" "tb_name tb = to_uppercase (drp_table_name input)"
    and mem: "mem_rep e st (to_uppercase (drp_table_name input)) mem"
  shows "\<exists>st'. process_drop e input st = Inr (0, st') \<and> dump e st' = Inl Null_Pointer \<and>
    (\<forall>cre st''. cre_table_name cre = drp_table_name input \<longrightarrow> 1 \<le> cre_partitions cre \<longrightarrow> fits_long (cre_compaction_time cre) \<longrightarrow> process_create e cre st' = Inr (0, st'') \<longrightarrow>
      (\<forall>k. \<exists>r. process_select e \<lparr>sel_table_name = drp_table_name input, sel_key = k\<rparr> st'' = Inr (answer (to_uppercase (drp_table_name input)) r, st'') \<and> newest (uint k) mem r))"
proof -
  let ?t = "to_uppercase (drp_table_name input)"
  obtain st' where st': "process_drop e input st = Inr (0, st')" "fs_inv e st'" "f_mem_table st' = f_mem_table st"
    "map fst (d_tables (f_disk st')) = filter (\<lambda>t. t \<noteq> ?t) (map fst (d_tables (f_disk st)))" using drop_ok [OF inv has nm] by blast
  have gone: "\<not> has_table (f_disk st') ?t" unfolding has_table_def st'(4) by auto
  have "\<forall>tb \<in> set (f_mem_table st'). to_uppercase (tb_name tb) = tb_name tb" "bitmap_ok (f_disk st')" using st'(2) by (auto simp: fs_inv_def mem_inv_def disk_inv_def)
  then have "dump e st' = Inl Null_Pointer" using dump_missing [of "f_disk st'" tb "f_mem_table st'"] bs tb gone st'(3) by (simp add: dump_defs)
  moreover have "\<exists>r. process_select e \<lparr>sel_table_name = drp_table_name input, sel_key = k\<rparr> st'' = Inr (answer ?t r, st'') \<and> newest (uint k) mem r"
    if c: "cre_table_name cre = drp_table_name input" "1 \<le> cre_partitions cre" "fits_long (cre_compaction_time cre)" "process_create e cre st' = Inr (0, st'')" for cre st'' k
  proof -
    have room: "cre_partitions cre \<le> int (free_count e (f_disk st'))" using create_errors(1) [OF st'(2) c(2)] c(4) by fastforce
    have n: "?t \<noteq> []" "?t \<notin> set (table_names (f_disk st'))" using create_errors(2) [OF st'(2) c(2) room] c(1,4) by auto
    then have "?t \<notin> set dot_entries" by (simp add: table_names_def)
    then have rep: "table_rep e (f_disk st'') ?t (cre_compaction_time cre) (cre_consistency cre) (replicate (nat (cre_partitions cre)) []) []" "fs_inv e st''" "f_mem_table st'' = f_mem_table st'"
      using create_ok [OF st'(2) _ _ _ c(2) room c(3)] n(1) gone c(1,4) by auto
    have "mem_rep e st'' ?t mem" using mem rep(3) st'(3) by (simp add: mem_rep_def)
    then show ?thesis
      using select_newest [of st'' "\<lparr>sel_table_name = drp_table_name input, sel_key = k\<rparr>"] rep(1) fs_inv_free [OF rep(2)] by (fastforce simp: concat_replicate_trivial)
  qed
  ultimately show ?thesis using st'(1) by blast
qed

end

end
