(* ===== verification/FS_Theorems.thy ===== *)
theory FS_Theorems
  imports FS_Races
begin

text \<open>
  The properties of the file system process. \<open>fs_libs e\<close> says what the commons library documents of its string
  functions and bit arrays, and that a record fits the buffers; \<open>fs_inv e st\<close> is the invariant between two
  operations. The records of a table are those of its partitions (\<open>parts\<close>), its temporary files (\<open>tmps\<close>)
  and the memory table (\<open>mem\<close>).
\<close>

section \<open>Which tables there are\<close>

lemma exists_iff:
  assumes "fs_inv e st" "to_uppercase name \<notin> set dot_entries"
  shows "exist_in_directory name (Some (table_names (f_disk st))) \<longleftrightarrow> has_table (f_disk st) (to_uppercase name)"
proof
  assume "exist_in_directory name (Some (table_names (f_disk st)))"
  then obtain n where n: "n \<in> set (table_names (f_disk st))" "to_uppercase n = to_uppercase name" by (auto simp: exist_in_directory_def list_ex_iff)
  have "to_uppercase ''.'' = ''.''" "to_uppercase ''..'' = ''..''" by code_simp+
  then have "n \<notin> set dot_entries" using n(2) assms(2) by (auto simp: dot_entries_def)
  then have h: "has_table (f_disk st) n" using n(1) by (simp add: table_names_def has_table_def)
  then have "to_uppercase n = n" using assms(1) by (simp add: fs_inv_def disk_inv_def tables_ok_def)
  then show "has_table (f_disk st) (to_uppercase name)" using h n(2) by simp
qed (rule exists_of_table)

lemma table_rep_of: "fs_inv e st \<Longrightarrow> has_table (f_disk st) t \<Longrightarrow> \<exists>ct c parts tmps. table_rep e (f_disk st) t ct c parts tmps"
  by (auto simp: fs_inv_def disk_inv_def tables_ok_def)

lemma mem_rep_ex: "fs_inv e st \<Longrightarrow> \<exists>mem. mem_rep e st table mem"
proof (cases "search_table_in_memtable e table (f_mem_table st)")
  case None
  then show ?thesis by (auto simp: mem_rep_def intro: exI [of _ "[]"])
next
  case (Some t)
  assume "fs_inv e st"
  moreover have "t \<in> set (f_mem_table st)" using Some by (auto simp: search_table_in_memtable_def find_Some_iff)
  ultimately obtain rs where "tb_tkvs t = map convert_to_tkv rs" "\<forall>r \<in> set rs. rec_ok e r" unfolding fs_inv_def mem_inv_def by blast
  then show ?thesis using Some by (auto simp: mem_rep_def)
qed

section \<open>SELECT and INSERT\<close>

definition no_table_answer :: "string \<Rightarrow> record_t" where
  "no_table_answer table = \<lparr>rec_table_name = table, rec_timestamp = -2, rec_key = -2, rec_value = ''-2''\<rparr>"

text \<open>
  C3. SELECT in the file system, between any two operations. For a table that does not exist the answer is the
  record with -2. A table that exists has partitions, temporary files and a part of the memory table, and when the
  records of a key have ascending timestamps in each temporary file, the answer is a record of the key with the
  greatest timestamp in all of these, or the record with -1 when there is none. The state is unchanged.
\<close>

theorem fs_select:
  fixes input :: select_input_t
  defines "table \<equiv> to_uppercase (sel_table_name input)"
  assumes "fs_libs e" "fs_inv e st"
  shows "(\<not> has_table (f_disk st) table \<longrightarrow> table \<notin> set dot_entries \<longrightarrow> process_select e input st = Inr (no_table_answer table, st)) \<and>
    (has_table (f_disk st) table \<longrightarrow> (\<exists>ct c parts tmps mem. table_rep e (f_disk st) table ct c parts tmps \<and> mem_rep e st table mem)) \<and>
    (\<forall>ct c parts tmps mem. table_rep e (f_disk st) table ct c parts tmps \<longrightarrow> mem_rep e st table mem \<longrightarrow> (\<forall>t \<in> set tmps. ascending t) \<longrightarrow>
       (\<exists>r. process_select e input st = Inr (answer table r, st) \<and> newest (uint (sel_key input)) (concat tmps @ mem @ concat parts) r))"
proof (intro conjI impI allI)
  have free: "table_free e table st" using fs_inv_free [OF assms(3)] .
  show "process_select e input st = Inr (no_table_answer table, st)" if "\<not> has_table (f_disk st) table" "table \<notin> set dot_entries"
    using that exists_iff [OF assms(3), of "sel_table_name input"] free unfolding table_def by (simp add: process_select_def Let_def no_table_answer_def)
  show "\<exists>ct c parts tmps mem. table_rep e (f_disk st) table ct c parts tmps \<and> mem_rep e st table mem" if "has_table (f_disk st) table"
    using table_rep_of [OF assms(3) that] mem_rep_ex [OF assms(3), of table] by blast
  show "\<exists>r. process_select e input st = Inr (answer table r, st) \<and> newest (uint (sel_key input)) (concat tmps @ mem @ concat parts) r"
    if "table_rep e (f_disk st) table ct c parts tmps" "mem_rep e st table mem" "\<forall>t \<in> set tmps. ascending t" for ct c parts tmps mem
    using fs_reader.select_newest [OF fs_libs.axioms(1) [OF assms(2)]] that free unfolding table_def by blast
qed

theorem fs_select_witness:
  "process_select demo_env demo_select demo_inserted = Inr (\<lparr>rec_table_name = ''T'', rec_timestamp = 9, rec_key = 1, rec_value = ''N''\<rparr>, demo_inserted)"
proof -
  have "table_rep demo_env (f_disk demo_inserted) ''T'' 30000 STRONG_CONSISTENCY [[]] []" using demo_created_facts(4) demo_inserted_facts(3) by simp
  then obtain r where r: "process_select demo_env demo_select demo_inserted = Inr (answer ''T'' r, demo_inserted)" "newest 1 [demo_record 9 ''N''] r"
    using fs_select [OF demo_libs demo_inserted_facts(2), of demo_select] demo_inserted_facts(4) unfolding demo_insert_facts by (fastforce simp: demo_select_def)
  then have "r = demo_record 9 ''N''" by (simp add: newest_def demo_record_def)
  then show ?thesis using r(1) by (simp add: answer_def demo_record_def)
qed

text \<open>
  C4. INSERT in the file system. For a table that does not exist it answers -2 and for a value that is too long -1, and
  nothing changes. Otherwise it answers 0, the disk is unchanged and the record, with the current time when it had none, is
  added to the memory table of its table and of no other; a SELECT of the key then finds the newest of all the
  records, this one included.
\<close>

theorem fs_insert:
  fixes input :: insert_input_t
  defines "table \<equiv> to_uppercase (ins_table_name input)"
  assumes "fs_libs e" "fs_inv e st"
  shows "(\<not> has_table (f_disk st) table \<longrightarrow> table \<notin> set dot_entries \<longrightarrow> process_insert e input st = Inr (-2, st)) \<and>
    (has_table (f_disk st) table \<longrightarrow> 0 \<le> e_max_value_size e \<longrightarrow> e_max_value_size e < int (length (ins_value input)) \<longrightarrow> process_insert e input st = Inr (-1, st)) \<and>
    (has_table (f_disk st) table \<longrightarrow> insert_ok e input \<longrightarrow>
      (\<exists>st'. process_insert e input st = Inr (0, st') \<and> fs_inv e st' \<and> f_disk st' = f_disk st \<and>
        (\<forall>t mem. to_uppercase t = t \<longrightarrow> mem_rep e st t mem \<longrightarrow> mem_rep e st' t (if t = table then mem @ [inserted e input] else mem)) \<and>
        (\<forall>ct c parts tmps mem. table_rep e (f_disk st) table ct c parts tmps \<longrightarrow> mem_rep e st table mem \<longrightarrow> (\<forall>t \<in> set tmps. ascending t) \<longrightarrow>
          (\<exists>r. process_select e \<lparr>sel_table_name = ins_table_name input, sel_key = ins_key input\<rparr> st' = Inr (answer table r, st') \<and>
             newest (uint (ins_key input)) (concat tmps @ (mem @ [inserted e input]) @ concat parts) r))))"
proof (intro conjI impI)
  have free: "table_free e table st" using fs_inv_free [OF assms(3)] .
  show "process_insert e input st = Inr (-2, st)" if "\<not> has_table (f_disk st) table" "table \<notin> set dot_entries"
    using that exists_iff [OF assms(3), of "ins_table_name input"] free unfolding table_def by (simp add: process_insert_def Let_def)
  show "process_insert e input st = Inr (-1, st)" if "has_table (f_disk st) table" "0 \<le> e_max_value_size e" "e_max_value_size e < int (length (ins_value input))"
    using that exists_of_table [of "f_disk st" "ins_table_name input"] free unfolding table_def by (simp add: process_insert_def Let_def value_exceeds_maximun_size_def)
  assume h: "has_table (f_disk st) table" "insert_ok e input"
  obtain st' where st': "process_insert e input st = Inr (0, st')" "fs_inv e st'" "f_disk st' = f_disk st"
    "\<forall>t mem. to_uppercase t = t \<longrightarrow> mem_rep e st t mem \<longrightarrow> mem_rep e st' t (if t = table then mem @ [inserted e input] else mem)"
    using fs_libs.insert_adds [OF assms(2,3)] h unfolding table_def by blast
  have "\<exists>r. process_select e \<lparr>sel_table_name = ins_table_name input, sel_key = ins_key input\<rparr> st' = Inr (answer table r, st') \<and>
      newest (uint (ins_key input)) (concat tmps @ (mem @ [inserted e input]) @ concat parts) r"
    if rep: "table_rep e (f_disk st) table ct c parts tmps" "mem_rep e st table mem" "\<forall>t \<in> set tmps. ascending t" for ct c parts tmps mem
  proof -
    have "mem_rep e st' table (mem @ [inserted e input])" using st'(4) rep(2) unfolding table_def by (metis to_uppercase_idem)
    then show ?thesis
      using fs_reader.select_newest [OF fs_libs.axioms(1) [OF assms(2)], of st' "\<lparr>sel_table_name = ins_table_name input, sel_key = ins_key input\<rparr>" ct c parts tmps "mem @ [inserted e input]"]
        rep(1,3) st'(3) fs_inv_free [OF st'(2)] unfolding table_def by simp
  qed
  then show "\<exists>st'. process_insert e input st = Inr (0, st') \<and> fs_inv e st' \<and> f_disk st' = f_disk st \<and>
      (\<forall>t mem. to_uppercase t = t \<longrightarrow> mem_rep e st t mem \<longrightarrow> mem_rep e st' t (if t = table then mem @ [inserted e input] else mem)) \<and>
      (\<forall>ct c parts tmps mem. table_rep e (f_disk st) table ct c parts tmps \<longrightarrow> mem_rep e st table mem \<longrightarrow> (\<forall>t \<in> set tmps. ascending t) \<longrightarrow>
        (\<exists>r. process_select e \<lparr>sel_table_name = ins_table_name input, sel_key = ins_key input\<rparr> st' = Inr (answer table r, st') \<and>
           newest (uint (ins_key input)) (concat tmps @ (mem @ [inserted e input]) @ concat parts) r))"
    using st' by blast
qed

theorem fs_insert_witness:
  "\<exists>st'. process_insert demo_env (demo_insert 5 ''O'') demo_inserted = Inr (0, st') \<and>
     process_select demo_env demo_select st' = Inr (\<lparr>rec_table_name = ''T'', rec_timestamp = 9, rec_key = 1, rec_value = ''N''\<rparr>, st')"
proof -
  have i: "ins_table_name (demo_insert 5 ''O'') = ''t''" "ins_key (demo_insert 5 ''O'') = 1" by (simp_all add: demo_insert_def)
  have rep: "table_rep demo_env (f_disk demo_inserted) ''T'' 30000 STRONG_CONSISTENCY [[]] []" using demo_created_facts(4) demo_inserted_facts(3) by simp
  then have "has_table (f_disk demo_inserted) ''T''" by (simp add: table_rep_def)
  then obtain st' where st': "process_insert demo_env (demo_insert 5 ''O'') demo_inserted = Inr (0, st')"
    "\<forall>ct c parts tmps mem. table_rep demo_env (f_disk demo_inserted) ''T'' ct c parts tmps \<longrightarrow> mem_rep demo_env demo_inserted ''T'' mem \<longrightarrow> (\<forall>t \<in> set tmps. ascending t) \<longrightarrow>
      (\<exists>r. process_select demo_env demo_select st' = Inr (answer ''T'' r, st') \<and> newest 1 (concat tmps @ (mem @ [demo_record 5 ''O'']) @ concat parts) r)"
    using fs_insert [OF demo_libs demo_inserted_facts(2), of "demo_insert 5 ''O''", THEN conjunct2, THEN conjunct2] demo_insert_facts(2)
    unfolding i fs_demo_upper(1) demo_insert_facts(4) demo_select_def unsigned_1 by blast
  then obtain r where r: "process_select demo_env demo_select st' = Inr (answer ''T'' r, st')" "newest 1 [demo_record 9 ''N'', demo_record 5 ''O''] r"
    using rep demo_inserted_facts(4) by fastforce
  then have "r = demo_record 9 ''N''" by (auto simp: newest_def demo_record_def)
  then show ?thesis using r(1) st'(1) by (simp add: answer_def demo_record_def)
qed

section \<open>Dump and compaction\<close>



text \<open>
  C6. An iteration of the compaction thread of a live table, with room on the disk, succeeds. All the temporary files
  are gone, and for every key the partitions then hold the newest of the records that the partitions and the temporary
  files had, at most one record for a key and in the partition of its remainder (\<open>table_rep\<close>); other tables and the
  memory table are unchanged and all semaphores are given back.
\<close>

theorem fs_compaction:
  assumes "fs_libs e" "fs_inv e st" "get_live_status thread st = 1" "table_rep e (f_disk st) table ct c parts tmps" "2 \<le> e_block_size e" "compact_room e (f_disk st) parts tmps"
  shows "\<exists>d' parts'. compact_this_table e thread table st = Inr (True, st\<lparr>f_disk := d'\<rparr>) \<and> fs_inv e (st\<lparr>f_disk := d'\<rparr>) \<and>
    map fst (d_tables d') = map fst (d_tables (f_disk st)) \<and> table_rep e d' table ct c parts' [] \<and>
    (\<forall>k y. 0 \<le> k \<longrightarrow> newest k (concat parts') y \<longrightarrow> newest k (concat parts @ concat tmps) y) \<and>
    (\<forall>t ct c parts tmps. t \<noteq> table \<longrightarrow> table_rep e (f_disk st) t ct c parts tmps \<longrightarrow> table_rep e d' t ct c parts tmps)"
  using fs_libs.compact_thread_ok [OF assms] .

theorem fs_compaction_witness:
  "\<exists>d' parts'. compact_this_table demo_env 0 ''T'' demo_dumped = Inr (True, demo_dumped\<lparr>f_disk := d'\<rparr>) \<and>
     table_rep demo_env d' ''T'' 30000 STRONG_CONSISTENCY parts' [] \<and> newest 1 (concat parts') (demo_record 9 ''N'')"
proof -
  have "compact_room demo_env (f_disk demo_dumped) [[]] [[demo_record 9 ''N'']]"
    using demo_dumped_facts(5) by (simp add: compact_room_def parts_cost_def archive_cost_def tkvs_cost_def demo_records)
  moreover have "2 \<le> e_block_size demo_env" by (simp add: demo_env_def)
  ultimately obtain d' parts' where d': "compact_this_table demo_env 0 ''T'' demo_dumped = Inr (True, demo_dumped\<lparr>f_disk := d'\<rparr>)"
    "table_rep demo_env d' ''T'' 30000 STRONG_CONSISTENCY parts' []" "\<forall>k y. 0 \<le> k \<longrightarrow> newest k (concat parts') y \<longrightarrow> newest k (concat [[]] @ concat [[demo_record 9 ''N'']]) y"
    using fs_compaction [OF demo_libs demo_dumped_facts(2,6,4)] by blast
  obtain y where y: "newest 1 (concat parts') y" using newest_ex by blast
  then have "newest 1 [demo_record 9 ''N''] y" using d'(3) by fastforce
  then have "y = demo_record 9 ''N''" by (simp add: newest_def demo_record_def)
  then show ?thesis using d' y by blast
qed

section \<open>CREATE, DESCRIBE and DROP\<close>

text \<open>
  C8. CREATE of a table with at least one partition. Without enough free blocks it answers -2, for a name that is
  taken -1, and nothing changes. Otherwise it answers 0 and takes as many blocks as partitions, other tables and the
  memory table stay, the new table has the partitions asked for, all empty, and DESCRIBE of the table, however its name is
  written, returns the consistency, the partitions and the compaction time it was created with.
\<close>

theorem fs_create:
  fixes input :: create_input_t
  defines "table \<equiv> to_uppercase (cre_table_name input)"
  assumes "fs_libs e" "fs_inv e st" "1 \<le> cre_partitions input" "fits_long (cre_compaction_time input)"
  shows "(int (free_count e (f_disk st)) < cre_partitions input \<longrightarrow> process_create e input st = Inr (-2, st)) \<and>
    (cre_partitions input \<le> int (free_count e (f_disk st)) \<longrightarrow> table = [] \<or> table \<in> set (table_names (f_disk st)) \<longrightarrow> process_create e input st = Inr (-1, st)) \<and>
    (cre_partitions input \<le> int (free_count e (f_disk st)) \<longrightarrow> table \<noteq> [] \<longrightarrow> table \<notin> set (table_names (f_disk st)) \<longrightarrow>
      (\<exists>st'. process_create e input st = Inr (0, st') \<and> fs_inv e st' \<and> f_mem_table st' = f_mem_table st \<and>
         int (free_count e (f_disk st')) = int (free_count e (f_disk st)) - cre_partitions input \<and>
         table_rep e (f_disk st') table (cre_compaction_time input) (cre_consistency input) (replicate (nat (cre_partitions input)) []) [] \<and>
         (\<forall>t ct c parts tmps. table_rep e (f_disk st) t ct c parts tmps \<longrightarrow> table_rep e (f_disk st') t ct c parts tmps) \<and>
         (\<forall>name. to_uppercase name = table \<longrightarrow> process_describe \<lparr>des_table_name = Some name\<rparr> st' =
            Inr [\<lparr>md_table_name = table, md_consistency = cre_consistency input, md_partitions = cre_partitions input, md_compaction_time = cre_compaction_time input\<rparr>])))"
proof (intro conjI impI)
  show "process_create e input st = Inr (-2, st)" if "int (free_count e (f_disk st)) < cre_partitions input"
    using fs_libs.create_errors(1) [OF assms(2,3,4) that] .
  show "process_create e input st = Inr (-1, st)" if "cre_partitions input \<le> int (free_count e (f_disk st))" "table = [] \<or> table \<in> set (table_names (f_disk st))"
    using fs_libs.create_errors(2) [OF assms(2,3,4)] that unfolding table_def by blast
  assume h: "cre_partitions input \<le> int (free_count e (f_disk st))" "table \<noteq> []" "table \<notin> set (table_names (f_disk st))"
  then have "table \<notin> set dot_entries" "\<not> has_table (f_disk st) table" by (auto simp: table_names_def has_table_def)
  then obtain st' where st': "process_create e input st = Inr (0, st')" "fs_inv e st'" "f_mem_table st' = f_mem_table st"
    "int (free_count e (f_disk st')) = int (free_count e (f_disk st)) - cre_partitions input"
    "table_rep e (f_disk st') table (cre_compaction_time input) (cre_consistency input) (replicate (nat (cre_partitions input)) []) []"
    "\<forall>t ct c parts tmps. table_rep e (f_disk st) t ct c parts tmps \<longrightarrow> table_rep e (f_disk st') t ct c parts tmps"
    using fs_libs.create_ok [OF assms(2,3) _ _ _ assms(4) h(1) assms(5)] h(2) unfolding table_def by blast
  have "process_describe \<lparr>des_table_name = Some name\<rparr> st' =
      Inr [\<lparr>md_table_name = table, md_consistency = cre_consistency input, md_partitions = cre_partitions input, md_compaction_time = cre_compaction_time input\<rparr>]"
    if "to_uppercase name = table" for name
    using that exists_of_table [of "f_disk st'" name] describe_table_rep [OF st'(5)] st'(5) assms(4) by (simp add: process_describe_def table_rep_def)
  then show "\<exists>st'. process_create e input st = Inr (0, st') \<and> fs_inv e st' \<and> f_mem_table st' = f_mem_table st \<and>
      int (free_count e (f_disk st')) = int (free_count e (f_disk st)) - cre_partitions input \<and>
      table_rep e (f_disk st') table (cre_compaction_time input) (cre_consistency input) (replicate (nat (cre_partitions input)) []) [] \<and>
      (\<forall>t ct c parts tmps. table_rep e (f_disk st) t ct c parts tmps \<longrightarrow> table_rep e (f_disk st') t ct c parts tmps) \<and>
      (\<forall>name. to_uppercase name = table \<longrightarrow> process_describe \<lparr>des_table_name = Some name\<rparr> st' =
         Inr [\<lparr>md_table_name = table, md_consistency = cre_consistency input, md_partitions = cre_partitions input, md_compaction_time = cre_compaction_time input\<rparr>])"
    using st' by blast
qed

theorem fs_create_witness:
  "\<exists>st'. process_create demo_env demo_create demo_start = Inr (0, st') \<and> process_create demo_env demo_create st' = Inr (-1, st') \<and>
     process_describe \<lparr>des_table_name = Some ''t''\<rparr> st' = Inr [\<lparr>md_table_name = ''T'', md_consistency = STRONG_CONSISTENCY, md_partitions = 1, md_compaction_time = 30000\<rparr>]"
proof -
  have c: "1 \<le> cre_partitions demo_create" "fits_long (cre_compaction_time demo_create)" "cre_partitions demo_create = 1" "to_uppercase (cre_table_name demo_create) = ''T''"
    "cre_consistency demo_create = STRONG_CONSISTENCY" "cre_compaction_time demo_create = 30000" by (simp_all add: demo_create_def fits_long_def fs_demo_upper)
  have f: "1 \<le> int (free_count demo_env (f_disk demo_start))" "''T'' \<notin> set (table_names (f_disk demo_start))" using demo_start_facts(2,4) by (simp_all add: table_names_def dot_entries_def)
  obtain st' where st': "process_create demo_env demo_create demo_start = Inr (0, st')"
    "process_describe \<lparr>des_table_name = Some ''t''\<rparr> st' = Inr [\<lparr>md_table_name = ''T'', md_consistency = STRONG_CONSISTENCY, md_partitions = 1, md_compaction_time = 30000\<rparr>]"
    using fs_create [OF demo_libs demo_start_facts(1) c(1,2), THEN conjunct2, THEN conjunct2] f fs_demo_upper(1) unfolding c(3-6) by blast
  then have s: "st' = demo_created" by (simp add: demo_created_def next_state_def)
  have "''T'' \<in> set (table_names (f_disk demo_created))" "1 \<le> int (free_count demo_env (f_disk demo_created))" using demo_created_facts(5,6) by (simp_all add: table_names_def del: list.set_map)
  then have "process_create demo_env demo_create demo_created = Inr (-1, demo_created)"
    using fs_create [OF demo_libs demo_created_facts(2) c(1,2), THEN conjunct2, THEN conjunct1] unfolding c(3,4) by blast
  then show ?thesis using st' s by blast
qed

text \<open>
  C9. DROP. For a table that does not exist it answers -1 and nothing changes. Otherwise it answers 0, exactly
  that table is gone, the blocks that become free are exactly those of its partitions and temporary files, the other tables
  keep their records, and a SELECT of the table then answers -2.
\<close>

theorem fs_drop:
  fixes input :: drop_input_t
  defines "table \<equiv> to_uppercase (drp_table_name input)"
  assumes "fs_libs e" "fs_inv e st" "table \<noteq> to_uppercase dropped_name" "table \<notin> set dot_entries"
  shows "(\<not> has_table (f_disk st) table \<longrightarrow> process_drop e input st = Inr (-1, st)) \<and>
    (has_table (f_disk st) table \<longrightarrow>
      (\<exists>st'. process_drop e input st = Inr (0, st') \<and> fs_inv e st' \<and> (\<forall>t. has_table (f_disk st') t \<longleftrightarrow> has_table (f_disk st) t \<and> t \<noteq> table) \<and>
         free_set e (f_disk st') = free_set e (f_disk st) \<union> table_blocks (f_disk st) table \<and>
         (\<forall>t ct c parts tmps. t \<noteq> table \<longrightarrow> table_rep e (f_disk st) t ct c parts tmps \<longrightarrow> table_rep e (f_disk st') t ct c parts tmps) \<and>
         (\<forall>k. process_select e \<lparr>sel_table_name = drp_table_name input, sel_key = k\<rparr> st' = Inr (no_table_answer table, st'))))"
proof (intro conjI impI)
  show "process_drop e input st = Inr (-1, st)" if "\<not> has_table (f_disk st) table"
    using that exists_iff [OF assms(3), of "drp_table_name input"] assms(5) fs_inv_free [OF assms(3), of table] unfolding table_def by (simp add: process_drop_def Let_def)
  assume h: "has_table (f_disk st) table"
  obtain st' where st': "process_drop e input st = Inr (0, st')" "fs_inv e st'" "map fst (d_tables (f_disk st')) = filter (\<lambda>t. t \<noteq> table) (map fst (d_tables (f_disk st)))"
    "free_set e (f_disk st') = free_set e (f_disk st) \<union> table_blocks (f_disk st) table"
    "\<forall>t ct c parts tmps. t \<noteq> table \<longrightarrow> table_rep e (f_disk st) t ct c parts tmps \<longrightarrow> table_rep e (f_disk st') t ct c parts tmps"
    using fs_libs.drop_ok [OF assms(2,3)] h assms(4) unfolding table_def by blast
  have t: "has_table (f_disk st') t \<longleftrightarrow> has_table (f_disk st) t \<and> t \<noteq> table" for t unfolding has_table_def st'(3) by auto
  then have "process_select e \<lparr>sel_table_name = drp_table_name input, sel_key = k\<rparr> st' = Inr (no_table_answer table, st')" for k
    using exists_iff [OF st'(2), of "drp_table_name input"] assms(5) fs_inv_free [OF st'(2), of table] unfolding table_def
    by (simp add: process_select_def Let_def no_table_answer_def)
  then show "\<exists>st'. process_drop e input st = Inr (0, st') \<and> fs_inv e st' \<and> (\<forall>t. has_table (f_disk st') t \<longleftrightarrow> has_table (f_disk st) t \<and> t \<noteq> table) \<and>
      free_set e (f_disk st') = free_set e (f_disk st) \<union> table_blocks (f_disk st) table \<and>
      (\<forall>t ct c parts tmps. t \<noteq> table \<longrightarrow> table_rep e (f_disk st) t ct c parts tmps \<longrightarrow> table_rep e (f_disk st') t ct c parts tmps) \<and>
      (\<forall>k. process_select e \<lparr>sel_table_name = drp_table_name input, sel_key = k\<rparr> st' = Inr (no_table_answer table, st'))"
    using st' t by blast
qed

theorem fs_drop_witness:
  "\<exists>st'. process_drop demo_env \<lparr>drp_table_name = ''t''\<rparr> demo_dumped = Inr (0, st') \<and>
     free_set demo_env (f_disk st') = free_set demo_env (f_disk demo_dumped) \<union> table_blocks (f_disk demo_dumped) ''T'' \<and>
     process_select demo_env demo_select st' = Inr (no_table_answer ''T'', st')"
proof -
  have u: "drp_table_name \<lparr>drp_table_name = ''t''\<rparr> = ''t''" by simp
  have n: "''T'' \<noteq> to_uppercase dropped_name" "''T'' \<notin> set dot_entries" using fs_demo_upper(2,3) by (simp_all add: dot_entries_def)
  have "has_table (f_disk demo_dumped) ''T''" using demo_dumped_facts(4) by (simp add: table_rep_def)
  then show ?thesis
    using fs_drop [OF demo_libs demo_dumped_facts(2), of "\<lparr>drp_table_name = ''t''\<rparr>", THEN conjunct2] n unfolding u fs_demo_upper(1) demo_select_def by blast
qed

section \<open>The invariant\<close>

text \<open>
  C7. The invariant of the file system process. From a freshly formatted disk, after any sequence of SELECT, INSERT,
  CREATE, DROP, dumps, compactions and ends of compaction threads (dumps and compactions with room, dumps of tables that
  exist) the bitmap marks exactly the blocks of the archives of the tables, no block belongs to two of them, every
  marked block has its file, the files of every table are its metadata, its partitions and consecutively numbered
  temporary files, every archive can be read, and every semaphore is free.
\<close>

theorem fs_invariant:
  assumes "fs_reachable e blocks t st" "commons_api (e_cm e)" "bitarray_api (e_ba e)" "0 \<le> e_max_value_size e" "2 \<le> e_block_size e" "0 \<le> blocks" "blocks < 2 ^ 31"
  shows "0 \<le> t \<and> fits_long t \<and> fs_inv (e\<lparr>e_now := t\<rparr>) st"
  using reachable_inv [OF assms] .

theorem fs_invariant_witness: "fs_reachable demo_env 64 50 demo_dumped \<and> fs_inv (demo_env\<lparr>e_now := 50\<rparr>) demo_dumped"
proof -
  have e: "demo_env\<lparr>e_now := 50\<rparr> = demo_env" by (simp add: demo_env_def)
  have 0: "fs_reachable demo_env 64 50 demo_start" unfolding demo_start_def by (rule fs_begin) (simp_all add: fits_long_def)
  have 1: "fs_reachable demo_env 64 50 demo_created"
    by (rule fs_create_op [OF 0, of demo_create 0]) (use demo_created_facts(1) in \<open>simp_all add: e demo_create_def fits_long_def\<close>)
  have 2: "fs_reachable demo_env 64 50 demo_inserted"
    by (rule fs_insert_op [OF 1, of "demo_insert 9 ''N''" 0]) (use demo_inserted_facts(1) demo_insert_facts(1) in \<open>simp_all add: e\<close>)
  have "has_table (f_disk demo_inserted) ''T''" using demo_created_facts(4) by (simp add: demo_inserted_facts(3) table_rep_def)
  then have 3: "fs_reachable demo_env 64 50 demo_dumped"
    by (intro fs_dump_op [OF 2]) (use demo_dumped_facts(1) demo_created_facts(5) in \<open>simp_all add: e demo_inserted_facts(3,5) mem_cost_def tkvs_cost_def\<close>)
  have "fs_inv (demo_env\<lparr>e_now := 50\<rparr>) demo_dumped"
    using fs_invariant [OF 3] by (simp add: demo_env_def std.commons_api_axioms std_ba.bitarray_api_axioms)
  then show ?thesis using 3 by simp
qed

section \<open>Archives\<close>

text \<open>
  C10. Round trip through the blocks: the records of a table that a dump writes, however they are cut at the ends of the
  blocks, are read back from the new temporary file as they were, in the same order.
\<close>

theorem archive_roundtrip:
  assumes "fs_libs e" "disk_inv e d" "2 \<le> e_block_size e" "table_rep e d (tb_name tb) ct c parts tmps" "\<forall>r \<in> set rs. rec_ok e r"
    "tb_tkvs tb = map convert_to_tkv rs" "to_uppercase (tb_name tb) = tb_name tb" "archive_cost rs \<le> free_count e d"
  shows "\<exists>d' p. dump_table e tb d = Inr d' \<and> read_fs_archive d' (tb_name tb) (get_tmp_name (Suc (length tmps))) = Inr p \<and> create_tkv_list e d' p = Inr rs"
proof -
  obtain d' where d': "dump_table e tb d = Inr d'" "table_rep e d' (tb_name tb) ct c parts (tmps @ [rs])"
    using fs_libs.dump_table_ok [OF assms(1-7), of 0] assms(8) by auto
  then have "\<forall>i < length (tmps @ [rs]). \<exists>bs. archive_rep e d' (tb_name tb) (get_tmp_name (Suc i)) bs ((tmps @ [rs]) ! i)" unfolding table_rep_def by blast
  from this [rule_format, of "length tmps"] obtain bs where bs: "archive_rep e d' (tb_name tb) (get_tmp_name (Suc (length tmps))) bs rs" by auto
  obtain p where p: "read_fs_archive d' (tb_name tb) (get_tmp_name (Suc (length tmps))) = Inr p" "par_blocks p = bs" using archive_rep_read [OF bs] by blast
  have "reads_as e d' (par_blocks p) rs" using archive_reads_as [OF bs] p(2) by simp
  then show ?thesis using d' p fs_reader.create_tkv_list_as [OF fs_libs.axioms(1) [OF assms(1)]] by blast
qed

theorem archive_roundtrip_witness:
  "\<exists>d' p. dump_table demo_env \<lparr>tb_name = ''T'', tb_tkvs = [''9;1;N'', ''5;1;O'']\<rparr> (f_disk demo_created) = Inr d' \<and>
     read_fs_archive d' ''T'' (get_tmp_name 1) = Inr p \<and> create_tkv_list demo_env d' p = Inr [demo_record 9 ''N'', demo_record 5 ''O'']"
proof -
  let ?tb = "\<lparr>tb_name = ''T'', tb_tkvs = [''9;1;N'', ''5;1;O'']\<rparr>" and ?rs = "[demo_record 9 ''N'', demo_record 5 ''O'']"
  have "disk_inv demo_env (f_disk demo_created)" using demo_created_facts(2) by (simp add: fs_inv_def)
  moreover have "2 \<le> e_block_size demo_env" by (simp add: demo_env_def)
  moreover have "table_rep demo_env (f_disk demo_created) (tb_name ?tb) 30000 STRONG_CONSISTENCY [[]] []" using demo_created_facts(4) by simp
  moreover have "\<forall>r \<in> set ?rs. rec_ok demo_env r" "tb_tkvs ?tb = map convert_to_tkv ?rs" "to_uppercase (tb_name ?tb) = tb_name ?tb" by (simp_all add: demo_records fs_demo_upper)
  moreover have "archive_cost ?rs \<le> free_count demo_env (f_disk demo_created)" using demo_created_facts(5) by (simp add: archive_cost_def tkvs_cost_def demo_records)
  ultimately show ?thesis using archive_roundtrip [OF demo_libs, of "f_disk demo_created" ?tb 30000 STRONG_CONSISTENCY "[[]]" "[]" ?rs] by (simp del: upt_Suc)
qed

text \<open>
  C11. Searching a key in an archive agrees with listing the archive: the list the compaction reads is the list of
  records the archive holds, and when the records of the key are in ascending order the search, which builds no list, returns
  one of that list with the key and the greatest timestamp, or the record with -1 when the list has none.
\<close>

theorem search_agrees_with_listing:
  assumes "fs_libs e" "archive_rep e d table name bs rs"
  shows "\<exists>p. read_fs_archive d table name = Inr p \<and> create_tkv_list e d p = Inr rs \<and>
    (ascending rs \<longrightarrow> (\<forall>k. \<exists>r. search_key_in_fs_archive e d table name k = Inr r \<and> newest k rs r))"
proof -
  have reader: "fs_reader e" using fs_libs.axioms(1) [OF assms(1)] .
  obtain p where p: "read_fs_archive d table name = Inr p" "par_blocks p = bs" using archive_rep_read [OF assms(2)] by blast
  have "reads_as e d (par_blocks p) rs" using archive_reads_as [OF assms(2)] p(2) by simp
  then show ?thesis using p(1) fs_reader.create_tkv_list_as [OF reader] fs_reader.search_archive_newest [OF reader assms(2)] by blast
qed

theorem search_agrees_with_listing_witness:
  "\<exists>p r. read_fs_archive (f_disk demo_dumped) ''T'' (get_tmp_name 1) = Inr p \<and> create_tkv_list demo_env (f_disk demo_dumped) p = Inr [demo_record 9 ''N''] \<and>
     search_key_in_fs_archive demo_env (f_disk demo_dumped) ''T'' (get_tmp_name 1) 1 = Inr (demo_record 9 ''N'')"
proof -
  obtain bs where bs: "archive_rep demo_env (f_disk demo_dumped) ''T'' (get_tmp_name 1) bs [demo_record 9 ''N'']" using demo_dumped_facts(4) by (auto simp: table_rep_def)
  have "ascending [demo_record 9 ''N'']" by (simp add: ascending_def)
  then obtain p where p: "read_fs_archive (f_disk demo_dumped) ''T'' (get_tmp_name 1) = Inr p" "create_tkv_list demo_env (f_disk demo_dumped) p = Inr [demo_record 9 ''N'']"
    "\<forall>k. \<exists>r. search_key_in_fs_archive demo_env (f_disk demo_dumped) ''T'' (get_tmp_name 1) k = Inr r \<and> newest k [demo_record 9 ''N''] r"
    using search_agrees_with_listing [OF demo_libs bs] by blast
  then obtain r where r: "search_key_in_fs_archive demo_env (f_disk demo_dumped) ''T'' (get_tmp_name 1) 1 = Inr r" "newest 1 [demo_record 9 ''N''] r" by blast
  then have "r = demo_record 9 ''N''" by (simp add: newest_def demo_record_def)
  then show ?thesis using p r by blast
qed

text \<open>
  C12. Termination of the writing loops. With blocks of at least two characters writing any records ends, also when the disk
  is full. With blocks of one character the dump of a table whose first record is longer than a character never
  returns: its loop takes blocks without end.
\<close>

theorem writer_terminates:
  assumes "fs_libs e" "bitmap_ok d"
  shows "(2 \<le> e_block_size e \<longrightarrow> (\<exists>w w'. first_block e d = Inr w \<and> write_tkvs e tkvs w = Inr w' \<and> bitmap_ok (w_disk w'))) \<and>
    (e_block_size e = 1 \<longrightarrow> 1 < length tkv \<longrightarrow> dump_table e \<lparr>tb_name = table, tb_tkvs = tkv # tkvs\<rparr> d = Inl Never_Returns)"
proof (intro conjI impI)
  obtain w where w: "first_block e d = Inr w" "bitmap_ok (w_disk w)" "w_block_size w = e_block_size e"
    using fs_libs.take_block_total [OF assms] by (auto simp: first_block_def)
  show "\<exists>w w'. first_block e d = Inr w \<and> write_tkvs e tkvs w = Inr w' \<and> bitmap_ok (w_disk w')" if "2 \<le> e_block_size e"
    using fs_libs.write_tkvs_total [OF assms(1) w(2) that] w that by auto
  show "dump_table e \<lparr>tb_name = table, tb_tkvs = tkv # tkvs\<rparr> d = Inl Never_Returns" if "e_block_size e = 1" "1 < length tkv"
    using fs_libs.write_cut_endless [OF assms(1) that(1) _ that(2) w(2)] w that by (cases tkv) (simp_all add: dump_table_def)
qed

theorem writer_terminates_witness:
  "(\<exists>w w'. first_block demo_env (block_creator 8) = Inr w \<and> write_tkvs demo_env [''9;1;N'', ''5;1;O''] w = Inr w') \<and>
    dump_table (demo_env\<lparr>e_block_size := 1\<rparr>) \<lparr>tb_name = ''T'', tb_tkvs = [''9;1;N'']\<rparr> (block_creator 8) = Inl Never_Returns"
proof
  have "disk_inv demo_env (block_creator 8)" using fs_libs.block_creator_inv [OF demo_libs, of 8] by simp
  then have ok: "bitmap_ok (block_creator 8)" by (simp add: disk_inv_def)
  from writer_terminates [OF demo_libs ok, THEN conjunct1, of "[''9;1;N'', ''5;1;O'']"]
  show "\<exists>w w'. first_block demo_env (block_creator 8) = Inr w \<and> write_tkvs demo_env [''9;1;N'', ''5;1;O''] w = Inr w'" by (auto simp: demo_env_def)
  have "fs_libs (demo_env\<lparr>e_block_size := 1\<rparr>)" by (rule fs_libsI) (simp_all add: demo_env_def std.commons_api_axioms std_ba.bitarray_api_axioms)
  from writer_terminates [OF this ok, THEN conjunct2, of "''9;1;N''" "''T''" "[]"]
  show "dump_table (demo_env\<lparr>e_block_size := 1\<rparr>) \<lparr>tb_name = ''T'', tb_tkvs = [''9;1;N'']\<rparr> (block_creator 8) = Inl Never_Returns" by simp
qed

section \<open>What the search and the interleavings get wrong\<close>

text \<open>
  C13. The search in an archive can return an older record. When a temporary file has two records of a key, the newer one first, and the
  end of a block cuts the older one, the search returns the older one: the timestamp of the record found before the cut is forgotten. Any two
  records with texts of the same length in blocks of two characters more show it.
\<close>

theorem stale_search:
  assumes "fs_libs e" "disk_inv e d" "table_rep e d (tb_name tb) ct c parts tmps" "rec_ok e x" "rec_ok e y" "fr_key y = fr_key x" "fr_timestamp y < fr_timestamp x"
    "tb_tkvs tb = [convert_to_tkv x, convert_to_tkv y]" "to_uppercase (tb_name tb) = tb_name tb" "length (convert_to_tkv y) = length (convert_to_tkv x)"
    "e_block_size e = int (length (convert_to_tkv x)) + 2" "archive_cost [x, y] \<le> free_count e d"
  shows "\<exists>d'. dump_table e tb d = Inr d' \<and> search_key_in_fs_archive e d' (tb_name tb) (get_tmp_name (Suc (length tmps))) (fr_key x) = Inr y \<and> \<not> newest (fr_key x) [x, y] y"
  using fs_libs.stale_record [OF assms(1-6,8-12)] assms(6,7) by (auto simp: newest_def)

theorem stale_search_witness:
  "\<exists>d'. dump_table demo_env \<lparr>tb_name = ''T'', tb_tkvs = [''9;1;N'', ''5;1;O'']\<rparr> (f_disk demo_created) = Inr d' \<and>
     search_key_in_fs_archive demo_env d' ''T'' (get_tmp_name 1) 1 = Inr (demo_record 5 ''O'')"
proof -
  let ?tb = "\<lparr>tb_name = ''T'', tb_tkvs = [''9;1;N'', ''5;1;O'']\<rparr>" and ?x = "demo_record 9 ''N''" and ?y = "demo_record 5 ''O''"
  have "disk_inv demo_env (f_disk demo_created)" using demo_created_facts(2) by (simp add: fs_inv_def)
  moreover have "table_rep demo_env (f_disk demo_created) (tb_name ?tb) 30000 STRONG_CONSISTENCY [[]] []" using demo_created_facts(4) by simp
  moreover have "fr_key ?y = fr_key ?x" "fr_timestamp ?y < fr_timestamp ?x" "fr_key ?x = 1" by (simp_all add: demo_record_def)
  moreover have "tb_tkvs ?tb = [convert_to_tkv ?x, convert_to_tkv ?y]" "to_uppercase (tb_name ?tb) = tb_name ?tb" "length (convert_to_tkv ?y) = length (convert_to_tkv ?x)"
    "e_block_size demo_env = int (length (convert_to_tkv ?x)) + 2" by (simp_all add: demo_records fs_demo_upper demo_env_def)
  moreover have "archive_cost [?x, ?y] \<le> free_count demo_env (f_disk demo_created)" using demo_created_facts(5) by (simp add: archive_cost_def tkvs_cost_def demo_records)
  ultimately show ?thesis
    using stale_search [OF demo_libs _ _ demo_records(1,2), of "f_disk demo_created" ?tb 30000 STRONG_CONSISTENCY "[[]]" "[]"] by auto
qed

lemma demo_later:
  "insert_ok demo_env (demo_insert 20 ''P'')" "rec_ok demo_env (demo_record 20 ''P'')" "convert_to_tkv (demo_record 20 ''P'') = ''20;1;P''"
proof -
  show i: "insert_ok demo_env (demo_insert 20 ''P'')" by (simp add: insert_ok_def demo_insert_def demo_env_def cut_mark_def NUL_def fits_long_def)
  have "inserted demo_env (demo_insert 20 ''P'') = demo_record 20 ''P''" by (simp add: inserted_def demo_insert_def demo_record_def)
  then show "rec_ok demo_env (demo_record 20 ''P'')" using inserted_ok [OF i] by simp
  show "convert_to_tkv (demo_record 20 ''P'') = ''20;1;P''" by code_simp
qed

text \<open>
  C14. A dump between the two parts of a compaction is lost. The compaction reads the temporary files, the dump
  then writes acknowledged records to a new one, and the compaction destroys all temporary files: of the new records only those that were in the table
  before can be left.
\<close>

theorem compaction_loses_dump:
  assumes "fs_libs e" "fs_inv e st" "table_rep e (f_disk st) table ct c parts tmps" "tmps \<noteq> []" "\<forall>r \<in> set rs. rec_ok e r" "2 \<le> e_block_size e"
    "archive_cost rs + (parts_cost parts + tkvs_cost (map convert_to_tkv (concat tmps))) \<le> free_count e (f_disk st)"
  shows "\<exists>l st1 d2 st3 parts'. compaction_read e table st = Inr (Some (l, True), st1) \<and>
    dump_table e \<lparr>tb_name = table, tb_tkvs = map convert_to_tkv rs\<rparr> (f_disk st1) = Inr d2 \<and>
    start_compaction_write e table l True (st1\<lparr>f_disk := d2\<rparr>) = Inr st3 \<and>
    table_rep e (f_disk st3) table ct c parts' [] \<and> set (concat parts') \<subseteq> set (concat tmps) \<union> set (concat parts)"
  using fs_libs.dump_in_compaction [OF assms] .

theorem compaction_loses_dump_witness:
  "\<exists>l st1 d2 st3 parts'. compaction_read demo_env ''T'' demo_dumped = Inr (Some (l, True), st1) \<and>
     dump_table demo_env \<lparr>tb_name = ''T'', tb_tkvs = [''20;1;P'']\<rparr> (f_disk st1) = Inr d2 \<and>
     start_compaction_write demo_env ''T'' l True (st1\<lparr>f_disk := d2\<rparr>) = Inr st3 \<and>
     table_rep demo_env (f_disk st3) ''T'' 30000 STRONG_CONSISTENCY parts' [] \<and> demo_record 20 ''P'' \<notin> set (concat parts')"
proof -
  have "archive_cost [demo_record 20 ''P''] + (parts_cost [[]] + tkvs_cost (map convert_to_tkv (concat [[demo_record 9 ''N'']]))) \<le> free_count demo_env (f_disk demo_dumped)"
    using demo_dumped_facts(5) by (simp add: archive_cost_def parts_cost_def tkvs_cost_def demo_records demo_later)
  moreover have "2 \<le> e_block_size demo_env" "\<forall>r \<in> set [demo_record 20 ''P'']. rec_ok demo_env r" using demo_later(2) by (simp_all add: demo_env_def)
  ultimately have w: "\<exists>l st1 d2 st3 parts'. compaction_read demo_env ''T'' demo_dumped = Inr (Some (l, True), st1) \<and>
     dump_table demo_env \<lparr>tb_name = ''T'', tb_tkvs = map convert_to_tkv [demo_record 20 ''P'']\<rparr> (f_disk st1) = Inr d2 \<and>
     start_compaction_write demo_env ''T'' l True (st1\<lparr>f_disk := d2\<rparr>) = Inr st3 \<and>
     table_rep demo_env (f_disk st3) ''T'' 30000 STRONG_CONSISTENCY parts' [] \<and> set (concat parts') \<subseteq> set (concat [[demo_record 9 ''N'']]) \<union> set (concat [[]])"
    using compaction_loses_dump [OF demo_libs demo_dumped_facts(2,4)] by blast
  have "demo_record 20 ''P'' \<noteq> demo_record 9 ''N''" by (simp add: demo_record_def)
  then show ?thesis using w unfolding list.map demo_later(3) by fastforce
qed

text \<open>
  A SELECT that a dump overtakes does not find a record that is there. The search reads the archives before the dump has written
  the record and waits for the dump before it reads the memory table, which is then empty: the answer is that the key does not exist, although
  the same search finds it when no dump runs.
\<close>

theorem select_misses_dump:
  assumes "fs_libs e" "fs_inv e st" "2 \<le> e_block_size e" "\<forall>tb \<in> set (f_mem_table st). has_table (f_disk st) (tb_name tb)" "mem_cost (f_mem_table st) \<le> free_count e (f_disk st)"
    "table_rep e (f_disk st) table ct c parts tmps" "\<forall>t \<in> set tmps. ascending t" "\<forall>r \<in> set (concat tmps @ concat parts). fr_key r \<noteq> k"
    "mem_rep e st table mem" "r \<in> set mem" "fr_key r = k"
  shows "(\<exists>x y z st1 st2 st3. search_archives e table k st = Inr (x, y, z, st1) \<and> dump e st1 = Inr st2 \<and> search_finish e table k (x, y, z, st2) = Inr (not_found, st3)) \<and>
    (\<exists>y. search_key e table k st = Inr (y, st) \<and> y \<in> set mem \<and> fr_key y = k)"
proof
  have k: "0 \<le> k" using assms(9-11) by (auto simp: mem_rep_def rec_ok_def)
  show "\<exists>x y z st1 st2 st3. search_archives e table k st = Inr (x, y, z, st1) \<and> dump e st1 = Inr st2 \<and> search_finish e table k (x, y, z, st2) = Inr (not_found, st3)"
    using fs_libs.select_across_dump [OF assms(1-8) k] .
  obtain y where y: "search_key e table k st = Inr (y, st)" "newest k (concat tmps @ mem @ concat parts) y"
    using fs_reader.search_key_newest [OF fs_libs.axioms(1) [OF assms(1)] assms(6,7,9) fs_inv_free [OF assms(2)] k] by blast
  then have "y \<in> set mem" "fr_key y = k" using assms(8,10,11) by (auto simp: newest_def split: if_splits)
  then show "\<exists>y. search_key e table k st = Inr (y, st) \<and> y \<in> set mem \<and> fr_key y = k" using y(1) by blast
qed

theorem select_misses_dump_witness:
  "\<exists>x y z st1 st2 st3. search_archives demo_env ''T'' 1 demo_inserted = Inr (x, y, z, st1) \<and> dump demo_env st1 = Inr st2 \<and>
     search_finish demo_env ''T'' 1 (x, y, z, st2) = Inr (not_found, st3) \<and> f_mem_table demo_inserted = [\<lparr>tb_name = ''T'', tb_tkvs = [''9;1;N'']\<rparr>]"
proof -
  have rep: "table_rep demo_env (f_disk demo_inserted) ''T'' 30000 STRONG_CONSISTENCY [[]] []" using demo_created_facts(4) demo_inserted_facts(3) by simp
  then have h: "\<forall>tb \<in> set (f_mem_table demo_inserted). has_table (f_disk demo_inserted) (tb_name tb)" by (simp add: demo_inserted_facts(5) table_rep_def)
  have m: "mem_cost (f_mem_table demo_inserted) \<le> free_count demo_env (f_disk demo_inserted)"
    using demo_created_facts(5) by (simp add: demo_inserted_facts(3,5) mem_cost_def tkvs_cost_def)
  have "2 \<le> e_block_size demo_env" "fr_key (demo_record 9 ''N'') = 1" by (simp_all add: demo_env_def demo_record_def)
  then show ?thesis
    using select_misses_dump [OF demo_libs demo_inserted_facts(2) _ h m rep _ _ demo_inserted_facts(4), of 1 "demo_record 9 ''N''"] demo_inserted_facts(5) by fastforce
qed

text \<open>
  C15. DROP leaves the records of the table in the memory table. The next dump then opens a file in the directory that was removed and
  crashes the process; and when the table is created again before the dump, a SELECT in the new table finds the newest of the old records.
\<close>

theorem drop_then_dump:
  fixes input :: drop_input_t
  defines "table \<equiv> to_uppercase (drp_table_name input)"
  assumes "fs_libs e" "fs_inv e st" "2 \<le> e_block_size e" "has_table (f_disk st) table" "table \<noteq> to_uppercase dropped_name"
    "tb \<in> set (f_mem_table st)" "tb_name tb = table" "mem_rep e st table mem"
  shows "\<exists>st'. process_drop e input st = Inr (0, st') \<and> dump e st' = Inl Null_Pointer \<and>
    (\<forall>cre st''. cre_table_name cre = drp_table_name input \<longrightarrow> 1 \<le> cre_partitions cre \<longrightarrow> fits_long (cre_compaction_time cre) \<longrightarrow> process_create e cre st' = Inr (0, st'') \<longrightarrow>
      (\<forall>k. \<exists>r. process_select e \<lparr>sel_table_name = drp_table_name input, sel_key = k\<rparr> st'' = Inr (answer table r, st'') \<and> newest (uint k) mem r))"
  using fs_libs.drop_keeps_records [OF assms(2-4)] assms(5-9) unfolding table_def by blast

theorem drop_then_dump_witness: "\<exists>st'. process_drop demo_env \<lparr>drp_table_name = ''t''\<rparr> demo_inserted = Inr (0, st') \<and> dump demo_env st' = Inl Null_Pointer"
proof -
  let ?i = "\<lparr>drp_table_name = ''t''\<rparr>"
  have u: "drp_table_name ?i = ''t''" by simp
  have "has_table (f_disk demo_inserted) ''T''" using demo_created_facts(4) by (simp add: demo_inserted_facts(3) table_rep_def)
  moreover have "''T'' \<noteq> to_uppercase dropped_name" "2 \<le> e_block_size demo_env" using fs_demo_upper(2,3) by (simp_all add: demo_env_def)
  moreover have "\<lparr>tb_name = ''T'', tb_tkvs = [''9;1;N'']\<rparr> \<in> set (f_mem_table demo_inserted)" by (simp add: demo_inserted_facts(5))
  ultimately show ?thesis
    using drop_then_dump [OF demo_libs demo_inserted_facts(2), of ?i "\<lparr>tb_name = ''T'', tb_tkvs = [''9;1;N'']\<rparr>" "[demo_record 9 ''N'']"] demo_inserted_facts(4)
    unfolding u fs_demo_upper(1) by auto
qed

text \<open>
  An INSERT that is acknowledged between the writing of a dump and the clearing of the memory table leaves no trace: the state is that of the dump
  alone.
\<close>

theorem insert_during_dump_lost:
  assumes "fs_libs e" "fs_inv e st" "2 \<le> e_block_size e" "\<forall>tb \<in> set (f_mem_table st). has_table (f_disk st) (tb_name tb)" "mem_cost (f_mem_table st) \<le> free_count e (f_disk st)"
    "has_table (f_disk st) (to_uppercase (ins_table_name input))" "insert_ok e input"
  shows "\<exists>st1 st2 st'. dump_write e st = Inr st1 \<and> process_insert e input st1 = Inr (0, st2) \<and> dump e st = Inr st' \<and> free_memtable st2 = st'"
  using fs_libs.insert_in_dump [OF assms] .

text \<open>
  A DROP before the compaction thread of the table has started makes that thread crash: it reads the metadata of a table with the name that
  marks dropped ones.
\<close>

theorem drop_before_thread_starts:
  assumes "fs_libs e" "fs_inv e st" "has_table (f_disk st) (to_uppercase (drp_table_name input))" "to_uppercase (drp_table_name input) \<noteq> to_uppercase dropped_name"
    "find_in_table_state_list e (to_uppercase (drp_table_name input)) st = Some s" "find_in_table_state_list_with_thread (ts_compaction_thread s) st = Some s" "0 < f_thread_semaphore st"
  shows "\<exists>st'. process_drop e input st = Inr (0, st') \<and> compact_thread_begin (ts_compaction_thread s) st' = Inl Null_Pointer"
  using fs_libs.drop_before_begin [OF assms] .

end
