(* ===== verification/System.thy ===== *)
theory System
  imports Client Mem_Demo FS_Demo
begin

text \<open>
  A memory and the file system together: the requests of \<open>Mem_Ops\<close> go through the client and the server loop of the
  library to the operations of \<open>FS_Ops\<close>, and the answers come back to the callbacks of the memory.
\<close>

section \<open>The server of the file system\<close>

definition answer_with :: "('a \<Rightarrow> content) \<Rightarrow> ('a \<times> fs_state) result \<Rightarrow> (content \<times> fs_state) result" where
  \<comment> \<open>\<open>set_response(response, result)\<close>\<close>
  "answer_with f r = rbind r (\<lambda>(x, st). Inr (f x, st))"

definition fs_server_callbacks :: "fs_env \<Rightarrow> fs_state callbacks" where
  "fs_server_callbacks e operation =
     (case operation of
        SELECT_IN \<Rightarrow> Some (\<lambda>c st. rbind (as_select c) (\<lambda>i. answer_with Record_Content (FS_Ops.process_select e i st)))
      | INSERT_IN \<Rightarrow> Some (\<lambda>c st. rbind (as_insert c) (\<lambda>i. answer_with Int_Content (FS_Ops.process_insert e i st)))
      | CREATE_IN \<Rightarrow> Some (\<lambda>c st. rbind (as_create c) (\<lambda>i. answer_with Int_Content (FS_Ops.process_create e i st)))
      | DESCRIBE_IN \<Rightarrow> Some (\<lambda>c st. rbind (as_describe c) (\<lambda>i. rbind (FS_Ops.process_describe i st) (\<lambda>l. Inr (Metadata_Content l, st))))
      | DROP_IN \<Rightarrow> Some (\<lambda>c st. rbind (as_drop c) (\<lambda>i. answer_with Int_Content (FS_Ops.process_drop e i st)))
      | VALUE_IN \<Rightarrow> Some (\<lambda>_ st. Inr (Int_Content (process_value e), st))
      | MULTIINSERT_IN \<Rightarrow> Some (\<lambda>c st. rbind (as_inserts c) (\<lambda>l. answer_with Int_Content (process_multiinsert e l st)))
      | _ \<Rightarrow> None)"

definition fs_request :: "string \<Rightarrow> int \<Rightarrow> socket_operation_t \<Rightarrow> content \<Rightarrow> int list \<Rightarrow> request_t" where
  \<comment> \<open>\<open>do_simple_request(MEMORY, g_config.filesystem_ip, g_config.filesystem_port, ...)\<close> of a memory\<close>
  "fs_request ip port operation c sizes =
     \<lparr>rq_process = MEMORY, rq_ip = ip, rq_port = port, rq_operation = operation, rq_content = c, rq_elements_length = sizes, rq_success = True\<rparr>"

abbreviation fs_exchange where
  "fs_exchange ch ch' os e r st result finish st' \<equiv> exchange ch ch' os r FILESYSTEM (fs_server_callbacks e) st result finish st'"

lemma fs_source: "valid_source FILESYSTEM MEMORY"
  by (simp add: valid_source_def)

section \<open>Entries of a memory\<close>

lemma cached_entry:
  assumes "mem_rel st c" "c (T, k) = Some (ts, v, m)"
  shows "Mem_Inv.entry_ok st (ts, k, v)" "map upc T = T"
proof -
  let ?sz = "g_total_page_size st"
  obtain g where g: "Mem_Inv.mem_inv st g" "c = cache ?sz g (g_segment_list st)" using assms(1) by (auto simp: mem_rel_def)
  have "((T, k), (ts, v, m)) \<in> set (cache_entries ?sz g (g_segment_list st))" using assms(2) g(2) by (auto simp: cache_def dest: map_of_SomeD)
  then obtain s p where s: "s \<in> set (g_segment_list st)" "p \<in> set (seg_page s)" "entry_of ?sz g (seg_name s) p = ((T, k), (ts, v, m))"
    by (auto simp: cache_entries_def seg_entries_def)
  show "map upc T = T" using s(1,3) mem_invD(4) [OF g(1)] fst_entry_of [of ?sz g "seg_name s" p] by (auto simp: segs_ok_def names_ok_def)
  obtain ts' k' v' where "g (page_no ?sz p) = Some (ts', k', v')" "Mem_Inv.entry_ok st (ts', k', v')"
    using table_page_entry [OF g(1) segment_pages_table [OF s(1,2)]] by metis
  then show "Mem_Inv.entry_ok st (ts, k, v)" using s(3) by (auto simp: entry_of_def)
qed

lemma upc_NUL: "NUL = upc c \<longleftrightarrow> c = NUL"
proof (cases "97 \<le> (of_char c :: nat) \<and> (of_char c :: nat) \<le> 122")
  case True
  then have "(of_char c - 32 :: nat) < 256" by linarith
  then have "(of_char (upc c) :: nat) = of_char c - 32" using True mod_less [of "of_char c - 32 :: nat" 256] by (simp only: upc_def simp_thms if_True of_char_of)
  moreover have "(of_char NUL :: nat) = 0" by (simp add: NUL_def)
  ultimately have "upc c \<noteq> NUL" "c \<noteq> NUL" using True by auto
  then show ?thesis by auto
qed (auto simp: upc_def)

lemma upc_name: "no_nul (map upc s) = no_nul s" "short_name (map upc s) = short_name s" "str_size (map upc s) = str_size s"
proof -
  have "NUL \<in> upc ` set s \<longleftrightarrow> NUL \<in> set s" by (auto simp: image_iff upc_NUL)
  then show "no_nul (map upc s) = no_nul s" by (simp add: no_nul_def)
qed (simp_all add: str_size_def short_name_def)

section \<open>SELECT through the network\<close>

lemma answer_fits:
  assumes "newest k rs r" "\<forall>x \<in> set rs. rec_ok e x" "tkv_size e \<le> 2 ^ 23" "no_nul T" "short_name T"
  shows "wf_record (answer T r) \<and> short_name (rec_table_name (answer T r)) \<and> short_name (rec_value (answer T r))"
proof (cases "r = not_found")
  case True
  then show ?thesis using assms(4,5) by (simp add: answer_def not_found_def wf_record_def no_nul_def NUL_def fits_long_def fits_int_def short_name_def str_size_def)
next
  case False
  then have r: "rec_ok e r" using assms(1,2) by (auto simp: newest_def split: if_splits)
  then have "length (fr_value r) + 2 < tkv_size e" by (simp add: rec_ok_def convert_to_tkv_def tkv_text_def)
  then show ?thesis using r assms(3,4,5) by (simp add: answer_def wf_record_def rec_ok_def fits_int_def short_name_def str_size_def)
qed

lemma fs_select_exchange:
  assumes net: "recv_ok ch" "recv_ok ch'" "connects os ip port"
    and fs: "fs_libs e" "fs_inv e st" "table_rep e (f_disk st) (map upc name) ct cs parts tmps" "\<forall>t \<in> set tmps. ascending t" "mem_rep e st (map upc name) mem" "tkv_size e \<le> 2 ^ 23"
    and name: "no_nul name" "short_name name"
  shows "\<exists>r. newest (uint k) (concat tmps @ mem @ concat parts) r \<and>
    (\<forall>result finish st'. fs_exchange ch ch' os e (fs_request ip port SELECT_IN (Select_Content \<lparr>sel_table_name = map upc name, sel_key = k\<rparr>) (elements_select_in_info \<lparr>sel_table_name = name, sel_key = k\<rparr>)) st result finish st'
       \<longleftrightarrow> result = Some (Record_Content (answer (map upc name) r)) \<and> finish = Inr () \<and> st' = st)"
proof -
  let ?x = "\<lparr>sel_table_name = map upc name, sel_key = k\<rparr>"
  have u: "to_uppercase (sel_table_name ?x) = map upc name" by (simp add: to_uppercase_def)
  obtain r where r: "FS_Ops.process_select e ?x st = Inr (answer (map upc name) r, st)" "newest (uint k) (concat tmps @ mem @ concat parts) r"
    using fs_reader.select_newest [OF fs_libs.axioms(1) [OF fs(1)], of st ?x ct cs parts tmps mem] fs(3,4,5) fs_inv_free [OF fs(2)] unfolding u by auto
  have "\<forall>x \<in> set (concat tmps @ mem @ concat parts). rec_ok e x" using table_rep_nonneg [OF fs(3)] fs(5) by (auto simp: mem_rep_def)
  then have wf: "wf_record (answer (map upc name) r) \<and> short_name (rec_table_name (answer (map upc name) r)) \<and> short_name (rec_value (answer (map upc name) r))"
    using answer_fits [OF r(2) _ fs(6)] name by (simp add: upc_name)
  have sz: "elements_select_in_info \<lparr>sel_table_name = name, sel_key = k\<rparr> = elements_select_in_info ?x" by (simp add: elements_select_in_info_def upc_name)
  have cb: "fs_server_callbacks e SELECT_IN = Some (\<lambda>c st. rbind (as_select c) (\<lambda>i. answer_with Record_Content (FS_Ops.process_select e i st)))"
    by (simp add: fs_server_callbacks_def)
  have "fs_exchange ch ch' os e (fs_request ip port SELECT_IN (Select_Content ?x) (elements_select_in_info ?x)) st result finish st'
      \<longleftrightarrow> result = Some (Record_Content (answer (map upc name) r)) \<and> finish = Inr () \<and> st' = st" for result finish st'
    by (rule select_service.exchange_service [where cb = "fs_server_callbacks e" and x = ?x and y = "answer (map upc name) r" and success = True, OF net fs_source _ _ cb _ wf])
      (use name r(1) in \<open>simp_all add: wf_select_def upc_name elements_select_in_info_def as_select_def answer_with_def fs_request_def\<close>)
  then show ?thesis using r(2) unfolding sz by blast
qed

lemma fs_answer_time:
  assumes "table_rep e d T ct cs parts tmps" "mem_rep e st T mem" "newest k (concat tmps @ mem @ concat parts) r"
  shows "\<exists>x \<in> set (concat tmps @ mem @ concat parts). fr_key x = k \<Longrightarrow> r \<in> set (concat tmps @ mem @ concat parts) \<and> fr_key r = k \<and> 0 \<le> fr_timestamp r"
    "\<not> (\<exists>x \<in> set (concat tmps @ mem @ concat parts). fr_key x = k) \<Longrightarrow> fr_timestamp r = -1"
  using assms table_rep_nonneg [OF assms(1)] by (auto simp: newest_def mem_rep_def rec_ok_def not_found_def)

text \<open>
  C1. A SELECT of a key that a memory does not hold, through the whole system, when the memory has a free page and in every
  temporary file of the table the records of a key have ascending timestamps: the memory leaves its state and asks the file
  system; every connection to the file system ends with the newest of its records of the key, and leaves the file system as
  it was. The memory stores the record in the free page as a clean entry and answers with it. (With records in another order in a
  temporary file the file system may answer with an older one: \<open>stale_search\<close>.) When the file system has no
  record of the key its answer has the timestamp -1, and the memory, asked by another process, tests a pointer it has not set.
\<close>

theorem select_through_the_system:
  fixes input :: select_input_t
  defines "T \<equiv> map upc (sel_table_name input)" and "k \<equiv> uint (sel_key input)"
  assumes "commons_api cm" "mem_rel mst c" "g_mem_op_semaphore mst = 1" "c (T, k) = None" "card (dom c) < pcount mst"
    and "fs_libs e" "fs_inv e st" "table_rep e (f_disk st) T ct cs parts tmps" "\<forall>t \<in> set tmps. ascending t" "mem_rep e st T mem" "tkv_size e \<le> 2 ^ 23"
    and "recv_ok ch" "recv_ok ch'" "connects os ip port" "no_nul (sel_table_name input)" "short_name (sel_table_name input)"
    and "\<forall>x \<in> set (concat tmps @ mem @ concat parts). fr_key x = k \<longrightarrow> Mem_Inv.entry_ok mst (fr_timestamp x, k, fr_value x)"
  shows "\<exists>r content sizes. newest k (concat tmps @ mem @ concat parts) r \<and>
    Mem_Ops.process_select cm mst input response = Inr (mst, [Do_Simple_Request SELECT_IN content sizes Select_Callback response]) \<and>
    (\<forall>result finish st'. fs_exchange ch ch' os e (fs_request ip port SELECT_IN content sizes) st result finish st' \<longleftrightarrow>
       result = Some (Record_Content (answer T r)) \<and> finish = Inr () \<and> st' = st) \<and>
    (if \<exists>x \<in> set (concat tmps @ mem @ concat parts). fr_key x = k
     then \<exists>mst'. select_callback cm mst (Some (answer T r)) response = Inr (mst', respond response (Record_Content (answer T r))) \<and>
       mem_rel mst' (c((T, k) \<mapsto> (fr_timestamp r, fr_value r, False))) \<and> same_config mst mst' \<and> g_mem_op_semaphore mst' = 1
     else select_callback cm mst (Some (answer T r)) response = (if response = None then Inr (mst, []) else Inl Uninitialised))"
proof -
  let ?rs = "concat tmps @ mem @ concat parts"
  let ?x = "\<lparr>sel_table_name = T, sel_key = sel_key input\<rparr>" and ?sz = "elements_select_in_info input"
  have input: "input = \<lparr>sel_table_name = sel_table_name input, sel_key = sel_key input\<rparr>" by simp
  obtain r where r: "newest k ?rs r" "\<forall>result finish st'. fs_exchange ch ch' os e (fs_request ip port SELECT_IN (Select_Content ?x) ?sz) st result finish st' \<longleftrightarrow>
      result = Some (Record_Content (answer T r)) \<and> finish = Inr () \<and> st' = st"
    using fs_select_exchange [OF assms(14-16) assms(8,9) _ assms(11) _ assms(13), of "sel_table_name input" ct cs parts mem "sel_key input"] assms(10,12,17,18) input
    unfolding T_def k_def by metis
  have sel: "Mem_Ops.process_select cm mst input response = Inr (mst, [Do_Simple_Request SELECT_IN (Select_Content ?x) ?sz Select_Callback response])"
    using commons_api.process_select_spec [OF assms(3-5) refl refl, of input response] assms(6)
    by (simp add: select_request_def commons_api.to_upper [OF assms(3)] T_def k_def)
  note t = fs_answer_time [OF assms(10,12) r(1)]
  have "if \<exists>x \<in> set ?rs. fr_key x = k
     then \<exists>mst'. select_callback cm mst (Some (answer T r)) response = Inr (mst', respond response (Record_Content (answer T r))) \<and>
       mem_rel mst' (c((T, k) \<mapsto> (fr_timestamp r, fr_value r, False))) \<and> same_config mst mst' \<and> g_mem_op_semaphore mst' = 1
     else select_callback cm mst (Some (answer T r)) response = (if response = None then Inr (mst, []) else Inl Uninitialised)"
  proof (cases "\<exists>x \<in> set ?rs. fr_key x = k")
    case True
    note tr = t(1) [OF True]
    then have "Mem_Inv.entry_ok mst (rec_timestamp (answer T r), rec_key (answer T r), rec_value (answer T r))" "c (T, rec_key (answer T r)) = None"
      using assms(6,19) by (auto simp: answer_def)
    then show ?thesis
      using True tr commons_api.select_callback_spec(1) [OF assms(3-5), of T "answer T r" response] assms(7) by (simp add: answer_def T_def)
  next
    case False
    then show ?thesis using t(2) [OF False] commons_api.post_wait [OF assms(3) assms(5)] by (auto simp: select_callback_def answer_def)
  qed
  then show ?thesis using r sel by blast
qed

definition whole_reads :: "bytes \<Rightarrow> nat \<Rightarrow> nat" where
  "whole_reads s n = min n (length s)"

definition demo_os :: os_api where
  "demo_os = \<lparr>os_socket = 3, os_inet_pton = (\<lambda>_. 1), os_connect = (\<lambda>_ _. 0)\<rparr>"

lemma demo_net: "recv_ok whole_reads" "connects demo_os ip port"
  by (auto simp: recv_ok_def whole_reads_def connects_def demo_os_def Suc_le_eq)

definition demo_reply :: record_t where
  "demo_reply = \<lparr>rec_table_name = ''T'', rec_timestamp = 9, rec_key = 1, rec_value = ''N''\<rparr>"

lemma system_upper: "map upc ''t'' = ''T''" "upc CHR ''t'' = CHR ''T''"
  by code_simp+

theorem select_through_the_system_witness:
  "\<exists>content sizes mst'. Mem_Ops.process_select std_commons (demo_free True) demo_select None = Inr (demo_free True, [Do_Simple_Request SELECT_IN content sizes Select_Callback None]) \<and>
     fs_exchange whole_reads whole_reads demo_os demo_env (fs_request ''10.0.0.1'' 5003 SELECT_IN content sizes) demo_dumped (Some (Record_Content demo_reply)) (Inr ()) demo_dumped \<and>
     select_callback std_commons (demo_free True) (Some demo_reply) None = Inr (mst', []) \<and>
     mem_rel mst' [(''T'', 7) \<mapsto> (3, ''a'', True), (''T'', 1) \<mapsto> (9, ''N'', False)]"
proof -
  let ?rs = "concat [[demo_record 9 ''N'']] @ [] @ concat [[]]"
  have T: "map upc (sel_table_name demo_select) = ''T''" "uint (sel_key demo_select) = 1" by (simp_all add: demo_select_def system_upper)
  have m: "mem_rep demo_env demo_dumped ''T'' []" using demo_dumped_facts(3) by (simp add: mem_rep_def search_table_in_memtable_def)
  have sz: "tkv_size demo_env \<le> 2 ^ 23" "no_nul (sel_table_name demo_select)" "short_name (sel_table_name demo_select)" "\<forall>t \<in> set [[demo_record 9 ''N'']]. ascending t"
    by (simp_all add: tkv_size_def demo_env_def digits_in_a_number_length dec_nat.simps demo_select_def no_nul_def NUL_def short_name_def str_size_def fits_int_def ascending_def)
  have mm: "g_mem_op_semaphore (demo_free True) = 1" "pcount (demo_free True) = 2" by (simp_all add: demo_free_def demo_mem_def)
  have ok: "\<forall>x \<in> set ?rs. fr_key x = 1 \<longrightarrow> Mem_Inv.entry_ok (demo_free True) (fr_timestamp x, 1, fr_value x)"
    by (simp add: demo_record_def time_ok_def key_ok_def value_ok_def demo_free_def demo_mem_def dec_int_digit fits_long_def no_nul_def NUL_def)
  obtain r content sizes where r: "newest 1 ?rs r"
    "Mem_Ops.process_select std_commons (demo_free True) demo_select None = Inr (demo_free True, [Do_Simple_Request SELECT_IN content sizes Select_Callback None])"
    "\<forall>result finish st'. fs_exchange whole_reads whole_reads demo_os demo_env (fs_request ''10.0.0.1'' 5003 SELECT_IN content sizes) demo_dumped result finish st' \<longleftrightarrow>
       result = Some (Record_Content (answer ''T'' r)) \<and> finish = Inr () \<and> st' = demo_dumped"
    "\<exists>mst'. select_callback std_commons (demo_free True) (Some (answer ''T'' r)) None = Inr (mst', respond None (Record_Content (answer ''T'' r))) \<and>
       mem_rel mst' ([(''T'', 7) \<mapsto> (3, ''a'', True)]((''T'', 1) \<mapsto> (fr_timestamp r, fr_value r, False)))"
    using select_through_the_system [OF std.commons_api_axioms demo_free_rel mm(1) _ _ demo_libs demo_dumped_facts(2) _ sz(4) _ sz(1) demo_net(1,1,2) sz(2,3), where ip = "''10.0.0.1''" and port = 5003 and response = None and parts = "[[]]" and mem = "[]" and ct = 30000 and cs = STRONG_CONSISTENCY]
      demo_dumped_facts(4) m ok mm(2) unfolding T by (auto simp: demo_record_def)
  then have "r = demo_record 9 ''N''" by (simp add: newest_def demo_record_def)
  then show ?thesis using r by (auto simp: answer_def demo_record_def demo_reply_def respond_def)
qed

section \<open>A journal through the network\<close>

lemma multiinsert_adds:
  assumes "fs_libs e" "fs_inv e st" "\<forall>i \<in> set l. has_table (f_disk st) (to_uppercase (ins_table_name i)) \<and> insert_ok e i"
  shows "\<exists>st'. multiinsert_loop e l 0 st = Inr (0, st') \<and> fs_inv e st' \<and> f_disk st' = f_disk st \<and>
    (\<forall>t mem. to_uppercase t = t \<longrightarrow> mem_rep e st t mem \<longrightarrow>
       mem_rep e st' t (mem @ map (inserted e) (filter (\<lambda>i. to_uppercase (ins_table_name i) = t) l)))"
  using assms(2,3)
proof (induction l arbitrary: st)
  case (Cons i l)
  obtain st1 where st1: "FS_Ops.process_insert e i st = Inr (0, st1)" "fs_inv e st1" "f_disk st1 = f_disk st"
    "\<forall>t mem. to_uppercase t = t \<longrightarrow> mem_rep e st t mem \<longrightarrow> mem_rep e st1 t (if t = to_uppercase (ins_table_name i) then mem @ [inserted e i] else mem)"
    using fs_libs.insert_adds [OF assms(1) Cons.prems(1), of i] Cons.prems(2) by auto
  obtain st' where st': "multiinsert_loop e l 0 st1 = Inr (0, st')" "fs_inv e st'" "f_disk st' = f_disk st1"
    "\<forall>t mem. to_uppercase t = t \<longrightarrow> mem_rep e st1 t mem \<longrightarrow> mem_rep e st' t (mem @ map (inserted e) (filter (\<lambda>i. to_uppercase (ins_table_name i) = t) l))"
    using Cons.IH [OF st1(2)] Cons.prems(2) st1(3) by auto
  have "mem_rep e st' t (mem @ map (inserted e) (filter (\<lambda>i. to_uppercase (ins_table_name i) = t) (i # l)))" if "to_uppercase t = t" "mem_rep e st t mem" for t mem
  proof (cases "t = to_uppercase (ins_table_name i)")
    case True
    then have "mem_rep e st1 t (mem @ [inserted e i])" using st1(4) that by metis
    then show ?thesis using st'(4) that(1) True by fastforce
  next
    case False
    then have "mem_rep e st1 t mem" using st1(4) that by metis
    then show ?thesis using st'(4) that(1) False by fastforce
  qed
  then show ?case using st1 st' by simp
qed auto

definition journal_ready :: "fs_env \<Rightarrow> fs_state \<Rightarrow> cache_map \<Rightarrow> bool" where
  \<comment> \<open>the tables of the dirty entries exist, and what the entries hold the file system can store\<close>
  "journal_ready e st c \<longleftrightarrow> (\<forall>T k ts v. c (T, k) = Some (ts, v, True) \<longrightarrow>
     has_table (f_disk st) T \<and> no_nul T \<and> short_name T \<and> 0 \<le> ts \<and> ts \<le> e_now e \<and> cut_mark \<notin> set v)"

definition entry_record :: "int \<Rightarrow> int \<Rightarrow> string \<Rightarrow> fs_record" where
  "entry_record k ts v = \<lparr>fr_timestamp = ts, fr_key = k, fr_value = v\<rparr>"

lemma uint_key: "key_ok k \<Longrightarrow> uint (word_of_int k :: u16) = k"
  by (simp add: key_ok_def uint_word_of_int)

lemma journal_entry:
  assumes "mem_rel mst c" "journal_ready e st c" "g_value_size mst \<le> e_max_value_size e" "e_max_value_size e < 2 ^ 23" "0 \<le> e_now e" "fits_long (e_now e)"
    "c (T, k) = Some (ts, v, True)" "i = to_insert ((T, k), (ts, v, True))"
  shows "has_table (f_disk st) (to_uppercase (ins_table_name i)) \<and> insert_ok e i" "wf_insert i \<and> short_name (ins_table_name i) \<and> short_name (ins_value i)"
    "to_uppercase (ins_table_name i) = T \<and> inserted e i = entry_record k ts v"
proof -
  note ce = cached_entry [OF assms(1,7)]
  have j: "has_table (f_disk st) T" "no_nul T" "short_name T" "0 \<le> ts" "ts \<le> e_now e" "cut_mark \<notin> set v" using assms(2,7) unfolding journal_ready_def by blast+
  have v: "v \<noteq> []" "CHR '';'' \<notin> set v" "no_nul v" "int (length v) \<le> e_max_value_size e" "fits_long ts" "key_ok k" using ce(1) assms(3) by (auto simp: value_ok_def time_ok_def)
  show "has_table (f_disk st) (to_uppercase (ins_table_name i)) \<and> insert_ok e i" using assms(5,6,8) ce(2) j v by (simp add: insert_ok_def to_uppercase_def)
  have "short_name v" using v(4) assms(4) by (simp add: short_name_def str_size_def)
  then show "wf_insert i \<and> short_name (ins_table_name i) \<and> short_name (ins_value i)" using assms(8) j v by (simp add: wf_insert_def)
  show "to_uppercase (ins_table_name i) = T \<and> inserted e i = entry_record k ts v" using assms(8) ce(2) j(4) uint_key [OF v(6)] by (simp add: to_uppercase_def inserted_def entry_record_def)
qed

lemma journal_records:
  assumes "journal_of c l" "\<And>T k ts v. c (T, k) = Some (ts, v, True) \<Longrightarrow>
    to_uppercase (ins_table_name (to_insert ((T, k), (ts, v, True)))) = T \<and> inserted e (to_insert ((T, k), (ts, v, True))) = entry_record k ts v"
  shows "inserted e ` {i \<in> set l. to_uppercase (ins_table_name i) = T} = {entry_record k ts v |k ts v. c (T, k) = Some (ts, v, True)}"
proof -
  have l: "set l = {to_insert ((T, k), (ts, v, True)) |T k ts v. c (T, k) = Some (ts, v, True)}" using assms(1) by (simp only: journal_of_def)
  have "entry_record k ts v \<in> inserted e ` {i \<in> set l. to_uppercase (ins_table_name i) = T}" if "c (T, k) = Some (ts, v, True)" for k ts v
  proof -
    have "to_insert ((T, k), (ts, v, True)) \<in> set l" unfolding l using that by blast
    then show ?thesis using assms(2) [OF that] by (intro image_eqI [of _ _ "to_insert ((T, k), (ts, v, True))"]) (simp_all del: to_insert.simps)
  qed
  moreover have "\<exists>k ts v. c (T, k) = Some (ts, v, True) \<and> inserted e i = entry_record k ts v" if i: "i \<in> set l" "to_uppercase (ins_table_name i) = T" for i
  proof -
    obtain T' k ts v where d: "c (T', k) = Some (ts, v, True)" "i = to_insert ((T', k), (ts, v, True))" using i(1) unfolding l by blast
    have "T' = T" "inserted e i = entry_record k ts v" using assms(2) [OF d(1)] i(2) unfolding d(2) by simp_all
    then show ?thesis using d(1) by blast
  qed
  ultimately show ?thesis by blast
qed

text \<open>
  C2. A journal through the whole system. When a memory with at most 31 dirty entries journals, the tables of these entries
  exist and the file system takes values of the same size, every connection ends with the answer 0 and one
  state of the file system: the memory table of each table has, behind what it had, one record for each dirty entry
  of the table, with its key, timestamp and value, and no other; the disk is unchanged. The memory is then empty. So no dirty entry
  is lost.
\<close>

theorem journal_through_the_system:
  assumes "commons_api cm" "mem_rel mst c" "response = None \<or> (\<exists>r. response = Some r \<and> rsp_result r = None)"
    and "fs_libs e" "fs_inv e st" "journal_ready e st c" "g_value_size mst \<le> e_max_value_size e" "e_max_value_size e < 2 ^ 23" "0 \<le> e_now e" "fits_long (e_now e)"
    and "card {x. \<exists>ts v. c x = Some (ts, v, True)} \<le> 31" "recv_ok ch" "recv_ok ch'" "connects os ip port"
  shows "\<exists>content sizes st' mst'.
    process_journal cm mst response = Inr (take_semaphore mst, [Do_Simple_Request MULTIINSERT_IN content sizes Journal_Callback response]) \<and>
    (\<forall>result finish s. fs_exchange ch ch' os e (fs_request ip port MULTIINSERT_IN content sizes) st result finish s \<longleftrightarrow>
       result = Some (Int_Content 0) \<and> finish = Inr () \<and> s = st') \<and>
    fs_inv e st' \<and> f_disk st' = f_disk st \<and>
    (\<forall>T mem. map upc T = T \<longrightarrow> mem_rep e st T mem \<longrightarrow>
       (\<exists>new. mem_rep e st' T (mem @ new) \<and> set new = {entry_record k ts v |k ts v. c (T, k) = Some (ts, v, True)})) \<and>
    journal_callback cm (take_semaphore mst) (Some 0) response = Inr (sem_post_neg mst', respond response (Int_Content 0)) \<and> mem_rel mst' Map.empty"
proof -
  obtain l where l: "journal_of c l" "journaling cm mst response = Inr (take_semaphore mst,
      [Do_Simple_Request MULTIINSERT_IN (Inserts_Content l) (elements_multiinsert_in_info l) Journal_Callback response])"
    using commons_api.journaling_spec [OF assms(1,2)] by metis
  have dirty: "\<exists>T k ts v. c (T, k) = Some (ts, v, True) \<and> i = to_insert ((T, k), (ts, v, True))" if "i \<in> set l" for i using l(1) that unfolding journal_of_def by blast
  note entry = journal_entry [OF assms(2,6-10)]
  have ok: "\<forall>i \<in> set l. has_table (f_disk st) (to_uppercase (ins_table_name i)) \<and> insert_ok e i" using dirty entry(1) by blast
  have short: "length l \<le> 31" using l(1) assms(11) by (simp add: journal_of_def)
  have each: "\<forall>i \<in> set l. wf_insert i \<and> short_name (ins_table_name i) \<and> short_name (ins_value i)" using dirty entry(2) by blast
  have wf: "wf_inserts l" by (rule wf_inserts_short) (use each short in \<open>auto simp: list_all_iff\<close>)
  obtain st' where st': "multiinsert_loop e l 0 st = Inr (0, st')" "fs_inv e st'" "f_disk st' = f_disk st"
    "\<forall>t mem. to_uppercase t = t \<longrightarrow> mem_rep e st t mem \<longrightarrow> mem_rep e st' t (mem @ map (inserted e) (filter (\<lambda>i. to_uppercase (ins_table_name i) = t) l))"
    using multiinsert_adds [OF assms(4,5) ok] by blast
  have len: "length (elements_multiinsert_in_info l) \<le> 127" using l(1) assms(11) by (simp add: elements_multiinsert_in_info_def journal_of_def length_concat o_def sum_list_triv)
  have cb: "fs_server_callbacks e MULTIINSERT_IN = Some (\<lambda>c st. rbind (as_inserts c) (\<lambda>l. answer_with Int_Content (process_multiinsert e l st)))"
    by (simp add: fs_server_callbacks_def)
  have x: "fs_exchange ch ch' os e (fs_request ip port MULTIINSERT_IN (Inserts_Content l) (elements_multiinsert_in_info l)) st result finish s \<longleftrightarrow>
      result = Some (Int_Content 0) \<and> finish = Inr () \<and> s = st'" for result finish s
    by (rule multiinsert_service.exchange_service [where cb = "fs_server_callbacks e" and x = l and y = 0 and success = True, OF assms(12-14) fs_source wf len cb])
      (simp_all add: st'(1) as_inserts_def answer_with_def process_multiinsert_def fs_request_def fits_int_def)
  note new = journal_records [OF l(1) entry(3) [OF _ refl]]
  have "mem_rel (take_semaphore mst) c" using assms(2) by (simp add: take_semaphore_def)
  then obtain mst' where m: "journal_callback cm (take_semaphore mst) (Some 0) response = Inr (sem_post_neg mst', respond response (Int_Content 0))" "mem_rel mst' Map.empty"
    using commons_api.journal_callback_ok [OF assms(1) _ assms(3)] by metis
  have "\<exists>new. mem_rep e st' T (mem @ new) \<and> set new = {entry_record k ts v |k ts v. c (T, k) = Some (ts, v, True)}" if "map upc T = T" "mem_rep e st T mem" for T mem
    using st'(4) that new [of T] by (intro exI [of _ "map (inserted e) (filter (\<lambda>i. to_uppercase (ins_table_name i) = T) l)"]) (simp add: to_uppercase_def)
  then show ?thesis using l(2) x st'(2,3) m unfolding process_journal_def by blast
qed

theorem journal_through_the_system_witness:
  "\<exists>content sizes st' mst' new.
     process_journal std_commons (demo_mem True True) None = Inr (take_semaphore (demo_mem True True), [Do_Simple_Request MULTIINSERT_IN content sizes Journal_Callback None]) \<and>
     fs_exchange whole_reads whole_reads demo_os demo_env (fs_request ''10.0.0.1'' 5003 MULTIINSERT_IN content sizes) demo_created (Some (Int_Content 0)) (Inr ()) st' \<and>
     mem_rep demo_env st' ''T'' new \<and> set new = {entry_record 7 3 ''a'', entry_record 8 5 ''b''} \<and>
     journal_callback std_commons (take_semaphore (demo_mem True True)) (Some 0) None = Inr (sem_post_neg mst', []) \<and> mem_rel mst' Map.empty"
proof -
  let ?c = "demo_map True True"
  have dirty: "?c (T, k) = Some (ts, v, True) \<longleftrightarrow> T = ''T'' \<and> (k = 7 \<and> ts = 3 \<and> v = ''a'' \<or> k = 8 \<and> ts = 5 \<and> v = ''b'')" for T k ts v by (auto simp: demo_map_def)
  have h: "has_table (f_disk demo_created) ''T''" using demo_created_facts(4) by (simp add: table_rep_def)
  have ready: "journal_ready demo_env demo_created ?c"
    using h unfolding journal_ready_def dirty by (auto simp: demo_env_def no_nul_def NUL_def short_name_def str_size_def fits_int_def cut_mark_def)
  have "{x. \<exists>ts v. ?c x = Some (ts, v, True)} = {(''T'', 7), (''T'', 8)}" by (auto simp: dirty)
  then have card: "card {x. \<exists>ts v. ?c x = Some (ts, v, True)} \<le> 31" by simp
  have e: "g_value_size (demo_mem True True) \<le> e_max_value_size demo_env" "e_max_value_size demo_env < 2 ^ 23" "0 \<le> e_now demo_env" "fits_long (e_now demo_env)"
    by (simp_all add: demo_env_def demo_mem_def fits_int_def fits_long_def)
  have m: "mem_rep demo_env demo_created ''T'' []" using demo_created_facts(3) by (simp add: mem_rep_def search_table_in_memtable_def)
  obtain content sizes st' mst' where x:
    "process_journal std_commons (demo_mem True True) None = Inr (take_semaphore (demo_mem True True), [Do_Simple_Request MULTIINSERT_IN content sizes Journal_Callback None])"
    "\<forall>result finish s. fs_exchange whole_reads whole_reads demo_os demo_env (fs_request ''10.0.0.1'' 5003 MULTIINSERT_IN content sizes) demo_created result finish s \<longleftrightarrow>
       result = Some (Int_Content 0) \<and> finish = Inr () \<and> s = st'"
    "\<forall>T mem. map upc T = T \<longrightarrow> mem_rep demo_env demo_created T mem \<longrightarrow>
       (\<exists>new. mem_rep demo_env st' T (mem @ new) \<and> set new = {entry_record k ts v |k ts v. ?c (T, k) = Some (ts, v, True)})"
    "journal_callback std_commons (take_semaphore (demo_mem True True)) (Some 0) None = Inr (sem_post_neg mst', respond None (Int_Content 0))" "mem_rel mst' Map.empty"
    using journal_through_the_system [OF std.commons_api_axioms demo_rel disjI1 [OF refl] demo_libs demo_created_facts(2) ready e card demo_net(1,1,2), of "''10.0.0.1''" 5003]
    by (elim exE conjE) (rule that, assumption+)
  obtain new where "mem_rep demo_env st' ''T'' new" "set new = {entry_record k ts v |k ts v. ?c (''T'', k) = Some (ts, v, True)}"
    using x(3) [rule_format, OF upc_T(1) m] by auto
  moreover have "{entry_record k ts v |k ts v. ?c (''T'', k) = Some (ts, v, True)} = {entry_record 7 3 ''a'', entry_record 8 5 ''b''}" unfolding dirty by auto
  ultimately have n: "mem_rep demo_env st' ''T'' new" "set new = {entry_record 7 3 ''a'', entry_record 8 5 ''b''}" by simp_all
  have r: "respond None (Int_Content 0) = []" by (simp add: respond_def)
  show ?thesis using x(1,2,4,5) n unfolding r by blast
qed

end
