(* ===== verification/Spec2Isabelle.thy ===== *)
theory Spec2Isabelle
  imports Lib_Theorems Mem_Theorems Gossip_Theorems Kernel_Theorems Sched_Theorems FS_Theorems System
begin

text \<open>
  Lissandra is a distributed key-value store of three kinds of processes written in C, with a library they
  share (\<open>src/lib\<close>) and a tool that formats the disk (\<open>src/block_creator\<close>).

  \<^item> The \<^emph>\<open>kernel\<close> (\<open>src/kernel\<close>) reads commands and scripts, schedules them as processes on a number of processors and sends each
    statement to a memory chosen by the consistency criterion of its table.
  \<^item> A \<^emph>\<open>memory\<close> (\<open>src/memoria\<close>) caches records in one paged buffer, answers from it, asks the file system for the rest and
    sends it the dirty entries by a journal. Memories tell each other, and the kernel, by gossiping which of them are alive.
  \<^item> The \<^emph>\<open>file system\<close> (\<open>src/filesystem\<close>) keeps inserts in a memory table, dumps them to temporary files and compacts these into the
    partitions of a table; all files are lists of blocks, with a bitmap of the blocks in use.

  Every process has a console (\<open>lib/generic_console.c\<close>). A request between two of them is a connection of its own with a
  handshake, one packet and one answer (\<open>lib/generic_client.c\<close>, \<open>lib/generic_server.c\<close>, \<open>lib/utils/network.c\<close>,
  \<open>lib/utils/serializer.c\<close>).

  \<^bold>\<open>Conventions.\<close> A structure is a record, an enumeration a datatype, a \<open>uint16_t\<close> a 16-bit word; an \<open>int\<close> or \<open>long\<close> is an integer, and where
  its width matters the cast (\<open>int_cast\<close>) or the range (\<open>fits_int\<close>, \<open>fits_long\<close>) is written out. A C function is a function with the same name. Its
  errors are the values of \<open>c_error\<close>: a null pointer, memory that was freed, an access out of bounds, an uninitialised
  variable, a division by zero, a wrong cast or enumeration value, a loop without an end, and a wait on a semaphore that is not
  free (\<open>Blocked\<close>). State is passed explicitly; where the code shares structures through pointers (the memories of the kernel, the control
  blocks of its scheduler) they live in a heap of addresses. What a thread does between two waits is one
  step, and threads are sequences or interleavings of such steps. A file, a socket, the clock, the random generator and the
  functions of the commons library are parameters: \<open>commons_api\<close> and \<open>bitarray_api\<close> state what that library documents of its string functions and bit
  arrays, \<open>recv_ok\<close> what POSIX says of \<open>recv\<close>; all have concrete instances.

  \<^bold>\<open>Shared.\<close> \<open>Prelude\<close> (C strings in buffers, little-endian integers, decimal numerals, the commons library), \<open>Types\<close>
  (\<open>operation_types.h\<close>, \<open>network_types.h\<close>, \<open>shared_types.h\<close>), \<open>Lib_Utils\<close> (the helpers of \<open>lib/utils\<close>; locale \<open>id_allocator\<close> for the two generators of identifiers).

  \<^bold>\<open>Library.\<close> \<open>Serializer\<close> has the sizes, bytes and reading of all messages, with the contract of a message format as locale
  \<open>codec\<close>, interpreted for each message. \<open>Network\<close> has packets with the release of their memory, the receive loop (which ends for every way the stream is cut) and the request loop of a server; \<open>Client\<close> has
  \<open>setup_connection\<close> and \<open>do_request\<close>, and the locale \<open>service\<close>, of two codecs, in which a request with its answer is shown to end in exactly one way.
  \<open>Console\<close> has the whole parser and dispatcher, \<open>Config\<close> the configuration of the three processes (locale \<open>configured\<close>). The properties
  are in \<open>Lib_Theorems\<close>: no console line crashes a process, printed commands are read back, messages and packets are read back up to 127
  elements and what happens with more, a request without an answer, and what a reloaded configuration changes.

  \<^bold>\<open>Memory.\<close> \<open>Mem_Tables\<close> has the buffer, pages and segments (\<open>memory_tables.c\<close>, \<open>memory_utils.c\<close>), \<open>Mem_Ops\<close> the operations and
  callbacks (\<open>core/operations.c\<close>); an operation returns the requests it starts and the response it sets as events. The abstract state is a map from table and key to
  timestamp, value and dirty flag; \<open>Mem_Inv\<close>, \<open>Mem_Cache\<close>, \<open>Mem_Rel\<close> and \<open>Mem_Evict\<close> give the invariant and the refinement
  relation \<open>mem_rel\<close>, \<open>Mem_Spec\<close>, \<open>Mem_Props\<close> and \<open>Mem_Journal\<close> one specification for each operation, and \<open>Mem_Theorems\<close> the properties, with
  the interleaving that loses an acknowledged insert.

  \<^bold>\<open>Gossiping.\<close> \<open>Gossip\<close> (\<open>memoria/src/gossiping\<close>) with the contract of a merge as locale \<open>gossip_table\<close>, which the kernel's table satisfies too;
  \<open>Gossip_Net\<close> is a network of any number of memories whose messages may be late, repeated or lost; the properties are in \<open>Gossip_Theorems\<close>.

  \<^bold>\<open>Kernel.\<close> \<open>Kernel_Memories\<close>, \<open>Kernel_Inv\<close>, \<open>Kernel_Select\<close> (\<open>core/memories\<close>, \<open>core/gossiping\<close>), \<open>Kernel_Describer\<close> (\<open>core/describer\<close>), \<open>Kernel_Stats\<close>
  (\<open>core/statistics\<close>) with \<open>Kernel_Theorems\<close>; \<open>Kernel_Sched\<close>, \<open>Kernel_Exec\<close>, \<open>Kernel_Scripts\<close> (\<open>core/scheduler\<close>, \<open>core/operations.c\<close>). The body of
  a scheduler loop is a sequence of the statements that write shared state (\<open>lts_parts\<close>, \<open>slot_parts\<close>, \<open>check_parts\<close>). \<open>Sched_Threads\<close> is the
  step relation of the long-term scheduler, the short-term scheduler, the executors and the callbacks, a whole body being one step; \<open>Sched_Inv\<close> has its invariant by rule
  induction, \<open>Sched_Live\<close>, \<open>Sched_Quantum\<close> and \<open>Sched_Refine\<close> progress, the number of statements a process runs, and that the functions of \<open>Kernel_Exec\<close> are such
  steps. An executor holds no lock, so bodies can overlap: a run in which one is interrupted and the invariant breaks is part of \<open>process_in_one_queue\<close>. The properties are in \<open>Sched_Theorems\<close>.

  \<^bold>\<open>File system.\<close> \<open>FS_Disk\<close> (files, metadata, archives, bitmap, the block creator), \<open>FS_Blocks\<close> (the layout of records in blocks, written and
  read byte by byte), \<open>FS_Ops\<close> (operations, memory table, search, dump, compaction, the threads). \<open>FS_Layout\<close>, \<open>FS_Writer\<close>, \<open>FS_Files\<close> and \<open>FS_Archive\<close> show that what is written is read back;
  \<open>FS_Search\<close> and \<open>FS_Tables\<close> that a search finds the newest record; \<open>FS_Inv\<close>, \<open>FS_Space\<close>, \<open>FS_Dump\<close>, \<open>FS_Free\<close>,
  \<open>FS_Create\<close>, \<open>FS_Merge\<close> and \<open>FS_Compact\<close> the invariant of the disk and each operation; \<open>FS_Machine\<close> the reachable states; \<open>FS_Demo\<close> a
  small file system for closed instances; \<open>FS_Races\<close> what goes wrong when threads interleave. The properties are in \<open>FS_Theorems\<close>.

  \<^bold>\<open>Together.\<close> \<open>System\<close> connects a memory and the file system: a SELECT that misses and a journal, from the operation of the memory through
  client, stream, server loop and file system back to the callback of the memory.

  \<^bold>\<open>Bounds and termination.\<close> A loop that is not structural has a measure: the bytes left to receive, the
  characters left to write, the blocks or bytes left to read. The numbers of temporary files are looked for up to one more than a directory has entries, which is
  always enough. The one recursion with fuel is that of scripts that run scripts (\<open>on_inner_run_request\<close>), whose fuel is the depth of the call stack: a script that runs itself
  does not return, and a theorem about a script has fuel for the depth it needs. The loop that writes a cut record has no measure in general: it is
  a partial function (\<open>write_cut_loop\<close>), shown to return for blocks of two characters and to run forever, which is \<open>Never_Returns\<close>, for blocks of one (\<open>writer_terminates\<close>); theorems about writing assume blocks of at least two. Dumps and compactions are shown to succeed when the free blocks are at least a bound computed
  from the records (\<open>mem_cost\<close>, \<open>compact_room\<close>); without room the code writes to block 0. Records hold no semicolon, newline or zero byte and fit the buffers
  (\<open>rec_ok\<close>, \<open>insert_ok\<close>, \<open>entry_ok\<close>); a journal through the network has at most 31 entries, since the receiver reads the number of
  elements, four for each insert, through a signed \<open>char\<close>.

  \<^bold>\<open>Not modelled.\<close> Allocation and release of memory other than where a freed structure is used again; log messages and \<open>generic_logger.c\<close>;
  delays and the timer threads, whose callers are the steps themselves; \<open>main\<close> functions and the creation of threads; the loop that accepts connections; \<open>SIGPIPE\<close>
  on a connection closed while sending. The scheduler's step relation interleaves whole loop bodies, reads the quantum once and answers each
  request once (the double answer of a JOURNAL is \<open>journal_callback_twice\<close>); overlapping bodies are looked at in one run only. Likewise
  the operations of the file system and the memory are interleaved at the points where they wait or send. In the file system: table names with a slash, files directly in \<open>Tables/\<close>, the
  6-byte name buffer of the block creator, and functions that nothing calls, as most of \<open>int_arrays.c\<close>. Percentages of the metrics are kept as the two numbers of which
  they are the quotient.
\<close>

end
